(* ===== verification/Js_Prelude.thy ===== *)
theory Js_Prelude
  imports Complex_Main
begin

text \<open>
  The JavaScript values the adaptor inspects, and the lemmas every component shares.

  A value whose TypeScript type is \<open>unknown\<close> is a \<open>js\<close>: the JSON values together with
  \<open>undefined\<close>. Numbers are IEEE doubles in the program; here a number is NaN, an infinity or
  an exact rational, which contains every finite double. An object is the list of its own
  enumerable properties in insertion order. A string is a list of code units below 256 (so
  \<open>length\<close> is the JavaScript \<open>length\<close>). Exotic objects, accessors, prototypes and
  sharing appear only in the theory on strict JSON, which has an explicit heap.
\<close>

section \<open>Collections of facts\<close>

named_theorems js_simps \<open>unfolding rules of the value primitives\<close>
named_theorems key_simps \<open>rules on property names and exact key sets\<close>

section \<open>Results\<close>

type_synonym ('e, 'a) result = "'e + 'a"

definition res_bind :: "('e, 'a) result \<Rightarrow> ('a \<Rightarrow> ('e, 'b) result) \<Rightarrow> ('e, 'b) result" where
  "res_bind r f = (case r of Inl e \<Rightarrow> Inl e | Inr a \<Rightarrow> f a)"

definition guard_err :: "bool \<Rightarrow> 'e \<Rightarrow> ('e, unit) result" where
  "guard_err b e = (if b then Inr () else Inl e)"

lemma res_bind_simps [simp]:
  "res_bind (Inl e) f = Inl e"
  "res_bind (Inr a) f = f a"
  by (simp_all add: res_bind_def)

lemma res_bind_eq_Inr [simp]: "res_bind r f = Inr b \<longleftrightarrow> (\<exists>a. r = Inr a \<and> f a = Inr b)"
  by (cases r) auto

lemma res_bind_eq_Inl: "res_bind r f = Inl e \<longleftrightarrow> r = Inl e \<or> (\<exists>a. r = Inr a \<and> f a = Inl e)"
  by (cases r) auto

lemma res_bind_assoc: "res_bind (res_bind r f) g = res_bind r (\<lambda>a. res_bind (f a) g)"
  by (cases r) auto

lemma res_bind_cong:
  "r = r' \<Longrightarrow> (\<And>a. r' = Inr a \<Longrightarrow> f a = g a) \<Longrightarrow> res_bind r f = res_bind r' g"
  by (cases r') auto

lemma res_bind_Inr_right [simp]: "res_bind r Inr = r"
  by (cases r) auto

lemma guard_err_simps [simp]:
  "guard_err b e = Inr u \<longleftrightarrow> b"
  "guard_err b e = Inl e' \<longleftrightarrow> \<not> b \<and> e' = e"
  by (auto simp: guard_err_def)

text \<open>\<open>traverse\<close> is \<open>xs.map(f)\<close> where \<open>f\<close> may throw: the first failure wins.\<close>

fun traverse :: "('a \<Rightarrow> ('e, 'b) result) \<Rightarrow> 'a list \<Rightarrow> ('e, 'b list) result" where
  "traverse f [] = Inr []"
| "traverse f (x # xs) = res_bind (f x) (\<lambda>y. res_bind (traverse f xs) (\<lambda>ys. Inr (y # ys)))"

lemma traverse_eq_Inr: "traverse f xs = Inr ys \<longleftrightarrow> list_all2 (\<lambda>x y. f x = Inr y) xs ys"
  by (induction xs arbitrary: ys) (auto simp: list_all2_Cons1)

lemma traverse_id:
  "(\<And>x. x \<in> set xs \<Longrightarrow> f x = Inr (g x)) \<Longrightarrow> traverse f xs = Inr (map g xs)"
  by (induction xs) auto

section \<open>Numbers\<close>

datatype jsnum = NaN | PosInf | NegInf | Fin rat

definition isFinite :: "jsnum \<Rightarrow> bool" where
  "isFinite n = (case n of Fin _ \<Rightarrow> True | _ \<Rightarrow> False)"

definition isInteger :: "jsnum \<Rightarrow> bool" where
  "isInteger n = (case n of Fin q \<Rightarrow> of_int \<lfloor>q\<rfloor> = q | _ \<Rightarrow> False)"

definition MAX_SAFE_INTEGER :: rat where
  "MAX_SAFE_INTEGER = 9007199254740991"

definition isSafeInteger :: "jsnum \<Rightarrow> bool" where
  "isSafeInteger n = (case n of
     Fin q \<Rightarrow> of_int \<lfloor>q\<rfloor> = q \<and> \<bar>q\<bar> \<le> MAX_SAFE_INTEGER | _ \<Rightarrow> False)"

text \<open>\<open>a < b\<close> and \<open>a <= b\<close> of JavaScript: every comparison with NaN is false.\<close>

fun num_less :: "jsnum \<Rightarrow> jsnum \<Rightarrow> bool" where
  "num_less NaN _ = False"
| "num_less _ NaN = False"
| "num_less NegInf b = (b \<noteq> NegInf)"
| "num_less PosInf _ = False"
| "num_less (Fin a) (Fin b) = (a < b)"
| "num_less (Fin a) PosInf = True"
| "num_less (Fin a) NegInf = False"

definition num_le :: "jsnum \<Rightarrow> jsnum \<Rightarrow> bool" where
  "num_le a b = (num_less a b \<or> (a = b \<and> a \<noteq> NaN))"

text \<open>\<open>a === b\<close> on numbers: NaN is not equal to itself.\<close>

definition num_eq :: "jsnum \<Rightarrow> jsnum \<Rightarrow> bool" where
  "num_eq a b = (a = b \<and> a \<noteq> NaN)"

text \<open>\<open>a + b\<close> on the exact integers the program adds (counters, token counts).\<close>

fun num_add :: "jsnum \<Rightarrow> jsnum \<Rightarrow> jsnum" where
  "num_add (Fin a) (Fin b) = Fin (a + b)"
| "num_add NaN _ = NaN"
| "num_add _ NaN = NaN"
| "num_add PosInf NegInf = NaN"
| "num_add NegInf PosInf = NaN"
| "num_add PosInf _ = PosInf"
| "num_add _ PosInf = PosInf"
| "num_add NegInf _ = NegInf"
| "num_add _ NegInf = NegInf"

lemma num_less_Fin_simps [simp]:
  "num_less (Fin a) n \<longleftrightarrow> (case n of NaN \<Rightarrow> False | PosInf \<Rightarrow> True | NegInf \<Rightarrow> False | Fin b \<Rightarrow> a < b)"
  "num_less n (Fin a) \<longleftrightarrow> (case n of NaN \<Rightarrow> False | PosInf \<Rightarrow> False | NegInf \<Rightarrow> True | Fin b \<Rightarrow> b < a)"
  by (cases n; simp)+

lemma num_le_Fin [simp]: "num_le (Fin a) (Fin b) \<longleftrightarrow> a \<le> b"
  by (auto simp: num_le_def)

lemma num_less_trans: "num_less a b \<Longrightarrow> num_less b c \<Longrightarrow> num_less a c"
  by (cases a; cases b; cases c) auto

lemma num_le_less_trans: "num_le a b \<Longrightarrow> num_less b c \<Longrightarrow> num_less a c"
  by (auto simp: num_le_def dest: num_less_trans)

lemma num_less_irrefl [simp]: "\<not> num_less a a"
  by (cases a) auto

lemma num_le_not_less: "num_le a b \<Longrightarrow> \<not> num_less b a"
  by (cases a; cases b) (auto simp: num_le_def)

lemma not_num_less_Fin: "\<not> num_less a (Fin b) \<Longrightarrow> a \<noteq> NaN \<Longrightarrow> num_le (Fin b) a"
  by (cases a) (auto simp: num_le_def)

lemma isSafeInteger_cases:
  assumes "isSafeInteger n"
  obtains i where "n = Fin (of_int i)" and "\<bar>i\<bar> \<le> 9007199254740991"
proof (cases n)
  case (Fin q)
  with assms have q: "of_int \<lfloor>q\<rfloor> = q" and le: "\<bar>q\<bar> \<le> MAX_SAFE_INTEGER"
    by (simp_all add: isSafeInteger_def)
  from le have "\<bar>of_int \<lfloor>q\<rfloor> :: rat\<bar> \<le> of_int 9007199254740991"
    by (simp add: q MAX_SAFE_INTEGER_def)
  then have "\<bar>\<lfloor>q\<rfloor>\<bar> \<le> 9007199254740991"
    by (metis of_int_abs of_int_le_iff)
  with that [of "\<lfloor>q\<rfloor>"] Fin q show thesis by simp
qed (use assms in \<open>simp_all add: isSafeInteger_def\<close>)

lemma isSafeInteger_of_int [simp]:
  "isSafeInteger (Fin (of_int i)) \<longleftrightarrow> \<bar>i\<bar> \<le> 9007199254740991"
proof -
  have "\<bar>of_int i :: rat\<bar> \<le> of_int 9007199254740991 \<longleftrightarrow> \<bar>i\<bar> \<le> 9007199254740991"
    by (metis of_int_abs of_int_le_iff)
  then show ?thesis by (simp add: isSafeInteger_def MAX_SAFE_INTEGER_def)
qed

lemma isSafeInteger_finite: "isSafeInteger n \<Longrightarrow> isFinite n"
  by (auto simp: isSafeInteger_def isFinite_def split: jsnum.splits)

lemma isSafeInteger_not_NaN [simp]: "isSafeInteger n \<Longrightarrow> n \<noteq> NaN"
  by (auto simp: isSafeInteger_def)

section \<open>Values\<close>

datatype js =
    JUndef
  | JNull
  | JBool bool
  | JNum jsnum
  | JStr string
  | JArr "js list"
  | JObj "(string \<times> js) list"

type_synonym js_object = "(string \<times> js) list"

abbreviation jint :: "int \<Rightarrow> js" where
  "jint i \<equiv> JNum (Fin (of_int i))"

text \<open>\<open>o.k\<close>: an absent property reads as \<open>undefined\<close>.\<close>

definition get_prop :: "js_object \<Rightarrow> string \<Rightarrow> js" where
  "get_prop ob k = (case map_of ob k of None \<Rightarrow> JUndef | Some v \<Rightarrow> v)"

definition keys_of :: "js_object \<Rightarrow> string list" where
  "keys_of ob = map fst ob"

definition hasOwn :: "js_object \<Rightarrow> string \<Rightarrow> bool" where
  "hasOwn ob k = (k \<in> set (keys_of ob))"

text \<open>\<open>o[k] = v\<close>: overwrites in place or appends at the end.\<close>

fun set_prop :: "js_object \<Rightarrow> string \<Rightarrow> js \<Rightarrow> js_object" where
  "set_prop [] k v = [(k, v)]"
| "set_prop ((k', v') # ob) k v = (if k' = k then (k, v) # ob else (k', v') # set_prop ob k v)"

text \<open>The test \<open>typeof v === "object" && v !== null && !Array.isArray(v)\<close>.\<close>

definition as_record :: "js \<Rightarrow> js_object option" where
  "as_record v = (case v of JObj ob \<Rightarrow> Some ob | _ \<Rightarrow> None)"

definition as_string :: "js \<Rightarrow> string option" where
  "as_string v = (case v of JStr s \<Rightarrow> Some s | _ \<Rightarrow> None)"

definition as_array :: "js \<Rightarrow> js list option" where
  "as_array v = (case v of JArr xs \<Rightarrow> Some xs | _ \<Rightarrow> None)"

lemma as_record_eq_Some [simp]: "as_record v = Some ob \<longleftrightarrow> v = JObj ob"
  by (cases v) (auto simp: as_record_def)

lemma as_string_eq_Some [simp]: "as_string v = Some s \<longleftrightarrow> v = JStr s"
  by (cases v) (auto simp: as_string_def)

lemma as_array_eq_Some [simp]: "as_array v = Some xs \<longleftrightarrow> v = JArr xs"
  by (cases v) (auto simp: as_array_def)

lemma as_record_JObj [simp]: "as_record (JObj ob) = Some ob"
  by simp

lemma as_string_JStr [simp]: "as_string (JStr s) = Some s"
  by simp

lemma as_array_JArr [simp]: "as_array (JArr xs) = Some xs"
  by simp

lemma get_prop_simps [simp]:
  "get_prop [] k = JUndef"
  "get_prop ((k', v) # ob) k = (if k' = k then v else get_prop ob k)"
  by (simp_all add: get_prop_def)

lemma keys_of_simps [simp]:
  "keys_of [] = []"
  "keys_of ((k, v) # ob) = k # keys_of ob"
  "keys_of (xs @ ys) = keys_of xs @ keys_of ys"
  by (simp_all add: keys_of_def)

lemma get_prop_append:
  "get_prop (xs @ ys) k = (if k \<in> set (keys_of xs) then get_prop xs k else get_prop ys k)"
  by (induction xs) auto

lemma get_prop_undef: "k \<notin> set (keys_of ob) \<Longrightarrow> get_prop ob k = JUndef"
  by (induction ob) auto

lemma hasOwn_get: "get_prop ob k \<noteq> JUndef \<Longrightarrow> hasOwn ob k"
  by (metis get_prop_undef hasOwn_def)

lemma map_of_get_prop: "hasOwn ob k \<Longrightarrow> map_of ob k = Some (get_prop ob k)"
  by (induction ob) (auto simp: hasOwn_def)

lemma get_prop_set_prop [simp]:
  "get_prop (set_prop ob k v) k' = (if k' = k then v else get_prop ob k')"
  by (induction ob k v rule: set_prop.induct) auto

lemma keys_set_prop [simp]: "set (keys_of (set_prop ob k v)) = insert k (set (keys_of ob))"
  by (induction ob k v rule: set_prop.induct) auto

lemma distinct_set_prop [simp]: "distinct (keys_of ob) \<Longrightarrow> distinct (keys_of (set_prop ob k v))"
  by (induction ob k v rule: set_prop.induct) auto

text \<open>The own keys of an object are exactly the expected ones.\<close>

definition exact_keys :: "js_object \<Rightarrow> string list \<Rightarrow> bool" where
  "exact_keys ob expected = (set (keys_of ob) = set expected)"

lemma exact_keys_refl [simp]: "exact_keys ob (map fst ob)"
  by (simp add: exact_keys_def keys_of_def)

text \<open>
  Equality of JSON values up to the order of object keys: the left value has exactly the
  keys of the right one, with related values.
\<close>

fun js_sim :: "js \<Rightarrow> js \<Rightarrow> bool" where
  "js_sim (JObj ob) (JObj p) =
     (exact_keys ob (map fst p) \<and> (\<forall>(k, w) \<in> set p. js_sim (get_prop ob k) w))"
| "js_sim (JArr xs) (JArr ys) = list_all2 js_sim xs ys"
| "js_sim v w = (v = w)"

lemma js_sim_JObj: "js_sim v (JObj p) \<longleftrightarrow>
    (\<exists>ob. v = JObj ob \<and> exact_keys ob (map fst p) \<and>
      (\<forall>(k, w) \<in> set p. js_sim (get_prop ob k) w))"
  by (cases v) auto

lemma js_sim_leaf [simp]:
  "js_sim v (JBool b) \<longleftrightarrow> v = JBool b"
  "js_sim v (JNum n) \<longleftrightarrow> v = JNum n"
  "js_sim v (JStr s) \<longleftrightarrow> v = JStr s"
  "js_sim v JNull \<longleftrightarrow> v = JNull"
  by (cases v; simp)+

lemma js_sim_JArr_leaf [simp]:
  "js_sim v (JArr (map JStr ss)) \<longleftrightarrow> v = JArr (map JStr ss)"
proof (cases v)
  case (JArr xs)
  have "list_all2 js_sim xs (map JStr ss) \<longleftrightarrow> xs = map JStr ss"
    by (induction ss arbitrary: xs) (auto simp: list_all2_Cons2)
  with JArr show ?thesis by simp
qed auto

section \<open>Strings\<close>

text \<open>JavaScript white space and line terminators among the code units below 256.\<close>

definition js_space :: "char \<Rightarrow> bool" where
  "js_space c = (let n = of_char c :: nat in (9 \<le> n \<and> n \<le> 13) \<or> n = 32 \<or> n = 160)"

definition trim :: "string \<Rightarrow> string" where
  "trim s = rev (dropWhile js_space (rev (dropWhile js_space s)))"

text \<open>The test \<open>/[\r\n]/\<close>.\<close>

definition has_newline :: "string \<Rightarrow> bool" where
  "has_newline s = list_ex (\<lambda>c. (of_char c :: nat) = 10 \<or> (of_char c :: nat) = 13) s"

fun starts_with :: "string \<Rightarrow> string \<Rightarrow> bool" where
  "starts_with s [] = True"
| "starts_with [] (p # ps) = False"
| "starts_with (c # s) (p # ps) = (c = p \<and> starts_with s ps)"

lemma starts_with_iff: "starts_with s p \<longleftrightarrow> (\<exists>r. s = p @ r)"
  by (induction s p rule: starts_with.induct) auto

lemma starts_with_append [simp]: "starts_with (p @ r) p"
  by (auto simp: starts_with_iff)

definition join_with :: "char \<Rightarrow> string list \<Rightarrow> string" where
  "join_with c ss = (case ss of [] \<Rightarrow> [] | s # rest \<Rightarrow> s @ concat (map (\<lambda>r. c # r) rest))"

text \<open>Joining with a separator that occurs in no part is injective.\<close>

lemma split_at_separator:
  assumes "c \<notin> set a" and "c \<notin> set b" and "a @ c # x = b @ c # y"
  shows "a = b \<and> x = y"
  using assms
proof (induction a arbitrary: b)
  case Nil
  then show ?case by (cases b) auto
next
  case (Cons h a)
  then show ?case by (cases b) auto
qed

lemma join_with_Cons2: "join_with c (a # b # r) = a @ c # join_with c (b # r)"
  by (simp add: join_with_def)

lemma join_with_inject:
  assumes "length ss = length ts"
    and "\<And>s. s \<in> set ss \<Longrightarrow> c \<notin> set s" and "\<And>t. t \<in> set ts \<Longrightarrow> c \<notin> set t"
    and "join_with c ss = join_with c ts"
  shows "ss = ts"
  using assms
proof (induction ss ts rule: list_induct2)
  case Nil
  then show ?case by simp
next
  case (Cons s ss t ts)
  show ?case
  proof (cases ss)
    case Nil
    with Cons show ?thesis by (simp add: join_with_def)
  next
    case (Cons s' ss')
    with Cons.hyps obtain t' ts' where ts: "ts = t' # ts'" by (cases ts) auto
    with Cons Cons.prems have "s @ c # join_with c ss = t @ c # join_with c ts"
      by (simp add: join_with_Cons2)
    with Cons.prems(1,2) have "s = t \<and> join_with c ss = join_with c ts"
      by (intro split_at_separator) auto
    with Cons.IH Cons.prems(1,2) show ?thesis by auto
  qed
qed

text \<open>\<open>s.split(d)\<close> for a separator of one character.\<close>

fun split_on :: "char \<Rightarrow> string \<Rightarrow> string list" where
  "split_on d [] = [[]]"
| "split_on d (c # s) = (if c = d then [] # split_on d s
     else (case split_on d s of [] \<Rightarrow> [[c]] | w # ws \<Rightarrow> (c # w) # ws))"

text \<open>\<open>toLowerCase\<close> on code units below 256.\<close>

definition lower_char :: "char \<Rightarrow> char" where
  "lower_char c = (let n = of_char c :: nat in
     if 65 \<le> n \<and> n \<le> 90 \<or> 192 \<le> n \<and> n \<le> 222 \<and> n \<noteq> 215 then char_of (n + 32) else c)"

definition toLowerCase :: "string \<Rightarrow> string" where
  "toLowerCase s = map lower_char s"

text \<open>\<open>ss.join(", ")\<close>.\<close>

definition comma_joined :: "string list \<Rightarrow> string" where
  "comma_joined ss = (case ss of [] \<Rightarrow> '''' | s # rest \<Rightarrow> s @ concat (map (\<lambda>r. '', '' @ r) rest))"

text \<open>\<open>s.includes(t)\<close> on strings.\<close>

fun str_includes :: "string \<Rightarrow> string \<Rightarrow> bool" where
  "str_includes [] t = (t = [])"
| "str_includes (c # s) t = (starts_with (c # s) t \<or> str_includes s t)"

lemma str_includes_iff: "str_includes s t \<longleftrightarrow> (\<exists>a b. s = a @ t @ b)"
proof (induction s)
  case (Cons c s)
  have "(\<exists>a b. c # s = a @ t @ b) \<longleftrightarrow> (\<exists>b. c # s = t @ b) \<or> (\<exists>a b. s = a @ t @ b)"
    by (metis append_Cons append_Nil neq_Nil_conv list.inject)
  with Cons show ?case by (auto simp: starts_with_iff)
qed auto

section \<open>Lists without duplicates\<close>

text \<open>\<open>[...new Set(values)]\<close> keeps the first occurrence of each value.\<close>

fun unique_values :: "'a list \<Rightarrow> 'a list" where
  "unique_values [] = []"
| "unique_values (x # xs) = x # filter (\<lambda>y. y \<noteq> x) (unique_values xs)"

lemma set_unique_values [simp]: "set (unique_values xs) = set xs"
  by (induction xs) auto

lemma distinct_unique_values [simp]: "distinct (unique_values xs)"
  by (induction xs) auto

lemma unique_values_distinct: "distinct xs \<Longrightarrow> unique_values xs = xs"
  by (induction xs) (auto simp: filter_id_conv)

lemma unique_values_filter: "unique_values (filter P xs) = filter P (unique_values xs)"
proof (induction xs)
  case (Cons x xs)
  then show ?case by (auto intro!: filter_cong)
qed simp

text \<open>A loop that appends the wanted names it has not appended yet.\<close>

lemma fold_append_new:
  "distinct ns \<Longrightarrow> fold (\<lambda>n r. if P n \<and> n \<notin> set r then r @ [n] else r) ns r0 =
     r0 @ filter (\<lambda>n. P n \<and> n \<notin> set r0) ns"
proof (induction ns arbitrary: r0)
  case (Cons n ns)
  then show ?case by (auto intro!: filter_cong)
qed simp

section \<open>JSON texts\<close>

text \<open>
  \<open>JSON.stringify\<close> is represented by the tree its text denotes: a member whose value is
  \<open>undefined\<close> is left out, an \<open>undefined\<close> element is \<open>null\<close>, and so is a
  non-finite number. Two values have the same text exactly when these trees, whose members keep
  their order, are equal, and \<open>JSON.parse\<close> of the text is the tree.
\<close>

fun json_tree :: "js \<Rightarrow> js" where
  "json_tree JUndef = JNull"
| "json_tree (JNum n) = (if isFinite n then JNum n else JNull)"
| "json_tree (JArr xs) = JArr (map json_tree xs)"
| "json_tree (JObj ob) = JObj (map (\<lambda>kv. (fst kv, json_tree (snd kv))) (filter (\<lambda>kv. snd kv \<noteq> JUndef) ob))"
| "json_tree v = v"

end
