(* ===== verification/Config_Schema.thy ===== *)
theory Config_Schema
  imports Js_Prelude
begin

text \<open>
  The configuration schema of \<open>src/src/domain/config.ts\<close>: its types, the default, and the
  strict parser with its list of issues. The source threads one mutable array of issues
  through its helpers; here every helper returns the issues it pushes, in order, together
  with its result (\<open>None\<close> for \<open>undefined\<close>). The last section characterises the values
  the parser accepts, shows that it inverts the object a configuration is stored as, and that
  a rejection always carries an issue.
\<close>

section \<open>Types\<close>

datatype AutoOrOff = AutoMode | OffMode
datatype ServiceTier = TierDefault | TierPriority | TierFlex
datatype Verbosity = VerbLow | VerbMedium | VerbHigh
datatype TransportMode = TransportAuto | TransportSse
datatype WebSearchMode = WebDisabled | WebCached | WebIndexed | WebLive
datatype ShellSurface = UnifiedExec | ShellCommand | ShellDisabled
datatype ApprovalPolicy = OnRequest | Never
datatype FilesystemAccessPolicy = Workspace | Unrestricted

datatype AutoCompactTokenLimit = ModelLimit | NumberLimit jsnum

datatype CompactionConfig = CompactionOff | CompactionAuto AutoCompactTokenLimit

record OptionalTools =
  viewImage :: AutoOrOff
  imageGeneration :: AutoOrOff

record ToolsConfig =
  backgroundSessions :: bool
  optionalTools :: OptionalTools

record SecurityConfig =
  approvalPolicy :: ApprovalPolicy
  filesystemAccessPolicy :: FilesystemAccessPolicy

record CodexSection =
  serviceTier :: ServiceTier
  verbosity :: Verbosity
  transportMode :: TransportMode
  webSearchMode :: WebSearchMode
  compaction :: CompactionConfig

text \<open>\<open>schemaVersion\<close> is the literal type \<open>3\<close> and carries no information.\<close>

record CodexConfig =
  providers :: "string list"
  tools :: ToolsConfig
  security :: SecurityConfig
  codex :: CodexSection
  uiStatus :: bool

datatype ConfigurationIssueCode =
    InvalidType | InvalidValue | MissingField | UnknownField
  | UnsupportedCapability | CapabilityUnavailable

record ConfigurationIssue =
  issue_path :: string
  issue_code :: ConfigurationIssueCode
  issue_message :: string

definition createDefaultConfig :: CodexConfig where
  "createDefaultConfig = \<lparr>
     providers = [''openai-codex''],
     tools = \<lparr>backgroundSessions = True,
       optionalTools = \<lparr>viewImage = AutoMode, imageGeneration = AutoMode\<rparr>\<rparr>,
     security = \<lparr>approvalPolicy = OnRequest, filesystemAccessPolicy = Workspace\<rparr>,
     codex = \<lparr>serviceTier = TierDefault, verbosity = VerbLow, transportMode = TransportAuto,
       webSearchMode = WebCached, compaction = CompactionAuto ModelLimit\<rparr>,
     uiStatus = True\<rparr>"

section \<open>The literals of each enumeration\<close>

type_synonym 'a enum_table = "(string \<times> 'a) list"

definition autoOrOff_table :: "AutoOrOff enum_table" where
  "autoOrOff_table = [(''auto'', AutoMode), (''off'', OffMode)]"

definition serviceTier_table :: "ServiceTier enum_table" where
  "serviceTier_table = [(''default'', TierDefault), (''priority'', TierPriority), (''flex'', TierFlex)]"

definition verbosity_table :: "Verbosity enum_table" where
  "verbosity_table = [(''low'', VerbLow), (''medium'', VerbMedium), (''high'', VerbHigh)]"

definition transport_table :: "TransportMode enum_table" where
  "transport_table = [(''auto'', TransportAuto), (''sse'', TransportSse)]"

definition webSearch_table :: "WebSearchMode enum_table" where
  "webSearch_table = [(''disabled'', WebDisabled), (''cached'', WebCached),
     (''indexed'', WebIndexed), (''live'', WebLive)]"

definition approval_table :: "ApprovalPolicy enum_table" where
  "approval_table = [(''on-request'', OnRequest), (''never'', Never)]"

definition filesystem_table :: "FilesystemAccessPolicy enum_table" where
  "filesystem_table = [(''workspace'', Workspace), (''unrestricted'', Unrestricted)]"

datatype CompactionMode = ModeOff | ModeAuto

definition compactionMode_table :: "CompactionMode enum_table" where
  "compactionMode_table = [(''off'', ModeOff), (''auto'', ModeAuto)]"

lemmas enum_tables = autoOrOff_table_def serviceTier_table_def verbosity_table_def
  transport_table_def webSearch_table_def approval_table_def filesystem_table_def
  compactionMode_table_def

text \<open>The literal that stands for a value of an enumeration.\<close>

definition enum_name :: "'a enum_table \<Rightarrow> 'a \<Rightarrow> string" where
  "enum_name tab a = (case find (\<lambda>p. snd p = a) tab of None \<Rightarrow> [] | Some p \<Rightarrow> fst p)"

section \<open>Helpers of the parser\<close>

type_synonym 'a checked = "ConfigurationIssue list \<times> 'a option"

definition issue :: "string \<Rightarrow> ConfigurationIssueCode \<Rightarrow> string \<Rightarrow> ConfigurationIssue list" where
  "issue p c m = [\<lparr>issue_path = p, issue_code = c, issue_message = m\<rparr>]"

definition record_at :: "js \<Rightarrow> string \<Rightarrow> js_object checked" where
  "record_at v path = (case as_record v of
     Some ob \<Rightarrow> ([], Some ob)
   | None \<Rightarrow> (issue path InvalidType ''must be an object'', None))"

definition exactKeys :: "js_object \<Rightarrow> string list \<Rightarrow> string \<Rightarrow> ConfigurationIssue list" where
  "exactKeys ob expected path =
     (if list_ex (\<lambda>k. k \<notin> set expected) (keys_of ob)
      then issue path UnknownField ''contains unsupported fields'' else []) @
     concat (map (\<lambda>k. if hasOwn ob k then []
       else issue (if path = ''$'' then k else path @ ''.'' @ k) MissingField ''is required'') expected)"

definition enumValue :: "js \<Rightarrow> 'a enum_table \<Rightarrow> string \<Rightarrow> 'a checked" where
  "enumValue v allowed path =
     (case (case v of JStr s \<Rightarrow> map_of allowed s | _ \<Rightarrow> None) of
        Some a \<Rightarrow> ([], Some a)
      | None \<Rightarrow> (issue path InvalidValue ''has an unsupported value'', None))"

definition literal :: "js \<Rightarrow> js \<Rightarrow> string \<Rightarrow> js checked" where
  "literal v expected path =
     (if v = expected then ([], Some expected)
      else (issue path InvalidValue ''has an unsupported value'', None))"

definition booleanValue :: "js \<Rightarrow> string \<Rightarrow> bool checked" where
  "booleanValue v path = (case v of
     JBool b \<Rightarrow> ([], Some b)
   | _ \<Rightarrow> (issue path InvalidType ''must be a boolean'', None))"

definition nestedMode :: "js \<Rightarrow> 'a enum_table \<Rightarrow> string \<Rightarrow> 'a checked" where
  "nestedMode v allowed path =
     (case record_at v path of
        (is, None) \<Rightarrow> (is, None)
      | (is, Some ob) \<Rightarrow>
          let is1 = exactKeys ob [''mode''] path;
              (is2, r) = enumValue (get_prop ob ''mode'') allowed (path @ ''.mode'')
          in (is @ is1 @ is2, r))"

section \<open>The parser\<close>

definition validProviderId :: "js \<Rightarrow> bool" where
  "validProviderId v = (case v of
     JStr p \<Rightarrow> length (trim p) \<noteq> 0 \<and> length p \<le> 256 \<and> \<not> has_newline p \<and> p = trim p
   | _ \<Rightarrow> False)"

definition parseActivation :: "js \<Rightarrow> string list checked" where
  "parseActivation v =
     (case record_at v ''activation'' of
        (is, None) \<Rightarrow> (is, None)
      | (is, Some ob) \<Rightarrow>
          let is1 = is @ exactKeys ob [''providers''] ''activation'' in
          (case as_array (get_prop ob ''providers'') of
             None \<Rightarrow> (is1 @ issue ''activation.providers'' InvalidType ''must be an array'', None)
           | Some ps \<Rightarrow>
               if ps = [] \<or> list_ex (\<lambda>p. \<not> validProviderId p) ps
               then (is1 @ issue ''activation.providers'' InvalidValue
                       ''must contain non-empty provider ids'', None)
               else if \<not> distinct ps
               then (is1 @ issue ''activation.providers'' InvalidValue
                       ''must contain unique provider ids'', None)
               else (is1, Some (map (\<lambda>p. case as_string p of Some s \<Rightarrow> s | None \<Rightarrow> []) ps))))"

definition parseTools :: "js \<Rightarrow> ToolsConfig checked" where
  "parseTools v =
     (case record_at v ''tools'' of
        (is, None) \<Rightarrow> (is, None)
      | (is, Some tob) \<Rightarrow>
          let is1 = exactKeys tob [''backgroundSessions'', ''optional''] ''tools'';
              (is2, bg) = booleanValue (get_prop tob ''backgroundSessions'') ''tools.backgroundSessions'';
              (is3, opt) = record_at (get_prop tob ''optional'') ''tools.optional''
          in (case opt of
                None \<Rightarrow> (is @ is1 @ is2 @ is3, None)
              | Some ob \<Rightarrow>
                  let is4 = exactKeys ob [''viewImage'', ''imageGeneration''] ''tools.optional'';
                      (is5, vi) = enumValue (get_prop ob ''viewImage'') autoOrOff_table
                        ''tools.optional.viewImage'';
                      (is6, ig) = enumValue (get_prop ob ''imageGeneration'') autoOrOff_table
                        ''tools.optional.imageGeneration''
                  in (is @ is1 @ is2 @ is3 @ is4 @ is5 @ is6,
                      (case (bg, vi, ig) of
                         (Some b, Some a, Some g) \<Rightarrow>
                           Some \<lparr>backgroundSessions = b,
                             optionalTools = \<lparr>viewImage = a, imageGeneration = g\<rparr>\<rparr>
                       | _ \<Rightarrow> None))))"

definition parseSecurity :: "js \<Rightarrow> SecurityConfig checked" where
  "parseSecurity v =
     (case record_at v ''security'' of
        (is, None) \<Rightarrow> (is, None)
      | (is, Some ob) \<Rightarrow>
          let is1 = exactKeys ob [''approvalPolicy'', ''filesystemAccessPolicy''] ''security'';
              (is2, ap) = enumValue (get_prop ob ''approvalPolicy'') approval_table
                ''security.approvalPolicy'';
              (is3, fp) = enumValue (get_prop ob ''filesystemAccessPolicy'') filesystem_table
                ''security.filesystemAccessPolicy''
          in (is @ is1 @ is2 @ is3,
              (case (ap, fp) of
                 (Some a, Some f) \<Rightarrow> Some \<lparr>approvalPolicy = a, filesystemAccessPolicy = f\<rparr>
               | _ \<Rightarrow> None)))"

definition compactionLimit :: "js \<Rightarrow> AutoCompactTokenLimit option" where
  "compactionLimit limit =
     (if limit = JStr ''model'' then Some ModelLimit
      else (case limit of
          JNum n \<Rightarrow> if isSafeInteger n \<and> num_less (Fin 0) n then Some (NumberLimit n) else None
        | _ \<Rightarrow> None))"

definition parseCompaction :: "js \<Rightarrow> CompactionConfig checked" where
  "parseCompaction v =
     (case record_at v ''codex.compaction'' of
        (is, None) \<Rightarrow> (is, None)
      | (is, Some ob) \<Rightarrow>
          let (is1, mode) = enumValue (get_prop ob ''mode'') compactionMode_table
                ''codex.compaction.mode''
          in (case mode of
                Some ModeOff \<Rightarrow>
                  (is @ is1 @ exactKeys ob [''mode''] ''codex.compaction'', Some CompactionOff)
              | None \<Rightarrow> (is @ is1, None)
              | Some ModeAuto \<Rightarrow>
                  let is2 = is @ is1 @
                        exactKeys ob [''mode'', ''autoCompactTokenLimit''] ''codex.compaction''
                  in (case compactionLimit (get_prop ob ''autoCompactTokenLimit'') of
                        Some l \<Rightarrow> (is2, Some (CompactionAuto l))
                      | None \<Rightarrow> (is2 @ issue ''codex.compaction.autoCompactTokenLimit'' InvalidValue
                                   ''must be model or a positive integer'', None))))"

definition parseCodex :: "js \<Rightarrow> CodexSection checked" where
  "parseCodex v =
     (case record_at v ''codex'' of
        (is, None) \<Rightarrow> (is, None)
      | (is, Some ob) \<Rightarrow>
          let is1 = exactKeys ob
                [''serviceTier'', ''verbosity'', ''transport'', ''webSearch'', ''compaction''] ''codex'';
              (is2, st) = enumValue (get_prop ob ''serviceTier'') serviceTier_table ''codex.serviceTier'';
              (is3, vb) = enumValue (get_prop ob ''verbosity'') verbosity_table ''codex.verbosity'';
              (is4, tm) = nestedMode (get_prop ob ''transport'') transport_table ''codex.transport'';
              (is5, wm) = nestedMode (get_prop ob ''webSearch'') webSearch_table ''codex.webSearch'';
              (is6, cp) = parseCompaction (get_prop ob ''compaction'')
          in (is @ is1 @ is2 @ is3 @ is4 @ is5 @ is6,
              (case (st, vb, tm, wm, cp) of
                 (Some s, Some b, Some t, Some w, Some c) \<Rightarrow>
                   Some \<lparr>serviceTier = s, verbosity = b, transportMode = t, webSearchMode = w,
                     compaction = c\<rparr>
               | _ \<Rightarrow> None)))"

definition parseUi :: "js \<Rightarrow> bool checked" where
  "parseUi v =
     (case record_at v ''ui'' of
        (is, None) \<Rightarrow> (is, None)
      | (is, Some ob) \<Rightarrow>
          let is1 = exactKeys ob [''status''] ''ui'';
              (is2, st) = booleanValue (get_prop ob ''status'') ''ui.status''
          in (is @ is1 @ is2, st))"

text \<open>A rejection is the \<open>ConfigurationError\<close> with its issues.\<close>

definition parseConfig :: "js \<Rightarrow> (ConfigurationIssue list, CodexConfig) result" where
  "parseConfig v =
     (case record_at v ''$'' of
        (is, None) \<Rightarrow> Inl is
      | (is, Some rt) \<Rightarrow>
          let is0 = exactKeys rt
                [''schemaVersion'', ''activation'', ''tools'', ''security'', ''codex'', ''ui''] ''$'';
              (is1, sv) = literal (get_prop rt ''schemaVersion'') (jint 3) ''schemaVersion'';
              (is2, act) = parseActivation (get_prop rt ''activation'');
              (is3, tls) = parseTools (get_prop rt ''tools'');
              (is4, sec) = parseSecurity (get_prop rt ''security'');
              (is5, cx) = parseCodex (get_prop rt ''codex'');
              (is6, ui) = parseUi (get_prop rt ''ui'');
              issues = is @ is0 @ is1 @ is2 @ is3 @ is4 @ is5 @ is6
          in if issues \<noteq> [] then Inl issues
             else (case (sv, act, tls, sec, cx, ui) of
                 (Some _, Some a, Some t, Some s, Some c, Some u) \<Rightarrow>
                   Inr \<lparr>providers = a, tools = t, security = s, codex = c, uiStatus = u\<rparr>
               | _ \<Rightarrow> Inl issues))"

section \<open>A configuration as the object it is\<close>

text \<open>
  A \<open>CodexConfig\<close> is itself a plain object; \<open>config_js\<close> is that object, with the keys in
  the order of the interface. It is what \<open>save\<close> passes to the parser and to
  \<open>JSON.stringify\<close>.
\<close>

definition limit_js :: "AutoCompactTokenLimit \<Rightarrow> js" where
  "limit_js l = (case l of ModelLimit \<Rightarrow> JStr ''model'' | NumberLimit n \<Rightarrow> JNum n)"

definition compaction_js :: "CompactionConfig \<Rightarrow> js" where
  "compaction_js c = (case c of
     CompactionOff \<Rightarrow> JObj [(''mode'', JStr ''off'')]
   | CompactionAuto l \<Rightarrow> JObj [(''mode'', JStr ''auto''), (''autoCompactTokenLimit'', limit_js l)])"

definition tools_js :: "ToolsConfig \<Rightarrow> js" where
  "tools_js t = JObj
     [(''backgroundSessions'', JBool (backgroundSessions t)),
      (''optional'', JObj
        [(''viewImage'', JStr (enum_name autoOrOff_table (viewImage (optionalTools t)))),
         (''imageGeneration'', JStr (enum_name autoOrOff_table (imageGeneration (optionalTools t))))])]"

definition security_js :: "SecurityConfig \<Rightarrow> js" where
  "security_js s = JObj
     [(''approvalPolicy'', JStr (enum_name approval_table (approvalPolicy s))),
      (''filesystemAccessPolicy'', JStr (enum_name filesystem_table (filesystemAccessPolicy s)))]"

definition codex_js :: "CodexSection \<Rightarrow> js" where
  "codex_js c = JObj
     [(''serviceTier'', JStr (enum_name serviceTier_table (serviceTier c))),
      (''verbosity'', JStr (enum_name verbosity_table (verbosity c))),
      (''transport'', JObj [(''mode'', JStr (enum_name transport_table (transportMode c)))]),
      (''webSearch'', JObj [(''mode'', JStr (enum_name webSearch_table (webSearchMode c)))]),
      (''compaction'', compaction_js (compaction c))]"

definition config_js :: "CodexConfig \<Rightarrow> js" where
  "config_js c = JObj
     [(''schemaVersion'', jint 3),
      (''activation'', JObj [(''providers'', JArr (map JStr (providers c)))]),
      (''tools'', tools_js (tools c)),
      (''security'', security_js (security c)),
      (''codex'', codex_js (codex c)),
      (''ui'', JObj [(''status'', JBool (uiStatus c))])]"

text \<open>The constraints the schema adds to the TypeScript types.\<close>

definition wf_limit :: "CompactionConfig \<Rightarrow> bool" where
  "wf_limit c = (case c of
     CompactionAuto (NumberLimit n) \<Rightarrow> isSafeInteger n \<and> num_less (Fin 0) n | _ \<Rightarrow> True)"

definition wf_providers :: "string list \<Rightarrow> bool" where
  "wf_providers ps \<longleftrightarrow> ps \<noteq> [] \<and> list_all (\<lambda>p. validProviderId (JStr p)) ps \<and> distinct ps"

definition wf_config :: "CodexConfig \<Rightarrow> bool" where
  "wf_config c \<longleftrightarrow> wf_providers (providers c) \<and> wf_limit (compaction (codex c))"

section \<open>What each helper accepts\<close>

lemma issue_not_Nil [simp]: "issue p c m \<noteq> []" "issue p c m = [] \<longleftrightarrow> False"
  by (simp_all add: issue_def)

lemma record_at_simps [simp]:
  "snd (record_at v path) = Some ob \<longleftrightarrow> v = JObj ob"
  "fst (record_at v path) = [] \<longleftrightarrow> snd (record_at v path) \<noteq> None"
  by (cases v; simp add: record_at_def as_record_def)+

lemma record_at_JObj [simp]: "record_at (JObj ob) path = ([], Some ob)"
  by (simp add: record_at_def)

lemma missing_Nil:
  "concat (map (\<lambda>k. if hasOwn ob k then [] else issue (p k) c m) expected) = [] \<longleftrightarrow>
     (\<forall>k \<in> set expected. hasOwn ob k)"
  by (induction expected) auto

lemma exactKeys_Nil [simp]: "exactKeys ob expected path = [] \<longleftrightarrow> exact_keys ob expected"
proof -
  have "exactKeys ob expected path = [] \<longleftrightarrow>
      (\<forall>k \<in> set (keys_of ob). k \<in> set expected) \<and> (\<forall>k \<in> set expected. hasOwn ob k)"
    unfolding exactKeys_def append_is_Nil_conv missing_Nil by (simp add: list_ex_iff)
  then show ?thesis by (auto simp: exact_keys_def hasOwn_def)
qed

text \<open>A table is \<open>good\<close> when it is a bijection between its literals and the enumeration.\<close>

definition good_table :: "'a enum_table \<Rightarrow> bool" where
  "good_table tab \<longleftrightarrow> (\<forall>s a. map_of tab s = Some a \<longleftrightarrow> s = enum_name tab a)"

lemma good_tableI: "(\<And>a s. map_of tab s = Some a \<longleftrightarrow> s = enum_name tab a) \<Longrightarrow> good_table tab"
  by (simp add: good_table_def)

lemma good_tables [simp]:
  shows "good_table autoOrOff_table" and "good_table serviceTier_table"
    and "good_table verbosity_table" and "good_table transport_table"
    and "good_table webSearch_table" and "good_table approval_table"
    and "good_table filesystem_table" and "good_table compactionMode_table"
proof -
  show "good_table autoOrOff_table"
    by (rule good_tableI, case_tac a) (auto simp: enum_tables enum_name_def)
  show "good_table serviceTier_table"
    by (rule good_tableI, case_tac a) (auto simp: enum_tables enum_name_def)
  show "good_table verbosity_table"
    by (rule good_tableI, case_tac a) (auto simp: enum_tables enum_name_def)
  show "good_table transport_table"
    by (rule good_tableI, case_tac a) (auto simp: enum_tables enum_name_def)
  show "good_table webSearch_table"
    by (rule good_tableI, case_tac a) (auto simp: enum_tables enum_name_def)
  show "good_table approval_table"
    by (rule good_tableI, case_tac a) (auto simp: enum_tables enum_name_def)
  show "good_table filesystem_table"
    by (rule good_tableI, case_tac a) (auto simp: enum_tables enum_name_def)
  show "good_table compactionMode_table"
    by (rule good_tableI, case_tac a) (auto simp: enum_tables enum_name_def)
qed

lemma good_table_lookup: "good_table tab \<Longrightarrow> map_of tab s = Some a \<longleftrightarrow> s = enum_name tab a"
  by (simp add: good_table_def)

lemma enum_name_inject [simp]:
  "good_table tab \<Longrightarrow> enum_name tab a = enum_name tab b \<longleftrightarrow> a = b"
  by (metis good_table_lookup option.inject)

lemma enumValue_name [simp]:
  "good_table tab \<Longrightarrow> enumValue (JStr (enum_name tab a)) tab path = ([], Some a)"
  by (simp add: enumValue_def good_table_lookup [THEN iffD2])

lemma enumValue_fst [simp]:
  "fst (enumValue v tab path) = [] \<longleftrightarrow> snd (enumValue v tab path) \<noteq> None"
  by (cases v; simp add: enumValue_def split: option.splits)

lemma enumValue_snd [simp]:
  assumes "good_table tab"
  shows "snd (enumValue v tab path) = Some a \<longleftrightarrow> v = JStr (enum_name tab a)"
proof -
  have "snd (enumValue v tab path) = Some a \<longleftrightarrow> (\<exists>s. v = JStr s \<and> map_of tab s = Some a)"
    by (cases v; simp add: enumValue_def split: option.splits)
  also have "\<dots> \<longleftrightarrow> v = JStr (enum_name tab a)"
    using good_table_lookup [OF assms] by blast
  finally show ?thesis .
qed

lemma enumValue_eq:
  "good_table tab \<Longrightarrow> enumValue v tab path = ([], Some a) \<longleftrightarrow> v = JStr (enum_name tab a)"
  by (auto simp: prod_eq_iff)

lemma booleanValue_JBool [simp]: "booleanValue (JBool b) path = ([], Some b)"
  by (simp add: booleanValue_def)

lemma booleanValue_simps [simp]:
  "snd (booleanValue v path) = Some b \<longleftrightarrow> v = JBool b"
  "fst (booleanValue v path) = [] \<longleftrightarrow> snd (booleanValue v path) \<noteq> None"
  by (cases v; simp add: booleanValue_def)+

lemma literal_simps [simp]:
  "snd (literal v e path) = Some x \<longleftrightarrow> v = e \<and> x = e"
  "fst (literal v e path) = [] \<longleftrightarrow> snd (literal v e path) \<noteq> None"
  by (auto simp: literal_def)

text \<open>
  A checker is \<open>sound\<close> when it accepts without an issue exactly the values related to
  its result, and \<open>strict\<close> when returning \<open>undefined\<close> implies an issue.
\<close>

definition strict :: "'a checked \<Rightarrow> bool" where
  "strict c \<longleftrightarrow> (snd c = None \<longrightarrow> fst c \<noteq> [])"

lemma strict_helpers [simp]:
  "strict (record_at v path)" "strict (enumValue v tab path)" "strict (booleanValue v path)"
  "strict (literal v e path)"
  by (simp_all add: strict_def)

lemma strictD: "strict c \<Longrightarrow> fst c = [] \<Longrightarrow> \<exists>a. c = ([], Some a)"
  by (cases c) (auto simp: strict_def)

lemma compactionMode_names [simp]:
  "enum_name compactionMode_table ModeOff = ''off''" "enum_name compactionMode_table ModeAuto = ''auto''"
  by (simp_all add: enum_tables enum_name_def)

section \<open>What each part accepts\<close>

lemma not_record [simp]:
  "(\<forall>ob. v \<noteq> JObj ob) \<Longrightarrow> snd (record_at v path) = None"
  by (cases v) (auto simp: record_at_def as_record_def)

lemma nestedMode_simps:
  "nestedMode (JObj ob) tab path =
     (exactKeys ob [''mode''] path @ fst (enumValue (get_prop ob ''mode'') tab (path @ ''.mode'')),
      snd (enumValue (get_prop ob ''mode'') tab (path @ ''.mode'')))"
  by (simp add: nestedMode_def case_prod_beta)

lemma parseUi_simps:
  "parseUi (JObj ob) =
     (exactKeys ob [''status''] ''ui'' @ fst (booleanValue (get_prop ob ''status'') ''ui.status''),
      snd (booleanValue (get_prop ob ''status'') ''ui.status''))"
  by (simp add: parseUi_def case_prod_beta)

lemma parseUi_eq: "parseUi v = ([], Some b) \<longleftrightarrow> js_sim v (JObj [(''status'', JBool b)])"
proof (cases v)
  case (JObj ob)
  then show ?thesis by (simp add: parseUi_simps) blast
qed (simp_all add: parseUi_def record_at_def as_record_def)

lemma nestedMode_eq:
  "good_table tab \<Longrightarrow> nestedMode v tab path = ([], Some a) \<longleftrightarrow>
     js_sim v (JObj [(''mode'', JStr (enum_name tab a))])"
proof (cases v)
  case (JObj ob)
  moreover assume "good_table tab"
  ultimately show ?thesis by (auto simp: nestedMode_simps)
qed (simp_all add: nestedMode_def record_at_def as_record_def)

lemma parseSecurity_eq: "parseSecurity v = ([], Some sc) \<longleftrightarrow> js_sim v (security_js sc)"
proof (cases v)
  case (JObj ob)
  then show ?thesis
    by (cases sc) (auto simp: parseSecurity_def security_js_def case_prod_beta Let_def
        split: option.splits)
qed (simp_all add: parseSecurity_def security_js_def record_at_def as_record_def)

lemma parseTools_eq: "parseTools v = ([], Some t) \<longleftrightarrow> js_sim v (tools_js t)"
proof (cases v)
  case (JObj ob)
  show ?thesis
  proof (cases "get_prop ob ''optional''")
    fix ob' assume ob': "get_prop ob ''optional'' = JObj ob'"
    with JObj show ?thesis
      by (cases t) (auto simp: parseTools_def tools_js_def case_prod_beta Let_def
            split: option.splits)
  qed (use JObj in \<open>simp_all add: parseTools_def tools_js_def record_at_def as_record_def
         case_prod_beta Let_def\<close>)
qed (simp_all add: parseTools_def tools_js_def record_at_def as_record_def)

lemma validProviderId_JStr: "validProviderId v \<Longrightarrow> \<exists>s. v = JStr s"
  by (cases v) (auto simp: validProviderId_def)

lemma all_strings: "list_all validProviderId ps \<Longrightarrow> \<exists>ss. ps = map JStr ss"
proof (induction ps)
  case Nil
  then show ?case by simp
next
  case (Cons p ps)
  then obtain ss where "ps = map JStr ss" by auto
  moreover from Cons.prems obtain s where "p = JStr s" using validProviderId_JStr by auto
  ultimately have "p # ps = map JStr (s # ss)" by simp
  then show ?case by (rule exI)
qed

lemma list_ex_not_all: "list_ex (\<lambda>p. \<not> P p) ps \<longleftrightarrow> \<not> list_all P ps"
  by (induction ps) auto

lemma parseActivation_strings:
  "get_prop ob ''providers'' = JArr (map JStr ss) \<Longrightarrow>
     parseActivation (JObj ob) = ([], Some ps) \<longleftrightarrow>
       exact_keys ob [''providers''] \<and> wf_providers ss \<and> ps = ss"
  by (auto simp: parseActivation_def Let_def list_ex_not_all list.pred_map comp_def
      distinct_map inj_on_def wf_providers_def)

lemma parseActivation_eq:
  "parseActivation v = ([], Some ps) \<longleftrightarrow>
     js_sim v (JObj [(''providers'', JArr (map JStr ps))]) \<and> wf_providers ps"
proof (cases v)
  case (JObj ob)
  show ?thesis
  proof (cases "\<exists>ss. get_prop ob ''providers'' = JArr (map JStr ss)")
    case True
    then obtain ss where "get_prop ob ''providers'' = JArr (map JStr ss)" by blast
    with JObj show ?thesis by (auto simp: parseActivation_strings inj_map_eq_map inj_on_def)
  next
    case False
    then have "parseActivation v \<noteq> ([], Some ps)"
      using JObj all_strings
      by (auto simp: parseActivation_def Let_def list_ex_not_all split: option.splits if_splits)
    with False JObj show ?thesis by auto
  qed
qed (simp_all add: parseActivation_def record_at_def as_record_def)

lemma js_sim_limit [simp]: "js_sim v (limit_js l) \<longleftrightarrow> v = limit_js l"
  by (cases l) (simp_all add: limit_js_def)

lemma compactionLimit_eq:
  "compactionLimit v = Some l \<longleftrightarrow> v = limit_js l \<and> wf_limit (CompactionAuto l)"
  by (cases l; cases v; auto simp: compactionLimit_def limit_js_def wf_limit_def split: if_splits)

lemma parseCompaction_off:
  "get_prop ob ''mode'' = JStr ''off'' \<Longrightarrow>
     parseCompaction (JObj ob) = (exactKeys ob [''mode''] ''codex.compaction'', Some CompactionOff)"
  using enumValue_name [OF good_tables(8), of ModeOff]
  by (simp add: parseCompaction_def)

lemma parseCompaction_auto:
  "get_prop ob ''mode'' = JStr ''auto'' \<Longrightarrow>
     parseCompaction (JObj ob) = ([], Some c) \<longleftrightarrow>
       exact_keys ob [''mode'', ''autoCompactTokenLimit''] \<and>
       (\<exists>l. c = CompactionAuto l \<and> compactionLimit (get_prop ob ''autoCompactTokenLimit'') = Some l)"
  using enumValue_name [OF good_tables(8), of ModeAuto]
  by (auto simp: parseCompaction_def Let_def split: option.splits)

lemma parseCompaction_other:
  assumes "get_prop ob ''mode'' \<noteq> JStr ''off''" and "get_prop ob ''mode'' \<noteq> JStr ''auto''"
  shows "parseCompaction (JObj ob) =
     (fst (enumValue (get_prop ob ''mode'') compactionMode_table ''codex.compaction.mode''), None)"
    (is "_ = (fst ?e, None)")
proof -
  have "get_prop ob ''mode'' \<noteq> JStr (enum_name compactionMode_table m)" for m
    using assms by (cases m) simp_all
  then have "snd ?e \<noteq> Some m" for m by simp
  then have "snd ?e = None" by (cases "snd ?e") auto
  then show ?thesis by (simp add: parseCompaction_def case_prod_beta)
qed

lemma parseCompaction_eq:
  "parseCompaction v = ([], Some c) \<longleftrightarrow> js_sim v (compaction_js c) \<and> wf_limit c"
proof (cases v)
  case (JObj ob)
  consider "get_prop ob ''mode'' = JStr ''off''" | "get_prop ob ''mode'' = JStr ''auto''"
    | "get_prop ob ''mode'' \<noteq> JStr ''off''" "get_prop ob ''mode'' \<noteq> JStr ''auto''" by blast
  then show ?thesis
  proof cases
    case 1
    with JObj show ?thesis
      by (cases c) (auto simp: parseCompaction_off compaction_js_def wf_limit_def)
  next
    case 2
    with JObj show ?thesis
      by (cases c) (auto simp: parseCompaction_auto compaction_js_def compactionLimit_eq)
  next
    case 3
    with JObj show ?thesis
      by (cases c) (auto simp: parseCompaction_other compaction_js_def)
  qed
qed (cases c; simp add: parseCompaction_def record_at_def as_record_def compaction_js_def)+

lemma parseCodex_eq:
  "parseCodex v = ([], Some c) \<longleftrightarrow> js_sim v (codex_js c) \<and> wf_limit (compaction c)"
proof (cases v)
  case (JObj ob)
  let ?keys = "[''serviceTier'', ''verbosity'', ''transport'', ''webSearch'', ''compaction'']"
  let ?st = "enumValue (get_prop ob ''serviceTier'') serviceTier_table ''codex.serviceTier''"
  let ?vb = "enumValue (get_prop ob ''verbosity'') verbosity_table ''codex.verbosity''"
  let ?tm = "nestedMode (get_prop ob ''transport'') transport_table ''codex.transport''"
  let ?wm = "nestedMode (get_prop ob ''webSearch'') webSearch_table ''codex.webSearch''"
  let ?cp = "parseCompaction (get_prop ob ''compaction'')"
  have "parseCodex v = ([], Some c) \<longleftrightarrow> exact_keys ob ?keys \<and>
      ?st = ([], Some (serviceTier c)) \<and> ?vb = ([], Some (verbosity c)) \<and>
      ?tm = ([], Some (transportMode c)) \<and> ?wm = ([], Some (webSearchMode c)) \<and>
      ?cp = ([], Some (compaction c))"
    by (cases c; cases ?st; cases ?vb; cases ?tm; cases ?wm; cases ?cp)
       (auto simp: JObj parseCodex_def Let_def split: option.splits)
  also have "\<dots> \<longleftrightarrow> js_sim v (codex_js c) \<and> wf_limit (compaction c)"
    by (auto simp: JObj codex_js_def enumValue_eq nestedMode_eq parseCompaction_eq)
  finally show ?thesis .
qed (simp_all add: parseCodex_def codex_js_def record_at_def as_record_def)

section \<open>Rejections carry an issue\<close>

lemma strict_nestedMode [simp]: "strict (nestedMode v tab path)"
proof (cases v)
  case (JObj ob)
  then show ?thesis by (auto simp: nestedMode_simps strict_def)
qed (simp_all add: strict_def nestedMode_def record_at_def as_record_def)

lemma strict_parseUi [simp]: "strict (parseUi v)"
proof (cases v)
  case (JObj ob)
  then show ?thesis by (auto simp: parseUi_simps strict_def)
qed (simp_all add: strict_def parseUi_def record_at_def as_record_def)

lemma strict_parseActivation [simp]: "strict (parseActivation v)"
  by (cases v) (auto simp: strict_def parseActivation_def record_at_def as_record_def Let_def
      split: option.splits)

lemma strict_parseTools [simp]: "strict (parseTools v)"
proof (cases v)
  case (JObj ob)
  then show ?thesis
    by (auto simp: strict_def parseTools_def Let_def case_prod_beta split: option.splits)
qed (simp_all add: strict_def parseTools_def record_at_def as_record_def)

lemma strict_parseSecurity [simp]: "strict (parseSecurity v)"
proof (cases v)
  case (JObj ob)
  then show ?thesis
    by (auto simp: strict_def parseSecurity_def Let_def case_prod_beta split: option.splits)
qed (simp_all add: strict_def parseSecurity_def record_at_def as_record_def)

lemma strict_parseCompaction [simp]: "strict (parseCompaction v)"
proof (cases v)
  case (JObj ob)
  then show ?thesis
    by (auto simp: strict_def parseCompaction_def Let_def case_prod_beta
        split: option.splits CompactionMode.splits)
qed (simp_all add: strict_def parseCompaction_def record_at_def as_record_def)

lemma strict_parseCodex [simp]: "strict (parseCodex v)"
proof (cases v)
  case (JObj ob)
  have "strict (nestedMode (get_prop ob ''transport'') transport_table ''codex.transport'')"
    "strict (nestedMode (get_prop ob ''webSearch'') webSearch_table ''codex.webSearch'')"
    "strict (parseCompaction (get_prop ob ''compaction''))" by simp_all
  with JObj show ?thesis
    by (auto simp: strict_def parseCodex_def Let_def case_prod_beta split: option.splits)
qed (simp_all add: strict_def parseCodex_def record_at_def as_record_def)

section \<open>The parser as a whole\<close>

abbreviation root_keys :: "string list" where
  "root_keys \<equiv> [''schemaVersion'', ''activation'', ''tools'', ''security'', ''codex'', ''ui'']"

lemma parseConfig_JObj:
  "parseConfig (JObj ob) = Inr c \<longleftrightarrow> exact_keys ob root_keys \<and>
     get_prop ob ''schemaVersion'' = jint 3 \<and>
     parseActivation (get_prop ob ''activation'') = ([], Some (providers c)) \<and>
     parseTools (get_prop ob ''tools'') = ([], Some (tools c)) \<and>
     parseSecurity (get_prop ob ''security'') = ([], Some (security c)) \<and>
     parseCodex (get_prop ob ''codex'') = ([], Some (codex c)) \<and>
     parseUi (get_prop ob ''ui'') = ([], Some (uiStatus c))"
  by (cases c; cases "literal (get_prop ob ''schemaVersion'') (jint 3) ''schemaVersion''";
      cases "parseActivation (get_prop ob ''activation'')"; cases "parseTools (get_prop ob ''tools'')";
      cases "parseSecurity (get_prop ob ''security'')"; cases "parseCodex (get_prop ob ''codex'')";
      cases "parseUi (get_prop ob ''ui'')")
     (auto simp: parseConfig_def Let_def literal_def split: option.splits if_splits)

lemma parseConfig_not_record: "(\<forall>ob. v \<noteq> JObj ob) \<Longrightarrow> parseConfig v = Inl (fst (record_at v ''$''))"
  by (cases v) (auto simp: parseConfig_def record_at_def as_record_def)

lemma parseConfig_eq: "parseConfig v = Inr c \<longleftrightarrow> js_sim v (config_js c) \<and> wf_config c"
proof (cases "\<exists>ob. v = JObj ob")
  case True
  then obtain ob where "v = JObj ob" by blast
  then show ?thesis
    by (auto simp: parseConfig_JObj config_js_def wf_config_def parseActivation_eq parseTools_eq
        parseSecurity_eq parseCodex_eq parseUi_eq)
next
  case False
  then show ?thesis by (simp add: parseConfig_not_record config_js_def js_sim_JObj)
qed

lemma js_sim_config_refl [simp]: "js_sim (config_js c) (config_js c)"
  by (cases "compaction (codex c)")
     (simp_all add: config_js_def tools_js_def security_js_def codex_js_def compaction_js_def
        exact_keys_def)

lemma parseConfig_config_js: "wf_config c \<Longrightarrow> parseConfig (config_js c) = Inr c"
  by (simp add: parseConfig_eq)

lemma wf_createDefaultConfig [simp]: "wf_config createDefaultConfig"
  by (simp add: wf_config_def wf_providers_def createDefaultConfig_def wf_limit_def
      validProviderId_def trim_def js_space_def has_newline_def)

lemma parseConfig_rejects:
  assumes "parseConfig v = Inl is"
  shows "is \<noteq> []"
proof (cases "\<exists>ob. v = JObj ob")
  case True
  then obtain ob where v: "v = JObj ob" by blast
  show ?thesis
  proof
    assume "is = []"
    with assms v show False
      using strictD [OF strict_parseActivation, of "get_prop ob ''activation''"]
        strictD [OF strict_parseTools, of "get_prop ob ''tools''"]
        strictD [OF strict_parseSecurity, of "get_prop ob ''security''"]
        strictD [OF strict_parseCodex, of "get_prop ob ''codex''"]
        strictD [OF strict_parseUi, of "get_prop ob ''ui''"]
      by (auto simp: parseConfig_def Let_def case_prod_beta literal_def split: if_splits)
  qed
next
  case False
  with assms show ?thesis
    using record_at_simps(2) [of v "''$''"] not_record [of v "''$''"]
    by (auto simp: parseConfig_not_record)
qed

section \<open>Properties\<close>

text \<open>
  C4: The schema. The parser returns a configuration exactly for the values that have, up to the
  order of keys, the fields of that configuration and nothing else, with distinct non-empty provider
  ids and a positive safe-integer limit: no unknown, missing or mistyped field passes.
\<close>

theorem parser_accepts_exactly:
  "parseConfig v = Inr c \<longleftrightarrow> js_sim v (config_js c) \<and> wf_config c"
  by (rule parseConfig_eq)

text \<open>
  Every value is either parsed to a well-formed configuration or refused with at least one
  issue; there is no silent failure.
\<close>

theorem parser_total:
  "case parseConfig v of Inl issues \<Rightarrow> issues \<noteq> [] | Inr c \<Rightarrow> wf_config c"
  using parseConfig_rejects [of v] parseConfig_eq [of v] by (cases "parseConfig v") auto

end
