(* ===== verification/Config_Capability.thy ===== *)
theory Config_Capability
  imports Config_Schema
begin

text \<open>
  The capability-aware part of \<open>src/src/domain/config.ts\<close>: the gate that decides whether
  a parsed configuration may be saved in a given runtime context, and the evaluation that
  renders every capability-dependent setting as enabled, disabled or unsupported. An optional
  field of the context is an \<open>option\<close>; a field that may also be \<open>null\<close> is a nested
  one. The last section relates the two: whatever the save gate refuses, the settings view
  shows as unsupported.
\<close>

section \<open>The context\<close>

record ConfigCapabilityContext =
  contextWindow :: "jsnum option"
  modelAutoCompactTokenLimit :: "jsnum option option"
  bridgeCapabilities :: "string list option"
  shellSurface :: "ShellSurface option"
  providerSupportsWebsockets :: "bool option"
  remoteCompactionV2 :: "bool option"
  compactEndpoint :: "bool option"
  backgroundSessionsAvailable :: "bool option"
  viewImageAvailable :: "bool option"
  imageGenerationAvailable :: "bool option"
  webSearchAvailable :: "bool option"
  manualCompactionAvailable :: "bool option"
  transportAvailable :: "bool option"

definition emptyContext :: ConfigCapabilityContext where
  "emptyContext = \<lparr>contextWindow = None, modelAutoCompactTokenLimit = None,
     bridgeCapabilities = None, shellSurface = None, providerSupportsWebsockets = None,
     remoteCompactionV2 = None, compactEndpoint = None, backgroundSessionsAvailable = None,
     viewImageAvailable = None, imageGenerationAvailable = None, webSearchAvailable = None,
     manualCompactionAvailable = None, transportAvailable = None\<rparr>"

datatype SettingAvailability =
    SettingEnabled
  | SettingDisabled string
  | SettingUnsupported string

record ConfigSettingEvaluation =
  eval_path :: string
  eval_availability :: SettingAvailability

text \<open>\<open>capabilitySet\<close> and \<open>has\<close>: a known capability set that lacks an identifier.\<close>

definition lacks :: "string list option \<Rightarrow> string \<Rightarrow> bool" where
  "lacks caps k = (case caps of None \<Rightarrow> False | Some ks \<Rightarrow> k \<notin> set ks)"

definition has_cap :: "string list option \<Rightarrow> string \<Rightarrow> bool" where
  "has_cap caps k = (case caps of None \<Rightarrow> False | Some ks \<Rightarrow> k \<in> set ks)"

section \<open>The save gate\<close>

definition when_issue :: "bool \<Rightarrow> string \<Rightarrow> ConfigurationIssueCode \<Rightarrow> string \<Rightarrow> ConfigurationIssue list" where
  "when_issue b p c m = (if b then issue p c m else [])"

definition limitBelowWindow :: "AutoCompactTokenLimit \<Rightarrow> jsnum option \<Rightarrow> bool" where
  "limitBelowWindow l win = (case (l, win) of
     (NumberLimit n, Some w) \<Rightarrow> isSafeInteger w \<and> \<not> num_le w (Fin 0) \<and> \<not> num_le w n
   | _ \<Rightarrow> True)"

definition collectCapabilityIssues ::
  "CodexConfig \<Rightarrow> ConfigCapabilityContext \<Rightarrow> ConfigurationIssue list" where
  "collectCapabilityIssues config ctx =
    (let caps = bridgeCapabilities ctx;
         comp = compaction (codex config);
         auto = (comp \<noteq> CompactionOff);
         tmode = transportMode (codex config);
         wmode = webSearchMode (codex config)
     in
     when_issue (backgroundSessions (tools config) \<and> backgroundSessionsAvailable ctx = Some False)
       ''tools.backgroundSessions'' CapabilityUnavailable
       ''Unavailable: the model and bridge do not provide a complete managed-session route'' @
     when_issue (wmode \<noteq> WebDisabled \<and> webSearchAvailable ctx = Some False)
       ''codex.webSearch.mode'' CapabilityUnavailable
       ''Unavailable: no complete web search route exists'' @
     when_issue (auto \<and> manualCompactionAvailable ctx = Some False)
       ''codex.compaction.mode'' CapabilityUnavailable
       ''Unavailable: no complete compaction route exists'' @
     when_issue (transportAvailable ctx = Some False)
       ''codex.transport.mode'' CapabilityUnavailable
       ''Unavailable: no complete Responses transport route exists'' @
     when_issue (case comp of CompactionAuto l \<Rightarrow> \<not> limitBelowWindow l (contextWindow ctx) | _ \<Rightarrow> False)
       ''codex.compaction.autoCompactTokenLimit'' InvalidValue
       ''must be a positive integer below the model context window'' @
     when_issue (comp = CompactionAuto ModelLimit \<and> modelAutoCompactTokenLimit ctx = Some None)
       ''codex.compaction.autoCompactTokenLimit'' CapabilityUnavailable
       ''Unavailable: model metadata has no auto-compact limit'' @
     when_issue (auto \<and> manualCompactionAvailable ctx = None \<and>
         lacks caps ''remote_compaction_v2'' \<and> lacks caps ''compact_endpoint'')
       ''codex.compaction.mode'' UnsupportedCapability
       ''Unavailable: bridge does not advertise an official compaction path'' @
     when_issue (auto \<and> manualCompactionAvailable ctx = None \<and>
         remoteCompactionV2 ctx = Some False \<and> compactEndpoint ctx = Some False \<and>
         (caps = None \<or> has_cap caps ''remote_compaction_v2'' \<or> has_cap caps ''compact_endpoint''))
       ''codex.compaction.mode'' UnsupportedCapability
       ''Unavailable: provider has no official compaction path'' @
     when_issue (tmode = TransportAuto \<and> transportAvailable ctx = None \<and>
         providerSupportsWebsockets ctx = Some False \<and> lacks caps ''responses_sse'')
       ''codex.transport.mode'' UnsupportedCapability
       ''Unavailable: neither WebSocket nor SSE transport is available'' @
     when_issue (tmode = TransportAuto \<and> transportAvailable ctx = None \<and>
         providerSupportsWebsockets ctx \<noteq> Some False \<and>
         lacks caps ''responses_websocket'' \<and> lacks caps ''responses_sse'')
       ''codex.transport.mode'' UnsupportedCapability
       ''Unavailable: neither WebSocket nor SSE transport is available'' @
     when_issue (tmode = TransportSse \<and> transportAvailable ctx = None \<and> lacks caps ''responses_sse'')
       ''codex.transport.mode'' UnsupportedCapability
       ''Unavailable: bridge does not advertise responses_sse'' @
     when_issue (wmode \<noteq> WebDisabled \<and> webSearchAvailable ctx = None \<and>
         lacks caps ''standalone_web_search'' \<and> lacks caps ''hosted_web_search'')
       ''codex.webSearch.mode'' UnsupportedCapability
       ''Unavailable: bridge does not advertise a web search surface'')"

definition validateConfigForSave ::
  "js \<Rightarrow> ConfigCapabilityContext \<Rightarrow> (ConfigurationIssue list, CodexConfig) result" where
  "validateConfigForSave v ctx =
     res_bind (parseConfig v) (\<lambda>config.
       let issues = collectCapabilityIssues config ctx in
       if issues \<noteq> [] then Inl issues else Inr config)"

section \<open>The evaluation of each setting\<close>

definition evaluation :: "string \<Rightarrow> SettingAvailability \<Rightarrow> ConfigSettingEvaluation" where
  "evaluation p a = \<lparr>eval_path = p, eval_availability = a\<rparr>"

definition evaluateBackgroundSessions ::
  "CodexConfig \<Rightarrow> ConfigCapabilityContext \<Rightarrow> ConfigSettingEvaluation" where
  "evaluateBackgroundSessions config ctx = evaluation ''tools.backgroundSessions''
     (if backgroundSessionsAvailable ctx = Some False
      then SettingUnsupported ''Unavailable: no complete managed-session route exists''
      else if backgroundSessionsAvailable ctx = Some True \<or> shellSurface ctx = None \<or>
          shellSurface ctx = Some UnifiedExec
      then (if backgroundSessions (tools config) then SettingEnabled
            else SettingDisabled ''Disabled: managed sessions terminate or remain unavailable'')
      else SettingUnsupported ''Unavailable: the current model has no managed-session route'')"

definition evaluateOptionalTool ::
  "string \<Rightarrow> AutoOrOff \<Rightarrow> string list option \<Rightarrow> string \<Rightarrow> string \<Rightarrow> bool option \<Rightarrow>
     ConfigSettingEvaluation" where
  "evaluateOptionalTool path val caps capability unsupportedReason effectiveAvailable =
     evaluation path
       (if val = OffMode then SettingDisabled ''Disabled by configuration''
        else if effectiveAvailable = Some False
        then SettingUnsupported ''Unavailable: no complete route exists''
        else if lacks caps capability then SettingUnsupported unsupportedReason
        else SettingEnabled)"

definition evaluateTransport ::
  "CodexConfig \<Rightarrow> ConfigCapabilityContext \<Rightarrow> string list option \<Rightarrow> ConfigSettingEvaluation" where
  "evaluateTransport config ctx caps = evaluation ''codex.transport.mode''
     (if transportAvailable ctx = Some False
      then SettingUnsupported ''Unavailable: no complete transport exists''
      else if transportMode (codex config) = TransportSse
      then (if lacks caps ''responses_sse''
            then SettingUnsupported ''Unavailable: bridge does not advertise responses_sse''
            else SettingEnabled)
      else if providerSupportsWebsockets ctx = Some False
      then (if lacks caps ''responses_sse''
            then SettingUnsupported ''Unavailable: neither WebSocket nor SSE transport is available''
            else SettingDisabled ''WebSocket unavailable for this provider; SSE will be used'')
      else if lacks caps ''responses_websocket'' \<and> lacks caps ''responses_sse''
      then SettingUnsupported ''Unavailable: bridge does not advertise Responses transport''
      else SettingEnabled)"

definition evaluateWebSearch ::
  "CodexConfig \<Rightarrow> string list option \<Rightarrow> bool option \<Rightarrow> ConfigSettingEvaluation" where
  "evaluateWebSearch config caps effectiveAvailable = evaluation ''codex.webSearch.mode''
     (if webSearchMode (codex config) = WebDisabled
      then SettingDisabled ''Disabled by configuration''
      else if effectiveAvailable = Some False
      then SettingUnsupported ''Unavailable: no complete route exists''
      else if lacks caps ''standalone_web_search'' \<and> lacks caps ''hosted_web_search''
      then SettingUnsupported ''Unavailable: bridge does not advertise a web search surface''
      else SettingEnabled)"

definition evaluateCompaction ::
  "CodexConfig \<Rightarrow> ConfigCapabilityContext \<Rightarrow> string list option \<Rightarrow> ConfigSettingEvaluation" where
  "evaluateCompaction config ctx caps = evaluation ''codex.compaction.mode''
     (if compaction (codex config) = CompactionOff
      then SettingDisabled ''Disabled by configuration''
      else if manualCompactionAvailable ctx = Some False
      then SettingUnsupported ''Unavailable: no complete route exists''
      else if lacks caps ''remote_compaction_v2'' \<and> lacks caps ''compact_endpoint''
      then SettingUnsupported ''Unavailable: bridge does not advertise an official compaction path''
      else if remoteCompactionV2 ctx = Some False \<and> compactEndpoint ctx = Some False
      then SettingUnsupported ''Unavailable: provider has no official compaction path''
      else SettingEnabled)"

definition evaluateAutoCompactTokenLimit ::
  "CodexConfig \<Rightarrow> ConfigCapabilityContext \<Rightarrow> ConfigSettingEvaluation" where
  "evaluateAutoCompactTokenLimit config ctx = evaluation ''codex.compaction.autoCompactTokenLimit''
     (case compaction (codex config) of
        CompactionOff \<Rightarrow> SettingDisabled ''Compaction is off''
      | CompactionAuto ModelLimit \<Rightarrow>
          (if modelAutoCompactTokenLimit ctx = Some None
           then SettingUnsupported ''Unavailable: model metadata has no auto-compact limit''
           else SettingEnabled)
      | CompactionAuto (NumberLimit n) \<Rightarrow>
          (case contextWindow ctx of
             Some w \<Rightarrow>
               if num_le w n
               then SettingUnsupported ''Unavailable: threshold must be below the model context window''
               else SettingEnabled
           | None \<Rightarrow> SettingEnabled))"

definition evaluateConfigSettings ::
  "CodexConfig \<Rightarrow> ConfigCapabilityContext \<Rightarrow> ConfigSettingEvaluation list" where
  "evaluateConfigSettings config ctx =
     (let caps = bridgeCapabilities ctx in
      [evaluateBackgroundSessions config ctx,
       evaluateOptionalTool ''tools.optional.viewImage'' (viewImage (optionalTools (tools config)))
         caps ''view_image'' ''Unavailable: bridge does not advertise view_image''
         (viewImageAvailable ctx),
       evaluateOptionalTool ''tools.optional.imageGeneration''
         (imageGeneration (optionalTools (tools config)))
         caps ''image_generation'' ''Unavailable: bridge does not advertise image_generation''
         (imageGenerationAvailable ctx),
       evaluateTransport config ctx caps,
       evaluateWebSearch config caps (webSearchAvailable ctx),
       evaluateCompaction config ctx caps] @
      (if compaction (codex config) \<noteq> CompactionOff
       then [evaluateAutoCompactTokenLimit config ctx] else []))"

section \<open>The gate and the view agree\<close>

definition unsupported_at :: "ConfigSettingEvaluation list \<Rightarrow> string \<Rightarrow> bool" where
  "unsupported_at evs p \<longleftrightarrow>
     (\<exists>e \<in> set evs. eval_path e = p \<and> (\<exists>r. eval_availability e = SettingUnsupported r))"

lemma when_issue_member [simp]:
  "i \<in> set (when_issue b p c m) \<longleftrightarrow> b \<and> i = \<lparr>issue_path = p, issue_code = c, issue_message = m\<rparr>"
  by (auto simp: when_issue_def issue_def)

lemma when_issue_Nil [simp]: "when_issue b p c m = [] \<longleftrightarrow> \<not> b"
  by (simp add: when_issue_def)

lemma evaluation_simps [simp]:
  "eval_path (evaluation p a) = p" "eval_availability (evaluation p a) = a"
  by (simp_all add: evaluation_def)

lemma lacks_simps [simp]: "\<not> lacks None k" "lacks (Some ks) k \<longleftrightarrow> k \<notin> set ks"
  by (simp_all add: lacks_def)

text \<open>What each evaluation shows as unsupported.\<close>

definition shows_unsupported :: "ConfigSettingEvaluation \<Rightarrow> bool" where
  "shows_unsupported e = (case eval_availability e of SettingUnsupported _ \<Rightarrow> True | _ \<Rightarrow> False)"

lemma shows_unsupported_iff:
  "shows_unsupported e \<longleftrightarrow> (\<exists>r. eval_availability e = SettingUnsupported r)"
  by (auto simp: shows_unsupported_def split: SettingAvailability.splits)

lemma unsupported_atI:
  "e \<in> set evs \<Longrightarrow> eval_path e = p \<Longrightarrow> shows_unsupported e \<Longrightarrow> unsupported_at evs p"
  by (auto simp: unsupported_at_def shows_unsupported_iff)

lemma evaluate_paths [simp]:
  "eval_path (evaluateBackgroundSessions c x) = ''tools.backgroundSessions''"
  "eval_path (evaluateTransport c x caps) = ''codex.transport.mode''"
  "eval_path (evaluateWebSearch c caps a) = ''codex.webSearch.mode''"
  "eval_path (evaluateCompaction c x caps) = ''codex.compaction.mode''"
  "eval_path (evaluateAutoCompactTokenLimit c x) = ''codex.compaction.autoCompactTokenLimit''"
  by (simp_all add: evaluateBackgroundSessions_def evaluateTransport_def evaluateWebSearch_def
      evaluateCompaction_def evaluateAutoCompactTokenLimit_def)

text \<open>
  The window the host reports is an integer. With a fractional window the gate refuses the
  draft while the view still shows the limit as enabled, so the agreement needs this.
\<close>

definition integral_window :: "ConfigCapabilityContext \<Rightarrow> bool" where
  "integral_window ctx = (case contextWindow ctx of Some w \<Rightarrow> isSafeInteger w | None \<Rightarrow> True)"

lemma in_evaluateConfigSettings:
  "evaluateBackgroundSessions c x \<in> set (evaluateConfigSettings c x)"
  "evaluateTransport c x (bridgeCapabilities x) \<in> set (evaluateConfigSettings c x)"
  "evaluateWebSearch c (bridgeCapabilities x) (webSearchAvailable x) \<in> set (evaluateConfigSettings c x)"
  "evaluateCompaction c x (bridgeCapabilities x) \<in> set (evaluateConfigSettings c x)"
  "compaction (codex c) \<noteq> CompactionOff \<Longrightarrow>
     evaluateAutoCompactTokenLimit c x \<in> set (evaluateConfigSettings c x)"
  by (simp_all add: evaluateConfigSettings_def Let_def)

lemma gate_backgroundSessions:
  "backgroundSessionsAvailable x = Some False \<Longrightarrow> shows_unsupported (evaluateBackgroundSessions c x)"
  by (simp add: shows_unsupported_def evaluateBackgroundSessions_def)

lemma gate_webSearch:
  "webSearchMode (codex c) \<noteq> WebDisabled \<Longrightarrow>
     a = Some False \<or> lacks caps ''standalone_web_search'' \<and> lacks caps ''hosted_web_search'' \<Longrightarrow>
     shows_unsupported (evaluateWebSearch c caps a)"
  by (auto simp: shows_unsupported_def evaluateWebSearch_def)

lemma gate_compaction:
  "compaction (codex c) \<noteq> CompactionOff \<Longrightarrow>
     manualCompactionAvailable x = Some False \<or>
       lacks caps ''remote_compaction_v2'' \<and> lacks caps ''compact_endpoint'' \<or>
       remoteCompactionV2 x = Some False \<and> compactEndpoint x = Some False \<Longrightarrow>
     shows_unsupported (evaluateCompaction c x caps)"
  by (auto simp: shows_unsupported_def evaluateCompaction_def)

lemma gate_transport:
  "transportAvailable x = Some False \<or>
     lacks caps ''responses_sse'' \<and>
       (transportMode (codex c) = TransportSse \<or> providerSupportsWebsockets x = Some False \<or>
        lacks caps ''responses_websocket'') \<Longrightarrow>
   shows_unsupported (evaluateTransport c x caps)"
  by (auto simp: shows_unsupported_def evaluateTransport_def)

lemma gate_number_limit:
  assumes "compaction (codex c) = CompactionAuto l" and "\<not> limitBelowWindow l (contextWindow x)"
    and "wf_limit (CompactionAuto l)" and "integral_window x"
  shows "shows_unsupported (evaluateAutoCompactTokenLimit c x)"
proof -
  from assms(2) obtain n w where l: "l = NumberLimit n" and w: "contextWindow x = Some w"
    by (auto simp: limitBelowWindow_def split: AutoCompactTokenLimit.splits option.splits)
  from assms(3,4) l w have n: "num_less (Fin 0) n" and "isSafeInteger w"
    by (simp_all add: wf_limit_def integral_window_def)
  with assms(2) l w have "num_le w (Fin 0) \<or> num_le w n"
    by (simp add: limitBelowWindow_def)
  with n have "num_le w n"
    by (metis num_le_def num_le_less_trans)
  with assms(1) l w show ?thesis
    by (simp add: shows_unsupported_def evaluateAutoCompactTokenLimit_def)
qed

lemma gate_model_limit:
  "compaction (codex c) = CompactionAuto ModelLimit \<Longrightarrow> modelAutoCompactTokenLimit x = Some None \<Longrightarrow>
     shows_unsupported (evaluateAutoCompactTokenLimit c x)"
  by (simp add: shows_unsupported_def evaluateAutoCompactTokenLimit_def)

lemmas at_path = unsupported_atI [OF _ evaluate_paths(1)] unsupported_atI [OF _ evaluate_paths(2)]
  unsupported_atI [OF _ evaluate_paths(3)] unsupported_atI [OF _ evaluate_paths(4)]
  unsupported_atI [OF _ evaluate_paths(5)]

lemmas at_settings =
  at_path(1) [OF in_evaluateConfigSettings(1) gate_backgroundSessions]
  at_path(3) [OF in_evaluateConfigSettings(3) gate_webSearch]
  at_path(4) [OF in_evaluateConfigSettings(4) gate_compaction]
  at_path(2) [OF in_evaluateConfigSettings(2) gate_transport]
  at_path(5) [OF in_evaluateConfigSettings(5) gate_number_limit]
  at_path(5) [OF in_evaluateConfigSettings(5) gate_model_limit]

lemma collected_issue_unsupported:
  assumes i: "i \<in> set (collectCapabilityIssues c x)" and wf: "wf_config c" "integral_window x"
  shows "unsupported_at (evaluateConfigSettings c x) (issue_path i)"
proof -
  from wf have lim: "wf_limit (compaction (codex c))" by (simp add: wf_config_def)
  from i show ?thesis
    unfolding collectCapabilityIssues_def Let_def set_append Un_iff when_issue_member
    by (elim disjE conjE)
       (simp_all add: at_settings lim wf split: CompactionConfig.splits,
        (metis CompactionConfig.distinct(1) at_settings(5) lim wf(2))?)
qed

section \<open>Properties\<close>

text \<open>
  Save gate and settings view agree. Every capability issue for which the gate refuses a draft
  is shown by the settings view, which evaluates the same configuration and context, as an
  unsupported setting at the path of the issue.
\<close>

theorem refused_setting_is_shown:
  assumes "parseConfig v = Inr c" and "validateConfigForSave v ctx = Inl issues"
    and "integral_window ctx" and "i \<in> set issues"
  shows "unsupported_at (evaluateConfigSettings c ctx) (issue_path i)"
proof (rule collected_issue_unsupported)
  show "i \<in> set (collectCapabilityIssues c ctx)"
    using assms by (auto simp: validateConfigForSave_def Let_def split: if_splits)
  show "wf_config c" using assms(1) by (simp add: parseConfig_eq)
qed (rule assms(3))

theorem refused_setting_is_shown_witness:
  "unsupported_at (evaluateConfigSettings createDefaultConfig (emptyContext\<lparr>transportAvailable := Some False\<rparr>))
     ''codex.transport.mode''"
proof -
  let ?i = "\<lparr>issue_path = ''codex.transport.mode'', issue_code = CapabilityUnavailable,
    issue_message = ''Unavailable: no complete Responses transport route exists''\<rparr>"
  have gate: "validateConfigForSave (config_js createDefaultConfig)
      (emptyContext\<lparr>transportAvailable := Some False\<rparr>) = Inl [?i]"
    by (simp add: validateConfigForSave_def parseConfig_config_js collectCapabilityIssues_def
        when_issue_def issue_def emptyContext_def limitBelowWindow_def split: CompactionConfig.split
        AutoCompactTokenLimit.split)
  show ?thesis
    using refused_setting_is_shown [OF parseConfig_config_js gate, where i = ?i]
    by (simp add: integral_window_def emptyContext_def)
qed

text \<open>
  A configuration that passes the gate is the parsed one, and its numeric limit is a positive
  integer strictly below the context window whenever the window is known.
\<close>

theorem saved_limit_below_window:
  assumes "validateConfigForSave v ctx = Inr c"
    and "compaction (codex c) = CompactionAuto (NumberLimit n)" and "contextWindow ctx = Some w"
  shows "parseConfig v = Inr c \<and> num_less (Fin 0) n \<and> num_less n w \<and> isSafeInteger n \<and> isSafeInteger w"
proof -
  from assms(1) have parsed: "parseConfig v = Inr c" and "collectCapabilityIssues c ctx = []"
    by (auto simp: validateConfigForSave_def Let_def split: if_splits)
  then have "limitBelowWindow (NumberLimit n) (Some w)" and "wf_limit (CompactionAuto (NumberLimit n))"
    using assms(2,3) by (simp_all add: collectCapabilityIssues_def Let_def parseConfig_eq wf_config_def)
  then have n: "isSafeInteger n" "num_less (Fin 0) n" and w: "isSafeInteger w" "\<not> num_le w n"
    by (simp_all add: limitBelowWindow_def wf_limit_def)
  moreover from n(1) w have "num_less n w"
    by (auto simp: num_le_def elim!: isSafeInteger_cases)
  ultimately show ?thesis using parsed by simp
qed

definition limited_config :: CodexConfig where
  "limited_config = createDefaultConfig\<lparr>codex :=
     (codex createDefaultConfig)\<lparr>compaction := CompactionAuto (NumberLimit (Fin (of_int 5)))\<rparr>\<rparr>"

theorem saved_limit_below_window_witness:
  "num_less (Fin (of_int 5)) (Fin (of_int 9))"
proof -
  have wf: "wf_config limited_config"
    using wf_createDefaultConfig
    by (simp add: wf_config_def wf_limit_def limited_config_def isSafeInteger_def MAX_SAFE_INTEGER_def)
  have "collectCapabilityIssues limited_config (emptyContext\<lparr>contextWindow := Some (Fin (of_int 9))\<rparr>) = []"
    by (simp add: collectCapabilityIssues_def limited_config_def createDefaultConfig_def emptyContext_def
        limitBelowWindow_def isSafeInteger_def MAX_SAFE_INTEGER_def)
  with wf have "validateConfigForSave (config_js limited_config)
      (emptyContext\<lparr>contextWindow := Some (Fin (of_int 9))\<rparr>) = Inr limited_config"
    by (simp add: validateConfigForSave_def parseConfig_config_js)
  from saved_limit_below_window [OF this, of "Fin (of_int 5)" "Fin (of_int 9)"] show ?thesis
    by (simp add: limited_config_def)
qed

end
