(* ===== verification/Structured_Json.thy ===== *)
theory Structured_Json
  imports Js_Prelude
begin

text \<open>
  The strict JSON test of \<open>src/src/application/structured-json.ts\<close>, over an explicit heap.
  The source walks arbitrary JavaScript values: objects have an identity, a prototype, symbol
  keys, accessors and possibly cycles, and the walk carries the set of its ancestors. A heap is
  a list of objects and an address an index into it. The walk is total: the ancestors only
  grow, and there are finitely many addresses. Its meaning is given by a relation between a
  heap value and the JSON tree it unfolds to; the test accepts exactly the values that unfold
  to a finite JSON tree, so the other theories work on trees.

  Proxies are left out: the source treats an exception from a trap as a rejection.
\<close>

section \<open>The heap\<close>

type_synonym addr = nat

datatype hval = HUndef | HNull | HBool bool | HNum jsnum | HStr string
  | HFunction | HSymbol | HBigint int | HRef addr

datatype pkey = PName string | PSymbol nat

datatype descriptor = DataProp hval bool | AccessorProp bool

datatype prototype = ObjectPrototype | ArrayPrototype | NullPrototype | OtherPrototype

record hobj =
  is_array :: bool
  proto :: prototype
  own :: "(pkey \<times> descriptor) list"
  arr_length :: nat

type_synonym heap = "hobj list"

text \<open>\<open>String(index)\<close> for an array index.\<close>

fun digits_of :: "nat \<Rightarrow> string" where
  "digits_of n = (if n < 10 then [char_of (48 + n)] else digits_of (n div 10) @ [char_of (48 + n mod 10)])"

declare digits_of.simps [simp del]

definition own_names :: "hobj \<Rightarrow> string list" where
  "own_names ob = concat (map (\<lambda>(k, d). case k of PName s \<Rightarrow> [s] | PSymbol _ \<Rightarrow> []) (own ob))"

definition has_symbol :: "hobj \<Rightarrow> bool" where
  "has_symbol ob = list_ex (\<lambda>(k, d). case k of PName _ \<Rightarrow> False | PSymbol _ \<Rightarrow> True) (own ob)"

text \<open>A property that is a plain enumerable data property.\<close>

definition plain_data :: "hobj \<Rightarrow> string \<Rightarrow> bool" where
  "plain_data ob name = (case map_of (own ob) (PName name) of Some (DataProp _ e) \<Rightarrow> e | _ \<Rightarrow> False)"

definition data_of :: "hobj \<Rightarrow> string \<Rightarrow> hval" where
  "data_of ob name = (case map_of (own ob) (PName name) of Some (DataProp v _) \<Rightarrow> v | _ \<Rightarrow> HUndef)"

section \<open>The tests\<close>

definition strictRecordProperties :: "hobj \<Rightarrow> bool" where
  "strictRecordProperties ob \<longleftrightarrow> \<not> has_symbol ob \<and> list_all (plain_data ob) (own_names ob)"

text \<open>
  \<open>Number(name)\<close> is an integer below the length that prints as the name: the name is one of
  the printed indices.
\<close>

definition isArrayIndex :: "string \<Rightarrow> nat \<Rightarrow> bool" where
  "isArrayIndex name len = list_ex (\<lambda>i. digits_of i = name) [0..<len]"

definition strictArrayProperties :: "hobj \<Rightarrow> bool" where
  "strictArrayProperties ob \<longleftrightarrow> \<not> has_symbol ob \<and>
     ''length'' \<in> set (own_names ob) \<and>
     (case map_of (own ob) (PName ''length'') of
        Some (DataProp v _) \<Rightarrow> v = HNum (Fin (of_nat (arr_length ob))) | _ \<Rightarrow> False) \<and>
     list_all (\<lambda>i. plain_data ob (digits_of i)) [0..<arr_length ob] \<and>
     list_all (\<lambda>name. name = ''length'' \<or> isArrayIndex name (arr_length ob)) (own_names ob)"

definition strictPlainRecordObject :: "hobj \<Rightarrow> bool" where
  "strictPlainRecordObject ob \<longleftrightarrow> \<not> is_array ob \<and>
     (proto ob = ObjectPrototype \<or> proto ob = NullPrototype) \<and> strictRecordProperties ob"

definition strictJsonArrayObject :: "hobj \<Rightarrow> bool" where
  "strictJsonArrayObject ob \<longleftrightarrow> is_array ob \<and> proto ob = ArrayPrototype \<and> strictArrayProperties ob"

definition isStrictPlainRecord :: "heap \<Rightarrow> hval \<Rightarrow> bool" where
  "isStrictPlainRecord h v = (case v of
     HRef a \<Rightarrow> a < length h \<and> strictPlainRecordObject (h ! a) | _ \<Rightarrow> False)"

definition isStrictJsonArray :: "heap \<Rightarrow> hval \<Rightarrow> bool" where
  "isStrictJsonArray h v = (case v of
     HRef a \<Rightarrow> a < length h \<and> strictJsonArrayObject (h ! a) | _ \<Rightarrow> False)"

text \<open>\<open>value[index]\<close> for every index, and \<open>value[key]\<close> for every own key.\<close>

definition elements :: "hobj \<Rightarrow> hval list" where
  "elements ob = map (\<lambda>i. data_of ob (digits_of i)) [0..<arr_length ob]"

definition entries :: "hobj \<Rightarrow> (string \<times> hval) list" where
  "entries ob = map (\<lambda>k. (k, data_of ob k)) (own_names ob)"

lemma ancestors_decrease:
  fixes n :: nat
  assumes "a \<notin> anc" and "a < n"
  shows "card ({..<n} - insert a anc) < card ({..<n} - anc)"
proof (rule psubset_card_mono)
  show "finite ({..<n} - anc)" by simp
  have "a \<in> {..<n} - anc" and "a \<notin> {..<n} - insert a anc" using assms by simp_all
  then show "{..<n} - insert a anc \<subset> {..<n} - anc" by blast
qed

function (sequential) visit :: "heap \<Rightarrow> hval \<Rightarrow> addr set \<Rightarrow> bool" where
  "visit h HNull ancestors = True"
| "visit h (HStr s) ancestors = True"
| "visit h (HBool b) ancestors = True"
| "visit h (HNum n) ancestors = isFinite n"
| "visit h (HRef a) ancestors =
     (if a \<in> ancestors \<or> length h \<le> a then False
      else if is_array (h ! a)
      then strictJsonArrayObject (h ! a) \<and>
        list_all (\<lambda>w. visit h w (insert a ancestors)) (elements (h ! a))
      else strictPlainRecordObject (h ! a) \<and>
        list_all (\<lambda>e. visit h (snd e) (insert a ancestors)) (entries (h ! a)))"
| "visit h v ancestors = False"
  by pat_completeness (simp_all only: prod.inject hval.inject hval.distinct simp_thms)
termination
  by (relation "measure (\<lambda>(h, v, anc). card ({..<length h} - anc))")
     (auto simp del: card_Diff_insert intro: ancestors_decrease)

declare visit.simps(5) [simp del]

definition isStrictJsonValue :: "heap \<Rightarrow> hval \<Rightarrow> bool" where
  "isStrictJsonValue h v = visit h v {}"

section \<open>The tree a heap value unfolds to\<close>

inductive unfolds :: "heap \<Rightarrow> hval \<Rightarrow> js \<Rightarrow> bool" for h where
  unfolds_undef: "unfolds h HUndef JUndef"
| unfolds_null: "unfolds h HNull JNull"
| unfolds_bool: "unfolds h (HBool b) (JBool b)"
| unfolds_num: "unfolds h (HNum n) (JNum n)"
| unfolds_str: "unfolds h (HStr s) (JStr s)"
| unfolds_arr: "a < length h \<Longrightarrow> strictJsonArrayObject (h ! a) \<Longrightarrow>
     list_all2 (unfolds h) (elements (h ! a)) ts \<Longrightarrow> unfolds h (HRef a) (JArr ts)"
| unfolds_obj: "a < length h \<Longrightarrow> strictPlainRecordObject (h ! a) \<Longrightarrow>
     list_all2 (\<lambda>e t. fst e = fst t \<and> unfolds h (snd e) (snd t)) (entries (h ! a)) ts \<Longrightarrow>
     unfolds h (HRef a) (JObj ts)"

inductive_cases unfolds_refE: "unfolds h (HRef a) t"
inductive_cases unfolds_leafE:
  "unfolds h HUndef t" "unfolds h HNull t" "unfolds h (HBool b) t" "unfolds h (HNum n) t"
  "unfolds h (HStr s) t" "unfolds h HFunction t" "unfolds h HSymbol t" "unfolds h (HBigint i) t"

text \<open>The test on trees: no \<open>undefined\<close> and no non-finite number anywhere.\<close>

fun strict_js :: "js \<Rightarrow> bool" where
  "strict_js JUndef = False"
| "strict_js (JNum n) = isFinite n"
| "strict_js (JArr ts) = list_all strict_js ts"
| "strict_js (JObj kvs) = list_all (\<lambda>kv. strict_js (snd kv)) kvs"
| "strict_js _ = True"

lemma list_all2_unique:
  assumes "list_all2 (\<lambda>x y. P x y \<and> (\<forall>z. P x z \<longrightarrow> y = z)) xs ys" and "list_all2 P xs zs"
  shows "ys = zs"
  using assms
  by (induction xs ys arbitrary: zs rule: list_all2_induct) (auto simp: list_all2_Cons1)

lemma unfolds_unique: "unfolds h v t \<Longrightarrow> unfolds h v t' \<Longrightarrow> t = t'"
proof (induction arbitrary: t' rule: unfolds.induct)
  case (unfolds_arr a ts)
  from unfolds_arr.prems unfolds_arr.hyps(2) obtain ts' where t': "t' = JArr ts'"
    and "list_all2 (unfolds h) (elements (h ! a)) ts'"
    by (auto elim!: unfolds_refE simp: strictJsonArrayObject_def strictPlainRecordObject_def)
  moreover have "list_all2 (\<lambda>x y. unfolds h x y \<and> (\<forall>z. unfolds h x z \<longrightarrow> y = z)) (elements (h ! a)) ts"
    using unfolds_arr.IH by (rule list_all2_mono) blast
  ultimately show ?case using list_all2_unique by blast
next
  case (unfolds_obj a ts)
  let ?P = "\<lambda>e t. fst e = fst t \<and> unfolds h (snd e) (snd t)"
  from unfolds_obj.prems unfolds_obj.hyps(2) obtain ts' where t': "t' = JObj ts'"
    and "list_all2 ?P (entries (h ! a)) ts'"
    by (auto elim!: unfolds_refE simp: strictJsonArrayObject_def strictPlainRecordObject_def)
  moreover have "list_all2 (\<lambda>x y. ?P x y \<and> (\<forall>z. ?P x z \<longrightarrow> y = z)) (entries (h ! a)) ts"
    using unfolds_obj.IH by (rule list_all2_mono) (auto simp: prod_eq_iff)
  ultimately show ?case using list_all2_unique [of ?P] by blast
qed (auto elim: unfolds_leafE)


section \<open>The test accepts exactly the finite JSON trees\<close>

lemma list_all_ex_list_all2: "list_all (\<lambda>x. \<exists>y. P x y \<and> Q y) xs \<Longrightarrow> \<exists>ys. list_all2 P xs ys \<and> list_all Q ys"
  by (induction xs) (fastforce simp: list_all2_Cons1)+

lemma visit_unfolds: "visit h v anc \<Longrightarrow> \<exists>t. unfolds h v t \<and> strict_js t"
proof (induction h v anc rule: visit.induct)
  case (5 h a anc)
  then have a: "a \<notin> anc" "a < length h" by (auto simp: visit.simps(5) split: if_splits)
  show ?case
  proof (cases "is_array (h ! a)")
    case True
    with 5 a have "list_all (\<lambda>w. \<exists>t. unfolds h w t \<and> strict_js t) (elements (h ! a))"
      by (auto simp: visit.simps(5) list_all_iff)
    then obtain ts where "list_all2 (unfolds h) (elements (h ! a)) ts" and "list_all strict_js ts"
      using list_all_ex_list_all2 by blast
    with True 5 a show ?thesis
      by (intro exI [of _ "JArr ts"]) (auto simp: visit.simps(5) intro: unfolds.intros)
  next
    case False
    let ?P = "\<lambda>e t. fst e = fst t \<and> unfolds h (snd e) (snd t)"
    have "\<exists>t. unfolds h (snd e) t \<and> strict_js t" if "e \<in> set (entries (h ! a))" for e
      using 5(2) [OF _ False that] 5(3) False a that by (auto simp: visit.simps(5) list_all_iff)
    then have "list_all (\<lambda>e. \<exists>t. ?P e t \<and> strict_js (snd t)) (entries (h ! a))"
      by (auto simp: list_all_iff)
    from list_all_ex_list_all2 [of ?P, OF this]
    obtain ts where "list_all2 ?P (entries (h ! a)) ts" and "list_all (\<lambda>t. strict_js (snd t)) ts"
      by (elim exE conjE)
    with False 5 a show ?thesis
      by (intro exI [of _ "JObj ts"]) (auto simp: visit.simps(5) intro: unfolds.intros)
  qed
qed (auto intro: unfolds.intros)

text \<open>
  Conversely, an address on the current path unfolds to a strictly larger tree, so the walk of
  a value that unfolds to a tree never meets one of its ancestors.
\<close>

lemma size_child_arr: "t \<in> set ts \<Longrightarrow> size t < size (JArr ts)"
  by (induction ts) auto

lemma size_child_obj: "e \<in> set ts \<Longrightarrow> size (snd e) < size (JObj ts)"
  by (induction ts) (auto simp: size_prod_simp split: prod.splits)

definition above :: "heap \<Rightarrow> js \<Rightarrow> addr set \<Rightarrow> bool" where
  "above h t anc \<longleftrightarrow> (\<forall>a \<in> anc. \<forall>t'. unfolds h (HRef a) t' \<longrightarrow> size t < size t')"

lemma above_child:
  "above h t anc \<Longrightarrow> unfolds h (HRef a) t \<Longrightarrow> size u < size t \<Longrightarrow> above h u (insert a anc)"
  unfolding above_def using unfolds_unique by (metis insert_iff less_trans)

lemma above_fresh: "above h t anc \<Longrightarrow> unfolds h (HRef a) t \<Longrightarrow> a \<notin> anc"
  unfolding above_def by blast

lemma visit_eq_strict: "unfolds h v t \<Longrightarrow> above h t anc \<Longrightarrow> visit h v anc = strict_js t"
proof (induction arbitrary: anc rule: unfolds.induct)
  case (unfolds_arr a ts)
  have un: "unfolds h (HRef a) (JArr ts)"
    using unfolds_arr by (auto intro!: unfolds.intros elim: list_all2_mono)
  have "list_all2 (\<lambda>w t. visit h w (insert a anc) = strict_js t) (elements (h ! a)) ts"
    using unfolds_arr.IH above_child [OF unfolds_arr.prems un size_child_arr]
    by (auto simp: list_all2_conv_all_nth)
  then have "list_all (\<lambda>w. visit h w (insert a anc)) (elements (h ! a)) = list_all strict_js ts"
    by (induction rule: list_all2_induct) auto
  with unfolds_arr.hyps above_fresh [OF unfolds_arr.prems un] show ?case
    by (simp add: visit.simps(5) strictJsonArrayObject_def)
next
  case (unfolds_obj a ts)
  have un: "unfolds h (HRef a) (JObj ts)"
    using unfolds_obj by (auto intro!: unfolds.intros elim: list_all2_mono)
  have "list_all2 (\<lambda>e t. visit h (snd e) (insert a anc) = strict_js (snd t)) (entries (h ! a)) ts"
    using unfolds_obj.IH above_child [OF unfolds_obj.prems un size_child_obj]
    by (auto simp: list_all2_conv_all_nth)
  then have "list_all (\<lambda>e. visit h (snd e) (insert a anc)) (entries (h ! a)) =
      list_all (\<lambda>t. strict_js (snd t)) ts"
    by (induction rule: list_all2_induct) auto
  with unfolds_obj.hyps above_fresh [OF unfolds_obj.prems un] show ?case
    by (simp add: visit.simps(5) strictPlainRecordObject_def)
qed auto

lemma isStrictJsonValue_tree: "unfolds h v t \<Longrightarrow> isStrictJsonValue h v = strict_js t"
  unfolding isStrictJsonValue_def by (rule visit_eq_strict) (simp_all add: above_def)

lemma isStrictJsonValue_iff: "isStrictJsonValue h v \<longleftrightarrow> (\<exists>t. unfolds h v t \<and> strict_js t)"
  using isStrictJsonValue_tree visit_unfolds isStrictJsonValue_def by blast

section \<open>Properties\<close>


end
