(* ===== verification/Compaction_Coordinator.thy ===== *)
theory Compaction_Coordinator
  imports Config_Schema
begin

text \<open>
  The \<open>CodexCompactionCoordinator\<close> of \<open>src/src/application/compaction.ts\<close> and the rules
  that decide when an automatic checkpoint is due. The coordinator is the concurrency control of
  compaction: the phases of one session form a state machine, given here as a step relation, and
  the map-based operations are shown to follow it. No two compactions of a session overlap.
\<close>

section \<open>The coordinator\<close>

datatype CompactionCoordinatorPhase = PhaseIdle | PhasePending | PhaseRequested | PhaseExecuting

type_synonym CodexCompactionCoordinator = "string \<rightharpoonup> CompactionCoordinatorPhase"

definition isBusy :: "string \<Rightarrow> CodexCompactionCoordinator \<Rightarrow> bool" where
  "isBusy sessionId sessions \<longleftrightarrow> sessions sessionId \<noteq> None \<and> sessions sessionId \<noteq> Some PhaseIdle"

definition begin_compaction ::
  "string \<Rightarrow> CodexCompactionCoordinator \<Rightarrow> bool \<times> CodexCompactionCoordinator" where
  "begin_compaction sessionId sessions =
    (if isBusy sessionId sessions then (False, sessions)
     else (True, sessions(sessionId \<mapsto> PhasePending)))"

definition requestExecution ::
  "string \<Rightarrow> CodexCompactionCoordinator \<Rightarrow> bool \<times> CodexCompactionCoordinator" where
  "requestExecution sessionId sessions =
    (if isBusy sessionId sessions then (False, sessions)
     else (True, sessions(sessionId \<mapsto> PhaseRequested)))"

definition beginExecution ::
  "string \<Rightarrow> CodexCompactionCoordinator \<Rightarrow> bool \<times> CodexCompactionCoordinator" where
  "beginExecution sessionId sessions =
    (if sessions sessionId = Some PhasePending \<or> sessions sessionId = Some PhaseExecuting
     then (False, sessions) else (True, sessions(sessionId \<mapsto> PhaseExecuting)))"

definition end_compaction :: "string \<Rightarrow> CodexCompactionCoordinator \<Rightarrow> CodexCompactionCoordinator" where
  "end_compaction sessionId sessions = sessions(sessionId \<mapsto> PhaseIdle)"

definition endPending :: "string \<Rightarrow> CodexCompactionCoordinator \<Rightarrow> CodexCompactionCoordinator" where
  "endPending sessionId sessions = end_compaction sessionId sessions"

definition coordinator_dispose ::
  "string \<Rightarrow> CodexCompactionCoordinator \<Rightarrow> CodexCompactionCoordinator" where
  "coordinator_dispose sessionId sessions = sessions(sessionId := None)"

definition coordinator_disposeAll :: "CodexCompactionCoordinator \<Rightarrow> CodexCompactionCoordinator" where
  "coordinator_disposeAll sessions = Map.empty"

section \<open>Thresholds\<close>

text \<open>\<open>Math.trunc\<close>.\<close>

definition num_trunc :: "jsnum \<Rightarrow> jsnum" where
  "num_trunc n = (case n of Fin q \<Rightarrow> Fin (of_int (if q < 0 then \<lceil>q\<rceil> else \<lfloor>q\<rfloor>)) | _ \<Rightarrow> n)"

definition resolveCompactionThreshold ::
  "CompactionConfig \<Rightarrow> jsnum option \<Rightarrow> jsnum \<Rightarrow> jsnum option" where
  "resolveCompactionThreshold c modelAutoCompactTokenLimit contextWindow =
    (case c of
       CompactionOff \<Rightarrow> None
     | CompactionAuto limit \<Rightarrow>
        if \<not> isFinite contextWindow \<or> num_le contextWindow (Fin 0) then None
        else (case (case limit of NumberLimit n \<Rightarrow> Some n | ModelLimit \<Rightarrow> modelAutoCompactTokenLimit) of
            None \<Rightarrow> None
          | Some candidate \<Rightarrow>
              if \<not> isFinite candidate \<or> num_le candidate (Fin 0) then None
              else let threshold = num_trunc candidate in
                if num_less threshold contextWindow then Some threshold else None))"

definition shouldCreateAutomaticCheckpoint ::
  "CompactionMode \<Rightarrow> jsnum option \<Rightarrow> jsnum option \<Rightarrow> bool \<Rightarrow> bool \<Rightarrow> bool" where
  "shouldCreateAutomaticCheckpoint mode contextTokens threshold hasUncheckpointedInput busy \<longleftrightarrow>
     mode = ModeAuto \<and>
     (case contextTokens of None \<Rightarrow> False
      | Some tokens \<Rightarrow> isFinite tokens \<and>
          (case threshold of None \<Rightarrow> False | Some t \<Rightarrow> num_le t tokens)) \<and>
     hasUncheckpointedInput \<and> \<not> busy"

section \<open>The state machine of one session\<close>

datatype coord_op =
    CBegin string | CRequest string | CBeginExecution string | CEnd string | CEndPending string
  | CDispose string | CDisposeAll

fun coord_step :: "coord_op \<Rightarrow> CodexCompactionCoordinator \<Rightarrow> bool option \<times> CodexCompactionCoordinator" where
  "coord_step (CBegin s) c = apfst Some (begin_compaction s c)"
| "coord_step (CRequest s) c = apfst Some (requestExecution s c)"
| "coord_step (CBeginExecution s) c = apfst Some (beginExecution s c)"
| "coord_step (CEnd s) c = (None, end_compaction s c)"
| "coord_step (CEndPending s) c = (None, endPending s c)"
| "coord_step (CDispose s) c = (None, coordinator_dispose s c)"
| "coord_step CDisposeAll c = (None, coordinator_disposeAll c)"

datatype phase_event = Acquire | Announce | Execute | Release | Stay

text \<open>
  \<open>PhaseIdle\<close> also stands for an unknown session. \<open>Acquire\<close> and \<open>Execute\<close> start work;
  only \<open>Release\<close> leaves a working phase.
\<close>

inductive phase_step ::
  "CompactionCoordinatorPhase \<Rightarrow> phase_event \<Rightarrow> CompactionCoordinatorPhase \<Rightarrow> bool" where
  acquire: "phase_step PhaseIdle Acquire PhasePending"
| announce: "phase_step PhaseIdle Announce PhaseRequested"
| execute_idle: "phase_step PhaseIdle Execute PhaseExecuting"
| execute_requested: "phase_step PhaseRequested Execute PhaseExecuting"
| release: "phase_step p Release PhaseIdle"
| stay: "phase_step p Stay p"

inductive_cases phase_stepE: "phase_step p e q"

inductive_simps phase_step_simps:
  "phase_step p Acquire q" "phase_step p Announce q" "phase_step p Execute q"
  "phase_step p Release q" "phase_step p Stay q"

definition phase_of :: "CodexCompactionCoordinator \<Rightarrow> string \<Rightarrow> CompactionCoordinatorPhase" where
  "phase_of c s = (case c s of None \<Rightarrow> PhaseIdle | Some p \<Rightarrow> p)"

text \<open>The event an operation is for one session, given what the operation returned.\<close>

fun event_of :: "string \<Rightarrow> coord_op \<Rightarrow> bool option \<Rightarrow> phase_event" where
  "event_of s (CBegin t) r = (if t = s \<and> r = Some True then Acquire else Stay)"
| "event_of s (CRequest t) r = (if t = s \<and> r = Some True then Announce else Stay)"
| "event_of s (CBeginExecution t) r = (if t = s \<and> r = Some True then Execute else Stay)"
| "event_of s (CEnd t) r = (if t = s then Release else Stay)"
| "event_of s (CEndPending t) r = (if t = s then Release else Stay)"
| "event_of s (CDispose t) r = (if t = s then Release else Stay)"
| "event_of s CDisposeAll r = Release"

fun coord_events :: "string \<Rightarrow> coord_op list \<Rightarrow> CodexCompactionCoordinator \<Rightarrow> phase_event list" where
  "coord_events s [] c = []"
| "coord_events s (p # ps) c =
    (let (r, c') = coord_step p c in event_of s p r # coord_events s ps c')"

fun coord_run :: "coord_op list \<Rightarrow> CodexCompactionCoordinator \<Rightarrow> CodexCompactionCoordinator" where
  "coord_run [] c = c"
| "coord_run (p # ps) c = coord_run ps (snd (coord_step p c))"

definition starts_work :: "phase_event \<Rightarrow> bool" where
  "starts_work e \<longleftrightarrow> e = Acquire \<or> e = Execute"

lemmas coord_defs = begin_compaction_def requestExecution_def beginExecution_def end_compaction_def
  endPending_def coordinator_dispose_def coordinator_disposeAll_def

lemma coord_step_follows:
  "phase_step (phase_of c s) (event_of s p (fst (coord_step p c))) (phase_of (snd (coord_step p c)) s)"
  by (cases p) (auto simp: phase_step_simps coord_defs isBusy_def phase_of_def split: option.splits
      intro: CompactionCoordinatorPhase.exhaust)

inductive phase_trace ::
  "CompactionCoordinatorPhase \<Rightarrow> phase_event list \<Rightarrow> CompactionCoordinatorPhase \<Rightarrow> bool" where
  trace_nil: "phase_trace p [] p"
| trace_cons: "phase_step p e q \<Longrightarrow> phase_trace q es r \<Longrightarrow> phase_trace p (e # es) r"

lemma coord_trace: "phase_trace (phase_of c s) (coord_events s ps c) (phase_of (coord_run ps c) s)"
proof (induction ps arbitrary: c)
  case (Cons p ps)
  show ?case
    using coord_step_follows [of c s p] Cons.IH [of "snd (coord_step p c)"]
    by (auto simp: case_prod_beta Let_def intro: trace_cons)
qed (simp add: trace_nil)

lemma starts_work_simps [simp]:
  "starts_work Acquire" "starts_work Execute" "\<not> starts_work Announce" "\<not> starts_work Stay"
  "\<not> starts_work Release"
  by (simp_all add: starts_work_def)

text \<open>Without a release, a working session stays in its phase and no second work starts.\<close>

lemma working_trace:
  assumes "phase_trace p es q" and "Release \<notin> set es" and "p = PhasePending \<or> p = PhaseExecuting"
  shows "q = p \<and> filter starts_work es = []"
  using assms
  by (induction rule: phase_trace.induct) (auto elim!: phase_stepE)

lemma exclusive_trace:
  assumes "phase_trace p es q" and "Release \<notin> set es"
  shows "length (filter starts_work es) \<le> 1"
  using assms
proof (induction rule: phase_trace.induct)
  case (trace_cons p e q es r)
  then show ?case
    using working_trace [OF trace_cons.hyps(2)] by (auto elim!: phase_stepE)
qed simp

section \<open>Properties\<close>

text \<open>
  Mutual exclusion. Over any sequence of coordinator operations on any sessions in which a session
  is neither ended nor disposed, at most one \<open>begin\<close> or \<open>beginExecution\<close> of that session succeeds.
\<close>

theorem compaction_exclusive:
  assumes "Release \<notin> set (coord_events s ps c)"
  shows "length (filter starts_work (coord_events s ps c)) \<le> 1"
  using exclusive_trace [OF coord_trace] assms by blast

theorem compaction_exclusive_witness:
  "length (filter starts_work (coord_events ''x'' [CRequest ''x'', CBeginExecution ''x'', CEnd ''y'',
     CBegin ''x'', CBeginExecution ''x''] Map.empty)) \<le> 1"
  by (rule compaction_exclusive) (simp add: coord_defs isBusy_def)

text \<open>
  Threshold. When automatic compaction has a threshold it is an integer, not negative, at most the
  configured limit (or the limit of the model) and strictly below the context window; when the limit
  is at least one token the threshold is at least one token.
\<close>

theorem threshold_bounds:
  assumes "resolveCompactionThreshold c m w = Some t"
  shows "\<exists>limit candidate k. c = CompactionAuto limit \<and>
    (limit = NumberLimit (Fin candidate) \<or> limit = ModelLimit \<and> m = Some (Fin candidate)) \<and>
    t = Fin (of_int k) \<and> 0 \<le> k \<and> k = \<lfloor>candidate\<rfloor> \<and> (1 \<le> candidate \<longrightarrow> 1 \<le> k) \<and> num_less t w"
proof -
  from assms obtain limit candidate where c: "c = CompactionAuto limit"
    and cand: "(case limit of NumberLimit n \<Rightarrow> Some n | ModelLimit \<Rightarrow> m) = Some (Fin candidate)"
    and pos: "0 < candidate" and t: "t = num_trunc (Fin candidate)" and less: "num_less t w"
    by (auto simp: resolveCompactionThreshold_def Let_def isFinite_def num_le_def not_less
        split: CompactionConfig.splits if_splits option.splits jsnum.splits)
  from pos t have "t = Fin (of_int \<lfloor>candidate\<rfloor>)" by (simp add: num_trunc_def)
  moreover have "0 \<le> \<lfloor>candidate\<rfloor>" "1 \<le> candidate \<longrightarrow> 1 \<le> \<lfloor>candidate\<rfloor>"
    using pos by (simp_all add: le_floor_iff)
  moreover have "limit = NumberLimit (Fin candidate) \<or> limit = ModelLimit \<and> m = Some (Fin candidate)"
    using cand by (cases limit) auto
  ultimately show ?thesis using c less by blast
qed

theorem threshold_bounds_witness:
  "\<exists>limit candidate k. CompactionAuto ModelLimit = CompactionAuto limit \<and>
    (limit = NumberLimit (Fin candidate) \<or> limit = ModelLimit \<and> Some (Fin 5) = Some (Fin candidate)) \<and>
    Fin 5 = Fin (of_int k) \<and> 0 \<le> k \<and> k = \<lfloor>candidate\<rfloor> \<and> (1 \<le> candidate \<longrightarrow> 1 \<le> k) \<and>
    num_less (Fin 5) (Fin 9)"
  by (rule threshold_bounds) (simp add: resolveCompactionThreshold_def isFinite_def num_trunc_def)

end
