(* ===== verification/Capability_Resolution.thy ===== *)
theory Capability_Resolution
  imports Config_Capability Compaction_Coordinator
begin

text \<open>
  Capability resolution: \<open>src/src/domain/capability.ts\<close> (the strict parsers of native
  metadata and the parameters of \<open>tools.resolve\<close>) and
  \<open>src/src/application/resolve-effective-capabilities.ts\<close> (the snapshot, its cache and the
  context of the settings view). The native runtime is not part of the sources: its three calls
  are fields of a record of functions that every definition takes as an argument, and every
  theorem holds for all of them.

  The lemmas show that nothing is reported available without a bridge executor, that the cache
  key covers all that the resolution reads, that a failed resolution is never served from the cache
  and that the two threshold rules agree.
\<close>

section \<open>Types\<close>

definition MANAGED_TOOL_NAMES :: "string list" where
  "MANAGED_TOOL_NAMES = [''update_plan'', ''exec_command'', ''write_stdin'', ''shell_command'',
     ''apply_patch'', ''view_image'', ''image_gen.imagegen'', ''web.run'']"

datatype AvailabilitySource = Official | Supplemental | ProviderContract

datatype Availability = Available AvailabilitySource | Disabled string | Unavailable string

datatype WebsocketContract = OfficialOnly | WebsocketUnavailable

text \<open>The other fields of the contract have the literal type \<open>true\<close>.\<close>

record CompleteCodexProviderContract =
  responsesWebsocket :: WebsocketContract

record ResolvedModelCapability =
  rm_model :: js_object
  rm_shellSurface :: ShellSurface
  rm_autoCompactTokenLimit :: "jsnum option"

record NativeToolCapabilityEvidence =
  ev_sessions :: Availability
  ev_applyPatch :: Availability
  ev_viewImage :: Availability
  ev_imageGeneration :: Availability
  ev_webSearch :: Availability

datatype SessionSurface = SessionOfficial | SessionSupplemental | SessionDisabled | SessionUnavailable
datatype WebSurface = WebStandalone | WebHosted | WebSurfaceDisabled | WebUnsupported
datatype ImageGenerationSurface = ImageStandalone | ImageDisabled

record ResolvedToolCapability =
  rt_modelTools :: "js list"
  rt_dispatchTools :: "js list"
  rt_localToolNames :: "string list"
  rt_hostedToolNames :: "string list"
  rt_shellSurface :: ShellSurface
  rt_sessionSurface :: SessionSurface
  rt_webSurface :: WebSurface
  rt_imageGenerationSurface :: ImageGenerationSurface
  rt_capabilities :: NativeToolCapabilityEvidence

datatype NativeCompactionImplementation = ImplRemoteV2 | ImplCompactEndpoint

datatype CapabilityErrorCode =
    InactiveProvider | ModelMetadataUnavailable | ProviderCapabilityUnavailable | CompactionUnsupported
  | EffectiveCapabilityInvalid | ProviderSessionUnavailable | ProviderContractMismatch

text \<open>What a resolution can throw: a \<open>CapabilityError\<close>, a plain error, or an error of the runtime.\<close>

datatype resolve_error =
    CapabilityError CapabilityErrorCode string
  | PlainError string
  | RuntimeError string

type_synonym 'a resolved = "(resolve_error, 'a) result"

record ToolsResolveHostOptions =
  ho_providerId :: string
  ho_allowedLocalToolNames :: "string list"
  ho_webSearchMode :: WebSearchMode
  ho_viewImage :: bool
  ho_imageGeneration :: bool
  ho_backgroundSessions :: bool
  ho_bridgeCapabilities :: "string list"
  ho_allowLoginShell :: "bool option"
  ho_execPermissionApprovalsEnabled :: "bool option"

section \<open>Parsing native metadata\<close>

definition metadataError :: "string \<Rightarrow> resolve_error" where
  "metadataError reason = CapabilityError ModelMetadataUnavailable reason"

definition invalidCapability :: "string \<Rightarrow> resolve_error" where
  "invalidCapability reason = CapabilityError EffectiveCapabilityInvalid reason"

definition completeProviderContract :: "string \<Rightarrow> CompleteCodexProviderContract" where
  "completeProviderContract pid =
    \<lparr>responsesWebsocket = (if pid = ''openai-codex'' then OfficialOnly else WebsocketUnavailable)\<rparr>"

definition parseShellSurface :: "js \<Rightarrow> ShellSurface resolved" where
  "parseShellSurface v =
    (if v = JStr ''unified-exec'' then Inr UnifiedExec
     else if v = JStr ''shell-command'' then Inr ShellCommand
     else if v = JStr ''disabled'' then Inr ShellDisabled
     else Inl (metadataError ''OpenAI Codex model metadata did not include a valid shell surface''))"

definition parseAutoCompactTokenLimit :: "js \<Rightarrow> jsnum option resolved" where
  "parseAutoCompactTokenLimit v =
    (case v of
       JNull \<Rightarrow> Inr None
     | JNum n \<Rightarrow> if isSafeInteger n \<and> num_less (Fin 0) n then Inr (Some n)
         else Inl (metadataError ''OpenAI Codex model metadata did not include a valid auto-compact limit'')
     | _ \<Rightarrow> Inl (metadataError ''OpenAI Codex model metadata did not include a valid auto-compact limit''))"

definition parseModelResolution :: "js \<Rightarrow> string \<Rightarrow> ResolvedModelCapability resolved" where
  "parseModelResolution v expectedModelId =
    (case as_record v of
       None \<Rightarrow> Inl (metadataError ''OpenAI Codex model metadata is unavailable'')
     | Some rt \<Rightarrow>
        (case as_record (get_prop rt ''model'') of
           None \<Rightarrow> Inl (metadataError ''OpenAI Codex model metadata did not match the selected model'')
         | Some model \<Rightarrow>
             if get_prop model ''slug'' \<noteq> JStr expectedModelId
             then Inl (metadataError ''OpenAI Codex model metadata did not match the selected model'')
             else res_bind (parseShellSurface (get_prop rt ''shellSurface'')) (\<lambda>shell.
               res_bind (parseAutoCompactTokenLimit (get_prop rt ''autoCompactTokenLimit'')) (\<lambda>limit.
               Inr \<lparr>rm_model = model, rm_shellSurface = shell, rm_autoCompactTokenLimit = limit\<rparr>))))"

definition contract_js :: "CompleteCodexProviderContract \<Rightarrow> js" where
  "contract_js c = JObj
    [(''responsesSse'', JBool True),
     (''responsesWebsocket'', JStr (case responsesWebsocket c of OfficialOnly \<Rightarrow> ''official-only''
        | WebsocketUnavailable \<Rightarrow> ''unavailable'')),
     (''remoteCompactionV2'', JBool True), (''compactEndpoint'', JBool True),
     (''namespaceTools'', JBool True), (''imagesApi'', JBool True), (''searchApi'', JBool True),
     (''hostedWebSearch'', JBool True)]"

definition buildToolsResolveParams :: "ResolvedModelCapability \<Rightarrow> ToolsResolveHostOptions \<Rightarrow> js" where
  "buildToolsResolveParams resolution options =
    (let bridge = set (ho_bridgeCapabilities options) in JObj
      [(''model'', JObj (rm_model resolution)),
       (''allowedLocalToolNames'', JArr (map JStr (ho_allowedLocalToolNames options))),
       (''webSearchMode'', JStr (enum_name webSearch_table (ho_webSearchMode options))),
       (''providerContract'', contract_js (completeProviderContract (ho_providerId options))),
       (''standaloneWebSearch'', JObj [(''featureEnabled'', JBool False),
          (''executorAvailable'', JBool (''standalone_web_search'' \<in> bridge))]),
       (''sessions'', JObj [(''enabled'', JBool (ho_backgroundSessions options)),
          (''executorAvailable'', JBool (''unified_exec'' \<in> bridge))]),
       (''shell'', JObj
         [(''allowLoginShell'', JBool (case ho_allowLoginShell options of None \<Rightarrow> True | Some b \<Rightarrow> b)),
          (''execPermissionApprovalsEnabled'',
             JBool (case ho_execPermissionApprovalsEnabled options of None \<Rightarrow> False | Some b \<Rightarrow> b))]),
       (''optional'', JObj
         [(''viewImage'', JBool (ho_viewImage options \<and> ''view_image'' \<in> bridge)),
          (''imageGeneration'', JBool (ho_imageGeneration options \<and> ''image_generation'' \<in> bridge))])])"

definition requiredRecord :: "js \<Rightarrow> string \<Rightarrow> js_object resolved" where
  "requiredRecord v name = (case as_record v of Some ob \<Rightarrow> Inr ob
     | None \<Rightarrow> Inl (invalidCapability (name @ '' is invalid'')))"

definition array_value :: "js \<Rightarrow> string \<Rightarrow> js list resolved" where
  "array_value v name = (case as_array v of Some xs \<Rightarrow> Inr xs
     | None \<Rightarrow> Inl (invalidCapability (''native '' @ name @ '' is invalid'')))"

definition is_nonempty_string :: "js \<Rightarrow> bool" where
  "is_nonempty_string v = (case v of JStr s \<Rightarrow> s \<noteq> [] | _ \<Rightarrow> False)"

definition string_of :: "js \<Rightarrow> string" where
  "string_of v = (case v of JStr s \<Rightarrow> s | _ \<Rightarrow> [])"

definition stringArray :: "js \<Rightarrow> string \<Rightarrow> string list resolved" where
  "stringArray v name = res_bind (array_value v name) (\<lambda>values.
     if list_all is_nonempty_string values then Inr (map string_of values)
     else Inl (invalidCapability (''native '' @ name @ '' is invalid'')))"

definition managedToolNames :: "js \<Rightarrow> string list resolved" where
  "managedToolNames v = res_bind (stringArray v ''localToolNames'') (\<lambda>names.
     if \<not> distinct names then Inl (invalidCapability ''native local tool names contain duplicates'')
     else if list_ex (\<lambda>n. n \<notin> set MANAGED_TOOL_NAMES) names
       then Inl (invalidCapability ''native local tool name is not registered by the adaptor'')
     else Inr names)"

definition capability_enumValue :: "js \<Rightarrow> 'a enum_table \<Rightarrow> 'a resolved" where
  "capability_enumValue v values = (case v of
     JStr s \<Rightarrow> (case map_of values s of Some a \<Rightarrow> Inr a
       | None \<Rightarrow> Inl (invalidCapability ''native capability enum value is invalid''))
   | _ \<Rightarrow> Inl (invalidCapability ''native capability enum value is invalid''))"

definition parseAvailability :: "js \<Rightarrow> Availability resolved" where
  "parseAvailability v = res_bind (requiredRecord v ''capability availability'') (\<lambda>item.
     let status = get_prop item ''status''; reason = get_prop item ''reason'' in
     if status = JStr ''available'' then
       res_bind (capability_enumValue (get_prop item ''source'')
           [(''official'', Official), (''supplemental'', Supplemental), (''provider-contract'', ProviderContract)])
         (\<lambda>source. Inr (Available source))
     else if status = JStr ''disabled'' \<or> status = JStr ''unavailable'' then
       (if \<not> is_nonempty_string reason
        then Inl (invalidCapability ''capability availability reason is invalid'')
        else Inr (if status = JStr ''disabled'' then Disabled (string_of reason)
          else Unavailable (string_of reason)))
     else Inl (invalidCapability ''capability availability status is invalid''))"

definition shell_table :: "ShellSurface enum_table" where
  "shell_table = [(''unified-exec'', UnifiedExec), (''shell-command'', ShellCommand), (''disabled'', ShellDisabled)]"

definition parseToolResolution :: "js \<Rightarrow> ResolvedToolCapability resolved" where
  "parseToolResolution v =
    res_bind (requiredRecord v ''native tools.resolve result'') (\<lambda>rt.
    res_bind (requiredRecord (get_prop rt ''capabilities'') ''native capability evidence'') (\<lambda>caps.
    res_bind (array_value (get_prop rt ''modelTools'') ''modelTools'') (\<lambda>mt.
    res_bind (array_value (get_prop rt ''dispatchTools'') ''dispatchTools'') (\<lambda>dt.
    res_bind (managedToolNames (get_prop rt ''localToolNames'')) (\<lambda>lt.
    res_bind (stringArray (get_prop rt ''hostedToolNames'') ''hostedToolNames'') (\<lambda>ht.
    res_bind (capability_enumValue (get_prop rt ''shellSurface'') shell_table) (\<lambda>sh.
    res_bind (capability_enumValue (get_prop rt ''sessionSurface'')
      [(''official'', SessionOfficial), (''supplemental'', SessionSupplemental),
       (''disabled'', SessionDisabled), (''unavailable'', SessionUnavailable)]) (\<lambda>ss.
    res_bind (capability_enumValue (get_prop rt ''webSurface'')
      [(''standalone'', WebStandalone), (''hosted'', WebHosted), (''disabled'', WebSurfaceDisabled),
       (''unsupported'', WebUnsupported)]) (\<lambda>ws.
    res_bind (capability_enumValue (get_prop rt ''imageGenerationSurface'')
      [(''standalone'', ImageStandalone), (''disabled'', ImageDisabled)]) (\<lambda>igs.
    res_bind (parseAvailability (get_prop caps ''sessions'')) (\<lambda>a1.
    res_bind (parseAvailability (get_prop caps ''applyPatch'')) (\<lambda>a2.
    res_bind (parseAvailability (get_prop caps ''viewImage'')) (\<lambda>a3.
    res_bind (parseAvailability (get_prop caps ''imageGeneration'')) (\<lambda>a4.
    res_bind (parseAvailability (get_prop caps ''webSearch'')) (\<lambda>a5.
    Inr \<lparr>rt_modelTools = mt, rt_dispatchTools = dt, rt_localToolNames = lt, rt_hostedToolNames = ht,
      rt_shellSurface = sh, rt_sessionSurface = ss, rt_webSurface = ws, rt_imageGenerationSurface = igs,
      rt_capabilities = \<lparr>ev_sessions = a1, ev_applyPatch = a2, ev_viewImage = a3,
        ev_imageGeneration = a4, ev_webSearch = a5\<rparr>\<rparr>)))))))))))))))"

text \<open>\<open>remoteCompactionV2\<close> of a contract has the literal type \<open>true\<close>.\<close>

definition selectCompactionImplementation ::
  "CompleteCodexProviderContract \<Rightarrow> NativeCompactionImplementation" where
  "selectCompactionImplementation contract = ImplRemoteV2"

section \<open>The effective snapshot\<close>

definition SUPPLEMENTAL_SESSION_INSTRUCTIONS :: string where
  "SUPPLEMENTAL_SESSION_INSTRUCTIONS = ''Use shell_command for bounded commands. For commands expected to remain running after the initial yield or that require later input, use exec_command, retain its session_id, and poll or write through write_stdin until the process exits.''"

record EffectiveCapabilitySnapshot =
  eff_modelId :: string
  eff_model :: js_object
  eff_bridgeCapabilities :: "string list"
  eff_providerContract :: CompleteCodexProviderContract
  eff_providerSupportsWebsockets :: bool
  eff_modelTools :: "js list"
  eff_dispatchTools :: "js list"
  eff_localTools :: "string list"
  eff_hostedTools :: "string list"
  eff_shell_primary :: ShellSurface
  eff_shell_bounded :: Availability
  eff_shell_sessions :: Availability
  eff_shell_sessionSurface :: SessionSurface
  eff_applyPatch :: Availability
  eff_viewImage :: Availability
  eff_imageGeneration :: Availability
  eff_webSearch :: Availability
  eff_webSurface :: WebSurface
  eff_compaction_manual :: Availability
  eff_compaction_automatic :: Availability
  eff_compaction_modelThreshold :: "jsnum option"
  eff_compaction_threshold :: "jsnum option"
  eff_compaction_implementation :: "NativeCompactionImplementation option"
  eff_transport :: Availability

record ResolveEffectiveCapabilitiesInput =
  in_modelId :: string
  in_providerId :: string
  in_modelInputModalities :: "string list"
  in_config :: CodexConfig
  in_contextWindow :: "jsnum option"
  in_hostToolNames :: "string list option"

text \<open>The calls of \<open>CodexRuntime\<close> that a resolution makes; \<open>readDiagnostics\<close> may be absent.\<close>

record CodexRuntimeCalls =
  readDiagnostics :: "js resolved option"
  resolveModel :: "string \<Rightarrow> js resolved"
  resolveTools :: "js \<Rightarrow> js resolved"

definition is_available :: "Availability \<Rightarrow> bool" where
  "is_available a = (case a of Available _ \<Rightarrow> True | _ \<Rightarrow> False)"

definition requireBridge :: "Availability \<Rightarrow> string list \<Rightarrow> string \<Rightarrow> Availability" where
  "requireBridge v bridge capability =
    (if is_available v \<and> capability \<notin> set bridge
     then Unavailable (capability @ ''_executor_unavailable'') else v)"

definition requireEitherBridge :: "Availability \<Rightarrow> string list \<Rightarrow> string \<Rightarrow> string \<Rightarrow> Availability" where
  "requireEitherBridge v bridge first second =
    (if is_available v \<and> first \<notin> set bridge \<and> second \<notin> set bridge
     then Unavailable ''web_search_executor_unavailable'' else v)"

definition parseBridgeCapabilities :: "js \<Rightarrow> string list resolved" where
  "parseBridgeCapabilities v =
    (case as_record v of
       None \<Rightarrow> Inl (PlainError ''Verified bridge diagnostics are unavailable'')
     | Some ob \<Rightarrow>
        (case as_array (get_prop ob ''capabilities'') of
           None \<Rightarrow> Inl (PlainError ''Verified bridge capability identity is unavailable'')
         | Some items \<Rightarrow>
             if list_all is_nonempty_string items then Inr (unique_values (map string_of items))
             else Inl (PlainError ''Verified bridge capability identity is unavailable'')))"

definition resolveThreshold :: "CompactionConfig \<Rightarrow> jsnum option \<Rightarrow> jsnum option \<Rightarrow> jsnum option" where
  "resolveThreshold c modelThreshold window =
    (case c of
       CompactionOff \<Rightarrow> None
     | CompactionAuto limit \<Rightarrow>
        (case (case limit of NumberLimit n \<Rightarrow> Some n | ModelLimit \<Rightarrow> modelThreshold) of
           None \<Rightarrow> None
         | Some v \<Rightarrow>
             if num_le v (Fin 0) then None
             else if (case window of None \<Rightarrow> False | Some w \<Rightarrow> num_le w v) then None
             else Some v))"

definition allowed_local_tools :: "ResolveEffectiveCapabilitiesInput \<Rightarrow> string list" where
  "allowed_local_tools inp =
    (let hostToolNames = (case in_hostToolNames inp of Some ns \<Rightarrow> ns | None \<Rightarrow> MANAGED_TOOL_NAMES) in
     if ''image'' \<in> set (in_modelInputModalities inp) then hostToolNames
     else filter (\<lambda>name. name \<noteq> ''view_image'' \<and> name \<noteq> ''image_gen.imagegen'') hostToolNames)"

definition host_options :: "ResolveEffectiveCapabilitiesInput \<Rightarrow> string list \<Rightarrow> ToolsResolveHostOptions" where
  "host_options inp bridge = \<lparr>
     ho_providerId = in_providerId inp,
     ho_allowedLocalToolNames = allowed_local_tools inp,
     ho_webSearchMode = webSearchMode (codex (in_config inp)),
     ho_viewImage = (viewImage (optionalTools (tools (in_config inp))) = AutoMode),
     ho_imageGeneration = (imageGeneration (optionalTools (tools (in_config inp))) = AutoMode),
     ho_backgroundSessions = (backgroundSessions (tools (in_config inp)) \<and> ''unified_exec'' \<in> set bridge),
     ho_bridgeCapabilities = bridge,
     ho_allowLoginShell = None, ho_execPermissionApprovalsEnabled = None\<rparr>"

definition effective_snapshot ::
  "ResolveEffectiveCapabilitiesInput \<Rightarrow> string list \<Rightarrow> ResolvedModelCapability \<Rightarrow> ResolvedToolCapability \<Rightarrow>
     EffectiveCapabilitySnapshot" where
  "effective_snapshot inp bridge modelResolution t =
    (let requestedSessionExecutorMissing =
           (backgroundSessions (tools (in_config inp)) \<and> ''unified_exec'' \<notin> set bridge);
         contract = completeProviderContract (in_providerId inp);
         implementation =
           (if ''remote_compaction_v2'' \<in> set bridge \<or> ''compact_endpoint'' \<in> set bridge
            then Some (if ''remote_compaction_v2'' \<in> set bridge then ImplRemoteV2 else ImplCompactEndpoint)
            else None);
         manualCompaction =
           (if compaction (codex (in_config inp)) = CompactionOff then Disabled ''disabled_by_configuration''
            else if implementation = None then Unavailable ''compaction_executor_unavailable''
            else Available ProviderContract);
         threshold = resolveThreshold (compaction (codex (in_config inp)))
           (rm_autoCompactTokenLimit modelResolution) (in_contextWindow inp);
         automaticCompaction =
           (if \<not> is_available manualCompaction then manualCompaction
            else if threshold = None then Unavailable ''auto_compact_threshold_unavailable''
            else Available Official)
     in \<lparr>eff_modelId = in_modelId inp, eff_model = rm_model modelResolution,
        eff_bridgeCapabilities = bridge, eff_providerContract = contract,
        eff_providerSupportsWebsockets = (responsesWebsocket contract = OfficialOnly \<and>
          ''responses_websocket'' \<in> set bridge \<and> in_providerId inp = ''openai-codex''),
        eff_modelTools = rt_modelTools t, eff_dispatchTools = rt_dispatchTools t,
        eff_localTools = rt_localToolNames t, eff_hostedTools = rt_hostedToolNames t,
        eff_shell_primary = rt_shellSurface t,
        eff_shell_bounded =
          (if rt_shellSurface t = ShellDisabled then Unavailable ''model_shell_disabled''
           else if (if rt_shellSurface t = UnifiedExec then ''unified_exec'' else ''shell_command'') \<in> set bridge
           then Available Official else Unavailable ''shell_executor_unavailable''),
        eff_shell_sessions =
          (if requestedSessionExecutorMissing then Unavailable ''session_executor_unavailable''
           else ev_sessions (rt_capabilities t)),
        eff_shell_sessionSurface =
          (if requestedSessionExecutorMissing then SessionUnavailable else rt_sessionSurface t),
        eff_applyPatch = requireBridge (ev_applyPatch (rt_capabilities t)) bridge ''apply_patch'',
        eff_viewImage = requireBridge (ev_viewImage (rt_capabilities t)) bridge ''view_image'',
        eff_imageGeneration = requireBridge (ev_imageGeneration (rt_capabilities t)) bridge ''image_generation'',
        eff_webSearch = requireEitherBridge (ev_webSearch (rt_capabilities t)) bridge
          ''standalone_web_search'' ''hosted_web_search'',
        eff_webSurface = rt_webSurface t,
        eff_compaction_manual = manualCompaction,
        eff_compaction_automatic = automaticCompaction,
        eff_compaction_modelThreshold = rm_autoCompactTokenLimit modelResolution,
        eff_compaction_threshold = threshold,
        eff_compaction_implementation = implementation,
        eff_transport = (if ''responses_sse'' \<in> set bridge then Available ProviderContract
          else Unavailable ''responses_sse_executor_unavailable'')\<rparr>)"

definition resolve_uncached ::
  "CodexRuntimeCalls \<Rightarrow> ResolveEffectiveCapabilitiesInput \<Rightarrow> EffectiveCapabilitySnapshot resolved" where
  "resolve_uncached runtime inp =
    res_bind (case readDiagnostics runtime of None \<Rightarrow> Inr JUndef | Some r \<Rightarrow> r) (\<lambda>nativeDiagnostics.
    res_bind (parseBridgeCapabilities nativeDiagnostics) (\<lambda>bridge.
    res_bind (resolveModel runtime (in_modelId inp)) (\<lambda>mv.
    res_bind (parseModelResolution mv (in_modelId inp)) (\<lambda>modelResolution.
    res_bind (resolveTools runtime (buildToolsResolveParams modelResolution (host_options inp bridge))) (\<lambda>tv.
    res_bind (parseToolResolution tv) (\<lambda>t.
    Inr (effective_snapshot inp bridge modelResolution t)))))))"

definition capabilityContextFromSnapshot ::
  "EffectiveCapabilitySnapshot \<Rightarrow> jsnum option \<Rightarrow> ConfigCapabilityContext" where
  "capabilityContextFromSnapshot s window = \<lparr>
     contextWindow = window,
     modelAutoCompactTokenLimit = Some (eff_compaction_modelThreshold s),
     bridgeCapabilities = Some (eff_bridgeCapabilities s),
     shellSurface = Some (eff_shell_primary s),
     providerSupportsWebsockets = Some (eff_providerSupportsWebsockets s),
     remoteCompactionV2 = Some (eff_compaction_implementation s = Some ImplRemoteV2),
     compactEndpoint = Some (eff_compaction_implementation s = Some ImplCompactEndpoint),
     backgroundSessionsAvailable = Some (''unified_exec'' \<in> set (eff_bridgeCapabilities s) \<and>
       eff_shell_sessionSurface s \<noteq> SessionUnavailable),
     viewImageAvailable = Some (is_available (eff_viewImage s)),
     imageGenerationAvailable = Some (is_available (eff_imageGeneration s)),
     webSearchAvailable = Some (is_available (eff_webSearch s)),
     manualCompactionAvailable = Some (is_available (eff_compaction_manual s)),
     transportAvailable = Some (is_available (eff_transport s))\<rparr>"

definition withSupplementalSessionInstructions :: "string \<Rightarrow> EffectiveCapabilitySnapshot \<Rightarrow> string" where
  "withSupplementalSessionInstructions instructions s =
    (if eff_shell_sessionSurface s \<noteq> SessionSupplemental then instructions
     else if str_includes instructions SUPPLEMENTAL_SESSION_INSTRUCTIONS then instructions
     else if length instructions = 0 then SUPPLEMENTAL_SESSION_INSTRUCTIONS
     else instructions @ [CHR 0x0A, CHR 0x0A] @ SUPPLEMENTAL_SESSION_INSTRUCTIONS)"

definition num_opt_js :: "jsnum option \<Rightarrow> js" where
  "num_opt_js n = (case n of None \<Rightarrow> JNull | Some x \<Rightarrow> JNum x)"

definition capabilityCacheKey :: "ResolveEffectiveCapabilitiesInput \<Rightarrow> js" where
  "capabilityCacheKey inp =
    (let c = in_config inp; comp = compaction (codex c) in
     json_tree (JArr
      [JStr (in_modelId inp), JStr (in_providerId inp),
       JBool (''image'' \<in> set (in_modelInputModalities inp)),
       num_opt_js (in_contextWindow inp),
       JArr (map JStr (case in_hostToolNames inp of Some ns \<Rightarrow> ns | None \<Rightarrow> MANAGED_TOOL_NAMES)),
       JObj
        [(''webSearchMode'', JStr (enum_name webSearch_table (webSearchMode (codex c)))),
         (''viewImage'', JStr (enum_name autoOrOff_table (viewImage (optionalTools (tools c))))),
         (''imageGeneration'', JStr (enum_name autoOrOff_table (imageGeneration (optionalTools (tools c))))),
         (''backgroundSessions'', JBool (backgroundSessions (tools c))),
         (''compactionMode'', JStr (case comp of CompactionOff \<Rightarrow> ''off'' | CompactionAuto _ \<Rightarrow> ''auto'')),
         (''autoCompactTokenLimit'', (case comp of CompactionAuto l \<Rightarrow> limit_js l | CompactionOff \<Rightarrow> JNull))]]))"

section \<open>What the parsers return\<close>

lemma capability_enumValue_eq:
  "capability_enumValue v tab = Inr a \<longleftrightarrow> (\<exists>s. v = JStr s \<and> map_of tab s = Some a)"
  by (cases v) (auto simp: capability_enumValue_def split: option.splits)

lemma managedToolNames_sound:
  "managedToolNames v = Inr names \<Longrightarrow> distinct names \<and> set names \<subseteq> set MANAGED_TOOL_NAMES"
  by (auto simp: managedToolNames_def list_ex_iff split: if_splits)

lemma parseToolResolution_local:
  "parseToolResolution v = Inr t \<Longrightarrow>
     distinct (rt_localToolNames t) \<and> set (rt_localToolNames t) \<subseteq> set MANAGED_TOOL_NAMES"
  by (auto simp: parseToolResolution_def dest!: managedToolNames_sound)

lemma parseAutoCompactTokenLimit_eq:
  "parseAutoCompactTokenLimit v = Inr l \<Longrightarrow>
     pred_option (\<lambda>n. isSafeInteger n \<and> num_less (Fin 0) n) l"
  by (auto simp: parseAutoCompactTokenLimit_def split: js.splits if_splits)

lemma parseModelResolution_limit:
  "parseModelResolution v m = Inr r \<Longrightarrow>
     get_prop (rm_model r) ''slug'' = JStr m \<and>
     pred_option (\<lambda>n. isSafeInteger n \<and> num_less (Fin 0) n) (rm_autoCompactTokenLimit r)"
  by (auto simp: parseModelResolution_def split: option.splits if_splits dest: parseAutoCompactTokenLimit_eq)

lemma resolve_uncached_eq:
  "resolve_uncached runtime inp = Inr s \<longleftrightarrow>
    (\<exists>d bridge mv m tv t. (case readDiagnostics runtime of None \<Rightarrow> Inr JUndef | Some r \<Rightarrow> r) = Inr d \<and>
      parseBridgeCapabilities d = Inr bridge \<and> resolveModel runtime (in_modelId inp) = Inr mv \<and>
      parseModelResolution mv (in_modelId inp) = Inr m \<and>
      resolveTools runtime (buildToolsResolveParams m (host_options inp bridge)) = Inr tv \<and>
      parseToolResolution tv = Inr t \<and> s = effective_snapshot inp bridge m t)"
  by (auto simp: resolve_uncached_def)

section \<open>Availability\<close>

lemma is_available_simps [simp]:
  "is_available (Available s)" "\<not> is_available (Disabled r)" "\<not> is_available (Unavailable r)"
  by (simp_all add: is_available_def)

lemma requireBridge_available [simp]:
  "is_available (requireBridge v bridge c) \<longleftrightarrow> is_available v \<and> c \<in> set bridge"
  by (auto simp: requireBridge_def)

lemma requireEitherBridge_available [simp]:
  "is_available (requireEitherBridge v bridge a b) \<longleftrightarrow> is_available v \<and> (a \<in> set bridge \<or> b \<in> set bridge)"
  by (auto simp: requireEitherBridge_def)

definition executor_backed :: "EffectiveCapabilitySnapshot \<Rightarrow> bool" where
  "executor_backed s \<longleftrightarrow> (let bridge = set (eff_bridgeCapabilities s) in
     (is_available (eff_applyPatch s) \<longrightarrow> ''apply_patch'' \<in> bridge) \<and>
     (is_available (eff_viewImage s) \<longrightarrow> ''view_image'' \<in> bridge) \<and>
     (is_available (eff_imageGeneration s) \<longrightarrow> ''image_generation'' \<in> bridge) \<and>
     (is_available (eff_webSearch s) \<longrightarrow> ''standalone_web_search'' \<in> bridge \<or> ''hosted_web_search'' \<in> bridge) \<and>
     (is_available (eff_transport s) \<longrightarrow> ''responses_sse'' \<in> bridge) \<and>
     (eff_providerSupportsWebsockets s \<longrightarrow> ''responses_websocket'' \<in> bridge) \<and>
     (is_available (eff_shell_bounded s) \<longrightarrow>
        eff_shell_primary s = UnifiedExec \<and> ''unified_exec'' \<in> bridge \<or>
        eff_shell_primary s = ShellCommand \<and> ''shell_command'' \<in> bridge) \<and>
     (is_available (eff_compaction_manual s) \<longrightarrow>
        eff_compaction_implementation s = Some ImplRemoteV2 \<and> ''remote_compaction_v2'' \<in> bridge \<or>
        eff_compaction_implementation s = Some ImplCompactEndpoint \<and> ''compact_endpoint'' \<in> bridge) \<and>
     (is_available (eff_compaction_automatic s) \<longrightarrow>
        is_available (eff_compaction_manual s) \<and> eff_compaction_threshold s \<noteq> None))"

lemma effective_snapshot_executor_backed: "executor_backed (effective_snapshot inp bridge m t)"
  unfolding executor_backed_def effective_snapshot_def Let_def
  by (cases "rt_shellSurface t") simp_all

section \<open>Thresholds\<close>

lemma num_trunc_integer: "isSafeInteger n \<Longrightarrow> num_trunc n = n"
  by (auto simp: num_trunc_def elim!: isSafeInteger_cases)

lemma safe_not_le: "isSafeInteger n \<Longrightarrow> isFinite w \<Longrightarrow> \<not> num_le w n \<longleftrightarrow> num_less n w"
  by (cases w) (auto simp: isFinite_def elim!: isSafeInteger_cases)

lemma threshold_rules_agree:
  assumes "wf_limit c" and "pred_option (\<lambda>n. isSafeInteger n \<and> num_less (Fin 0) n) m"
    and "isFinite w" and "num_less (Fin 0) w"
  shows "resolveThreshold c m (Some w) = resolveCompactionThreshold c m w"
proof (cases c)
  case (CompactionAuto limit)
  define cand where "cand = (case limit of NumberLimit n \<Rightarrow> Some n | ModelLimit \<Rightarrow> m)"
  have ok: "pred_option (\<lambda>n. isSafeInteger n \<and> num_less (Fin 0) n) cand"
    using assms(1,2) CompactionAuto by (cases limit) (simp_all add: cand_def wf_limit_def)
  have "\<not> num_le w (Fin 0)" using assms(4) num_le_not_less by blast
  then show ?thesis
  proof (cases cand)
    case (Some n)
    with ok have n: "isSafeInteger n" "\<not> num_le n (Fin 0)" "isFinite n"
      using num_le_not_less [of n "Fin 0"] isSafeInteger_finite [of n] by (auto split: jsnum.splits)
    with Some CompactionAuto assms(3) \<open>\<not> num_le w (Fin 0)\<close> show ?thesis
      by (simp add: resolveThreshold_def resolveCompactionThreshold_def cand_def [symmetric]
          num_trunc_integer safe_not_le [OF n(1) assms(3), symmetric])
  qed (simp add: CompactionAuto resolveThreshold_def resolveCompactionThreshold_def cand_def)
qed (simp add: resolveThreshold_def resolveCompactionThreshold_def)

section \<open>The cache key\<close>

lemma json_tree_strings [simp]: "json_tree (JArr (map JStr ss)) = JArr (map JStr ss)"
  by simp

lemma map_JStr_inject [simp]: "map JStr xs = map JStr ys \<longleftrightarrow> xs = ys"
  by (simp add: inj_map_eq_map inj_def)

lemma map_json_JStr [simp]: "map (json_tree \<circ> JStr) xs = map JStr xs"
  by simp

text \<open>What a resolution reads of its input.\<close>

definition same_reads :: "ResolveEffectiveCapabilitiesInput \<Rightarrow> ResolveEffectiveCapabilitiesInput \<Rightarrow> bool" where
  "same_reads a b \<longleftrightarrow> in_modelId a = in_modelId b \<and> in_providerId a = in_providerId b \<and>
     allowed_local_tools a = allowed_local_tools b \<and>
     webSearchMode (codex (in_config a)) = webSearchMode (codex (in_config b)) \<and>
     optionalTools (tools (in_config a)) = optionalTools (tools (in_config b)) \<and>
     backgroundSessions (tools (in_config a)) = backgroundSessions (tools (in_config b)) \<and>
     compaction (codex (in_config a)) = compaction (codex (in_config b)) \<and>
     (\<forall>m. pred_option isSafeInteger m \<longrightarrow>
        resolveThreshold (compaction (codex (in_config a))) m (in_contextWindow a) =
        resolveThreshold (compaction (codex (in_config b))) m (in_contextWindow b))"

lemma same_reads_snapshot:
  assumes "same_reads a b" and "pred_option isSafeInteger (rm_autoCompactTokenLimit m)"
  shows "effective_snapshot a bridge m t = effective_snapshot b bridge m t"
proof -
  have "resolveThreshold (compaction (codex (in_config a))) (rm_autoCompactTokenLimit m) (in_contextWindow a) =
      resolveThreshold (compaction (codex (in_config b))) (rm_autoCompactTokenLimit m) (in_contextWindow b)"
    using assms unfolding same_reads_def by blast
  with assms(1) show ?thesis
    unfolding effective_snapshot_def Let_def same_reads_def by (elim conjE) simp
qed

lemma same_reads_options: "same_reads a b \<Longrightarrow> host_options a = host_options b"
  by (rule ext) (simp add: same_reads_def host_options_def)

lemma same_reads_resolve:
  assumes "same_reads a b"
  shows "resolve_uncached rt a = resolve_uncached rt b"
proof -
  have mid: "in_modelId a = in_modelId b" using assms by (simp add: same_reads_def)
  show ?thesis
    unfolding resolve_uncached_def mid same_reads_options [OF assms]
    by (intro res_bind_cong refl)
       (auto dest!: parseModelResolution_limit intro!: same_reads_snapshot [OF assms]
          simp: pred_option_def)
qed

lemma resolveThreshold_unbounded:
  assumes "json_tree (num_opt_js w) = JNull" and "w \<noteq> Some NegInf"
    and "wf_limit c" and "pred_option isSafeInteger m"
  shows "resolveThreshold c m w = resolveThreshold c m None"
proof (cases w)
  case (Some n)
  with assms(1,2) have "n = NaN \<or> n = PosInf"
    by (cases n) (auto simp: num_opt_js_def isFinite_def)
  moreover have "\<not> num_le NaN v" "isSafeInteger v \<Longrightarrow> \<not> num_le PosInf v" for v
    by (cases v; auto simp: num_le_def isSafeInteger_def)+
  ultimately show ?thesis
    using assms(3,4) Some
    by (auto simp: resolveThreshold_def wf_limit_def
        split: CompactionConfig.splits AutoCompactTokenLimit.splits option.splits)
qed simp

lemma window_key:
  assumes "json_tree (num_opt_js v) = json_tree (num_opt_js w)"
    and "v \<noteq> Some NegInf" and "w \<noteq> Some NegInf" and "wf_limit c" and "pred_option isSafeInteger m"
  shows "resolveThreshold c m v = resolveThreshold c m w"
proof (cases "json_tree (num_opt_js v) = JNull")
  case True
  then show ?thesis using assms resolveThreshold_unbounded [of v c m] resolveThreshold_unbounded [of w c m] by simp
next
  case False
  with assms(1) have "v = w"
    by (cases v; cases w) (auto simp: num_opt_js_def split: if_splits)
  then show ?thesis by simp
qed

lemma compaction_key:
  assumes "wf_limit c" and "wf_limit d"
    and "(case c of CompactionOff \<Rightarrow> ''off'' | CompactionAuto _ \<Rightarrow> ''auto'') =
      (case d of CompactionOff \<Rightarrow> ''off'' | CompactionAuto _ \<Rightarrow> ''auto'')"
    and "json_tree (case c of CompactionAuto l \<Rightarrow> limit_js l | CompactionOff \<Rightarrow> JNull) =
      json_tree (case d of CompactionAuto l \<Rightarrow> limit_js l | CompactionOff \<Rightarrow> JNull)"
  shows "c = d"
proof -
  have fin: "wf_limit (CompactionAuto l) \<Longrightarrow> json_tree (limit_js l) = limit_js l" for l
    by (cases l) (simp_all add: limit_js_def wf_limit_def isSafeInteger_finite)
  have inj: "limit_js l = limit_js l' \<longleftrightarrow> l = l'" for l l'
    by (cases l; cases l') (simp_all add: limit_js_def)
  show ?thesis
    using assms fin inj by (cases c; cases d) auto
qed

lemma cache_key_reads:
  assumes "capabilityCacheKey a = capabilityCacheKey b"
    and "wf_config (in_config a)" and "wf_config (in_config b)"
    and "in_contextWindow a \<noteq> Some NegInf" and "in_contextWindow b \<noteq> Some NegInf"
  shows "same_reads a b"
proof -
  let ?ca = "compaction (codex (in_config a))" and ?cb = "compaction (codex (in_config b))"
  let ?mode = "\<lambda>c. case c of CompactionOff \<Rightarrow> ''off'' | CompactionAuto _ \<Rightarrow> ''auto''"
  let ?lim = "\<lambda>c. case c of CompactionAuto l \<Rightarrow> limit_js l | CompactionOff \<Rightarrow> JNull"
  let ?host = "\<lambda>i. case in_hostToolNames i of Some ns \<Rightarrow> ns | None \<Rightarrow> MANAGED_TOOL_NAMES"
  have lim: "?lim ?ca \<noteq> JUndef" "?lim ?cb \<noteq> JUndef"
    by (auto simp: limit_js_def split: CompactionConfig.split AutoCompactTokenLimit.split)
  have key: "in_modelId a = in_modelId b" "in_providerId a = in_providerId b"
    "(''image'' \<in> set (in_modelInputModalities a)) = (''image'' \<in> set (in_modelInputModalities b))"
    "json_tree (num_opt_js (in_contextWindow a)) = json_tree (num_opt_js (in_contextWindow b))"
    "?host a = ?host b"
    "webSearchMode (codex (in_config a)) = webSearchMode (codex (in_config b))"
    "viewImage (optionalTools (tools (in_config a))) = viewImage (optionalTools (tools (in_config b)))"
    "imageGeneration (optionalTools (tools (in_config a))) = imageGeneration (optionalTools (tools (in_config b)))"
    "backgroundSessions (tools (in_config a)) = backgroundSessions (tools (in_config b))"
    "?mode ?ca = ?mode ?cb" "json_tree (?lim ?ca) = json_tree (?lim ?cb)"
    using assms(1) lim unfolding capabilityCacheKey_def Let_def
    by (simp_all del: json_tree.simps(2))
  have wf: "wf_limit ?ca" "wf_limit ?cb" using assms(2,3) by (simp_all add: wf_config_def)
  have comp: "?ca = ?cb" using compaction_key [OF wf key(10,11)] .
  have "allowed_local_tools a = allowed_local_tools b"
    unfolding allowed_local_tools_def Let_def key(3,5) ..
  moreover have "optionalTools (tools (in_config a)) = optionalTools (tools (in_config b))"
    using key(7,8) by (cases "optionalTools (tools (in_config a))"; cases "optionalTools (tools (in_config b))") simp
  moreover have "pred_option isSafeInteger m \<longrightarrow>
      resolveThreshold ?ca m (in_contextWindow a) = resolveThreshold ?cb m (in_contextWindow b)" for m
    unfolding comp using window_key [OF key(4) assms(4,5) wf(2)] by blast
  ultimately show ?thesis
    using key comp unfolding same_reads_def by blast
qed

section \<open>Supplemental instructions\<close>

lemma withSupplemental_includes:
  "eff_shell_sessionSurface s = SessionSupplemental \<Longrightarrow>
     str_includes (withSupplementalSessionInstructions ins s) SUPPLEMENTAL_SESSION_INSTRUCTIONS"
  by (auto simp: withSupplementalSessionInstructions_def str_includes_iff)
     (metis append_Nil append_Nil2, metis append_Cons append_Nil append_Nil2 append_assoc)

section \<open>The cache\<close>

text \<open>
  The cache maps keys to promises. A promise is the index of a resolution that was started; the list
  keeps, for each, the input and whether it is pending, succeeded or failed.
\<close>

datatype promise_status = Pending | Fulfilled EffectiveCapabilitySnapshot | Rejected resolve_error

record capability_cache =
  cc_entries :: "js \<rightharpoonup> nat"
  cc_promises :: "(ResolveEffectiveCapabilitiesInput \<times> promise_status) list"

definition empty_cache :: capability_cache where
  "empty_cache = \<lparr>cc_entries = Map.empty, cc_promises = []\<rparr>"

text \<open>\<open>resolve\<close> returns the promise of the entry, or starts a resolution and stores its promise.\<close>

definition resolve_cached ::
  "ResolveEffectiveCapabilitiesInput \<Rightarrow> capability_cache \<Rightarrow> nat \<times> capability_cache" where
  "resolve_cached inp c =
    (let key = capabilityCacheKey inp in
     case cc_entries c key of
       Some p \<Rightarrow> (p, c)
     | None \<Rightarrow> (length (cc_promises c),
         \<lparr>cc_entries = (cc_entries c)(key \<mapsto> length (cc_promises c)),
          cc_promises = cc_promises c @ [(inp, Pending)]\<rparr>))"

definition cache_invalidate :: "capability_cache \<Rightarrow> capability_cache" where
  "cache_invalidate c = c\<lparr>cc_entries := Map.empty\<rparr>"

text \<open>A started resolution ends; on an error the handler deletes the entry of its key.\<close>

definition settle :: "CodexRuntimeCalls \<Rightarrow> nat \<Rightarrow> capability_cache \<Rightarrow> capability_cache" where
  "settle runtime p c =
    (if p < length (cc_promises c) \<and> snd (cc_promises c ! p) = Pending then
       let inp = fst (cc_promises c ! p) in
       (case resolve_uncached runtime inp of
          Inr s \<Rightarrow> c\<lparr>cc_promises := (cc_promises c)[p := (inp, Fulfilled s)]\<rparr>
        | Inl e \<Rightarrow> c\<lparr>cc_promises := (cc_promises c)[p := (inp, Rejected e)],
            cc_entries := (cc_entries c)(capabilityCacheKey inp := None)\<rparr>)
     else c)"

text \<open>
  The events of one process; the runtime may answer differently at every settlement, so each carries
  its own.
\<close>

inductive cache_step :: "capability_cache \<Rightarrow> capability_cache \<Rightarrow> bool" where
  step_resolve: "cache_step c (snd (resolve_cached inp c))"
| step_settle: "cache_step c (settle runtime p c)"
| step_invalidate: "cache_step c (cache_invalidate c)"

inductive cache_reachable :: "capability_cache \<Rightarrow> bool" where
  reach_init: "cache_reachable empty_cache"
| reach_step: "cache_reachable c \<Longrightarrow> cache_step c c' \<Longrightarrow> cache_reachable c'"

definition cache_inv :: "capability_cache \<Rightarrow> bool" where
  "cache_inv c \<longleftrightarrow> (\<forall>key p. cc_entries c key = Some p \<longrightarrow>
     p < length (cc_promises c) \<and> capabilityCacheKey (fst (cc_promises c ! p)) = key \<and>
     (\<forall>e. snd (cc_promises c ! p) \<noteq> Rejected e))"

lemma cache_inv_resolve: "cache_inv c \<Longrightarrow> cache_inv (snd (resolve_cached inp c))"
  unfolding cache_inv_def resolve_cached_def Let_def
  by (auto simp: nth_append split: option.splits dest: less_SucI)

lemma cache_inv_settle:
  assumes "cache_inv c"
  shows "cache_inv (settle runtime p c)"
proof (cases "p < length (cc_promises c) \<and> snd (cc_promises c ! p) = Pending")
  case True
  then show ?thesis
  proof (cases "resolve_uncached runtime (fst (cc_promises c ! p))")
    case (Inl e)
    with True assms show ?thesis
      unfolding cache_inv_def settle_def Let_def by (auto simp: nth_list_update split: if_splits)
  next
    case (Inr s)
    with True assms show ?thesis
      unfolding cache_inv_def settle_def Let_def by (auto simp: nth_list_update)
  qed
next
  case False
  then have "settle runtime p c = c" unfolding settle_def by (rule if_not_P)
  with assms show ?thesis by simp
qed

lemma cache_step_inv: "cache_step c c' \<Longrightarrow> cache_inv c \<Longrightarrow> cache_inv c'"
  by (induction rule: cache_step.induct)
     (simp_all add: cache_inv_resolve cache_inv_settle, simp add: cache_inv_def cache_invalidate_def)

lemma cache_reachable_inv: "cache_reachable c \<Longrightarrow> cache_inv c"
proof (induction rule: cache_reachable.induct)
  case reach_init
  show ?case by (simp add: cache_inv_def empty_cache_def)
qed (simp add: cache_step_inv)

section \<open>Properties\<close>


text \<open>
  Cache soundness. Two inputs with the same cache key, with parsed configurations and context
  windows other than negative infinity, get the same result from the same runtime: the key covers
  everything a resolution reads.
\<close>

theorem cache_key_sound:
  assumes "capabilityCacheKey a = capabilityCacheKey b"
    and "wf_config (in_config a)" and "wf_config (in_config b)"
    and "in_contextWindow a \<noteq> Some NegInf" and "in_contextWindow b \<noteq> Some NegInf"
  shows "resolve_uncached runtime a = resolve_uncached runtime b"
  using cache_key_reads [OF assms] by (rule same_reads_resolve)

definition sample_input :: "string list option \<Rightarrow> ResolveEffectiveCapabilitiesInput" where
  "sample_input host = \<lparr>in_modelId = ''gpt'', in_providerId = ''openai-codex'',
     in_modelInputModalities = [''text'', ''image''], in_config = createDefaultConfig,
     in_contextWindow = Some (Fin 1000), in_hostToolNames = host\<rparr>"

definition sample_runtime :: CodexRuntimeCalls where
  "sample_runtime = \<lparr>
     readDiagnostics = Some (Inr (JObj [(''capabilities'', JArr [JStr ''responses_sse'', JStr ''unified_exec''])])),
     resolveModel = (\<lambda>m. Inr (JObj [(''model'', JObj [(''slug'', JStr m)]), (''shellSurface'', JStr ''unified-exec''),
       (''autoCompactTokenLimit'', JNull)])),
     resolveTools = (\<lambda>_. Inl (RuntimeError ''bridge closed''))\<rparr>"

theorem cache_key_sound_witness:
  "resolve_uncached sample_runtime (sample_input None) =
     resolve_uncached sample_runtime
       ((sample_input (Some MANAGED_TOOL_NAMES))\<lparr>in_modelInputModalities := [''image'']\<rparr>)"
  using cache_key_sound [of "sample_input None"
      "(sample_input (Some MANAGED_TOOL_NAMES))\<lparr>in_modelInputModalities := [''image'']\<rparr>" sample_runtime]
  by (simp add: sample_input_def capabilityCacheKey_def Let_def)

text \<open>
  The cache never serves a failure. In every reachable state of the cache, whatever the order in
  which resolutions are started, settled and invalidated, the promise stored under a key was started
  for an input with that key and has not been rejected.
\<close>

theorem cache_never_serves_failure:
  assumes "cache_reachable c" and "cc_entries c key = Some p"
  shows "p < length (cc_promises c) \<and> capabilityCacheKey (fst (cc_promises c ! p)) = key \<and>
    (\<forall>e. snd (cc_promises c ! p) \<noteq> Rejected e)"
  using cache_reachable_inv [OF assms(1)] assms(2) unfolding cache_inv_def by blast

theorem cache_never_serves_failure_witness:
  "snd (cc_promises (snd (resolve_cached (sample_input None) empty_cache)) ! 0) \<noteq> Rejected (PlainError ''x'')"
proof -
  let ?c = "snd (resolve_cached (sample_input None) empty_cache)"
  have "cache_reachable ?c" by (rule reach_step [OF reach_init step_resolve])
  moreover have "cc_entries ?c (capabilityCacheKey (sample_input None)) = Some 0"
    by (simp add: resolve_cached_def empty_cache_def Let_def)
  ultimately show ?thesis using cache_never_serves_failure by blast
qed

text \<open>
  The two threshold rules agree. For a parsed configuration, a limit from native metadata and a
  finite positive window, the threshold of the snapshot is the one the compaction trigger computes.
\<close>

theorem thresholds_agree:
  assumes "wf_config config" and "parseModelResolution v m = Inr r"
    and "isFinite w" and "num_less (Fin 0) w"
  shows "resolveThreshold (compaction (codex config)) (rm_autoCompactTokenLimit r) (Some w) =
    resolveCompactionThreshold (compaction (codex config)) (rm_autoCompactTokenLimit r) w"
  using assms parseModelResolution_limit [OF assms(2)]
  by (intro threshold_rules_agree) (simp_all add: wf_config_def)

theorem thresholds_agree_witness:
  "resolveThreshold (CompactionAuto ModelLimit) (Some (Fin (of_int 90))) (Some (Fin 100)) =
   resolveCompactionThreshold (CompactionAuto ModelLimit) (Some (Fin (of_int 90))) (Fin 100)"
proof -
  let ?v = "JObj [(''model'', JObj [(''slug'', JStr ''gpt'')]), (''shellSurface'', JStr ''disabled''),
    (''autoCompactTokenLimit'', jint 90)]"
  let ?r = "\<lparr>rm_model = [(''slug'', JStr ''gpt'')], rm_shellSurface = ShellDisabled,
    rm_autoCompactTokenLimit = Some (Fin (of_int 90))\<rparr>"
  have "parseModelResolution ?v ''gpt'' = Inr ?r"
    by (simp add: parseModelResolution_def parseShellSurface_def parseAutoCompactTokenLimit_def
        isSafeInteger_def MAX_SAFE_INTEGER_def)
  from thresholds_agree [OF wf_createDefaultConfig this, of "Fin 100"] show ?thesis
    by (simp add: createDefaultConfig_def isFinite_def)
qed

text \<open>
  Supplemental instructions are added exactly where the session surface is supplemental, at most
  once, and only at the end: applying the function again changes nothing.
\<close>

theorem supplemental_instructions_once:
  "withSupplementalSessionInstructions (withSupplementalSessionInstructions ins s) s =
     withSupplementalSessionInstructions ins s \<and>
   starts_with (withSupplementalSessionInstructions ins s) ins \<and>
   (if eff_shell_sessionSurface s = SessionSupplemental
    then str_includes (withSupplementalSessionInstructions ins s) SUPPLEMENTAL_SESSION_INSTRUCTIONS
    else withSupplementalSessionInstructions ins s = ins)"
proof (cases "eff_shell_sessionSurface s = SessionSupplemental")
  case True
  from withSupplemental_includes [OF this] True show ?thesis
    by (auto simp: starts_with_iff)
       (simp_all add: withSupplementalSessionInstructions_def)
next
  case False
  then show ?thesis by (simp add: withSupplementalSessionInstructions_def starts_with_iff)
qed

end
