(* ===== verification/Config_Repository.thy ===== *)
theory Config_Repository
  imports Config_Capability
begin

text \<open>
  The configuration file: \<open>src/src/infrastructure/configuration/file-config-repository.ts\<close>. A disk
  maps paths to contents; a content is what \<open>JSON.parse\<close> makes of it (\<open>None\<close> when it is
  not JSON). Every file-system call first consults a fault schedule, so each may fail at any point, and a
  failed write leaves a content that is not JSON. Temporary names come from a stream of UUIDs.

  The lemmas give the effect of the atomic write under every schedule; the properties are atomicity of
  \<open>save\<close>, the round trip through the file and the backup discipline.
\<close>

section \<open>The file system\<close>

type_synonym content = "js option"

record disk =
  files :: "string \<rightharpoonup> content"
  tick :: nat

record world =
  fault :: "nat \<Rightarrow> bool"
  uuid :: "nat \<Rightarrow> string"

datatype storage_code = BackupUnavailable | InvalidJson | StorageFailure

text \<open>
  Node errors with code \<open>ENOENT\<close> or \<open>EEXIST\<close>, other Node errors, a
  \<open>ConfigurationError\<close> with its issues and a \<open>ConfigurationStorageError\<close> with its code.
\<close>

datatype repo_error =
    Enoent | Eexist | Eio
  | SchemaError "ConfigurationIssue list"
  | StorageError storage_code

type_synonym 'a io = "world \<Rightarrow> disk \<Rightarrow> (repo_error, 'a) result \<times> disk"

definition io_return :: "'a \<Rightarrow> 'a io" where
  "io_return a w d = (Inr a, d)"

definition io_throw :: "repo_error \<Rightarrow> 'a io" where
  "io_throw e w d = (Inl e, d)"

definition io_bind :: "'a io \<Rightarrow> ('a \<Rightarrow> 'b io) \<Rightarrow> 'b io" where
  "io_bind m f w d = (case m w d of (Inl e, d') \<Rightarrow> (Inl e, d') | (Inr a, d') \<Rightarrow> f a w d')"

text \<open>\<open>try { m } catch (error) { h(error) }\<close>.\<close>

definition io_catch :: "'a io \<Rightarrow> (repo_error \<Rightarrow> 'a io) \<Rightarrow> 'a io" where
  "io_catch m h w d = (case m w d of (Inl e, d') \<Rightarrow> h e w d' | (Inr a, d') \<Rightarrow> (Inr a, d'))"

text \<open>\<open>try { m } finally { f }\<close>: an error of \<open>f\<close> replaces the outcome of \<open>m\<close>.\<close>

definition io_finally :: "'a io \<Rightarrow> unit io \<Rightarrow> 'a io" where
  "io_finally m f w d = (case m w d of (r, d') \<Rightarrow>
     (case f w d' of (Inl e, d'') \<Rightarrow> (Inl e, d'') | (Inr _, d'') \<Rightarrow> (r, d'')))"

text \<open>One primitive call: the clock advances, and the schedule may make it fail.\<close>

definition attempt :: "(disk \<Rightarrow> disk) \<Rightarrow> 'a io \<Rightarrow> 'a io" where
  "attempt broken m w d =
    (let d' = d\<lparr>tick := tick d + 1\<rparr> in if fault w (tick d) then (Inl Eio, broken d') else m w d')"

definition readFile :: "string \<Rightarrow> content io" where
  "readFile path = attempt id (\<lambda>w d. case files d path of None \<Rightarrow> (Inl Enoent, d) | Some c \<Rightarrow> (Inr c, d))"

definition open_wx :: "string \<Rightarrow> unit io" where
  "open_wx path = attempt id (\<lambda>w d. case files d path of
     None \<Rightarrow> (Inr (), d\<lparr>files := (files d)(path \<mapsto> None)\<rparr>) | Some _ \<Rightarrow> (Inl Eexist, d))"

definition handle_write :: "string \<Rightarrow> content \<Rightarrow> unit io" where
  "handle_write path c = attempt (\<lambda>d. d\<lparr>files := (files d)(path \<mapsto> None)\<rparr>)
     (\<lambda>w d. (Inr (), d\<lparr>files := (files d)(path \<mapsto> c)\<rparr>))"

definition handle_sync :: "unit io" where
  "handle_sync = attempt id (\<lambda>w d. (Inr (), d))"

definition handle_close :: "unit io" where
  "handle_close = attempt id (\<lambda>w d. (Inr (), d))"

definition mkdir :: "unit io" where
  "mkdir = attempt id (\<lambda>w d. (Inr (), d))"

definition rename :: "string \<Rightarrow> string \<Rightarrow> unit io" where
  "rename source target = attempt id (\<lambda>w d. case files d source of
     None \<Rightarrow> (Inl Enoent, d)
   | Some c \<Rightarrow> (Inr (), d\<lparr>files := (files d)(target \<mapsto> c, source := None)\<rparr>))"

definition rm_force :: "string \<Rightarrow> unit io" where
  "rm_force path = attempt id (\<lambda>w d. (Inr (), d\<lparr>files := (files d)(path := None)\<rparr>))"

definition randomUUID :: "string io" where
  "randomUUID w d = (Inr (uuid w (tick d)), d\<lparr>tick := tick d + 1\<rparr>)"

section \<open>The repository\<close>

datatype ConfigurationProbeResult =
    ProbeReady CodexConfig
  | ProbeMissing
  | ProbeInvalidJson
  | ProbeInvalidSchema "ConfigurationIssue list"
  | ProbeStorageFailure

definition backup_of :: "string \<Rightarrow> string" where
  "backup_of configFile = configFile @ ''.bak''"

definition serialize :: "CodexConfig \<Rightarrow> content" where
  "serialize config = Some (json_tree (config_js config))"

definition storageFailure :: repo_error where
  "storageFailure = StorageError StorageFailure"

definition lift_parse :: "js \<Rightarrow> CodexConfig io" where
  "lift_parse v = (case parseConfig v of Inl issues \<Rightarrow> io_throw (SchemaError issues) | Inr c \<Rightarrow> io_return c)"

definition readConfig :: "string \<Rightarrow> CodexConfig io" where
  "readConfig path =
    io_bind (io_catch (readFile path) (\<lambda>e. if e = Enoent then io_throw e else io_throw storageFailure))
      (\<lambda>source. case source of
         None \<Rightarrow> io_throw (StorageError InvalidJson)
       | Some v \<Rightarrow> lift_parse v)"

definition atomicWrite :: "string \<Rightarrow> content \<Rightarrow> unit io" where
  "atomicWrite path contents =
    io_bind randomUUID (\<lambda>u. let temporary = path @ ''.tmp-'' @ u in
      io_catch
        (io_bind (open_wx temporary) (\<lambda>_.
         io_bind (io_finally (io_bind (handle_write temporary contents) (\<lambda>_. handle_sync)) handle_close)
           (\<lambda>_. rename temporary path)))
        (\<lambda>_. io_bind (io_catch (rm_force temporary) (\<lambda>_. io_return ())) (\<lambda>_. io_throw storageFailure)))"

definition probe :: "string \<Rightarrow> ConfigurationProbeResult io" where
  "probe configFile = io_catch
    (io_bind (readConfig configFile) (\<lambda>config. io_return (ProbeReady config)))
    (\<lambda>e. io_return (case e of
        Enoent \<Rightarrow> ProbeMissing
      | SchemaError issues \<Rightarrow> ProbeInvalidSchema issues
      | StorageError InvalidJson \<Rightarrow> ProbeInvalidJson
      | _ \<Rightarrow> ProbeStorageFailure))"

definition loadOrCreate :: "string \<Rightarrow> CodexConfig io" where
  "loadOrCreate configFile = io_catch (readConfig configFile) (\<lambda>e.
     if e \<noteq> Enoent then io_throw e
     else io_bind mkdir (\<lambda>_.
       io_catch
         (io_bind (open_wx configFile) (\<lambda>_.
          io_bind (io_finally (io_bind (handle_write configFile (serialize createDefaultConfig))
            (\<lambda>_. handle_sync)) handle_close)
          (\<lambda>_. io_return createDefaultConfig)))
         (\<lambda>e. if e = Eexist then readConfig configFile else io_throw storageFailure)))"

definition recoverable :: "repo_error \<Rightarrow> bool" where
  "recoverable e = (case e of Enoent \<Rightarrow> True | SchemaError _ \<Rightarrow> True
     | StorageError c \<Rightarrow> c = InvalidJson | _ \<Rightarrow> False)"

definition readValidCurrent :: "string \<Rightarrow> CodexConfig option io" where
  "readValidCurrent configFile = io_catch
     (io_bind (readConfig configFile) (\<lambda>c. io_return (Some c)))
     (\<lambda>e. if recoverable e then io_return None else io_throw e)"

definition save :: "string \<Rightarrow> CodexConfig \<Rightarrow> unit io" where
  "save configFile config =
    io_bind (lift_parse (config_js config)) (\<lambda>validated.
    io_bind mkdir (\<lambda>_.
    io_bind (readValidCurrent configFile) (\<lambda>current.
    io_bind (case current of None \<Rightarrow> io_return ()
        | Some c \<Rightarrow> atomicWrite (backup_of configFile) (serialize c)) (\<lambda>_.
    atomicWrite configFile (serialize validated)))))"

definition restoreBackup :: "string \<Rightarrow> CodexConfig io" where
  "restoreBackup configFile =
    io_bind (io_catch (readConfig (backup_of configFile))
      (\<lambda>e. if recoverable e then io_throw (StorageError BackupUnavailable) else io_throw e)) (\<lambda>backup.
    io_bind (atomicWrite configFile (serialize backup)) (\<lambda>_.
    io_return backup))"

definition backupAvailable :: "string \<Rightarrow> bool io" where
  "backupAvailable configFile = io_catch
     (io_bind (readConfig (backup_of configFile)) (\<lambda>_. io_return True)) (\<lambda>_. io_return False)"

section \<open>Effects of the primitives\<close>

lemmas io_defs = io_return_def io_throw_def io_bind_def io_catch_def io_finally_def attempt_def Let_def

lemma json_tree_config [simp]: "wf_config c \<Longrightarrow> json_tree (config_js c) = config_js c"
  by (auto simp: config_js_def tools_js_def security_js_def codex_js_def compaction_js_def limit_js_def
      wf_config_def wf_limit_def isFinite_def isSafeInteger_def
      split: CompactionConfig.splits AutoCompactTokenLimit.splits jsnum.splits)

lemma config_js_inject: "js_sim (config_js a) (config_js b) \<Longrightarrow> wf_config b \<Longrightarrow> wf_config a \<Longrightarrow> a = b"
  using parseConfig_eq [of "config_js a"] by (metis js_sim_config_refl sum.inject(2))

lemma wf_config_of_sim: "js_sim (config_js a) (config_js b) \<Longrightarrow> wf_config b \<Longrightarrow> wf_config a"
  by (cases "compaction (codex a)"; cases "compaction (codex b)")
     (auto simp: config_js_def codex_js_def compaction_js_def limit_js_def wf_config_def wf_limit_def
        inj_map_eq_map inj_def split: AutoCompactTokenLimit.splits)

lemma parseConfig_config_js_iff: "parseConfig (config_js c) = Inr c' \<longleftrightarrow> c' = c \<and> wf_config c"
  by (metis parseConfig_config_js parseConfig_eq sum.inject(2) wf_config_of_sim)

lemma readConfig_files: "files (snd (readConfig p w d)) = files d"
  by (auto simp: readConfig_def readFile_def lift_parse_def io_defs split: option.splits sum.splits)

text \<open>The configuration a path holds.\<close>

definition holds :: "string \<Rightarrow> disk \<Rightarrow> CodexConfig \<Rightarrow> bool" where
  "holds p d c \<longleftrightarrow> (\<exists>v. files d p = Some (Some v) \<and> parseConfig v = Inr c)"

lemma readConfig_Inr:
  "readConfig p w d = (Inr c, d') \<longleftrightarrow> \<not> fault w (tick d) \<and> holds p d c \<and> d' = d\<lparr>tick := tick d + 1\<rparr>"
  by (auto simp: readConfig_def readFile_def lift_parse_def holds_def io_defs split: option.splits sum.splits)

lemma temporary_distinct: "p @ ''.tmp-'' @ u \<noteq> p" "p @ ''.tmp-'' @ u \<noteq> backup_of p"
  by (simp_all add: backup_of_def)

lemma backup_distinct [simp]: "backup_of p \<noteq> p"
  by (simp add: backup_of_def)

text \<open>
  The outcome of an atomic write: on success the target has the contents, on failure it is what it was;
  no other path changes but the temporary one.
\<close>

lemma atomicWrite_effect:
  fixes p w d
  defines "t \<equiv> p @ ''.tmp-'' @ uuid w (tick d)"
  shows "case atomicWrite p c w d of
     (Inr _, d') \<Rightarrow> files d' p = Some c \<and> (\<forall>q. q \<noteq> p \<longrightarrow> q \<noteq> t \<longrightarrow> files d' q = files d q)
   | (Inl e, d') \<Rightarrow> e = storageFailure \<and> (\<forall>q. q \<noteq> t \<longrightarrow> files d' q = files d q)"
  unfolding atomicWrite_def randomUUID_def open_wx_def handle_write_def handle_sync_def handle_close_def
    rename_def rm_force_def io_defs t_def
  by (auto split: option.split simp: temporary_distinct(1) [symmetric])

lemma atomicWrite_Inr:
  assumes "atomicWrite p c w d = (Inr u, d')"
  shows "files d' p = Some c \<and> (\<forall>q. q \<noteq> p \<longrightarrow> q \<noteq> p @ ''.tmp-'' @ uuid w (tick d) \<longrightarrow> files d' q = files d q)"
  using atomicWrite_effect [where p = p and c = c and w = w and d = d] assms by simp

lemma atomicWrite_Inl:
  assumes "atomicWrite p c w d = (Inl e, d')"
  shows "e = storageFailure \<and> (\<forall>q. q \<noteq> p @ ''.tmp-'' @ uuid w (tick d) \<longrightarrow> files d' q = files d q)"
  using atomicWrite_effect [where p = p and c = c and w = w and d = d] assms by simp

lemma io_bind_Inr:
  "io_bind m f w d = (Inr b, d'') \<longleftrightarrow> (\<exists>a d'. m w d = (Inr a, d') \<and> f a w d' = (Inr b, d''))"
  by (auto simp: io_bind_def split: prod.splits sum.splits)

lemma io_bind_Inl:
  "io_bind m f w d = (Inl e, d'') \<longleftrightarrow>
     m w d = (Inl e, d'') \<or> (\<exists>a d'. m w d = (Inr a, d') \<and> f a w d' = (Inl e, d''))"
  by (auto simp: io_bind_def split: prod.splits sum.splits)

lemma mkdir_eq: "mkdir w d = ((if fault w (tick d) then Inl Eio else Inr ()), d\<lparr>tick := tick d + 1\<rparr>)"
  by (simp add: mkdir_def attempt_def Let_def)

lemma lift_parse_eq:
  "lift_parse v w d = (case parseConfig v of Inl is \<Rightarrow> (Inl (SchemaError is), d) | Inr c \<Rightarrow> (Inr c, d))"
  by (simp add: lift_parse_def io_throw_def io_return_def split: sum.split)

lemma readValidCurrent_eq:
  "readValidCurrent p w d = (r, d') \<Longrightarrow> d' = d\<lparr>tick := tick d + 1\<rparr> \<and>
     (case r of Inr (Some c) \<Rightarrow> holds p d c \<and> \<not> fault w (tick d)
      | Inr None \<Rightarrow> (\<forall>c. \<not> holds p d c) \<and> \<not> fault w (tick d) | Inl e \<Rightarrow> fault w (tick d))"
  by (auto simp: readValidCurrent_def readConfig_def readFile_def lift_parse_def holds_def recoverable_def
      storageFailure_def io_defs split: option.splits sum.splits if_splits)

lemma holds_wf: "holds p d c \<Longrightarrow> wf_config c"
  by (auto simp: holds_def parseConfig_eq)

lemma holds_unique: "holds p d c \<Longrightarrow> holds p d c' \<Longrightarrow> c = c'"
  by (auto simp: holds_def)

lemma holds_serialize: "files d p = Some (serialize c) \<Longrightarrow> wf_config c \<Longrightarrow> holds p d c"
  by (simp add: holds_def serialize_def parseConfig_config_js)

lemma holds_cong: "files d p = files d' p \<Longrightarrow> holds p d c \<longleftrightarrow> holds p d' c"
  by (simp add: holds_def)

lemma holds_tick [simp]: "holds p (d\<lparr>tick := n\<rparr>) c \<longleftrightarrow> holds p d c"
  by (simp add: holds_def)

section \<open>The effect of a save\<close>

text \<open>The part of a save before the last write: what it may do to the disk.\<close>

definition backed_up :: "string \<Rightarrow> disk \<Rightarrow> disk \<Rightarrow> bool" where
  "backed_up p d d' \<longleftrightarrow> files d' p = files d p \<and>
     (files d' (backup_of p) = files d (backup_of p) \<or> (\<exists>c. holds p d c \<and> holds (backup_of p) d' c))"

lemma backup_temporary: "backup_of p @ ''.tmp-'' @ u \<noteq> p"
  by (simp add: backup_of_def)

lemma backup_write:
  assumes "(case current of None \<Rightarrow> io_return () | Some c \<Rightarrow> atomicWrite (backup_of p) (serialize c)) w d = (r, d')"
    and "\<And>c. current = Some c \<Longrightarrow> holds p d c"
  shows "backed_up p d d' \<and> (\<forall>u c. r = Inr u \<longrightarrow> holds p d c \<longrightarrow> current = Some c \<longrightarrow> holds (backup_of p) d' c)"
proof (cases current)
  case None
  with assms show ?thesis by (simp add: io_return_def backed_up_def)
next
  case (Some c)
  with assms(2) have c: "holds p d c" by simp
  show ?thesis
  proof (cases r)
    case (Inl e)
    with Some assms(1) have "files d' q = files d q" if "q \<noteq> backup_of p @ ''.tmp-'' @ uuid w (tick d)" for q
      using that atomicWrite_Inl [of "backup_of p" "serialize c" w d e d'] by simp
    then have "files d' p = files d p" "files d' (backup_of p) = files d (backup_of p)"
      using backup_temporary [of p "uuid w (tick d)"] by (metis, simp)
    with Inl show ?thesis by (simp add: backed_up_def)
  next
    case (Inr u)
    with Some assms(1) have w: "files d' (backup_of p) = Some (serialize c)"
      and q: "\<And>q. q \<noteq> backup_of p \<Longrightarrow> q \<noteq> backup_of p @ ''.tmp-'' @ uuid w (tick d) \<Longrightarrow> files d' q = files d q"
      using atomicWrite_Inr [of "backup_of p" "serialize c" w d u d'] by simp_all
    have "files d' p = files d p"
      by (rule q) (use backup_distinct [of p] backup_temporary [of p "uuid w (tick d)"] in metis)+
    moreover have "holds (backup_of p) d' c" using holds_serialize [OF w holds_wf [OF c]] .
    ultimately show ?thesis using c Some by (auto simp: backed_up_def)
  qed
qed

lemma save_Inr:
  assumes "save p config w d = (Inr u, d')"
  shows "wf_config config \<and> holds p d' config \<and>
    (\<forall>c. holds p d c \<longrightarrow> holds (backup_of p) d' c) \<and>
    ((\<forall>c. \<not> holds p d c) \<longrightarrow> files d' (backup_of p) = files d (backup_of p))"
proof -
  from assms obtain v d1 cur d2 d3 u' where parse: "parseConfig (config_js config) = Inr v"
    and cur: "readValidCurrent p w d1 = (Inr cur, d2)" and d1: "d1 = d\<lparr>tick := tick d + 1\<rparr>"
    and bak: "(case cur of None \<Rightarrow> io_return () | Some c \<Rightarrow> atomicWrite (backup_of p) (serialize c)) w d2 = (Inr u', d3)"
    and wr: "atomicWrite p (serialize v) w d3 = (Inr u, d')"
    by (auto simp: save_def io_bind_Inr mkdir_eq lift_parse_eq split: sum.splits if_splits)
  from parse have v: "v = config" and wf: "wf_config config" by (simp_all add: parseConfig_config_js_iff)
  note c = readValidCurrent_eq [OF cur]
  have hc: "holds p d2 c" if "cur = Some c" for c using c that by simp
  from backup_write [OF bak hc] have b: "backed_up p d2 d3"
    "\<And>c. holds p d2 c \<Longrightarrow> cur = Some c \<Longrightarrow> holds (backup_of p) d3 c" by simp_all
  note wr' = atomicWrite_Inr [OF wr]
  have keep: "files d' (backup_of p) = files d3 (backup_of p)"
    using wr' temporary_distinct(2) [of p "uuid w (tick d3)"] by (metis backup_distinct)
  have "holds (backup_of p) d' c" if "holds p d c" for c
  proof -
    have "holds p d2 c" using that c d1 by simp
    moreover have "cur = Some c"
      using c \<open>holds p d2 c\<close> hc holds_unique by (cases cur) auto
    ultimately show ?thesis using b(2) holds_cong [OF keep] by blast
  qed
  moreover have "files d' (backup_of p) = files d (backup_of p)" if "\<forall>c. \<not> holds p d c"
    using that c d1 b(1) keep by (auto simp: backed_up_def)
  moreover have "holds p d' config" using wr' holds_serialize wf v by blast
  ultimately show ?thesis using wf by blast
qed

lemma save_Inl:
  assumes "save p config w d = (Inl e, d')"
  shows "backed_up p d d'"
proof -
  have refl: "backed_up p d (d\<lparr>tick := n\<rparr>)" for n by (simp add: backed_up_def)
  consider "d' = d" | "d' = d\<lparr>tick := tick d + 1\<rparr>"
    | cur d1 d2 where "d1 = d\<lparr>tick := tick d + 1\<rparr>" "readValidCurrent p w d1 = (cur, d2)" "d' = d2"
    | d1 cur d2 r d3 where "d1 = d\<lparr>tick := tick d + 1\<rparr>" "readValidCurrent p w d1 = (Inr cur, d2)"
      "(case cur of None \<Rightarrow> io_return () | Some c \<Rightarrow> atomicWrite (backup_of p) (serialize c)) w d2 = (r, d3)"
      "d' = d3 \<or> (\<exists>v. atomicWrite p (serialize v) w d3 = (Inl e, d'))"
    using assms
    by (auto simp: save_def io_bind_Inl io_bind_Inr mkdir_eq lift_parse_eq split: sum.splits if_splits) blast
  then show ?thesis
  proof cases
    case 3
    with readValidCurrent_eq [of p w d1 cur d2] refl show ?thesis by simp
  next
    case 4
    note c = readValidCurrent_eq [OF 4(2)]
    have hc: "holds p d2 c" if "cur = Some c" for c using c that by simp
    have b: "backed_up p d2 d3" using backup_write [OF 4(3) hc] by simp
    have "files d' p = files d3 p \<and> files d' (backup_of p) = files d3 (backup_of p)"
      using 4(4) atomicWrite_Inl temporary_distinct [of p "uuid w (tick d3)"] by metis
    with b c 4(1) show ?thesis by (auto simp: backed_up_def holds_def)
  qed (use refl [of "tick d"] refl in \<open>simp_all add: backed_up_def\<close>)
qed

lemma restoreBackup_Inr:
  assumes "restoreBackup p w d = (Inr c, d')"
  shows "holds (backup_of p) d c \<and> holds p d' c \<and> files d' (backup_of p) = files d (backup_of p)"
proof -
  from assms obtain d1 u where rd: "readConfig (backup_of p) w d = (Inr c, d1)"
    and wr: "atomicWrite p (serialize c) w d1 = (Inr u, d')"
    by (auto simp: restoreBackup_def io_bind_Inr io_catch_def io_return_def io_throw_def
        split: prod.splits sum.splits if_splits)
  from rd have h: "holds (backup_of p) d c" and d1: "files d1 = files d" by (auto simp: readConfig_Inr)
  note w = atomicWrite_Inr [OF wr]
  have "files d' (backup_of p) = files d (backup_of p)"
    using w d1 temporary_distinct(2) [of p "uuid w (tick d1)"] by (metis backup_distinct)
  moreover have "holds p d' c" using w holds_serialize holds_wf [OF h] by blast
  ultimately show ?thesis using h by simp
qed

lemma restoreBackup_Inl:
  assumes "restoreBackup p w d = (Inl e, d')"
  shows "files d' p = files d p"
proof -
  from assms consider "files d' = files d"
    | d1 c where "files d1 = files d" "atomicWrite p (serialize c) w d1 = (Inl e, d')"
    using readConfig_files [of "backup_of p" w d]
    by (auto simp: restoreBackup_def io_bind_Inl io_catch_def io_return_def io_throw_def
        split: prod.splits sum.splits if_splits)
  then show ?thesis
    by cases (use atomicWrite_Inl temporary_distinct(1) in metis)+
qed

section \<open>Runs without faults\<close>

definition fault_free :: "world \<Rightarrow> bool" where
  "fault_free w \<longleftrightarrow> (\<forall>n. \<not> fault w n)"

text \<open>No file has the name of a temporary file that is still to come.\<close>

definition fresh_names :: "string \<Rightarrow> world \<Rightarrow> disk \<Rightarrow> bool" where
  "fresh_names p w d \<longleftrightarrow> (\<forall>n. files d (p @ ''.tmp-'' @ uuid w n) = None \<and>
     files d (backup_of p @ ''.tmp-'' @ uuid w n) = None)"

lemma atomicWrite_fault_free:
  assumes "\<forall>n. \<not> fault w n" and "files d (p @ ''.tmp-'' @ uuid w (tick d)) = None"
  shows "\<exists>d'. atomicWrite p c w d = (Inr (), d') \<and>
    files d' = (files d)(p \<mapsto> c, p @ ''.tmp-'' @ uuid w (tick d) := None)"
  using assms
  by (simp add: atomicWrite_def randomUUID_def open_wx_def handle_write_def handle_sync_def
      handle_close_def rename_def io_defs fun_eq_iff)

lemma fresh_update:
  assumes "fresh_names p w d" and "files d' = (files d)(q \<mapsto> c, t := None)" and "q = p \<or> q = backup_of p"
  shows "fresh_names p w d'"
  using assms backup_temporary [of p] by (auto simp: fresh_names_def backup_of_def)

lemma save_fault_free:
  assumes "fault_free w" and "fresh_names p w d" and "wf_config config"
  shows "\<exists>d'. save p config w d = (Inr (), d') \<and> fresh_names p w d'"
proof -
  have ff: "\<forall>n. \<not> fault w n" using assms(1) by (simp add: fault_free_def)
  let ?d1 = "d\<lparr>tick := tick d + 1\<rparr>"
  obtain r d2 where cur: "readValidCurrent p w ?d1 = (r, d2)" by fastforce
  from readValidCurrent_eq [OF cur] ff obtain current where r: "r = Inr current" and d2: "files d2 = files d"
    by (cases r) auto
  have f2: "fresh_names p w d2" using assms(2) d2 by (simp add: fresh_names_def)
  obtain d3 where bak: "(case current of None \<Rightarrow> io_return ()
      | Some c \<Rightarrow> atomicWrite (backup_of p) (serialize c)) w d2 = (Inr (), d3)" and f3: "fresh_names p w d3"
  proof (cases current)
    case None
    with that [of d2] f2 show thesis by (simp add: io_return_def)
  next
    case (Some c)
    from f2 have "files d2 (backup_of p @ ''.tmp-'' @ uuid w (tick d2)) = None" by (simp add: fresh_names_def)
    from atomicWrite_fault_free [OF ff this, of "serialize c"] Some that fresh_update [OF f2] show thesis by fastforce
  qed
  from f3 have "files d3 (p @ ''.tmp-'' @ uuid w (tick d3)) = None" by (simp add: fresh_names_def)
  from atomicWrite_fault_free [OF ff this, of "serialize config"] obtain d4 where
    wr: "atomicWrite p (serialize config) w d3 = (Inr (), d4)"
    and d4: "files d4 = (files d3)(p \<mapsto> serialize config, p @ ''.tmp-'' @ uuid w (tick d3) := None)" by blast
  have "save p config w d = (Inr (), d4)"
    using cur r bak wr ff assms(3)
    by (simp add: save_def io_bind_def lift_parse_eq mkdir_eq parseConfig_config_js)
  then show ?thesis using fresh_update [OF f3 d4] by blast
qed

lemma restoreBackup_fault_free:
  assumes "fault_free w" and "fresh_names p w d" and "holds (backup_of p) d c"
  shows "\<exists>d'. restoreBackup p w d = (Inr c, d')"
proof -
  have ff: "\<forall>n. \<not> fault w n" using assms(1) by (simp add: fault_free_def)
  let ?d1 = "d\<lparr>tick := tick d + 1\<rparr>"
  have rd: "readConfig (backup_of p) w d = (Inr c, ?d1)" using ff assms(3) by (simp add: readConfig_Inr)
  have "files ?d1 (p @ ''.tmp-'' @ uuid w (tick ?d1)) = None" using assms(2) by (simp add: fresh_names_def)
  from atomicWrite_fault_free [OF ff this, of "serialize c"] obtain d2 where
    "atomicWrite p (serialize c) w ?d1 = (Inr (), d2)" by blast
  with rd show ?thesis by (simp add: restoreBackup_def io_bind_def io_catch_def io_return_def)
qed

lemma probe_holds:
  "\<not> fault w (tick d) \<Longrightarrow> holds p d c \<Longrightarrow> fst (probe p w d) = Inr (ProbeReady c)"
  using readConfig_Inr [of p w d c "d\<lparr>tick := tick d + 1\<rparr>"]
  by (simp add: probe_def io_catch_def io_bind_def io_return_def)

section \<open>Properties\<close>

text \<open>
  C3: Atomic save. Under every schedule of file-system faults, a save either succeeds, and then the
  configuration file holds exactly the saved configuration and the backup holds the one that was there
  before (if it was valid), or fails, and then the configuration file is untouched and the backup is
  either untouched or a copy of the current configuration.
\<close>

theorem save_atomic:
  "case save p config w d of
     (Inr _, d') \<Rightarrow> holds p d' config \<and>
       (\<forall>c. holds p d c \<longrightarrow> holds (backup_of p) d' c) \<and>
       ((\<nexists>c. holds p d c) \<longrightarrow> files d' (backup_of p) = files d (backup_of p))
   | (Inl _, d') \<Rightarrow> files d' p = files d p \<and>
       (files d' (backup_of p) = files d (backup_of p) \<or> (\<exists>c. holds p d c \<and> holds (backup_of p) d' c))"
proof (cases "save p config w d")
  case (Pair r d')
  show ?thesis
  proof (cases r)
    case (Inl e)
    with Pair save_Inl [of p config w d e d'] show ?thesis by (simp add: backed_up_def)
  next
    case (Inr u)
    with Pair save_Inr [of p config w d u d'] show ?thesis by simp
  qed
qed

definition calm :: world where
  "calm = \<lparr>fault = (\<lambda>_. False), uuid = (\<lambda>_. ''u'')\<rparr>"

definition blank_disk :: disk where
  "blank_disk = \<lparr>files = Map.empty, tick = 0\<rparr>"

lemma calm_blank: "fault_free calm" "fresh_names p calm blank_disk"
  by (simp_all add: fault_free_def calm_def fresh_names_def blank_disk_def)

theorem save_atomic_witness:
  "holds ''c'' (snd (save ''c'' createDefaultConfig calm blank_disk)) createDefaultConfig"
proof -
  obtain d' where "save ''c'' createDefaultConfig calm blank_disk = (Inr (), d')"
    using save_fault_free [OF calm_blank wf_createDefaultConfig] by blast
  then show ?thesis using save_atomic [where p = "''c''" and config = createDefaultConfig and w = calm
        and d = blank_disk] by simp
qed

text \<open>
  Round trip with backup. Without faults two saves of well-formed configurations succeed, a probe then
  reads the second one, and restoring the backup returns the first one and makes it current again.
\<close>

theorem save_restore_roundtrip:
  assumes "fault_free w" and "fresh_names p w d" and "wf_config c1" and "wf_config c2"
  shows "\<exists>d1 d2 d3. save p c1 w d = (Inr (), d1) \<and> save p c2 w d1 = (Inr (), d2) \<and>
    fst (probe p w d2) = Inr (ProbeReady c2) \<and> restoreBackup p w d2 = (Inr c1, d3) \<and>
    fst (probe p w d3) = Inr (ProbeReady c1)"
proof -
  obtain d1 where s1: "save p c1 w d = (Inr (), d1)" and f1: "fresh_names p w d1"
    using save_fault_free [OF assms(1,2,3)] by blast
  obtain d2 where s2: "save p c2 w d1 = (Inr (), d2)" and f2: "fresh_names p w d2"
    using save_fault_free [OF assms(1) f1 assms(4)] by blast
  have "holds (backup_of p) d2 c1" "holds p d2 c2" using save_Inr [OF s1] save_Inr [OF s2] by blast+
  moreover obtain d3 where r: "restoreBackup p w d2 = (Inr c1, d3)"
    using restoreBackup_fault_free [OF assms(1) f2] calculation(1) by blast
  moreover have "holds p d3 c1" using restoreBackup_Inr [OF r] by blast
  ultimately show ?thesis using s1 s2 assms(1) by (auto simp: fault_free_def probe_holds)
qed

theorem save_restore_roundtrip_witness:
  "\<exists>d1 d2 d3. save ''c'' createDefaultConfig calm blank_disk = (Inr (), d1) \<and>
    save ''c'' limited_config calm d1 = (Inr (), d2) \<and>
    fst (probe ''c'' calm d2) = Inr (ProbeReady limited_config) \<and>
    restoreBackup ''c'' calm d2 = (Inr createDefaultConfig, d3) \<and>
    fst (probe ''c'' calm d3) = Inr (ProbeReady createDefaultConfig)"
  by (rule save_restore_roundtrip [OF calm_blank wf_createDefaultConfig])
     (use wf_createDefaultConfig in \<open>simp add: wf_config_def wf_limit_def limited_config_def isSafeInteger_def
        MAX_SAFE_INTEGER_def\<close>)

end
