(* ===== verification/Config_Service.thy ===== *)
theory Config_Service
  imports Config_Repository
begin

text \<open>
  The application layer over the configuration file: \<open>src/src/application/configuration.ts\<close>
  (\<open>ConfigurationService\<close>), \<open>src/src/domain/provider-activation.ts\<close> and
  \<open>src/src/application/provider-activation.ts\<close> (which models are routed to Codex) and
  \<open>src/src/application/security-policy.ts\<close>.

  The service only relies on the contract of its repository, the locale \<open>config_repository\<close>;
  it is interpreted on the file repository for every fault schedule. The main result is that
  the activation policy, which is kept up to date by change notifications alone, always agrees with
  the stored configuration.
\<close>

section \<open>Provider activation\<close>

definition CODEX_PI_APIS :: "string list" where
  "CODEX_PI_APIS = [''openai-responses'', ''openai-codex-responses'']"

datatype ProviderActivationReason = NoModel | ProviderNotSelected | UnsupportedPiApi

datatype ProviderActivationDecision = Active | Inactive ProviderActivationReason

record ProviderActivationModel =
  am_provider :: string
  am_api :: string

definition isCodexPiApi :: "string \<Rightarrow> bool" where
  "isCodexPiApi a \<longleftrightarrow> a \<in> set CODEX_PI_APIS"

definition isProviderSelected :: "string \<Rightarrow> string list \<Rightarrow> bool" where
  "isProviderSelected provider selected \<longleftrightarrow> provider \<in> set selected"

definition resolveProviderActivation ::
  "ProviderActivationModel option \<Rightarrow> string list \<Rightarrow> ProviderActivationDecision" where
  "resolveProviderActivation model selected =
    (case model of
       None \<Rightarrow> Inactive NoModel
     | Some m \<Rightarrow>
         if am_provider m \<notin> set selected then Inactive ProviderNotSelected
         else if \<not> isCodexPiApi (am_api m) then Inactive UnsupportedPiApi
         else Active)"

section \<open>Security warnings\<close>

definition dangerous_full_access :: string where
  "dangerous_full_access = ''Codex dangerous full access is enabled: operations do not prompt, structured tools may use external paths, and native commands run with the user's permissions.''"

definition approval_never :: string where
  "approval_never = ''Codex approval policy is never: operations do not prompt, explicit structured-tool paths remain workspace constrained, and native commands run with the user's permissions.''"

definition filesystem_unrestricted :: string where
  "filesystem_unrestricted = ''Codex filesystem access is unrestricted: structured tools may use external paths after operation approval; this is not an OS sandbox.''"

definition securityPolicyWarning :: "CodexConfig \<Rightarrow> string option" where
  "securityPolicyWarning config =
    (let a = approvalPolicy (security config); f = filesystemAccessPolicy (security config) in
     if a = Never \<and> f = Unrestricted then Some dangerous_full_access
     else if a = Never then Some approval_never
     else if f = Unrestricted then Some filesystem_unrestricted
     else None)"

section \<open>The service\<close>

record 's ConfigurationRepository =
  repo_probe :: "'s \<Rightarrow> (repo_error, ConfigurationProbeResult) result \<times> 's"
  repo_loadOrCreate :: "'s \<Rightarrow> (repo_error, CodexConfig) result \<times> 's"
  repo_save :: "CodexConfig \<Rightarrow> 's \<Rightarrow> (repo_error, unit) result \<times> 's"
  repo_restoreBackup :: "'s \<Rightarrow> (repo_error, CodexConfig) result \<times> 's"
  repo_backupAvailable :: "'s \<Rightarrow> (repo_error, bool) result \<times> 's"

datatype ConfigurationRecoveryAction = ResetToDefaults | RestoreBackupAction

text \<open>
  Listeners act on the state of the application: the activation policy replaces its providers, any
  other listener changes the rest. What a listener throws is dropped. The number identifies the
  subscription, as the listeners are a set.
\<close>

datatype 'x listener = PolicyListener | OtherListener "CodexConfig \<Rightarrow> 'x \<Rightarrow> 'x"

record ('s, 'x) service =
  svc_storage :: 's
  svc_listeners :: "(nat \<times> 'x listener) list"
  policy_providers :: "string list"
  svc_rest :: 'x

definition onChange :: "nat \<Rightarrow> 'x listener \<Rightarrow> ('s, 'x) service \<Rightarrow> ('s, 'x) service" where
  "onChange k l st = (if k \<in> fst ` set (svc_listeners st) then st
     else st\<lparr>svc_listeners := svc_listeners st @ [(k, l)]\<rparr>)"

definition unsubscribe :: "nat \<Rightarrow> ('s, 'x) service \<Rightarrow> ('s, 'x) service" where
  "unsubscribe k st = st\<lparr>svc_listeners := filter (\<lambda>e. fst e \<noteq> k) (svc_listeners st)\<rparr>"

definition policy_replace :: "CodexConfig \<Rightarrow> ('s, 'x) service \<Rightarrow> ('s, 'x) service" where
  "policy_replace config st = st\<lparr>policy_providers := providers config\<rparr>"

fun run_listener :: "CodexConfig \<Rightarrow> 'x listener \<Rightarrow> ('s, 'x) service \<Rightarrow> ('s, 'x) service" where
  "run_listener config PolicyListener st = policy_replace config st"
| "run_listener config (OtherListener f) st = st\<lparr>svc_rest := f config (svc_rest st)\<rparr>"

definition notify :: "CodexConfig \<Rightarrow> ('s, 'x) service \<Rightarrow> ('s, 'x) service" where
  "notify config st = fold (\<lambda>e. run_listener config (snd e)) (svc_listeners st) st"

definition service_load ::
  "'s ConfigurationRepository \<Rightarrow> ('s, 'x) service \<Rightarrow> (repo_error, CodexConfig) result \<times> ('s, 'x) service" where
  "service_load repo st =
    (let (r, s) = repo_loadOrCreate repo (svc_storage st) in (r, st\<lparr>svc_storage := s\<rparr>))"

definition inspect ::
  "'s ConfigurationRepository \<Rightarrow> ('s, 'x) service \<Rightarrow>
    (repo_error, ConfigurationProbeResult \<times> ConfigurationRecoveryAction list) result \<times> ('s, 'x) service" where
  "inspect repo st =
    (case repo_probe repo (svc_storage st) of
       (Inl e, s) \<Rightarrow> (Inl e, st\<lparr>svc_storage := s\<rparr>)
     | (Inr pr, s) \<Rightarrow>
         let invalid = (case pr of ProbeInvalidJson \<Rightarrow> True | ProbeInvalidSchema _ \<Rightarrow> True | _ \<Rightarrow> False);
             reset = (if invalid \<or> pr = ProbeMissing then [ResetToDefaults] else [])
         in if invalid then
              (case repo_backupAvailable repo s of
                 (Inl e, s') \<Rightarrow> (Inl e, st\<lparr>svc_storage := s'\<rparr>)
               | (Inr b, s') \<Rightarrow>
                   (Inr (pr, reset @ (if b then [RestoreBackupAction] else [])), st\<lparr>svc_storage := s'\<rparr>))
            else (Inr (pr, reset), st\<lparr>svc_storage := s\<rparr>))"

definition save_and_notify ::
  "'s ConfigurationRepository \<Rightarrow> CodexConfig \<Rightarrow> ('s, 'x) service \<Rightarrow>
    (repo_error, CodexConfig) result \<times> ('s, 'x) service" where
  "save_and_notify repo config st =
    (case repo_save repo config (svc_storage st) of
       (Inl e, s) \<Rightarrow> (Inl e, st\<lparr>svc_storage := s\<rparr>)
     | (Inr _, s) \<Rightarrow> (Inr config, notify config (st\<lparr>svc_storage := s\<rparr>)))"

definition applyDraft ::
  "'s ConfigurationRepository \<Rightarrow> js \<Rightarrow> ConfigCapabilityContext \<Rightarrow> ('s, 'x) service \<Rightarrow>
    (repo_error, CodexConfig) result \<times> ('s, 'x) service" where
  "applyDraft repo draft ctx st =
    (case validateConfigForSave draft ctx of
       Inl issues \<Rightarrow> (Inl (SchemaError issues), st)
     | Inr config \<Rightarrow> save_and_notify repo config st)"

definition resetToDefaults ::
  "'s ConfigurationRepository \<Rightarrow> ('s, 'x) service \<Rightarrow> (repo_error, CodexConfig) result \<times> ('s, 'x) service" where
  "resetToDefaults repo st = save_and_notify repo createDefaultConfig st"

definition service_restoreBackup ::
  "'s ConfigurationRepository \<Rightarrow> ('s, 'x) service \<Rightarrow> (repo_error, CodexConfig) result \<times> ('s, 'x) service" where
  "service_restoreBackup repo st =
    (case repo_restoreBackup repo (svc_storage st) of
       (Inl e, s) \<Rightarrow> (Inl e, st\<lparr>svc_storage := s\<rparr>)
     | (Inr config, s) \<Rightarrow> (Inr config, notify config (st\<lparr>svc_storage := s\<rparr>)))"

section \<open>The activation policy\<close>

definition new_policy :: "nat \<Rightarrow> ('s, 'x) service \<Rightarrow> ('s, 'x) service" where
  "new_policy k st = onChange k PolicyListener (st\<lparr>policy_providers := providers createDefaultConfig\<rparr>)"

definition refresh :: "'s ConfigurationRepository \<Rightarrow> ('s, 'x) service \<Rightarrow> ('s, 'x) service" where
  "refresh repo st = (case service_load repo st of
     (Inr config, st') \<Rightarrow> policy_replace config st' | (Inl _, st') \<Rightarrow> st')"

definition decision :: "ProviderActivationModel option \<Rightarrow> ('s, 'x) service \<Rightarrow> ProviderActivationDecision" where
  "decision model st = resolveProviderActivation model (policy_providers st)"

definition isActive :: "ProviderActivationModel option \<Rightarrow> ('s, 'x) service \<Rightarrow> bool" where
  "isActive model st \<longleftrightarrow> decision model st = Active"

definition policy_dispose :: "nat \<Rightarrow> ('s, 'x) service \<Rightarrow> ('s, 'x) service" where
  "policy_dispose k st = unsubscribe k st"

section \<open>Operation sequences\<close>

datatype 'x service_op =
    SvcLoad | SvcInspect | SvcApply js ConfigCapabilityContext | SvcReset | SvcRestore | SvcRefresh
  | SvcSubscribe nat "CodexConfig \<Rightarrow> 'x \<Rightarrow> 'x" | SvcUnsubscribe nat

fun service_step ::
  "'s ConfigurationRepository \<Rightarrow> 'x service_op \<Rightarrow> ('s, 'x) service \<Rightarrow> ('s, 'x) service" where
  "service_step repo SvcLoad st = snd (service_load repo st)"
| "service_step repo SvcInspect st = snd (inspect repo st)"
| "service_step repo (SvcApply draft ctx) st = snd (applyDraft repo draft ctx st)"
| "service_step repo SvcReset st = snd (resetToDefaults repo st)"
| "service_step repo SvcRestore st = snd (service_restoreBackup repo st)"
| "service_step repo SvcRefresh st = refresh repo st"
| "service_step repo (SvcSubscribe k f) st = onChange k (OtherListener f) st"
| "service_step repo (SvcUnsubscribe k) st = unsubscribe k st"

definition service_run ::
  "'s ConfigurationRepository \<Rightarrow> 'x service_op list \<Rightarrow> ('s, 'x) service \<Rightarrow> ('s, 'x) service" where
  "service_run repo ops st = fold (service_step repo) ops st"

section \<open>The contract of a repository\<close>

text \<open>
  \<open>stored s c\<close> says that the storage holds the valid configuration \<open>c\<close>. A failed write leaves
  the stored configuration as it is, and loading stores at most the default, where nothing was stored.
\<close>

locale config_repository =
  fixes repo :: "'s ConfigurationRepository"
    and stored :: "'s \<Rightarrow> CodexConfig \<Rightarrow> bool"
  assumes stored_unique: "stored s c \<Longrightarrow> stored s c' \<Longrightarrow> c = c'"
    and probe_keeps: "stored (snd (repo_probe repo s)) = stored s"
    and backup_keeps: "stored (snd (repo_backupAvailable repo s)) = stored s"
    and save_ok: "repo_save repo c s = (Inr u, s') \<Longrightarrow> stored s' c"
    and save_err: "repo_save repo c s = (Inl e, s') \<Longrightarrow> stored s' = stored s"
    and restore_ok: "repo_restoreBackup repo s = (Inr c, s') \<Longrightarrow> stored s' c"
    and restore_err: "repo_restoreBackup repo s = (Inl e, s') \<Longrightarrow> stored s' = stored s"
    and load_ok: "repo_loadOrCreate repo s = (Inr c, s') \<Longrightarrow>
      stored s' c \<and> (stored s c \<or> c = createDefaultConfig \<and> (\<nexists>c'. stored s c'))"
    and load_err: "repo_loadOrCreate repo s = (Inl e, s') \<Longrightarrow> stored s' c \<Longrightarrow>
      stored s c \<or> c = createDefaultConfig \<and> (\<nexists>c'. stored s c')"
    and load_err_keeps: "repo_loadOrCreate repo s = (Inl e, s') \<Longrightarrow> stored s c \<Longrightarrow> stored s' c"
begin

text \<open>
  The policy is subscribed, and agrees with the stored configuration, or with the default where
  none is stored.
\<close>

definition coherent :: "nat \<Rightarrow> ('s, 'x) service \<Rightarrow> bool" where
  "coherent k st \<longleftrightarrow> (k, PolicyListener) \<in> set (svc_listeners st) \<and>
     (\<forall>c. stored (svc_storage st) c \<longrightarrow> policy_providers st = providers c) \<and>
     ((\<nexists>c. stored (svc_storage st) c) \<longrightarrow> policy_providers st = providers createDefaultConfig)"

lemma run_listener_storage:
  "svc_storage (run_listener c l st) = svc_storage st"
  "svc_listeners (run_listener c l st) = svc_listeners st"
  by (cases l; simp add: policy_replace_def)+

lemma fold_listeners_storage:
  "svc_storage (fold (\<lambda>e. run_listener c (snd e)) ls st) = svc_storage st"
  "svc_listeners (fold (\<lambda>e. run_listener c (snd e)) ls st) = svc_listeners st"
  by (induction ls arbitrary: st) (simp_all add: run_listener_storage)

lemma fold_listeners_kept:
  "policy_providers st = providers c \<Longrightarrow>
     policy_providers (fold (\<lambda>e. run_listener c (snd e)) ls st) = providers c"
proof (induction ls arbitrary: st)
  case (Cons e ls)
  then show ?case by (cases "snd e") (simp_all add: policy_replace_def)
qed simp

lemma fold_listeners_policy:
  "(k, PolicyListener) \<in> set ls \<Longrightarrow>
     policy_providers (fold (\<lambda>e. run_listener c (snd e)) ls st) = providers c"
proof (induction ls arbitrary: st)
  case (Cons e ls)
  then show ?case
    using fold_listeners_kept [of "st\<lparr>policy_providers := providers c\<rparr>" c ls]
    by (auto simp: policy_replace_def)
qed simp

lemma coherent_notify:
  assumes "(k, PolicyListener) \<in> set (svc_listeners st)" and "stored (svc_storage st) c"
  shows "coherent k (notify c st)"
  using assms stored_unique
  by (auto simp: coherent_def notify_def fold_listeners_storage fold_listeners_policy)

lemma coherent_storage:
  assumes "coherent k st" and "stored s = stored (svc_storage st)"
  shows "coherent k (st\<lparr>svc_storage := s\<rparr>)"
  using assms by (simp add: coherent_def)

lemma coherent_save:
  assumes "coherent k st"
  shows "coherent k (snd (save_and_notify repo c st))"
proof (cases "repo_save repo c (svc_storage st)")
  case (Pair r s)
  then show ?thesis
  proof (cases r)
    case (Inl e)
    with Pair assms save_err show ?thesis by (simp add: save_and_notify_def coherent_storage)
  next
    case (Inr u)
    with Pair have "stored s c" using save_ok by blast
    with Pair Inr assms show ?thesis
      by (simp add: save_and_notify_def coherent_def [of k st]) (rule coherent_notify, simp_all)
  qed
qed

lemma coherent_restore:
  assumes "coherent k st"
  shows "coherent k (snd (service_restoreBackup repo st))"
proof (cases "repo_restoreBackup repo (svc_storage st)")
  case (Pair r s)
  then show ?thesis
  proof (cases r)
    case (Inl e)
    with Pair assms restore_err show ?thesis by (simp add: service_restoreBackup_def coherent_storage)
  next
    case (Inr c)
    with Pair have "stored s c" using restore_ok by blast
    with Pair Inr assms show ?thesis
      by (simp add: service_restoreBackup_def coherent_def [of k st]) (rule coherent_notify, simp_all)
  qed
qed

lemma coherent_load:
  assumes "coherent k st" and "service_load repo st = (r, st')"
  shows "coherent k st' \<and> (\<forall>c. r = Inr c \<longrightarrow> policy_providers st' = providers c)"
proof -
  obtain s where ld: "repo_loadOrCreate repo (svc_storage st) = (r, s)" and st': "st' = st\<lparr>svc_storage := s\<rparr>"
    using assms(2) by (auto simp: service_load_def split: prod.splits)
  show ?thesis
  proof (cases r)
    case (Inl e)
    with ld assms(1) load_err load_err_keeps show ?thesis
      unfolding st' coherent_def by simp metis
  next
    case (Inr c)
    with ld load_ok have "stored s c" "stored (svc_storage st) c \<or> c = createDefaultConfig \<and> (\<nexists>c'. stored (svc_storage st) c')"
      by blast+
    with assms(1) Inr stored_unique show ?thesis
      unfolding st' coherent_def by auto
  qed
qed

lemma coherent_inspect:
  assumes "coherent k st"
  shows "coherent k (snd (inspect repo st))"
proof -
  have "\<exists>s. snd (inspect repo st) = st\<lparr>svc_storage := s\<rparr> \<and> stored s = stored (svc_storage st)"
  proof (cases "repo_probe repo (svc_storage st)")
    case (Pair r s)
    obtain b s' where b: "repo_backupAvailable repo s = (b, s')" by fastforce
    have "stored s = stored (svc_storage st)" "stored s' = stored s"
      using probe_keeps [of "svc_storage st"] backup_keeps [of s] Pair b by simp_all
    with Pair b show ?thesis
      by (cases r; cases b) (auto simp: inspect_def Let_def)
  qed
  then show ?thesis using assms coherent_storage by auto
qed

lemma coherent_step:
  assumes "coherent k st" and "\<And>k'. p = SvcUnsubscribe k' \<Longrightarrow> k' \<noteq> k"
  shows "coherent k (service_step repo p st)"
proof (cases p)
  case SvcLoad
  then show ?thesis using coherent_load [OF assms(1)] by (metis prod.collapse service_step.simps(1))
next
  case SvcInspect
  then show ?thesis using coherent_inspect [OF assms(1)] by simp
next
  case (SvcApply draft ctx)
  then show ?thesis using coherent_save [OF assms(1)] assms(1) by (simp add: applyDraft_def split: sum.split)
next
  case SvcReset
  then show ?thesis using coherent_save [OF assms(1)] by (simp add: resetToDefaults_def)
next
  case SvcRestore
  then show ?thesis using coherent_restore [OF assms(1)] by simp
next
  case SvcRefresh
  obtain r st' where ld: "service_load repo st = (r, st')" by fastforce
  with coherent_load [OF assms(1) ld] SvcRefresh show ?thesis
    by (cases r) (auto simp: refresh_def policy_replace_def coherent_def)
qed (use assms in \<open>auto simp: coherent_def onChange_def unsubscribe_def\<close>)

lemma coherent_refresh:
  assumes "(k, PolicyListener) \<in> set (svc_listeners st)"
    and "repo_loadOrCreate repo (svc_storage st) = (Inr c, s)"
  shows "coherent k (refresh repo st)"
  using assms load_ok [OF assms(2)] stored_unique
  by (auto simp: coherent_def refresh_def service_load_def policy_replace_def)

lemma coherent_run:
  assumes "coherent k st" and "SvcUnsubscribe k \<notin> set ops"
  shows "coherent k (service_run repo ops st)"
  using assms unfolding service_run_def
proof (induction ops arbitrary: st)
  case (Cons p ops)
  then show ?case using coherent_step [of k st p] by auto
qed simp

end

section \<open>The file repository keeps the contract\<close>

definition file_repository :: "string \<Rightarrow> world \<Rightarrow> disk ConfigurationRepository" where
  "file_repository p w = \<lparr>repo_probe = probe p w, repo_loadOrCreate = loadOrCreate p w,
     repo_save = (\<lambda>c. save p c w), repo_restoreBackup = restoreBackup p w,
     repo_backupAvailable = backupAvailable p w\<rparr>"

lemma probe_files: "files (snd (probe p w d)) = files d"
  using readConfig_files [of p w d]
  by (auto simp: probe_def io_catch_def io_bind_def io_return_def split: prod.splits sum.splits)

lemma backupAvailable_files: "files (snd (backupAvailable p w d)) = files d"
  using readConfig_files [of "backup_of p" w d]
  by (auto simp: backupAvailable_def io_catch_def io_bind_def io_return_def split: prod.splits sum.splits)

lemma readConfig_Inl:
  assumes "readConfig p w d = (Inl e, d')"
  shows "files d' = files d \<and> (e = Enoent \<longrightarrow> files d p = None)"
  using assms
  by (auto simp: readConfig_def readFile_def lift_parse_def storageFailure_def io_defs
      split: option.splits sum.splits if_splits)

text \<open>
  Creating the default: the file is written in place, so a fault can leave a content that is not JSON,
  but never another configuration.
\<close>

lemma create_effect:
  assumes "io_catch
      (io_bind (open_wx p) (\<lambda>_.
       io_bind (io_finally (io_bind (handle_write p (serialize createDefaultConfig)) (\<lambda>_. handle_sync)) handle_close)
         (\<lambda>_. io_return createDefaultConfig)))
      (\<lambda>e. if e = Eexist then readConfig p else io_throw storageFailure) w d = (r, d')"
    and "files d p = None"
  shows "(files d' p = None \<or> files d' p = Some None \<or> files d' p = Some (serialize createDefaultConfig)) \<and>
    (\<forall>c. r = Inr c \<longrightarrow> c = createDefaultConfig \<and> files d' p = Some (serialize createDefaultConfig))"
  using assms
  by (auto simp: open_wx_def handle_write_def handle_sync_def handle_close_def io_defs split: if_splits)

lemma loadOrCreate_cases:
  assumes "loadOrCreate p w d = (r, d')"
  shows "files d' p = files d p \<and> (\<forall>c. r = Inr c \<longrightarrow> holds p d c) \<or>
    files d p = None \<and>
      (files d' p = None \<or> files d' p = Some None \<or> files d' p = Some (serialize createDefaultConfig)) \<and>
      (\<forall>c. r = Inr c \<longrightarrow> c = createDefaultConfig \<and> files d' p = Some (serialize createDefaultConfig))"
proof (cases "readConfig p w d")
  case (Pair q d1)
  show ?thesis
  proof (cases q)
    case (Inr c)
    with Pair assms have "r = Inr c" "d' = d1" by (simp_all add: loadOrCreate_def io_catch_def)
    with Inr Pair show ?thesis by (auto simp: readConfig_Inr)
  next
    case (Inl e)
    note rd = readConfig_Inl [OF Pair [unfolded Inl]]
    show ?thesis
    proof (cases "e = Enoent \<and> \<not> fault w (tick d1)")
      case True
      let ?d2 = "d1\<lparr>tick := tick d1 + 1\<rparr>"
      from True rd have "files ?d2 p = None" by simp
      moreover from True Inl Pair assms have "io_catch
        (io_bind (open_wx p) (\<lambda>_.
         io_bind (io_finally (io_bind (handle_write p (serialize createDefaultConfig)) (\<lambda>_. handle_sync)) handle_close)
           (\<lambda>_. io_return createDefaultConfig)))
        (\<lambda>e. if e = Eexist then readConfig p else io_throw storageFailure) w ?d2 = (r, d')"
        by (simp add: loadOrCreate_def io_catch_def [of "readConfig p"] io_bind_def [of mkdir] mkdir_eq)
      ultimately show ?thesis using create_effect rd True by simp
    next
      case False
      with Inl Pair assms have "files d' = files d1" "\<forall>c. r \<noteq> Inr c"
        by (auto simp: loadOrCreate_def io_catch_def [of "readConfig p"] io_throw_def io_bind_def [of mkdir]
            mkdir_eq split: if_splits)
      with rd show ?thesis by simp
    qed
  qed
qed

lemma holds_default: "files d p = Some (serialize createDefaultConfig) \<Longrightarrow> holds p d c \<longleftrightarrow> c = createDefaultConfig"
  using holds_serialize [of d p createDefaultConfig] holds_unique by auto

lemma holds_none: "files d p = None \<Longrightarrow> \<not> holds p d c" "files d p = Some None \<Longrightarrow> \<not> holds p d c"
  by (simp_all add: holds_def)

lemma holds_files: "files d p = files d' p \<Longrightarrow> holds p d = holds p d'"
  by (simp add: holds_def fun_eq_iff)

interpretation file_repo: config_repository "file_repository p w" "holds p" for p w
proof unfold_locales
  fix s c c'
  show "holds p s c \<Longrightarrow> holds p s c' \<Longrightarrow> c = c'" by (rule holds_unique)
next
  fix s
  show "holds p (snd (repo_probe (file_repository p w) s)) = holds p s"
    "holds p (snd (repo_backupAvailable (file_repository p w) s)) = holds p s"
    by (rule holds_files, simp add: file_repository_def probe_files backupAvailable_files)+
next
  fix c s s' and u :: unit and e
  show "repo_save (file_repository p w) c s = (Inr u, s') \<Longrightarrow> holds p s' c"
    using save_Inr by (auto simp: file_repository_def)
  show "repo_save (file_repository p w) c s = (Inl e, s') \<Longrightarrow> holds p s' = holds p s"
    using save_Inl [of p c w s e s'] by (intro holds_files) (simp add: file_repository_def backed_up_def)
  show "repo_restoreBackup (file_repository p w) s = (Inr c, s') \<Longrightarrow> holds p s' c"
    using restoreBackup_Inr by (auto simp: file_repository_def)
  show "repo_restoreBackup (file_repository p w) s = (Inl e, s') \<Longrightarrow> holds p s' = holds p s"
    using restoreBackup_Inl by (intro holds_files) (auto simp: file_repository_def)
next
  fix c s s'
  assume "repo_loadOrCreate (file_repository p w) s = (Inr c, s')"
  then show "holds p s' c \<and> (holds p s c \<or> c = createDefaultConfig \<and> (\<nexists>c'. holds p s c'))"
    using loadOrCreate_cases [of p w s "Inr c" s'] holds_default holds_none holds_files [of s' p s]
    by (auto simp: file_repository_def)
next
  fix c s s' e
  assume ld: "repo_loadOrCreate (file_repository p w) s = (Inl e, s')"
  then show "holds p s' c \<Longrightarrow> holds p s c \<or> c = createDefaultConfig \<and> (\<nexists>c'. holds p s c')"
    using loadOrCreate_cases [of p w s "Inl e" s'] holds_default holds_none holds_files [of s' p s]
    by (auto simp: file_repository_def)
  from ld show "holds p s c \<Longrightarrow> holds p s' c"
    using loadOrCreate_cases [of p w s "Inl e" s'] holds_none(1) holds_files [of s' p s]
    by (auto simp: file_repository_def)
qed

section \<open>Properties\<close>

text \<open>
  C9: The activation policy follows the configuration file. Once a subscribed policy has been refreshed
  successfully, then after any sequence of loads, inspections, applied drafts, resets, restores, refreshes
  and other subscriptions, each of which may fail at any file-system call, the policy decides by the
  providers of the configuration that the file holds.
\<close>

theorem policy_follows_file:
  assumes "(k, PolicyListener) \<in> set (svc_listeners st)"
    and "loadOrCreate p w (svc_storage st) = (Inr c0, d)"
    and "SvcUnsubscribe k \<notin> set ops"
    and "st' = service_run (file_repository p w) (SvcRefresh # ops) st"
    and "holds p (svc_storage st') c"
  shows "decision m st' = resolveProviderActivation m (providers c)"
proof -
  have "file_repo.coherent p k (refresh (file_repository p w) st)"
    using assms(1,2) by (intro file_repo.coherent_refresh) (simp_all add: file_repository_def)
  from file_repo.coherent_run [OF this assms(3)] have "file_repo.coherent p k st'"
    using assms(4) by (simp add: service_run_def)
  with assms(5) show ?thesis by (simp add: file_repo.coherent_def decision_def)
qed

definition start_service :: "(disk, unit) service" where
  "start_service = new_policy 0 \<lparr>svc_storage = blank_disk, svc_listeners = [], policy_providers = [], svc_rest = ()\<rparr>"

theorem policy_follows_file_witness:
  "decision (Some \<lparr>am_provider = ''openai-codex'', am_api = ''openai-responses''\<rparr>)
     (service_run (file_repository ''c'' calm) [SvcRefresh, SvcReset] start_service) = Active"
proof -
  let ?st = "service_run (file_repository ''c'' calm) [SvcRefresh, SvcReset] start_service"
  have ld: "fst (loadOrCreate ''c'' calm (svc_storage start_service)) = Inr createDefaultConfig"
    by (simp add: loadOrCreate_def readConfig_def readFile_def open_wx_def handle_write_def handle_sync_def
        handle_close_def mkdir_def io_defs calm_def start_service_def new_policy_def onChange_def blank_disk_def)
  have hold: "holds ''c'' (svc_storage ?st) createDefaultConfig"
    by (simp add: service_run_def refresh_def service_load_def file_repository_def loadOrCreate_def
        readConfig_def readFile_def open_wx_def handle_write_def handle_sync_def handle_close_def mkdir_def
        io_defs calm_def start_service_def new_policy_def onChange_def blank_disk_def policy_replace_def
        resetToDefaults_def save_and_notify_def save_def lift_parse_eq parseConfig_config_js readValidCurrent_def
        serialize_def atomicWrite_def randomUUID_def rename_def notify_def holds_def backup_of_def)
  obtain d where ld': "loadOrCreate ''c'' calm (svc_storage start_service) = (Inr createDefaultConfig, d)"
    using ld by (metis prod.collapse)
  have "decision m ?st = resolveProviderActivation m (providers createDefaultConfig)" for m
    by (rule policy_follows_file [where k = 0, OF _ ld' _ refl hold])
       (simp_all add: start_service_def new_policy_def onChange_def)
  then show ?thesis
    by (simp add: resolveProviderActivation_def createDefaultConfig_def isCodexPiApi_def CODEX_PI_APIS_def)
qed

text \<open>
  Applying a draft is all or nothing. If it returns a configuration, the draft passed the gate with
  that configuration and the file holds it; if it throws, the configuration file, the activation policy
  and the state of all listeners are unchanged.
\<close>

theorem draft_all_or_nothing:
  "case applyDraft (file_repository p w) draft ctx st of
     (Inr c, st') \<Rightarrow> validateConfigForSave draft ctx = Inr c \<and> holds p (svc_storage st') c
   | (Inl _, st') \<Rightarrow> files (svc_storage st') p = files (svc_storage st) p \<and>
       policy_providers st' = policy_providers st \<and> svc_rest st' = svc_rest st"
proof (cases "validateConfigForSave draft ctx")
  case (Inr c)
  show ?thesis
  proof (cases "save p c w (svc_storage st)")
    case (Pair r s)
    with Inr show ?thesis
      using save_Inl [of p c w "svc_storage st" _ s] save_Inr [of p c w "svc_storage st" _ s]
      by (cases r)
         (simp_all add: applyDraft_def save_and_notify_def file_repository_def backed_up_def
            notify_def file_repo.fold_listeners_storage)
  qed
qed (simp add: applyDraft_def)

text \<open>
  Recovery offers are sound. Whenever inspection offers to restore the backup, the backup file
  holds a valid configuration at that moment, and the current file does not.
\<close>

theorem restore_offer_sound:
  "case inspect (file_repository p w) st of
     (Inr (pr, acts), st') \<Rightarrow> if RestoreBackupAction \<in> set acts
       then (\<exists>c. holds (backup_of p) (svc_storage st') c) \<and> (\<nexists>c. holds p (svc_storage st') c) else True
   | (Inl _, _) \<Rightarrow> True"
proof -
  have bak: "fst (backupAvailable p w d) = Inr True \<Longrightarrow> \<exists>c. holds (backup_of p) d c" for d
    by (auto simp: backupAvailable_def io_catch_def io_bind_def io_return_def
        split: prod.splits sum.splits) (auto simp: readConfig_Inr)
  have cur: "fst (probe p w d) = Inr pr \<Longrightarrow> pr = ProbeInvalidJson \<or> (\<exists>i. pr = ProbeInvalidSchema i) \<Longrightarrow>
      \<not> holds p d c" for d pr c
    by (auto simp: probe_def readConfig_def readFile_def lift_parse_def holds_def storageFailure_def io_defs
        split: option.splits sum.splits if_splits)
  obtain r d1 where pr: "probe p w (svc_storage st) = (r, d1)" by fastforce
  obtain b d2 where ba: "backupAvailable p w d1 = (b, d2)" by fastforce
  have "files d1 = files (svc_storage st)" "files d2 = files d1"
    using probe_files [of p w "svc_storage st"] backupAvailable_files [of p w d1] pr ba by simp_all
  then have same: "holds q d2 = holds q d1" "holds q d1 = holds q (svc_storage st)" for q
    by (simp_all add: holds_def fun_eq_iff)
  show ?thesis
    using pr ba bak [of d1] cur [of "svc_storage st"] same
    by (cases r; cases b)
       (auto simp: inspect_def file_repository_def Let_def split: ConfigurationProbeResult.splits)
qed

text \<open>
  A warning is shown exactly when a security setting is weaker than the default, and the strongest
  one exactly when both are.
\<close>

theorem security_warning_exact:
  "(securityPolicyWarning c = None \<longleftrightarrow> security c = security createDefaultConfig) \<and>
   (securityPolicyWarning c = Some dangerous_full_access \<longleftrightarrow>
      approvalPolicy (security c) \<noteq> approvalPolicy (security createDefaultConfig) \<and>
      filesystemAccessPolicy (security c) \<noteq> filesystemAccessPolicy (security createDefaultConfig))"
  by (cases "security c"; cases "approvalPolicy (security c)"; cases "filesystemAccessPolicy (security c)")
     (simp_all add: securityPolicyWarning_def createDefaultConfig_def dangerous_full_access_def
        approval_never_def filesystem_unrestricted_def)

end
