(* ===== verification/Bridge_Protocol.thy ===== *)
theory Bridge_Protocol
  imports Js_Prelude "HOL-Library.Word"
begin

text \<open>
  The wire protocol with the native bridge: \<open>src/src/infrastructure/codex-bridge/protocol.ts\<close> and
  \<open>identity.ts\<close>. Frames are JSON lines of at most 16 MiB.

  Two pieces of the protocol are not in the sources and are arguments here. \<open>check\<close> is
  \<open>Compile(schema).Check\<close> of typebox; what the code relies on is the contract
  \<open>schema_checker\<close>, that it decides conformance to the schema. \<open>parse\<close> stands for
  decoding UTF-8 and \<open>JSON.parse\<close> of a payload (\<open>None\<close> when either throws); no theorem
  restricts it. The lemmas show that the chunk-wise frame decoder is a byte-wise one, whatever
  the chunks, and that every accepted frame is one of the six typed messages.
\<close>

section \<open>Identity\<close>

definition BRIDGE_PROTOCOL_VERSION :: js where "BRIDGE_PROTOCOL_VERSION = jint 8"
definition OFFICIAL_CODEX_VERSION :: string where "OFFICIAL_CODEX_VERSION = ''0.146.0''"
definition OFFICIAL_CODEX_TAG :: string where "OFFICIAL_CODEX_TAG = ''rust-v0.146.0''"
definition OFFICIAL_SOURCE_COMMIT :: string where
  "OFFICIAL_SOURCE_COMMIT = ''e363b08c9175ac1cbe5893615dd2cb9ddf95043b''"
definition VENDOR_TREE_SHA256 :: string where
  "VENDOR_TREE_SHA256 = ''4480020e4ec987e750247807b040a0402f391baa7c268242c0019eaac6da6574''"

definition SUPPORTED_NATIVE_TARGETS :: "string list" where
  "SUPPORTED_NATIVE_TARGETS = [''x86_64-unknown-linux-musl'', ''aarch64-unknown-linux-musl'',
     ''x86_64-apple-darwin'', ''aarch64-apple-darwin'', ''x86_64-pc-windows-msvc'']"

definition targetByPlatform :: "(string \<times> string) list" where
  "targetByPlatform =
    [(''linux/x64'', ''x86_64-unknown-linux-musl''), (''linux/arm64'', ''aarch64-unknown-linux-musl''),
     (''darwin/x64'', ''x86_64-apple-darwin''), (''darwin/arm64'', ''aarch64-apple-darwin''),
     (''win32/x64'', ''x86_64-pc-windows-msvc'')]"

definition nativeTargetFor :: "string \<Rightarrow> string \<Rightarrow> string option" where
  "nativeTargetFor platform architecture = map_of targetByPlatform (platform @ ''/'' @ architecture)"

section \<open>Schemas\<close>

text \<open>
  The schema constructors the sources use. A string schema has a least length and an optional greatest
  one; a property is required or optional; objects admit no additional properties.
\<close>

datatype schema =
    SString nat "nat option"
  | SHex nat
  | SInteger "int option" "int option"
  | SLiteral js
  | SBoolean
  | SUnknown
  | SUnion "schema list"
  | SObject "(string \<times> bool \<times> schema) list"
  | SArray schema nat bool
  | SRecord schema schema

abbreviation req :: "string \<Rightarrow> schema \<Rightarrow> string \<times> bool \<times> schema" where
  "req k s \<equiv> (k, True, s)"

abbreviation opt :: "string \<Rightarrow> schema \<Rightarrow> string \<times> bool \<times> schema" where
  "opt k s \<equiv> (k, False, s)"

definition literals :: "string list \<Rightarrow> schema" where
  "literals ss = SUnion (map (\<lambda>s. SLiteral (JStr s)) ss)"

definition MAX_FRAME_BYTES :: nat where "MAX_FRAME_BYTES = 16 * 1024 * 1024"
definition MAX_PENDING_EVENTS :: nat where "MAX_PENDING_EVENTS = 256"

definition RequestId :: schema where "RequestId = SString 1 (Some 256)"
definition UINT32 :: schema where "UINT32 = SInteger (Some 0) (Some 4294967295)"
definition Sequence :: schema where "Sequence = UINT32"

definition ProviderAuthentication :: schema where
  "ProviderAuthentication = SUnion
    [SObject [req ''kind'' (SLiteral (JStr ''bearer'')), req ''token'' (SString 1 (Some (1024 * 1024)))],
     SObject [req ''kind'' (SLiteral (JStr ''none''))]]"

definition ProviderConnectionSchema :: schema where
  "ProviderConnectionSchema = SObject
    [req ''providerId'' (SString 1 (Some 256)),
     req ''baseUrl'' (SString 1 (Some 2048)),
     req ''headers'' (SRecord (SString 1 (Some 256)) (SString 0 (Some (1024 * 1024)))),
     req ''authentication'' ProviderAuthentication,
     opt ''accountId'' (SString 1 (Some 256)),
     opt ''maxRetries'' (SInteger (Some 0) (Some 10)),
     opt ''timeoutMs'' (SUnion [SInteger (Some 1) (Some 86400000), SLiteral (jint 2147483647)]),
     opt ''websocketConnectTimeoutMs'' (SInteger (Some 1) (Some 86400000))]"

definition ApprovalDecision :: schema where
  "ApprovalDecision = literals [''allow_once'', ''allow_session'', ''decline'', ''cancel'']"

definition NativeApprovalPolicySchema :: schema where
  "NativeApprovalPolicySchema = literals [''on-request'', ''never'']"

definition RequestMethod :: schema where
  "RequestMethod = literals [''responses.create'', ''responses.compact'', ''responses.estimate_context'',
     ''models.resolve'', ''tools.resolve'', ''tools.execute'', ''diagnostics.read'']"

definition typed :: "string \<Rightarrow> (string \<times> bool \<times> schema) list \<Rightarrow> schema" where
  "typed ty ps = SObject (req ''type'' (SLiteral (JStr ty)) # ps)"

definition ClientMessageSchema :: schema where
  "ClientMessageSchema = SUnion
    [typed ''initialize''
      [req ''requestId'' RequestId, req ''protocolVersion'' UINT32,
       req ''client'' (SObject [req ''name'' (SString 1 (Some 256)), req ''version'' (SString 1 (Some 256))])],
     typed ''request''
      [req ''requestId'' RequestId, req ''method'' RequestMethod, req ''params'' SUnknown],
     typed ''cancel'' [req ''requestId'' RequestId, req ''targetRequestId'' RequestId],
     typed ''approval_decision''
      [req ''requestId'' RequestId, req ''approvalId'' RequestId, req ''decision'' ApprovalDecision],
     typed ''session_write''
      [req ''requestId'' RequestId, req ''sessionId'' RequestId,
       req ''approvalPolicy'' NativeApprovalPolicySchema, req ''data'' (SString 0 None)],
     typed ''session_resize''
      [req ''requestId'' RequestId, req ''sessionId'' RequestId,
       req ''columns'' (SInteger (Some 1) (Some 65535)), req ''rows'' (SInteger (Some 1) (Some 65535))],
     typed ''session_terminate'' [req ''requestId'' RequestId, req ''sessionId'' RequestId],
     typed ''acknowledge'' [req ''targetRequestId'' RequestId, req ''sequence'' Sequence],
     typed ''shutdown'' [req ''requestId'' RequestId]]"

definition BridgeCapability :: schema where
  "BridgeCapability = literals [''responses_sse'', ''responses_websocket'', ''remote_compaction_v2'',
     ''compact_endpoint'', ''model_metadata'', ''context_estimation'', ''update_plan'', ''unified_exec'',
     ''shell_command'', ''apply_patch'', ''view_image'', ''image_generation'', ''standalone_web_search'',
     ''hosted_web_search'']"

definition TerminalStatus :: schema where
  "TerminalStatus = literals [''completed'', ''incomplete'', ''failed'', ''aborted'', ''timed_out'']"

definition BridgeError :: schema where
  "BridgeError = SObject
    [req ''category'' (literals [''ConfigurationError'', ''AuthenticationError'', ''ProtocolError'',
       ''CapabilityError'', ''NativeToolError'']),
     req ''code'' (SString 1 (Some 256)), req ''message'' (SString 0 (Some 4096)),
     req ''retryable'' SBoolean]"

definition ApprovalRequest :: schema where
  "ApprovalRequest = SObject
    [req ''approvalId'' RequestId,
     req ''operation'' (literals [''command'', ''patch'', ''filesystem'', ''network'']),
     req ''summary'' (SString 0 (Some 4096)), req ''details'' SUnknown,
     req ''availableDecisions'' (SArray ApprovalDecision 1 True)]"

definition HandshakeSchema :: schema where
  "HandshakeSchema = SObject
    [req ''bridgeProtocolVersion'' UINT32,
     req ''officialCodexVersion'' (SString 1 None), req ''officialCodexTag'' (SString 1 None),
     req ''officialSourceCommit'' (SHex 40), req ''buildTarget'' (SString 1 (Some 256)),
     req ''buildSourceCommit'' (SUnion [SHex 40, SLiteral (JStr ''development'')]),
     req ''vendorTreeSha256'' (SHex 64), req ''maxFrameBytes'' (SInteger (Some 1) None),
     req ''maxPendingEvents'' (SInteger (Some 1) (Some 4294967295)),
     req ''capabilities'' (SArray BridgeCapability 0 True)]"

definition ServerMessageSchema :: schema where
  "ServerMessageSchema = SUnion
    [typed ''handshake'' [req ''requestId'' RequestId, req ''handshake'' HandshakeSchema],
     typed ''event'' [req ''requestId'' RequestId, req ''sequence'' Sequence, req ''event'' SUnknown],
     typed ''result'' [req ''requestId'' RequestId, req ''status'' TerminalStatus, req ''result'' SUnknown],
     typed ''error'' [opt ''requestId'' RequestId, req ''error'' BridgeError],
     typed ''approval_request'' [req ''requestId'' RequestId, req ''approval'' ApprovalRequest],
     typed ''backpressure''
      [opt ''requestId'' RequestId, req ''state'' (literals [''paused'', ''resumed'']),
       req ''pendingEvents'' UINT32, req ''capacity'' (SInteger (Some 1) (Some 4294967295))]]"

section \<open>Conformance\<close>

definition is_hex_digit :: "char \<Rightarrow> bool" where
  "is_hex_digit c = (let n = of_char c :: nat in 48 \<le> n \<and> n \<le> 57 \<or> 97 \<le> n \<and> n \<le> 102)"

definition hex_string :: "nat \<Rightarrow> string \<Rightarrow> bool" where
  "hex_string n s \<longleftrightarrow> length s = n \<and> list_all is_hex_digit s"

definition in_bounds :: "int option \<Rightarrow> int option \<Rightarrow> rat \<Rightarrow> bool" where
  "in_bounds lo hi q \<longleftrightarrow> (case lo of None \<Rightarrow> True | Some a \<Rightarrow> of_int a \<le> q) \<and>
     (case hi of None \<Rightarrow> True | Some b \<Rightarrow> q \<le> of_int b)"

text \<open>What a schema means: the values a validator of the schema accepts.\<close>

fun conforms :: "schema \<Rightarrow> js \<Rightarrow> bool" where
  "conforms (SString lo hi) v = (case v of
     JStr s \<Rightarrow> lo \<le> length s \<and> (case hi of None \<Rightarrow> True | Some m \<Rightarrow> length s \<le> m) | _ \<Rightarrow> False)"
| "conforms (SHex n) v = (case v of JStr s \<Rightarrow> hex_string n s | _ \<Rightarrow> False)"
| "conforms (SInteger lo hi) v = (case v of JNum (Fin q) \<Rightarrow> of_int \<lfloor>q\<rfloor> = q \<and> in_bounds lo hi q | _ \<Rightarrow> False)"
| "conforms (SLiteral l) v = (v = l)"
| "conforms SBoolean v = (case v of JBool _ \<Rightarrow> True | _ \<Rightarrow> False)"
| "conforms SUnknown v = True"
| "conforms (SUnion ss) v = list_ex (\<lambda>s. conforms s v) ss"
| "conforms (SObject ps) v = (case v of
     JObj ob \<Rightarrow> list_all (\<lambda>k. k \<in> fst ` set ps) (keys_of ob) \<and>
       list_all (\<lambda>p. if hasOwn ob (fst p) then conforms (snd (snd p)) (get_prop ob (fst p))
         else \<not> fst (snd p)) ps
   | _ \<Rightarrow> False)"
| "conforms (SArray s m uniq) v = (case v of
     JArr xs \<Rightarrow> m \<le> length xs \<and> (uniq \<longrightarrow> distinct xs) \<and> list_all (conforms s) xs | _ \<Rightarrow> False)"
| "conforms (SRecord ks vs) v = (case v of
     JObj ob \<Rightarrow> list_all (\<lambda>kv. conforms ks (JStr (fst kv)) \<and> conforms vs (snd kv)) ob | _ \<Rightarrow> False)"

text \<open>The contract of the third-party validator.\<close>

locale schema_checker =
  fixes check :: "schema \<Rightarrow> js \<Rightarrow> bool"
  assumes check_conforms: "check s v \<longleftrightarrow> conforms s v"

section \<open>Frames\<close>

type_synonym bytes = "8 word list"

datatype protocol_code =
    EmptyFrame | FrameTooLarge | HandshakeMismatch | InvalidFrame | MultipleFrames | TruncatedFrame

text \<open>\<open>xs.at(-1)\<close>.\<close>

definition last_byte :: "bytes \<Rightarrow> 8 word option" where
  "last_byte bs = (if bs = [] then None else Some (last bs))"

definition stripLineTerminator :: "bytes \<Rightarrow> bytes" where
  "stripLineTerminator frame =
    (if last_byte frame \<noteq> Some 10 then frame
     else let withoutLineFeed = butlast frame in
       if last_byte withoutLineFeed = Some 13 then butlast withoutLineFeed else withoutLineFeed)"

definition decodeServerFrame ::
  "(schema \<Rightarrow> js \<Rightarrow> bool) \<Rightarrow> (bytes \<Rightarrow> js option) \<Rightarrow> bytes \<Rightarrow> (protocol_code, js) result" where
  "decodeServerFrame check parse frame =
    (let payload = stripLineTerminator frame in
     if length payload = 0 then Inl EmptyFrame
     else if MAX_FRAME_BYTES < length payload then Inl FrameTooLarge
     else if 10 \<in> set payload \<or> 13 \<in> set payload then Inl MultipleFrames
     else (case parse payload of
         None \<Rightarrow> Inl InvalidFrame
       | Some v \<Rightarrow> if \<not> check ServerMessageSchema v then Inl InvalidFrame else Inr v))"

text \<open>\<open>stringify\<close> is \<open>JSON.stringify\<close> followed by UTF-8 encoding, \<open>None\<close> where it throws.\<close>

definition encodeClientMessage ::
  "(schema \<Rightarrow> js \<Rightarrow> bool) \<Rightarrow> (js \<Rightarrow> bytes option) \<Rightarrow> js \<Rightarrow> (protocol_code, bytes) result" where
  "encodeClientMessage check stringify message =
    (if \<not> check ClientMessageSchema message then Inl InvalidFrame
     else (case stringify message of
         None \<Rightarrow> Inl InvalidFrame
       | Some payload \<Rightarrow>
           if MAX_FRAME_BYTES < length payload then Inl FrameTooLarge else Inr (payload @ [10])))"

section \<open>The decoder\<close>

text \<open>The parts pushed since the last frame, and the number of bytes they have.\<close>

record ServerFrameDecoder =
  chunks :: "bytes list"
  pendingBytes :: nat

definition new_decoder :: ServerFrameDecoder where
  "new_decoder = \<lparr>chunks = [], pendingBytes = 0\<rparr>"

definition append_part :: "bytes \<Rightarrow> ServerFrameDecoder \<Rightarrow> (protocol_code, unit) result \<times> ServerFrameDecoder" where
  "append_part part dec =
    (if length part = 0 then (Inr (), dec)
     else
       let dec' = \<lparr>chunks = chunks dec @ [part], pendingBytes = pendingBytes dec + length part\<rparr>;
           permitsTrailingCarriageReturn =
             (pendingBytes dec' = MAX_FRAME_BYTES + 1 \<and> last_byte part = Some 13)
       in if MAX_FRAME_BYTES < pendingBytes dec' \<and> \<not> permitsTrailingCarriageReturn
          then (Inl FrameTooLarge, new_decoder) else (Inr (), dec'))"

text \<open>
  The loop over a chunk: \<open>seg\<close> is the part of the chunk since the last line feed
  (\<open>chunk.subarray(offset, index)\<close>), \<open>messages\<close> the messages so far. An exception
  drops the messages of the whole call.
\<close>

fun push_loop ::
  "(bytes \<Rightarrow> (protocol_code, js) result) \<Rightarrow> bytes \<Rightarrow> bytes \<Rightarrow> js list \<Rightarrow> ServerFrameDecoder \<Rightarrow>
     (protocol_code, js list) result \<times> ServerFrameDecoder" where
  "push_loop decode [] seg messages dec =
    (case append_part seg dec of
       (Inl e, dec') \<Rightarrow> (Inl e, dec') | (Inr _, dec') \<Rightarrow> (Inr messages, dec'))"
| "push_loop decode (b # chunk) seg messages dec =
    (if b \<noteq> 10 then push_loop decode chunk (seg @ [b]) messages dec
     else (case append_part seg dec of
         (Inl e, dec') \<Rightarrow> (Inl e, dec')
       | (Inr _, dec') \<Rightarrow>
           (case decode (concat (chunks dec') @ [10]) of
              Inl e \<Rightarrow> (Inl e, new_decoder)
            | Inr m \<Rightarrow> push_loop decode chunk [] (messages @ [m]) new_decoder)))"

definition push ::
  "(bytes \<Rightarrow> (protocol_code, js) result) \<Rightarrow> bytes \<Rightarrow> ServerFrameDecoder \<Rightarrow>
     (protocol_code, js list) result \<times> ServerFrameDecoder" where
  "push decode chunk dec = push_loop decode chunk [] [] dec"

definition finish :: "ServerFrameDecoder \<Rightarrow> (protocol_code, unit) result \<times> ServerFrameDecoder" where
  "finish dec = (if pendingBytes dec \<noteq> 0 then (Inl TruncatedFrame, new_decoder) else (Inr (), dec))"

section \<open>The handshake\<close>

record HandshakeVerificationOptions =
  allowDevelopmentBuild :: bool
  expectedBuildSourceCommit :: "string option"

definition expected_fields :: "string \<Rightarrow> (string \<times> js) list" where
  "expected_fields expectedBuildTarget =
    [(''bridgeProtocolVersion'', BRIDGE_PROTOCOL_VERSION),
     (''officialCodexVersion'', JStr OFFICIAL_CODEX_VERSION),
     (''officialCodexTag'', JStr OFFICIAL_CODEX_TAG),
     (''officialSourceCommit'', JStr OFFICIAL_SOURCE_COMMIT),
     (''buildTarget'', JStr expectedBuildTarget),
     (''vendorTreeSha256'', JStr VENDOR_TREE_SHA256),
     (''maxFrameBytes'', jint (int MAX_FRAME_BYTES)),
     (''maxPendingEvents'', jint (int MAX_PENDING_EVENTS))]"

definition verifyHandshake ::
  "js_object \<Rightarrow> string \<Rightarrow> HandshakeVerificationOptions \<Rightarrow> (protocol_code \<times> string, unit) result" where
  "verifyHandshake handshake expectedBuildTarget options =
    (case find (\<lambda>fe. get_prop handshake (fst fe) \<noteq> snd fe) (expected_fields expectedBuildTarget) of
       Some fe \<Rightarrow> Inl (HandshakeMismatch,
         ''Bridge handshake field '' @ fst fe @ '' does not match the product contract'')
     | None \<Rightarrow>
       let build = get_prop handshake ''buildSourceCommit'' in
       if (if build = JStr ''development'' then \<not> allowDevelopmentBuild options
           else \<not> conforms (SHex 40) build)
       then Inl (HandshakeMismatch, ''Bridge handshake build source identity is invalid'')
       else if (case expectedBuildSourceCommit options of None \<Rightarrow> False | Some c \<Rightarrow> build \<noteq> JStr c)
       then Inl (HandshakeMismatch, ''Bridge handshake build source does not match the package artifact'')
       else Inr ())"

section \<open>The decoder byte by byte\<close>

text \<open>The reference: one byte at a time, with the unterminated frame as its only state.\<close>

definition too_large :: "bytes \<Rightarrow> bool" where
  "too_large p \<longleftrightarrow> MAX_FRAME_BYTES < length p \<and> \<not> (length p = MAX_FRAME_BYTES + 1 \<and> last_byte p = Some 13)"

definition with_messages ::
  "js list \<Rightarrow> (protocol_code, js list) result \<times> bytes \<Rightarrow> (protocol_code, js list) result \<times> bytes" where
  "with_messages ms r = (case fst r of Inl e \<Rightarrow> (Inl e, snd r) | Inr ns \<Rightarrow> (Inr (ms @ ns), snd r))"

fun byte_run ::
  "(bytes \<Rightarrow> (protocol_code, js) result) \<Rightarrow> bytes \<Rightarrow> bytes \<Rightarrow> (protocol_code, js list) result \<times> bytes" where
  "byte_run decode [] pend = (Inr [], pend)"
| "byte_run decode (b # bs) pend =
    (if b = 10 then
       (case decode (pend @ [10]) of
          Inl e \<Rightarrow> (Inl e, []) | Inr m \<Rightarrow> with_messages [m] (byte_run decode bs []))
     else if too_large (pend @ [b]) then (Inl FrameTooLarge, [])
     else byte_run decode bs (pend @ [b]))"

lemma with_messages_simps [simp]:
  "with_messages ms (Inl e, p) = (Inl e, p)"
  "with_messages ms (Inr ns, p) = (Inr (ms @ ns), p)"
  "with_messages [] r = r"
  "with_messages ms (with_messages ns r) = with_messages (ms @ ns) r"
  by (cases r; auto simp: with_messages_def split: sum.splits)+

lemma last_byte_snoc [simp]: "last_byte (p @ [b]) = Some b"
  by (simp add: last_byte_def)

lemma last_byte_append: "q \<noteq> [] \<Longrightarrow> last_byte (p @ q) = last_byte q"
  by (simp add: last_byte_def)

lemma byte_run_segment:
  assumes "10 \<notin> set seg" and "\<not> too_large p"
  shows "byte_run decode (seg @ bs) p =
    (if too_large (p @ seg) then (Inl FrameTooLarge, []) else byte_run decode bs (p @ seg))"
  using assms
proof (induction seg arbitrary: p)
  case (Cons b seg)
  show ?case
  proof (cases "too_large (p @ [b])")
    case True
    then have "too_large (p @ b # seg)"
      by (cases seg) (auto simp: too_large_def)
    with True Cons.prems show ?thesis by simp
  next
    case False
    with Cons.IH [of "p @ [b]"] Cons.prems show ?thesis by simp
  qed
qed simp

definition decoder_inv :: "ServerFrameDecoder \<Rightarrow> bool" where
  "decoder_inv dec \<longleftrightarrow> pendingBytes dec = length (concat (chunks dec)) \<and> \<not> too_large (concat (chunks dec))"

lemma decoder_inv_new [simp]: "decoder_inv new_decoder" "chunks new_decoder = []"
  by (simp_all add: decoder_inv_def new_decoder_def too_large_def)

lemma append_part_eq:
  assumes "decoder_inv dec" and "seg \<noteq> []"
  shows "append_part seg dec = (if too_large (concat (chunks dec) @ seg) then (Inl FrameTooLarge, new_decoder)
      else (Inr (), \<lparr>chunks = chunks dec @ [seg], pendingBytes = length (concat (chunks dec) @ seg)\<rparr>))"
proof -
  define p where "p = concat (chunks dec)"
  have pb: "pendingBytes dec = length p" using assms by (simp only: decoder_inv_def p_def)
  have lb: "last_byte (p @ seg) = last_byte seg" using assms(2) by (rule last_byte_append)
  have len: "length seg \<noteq> 0" using assms(2) by simp
  show ?thesis
    unfolding p_def [symmetric] append_part_def Let_def too_large_def lb pb length_append
      ServerFrameDecoder.simps if_not_P [OF len] ..
qed

lemma append_part_effect:
  assumes "decoder_inv dec"
  shows "if too_large (concat (chunks dec) @ seg) then append_part seg dec = (Inl FrameTooLarge, new_decoder)
    else (\<exists>dec'. append_part seg dec = (Inr (), dec') \<and> decoder_inv dec' \<and>
      concat (chunks dec') = concat (chunks dec) @ seg)"
proof (cases "seg = []")
  case True
  with assms show ?thesis by (simp add: append_part_def decoder_inv_def)
next
  case False
  have c: "concat (chunks dec @ [seg]) = concat (chunks dec) @ seg" by simp
  show ?thesis
    unfolding append_part_eq [OF assms False] decoder_inv_def
    by (cases "too_large (concat (chunks dec) @ seg)") (simp_all add: c del: concat_append length_concat)
qed

text \<open>The loop over a chunk is the byte-wise run over it, with its messages after those so far.\<close>

lemma push_loop_byte_run:
  assumes "decoder_inv dec" and "10 \<notin> set seg"
  shows "fst (push_loop decode chunk seg ms dec) =
      fst (with_messages ms (byte_run decode (seg @ chunk) (concat (chunks dec)))) \<and>
    concat (chunks (snd (push_loop decode chunk seg ms dec))) =
      snd (byte_run decode (seg @ chunk) (concat (chunks dec))) \<and>
    decoder_inv (snd (push_loop decode chunk seg ms dec))"
  using assms
proof (induction chunk arbitrary: seg ms dec)
  case Nil
  have p: "\<not> too_large (concat (chunks dec))" using Nil(1) by (simp add: decoder_inv_def)
  show ?case
    using append_part_effect [OF Nil(1), of seg] byte_run_segment [OF Nil(2) p, of decode "[]"]
    by (auto split: if_splits)
next
  case (Cons b chunk)
  have p: "\<not> too_large (concat (chunks dec))" using Cons.prems(1) by (simp add: decoder_inv_def)
  show ?case
  proof (cases "b = 10")
    case False
    with Cons.IH [of dec "seg @ [b]" ms] Cons.prems show ?thesis by simp
  next
    case True
    note run = byte_run_segment [OF Cons.prems(2) p, of decode "10 # chunk"]
    show ?thesis
    proof (cases "too_large (concat (chunks dec) @ seg)")
      case large: True
      with append_part_effect [OF Cons.prems(1), of seg] run True show ?thesis by simp
    next
      case False
      with append_part_effect [OF Cons.prems(1), of seg] obtain dec' where
        ap: "append_part seg dec = (Inr (), dec')" and c: "concat (chunks dec') = concat (chunks dec) @ seg" by auto
      show ?thesis
      proof (cases "decode (concat (chunks dec) @ seg @ [10])")
        case (Inl e)
        with True False ap c run show ?thesis by simp
      next
        case (Inr m)
        with True False ap c run Cons.IH [of new_decoder "[]" "ms @ [m]"] show ?thesis
          by (simp add: with_messages_def split: sum.splits)
      qed
    qed
  qed
qed

lemma push_byte_run:
  assumes "decoder_inv dec"
  shows "fst (push decode chunk dec) = fst (byte_run decode chunk (concat (chunks dec))) \<and>
    concat (chunks (snd (push decode chunk dec))) = snd (byte_run decode chunk (concat (chunks dec))) \<and>
    decoder_inv (snd (push decode chunk dec))"
  using push_loop_byte_run [OF assms, of "[]" decode chunk "[]"] by (simp add: push_def)

lemma byte_run_append:
  "byte_run decode (a @ b) p =
    (case byte_run decode a p of
       (Inl e, q) \<Rightarrow> (Inl e, q) | (Inr ms, q) \<Rightarrow> with_messages ms (byte_run decode b q))"
proof (induction a arbitrary: p)
  case (Cons x a)
  show ?case
    by (auto simp: Cons.IH split: sum.split prod.split)
qed simp

text \<open>Pushing a list of chunks until one throws, keeping the messages of the calls that returned.\<close>

fun push_all ::
  "(bytes \<Rightarrow> (protocol_code, js) result) \<Rightarrow> bytes list \<Rightarrow> ServerFrameDecoder \<Rightarrow>
     (protocol_code, js list) result \<times> ServerFrameDecoder" where
  "push_all decode [] dec = (Inr [], dec)"
| "push_all decode (c # cs) dec =
    (case push decode c dec of
       (Inl e, dec') \<Rightarrow> (Inl e, dec')
     | (Inr ms, dec') \<Rightarrow>
         (case push_all decode cs dec' of
            (Inl e, dec'') \<Rightarrow> (Inl e, dec'') | (Inr ns, dec'') \<Rightarrow> (Inr (ms @ ns), dec'')))"

lemma push_all_byte_run:
  assumes "decoder_inv dec"
  shows "fst (push_all decode cs dec) = fst (byte_run decode (concat cs) (concat (chunks dec))) \<and>
    concat (chunks (snd (push_all decode cs dec))) = snd (byte_run decode (concat cs) (concat (chunks dec)))"
  using assms
proof (induction cs arbitrary: dec)
  case (Cons c cs)
  obtain r dec' where ps: "push decode c dec = (r, dec')" by fastforce
  note pb = push_byte_run [OF Cons.prems, of decode c, unfolded ps]
  obtain r' dec'' where rest: "push_all decode cs dec' = (r', dec'')" by fastforce
  show ?case
    using pb Cons.IH [of dec'] ps rest
    by (cases r; cases r'; cases "byte_run decode c (concat (chunks dec))")
       (auto simp: byte_run_append with_messages_def split: sum.splits)
qed simp

section \<open>Typed messages\<close>

datatype ServerMessage =
    MsgHandshake string js_object
  | MsgEvent string int js
  | MsgResult string string js
  | MsgError "string option" js_object
  | MsgApproval string js_object
  | MsgBackpressure "string option" string int int

definition int_of :: "js \<Rightarrow> int" where
  "int_of v = (case v of JNum (Fin q) \<Rightarrow> \<lfloor>q\<rfloor> | _ \<Rightarrow> 0)"

definition object_of :: "js \<Rightarrow> js_object" where
  "object_of v = (case v of JObj ob \<Rightarrow> ob | _ \<Rightarrow> [])"

definition text_of :: "js \<Rightarrow> string" where
  "text_of v = (case v of JStr s \<Rightarrow> s | _ \<Rightarrow> [])"

definition optional_text :: "js \<Rightarrow> string option" where
  "optional_text v = as_string v"

text \<open>A checked frame read at its static type \<open>ServerMessage\<close>.\<close>

definition server_message :: "js \<Rightarrow> ServerMessage option" where
  "server_message v = (case v of
     JObj ob \<Rightarrow>
      (let rid = text_of (get_prop ob ''requestId'') in
       case get_prop ob ''type'' of
         JStr ty \<Rightarrow>
           if ty = ''handshake'' then Some (MsgHandshake rid (object_of (get_prop ob ''handshake'')))
           else if ty = ''event'' then
             Some (MsgEvent rid (int_of (get_prop ob ''sequence'')) (get_prop ob ''event''))
           else if ty = ''result'' then
             Some (MsgResult rid (text_of (get_prop ob ''status'')) (get_prop ob ''result''))
           else if ty = ''error'' then
             Some (MsgError (optional_text (get_prop ob ''requestId'')) (object_of (get_prop ob ''error'')))
           else if ty = ''approval_request'' then Some (MsgApproval rid (object_of (get_prop ob ''approval'')))
           else if ty = ''backpressure'' then
             Some (MsgBackpressure (optional_text (get_prop ob ''requestId'')) (text_of (get_prop ob ''state''))
               (int_of (get_prop ob ''pendingEvents'')) (int_of (get_prop ob ''capacity'')))
           else None
       | _ \<Rightarrow> None)
   | _ \<Rightarrow> None)"

text \<open>The values of a typed message are within the bounds of the schema.\<close>

definition valid_request_id :: "string \<Rightarrow> bool" where
  "valid_request_id r \<longleftrightarrow> 1 \<le> length r \<and> length r \<le> 256"

definition uint32 :: "int \<Rightarrow> bool" where
  "uint32 i \<longleftrightarrow> 0 \<le> i \<and> i \<le> 4294967295"

definition wf_message :: "ServerMessage \<Rightarrow> bool" where
  "wf_message m = (case m of
     MsgHandshake r h \<Rightarrow> valid_request_id r \<and> conforms HandshakeSchema (JObj h)
   | MsgEvent r n _ \<Rightarrow> valid_request_id r \<and> uint32 n
   | MsgResult r st _ \<Rightarrow> valid_request_id r \<and>
       st \<in> {''completed'', ''incomplete'', ''failed'', ''aborted'', ''timed_out''}
   | MsgError r e \<Rightarrow> pred_option valid_request_id r \<and> conforms BridgeError (JObj e)
   | MsgApproval r a \<Rightarrow> valid_request_id r \<and> conforms ApprovalRequest (JObj a)
   | MsgBackpressure r st n c \<Rightarrow> pred_option valid_request_id r \<and> st \<in> {''paused'', ''resumed''} \<and>
       uint32 n \<and> uint32 c \<and> 1 \<le> c)"

lemma conforms_literals [simp]: "conforms (literals ss) v \<longleftrightarrow> (\<exists>s \<in> set ss. v = JStr s)"
  by (auto simp: literals_def list_ex_iff)

lemma conforms_typed:
  "conforms (typed ty ps) v \<longleftrightarrow> (\<exists>ob. v = JObj ob \<and> get_prop ob ''type'' = JStr ty \<and> hasOwn ob ''type'' \<and>
     list_all (\<lambda>k. k \<in> insert ''type'' (fst ` set ps)) (keys_of ob) \<and>
     list_all (\<lambda>p. if hasOwn ob (fst p) then conforms (snd (snd p)) (get_prop ob (fst p))
         else \<not> fst (snd p)) ps)"
  by (cases v) (auto simp: typed_def split: if_splits)

lemma conforms_RequestId: "conforms RequestId v \<longleftrightarrow> (\<exists>s. v = JStr s \<and> valid_request_id s)"
  by (cases v) (auto simp: RequestId_def valid_request_id_def)

lemma conforms_int: "conforms (SInteger (Some lo) (Some hi)) v \<Longrightarrow>
    \<exists>i. v = jint i \<and> lo \<le> i \<and> i \<le> hi"
proof -
  assume c: "conforms (SInteger (Some lo) (Some hi)) v"
  then obtain q where v: "v = JNum (Fin q)" and q: "of_int \<lfloor>q\<rfloor> = q" "of_int lo \<le> q" "q \<le> of_int hi"
    by (auto simp: in_bounds_def split: js.splits jsnum.splits)
  from q have "lo \<le> \<lfloor>q\<rfloor>" "\<lfloor>q\<rfloor> \<le> hi" by (metis of_int_le_iff)+
  with v q(1) show ?thesis by metis
qed

lemma conforms_uint32: "conforms UINT32 v \<Longrightarrow> uint32 (int_of v)"
  unfolding UINT32_def uint32_def by (drule conforms_int) (auto simp: int_of_def)

lemma conforms_object: "conforms (SObject ps) v \<Longrightarrow> \<exists>ob. v = JObj ob"
  by (cases v) auto

lemma optional_request_id:
  assumes "if hasOwn ob ''requestId'' then conforms RequestId (get_prop ob ''requestId'') else True"
  shows "pred_option valid_request_id (optional_text (get_prop ob ''requestId''))"
proof (cases "hasOwn ob ''requestId''")
  case True
  with assms show ?thesis by (auto simp: optional_text_def conforms_RequestId)
next
  case False
  then have "get_prop ob ''requestId'' = JUndef" by (metis get_prop_undef hasOwn_def)
  then show ?thesis by (simp add: optional_text_def as_string_def)
qed

lemma server_schema_cases:
  assumes "conforms ServerMessageSchema v"
  obtains ps ty where "conforms (typed ty ps) v"
    and "(ty, ps) \<in>
     {(''handshake'', [req ''requestId'' RequestId, req ''handshake'' HandshakeSchema]),
      (''event'', [req ''requestId'' RequestId, req ''sequence'' Sequence, req ''event'' SUnknown]),
      (''result'', [req ''requestId'' RequestId, req ''status'' TerminalStatus, req ''result'' SUnknown]),
      (''error'', [opt ''requestId'' RequestId, req ''error'' BridgeError]),
      (''approval_request'', [req ''requestId'' RequestId, req ''approval'' ApprovalRequest]),
      (''backpressure'', [opt ''requestId'' RequestId, req ''state'' (literals [''paused'', ''resumed'']),
         req ''pendingEvents'' UINT32, req ''capacity'' (SInteger (Some 1) (Some 4294967295))])}"
proof -
  from assms have
    "conforms (typed ''handshake'' [req ''requestId'' RequestId, req ''handshake'' HandshakeSchema]) v \<or>
     conforms (typed ''event'' [req ''requestId'' RequestId, req ''sequence'' Sequence, req ''event'' SUnknown]) v \<or>
     conforms (typed ''result'' [req ''requestId'' RequestId, req ''status'' TerminalStatus, req ''result'' SUnknown]) v \<or>
     conforms (typed ''error'' [opt ''requestId'' RequestId, req ''error'' BridgeError]) v \<or>
     conforms (typed ''approval_request'' [req ''requestId'' RequestId, req ''approval'' ApprovalRequest]) v \<or>
     conforms (typed ''backpressure'' [opt ''requestId'' RequestId, req ''state'' (literals [''paused'', ''resumed'']),
       req ''pendingEvents'' UINT32, req ''capacity'' (SInteger (Some 1) (Some 4294967295))]) v"
    by (simp only: ServerMessageSchema_def conforms.simps(7) list_ex_iff list.set bex_simps simp_thms)
  then show thesis
    by (elim disjE) (erule that, simp only: insert_iff simp_thms)+
qed

lemma required_property:
  "(if hasOwn ob k then conforms s (get_prop ob k) else \<not> True) \<Longrightarrow> conforms s (get_prop ob k)"
  by (simp split: if_splits)

lemma typed_property:
  assumes "conforms (typed ty ps) (JObj ob)" and "(k, True, s) \<in> set ps"
  shows "conforms s (get_prop ob k)"
  using assms by (auto simp: conforms_typed list_all_iff split: if_splits)

lemma typed_optional:
  assumes "conforms (typed ty ps) (JObj ob)" and "opt ''requestId'' RequestId \<in> set ps"
  shows "pred_option valid_request_id (optional_text (get_prop ob ''requestId''))"
  using assms by (intro optional_request_id) (auto simp: conforms_typed list_all_iff split: if_splits)

lemma typed_type: "conforms (typed ty ps) (JObj ob) \<Longrightarrow> get_prop ob ''type'' = JStr ty"
  by (simp add: conforms_typed)

lemma object_of_conforms: "conforms (SObject ps) v \<Longrightarrow> conforms (SObject ps) (JObj (object_of v))"
  by (cases v) (simp_all add: object_of_def)

lemma conforming_message:
  assumes "conforms ServerMessageSchema v"
  shows "\<exists>m. server_message v = Some m \<and> wf_message m"
proof -
  from assms obtain ps ty where c: "conforms (typed ty ps) v" and k: "(ty, ps) \<in>
     {(''handshake'', [req ''requestId'' RequestId, req ''handshake'' HandshakeSchema]),
      (''event'', [req ''requestId'' RequestId, req ''sequence'' Sequence, req ''event'' SUnknown]),
      (''result'', [req ''requestId'' RequestId, req ''status'' TerminalStatus, req ''result'' SUnknown]),
      (''error'', [opt ''requestId'' RequestId, req ''error'' BridgeError]),
      (''approval_request'', [req ''requestId'' RequestId, req ''approval'' ApprovalRequest]),
      (''backpressure'', [opt ''requestId'' RequestId, req ''state'' (literals [''paused'', ''resumed'']),
         req ''pendingEvents'' UINT32, req ''capacity'' (SInteger (Some 1) (Some 4294967295))])}"
    by (rule server_schema_cases)
  from c obtain ob where v: "v = JObj ob" by (auto simp: conforms_typed)
  note c' = c [unfolded v]
  have rid: "req ''requestId'' RequestId \<in> set ps \<Longrightarrow>
      \<exists>r. get_prop ob ''requestId'' = JStr r \<and> valid_request_id r"
    by (drule typed_property [OF c']) (simp add: conforms_RequestId)
  have obj: "conforms HandshakeSchema x \<Longrightarrow> conforms HandshakeSchema (JObj (object_of x))"
    "conforms BridgeError x \<Longrightarrow> conforms BridgeError (JObj (object_of x))"
    "conforms ApprovalRequest x \<Longrightarrow> conforms ApprovalRequest (JObj (object_of x))" for x
    unfolding HandshakeSchema_def BridgeError_def ApprovalRequest_def by (rule object_of_conforms, assumption)+
  note pr = typed_property [OF c']
  from k consider (hs) "ty = ''handshake''" "ps = [req ''requestId'' RequestId, req ''handshake'' HandshakeSchema]"
    | (ev) "ty = ''event''" "ps = [req ''requestId'' RequestId, req ''sequence'' Sequence, req ''event'' SUnknown]"
    | (res) "ty = ''result''" "ps = [req ''requestId'' RequestId, req ''status'' TerminalStatus, req ''result'' SUnknown]"
    | (err) "ty = ''error''" "ps = [opt ''requestId'' RequestId, req ''error'' BridgeError]"
    | (app) "ty = ''approval_request''" "ps = [req ''requestId'' RequestId, req ''approval'' ApprovalRequest]"
    | (bp) "ty = ''backpressure''" "ps = [opt ''requestId'' RequestId, req ''state'' (literals [''paused'', ''resumed'']),
         req ''pendingEvents'' UINT32, req ''capacity'' (SInteger (Some 1) (Some 4294967295))]"
    by (elim insertE emptyE) (simp_all only: prod.inject)
  then show ?thesis
  proof cases
    case hs
    with rid pr [of "''handshake''" HandshakeSchema] obj(1) typed_type [OF c'] show ?thesis
      by (auto simp: v server_message_def wf_message_def text_of_def)
  next
    case ev
    with rid pr [of "''sequence''" Sequence] conforms_uint32 typed_type [OF c'] show ?thesis
      by (auto simp: v server_message_def wf_message_def text_of_def Sequence_def)
  next
    case res
    with rid pr [of "''status''" TerminalStatus] typed_type [OF c'] show ?thesis
      by (auto simp: v server_message_def wf_message_def text_of_def TerminalStatus_def)
  next
    case err
    with typed_optional [OF c'] pr [of "''error''" BridgeError] obj(2) typed_type [OF c'] show ?thesis
      by (auto simp: v server_message_def wf_message_def)
  next
    case app
    with rid pr [of "''approval''" ApprovalRequest] obj(3) typed_type [OF c'] show ?thesis
      by (auto simp: v server_message_def wf_message_def text_of_def)
  next
    case bp
    have cap: "\<exists>i. get_prop ob ''capacity'' = jint i \<and> 1 \<le> i \<and> i \<le> 4294967295"
      using pr [of "''capacity''"] bp by (intro conforms_int) simp
    have st: "get_prop ob ''state'' = JStr ''paused'' \<or> get_prop ob ''state'' = JStr ''resumed''"
      using pr [of "''state''" "literals [''paused'', ''resumed'']"] bp by simp
    have "uint32 (int_of (get_prop ob ''pendingEvents''))"
      using pr [of "''pendingEvents''" UINT32] bp by (intro conforms_uint32) simp
    with cap st typed_optional [OF c'] bp typed_type [OF c'] show ?thesis
      by (auto simp: v server_message_def wf_message_def text_of_def int_of_def uint32_def)
  qed
qed

context schema_checker
begin

lemma decoded_message:
  assumes "decodeServerFrame check parse frame = Inr v"
  shows "\<exists>m. server_message v = Some m \<and> wf_message m"
  using assms conforming_message
  by (auto simp: decodeServerFrame_def check_conforms Let_def split: if_splits option.splits)

end

interpretation reference_checker: schema_checker conforms
  by unfold_locales simp

section \<open>Properties\<close>


text \<open>
  Bounded memory. Whatever chunks are pushed, in whatever order and whatever errors occur, the decoder
  holds at most one byte more than the frame limit, and its byte count is the length of what it holds.
\<close>

theorem decoder_bounded:
  "let dec = fold (\<lambda>c dec. snd (push decode c dec)) cs new_decoder in
     pendingBytes dec = length (concat (chunks dec)) \<and> pendingBytes dec \<le> MAX_FRAME_BYTES + 1"
proof -
  have "decoder_inv dec \<Longrightarrow> decoder_inv (fold (\<lambda>c dec. snd (push decode c dec)) cs dec)" for dec
    by (induction cs arbitrary: dec) (simp_all add: push_byte_run)
  from this [OF decoder_inv_new(1)] show ?thesis by (auto simp: decoder_inv_def too_large_def Let_def)
qed

text \<open>
  C18: Typed frames. Given the contract of the schema validator, a decoded frame is one of the six server
  messages, with a request id of 1 to 256 characters, sequence numbers and counters that fit in
  32 bits and a known status; everything else is refused as an error.
\<close>

theorem decoded_frame_typed:
  assumes "schema_checker check"
  shows "case decodeServerFrame check parse frame of
     Inr v \<Rightarrow> \<exists>m. server_message v = Some m \<and> wf_message m
   | Inl code \<Rightarrow> code \<in> {EmptyFrame, FrameTooLarge, MultipleFrames, InvalidFrame}"
proof (cases "decodeServerFrame check parse frame")
  case (Inl code)
  then show ?thesis
    by (auto simp: decodeServerFrame_def Let_def split: if_splits option.splits)
next
  case (Inr v)
  with schema_checker.decoded_message [OF assms this] show ?thesis by simp
qed

definition sample_result :: js where
  "sample_result = JObj [(''type'', JStr ''result''), (''requestId'', JStr ''r''),
     (''status'', JStr ''completed''), (''result'', JNull)]"

theorem decoded_frame_typed_witness:
  "decodeServerFrame conforms (\<lambda>_. Some sample_result) [123, 125, 10] = Inr sample_result \<and>
   (\<exists>m. server_message sample_result = Some m \<and> wf_message m)"
proof -
  have dec: "decodeServerFrame conforms (\<lambda>_. Some sample_result) [123, 125, 10] = Inr sample_result"
    by (simp add: decodeServerFrame_def stripLineTerminator_def last_byte_def MAX_FRAME_BYTES_def
        sample_result_def ServerMessageSchema_def typed_def RequestId_def TerminalStatus_def literals_def
        hasOwn_def)
  with decoded_frame_typed [OF reference_checker.schema_checker_axioms,
      of "\<lambda>_. Some sample_result" "[123, 125, 10]"]
  show ?thesis by simp
qed

text \<open>
  Handshake identity. A handshake is accepted exactly when every pinned field has the value of the
  product, the build is a release build (or a development build where that is allowed), and the
  build source is the one of the package where one is expected.
\<close>

theorem handshake_accepted_iff:
  "verifyHandshake h target o1 = Inr () \<longleftrightarrow>
     get_prop h ''bridgeProtocolVersion'' = jint 8 \<and>
     get_prop h ''officialCodexVersion'' = JStr OFFICIAL_CODEX_VERSION \<and>
     get_prop h ''officialCodexTag'' = JStr OFFICIAL_CODEX_TAG \<and>
     get_prop h ''officialSourceCommit'' = JStr OFFICIAL_SOURCE_COMMIT \<and>
     get_prop h ''buildTarget'' = JStr target \<and>
     get_prop h ''vendorTreeSha256'' = JStr VENDOR_TREE_SHA256 \<and>
     get_prop h ''maxFrameBytes'' = jint 16777216 \<and>
     get_prop h ''maxPendingEvents'' = jint 256 \<and>
     (get_prop h ''buildSourceCommit'' = JStr ''development'' \<and> allowDevelopmentBuild o1 \<or>
      (\<exists>c. get_prop h ''buildSourceCommit'' = JStr c \<and> hex_string 40 c)) \<and>
     (case expectedBuildSourceCommit o1 of None \<Rightarrow> True
      | Some c \<Rightarrow> get_prop h ''buildSourceCommit'' = JStr c)"
proof -
  have dev: "\<not> hex_string 40 ''development''" by (simp add: hex_string_def)
  have hex: "conforms (SHex 40) x \<longleftrightarrow> (\<exists>c. x = JStr c \<and> hex_string 40 c)" for x by (cases x) auto
  have fields: "find (\<lambda>fe. get_prop h (fst fe) \<noteq> snd fe) (expected_fields target) = None \<longleftrightarrow>
     (\<forall>fe \<in> set (expected_fields target). get_prop h (fst fe) = snd fe)"
    by (auto simp: find_None_iff)
  show ?thesis
    unfolding verifyHandshake_def Let_def hex
    using fields dev
    by (auto simp: expected_fields_def BRIDGE_PROTOCOL_VERSION_def MAX_FRAME_BYTES_def MAX_PENDING_EVENTS_def
        split: option.splits)
qed

end
