(* ===== verification/Bridge_Client.thy ===== *)
theory Bridge_Client
  imports Bridge_Protocol
begin

text \<open>
  The bridge client of \<open>src/src/infrastructure/codex-bridge/client.ts\<close> as a state machine. The state
  keeps the fields of the class, and histories that no operation reads: the requests registered, the
  promises settled, the frames written, the events received and the handshake of the peer. Event handlers run asynchronously: the
  \<open>eventChain\<close> of a request is a queue of jobs, and a step of the environment runs the job at its
  head. Timers, abort signals, write failures, the end of the output and the exit of the process are
  steps of the environment too, so the theorems hold for every interleaving of them.

  The invariant shows that every request is settled exactly once, that nothing is pending once the
  connection is closed, that no request is sent before the handshake was verified, and that events
  are acknowledged in the order in which they arrived, each after its handler returned.
\<close>

section \<open>State\<close>

datatype connection_code =
    ConnectionClosed | ControlTimeout | EventHandlerFailed | HandshakeTimeout | ProtocolFailure | WriteFailed

datatype client_error =
    ConnectionError connection_code
  | RemoteError js_object
  | AbortError

datatype outcome = Resolved string js | Rejected client_error

text \<open>A \<open>PendingRequest\<close>: its kind says which of the clean-up callbacks it has.\<close>

record PendingRequest =
  pr_control :: bool
  pr_signal :: bool

datatype ClientMessage =
    CInitialize string
  | CRequest string string js
  | CCancel string string
  | CApprovalDecision string string string
  | CSessionWrite string string string string
  | CSessionResize string string jsnum jsnum
  | CSessionTerminate string string
  | CAcknowledge string int
  | CShutdown string

datatype job =
    JobEvent int js
  | JobApproval js_object
  | JobBackpressure string int
  | JobResult string js

datatype handshake_state =
    HsNone | HsWaiting string | HsResolved js_object | HsRejected client_error

record client =
  c_decoder :: ServerFrameDecoder
  c_pending :: "(string \<times> PendingRequest) list"
  c_ignored :: "string list"
  c_handshake :: handshake_state
  c_ready :: bool
  c_closing :: bool
  c_closed :: bool
  c_shutdown :: "string option"
  c_transport_closed :: bool
  c_jobs :: "string \<Rightarrow> job list"
  c_settled :: "(string \<times> outcome) list"
  c_sent :: "ClientMessage list"
  c_events :: "(string \<times> int) list"
  c_registered :: "string list"
  c_peer :: "js_object option"

record client_env =
  env_decode :: "bytes \<Rightarrow> (protocol_code, js) result"
  env_encodes :: "ClientMessage \<Rightarrow> bool"
  env_target :: string
  env_options :: HandshakeVerificationOptions

definition new_client :: client where
  "new_client = \<lparr>c_decoder = new_decoder, c_pending = [], c_ignored = [], c_handshake = HsNone,
     c_ready = False, c_closing = False, c_closed = False, c_shutdown = None, c_transport_closed = False,
     c_jobs = (\<lambda>_. []), c_settled = [], c_sent = [], c_events = [], c_registered = [],
     c_peer = None\<rparr>"

section \<open>Settling\<close>

definition delete_key :: "string \<Rightarrow> (string \<times> 'a) list \<Rightarrow> (string \<times> 'a) list" where
  "delete_key k m = filter (\<lambda>e. fst e \<noteq> k) m"

definition settle_pending :: "string \<Rightarrow> outcome \<Rightarrow> client \<Rightarrow> client" where
  "settle_pending rid out c =
    (case map_of (c_pending c) rid of
       None \<Rightarrow> c
     | Some _ \<Rightarrow> c\<lparr>c_pending := delete_key rid (c_pending c), c_settled := c_settled c @ [(rid, out)]\<rparr>)"

definition resolvePending :: "string \<Rightarrow> string \<Rightarrow> js \<Rightarrow> client \<Rightarrow> client" where
  "resolvePending rid status result c = settle_pending rid (Resolved status result) c"

definition rejectPending :: "string \<Rightarrow> client_error \<Rightarrow> client \<Rightarrow> client" where
  "rejectPending rid e c = settle_pending rid (Rejected e) c"

definition reject_handshake :: "client_error \<Rightarrow> client \<Rightarrow> client" where
  "reject_handshake e c = (case c_handshake c of
     HsWaiting _ \<Rightarrow> c\<lparr>c_handshake := HsRejected e\<rparr> | _ \<Rightarrow> c)"

definition rejectAll :: "client_error \<Rightarrow> client \<Rightarrow> client" where
  "rejectAll e c = fold (\<lambda>rid. rejectPending rid e) (map fst (c_pending c)) (reject_handshake e c)"

definition fail :: "client_error \<Rightarrow> client \<Rightarrow> client" where
  "fail e c =
    (if c_closed c then c
     else (rejectAll e (c\<lparr>c_closed := True, c_ready := False\<rparr>))\<lparr>c_transport_closed := True\<rparr>)"

definition close :: "client \<Rightarrow> client" where
  "close c =
    (if c_closed c then c
     else rejectAll (ConnectionError ConnectionClosed)
       (c\<lparr>c_closing := True, c_closed := True, c_ready := False, c_transport_closed := True\<rparr>))"

definition MAX_IGNORED :: nat where "MAX_IGNORED = 65536"

definition ignoreLateMessages :: "string \<Rightarrow> client \<Rightarrow> client" where
  "ignoreLateMessages rid c =
    (if rid \<notin> set (c_ignored c) \<and> MAX_IGNORED \<le> length (c_ignored c)
     then fail (ConnectionError ConnectionClosed) c
     else if rid \<in> set (c_ignored c) then c else c\<lparr>c_ignored := c_ignored c @ [rid]\<rparr>)"

section \<open>Requests\<close>

definition isReady :: "client \<Rightarrow> bool" where
  "isReady c \<longleftrightarrow> c_ready c \<and> \<not> c_closed c"

definition requireReady :: "client \<Rightarrow> bool" where
  "requireReady c \<longleftrightarrow> isReady c \<and> \<not> c_closing c"

definition requireReadyOrClosing :: "client \<Rightarrow> bool" where
  "requireReadyOrClosing c \<longleftrightarrow> \<not> ((\<not> c_ready c \<and> \<not> c_closing c) \<or> c_closed c)"

text \<open>
  The synchronous part of \<open>#write\<close>: an error, or a frame handed to the stream. A write that fails
  later is a step of its own.
\<close>

definition write_message :: "client_env \<Rightarrow> ClientMessage \<Rightarrow> client \<Rightarrow> (client_error, unit) result \<times> client" where
  "write_message env m c =
    (if c_closed c then (Inl (ConnectionError ConnectionClosed), c)
     else if \<not> env_encodes env m then (Inl (ConnectionError ProtocolFailure), c)
     else (Inr (), c\<lparr>c_sent := c_sent c @ [m]\<rparr>))"

definition register :: "string \<Rightarrow> PendingRequest \<Rightarrow> client \<Rightarrow> client" where
  "register rid p c = c\<lparr>c_pending := c_pending c @ [(rid, p)], c_registered := c_registered c @ [rid]\<rparr>"

text \<open>\<open>void this.#write(...).catch((error) => this.#rejectPending(requestId, toError(error)))\<close>.\<close>

definition write_or_reject :: "client_env \<Rightarrow> string \<Rightarrow> ClientMessage \<Rightarrow> client \<Rightarrow> client" where
  "write_or_reject env rid m c = (case write_message env m c of
     (Inl e, c') \<Rightarrow> rejectPending rid e c' | (Inr _, c') \<Rightarrow> c')"

definition request ::
  "client_env \<Rightarrow> string \<Rightarrow> string \<Rightarrow> js \<Rightarrow> bool \<Rightarrow> bool \<Rightarrow> client \<Rightarrow> (client_error, unit) result \<times> client" where
  "request env rid method params has_signal aborted c =
    (if \<not> requireReady c then (Inl (ConnectionError ConnectionClosed), c)
     else if has_signal \<and> aborted then (Inl AbortError, c)
     else (Inr (), write_or_reject env rid (CRequest rid method params)
       (register rid \<lparr>pr_control = False, pr_signal = has_signal\<rparr> c)))"

definition controlRequest ::
  "client_env \<Rightarrow> string \<Rightarrow> ClientMessage \<Rightarrow> bool \<Rightarrow> bool \<Rightarrow> bool \<Rightarrow> client \<Rightarrow>
     (client_error, unit) result \<times> client" where
  "controlRequest env rid m has_signal aborted allowClosing c =
    (if \<not> (if allowClosing then requireReadyOrClosing c else requireReady c)
     then (Inl (ConnectionError ConnectionClosed), c)
     else if has_signal \<and> aborted then (Inl AbortError, c)
     else (Inr (), write_or_reject env rid m (register rid \<lparr>pr_control = True, pr_signal = has_signal\<rparr> c)))"

definition cancel ::
  "client_env \<Rightarrow> string \<Rightarrow> string \<Rightarrow> bool \<Rightarrow> bool \<Rightarrow> client \<Rightarrow> (client_error, unit) result \<times> client" where
  "cancel env rid target has_signal aborted = controlRequest env rid (CCancel rid target) has_signal aborted False"

definition decideApproval ::
  "client_env \<Rightarrow> string \<Rightarrow> string \<Rightarrow> string \<Rightarrow> bool \<Rightarrow> bool \<Rightarrow> client \<Rightarrow> (client_error, unit) result \<times> client" where
  "decideApproval env rid approvalId decision has_signal aborted =
     controlRequest env rid (CApprovalDecision rid approvalId decision) has_signal aborted False"

definition writeSession ::
  "client_env \<Rightarrow> string \<Rightarrow> string \<Rightarrow> string \<Rightarrow> string \<Rightarrow> bool \<Rightarrow> bool \<Rightarrow> client \<Rightarrow> (client_error, unit) result \<times> client" where
  "writeSession env rid sessionId payload policy has_signal aborted =
     controlRequest env rid (CSessionWrite rid sessionId policy payload) has_signal aborted False"

definition resizeSession ::
  "client_env \<Rightarrow> string \<Rightarrow> string \<Rightarrow> jsnum \<Rightarrow> jsnum \<Rightarrow> bool \<Rightarrow> bool \<Rightarrow> client \<Rightarrow> (client_error, unit) result \<times> client" where
  "resizeSession env rid sessionId columns rows has_signal aborted =
     controlRequest env rid (CSessionResize rid sessionId columns rows) has_signal aborted False"

definition terminateSession ::
  "client_env \<Rightarrow> string \<Rightarrow> string \<Rightarrow> bool \<Rightarrow> bool \<Rightarrow> client \<Rightarrow> (client_error, unit) result \<times> client" where
  "terminateSession env rid sessionId has_signal aborted =
     controlRequest env rid (CSessionTerminate rid sessionId) has_signal aborted False"

text \<open>
  What \<open>cancel\<close> and \<open>#completedControlRequest\<close> make of the settled control request: a status other than
  \<open>completed\<close> is an error.
\<close>

definition completedControlRequest :: "outcome \<Rightarrow> outcome" where
  "completedControlRequest out = (case out of
     Resolved status result \<Rightarrow>
       if status \<noteq> ''completed'' then Rejected (ConnectionError ProtocolFailure) else Resolved status result
   | Rejected e \<Rightarrow> Rejected e)"

text \<open>
  \<open>shutdown\<close>: the first call starts the control request; when that throws at once, the
  \<open>finally\<close> block closes the client. \<open>shutdown_done\<close> is that block, run when the control request
  settles.
\<close>

definition shutdown :: "client_env \<Rightarrow> string \<Rightarrow> bool \<Rightarrow> bool \<Rightarrow> client \<Rightarrow> client" where
  "shutdown env rid has_signal aborted c =
    (if c_closed c then c
     else if c_shutdown c \<noteq> None then c
     else case controlRequest env rid (CShutdown rid) has_signal aborted True
         (c\<lparr>c_closing := True, c_shutdown := Some rid\<rparr>) of
       (Inl _, c') \<Rightarrow> close c' | (Inr _, c') \<Rightarrow> c')"

definition shutdown_done :: "client \<Rightarrow> client" where
  "shutdown_done c = close c"

text \<open>The abort listeners and the timer of a request.\<close>

definition abort_request :: "client_env \<Rightarrow> string \<Rightarrow> string \<Rightarrow> client \<Rightarrow> client" where
  "abort_request env rid cancelId c =
     snd (cancel env cancelId rid False False (ignoreLateMessages rid (rejectPending rid AbortError c)))"

definition abort_control :: "string \<Rightarrow> client \<Rightarrow> client" where
  "abort_control rid c = ignoreLateMessages rid (rejectPending rid AbortError c)"

definition control_timeout :: "string \<Rightarrow> client \<Rightarrow> client" where
  "control_timeout rid c =
     ignoreLateMessages rid (rejectPending rid (ConnectionError ControlTimeout) c)"

definition resolveControlTimeoutMs :: "jsnum option \<Rightarrow> jsnum option \<Rightarrow> jsnum" where
  "resolveControlTimeoutMs requested configured =
    (case find (\<lambda>v. case v of None \<Rightarrow> False | Some n \<Rightarrow> isSafeInteger n \<and> num_less (Fin 0) n)
        [requested, configured] of
       Some (Some n) \<Rightarrow> n | _ \<Rightarrow> Fin 30000)"

section \<open>Initialisation\<close>

definition initialize :: "client_env \<Rightarrow> string \<Rightarrow> client \<Rightarrow> client" where
  "initialize env rid c =
    (let c1 = c\<lparr>c_handshake := HsWaiting rid\<rparr> in
     case write_message env (CInitialize rid) c1 of
       (Inl e, c2) \<Rightarrow> fail e (c2\<lparr>c_handshake := HsNone\<rparr>)
     | (Inr _, c2) \<Rightarrow> c2)"

text \<open>The code after \<open>await handshake\<close>, and the \<open>catch\<close> of \<open>connect\<close>.\<close>

definition initialize_continue :: "client \<Rightarrow> client" where
  "initialize_continue c = (case c_handshake c of
     HsResolved h \<Rightarrow> c\<lparr>c_ready := True, c_handshake := HsNone, c_peer := Some h\<rparr>
   | HsRejected e \<Rightarrow> fail e (c\<lparr>c_handshake := HsNone\<rparr>)
   | _ \<Rightarrow> c)"

definition handshake_timeout :: "client \<Rightarrow> client" where
  "handshake_timeout c = reject_handshake (ConnectionError HandshakeTimeout) c"

definition routeHandshake :: "client_env \<Rightarrow> ServerMessage \<Rightarrow> client \<Rightarrow> client" where
  "routeHandshake env m c =
    (case c_handshake c of
       HsNone \<Rightarrow> fail (ConnectionError ProtocolFailure) c
     | HsWaiting rid \<Rightarrow>
         (case m of
            MsgError r e \<Rightarrow>
              if r = Some rid then reject_handshake (RemoteError e) c
              else reject_handshake (ConnectionError ProtocolFailure) c
          | MsgHandshake r h \<Rightarrow>
              if r \<noteq> rid then reject_handshake (ConnectionError ProtocolFailure) c
              else (case verifyHandshake h (env_target env) (env_options env) of
                  Inr _ \<Rightarrow> c\<lparr>c_handshake := HsResolved h\<rparr>
                | Inl _ \<Rightarrow> reject_handshake (ConnectionError ProtocolFailure) c)
          | _ \<Rightarrow> reject_handshake (ConnectionError ProtocolFailure) c)
     | _ \<Rightarrow> c)"

section \<open>Routing\<close>

definition enqueueHandler :: "string \<Rightarrow> job \<Rightarrow> client \<Rightarrow> client" where
  "enqueueHandler rid j c = c\<lparr>c_jobs := (c_jobs c)(rid := c_jobs c rid @ [j])\<rparr>"

definition message_request :: "ServerMessage \<Rightarrow> string option" where
  "message_request m = (case m of
     MsgHandshake r _ \<Rightarrow> Some r | MsgEvent r _ _ \<Rightarrow> Some r | MsgResult r _ _ \<Rightarrow> Some r
   | MsgError r _ \<Rightarrow> r | MsgApproval r _ \<Rightarrow> Some r | MsgBackpressure r _ _ _ \<Rightarrow> r)"

definition is_terminal :: "ServerMessage \<Rightarrow> bool" where
  "is_terminal m = (case m of MsgResult _ _ _ \<Rightarrow> True | MsgError _ _ \<Rightarrow> True | _ \<Rightarrow> False)"

definition route :: "client_env \<Rightarrow> ServerMessage \<Rightarrow> client \<Rightarrow> client" where
  "route env m c =
    (if \<not> c_ready c then routeHandshake env m c
     else (case m of
       MsgHandshake _ _ \<Rightarrow> fail (ConnectionError ProtocolFailure) c
     | _ \<Rightarrow>
       (case message_request m of
          None \<Rightarrow> (case m of MsgError _ e \<Rightarrow> fail (RemoteError e) c
            | _ \<Rightarrow> fail (ConnectionError ProtocolFailure) c)
        | Some rid \<Rightarrow>
            if rid \<in> set (c_ignored c) then
              (if is_terminal m then c\<lparr>c_ignored := filter (\<lambda>r. r \<noteq> rid) (c_ignored c)\<rparr> else c)
            else (case m of
                MsgError _ e \<Rightarrow> rejectPending rid (RemoteError e) c
              | _ \<Rightarrow>
                (case map_of (c_pending c) rid of
                   None \<Rightarrow> fail (ConnectionError ProtocolFailure) c
                 | Some _ \<Rightarrow>
                   (case m of
                      MsgEvent _ n ev \<Rightarrow>
                        enqueueHandler rid (JobEvent n ev) (c\<lparr>c_events := c_events c @ [(rid, n)]\<rparr>)
                    | MsgApproval _ a \<Rightarrow> enqueueHandler rid (JobApproval a) c
                    | MsgBackpressure _ st n _ \<Rightarrow> enqueueHandler rid (JobBackpressure st n) c
                    | MsgResult _ st res \<Rightarrow> enqueueHandler rid (JobResult st res) c
                    | _ \<Rightarrow> c))))))"

definition route_value :: "client_env \<Rightarrow> js \<Rightarrow> client \<Rightarrow> client" where
  "route_value env v c = (case server_message v of None \<Rightarrow> c | Some m \<Rightarrow> route env m c)"

definition receive :: "client_env \<Rightarrow> bytes \<Rightarrow> client \<Rightarrow> client" where
  "receive env chunk c =
    (if c_closed c then c
     else (case push (env_decode env) chunk (c_decoder c) of
         (Inl _, dec) \<Rightarrow> fail (ConnectionError ProtocolFailure) (c\<lparr>c_decoder := dec\<rparr>)
       | (Inr vs, dec) \<Rightarrow> fold (route_value env) vs (c\<lparr>c_decoder := dec\<rparr>)))"

definition outputEnded :: "client \<Rightarrow> client" where
  "outputEnded c = (case finish (c_decoder c) of
     (Inl _, dec) \<Rightarrow> fail (ConnectionError ProtocolFailure) (c\<lparr>c_decoder := dec\<rparr>)
   | (Inr _, dec) \<Rightarrow> fail (ConnectionError ConnectionClosed) (c\<lparr>c_decoder := dec\<rparr>))"

definition transportClosed :: "client \<Rightarrow> client" where
  "transportClosed c = fail (ConnectionError ConnectionClosed) c"

text \<open>
  One turn of the event chain of a request; \<open>ok\<close> says whether the user's handler succeeded. After
  the handler of an event the client acknowledges it, and any error closes the connection.
\<close>

definition run_job :: "client_env \<Rightarrow> string \<Rightarrow> bool \<Rightarrow> client \<Rightarrow> client" where
  "run_job env rid ok c =
    (case c_jobs c rid of
       [] \<Rightarrow> c
     | j # js \<Rightarrow>
       (let c1 = c\<lparr>c_jobs := (c_jobs c)(rid := js)\<rparr> in
        case j of
          JobResult st res \<Rightarrow> resolvePending rid st res c1
        | JobEvent n _ \<Rightarrow>
            if \<not> ok then fail (ConnectionError EventHandlerFailed) c1
            else (case write_message env (CAcknowledge rid n) c1 of
                (Inl _, c2) \<Rightarrow> fail (ConnectionError EventHandlerFailed) c2
              | (Inr _, c2) \<Rightarrow> c2)
        | _ \<Rightarrow> if ok then c1 else fail (ConnectionError EventHandlerFailed) c1))"

section \<open>Steps\<close>

text \<open>
  The operations of the class are available once \<open>connect\<close> has returned the client, which is when a
  peer is known. Request ids are UUIDs: they are new.
\<close>

definition connected :: "client \<Rightarrow> bool" where
  "connected c \<longleftrightarrow> c_peer c \<noteq> None"

definition fresh_id :: "string \<Rightarrow> client \<Rightarrow> bool" where
  "fresh_id rid c \<longleftrightarrow> rid \<notin> set (c_registered c)"

inductive client_step :: "client_env \<Rightarrow> client \<Rightarrow> client \<Rightarrow> bool" for env where
  continue: "client_step env c (initialize_continue c)"
| hs_timeout: "client_step env c (handshake_timeout c)"
| init_write_failed: "c_handshake c = HsWaiting rid \<Longrightarrow>
    client_step env c (fail (ConnectionError WriteFailed) (c\<lparr>c_handshake := HsNone\<rparr>))"
| receive: "client_step env c (receive env chunk c)"
| output_ended: "client_step env c (outputEnded c)"
| transport_closed: "client_step env c (transportClosed c)"
| job: "client_step env c (run_job env rid ok c)"
| ack_failed: "client_step env c (fail (ConnectionError EventHandlerFailed) c)"
| write_failed: "client_step env c (rejectPending rid (ConnectionError WriteFailed) c)"
| request: "connected c \<Longrightarrow> fresh_id rid c \<Longrightarrow>
    client_step env c (snd (request env rid m ps has_signal aborted c))"
| cancel: "connected c \<Longrightarrow> fresh_id rid c \<Longrightarrow>
    client_step env c (snd (cancel env rid target has_signal aborted c))"
| approval: "connected c \<Longrightarrow> fresh_id rid c \<Longrightarrow>
    client_step env c (snd (decideApproval env rid a d has_signal aborted c))"
| session_write: "connected c \<Longrightarrow> fresh_id rid c \<Longrightarrow>
    client_step env c (snd (writeSession env rid sid payload policy has_signal aborted c))"
| session_resize: "connected c \<Longrightarrow> fresh_id rid c \<Longrightarrow>
    client_step env c (snd (resizeSession env rid sid columns rows has_signal aborted c))"
| session_terminate: "connected c \<Longrightarrow> fresh_id rid c \<Longrightarrow>
    client_step env c (snd (terminateSession env rid sid has_signal aborted c))"
| shutdown: "connected c \<Longrightarrow> fresh_id rid c \<Longrightarrow>
    client_step env c (shutdown env rid has_signal aborted c)"
| shutdown_done: "c_shutdown c = Some rid \<Longrightarrow> rid \<in> fst ` set (c_settled c) \<Longrightarrow>
    client_step env c (shutdown_done c)"
| close: "connected c \<Longrightarrow> client_step env c (close c)"
| abort_request: "map_of (c_pending c) rid = Some p \<Longrightarrow> pr_signal p \<Longrightarrow> \<not> pr_control p \<Longrightarrow>
    fresh_id cid c \<Longrightarrow> client_step env c (abort_request env rid cid c)"
| abort_control: "map_of (c_pending c) rid = Some p \<Longrightarrow> pr_signal p \<Longrightarrow> pr_control p \<Longrightarrow>
    client_step env c (abort_control rid c)"
| timeout: "map_of (c_pending c) rid = Some p \<Longrightarrow> pr_control p \<Longrightarrow> client_step env c (control_timeout rid c)"

inductive client_reachable :: "client_env \<Rightarrow> client \<Rightarrow> bool" for env where
  start: "client_reachable env (initialize env rid new_client)"
| step: "client_reachable env c \<Longrightarrow> client_step env c c' \<Longrightarrow> client_reachable env c'"

section \<open>Frames of the operations\<close>

named_theorems client_frame \<open>fields an operation leaves unchanged\<close>

lemma settle_pending_frame [client_frame]:
  "c_sent (settle_pending rid out c) = c_sent c" "c_events (settle_pending rid out c) = c_events c"
  "c_jobs (settle_pending rid out c) = c_jobs c" "c_peer (settle_pending rid out c) = c_peer c"
  "c_registered (settle_pending rid out c) = c_registered c" "c_closed (settle_pending rid out c) = c_closed c"
  "c_ready (settle_pending rid out c) = c_ready c" "c_ignored (settle_pending rid out c) = c_ignored c"
  "c_handshake (settle_pending rid out c) = c_handshake c" "c_closing (settle_pending rid out c) = c_closing c"
  by (simp_all add: settle_pending_def split: option.split)

lemma rejectPending_frame [client_frame]:
  "c_sent (rejectPending rid e c) = c_sent c" "c_events (rejectPending rid e c) = c_events c"
  "c_jobs (rejectPending rid e c) = c_jobs c" "c_peer (rejectPending rid e c) = c_peer c"
  "c_registered (rejectPending rid e c) = c_registered c" "c_closed (rejectPending rid e c) = c_closed c"
  "c_ready (rejectPending rid e c) = c_ready c" "c_ignored (rejectPending rid e c) = c_ignored c"
  "c_handshake (rejectPending rid e c) = c_handshake c" "c_closing (rejectPending rid e c) = c_closing c"
  by (simp_all add: rejectPending_def client_frame)

lemma reject_handshake_frame [client_frame]:
  "c_sent (reject_handshake e c) = c_sent c" "c_events (reject_handshake e c) = c_events c"
  "c_jobs (reject_handshake e c) = c_jobs c" "c_peer (reject_handshake e c) = c_peer c"
  "c_registered (reject_handshake e c) = c_registered c" "c_closed (reject_handshake e c) = c_closed c"
  "c_ready (reject_handshake e c) = c_ready c" "c_ignored (reject_handshake e c) = c_ignored c"
  "c_pending (reject_handshake e c) = c_pending c" "c_settled (reject_handshake e c) = c_settled c"
  by (simp_all add: reject_handshake_def split: handshake_state.split)

lemma reject_fold_frame:
  "c_sent (fold (\<lambda>rid. rejectPending rid e) rs c) = c_sent c"
  "c_events (fold (\<lambda>rid. rejectPending rid e) rs c) = c_events c"
  "c_jobs (fold (\<lambda>rid. rejectPending rid e) rs c) = c_jobs c"
  "c_peer (fold (\<lambda>rid. rejectPending rid e) rs c) = c_peer c"
  "c_registered (fold (\<lambda>rid. rejectPending rid e) rs c) = c_registered c"
  "c_closed (fold (\<lambda>rid. rejectPending rid e) rs c) = c_closed c"
  "c_ready (fold (\<lambda>rid. rejectPending rid e) rs c) = c_ready c"
  "c_ignored (fold (\<lambda>rid. rejectPending rid e) rs c) = c_ignored c"
  "c_handshake (fold (\<lambda>rid. rejectPending rid e) rs c) = c_handshake c"
  by (induction rs arbitrary: c) (simp_all add: client_frame)

lemma rejectAll_frame [client_frame]:
  "c_sent (rejectAll e c) = c_sent c" "c_events (rejectAll e c) = c_events c"
  "c_jobs (rejectAll e c) = c_jobs c" "c_peer (rejectAll e c) = c_peer c"
  "c_registered (rejectAll e c) = c_registered c" "c_closed (rejectAll e c) = c_closed c"
  "c_ready (rejectAll e c) = c_ready c" "c_ignored (rejectAll e c) = c_ignored c"
  "c_handshake (rejectAll e c) = c_handshake (reject_handshake e c)"
  by (simp_all add: rejectAll_def reject_fold_frame client_frame)

lemma fail_frame [client_frame]:
  "c_sent (fail e c) = c_sent c" "c_events (fail e c) = c_events c"
  "c_jobs (fail e c) = c_jobs c" "c_peer (fail e c) = c_peer c"
  "c_registered (fail e c) = c_registered c" "c_closed (fail e c)"
  "c_ignored (fail e c) = c_ignored c"
  by (simp_all add: fail_def client_frame)

lemma close_frame [client_frame]:
  "c_sent (close c) = c_sent c" "c_events (close c) = c_events c"
  "c_jobs (close c) = c_jobs c" "c_peer (close c) = c_peer c"
  "c_registered (close c) = c_registered c" "c_closed (close c)" "c_ignored (close c) = c_ignored c"
  by (simp_all add: close_def client_frame)

lemma ignoreLate_frame [client_frame]:
  "c_sent (ignoreLateMessages rid c) = c_sent c" "c_events (ignoreLateMessages rid c) = c_events c"
  "c_jobs (ignoreLateMessages rid c) = c_jobs c" "c_peer (ignoreLateMessages rid c) = c_peer c"
  "c_registered (ignoreLateMessages rid c) = c_registered c"
  by (simp_all add: ignoreLateMessages_def client_frame)

section \<open>Settlement\<close>

text \<open>Every registered request is pending or settled, never both, and settled at most once.\<close>

definition settlement_inv :: "client \<Rightarrow> bool" where
  "settlement_inv c \<longleftrightarrow> distinct (map fst (c_pending c)) \<and> distinct (map fst (c_settled c)) \<and>
     fst ` set (c_pending c) \<inter> fst ` set (c_settled c) = {} \<and>
     set (c_registered c) = fst ` set (c_pending c) \<union> fst ` set (c_settled c) \<and>
     (c_closed c \<longrightarrow> c_pending c = [])"

text \<open>The same without the last clause, which fails for a moment while a connection is being closed.\<close>

definition accounted :: "client \<Rightarrow> bool" where
  "accounted c \<longleftrightarrow> distinct (map fst (c_pending c)) \<and> distinct (map fst (c_settled c)) \<and>
     fst ` set (c_pending c) \<inter> fst ` set (c_settled c) = {} \<and>
     set (c_registered c) = fst ` set (c_pending c) \<union> fst ` set (c_settled c)"

lemma settlement_inv_iff: "settlement_inv c \<longleftrightarrow> accounted c \<and> (c_closed c \<longrightarrow> c_pending c = [])"
  by (auto simp: settlement_inv_def accounted_def)

lemma delete_key_simps:
  "distinct (map fst m) \<Longrightarrow> distinct (map fst (delete_key k m))"
  "fst ` set (delete_key k m) = fst ` set m - {k}"
  "map fst (delete_key k m) = filter (\<lambda>x. x \<noteq> k) (map fst m)"
  by (auto simp: delete_key_def distinct_map filter_map o_def intro: inj_on_subset)

lemma settle_pending_accounted:
  assumes "accounted c"
  shows "accounted (settle_pending rid out c)"
proof (cases "map_of (c_pending c) rid")
  case None
  with assms show ?thesis by (simp add: settle_pending_def)
next
  case (Some p)
  then have "rid \<in> fst ` set (c_pending c)" by (metis domI dom_map_of_conv_image_fst)
  with assms Some show ?thesis
    by (auto simp: accounted_def settle_pending_def delete_key_simps)
qed

lemma settle_pending_keys:
  "map fst (c_pending (settle_pending rid out c)) = filter (\<lambda>x. x \<noteq> rid) (map fst (c_pending c))"
proof (cases "map_of (c_pending c) rid")
  case None
  then have "\<forall>x \<in> set (map fst (c_pending c)). x \<noteq> rid" by (auto simp: map_of_eq_None_iff)
  with None show ?thesis by (simp add: settle_pending_def filter_id_conv)
qed (simp add: settle_pending_def delete_key_simps)

lemma reject_fold_accounted:
  "accounted c \<Longrightarrow> accounted (fold (\<lambda>rid. rejectPending rid e) rs c)"
  by (induction rs arbitrary: c) (simp_all add: rejectPending_def settle_pending_accounted)

lemma reject_fold_keys:
  "map fst (c_pending (fold (\<lambda>rid. rejectPending rid e) rs c)) =
     filter (\<lambda>x. x \<notin> set rs) (map fst (c_pending c))"
proof (induction rs arbitrary: c)
  case (Cons r rs)
  have "map fst (c_pending (fold (\<lambda>rid. rejectPending rid e) (r # rs) c)) =
      filter (\<lambda>x. x \<notin> set rs) (map fst (c_pending (rejectPending r e c)))"
    using Cons.IH [of "rejectPending r e c"] by simp
  also have "\<dots> = filter (\<lambda>x. x \<notin> set (r # rs)) (map fst (c_pending c))"
    unfolding rejectPending_def settle_pending_keys filter_filter by (rule filter_cong) auto
  finally show ?case .
qed simp

lemma rejectAll_settles:
  "accounted c \<Longrightarrow> accounted (rejectAll e c) \<and> c_pending (rejectAll e c) = []"
proof
  assume "accounted c"
  then have "accounted (reject_handshake e c)" by (simp add: accounted_def client_frame)
  then show "accounted (rejectAll e c)" unfolding rejectAll_def by (rule reject_fold_accounted)
  have "map fst (c_pending (rejectAll e c)) = []"
    unfolding rejectAll_def reject_fold_keys by (simp add: client_frame filter_empty_conv)
  then show "c_pending (rejectAll e c) = []" by simp
qed

lemma accounted_cong:
  "c_pending c' = c_pending c \<Longrightarrow> c_settled c' = c_settled c \<Longrightarrow> c_registered c' = c_registered c \<Longrightarrow>
     accounted c' = accounted c"
  by (simp add: accounted_def)

lemma settlement_cong:
  "c_pending c' = c_pending c \<Longrightarrow> c_settled c' = c_settled c \<Longrightarrow> c_registered c' = c_registered c \<Longrightarrow>
     c_closed c' = c_closed c \<Longrightarrow> settlement_inv c' = settlement_inv c"
  by (simp add: settlement_inv_def)

lemma settlement_updates [simp]:
  "settlement_inv (c\<lparr>c_decoder := dec\<rparr>) = settlement_inv c"
  "settlement_inv (c\<lparr>c_ignored := ig\<rparr>) = settlement_inv c"
  "settlement_inv (c\<lparr>c_handshake := h\<rparr>) = settlement_inv c"
  "settlement_inv (c\<lparr>c_ready := b\<rparr>) = settlement_inv c"
  "settlement_inv (c\<lparr>c_closing := b\<rparr>) = settlement_inv c"
  "settlement_inv (c\<lparr>c_shutdown := sd\<rparr>) = settlement_inv c"
  "settlement_inv (c\<lparr>c_jobs := f\<rparr>) = settlement_inv c"
  "settlement_inv (c\<lparr>c_sent := ms\<rparr>) = settlement_inv c"
  "settlement_inv (c\<lparr>c_events := es\<rparr>) = settlement_inv c"
  "settlement_inv (c\<lparr>c_peer := pe\<rparr>) = settlement_inv c"
  by (simp_all add: settlement_inv_def)

lemma fail_settlement: "settlement_inv c \<Longrightarrow> settlement_inv (fail e c)"
  using rejectAll_settles [of "c\<lparr>c_closed := True, c_ready := False\<rparr>" e]
  by (auto simp: fail_def settlement_inv_iff accounted_def client_frame)

lemma close_settlement: "settlement_inv c \<Longrightarrow> settlement_inv (close c)"
  using rejectAll_settles [of "c\<lparr>c_closing := True, c_closed := True, c_ready := False, c_transport_closed := True\<rparr>"
      "ConnectionError ConnectionClosed"]
  by (auto simp: close_def settlement_inv_iff accounted_def client_frame)

lemma settle_settlement: "settlement_inv c \<Longrightarrow> settlement_inv (settle_pending rid out c)"
  by (auto simp: settlement_inv_iff settle_pending_accounted client_frame)
     (simp add: settle_pending_def)

lemma ignoreLate_settlement: "settlement_inv c \<Longrightarrow> settlement_inv (ignoreLateMessages rid c)"
  by (simp add: ignoreLateMessages_def fail_settlement)

lemma register_settlement:
  assumes "settlement_inv c" and "fresh_id rid c" and "\<not> c_closed c"
  shows "settlement_inv (register rid p c)"
  using assms by (auto simp: settlement_inv_def register_def fresh_id_def)

lemma write_message_cases:
  "write_message env m c = (Inr (), c\<lparr>c_sent := c_sent c @ [m]\<rparr>) \<and> \<not> c_closed c \<or>
   (\<exists>e. write_message env m c = (Inl e, c))"
  by (simp add: write_message_def)

lemma write_or_reject_settlement:
  "settlement_inv c \<Longrightarrow> settlement_inv (write_or_reject env rid m c)"
  using write_message_cases [of env m c] settle_settlement [of c]
  by (auto simp: write_or_reject_def rejectPending_def)

lemma control_settlement:
  assumes "settlement_inv c" and "fresh_id rid c"
  shows "settlement_inv (snd (controlRequest env rid m s a cl c))"
  using assms write_or_reject_settlement register_settlement
  by (auto simp: controlRequest_def requireReady_def requireReadyOrClosing_def isReady_def)

lemma request_settlement:
  assumes "settlement_inv c" and "fresh_id rid c"
  shows "settlement_inv (snd (request env rid m ps s a c))"
  using assms write_or_reject_settlement register_settlement
  by (auto simp: request_def requireReady_def isReady_def)

lemmas control_defs = cancel_def decideApproval_def writeSession_def resizeSession_def terminateSession_def

lemma shutdown_rule:
  assumes "\<And>c. P c \<Longrightarrow> P (close c)" and
    "P (snd (controlRequest env rid (CShutdown rid) has_signal aborted True (c\<lparr>c_closing := True, c_shutdown := Some rid\<rparr>)))"
    and "P c"
  shows "P (shutdown env rid has_signal aborted c)"
  using assms unfolding shutdown_def by (auto split: prod.split sum.split)

lemma shutdown_settlement:
  assumes "settlement_inv c" and "fresh_id rid c"
  shows "settlement_inv (shutdown env rid has_signal aborted c)"
proof -
  let ?c = "c\<lparr>c_closing := True, c_shutdown := Some rid\<rparr>"
  have "settlement_inv ?c" using assms(1) by (simp add: settlement_inv_def)
  then have "settlement_inv (snd (controlRequest env rid (CShutdown rid) has_signal aborted True ?c))"
    using assms(2) by (intro control_settlement) (simp_all add: fresh_id_def)
  then show ?thesis
    using assms(1) by (rule shutdown_rule [of settlement_inv, rotated]) (rule close_settlement)
qed

lemma reject_handshake_settlement: "settlement_inv c \<Longrightarrow> settlement_inv (reject_handshake e c)"
  by (simp add: settlement_inv_def client_frame)

text \<open>What a message can do to the client, as proof rules: a predicate that holds after each effect.\<close>

lemma routeHandshake_rule:
  assumes "\<And>e. P (fail e c)" and "\<And>e. P (reject_handshake e c)" and "P c"
    and "\<And>rid h. c_handshake c = HsWaiting rid \<Longrightarrow>
      verifyHandshake h (env_target env) (env_options env) = Inr () \<Longrightarrow> P (c\<lparr>c_handshake := HsResolved h\<rparr>)"
  shows "P (routeHandshake env m c)"
  unfolding routeHandshake_def using assms
  by (auto split: handshake_state.split ServerMessage.split sum.split)

lemma route_rule:
  assumes "\<And>e. P (fail e c)" and "\<not> c_ready c \<Longrightarrow> P (routeHandshake env m c)" and "P c"
    and "\<And>rid. P (c\<lparr>c_ignored := filter (\<lambda>r. r \<noteq> rid) (c_ignored c)\<rparr>)"
    and "\<And>rid e. P (rejectPending rid e c)"
    and "\<And>rid n ev. P (enqueueHandler rid (JobEvent n ev) (c\<lparr>c_events := c_events c @ [(rid, n)]\<rparr>))"
    and "\<And>rid j. (\<forall>n ev. j \<noteq> JobEvent n ev) \<Longrightarrow> P (enqueueHandler rid j c)"
  shows "P (route env m c)"
  unfolding route_def using assms
  by (auto split: ServerMessage.split option.split)

lemma receive_rule:
  assumes "P c" and "\<And>dec. P c \<Longrightarrow> P (c\<lparr>c_decoder := dec\<rparr>)" and "\<And>e c. P c \<Longrightarrow> P (fail e c)"
    and "\<And>m c. P c \<Longrightarrow> P (route env m c)"
  shows "P (receive env chunk c)"
proof -
  have "P c' \<Longrightarrow> P (fold (route_value env) vs c')" for vs c'
    by (induction vs arbitrary: c') (auto simp: route_value_def assms(4) split: option.split)
  then show ?thesis
    unfolding receive_def using assms by (auto split: prod.split sum.split)
qed

lemma run_job_rule:
  assumes "P c"
    and "\<And>st res js. c_jobs c rid = JobResult st res # js \<Longrightarrow>
      P (resolvePending rid st res (c\<lparr>c_jobs := (c_jobs c)(rid := js)\<rparr>))"
    and "\<And>e j js. c_jobs c rid = j # js \<Longrightarrow> P (fail e (c\<lparr>c_jobs := (c_jobs c)(rid := js)\<rparr>))"
    and "\<And>n ev js. c_jobs c rid = JobEvent n ev # js \<Longrightarrow> \<not> c_closed c \<Longrightarrow>
      P (c\<lparr>c_jobs := (c_jobs c)(rid := js), c_sent := c_sent c @ [CAcknowledge rid n]\<rparr>)"
    and "\<And>j js. c_jobs c rid = j # js \<Longrightarrow> (\<forall>n ev. j \<noteq> JobEvent n ev) \<Longrightarrow> P (c\<lparr>c_jobs := (c_jobs c)(rid := js)\<rparr>)"
  shows "P (run_job env rid ok c)"
proof (cases "c_jobs c rid")
  case Nil
  with assms(1) show ?thesis by (simp add: run_job_def)
next
  case (Cons j js)
  show ?thesis
  proof (cases j)
    case (JobEvent n ev)
    with Cons assms(3,4) show ?thesis by (auto simp: run_job_def Let_def write_message_def)
  qed (use Cons assms(2,3,5) in \<open>auto simp: run_job_def Let_def\<close>)
qed

lemma routeHandshake_settlement: "settlement_inv c \<Longrightarrow> settlement_inv (routeHandshake env m c)"
  by (rule routeHandshake_rule) (simp_all add: fail_settlement reject_handshake_settlement)

lemma route_settlement:
  assumes "settlement_inv c"
  shows "settlement_inv (route env m c)"
  by (rule route_rule; insert assms)
     (simp_all add: fail_settlement routeHandshake_settlement rejectPending_def settle_settlement enqueueHandler_def)

lemma receive_settlement: "settlement_inv c \<Longrightarrow> settlement_inv (receive env chunk c)"
  by (rule receive_rule) (simp_all add: fail_settlement route_settlement)

lemma run_job_settlement:
  assumes "settlement_inv c"
  shows "settlement_inv (run_job env rid ok c)"
  by (rule run_job_rule; insert assms)
     (simp_all add: fail_settlement resolvePending_def settle_settlement)

lemma initialize_continue_settlement: "settlement_inv c \<Longrightarrow> settlement_inv (initialize_continue c)"
  by (simp add: initialize_continue_def fail_settlement split: handshake_state.split)

lemma initialize_settlement: "settlement_inv (initialize env rid new_client)"
proof -
  have "settlement_inv new_client" by (simp add: settlement_inv_def new_client_def)
  then show ?thesis
    by (simp add: initialize_def write_message_def Let_def fail_settlement split: if_splits)
qed

lemma step_settlement:
  assumes "client_step env c c'" and "settlement_inv c"
  shows "settlement_inv c'"
  using assms
proof (induction rule: client_step.induct)
  case (init_write_failed c rid)
  then show ?case by (simp add: fail_settlement)
next
  case (output_ended c)
  then show ?case
    by (simp add: outputEnded_def finish_def fail_settlement)
next
  case (abort_request c rid p cid)
  have "settlement_inv (ignoreLateMessages rid (rejectPending rid AbortError c))"
    using abort_request by (simp add: ignoreLate_settlement rejectPending_def settle_settlement)
  then show ?case
    using abort_request(4)
    by (auto simp: abort_request_def cancel_def fresh_id_def client_frame intro!: control_settlement)
qed (simp_all add: initialize_continue_settlement handshake_timeout_def reject_handshake_settlement
    receive_settlement transportClosed_def fail_settlement run_job_settlement rejectPending_def settle_settlement
    request_settlement control_defs control_settlement shutdown_settlement shutdown_done_def close_settlement
    abort_control_def control_timeout_def ignoreLate_settlement)

lemma reachable_settlement: "client_reachable env c \<Longrightarrow> settlement_inv c"
  by (induction rule: client_reachable.induct) (auto intro: initialize_settlement step_settlement)

section \<open>Acknowledgements\<close>

definition acks :: "string \<Rightarrow> client \<Rightarrow> int list" where
  "acks rid c = concat (map (\<lambda>m. case m of CAcknowledge r n \<Rightarrow> if r = rid then [n] else [] | _ \<Rightarrow> []) (c_sent c))"

definition events_of :: "string \<Rightarrow> client \<Rightarrow> int list" where
  "events_of rid c = map snd (filter (\<lambda>e. fst e = rid) (c_events c))"

definition queued_events :: "string \<Rightarrow> client \<Rightarrow> int list" where
  "queued_events rid c = concat (map (\<lambda>j. case j of JobEvent n _ \<Rightarrow> [n] | _ \<Rightarrow> []) (c_jobs c rid))"

text \<open>
  The acknowledged events of a request are a prefix of those received; while the connection is open,
  the rest are exactly the events whose handlers have not returned.
\<close>

definition ack_inv :: "client \<Rightarrow> bool" where
  "ack_inv c \<longleftrightarrow> (\<forall>rid. \<exists>rest. events_of rid c = acks rid c @ rest \<and> (\<not> c_closed c \<longrightarrow> rest = queued_events rid c))"

lemma ack_inv_cong:
  assumes "c_sent c' = c_sent c" and "c_events c' = c_events c" and "c_closed c' \<or> c_jobs c' = c_jobs c"
    and "c_closed c \<longrightarrow> c_closed c'" and "ack_inv c"
  shows "ack_inv c'"
  using assms unfolding ack_inv_def acks_def events_of_def queued_events_def by metis

lemma ack_inv_sent:
  assumes "ack_inv c" and "\<forall>r n. m \<noteq> CAcknowledge r n"
  shows "ack_inv (c\<lparr>c_sent := c_sent c @ [m]\<rparr>)"
  using assms by (simp add: ack_inv_def acks_def events_of_def queued_events_def split: ClientMessage.splits)

lemma fail_ack: "ack_inv c \<Longrightarrow> ack_inv (fail e c)"
  by (rule ack_inv_cong [where c = c]) (simp_all add: client_frame)

lemma close_ack: "ack_inv c \<Longrightarrow> ack_inv (close c)"
  by (rule ack_inv_cong [where c = c]) (simp_all add: client_frame)

lemma reject_ack: "ack_inv c \<Longrightarrow> ack_inv (rejectPending rid e c)"
  by (rule ack_inv_cong [where c = c]) (simp_all add: client_frame)

lemma reject_handshake_ack: "ack_inv c \<Longrightarrow> ack_inv (reject_handshake e c)"
  by (rule ack_inv_cong [where c = c]) (simp_all add: client_frame)

lemma ack_updates [simp]:
  "ack_inv (c\<lparr>c_decoder := dec\<rparr>) = ack_inv c" "ack_inv (c\<lparr>c_ignored := ig\<rparr>) = ack_inv c"
  "ack_inv (c\<lparr>c_handshake := h\<rparr>) = ack_inv c" "ack_inv (c\<lparr>c_ready := b\<rparr>) = ack_inv c"
  "ack_inv (c\<lparr>c_closing := b\<rparr>) = ack_inv c" "ack_inv (c\<lparr>c_shutdown := sd\<rparr>) = ack_inv c"
  "ack_inv (c\<lparr>c_peer := pe\<rparr>) = ack_inv c" "ack_inv (c\<lparr>c_pending := ps\<rparr>) = ack_inv c"
  "ack_inv (c\<lparr>c_registered := rs\<rparr>) = ack_inv c"
  by (simp_all add: ack_inv_def acks_def events_of_def queued_events_def)

lemma ignoreLate_ack: "ack_inv c \<Longrightarrow> ack_inv (ignoreLateMessages rid c)"
  by (simp add: ignoreLateMessages_def fail_ack)

lemma register_ack: "ack_inv c \<Longrightarrow> ack_inv (register rid p c)"
  by (simp add: register_def)

lemma write_or_reject_ack:
  "ack_inv c \<Longrightarrow> \<forall>r n. m \<noteq> CAcknowledge r n \<Longrightarrow> ack_inv (write_or_reject env rid m c)"
  using write_message_cases [of env m c] ack_inv_sent [of c m] reject_ack [of c rid]
  by (auto simp: write_or_reject_def)

lemma control_ack:
  "ack_inv c \<Longrightarrow> \<forall>r n. m \<noteq> CAcknowledge r n \<Longrightarrow> ack_inv (snd (controlRequest env rid m s a cl c))"
  by (auto simp: controlRequest_def intro!: write_or_reject_ack register_ack)

lemma request_ack: "ack_inv c \<Longrightarrow> ack_inv (snd (request env rid m ps s a c))"
  by (auto simp: request_def intro!: write_or_reject_ack register_ack)

lemma shutdown_ack: "ack_inv c \<Longrightarrow> ack_inv (shutdown env rid has_signal aborted c)"
  by (rule shutdown_rule) (simp_all add: close_ack control_ack)

lemma enqueue_event_ack:
  "ack_inv c \<Longrightarrow> ack_inv (enqueueHandler rid (JobEvent n ev) (c\<lparr>c_events := c_events c @ [(rid, n)]\<rparr>))"
  unfolding ack_inv_def
proof
  fix r assume "\<forall>rid. \<exists>rest. events_of rid c = acks rid c @ rest \<and> (\<not> c_closed c \<longrightarrow> rest = queued_events rid c)"
  then obtain rest where "events_of r c = acks r c @ rest" "\<not> c_closed c \<longrightarrow> rest = queued_events r c" by blast
  then show "\<exists>rest. events_of r (enqueueHandler rid (JobEvent n ev) (c\<lparr>c_events := c_events c @ [(rid, n)]\<rparr>)) =
      acks r (enqueueHandler rid (JobEvent n ev) (c\<lparr>c_events := c_events c @ [(rid, n)]\<rparr>)) @ rest \<and>
      (\<not> c_closed (enqueueHandler rid (JobEvent n ev) (c\<lparr>c_events := c_events c @ [(rid, n)]\<rparr>)) \<longrightarrow>
        rest = queued_events r (enqueueHandler rid (JobEvent n ev) (c\<lparr>c_events := c_events c @ [(rid, n)]\<rparr>)))"
    by (intro exI [of _ "rest @ (if r = rid then [n] else [])"])
       (auto simp: enqueueHandler_def events_of_def acks_def queued_events_def)
qed

lemma queued_other:
  assumes "\<forall>n ev. j \<noteq> JobEvent n ev"
  shows "queued_events r (enqueueHandler rid j c) = queued_events r c"
    and "c_jobs c rid = j # js \<Longrightarrow> queued_events r (c\<lparr>c_jobs := (c_jobs c)(rid := js)\<rparr>) = queued_events r c"
  using assms by (auto simp: enqueueHandler_def queued_events_def split: job.splits)

lemma ack_inv_jobs:
  assumes "ack_inv c" and "\<And>r. queued_events r (c\<lparr>c_jobs := f\<rparr>) = queued_events r c"
  shows "ack_inv (c\<lparr>c_jobs := f\<rparr>)"
  using assms by (simp add: ack_inv_def acks_def events_of_def)

lemma enqueue_other_ack: "ack_inv c \<Longrightarrow> \<forall>n ev. j \<noteq> JobEvent n ev \<Longrightarrow> ack_inv (enqueueHandler rid j c)"
  using ack_inv_jobs queued_other(1) by (fastforce simp: enqueueHandler_def)

lemma run_event_ack:
  assumes "ack_inv c" and "c_jobs c rid = JobEvent n ev # js" and "\<not> c_closed c"
  shows "ack_inv (c\<lparr>c_jobs := (c_jobs c)(rid := js), c_sent := c_sent c @ [CAcknowledge rid n]\<rparr>)"
  using assms by (auto simp: ack_inv_def acks_def events_of_def queued_events_def)

lemma routeHandshake_ack: "ack_inv c \<Longrightarrow> ack_inv (routeHandshake env m c)"
  by (rule routeHandshake_rule) (simp_all add: fail_ack reject_handshake_ack)

lemma route_ack:
  assumes "ack_inv c"
  shows "ack_inv (route env m c)"
  by (rule route_rule; insert assms)
     (simp_all add: fail_ack routeHandshake_ack reject_ack enqueue_event_ack enqueue_other_ack)

lemma receive_ack: "ack_inv c \<Longrightarrow> ack_inv (receive env chunk c)"
  by (rule receive_rule) (simp_all add: fail_ack route_ack)

lemma run_job_ack:
  assumes "ack_inv c"
  shows "ack_inv (run_job env rid ok c)"
proof (rule run_job_rule)
  fix st res js assume j: "c_jobs c rid = JobResult st res # js"
  then have "ack_inv (c\<lparr>c_jobs := (c_jobs c)(rid := js)\<rparr>)"
    using assms by (intro ack_inv_jobs) (auto intro: queued_other(2))
  then show "ack_inv (resolvePending rid st res (c\<lparr>c_jobs := (c_jobs c)(rid := js)\<rparr>))"
    by (rule ack_inv_cong [rotated -1]) (simp_all add: resolvePending_def client_frame)
next
  fix e j js
  show "ack_inv (fail e (c\<lparr>c_jobs := (c_jobs c)(rid := js)\<rparr>))"
    by (rule ack_inv_cong [OF _ _ _ _ assms]) (simp_all add: client_frame)
next
  fix j js assume "c_jobs c rid = j # js" "\<forall>n ev. j \<noteq> JobEvent n ev"
  with assms show "ack_inv (c\<lparr>c_jobs := (c_jobs c)(rid := js)\<rparr>)"
    by (intro ack_inv_jobs) (auto intro: queued_other(2))
qed (use assms run_event_ack in auto)

lemma initialize_ack: "ack_inv (initialize env rid new_client)"
proof -
  have "ack_inv new_client"
    by (simp add: ack_inv_def acks_def events_of_def queued_events_def new_client_def)
  then show ?thesis
    by (auto simp: initialize_def write_message_def Let_def fail_ack intro!: ack_inv_sent
        [of "new_client\<lparr>c_handshake := HsWaiting rid\<rparr>" "CInitialize rid", simplified])
qed

lemma step_ack:
  assumes "client_step env c c'" and "ack_inv c"
  shows "ack_inv c'"
  using assms
  by (induction rule: client_step.induct)
     (simp_all add: initialize_continue_def handshake_timeout_def reject_handshake_ack
      receive_ack transportClosed_def fail_ack run_job_ack reject_ack request_ack control_defs control_ack shutdown_ack
      shutdown_done_def close_ack abort_control_def control_timeout_def ignoreLate_ack abort_request_def
      outputEnded_def finish_def split: handshake_state.split)

lemma reachable_ack: "client_reachable env c \<Longrightarrow> ack_inv c"
  by (induction rule: client_reachable.induct) (auto intro: initialize_ack step_ack)

section \<open>The peer\<close>

definition verified :: "client_env \<Rightarrow> js_object \<Rightarrow> bool" where
  "verified env h \<longleftrightarrow> verifyHandshake h (env_target env) (env_options env) = Inr ()"

text \<open>
  Only a verified handshake makes a peer, and before there is one nothing but the initial message is
  written and nothing is registered or queued.
\<close>

definition quiet :: "client \<Rightarrow> bool" where
  "quiet c \<longleftrightarrow> \<not> c_ready c \<and> c_registered c = [] \<and> c_jobs c = (\<lambda>_. []) \<and> (\<forall>m \<in> set (c_sent c). \<exists>r. m = CInitialize r)"

definition peer_inv :: "client_env \<Rightarrow> client \<Rightarrow> bool" where
  "peer_inv env c \<longleftrightarrow> (\<forall>h. c_handshake c = HsResolved h \<longrightarrow> verified env h) \<and>
     (case c_peer c of None \<Rightarrow> quiet c | Some h \<Rightarrow> verified env h)"

lemma quiet_updates [simp]:
  "quiet (c\<lparr>c_decoder := dec\<rparr>) = quiet c" "quiet (c\<lparr>c_ignored := ig\<rparr>) = quiet c"
  "quiet (c\<lparr>c_handshake := h\<rparr>) = quiet c"
  by (simp_all add: quiet_def)

lemma peer_updates [simp]:
  "peer_inv env (c\<lparr>c_decoder := dec\<rparr>) = peer_inv env c" "peer_inv env (c\<lparr>c_ignored := ig\<rparr>) = peer_inv env c"
  by (simp_all add: peer_inv_def cong: option.case_cong)

lemma peer_reset: "peer_inv env c \<Longrightarrow> peer_inv env (c\<lparr>c_handshake := HsNone\<rparr>)"
  by (auto simp: peer_inv_def split: option.splits)

lemma fail_handshake: "c_handshake (fail e c) = HsResolved h \<Longrightarrow> c_handshake c = HsResolved h"
  by (auto simp: fail_def client_frame reject_handshake_def split: if_splits handshake_state.splits)

lemma close_handshake: "c_handshake (close c) = HsResolved h \<Longrightarrow> c_handshake c = HsResolved h"
  by (auto simp: close_def client_frame reject_handshake_def split: if_splits handshake_state.splits)

lemma fail_ready: "c_ready (fail e c) \<Longrightarrow> c_ready c"
  by (auto simp: fail_def client_frame split: if_splits)

lemma close_ready: "c_ready (close c) \<Longrightarrow> c_ready c"
  by (auto simp: close_def client_frame split: if_splits)

lemma peer_inv_frame:
  assumes "peer_inv env c" and "c_peer c' = c_peer c"
    and "\<And>h. c_handshake c' = HsResolved h \<Longrightarrow> c_handshake c = HsResolved h"
    and "c_peer c = None \<Longrightarrow> quiet c \<Longrightarrow> quiet c'"
  shows "peer_inv env c'"
  using assms by (auto simp: peer_inv_def split: option.splits)

lemma fail_peer: "peer_inv env c \<Longrightarrow> peer_inv env (fail e c)"
  by (erule peer_inv_frame) (auto simp: client_frame quiet_def dest: fail_handshake fail_ready)

lemma close_peer: "peer_inv env c \<Longrightarrow> peer_inv env (close c)"
  by (erule peer_inv_frame) (auto simp: client_frame quiet_def dest: close_handshake close_ready)

lemma settle_peer: "peer_inv env c \<Longrightarrow> peer_inv env (settle_pending rid out c)"
  by (erule peer_inv_frame) (simp_all add: client_frame quiet_def)

lemma reject_handshake_peer: "peer_inv env c \<Longrightarrow> peer_inv env (reject_handshake e c)"
  by (erule peer_inv_frame)
     (auto simp: client_frame quiet_def reject_handshake_def split: handshake_state.splits)

lemma ignoreLate_peer: "peer_inv env c \<Longrightarrow> peer_inv env (ignoreLateMessages rid c)"
  by (simp add: ignoreLateMessages_def fail_peer)

lemma peer_known:
  assumes "c_peer c' = c_peer c" and "c_handshake c' = c_handshake c" and "c_peer c \<noteq> None" and "peer_inv env c"
  shows "peer_inv env c'"
  using assms by (auto simp: peer_inv_def)

lemma write_or_reject_frame:
  "c_peer (write_or_reject env rid m c) = c_peer c" "c_handshake (write_or_reject env rid m c) = c_handshake c"
  using write_message_cases [of env m c]
  by (auto simp: write_or_reject_def client_frame)

lemma control_frame:
  "c_peer (snd (controlRequest env rid m s a cl c)) = c_peer c"
  "c_handshake (snd (controlRequest env rid m s a cl c)) = c_handshake c"
  by (simp_all add: controlRequest_def write_or_reject_frame register_def)

lemma request_frame:
  "c_peer (snd (request env rid m ps s a c)) = c_peer c"
  "c_handshake (snd (request env rid m ps s a c)) = c_handshake c"
  by (simp_all add: request_def write_or_reject_frame register_def)

lemma control_peer: "connected c \<Longrightarrow> peer_inv env c \<Longrightarrow> peer_inv env (snd (controlRequest env rid m s a cl c))"
  by (rule peer_known [where c = c]) (simp_all add: control_frame connected_def)

lemma shutdown_peer:
  assumes "connected c" and "peer_inv env c"
  shows "peer_inv env (shutdown env rid has_signal aborted c)"
proof -
  let ?c = "c\<lparr>c_closing := True, c_shutdown := Some rid\<rparr>"
  have "peer_inv env ?c"
    by (rule peer_known [OF _ _ _ assms(2)]) (use assms(1) in \<open>simp_all add: connected_def\<close>)
  then have "peer_inv env (snd (controlRequest env rid (CShutdown rid) has_signal aborted True ?c))"
    using assms(1) by (intro control_peer) (simp_all add: connected_def)
  then show ?thesis
    using assms(2) by (rule shutdown_rule [of "peer_inv env", rotated]) (rule close_peer)
qed

lemma routeHandshake_peer: "peer_inv env c \<Longrightarrow> peer_inv env (routeHandshake env m c)"
  by (rule routeHandshake_rule)
     (simp_all add: fail_peer reject_handshake_peer, auto simp: peer_inv_def verified_def quiet_def split: option.splits)

lemma ready_peer: "peer_inv env c \<Longrightarrow> c_ready c \<Longrightarrow> c_peer c \<noteq> None"
  by (auto simp: peer_inv_def quiet_def split: option.splits)

lemma route_peer:
  assumes "peer_inv env c"
  shows "peer_inv env (route env m c)"
proof (cases "c_ready c")
  case True
  note known = peer_known [OF _ _ ready_peer [OF assms True] assms]
  show ?thesis
    by (rule route_rule)
       (use True assms in \<open>auto intro: known simp: fail_peer rejectPending_def client_frame enqueueHandler_def\<close>)
next
  case False
  with assms show ?thesis by (simp add: route_def routeHandshake_peer)
qed

lemma receive_peer: "peer_inv env c \<Longrightarrow> peer_inv env (receive env chunk c)"
  by (rule receive_rule) (simp_all add: fail_peer route_peer)

lemma run_job_peer:
  assumes "peer_inv env c"
  shows "peer_inv env (run_job env rid ok c)"
proof (cases "c_jobs c rid")
  case Nil
  with assms show ?thesis by (simp add: run_job_def)
next
  case (Cons j js)
  with assms have "c_peer c \<noteq> None" by (auto simp: peer_inv_def quiet_def split: option.splits)
  note known = peer_known [OF _ _ this assms]
  show ?thesis
    by (rule run_job_rule)
       (use assms in \<open>auto intro: known intro!: fail_peer simp: resolvePending_def client_frame\<close>)
qed

lemma initialize_continue_peer:
  assumes "peer_inv env c"
  shows "peer_inv env (initialize_continue c)"
  using assms fail_peer [OF peer_reset [OF assms]]
  by (auto simp: initialize_continue_def peer_inv_def split: handshake_state.split)

lemma initialize_peer: "peer_inv env (initialize env rid new_client)"
proof -
  have new: "peer_inv env new_client" by (simp add: peer_inv_def quiet_def new_client_def)
  then have "peer_inv env (new_client\<lparr>c_handshake := HsWaiting rid, c_sent := [CInitialize rid]\<rparr>)"
    by (simp add: peer_inv_def quiet_def new_client_def)
  with new show ?thesis
    by (auto simp: initialize_def write_message_def Let_def intro!: fail_peer peer_reset) (simp add: new_client_def)
qed

lemma step_peer:
  assumes "client_step env c c'" and "settlement_inv c" and "peer_inv env c"
  shows "peer_inv env c'"
  using assms
proof (induction rule: client_step.induct)
  case (init_write_failed c rid)
  then show ?case by (intro fail_peer peer_reset)
next
  case (abort_request c rid p cid)
  then have "rid \<in> fst ` set (c_pending c)" by (metis domI dom_map_of_conv_image_fst)
  with abort_request.prems(1) have "rid \<in> set (c_registered c)"
    unfolding settlement_inv_def by blast
  then have "c_peer c \<noteq> None"
    using abort_request.prems by (auto simp: peer_inv_def quiet_def split: option.splits)
  then have "connected (ignoreLateMessages rid (rejectPending rid AbortError c))"
    by (simp add: connected_def client_frame)
  moreover have "peer_inv env (ignoreLateMessages rid (rejectPending rid AbortError c))"
    unfolding rejectPending_def by (intro ignoreLate_peer settle_peer abort_request.prems(2))
  ultimately show ?case unfolding abort_request_def cancel_def by (rule control_peer)
next
  case (request c rid m ps has_signal aborted)
  from request(1) have "c_peer c \<noteq> None" by (simp add: connected_def)
  from peer_known [OF request_frame this request.prems(2)] show ?case .
qed (simp_all add: initialize_continue_peer handshake_timeout_def reject_handshake_peer
    receive_peer transportClosed_def fail_peer run_job_peer rejectPending_def settle_peer
    control_defs control_peer shutdown_peer shutdown_done_def close_peer
    abort_control_def control_timeout_def ignoreLate_peer outputEnded_def finish_def)

lemma reachable_peer: "client_reachable env c \<Longrightarrow> peer_inv env c"
  by (induction rule: client_reachable.induct)
     (auto intro: initialize_peer step_peer reachable_settlement)

section \<open>Late messages\<close>

definition ignored_inv :: "client \<Rightarrow> bool" where
  "ignored_inv c \<longleftrightarrow> distinct (c_ignored c) \<and> length (c_ignored c) \<le> MAX_IGNORED"

lemma ignored_cong: "c_ignored c' = c_ignored c \<Longrightarrow> ignored_inv c \<Longrightarrow> ignored_inv c'"
  by (simp add: ignored_inv_def)

lemma ignoreLate_ignored: "ignored_inv c \<Longrightarrow> ignored_inv (ignoreLateMessages rid c)"
  by (auto simp: ignoreLateMessages_def ignored_inv_def client_frame)

lemma write_or_reject_ignored: "c_ignored (write_or_reject env rid m c) = c_ignored c"
  using write_message_cases [of env m c] by (auto simp: write_or_reject_def client_frame)

lemma control_ignored [client_frame]:
  "c_ignored (snd (controlRequest env rid m s a cl c)) = c_ignored c"
  "c_ignored (snd (request env rid n ps s a c)) = c_ignored c"
  by (simp_all add: controlRequest_def request_def write_or_reject_ignored register_def)

lemma shutdown_ignored: "ignored_inv c \<Longrightarrow> ignored_inv (shutdown env rid has_signal aborted c)"
  by (rule shutdown_rule) (auto simp: ignored_inv_def client_frame)

lemma route_ignored:
  assumes "ignored_inv c"
  shows "ignored_inv (route env m c)"
proof (rule route_rule)
  show "ignored_inv (routeHandshake env m c)"
    by (rule routeHandshake_rule) (use assms in \<open>simp_all add: ignored_inv_def client_frame\<close>)
  show "ignored_inv (c\<lparr>c_ignored := filter (\<lambda>r. r \<noteq> rid) (c_ignored c)\<rparr>)" for rid
    using assms by (auto simp: ignored_inv_def intro: order_trans [OF length_filter_le])
qed (use assms in \<open>simp_all add: ignored_inv_def client_frame enqueueHandler_def\<close>)

lemma receive_ignored: "ignored_inv c \<Longrightarrow> ignored_inv (receive env chunk c)"
  by (rule receive_rule) (simp_all add: route_ignored, simp_all add: ignored_inv_def client_frame)

lemma run_job_ignored: "ignored_inv c \<Longrightarrow> ignored_inv (run_job env rid ok c)"
  by (rule run_job_rule) (simp_all add: ignored_inv_def client_frame resolvePending_def)

lemma step_ignored:
  assumes "client_step env c c'" and "ignored_inv c"
  shows "ignored_inv c'"
  using assms
proof (induction rule: client_step.induct)
  case (abort_request c rid p cid)
  have "ignored_inv (ignoreLateMessages rid (rejectPending rid AbortError c))"
    using abort_request.prems by (intro ignoreLate_ignored) (simp add: ignored_inv_def client_frame)
  then show ?case by (simp add: abort_request_def cancel_def ignored_inv_def client_frame)
next
  case (abort_control c rid p)
  then show ?case unfolding abort_control_def by (intro ignoreLate_ignored) (simp add: ignored_inv_def client_frame)
next
  case (timeout c rid p)
  then show ?case unfolding control_timeout_def by (intro ignoreLate_ignored) (simp add: ignored_inv_def client_frame)
next
  case (continue c)
  then show ?case by (simp add: initialize_continue_def ignored_inv_def client_frame split: handshake_state.split)
next
  case (output_ended c)
  then show ?case by (simp add: outputEnded_def finish_def ignored_inv_def client_frame)
qed (simp_all add: receive_ignored run_job_ignored shutdown_ignored,
     simp_all add: ignored_inv_def client_frame handshake_timeout_def transportClosed_def control_defs shutdown_done_def)

lemma reachable_ignored: "client_reachable env c \<Longrightarrow> ignored_inv c"
proof (induction rule: client_reachable.induct)
  case (start rid)
  show ?case
    by (auto simp: initialize_def write_message_def Let_def ignored_inv_def client_frame new_client_def)
qed (rule step_ignored)

section \<open>Properties\<close>

text \<open>
  C1: Every request is settled exactly once. In every reachable state, under every interleaving of calls,
  frames, timers, aborts, write failures and process exits, a registered request is either pending or
  settled, never both and never twice; once the connection is closed none is pending, so no caller is
  left waiting.
\<close>

theorem requests_settle_once:
  assumes "client_reachable env c"
  shows "distinct (map fst (c_settled c)) \<and>
    fst ` set (c_pending c) \<inter> fst ` set (c_settled c) = {} \<and>
    set (c_registered c) = fst ` set (c_pending c) \<union> fst ` set (c_settled c) \<and>
    (c_closed c \<longrightarrow> set (c_registered c) = fst ` set (c_settled c))"
  using reachable_settlement [OF assms] by (auto simp: settlement_inv_def)

definition sample_handshake :: js_object where
  "sample_handshake =
    [(''bridgeProtocolVersion'', jint 8), (''officialCodexVersion'', JStr OFFICIAL_CODEX_VERSION),
     (''officialCodexTag'', JStr OFFICIAL_CODEX_TAG), (''officialSourceCommit'', JStr OFFICIAL_SOURCE_COMMIT),
     (''buildTarget'', JStr ''t''), (''vendorTreeSha256'', JStr VENDOR_TREE_SHA256),
     (''maxFrameBytes'', jint 16777216), (''maxPendingEvents'', jint 256),
     (''buildSourceCommit'', JStr ''development'')]"

definition sample_env :: client_env where
  "sample_env = \<lparr>env_decode = (\<lambda>_. Inr (JObj [(''type'', JStr ''handshake''), (''requestId'', JStr ''i''),
       (''handshake'', JObj sample_handshake)])),
     env_encodes = (\<lambda>_. True), env_target = ''t'',
     env_options = \<lparr>allowDevelopmentBuild = True, expectedBuildSourceCommit = None\<rparr>\<rparr>"

definition sample_open :: client where
  "sample_open = initialize_continue (receive sample_env [10] (initialize sample_env ''i'' new_client))"

lemma sample_open_eq: "sample_open = new_client\<lparr>c_ready := True, c_sent := [CInitialize ''i''],
    c_peer := Some sample_handshake\<rparr>"
proof -
  have v: "verifyHandshake sample_handshake ''t'' \<lparr>allowDevelopmentBuild = True, expectedBuildSourceCommit = None\<rparr> = Inr ()"
    by (simp add: verifyHandshake_def expected_fields_def sample_handshake_def BRIDGE_PROTOCOL_VERSION_def
        MAX_FRAME_BYTES_def MAX_PENDING_EVENTS_def)
  have m: "server_message (JObj [(''type'', JStr ''handshake''), (''requestId'', JStr ''i''),
      (''handshake'', JObj sample_handshake)]) = Some (MsgHandshake ''i'' sample_handshake)"
    by (simp add: server_message_def text_of_def object_of_def)
  show ?thesis
    by (simp add: sample_open_def initialize_def write_message_def receive_def push_def append_part_def
        route_value_def route_def routeHandshake_def initialize_continue_def new_client_def sample_env_def m v Let_def
        new_decoder_def)
qed

lemma sample_open_reachable: "client_reachable sample_env sample_open"
  unfolding sample_open_def by (intro client_reachable.step [OF _ client_step.continue]
      client_reachable.step [OF _ client_step.receive] client_reachable.start)

definition sample_requested :: client where
  "sample_requested = snd (request sample_env ''r'' ''models.resolve'' JNull False False sample_open)"

lemma sample_requested_reachable: "client_reachable sample_env sample_requested"
  unfolding sample_requested_def
  by (intro client_reachable.step [OF sample_open_reachable client_step.request])
     (simp_all add: sample_open_eq connected_def fresh_id_def new_client_def)

theorem requests_settle_once_witness:
  "c_registered (transportClosed sample_requested) = [''r''] \<and>
   set (c_registered (transportClosed sample_requested)) = fst ` set (c_settled (transportClosed sample_requested))"
proof
  show "c_registered (transportClosed sample_requested) = [''r'']"
    by (simp add: transportClosed_def client_frame sample_requested_def request_def sample_open_eq requireReady_def
        isReady_def new_client_def write_or_reject_def write_message_def register_def sample_env_def)
  have "client_reachable sample_env (transportClosed sample_requested)"
    by (rule client_reachable.step [OF sample_requested_reachable client_step.transport_closed])
  moreover have "c_closed (transportClosed sample_requested)" by (simp add: transportClosed_def client_frame)
  ultimately show "set (c_registered (transportClosed sample_requested)) = fst ` set (c_settled (transportClosed sample_requested))"
    using requests_settle_once by blast
qed

text \<open>
  C6: No unverified peer. In every reachable state, if any frame other than the initial message was
  written, or any request was registered, then the peer completed a handshake that
  \<open>verifyHandshake\<close> accepted for the build target and options of the client.
\<close>

theorem peer_is_verified:
  assumes "client_reachable env c"
    and "c_registered c \<noteq> [] \<or> (\<exists>m \<in> set (c_sent c). \<forall>r. m \<noteq> CInitialize r)"
  shows "\<exists>h. c_peer c = Some h \<and> verifyHandshake h (env_target env) (env_options env) = Inr ()"
  using reachable_peer [OF assms(1)] assms(2)
  by (auto simp: peer_inv_def quiet_def verified_def split: option.splits)

theorem peer_is_verified_witness:
  "\<exists>h. c_peer sample_requested = Some h \<and> verifyHandshake h (env_target sample_env) (env_options sample_env) = Inr ()"
  by (rule peer_is_verified [OF sample_requested_reachable])
     (simp add: sample_requested_def request_def sample_open_eq requireReady_def isReady_def new_client_def
        write_or_reject_def write_message_def register_def sample_env_def)

text \<open>
  Acknowledgement order. In every reachable state the acknowledged sequence numbers of a request are
  a prefix of those received for it, in order of arrival; while the connection is open the rest are
  exactly the events whose handlers have not finished.
\<close>

theorem acknowledgements_in_order:
  assumes "client_reachable env c"
  shows "\<exists>rest. events_of rid c = acks rid c @ rest \<and> (\<not> c_closed c \<longrightarrow> rest = queued_events rid c)"
  using reachable_ack [OF assms] by (simp add: ack_inv_def)

theorem acknowledgements_in_order_witness:
  "\<exists>rest. events_of ''r'' sample_requested = acks ''r'' sample_requested @ rest \<and>
     (\<not> c_closed sample_requested \<longrightarrow> rest = queued_events ''r'' sample_requested)"
  by (rule acknowledgements_in_order [OF sample_requested_reachable])

text \<open>
  Bounded cancellation tracking. In every reachable state at most 65536 request ids are tracked for
  late messages, each once.
\<close>

theorem late_tracking_bounded:
  assumes "client_reachable env c"
  shows "distinct (c_ignored c) \<and> length (c_ignored c) \<le> 65536"
  using reachable_ignored [OF assms] by (simp add: ignored_inv_def MAX_IGNORED_def)

theorem late_tracking_bounded_witness: "length (c_ignored sample_requested) \<le> 65536"
  using late_tracking_bounded [OF sample_requested_reachable] by simp

end
