(* ===== verification/Bridge_Host.thy ===== *)
theory Bridge_Host
  imports Js_Prelude
begin

text \<open>
  What the host gives to the native process: the environment it is spawned with
  (\<open>src/src/infrastructure/codex-bridge/environment.ts\<close>) and the parameters of a tool call
  (\<open>src/src/infrastructure/codex-bridge/tool-execute-params.ts\<close>). Both copy untrusted data through an
  allow-list; the lemmas show exactly what passes. \<open>parse_url\<close> stands for the URL parser of the
  platform: the user name and the password of a parsed URL, or \<open>None\<close> where it throws.
\<close>

section \<open>Variables\<close>

definition UNIX_CORE_VARIABLES :: "string list" where
  "UNIX_CORE_VARIABLES = [''PATH'', ''SHELL'', ''TMPDIR'', ''TEMP'', ''TMP'', ''HOME'', ''LANG'', ''LC_ALL'',
     ''LC_CTYPE'', ''LOGNAME'', ''USER'', ''TZ'', ''TERM'', ''NO_COLOR'', ''COLORTERM'', ''FORCE_COLOR'']"

definition WINDOWS_CORE_VARIABLES :: "string list" where
  "WINDOWS_CORE_VARIABLES = [''PATH'', ''PATHEXT'', ''SHELL'', ''COMSPEC'', ''SYSTEMROOT'', ''SYSTEMDRIVE'',
     ''USERNAME'', ''USERDOMAIN'', ''USERPROFILE'', ''HOMEDRIVE'', ''HOMEPATH'', ''PROGRAMFILES'',
     ''PROGRAMFILES(X86)'', ''PROGRAMW6432'', ''PROGRAMDATA'', ''LOCALAPPDATA'', ''APPDATA'', ''TEMP'', ''TMP'',
     ''TMPDIR'', ''POWERSHELL'', ''PWSH'', ''TZ'', ''TERM'', ''NO_COLOR'', ''COLORTERM'', ''FORCE_COLOR'']"

definition NETWORK_VARIABLES :: "string list" where
  "NETWORK_VARIABLES = [''HTTP_PROXY'', ''HTTPS_PROXY'', ''ALL_PROXY'', ''NO_PROXY'', ''http_proxy'',
     ''https_proxy'', ''all_proxy'', ''no_proxy'', ''SSL_CERT_FILE'', ''SSL_CERT_DIR'', ''CURL_CA_BUNDLE'',
     ''REQUESTS_CA_BUNDLE'', ''NODE_EXTRA_CA_CERTS'']"

text \<open>\<open>toUpperCase\<close> on ASCII letters; environment names are ASCII.\<close>

definition upper_char :: "char \<Rightarrow> char" where
  "upper_char c = (if 97 \<le> (of_char c :: nat) \<and> (of_char c :: nat) \<le> 122
     then char_of ((of_char c :: nat) - 32) else c)"

definition toUpperCase :: "string \<Rightarrow> string" where
  "toUpperCase s = map upper_char s"

definition isAllowlisted :: "string \<Rightarrow> string list \<Rightarrow> bool" where
  "isAllowlisted name allowlist \<longleftrightarrow>
     name \<in> set allowlist \<or> list_ex (\<lambda>a. toUpperCase a = toUpperCase name) allowlist"

text \<open>
  The word stands between the ends of the name or underscores: \<open>(?:^|_)word(?:_|$)\<close>.
\<close>

fun delimited_from :: "bool \<Rightarrow> string \<Rightarrow> string \<Rightarrow> bool" where
  "delimited_from start [] w = (start \<and> w = [])"
| "delimited_from start (c # s) w =
    (start \<and> starts_with (c # s) w \<and>
        (drop (length w) (c # s) = [] \<or> starts_with (drop (length w) (c # s)) ''_'') \<or>
     delimited_from (c = CHR ''_'') s w)"

definition delimited :: "string \<Rightarrow> string \<Rightarrow> bool" where
  "delimited s w = delimited_from True s w"

text \<open>
  The test \<open>CREDENTIAL_NAME\<close>, which ignores case. Every other word of its first alternative contains one
  of the words of the second, so the first only adds the delimited \<open>AUTH\<close> and \<open>AUTHORIZATION\<close>.
\<close>

definition CREDENTIAL_NAME :: "string \<Rightarrow> bool" where
  "CREDENTIAL_NAME name = (let u = toUpperCase name in
     list_ex (delimited u) [''AUTH'', ''AUTHORIZATION''] \<or>
     list_ex (str_includes u) [''KEY'', ''SECRET'', ''TOKEN'', ''PASSWORD'', ''CREDENTIAL''])"

definition isCredentialVariable :: "string \<Rightarrow> bool" where
  "isCredentialVariable name =
    (if toUpperCase name \<in> {''SSL_CERT_FILE'', ''SSL_CERT_DIR'', ''CURL_CA_BUNDLE'', ''REQUESTS_CA_BUNDLE'',
        ''NODE_EXTRA_CA_CERTS'', ''PATHEXT'', ''PATH'', ''TERM'', ''TMPDIR'', ''TEMP'', ''TMP''}
     then False else CREDENTIAL_NAME name)"

definition isProxyVariable :: "string \<Rightarrow> bool" where
  "isProxyVariable name \<longleftrightarrow> toUpperCase name \<in> {''HTTP_PROXY'', ''HTTPS_PROXY'', ''ALL_PROXY''}"

text \<open>The text after the first \<open>://\<close>, or all of it, up to the first \<open>/\<close>, \<open>?\<close> or \<open>#\<close>.\<close>

fun after_scheme :: "string \<Rightarrow> string option" where
  "after_scheme [] = None"
| "after_scheme (c # s) = (if starts_with (c # s) ''://'' then Some (drop 3 (c # s)) else after_scheme s)"

definition proxyAuthority :: "string \<Rightarrow> string" where
  "proxyAuthority v = takeWhile (\<lambda>c. c \<notin> {CHR ''/'', CHR ''?'', CHR ''#''})
     (case after_scheme v of None \<Rightarrow> v | Some r \<Rightarrow> r)"

definition hasProxyCredentials :: "(string \<Rightarrow> (string \<times> string) option) \<Rightarrow> string \<Rightarrow> bool" where
  "hasProxyCredentials parse_url v =
    (if str_includes (proxyAuthority v) ''@'' then True
     else (case parse_url v of
         Some (username, password) \<Rightarrow> 0 < length username \<or> 0 < length password
       | None \<Rightarrow> str_includes v ''@''))"

fun copy_environment ::
  "(string \<Rightarrow> (string \<times> string) option) \<Rightarrow> string list \<Rightarrow> (string \<times> string option) list \<Rightarrow>
     (string, (string \<times> string) list) result" where
  "copy_environment parse_url allowlist [] = Inr []"
| "copy_environment parse_url allowlist ((name, v) # source) =
    (case v of
       None \<Rightarrow> copy_environment parse_url allowlist source
     | Some text \<Rightarrow>
         if \<not> isAllowlisted name allowlist then copy_environment parse_url allowlist source
         else if isCredentialVariable name then copy_environment parse_url allowlist source
         else if isProxyVariable name \<and> hasProxyCredentials parse_url text
         then Inl ''Credential-bearing proxy URLs are not allowed''
         else res_bind (copy_environment parse_url allowlist source) (\<lambda>env. Inr ((name, text) # env)))"

definition createBridgeChildEnvironment ::
  "(string \<Rightarrow> (string \<times> string) option) \<Rightarrow> (string \<times> string option) list \<Rightarrow> string \<Rightarrow>
     (string, (string \<times> string) list) result" where
  "createBridgeChildEnvironment parse_url source platform =
     copy_environment parse_url
       ((if platform = ''win32'' then WINDOWS_CORE_VARIABLES else UNIX_CORE_VARIABLES) @ NETWORK_VARIABLES) source"

section \<open>Tool parameters\<close>

definition TOOL_EXECUTE_ARGUMENT_KEYS :: "string list" where
  "TOOL_EXECUTE_ARGUMENT_KEYS = [''command'', ''cmd'', ''timeoutMs'', ''timeout_ms'', ''shell'', ''tty'',
     ''yield_time_ms'', ''yieldTimeMs'', ''max_output_tokens'', ''maxOutputTokens'', ''login'',
     ''allow_login_shell'', ''allowLoginShell'', ''allow_background_sessions'', ''allowBackgroundSessions'',
     ''session_id'', ''sessionId'', ''chars'', ''path'', ''detail'', ''input'', ''prompt'',
     ''referenced_image_paths'', ''referencedImagePaths'', ''num_last_images_to_include'',
     ''numLastImagesToInclude'', ''recent_image_urls'', ''recentImageUrls'', ''commands'',
     ''conversation_items'', ''conversationItems'', ''model'', ''request_session_id'', ''requestSessionId'',
     ''web_search_mode'', ''webSearchMode'']"

record ToolsExecuteParamsInput =
  te_tool :: string
  te_arguments :: js_object
  te_workdir :: string
  te_workspaceRoots :: "string list"
  te_approvalPolicy :: string
  te_filesystemAccessPolicy :: string

definition host_params :: "ToolsExecuteParamsInput \<Rightarrow> js_object" where
  "host_params inp =
    [(''tool'', JStr (te_tool inp)), (''workdir'', JStr (te_workdir inp)),
     (''workspaceRoots'', JArr (map JStr (te_workspaceRoots inp))),
     (''approvalPolicy'', JStr (te_approvalPolicy inp)),
     (''filesystemAccessPolicy'', JStr (te_filesystemAccessPolicy inp))]"

fun copy_arguments :: "js_object \<Rightarrow> string list \<Rightarrow> js_object \<Rightarrow> js_object" where
  "copy_arguments args [] params = params"
| "copy_arguments args (k # ks) params =
    copy_arguments args ks
      (if \<not> hasOwn args k then params
       else if get_prop args k \<noteq> JUndef then set_prop params k (get_prop args k) else params)"

definition buildToolsExecuteParams :: "ToolsExecuteParamsInput \<Rightarrow> js_object" where
  "buildToolsExecuteParams inp =
     copy_arguments (te_arguments inp) TOOL_EXECUTE_ARGUMENT_KEYS (host_params inp)"

section \<open>What passes\<close>

lemma copy_environment_Inr:
  "copy_environment parse_url al source = Inr env \<longleftrightarrow>
     env = concat (map (\<lambda>(name, v). case v of Some text \<Rightarrow>
       if isAllowlisted name al \<and> \<not> isCredentialVariable name then [(name, text)] else [] | None \<Rightarrow> []) source) \<and>
     (\<forall>(name, text) \<in> set env. \<not> (isProxyVariable name \<and> hasProxyCredentials parse_url text))"
proof (induction source arbitrary: env)
  case (Cons e source)
  show ?case
    by (cases e; cases "snd e") (auto simp: Cons.IH)
qed auto

lemma copy_arguments_get:
  "get_prop (copy_arguments args ks params) k =
    (if k \<in> set ks \<and> hasOwn args k \<and> get_prop args k \<noteq> JUndef then get_prop args k else get_prop params k)"
  by (induction ks arbitrary: params) auto

lemma copy_arguments_keys:
  "set (keys_of (copy_arguments args ks params)) =
     set (keys_of params) \<union> {k \<in> set ks. hasOwn args k \<and> get_prop args k \<noteq> JUndef}"
  by (induction ks arbitrary: params) auto

lemma host_keys_disjoint:
  "set TOOL_EXECUTE_ARGUMENT_KEYS \<inter>
     {''tool'', ''workdir'', ''workspaceRoots'', ''approvalPolicy'', ''filesystemAccessPolicy'', ''connection''} = {}"
  by (simp add: TOOL_EXECUTE_ARGUMENT_KEYS_def)

section \<open>Properties\<close>

text \<open>
  The environment of the native process. The copy either throws, exactly when an allow-listed proxy
  variable carries credentials, or consists of exactly the defined variables, in order, whose names are
  allow-listed (ignoring case) and do not name a credential.
\<close>

theorem child_environment_exact:
  "case createBridgeChildEnvironment parse_url source platform of
     Inr env \<Rightarrow>
       env = concat (map (\<lambda>(name, v). case v of Some text \<Rightarrow>
         if isAllowlisted name ((if platform = ''win32'' then WINDOWS_CORE_VARIABLES else UNIX_CORE_VARIABLES) @
              NETWORK_VARIABLES) \<and> \<not> isCredentialVariable name
         then [(name, text)] else [] | None \<Rightarrow> []) source) \<and>
       list_all (\<lambda>nt. \<not> (isProxyVariable (fst nt) \<and> str_includes (proxyAuthority (snd nt)) ''@'')) env
   | Inl _ \<Rightarrow> (\<exists>name text. (name, Some text) \<in> set source \<and> isProxyVariable name \<and>
       \<not> isCredentialVariable name \<and> hasProxyCredentials parse_url text)"
proof (cases "createBridgeChildEnvironment parse_url source platform")
  case (Inl e)
  let ?al = "(if platform = ''win32'' then WINDOWS_CORE_VARIABLES else UNIX_CORE_VARIABLES) @ NETWORK_VARIABLES"
  have "\<forall>env. copy_environment parse_url ?al source \<noteq> Inr env"
    using Inl by (simp add: createBridgeChildEnvironment_def)
  then obtain name tx where "isProxyVariable name" "hasProxyCredentials parse_url tx"
    and m: "(name, tx) \<in> set (concat (map (\<lambda>(name, v). case v of Some text \<Rightarrow>
       if isAllowlisted name ?al \<and> \<not> isCredentialVariable name then [(name, text)] else [] | None \<Rightarrow> []) source))"
    unfolding copy_environment_Inr by blast
  moreover from m have "(name, Some tx) \<in> set source \<and> \<not> isCredentialVariable name"
    by (auto split: option.splits if_splits)
  ultimately show ?thesis using Inl by auto
next
  case (Inr env)
  note copied = Inr [unfolded createBridgeChildEnvironment_def copy_environment_Inr]
  have "hasProxyCredentials parse_url v" if "str_includes (proxyAuthority v) ''@''" for v
    using that by (simp add: hasProxyCredentials_def)
  with copied have "list_all (\<lambda>nt. \<not> (isProxyVariable (fst nt) \<and> str_includes (proxyAuthority (snd nt)) ''@'')) env"
    unfolding list_all_iff by fastforce
  with copied show ?thesis unfolding Inr by simp
qed

text \<open>
  Tool arguments cannot override the host. In the parameters of a tool call the tool, the working
  directory, the workspace roots and both policies are the ones of the host, there is no connection,
  and every other key is an allow-listed argument with the value the model gave.
\<close>

theorem host_params_protected:
  "(\<forall>k. get_prop (buildToolsExecuteParams inp) k =
      (if hasOwn (host_params inp) k then get_prop (host_params inp) k
       else if k \<in> set TOOL_EXECUTE_ARGUMENT_KEYS \<and> hasOwn (te_arguments inp) k then get_prop (te_arguments inp) k
       else JUndef)) \<and>
   \<not> hasOwn (buildToolsExecuteParams inp) ''connection''"
proof (intro conjI allI)
  fix k
  have "hasOwn (host_params inp) k \<Longrightarrow> k \<notin> set TOOL_EXECUTE_ARGUMENT_KEYS"
    using host_keys_disjoint by (auto simp: host_params_def hasOwn_def)
  then show "get_prop (buildToolsExecuteParams inp) k =
      (if hasOwn (host_params inp) k then get_prop (host_params inp) k
       else if k \<in> set TOOL_EXECUTE_ARGUMENT_KEYS \<and> hasOwn (te_arguments inp) k then get_prop (te_arguments inp) k
       else JUndef)"
    using hasOwn_get [of "host_params inp" k]
    by (auto simp: buildToolsExecuteParams_def copy_arguments_get)
  show "\<not> hasOwn (buildToolsExecuteParams inp) ''connection''"
    using host_keys_disjoint
    by (auto simp: buildToolsExecuteParams_def hasOwn_def copy_arguments_keys host_params_def)
qed

end
