(* ===== verification/Bridge_Runtime.thy ===== *)
theory Bridge_Runtime
  imports Bridge_Client Bridge_Host
begin

text \<open>
  The runtime over the bridge client, \<open>src/src/infrastructure/codex-bridge/runtime.ts\<close>: one shared
  connection that is opened on demand and replaced after a failure, the cache of model metadata, the
  parameters of each request, the approval dialogue and the decoding of context estimates. A
  connection attempt is opened by the platform; its outcome, and the later failure of a client, are
  steps of the environment. A client is identified with the attempt that opened it.
\<close>

section \<open>The connection\<close>

datatype attempt = Opening | OpenFailed | Opened bool

record runtime =
  rt_client :: "nat option"
  rt_connecting :: "nat option"
  rt_models :: "string \<rightharpoonup> js"
  rt_attempts :: "attempt list"

definition new_runtime :: runtime where
  "new_runtime = \<lparr>rt_client = None, rt_connecting = None, rt_models = Map.empty, rt_attempts = []\<rparr>"

definition client_ready :: "runtime \<Rightarrow> nat \<Rightarrow> bool" where
  "client_ready s c \<longleftrightarrow> c < length (rt_attempts s) \<and> rt_attempts s ! c = Opened True"

definition forgetClient :: "runtime \<Rightarrow> runtime" where
  "forgetClient s = s\<lparr>rt_client := None, rt_connecting := None, rt_models := Map.empty\<rparr>"

datatype connect_result = ConnectReturns nat | ConnectJoins nat | ConnectOpens nat

text \<open>\<open>#connect\<close> up to its first \<open>await\<close>.\<close>

definition connect :: "runtime \<Rightarrow> connect_result \<times> runtime" where
  "connect s0 =
    (let s = (case rt_client s0 of
           Some c \<Rightarrow> if \<not> client_ready s0 c then forgetClient s0 else s0 | None \<Rightarrow> s0)
     in case rt_client s of
          Some c \<Rightarrow> (ConnectReturns c, s)
        | None \<Rightarrow>
           (case rt_connecting s of
              Some a \<Rightarrow> (ConnectJoins a, s)
            | None \<Rightarrow> (ConnectOpens (length (rt_attempts s)),
                s\<lparr>rt_connecting := Some (length (rt_attempts s)), rt_attempts := rt_attempts s @ [Opening]\<rparr>)))"

text \<open>The rest of \<open>#connect\<close> in the call that opened the attempt: \<open>None\<close> when it throws.\<close>

definition opener_continue :: "nat \<Rightarrow> runtime \<Rightarrow> nat option \<times> runtime" where
  "opener_continue a s = (case rt_attempts s ! a of
     Opened _ \<Rightarrow> (Some a, s\<lparr>rt_client := Some a, rt_connecting := None\<rparr>)
   | _ \<Rightarrow> (None, s\<lparr>rt_connecting := None\<rparr>))"

text \<open>The rest in a call that joined the attempt; it starts again when the client has failed meanwhile.\<close>

definition joiner_continue :: "nat \<Rightarrow> runtime \<Rightarrow> connect_result option \<times> runtime" where
  "joiner_continue a s = (case rt_attempts s ! a of
     Opened ready \<Rightarrow>
       if \<not> ready then (let (r, s') = connect (forgetClient s) in (Some r, s')) else (Some (ConnectReturns a), s)
   | _ \<Rightarrow> (None, s))"

definition discardClientIfFatal :: "nat \<Rightarrow> runtime \<Rightarrow> runtime" where
  "discardClientIfFatal c s =
    (if rt_client s \<noteq> Some c then s else if \<not> client_ready s c then forgetClient s else s)"

text \<open>\<open>shutdown\<close> returns the client that is shut down.\<close>

definition runtime_shutdown :: "runtime \<Rightarrow> nat option \<times> runtime" where
  "runtime_shutdown s = (rt_client s, forgetClient s)"

definition open_finished :: "nat \<Rightarrow> bool \<Rightarrow> runtime \<Rightarrow> runtime" where
  "open_finished a ok s =
    (if a < length (rt_attempts s) \<and> rt_attempts s ! a = Opening
     then s\<lparr>rt_attempts := (rt_attempts s)[a := (if ok then Opened True else OpenFailed)]\<rparr> else s)"

definition client_failed :: "nat \<Rightarrow> runtime \<Rightarrow> runtime" where
  "client_failed a s =
    (if a < length (rt_attempts s) \<and> rt_attempts s ! a = Opened True
     then s\<lparr>rt_attempts := (rt_attempts s)[a := Opened False]\<rparr> else s)"

section \<open>Requests\<close>

datatype runtime_error = RuntimeMessage string

definition optional_field :: "string \<Rightarrow> js option \<Rightarrow> js_object" where
  "optional_field k v = (case v of None \<Rightarrow> [] | Some x \<Rightarrow> [(k, x)])"

definition createResponse_params :: "js \<Rightarrow> js \<Rightarrow> string \<Rightarrow> bool \<Rightarrow> js option \<Rightarrow> js" where
  "createResponse_params connection rq transportMode websockets v2ctx = JObj
    ([(''connection'', connection), (''request'', rq), (''transportMode'', JStr transportMode),
      (''providerSupportsWebsockets'', JBool websockets)] @ optional_field ''remoteCompactionV2Context'' v2ctx)"

definition compact_params :: "js \<Rightarrow> js \<Rightarrow> string \<Rightarrow> string \<Rightarrow> bool \<Rightarrow> js option \<Rightarrow> js" where
  "compact_params connection rq implementation transportMode websockets v2ctx = JObj
    ([(''connection'', connection), (''request'', rq), (''implementation'', JStr implementation),
      (''transportMode'', JStr transportMode), (''providerSupportsWebsockets'', JBool websockets)] @
     optional_field ''remoteCompactionV2Context'' v2ctx)"

definition compact_result :: "string \<Rightarrow> js \<Rightarrow> string \<times> js option" where
  "compact_result status result = (status, if status = ''completed'' then Some result else None)"

definition estimateContext_params :: "string \<Rightarrow> string \<Rightarrow> js list \<Rightarrow> js option \<Rightarrow> js" where
  "estimateContext_params model instructions input baseline = JObj
    ([(''model'', JStr model), (''instructions'', JStr instructions), (''input'', JArr input)] @
     optional_field ''baseline'' baseline)"

definition estimate_keys :: "string list" where
  "estimate_keys = [''activeContextTokens'', ''fullEstimatedTokens'', ''suffixEstimatedTokens'',
     ''accountingSource'', ''autoCompactTokenLimit'', ''contextWindow'']"

definition safe_count :: "js \<Rightarrow> bool" where
  "safe_count v = (case v of JNum n \<Rightarrow> isSafeInteger n \<and> \<not> num_less n (Fin 0) | _ \<Rightarrow> False)"

definition decodeContextEstimate :: "js \<Rightarrow> (runtime_error, js_object) result" where
  "decodeContextEstimate v =
    (let invalid = Inl (RuntimeMessage ''Native context estimate is invalid'') in
     case as_record v of
       None \<Rightarrow> invalid
     | Some ob \<Rightarrow>
        if length (keys_of ob) \<noteq> length estimate_keys \<or> list_ex (\<lambda>k. \<not> hasOwn ob k) estimate_keys then invalid
        else if list_ex (\<lambda>k. \<not> safe_count (get_prop ob k))
            [''activeContextTokens'', ''fullEstimatedTokens'', ''suffixEstimatedTokens'', ''contextWindow'']
        then invalid
        else if get_prop ob ''autoCompactTokenLimit'' \<noteq> JNull \<and>
            \<not> (case get_prop ob ''autoCompactTokenLimit'' of
                 JNum n \<Rightarrow> isSafeInteger n \<and> \<not> num_le n (Fin 0) | _ \<Rightarrow> False)
        then invalid
        else if get_prop ob ''accountingSource'' \<noteq> JStr ''server_usage_plus_suffix'' \<and>
            get_prop ob ''accountingSource'' \<noteq> JStr ''full_estimate''
        then invalid
        else Inr ob)"

definition completed_result :: "string \<Rightarrow> string \<times> js \<Rightarrow> (runtime_error, js) result" where
  "completed_result message response =
    (if fst response \<noteq> ''completed'' then Inl (RuntimeMessage message) else Inr (snd response))"

definition estimateContext :: "string \<times> js \<Rightarrow> (runtime_error, js_object) result" where
  "estimateContext response =
     res_bind (completed_result ''Native context estimation did not complete'' response) decodeContextEstimate"

definition readDiagnostics_result :: "string \<times> js \<Rightarrow> (runtime_error, js) result" where
  "readDiagnostics_result = completed_result ''Native diagnostics did not complete''"

definition resolveTools_result :: "string \<times> js \<Rightarrow> (runtime_error, js) result" where
  "resolveTools_result = completed_result ''Native tool surface resolution did not complete''"

text \<open>
  \<open>resolveModel\<close>: \<open>Some\<close> from the cache without a request; otherwise the response of the request
  is cached when it completed.
\<close>

definition resolveModel_cached :: "string \<Rightarrow> runtime \<Rightarrow> js option" where
  "resolveModel_cached modelId s = (case rt_models s modelId of Some JUndef \<Rightarrow> None | r \<Rightarrow> r)"

definition resolveModel_response ::
  "string \<Rightarrow> string \<times> js \<Rightarrow> runtime \<Rightarrow> (runtime_error, js) result \<times> runtime" where
  "resolveModel_response modelId response s =
    (case completed_result ''Native model metadata resolution did not complete'' response of
       Inl e \<Rightarrow> (Inl e, s)
     | Inr v \<Rightarrow> (Inr v, s\<lparr>rt_models := (rt_models s)(modelId \<mapsto> v)\<rparr>))"

definition isNetworkTool :: "string \<Rightarrow> bool" where
  "isNetworkTool tool \<longleftrightarrow> tool = ''web.run'' \<or> tool = ''image_gen.imagegen''"

definition executeTool_params :: "ToolsExecuteParamsInput \<Rightarrow> js option \<Rightarrow> js_object" where
  "executeTool_params inp connection =
    (let params = buildToolsExecuteParams inp in
     case connection of
       Some c \<Rightarrow> if isNetworkTool (te_tool inp) then set_prop params ''connection'' c else params
     | None \<Rightarrow> params)"

section \<open>Approvals\<close>

text \<open>
  What happens during one approval request: how the dialogue of the host ends, whether the signal is aborted
  at each of the points where the code looks, and how the decision call ends.
\<close>

datatype dialogue = DialogueAbsent | DialogueDecides string | DialogueThrows client_error

definition isExpiredApprovalError :: "client_error \<Rightarrow> bool" where
  "isExpiredApprovalError e = (case e of
     RemoteError ob \<Rightarrow> get_prop ob ''code'' = JStr ''unknown_approval''
   | ConnectionError c \<Rightarrow> c = ProtocolFailure
   | AbortError \<Rightarrow> False)"

record approval_run =
  ap_aborted_before :: bool
  ap_dialogue :: dialogue
  ap_aborted_during :: bool
  ap_aborted_after :: bool
  ap_decide :: "client_error option"
  ap_aborted_late :: bool

text \<open>\<open>raceWithAbort\<close>: the abort wins over a dialogue that is still open.\<close>

definition raceWithAbort :: "approval_run \<Rightarrow> (client_error, string) result" where
  "raceWithAbort r =
    (if ap_aborted_during r then Inl AbortError
     else (case ap_dialogue r of
         DialogueAbsent \<Rightarrow> Inr ''decline'' | DialogueDecides d \<Rightarrow> Inr d | DialogueThrows e \<Rightarrow> Inl e))"

text \<open>The decision sent, if any, and the error thrown, if any.\<close>

definition handleApprovalRequest :: "approval_run \<Rightarrow> string option \<times> client_error option" where
  "handleApprovalRequest r =
    (if ap_aborted_before r then (None, None)
     else (case raceWithAbort r of
         Inl e \<Rightarrow> if e = AbortError \<or> ap_aborted_after r then (None, None) else (None, Some e)
       | Inr decision \<Rightarrow>
           if ap_aborted_after r then (None, None)
           else (case ap_decide r of
               None \<Rightarrow> (Some decision, None)
             | Some e \<Rightarrow>
                 if isExpiredApprovalError e \<or> ap_aborted_late r then (Some decision, None)
                 else (Some decision, Some e))))"

section \<open>Steps\<close>

inductive runtime_step :: "runtime \<Rightarrow> runtime \<Rightarrow> bool" where
  rs_connect: "runtime_step s (snd (connect s))"
| rs_opener: "a < length (rt_attempts s) \<Longrightarrow> rt_attempts s ! a \<noteq> Opening \<Longrightarrow> runtime_step s (snd (opener_continue a s))"
| rs_joiner: "a < length (rt_attempts s) \<Longrightarrow> rt_attempts s ! a \<noteq> Opening \<Longrightarrow> runtime_step s (snd (joiner_continue a s))"
| rs_discard: "runtime_step s (discardClientIfFatal c s)"
| rs_shutdown: "runtime_step s (snd (runtime_shutdown s))"
| rs_opened: "runtime_step s (open_finished a ok s)"
| rs_failed: "runtime_step s (client_failed a s)"
| rs_model: "runtime_step s (snd (resolveModel_response m response s))"

inductive runtime_reachable :: "runtime \<Rightarrow> bool" where
  rr_start: "runtime_reachable new_runtime"
| rr_step: "runtime_reachable s \<Longrightarrow> runtime_step s s' \<Longrightarrow> runtime_reachable s'"

definition runtime_inv :: "runtime \<Rightarrow> bool" where
  "runtime_inv s \<longleftrightarrow>
     (\<forall>c. rt_client s = Some c \<longrightarrow> c < length (rt_attempts s) \<and> (\<exists>b. rt_attempts s ! c = Opened b)) \<and>
     (\<forall>a. rt_connecting s = Some a \<longrightarrow> a < length (rt_attempts s))"

lemma connect_inv: "runtime_inv s \<Longrightarrow> runtime_inv (snd (connect s))"
  by (auto simp: runtime_inv_def connect_def forgetClient_def Let_def nth_append less_Suc_eq split: option.splits if_splits)

lemma forget_inv: "runtime_inv (forgetClient s)"
  by (simp add: runtime_inv_def forgetClient_def)

lemma step_runtime_inv: "runtime_step s s' \<Longrightarrow> runtime_inv s \<Longrightarrow> runtime_inv s'"
proof (induction rule: runtime_step.induct)
  case (rs_opener a s)
  then show ?case by (auto simp: opener_continue_def runtime_inv_def split: attempt.splits)
next
  case (rs_joiner a s)
  then show ?case
    using connect_inv [OF forget_inv, of s]
    by (auto simp: joiner_continue_def case_prod_beta Let_def split: attempt.splits)
next
  case (rs_opened s a ok)
  then show ?case by (auto simp: open_finished_def runtime_inv_def nth_list_update)
next
  case (rs_failed s a)
  then show ?case by (auto simp: client_failed_def runtime_inv_def nth_list_update)
next
  case (rs_model s m response)
  then show ?case by (auto simp: resolveModel_response_def runtime_inv_def split: sum.splits)
qed (simp_all add: connect_inv discardClientIfFatal_def forget_inv runtime_shutdown_def)

lemma reachable_runtime_inv: "runtime_reachable s \<Longrightarrow> runtime_inv s"
proof (induction rule: runtime_reachable.induct)
  case rr_start
  show ?case by (simp add: runtime_inv_def new_runtime_def)
qed (rule step_runtime_inv)

text \<open>
  The opener stores its client without looking whether the runtime was shut down meanwhile: the client of an
  attempt that finishes after \<open>shutdown\<close> becomes the current one.
\<close>

lemma shutdown_while_connecting_keeps_client:
  "rt_client (snd (opener_continue 0 (snd (runtime_shutdown (open_finished 0 True (snd (connect new_runtime))))))) =
     Some 0"
  by (simp add: connect_def new_runtime_def runtime_shutdown_def forgetClient_def open_finished_def
      opener_continue_def Let_def)

section \<open>Properties\<close>

text \<open>
  The connection is usable. In every reachable state a connect that returns at once returns a client
  that is ready, one that joins or opens an attempt names an existing one, and a new attempt is
  opened only when there is neither a client nor an attempt.
\<close>

theorem connect_usable:
  assumes "runtime_reachable s"
  shows "case connect s of
     (ConnectReturns c, s') \<Rightarrow> client_ready s' c \<and> rt_client s' = Some c \<and> s' = s
   | (ConnectJoins a, s') \<Rightarrow> a < length (rt_attempts s') \<and> rt_client s' = None
   | (ConnectOpens a, s') \<Rightarrow> rt_attempts s' = rt_attempts s @ [Opening] \<and> rt_connecting s' = Some a \<and>
       rt_client s' = None \<and> (\<forall>c. rt_client s = Some c \<longrightarrow> \<not> client_ready s c)"
  using reachable_runtime_inv [OF assms]
  by (auto simp: connect_def runtime_inv_def forgetClient_def Let_def split: option.splits if_splits)

theorem connect_usable_witness:
  "fst (connect (snd (opener_continue 0 (open_finished 0 True (snd (connect new_runtime)))))) = ConnectReturns 0 \<and>
   client_ready (snd (opener_continue 0 (open_finished 0 True (snd (connect new_runtime))))) 0"
proof -
  let ?s1 = "open_finished 0 True (snd (connect new_runtime))"
  let ?s = "snd (opener_continue 0 ?s1)"
  have s1: "?s1 = \<lparr>rt_client = None, rt_connecting = Some 0, rt_models = Map.empty, rt_attempts = [Opened True]\<rparr>"
    by (simp add: connect_def new_runtime_def open_finished_def Let_def)
  have "runtime_reachable ?s1"
    by (intro rr_step [OF _ rs_opened] rr_step [OF _ rs_connect] rr_start)
  then have "runtime_reachable ?s"
    by (rule rr_step [OF _ rs_opener]) (simp_all add: s1)
  note reach = this
  have st: "?s = \<lparr>rt_client = Some 0, rt_connecting = None, rt_models = Map.empty, rt_attempts = [Opened True]\<rparr>"
    unfolding s1 by (simp add: opener_continue_def)
  have ret: "connect ?s = (ConnectReturns 0, ?s)"
    unfolding st by (simp add: connect_def client_ready_def Let_def)
  from connect_usable [OF reach] show ?thesis by (simp add: ret)
qed

text \<open>
  C19: Approvals fail closed. A decision is sent only if the request was not aborted before, during or after
  the dialogue, and it is the decision of the dialogue, or a refusal where the host has no dialogue.
\<close>

theorem approval_fails_closed:
  "case fst (handleApprovalRequest r) of
     None \<Rightarrow> True
   | Some d \<Rightarrow> \<not> ap_aborted_before r \<and> \<not> ap_aborted_during r \<and> \<not> ap_aborted_after r \<and>
       (ap_dialogue r = DialogueDecides d \<or> ap_dialogue r = DialogueAbsent \<and> d = ''decline'')"
  by (auto simp: handleApprovalRequest_def raceWithAbort_def split: dialogue.splits option.splits sum.splits if_splits)

text \<open>
  A connection goes to network tools only. The parameters of a tool call carry the provider
  connection exactly when the tool is a network tool and the host supplied one, whatever arguments
  the model gave.
\<close>

theorem connection_for_network_tools:
  "get_prop (executeTool_params inp connection) ''connection'' =
    (case connection of Some c \<Rightarrow> if isNetworkTool (te_tool inp) then c else JUndef | None \<Rightarrow> JUndef)"
proof -
  have "get_prop (buildToolsExecuteParams inp) ''connection'' = JUndef"
    using host_keys_disjoint
    by (auto simp: buildToolsExecuteParams_def copy_arguments_get host_params_def)
  then show ?thesis by (simp add: executeTool_params_def Let_def split: option.split)
qed

text \<open>
  Context estimates. A decoded estimate has exactly the six fields, safe non-negative token counts, a
  positive safe limit or none, and a known accounting source.
\<close>

theorem context_estimate_checked:
  "case decodeContextEstimate v of
     Inl _ \<Rightarrow> True
   | Inr ob \<Rightarrow> v = JObj ob \<and> length ob = 6 \<and> exact_keys ob estimate_keys \<and>
       list_all (\<lambda>k. \<exists>n. get_prop ob k = JNum n \<and> isSafeInteger n \<and> \<not> num_less n (Fin 0))
         [''activeContextTokens'', ''fullEstimatedTokens'', ''suffixEstimatedTokens'', ''contextWindow''] \<and>
       (get_prop ob ''autoCompactTokenLimit'' = JNull \<or>
        (\<exists>n. get_prop ob ''autoCompactTokenLimit'' = JNum n \<and> isSafeInteger n \<and> num_less (Fin 0) n)) \<and>
       (get_prop ob ''accountingSource'' = JStr ''server_usage_plus_suffix'' \<or>
        get_prop ob ''accountingSource'' = JStr ''full_estimate'')"
proof (cases "decodeContextEstimate v")
  case (Inr ob)
  from Inr have v: "v = JObj ob" and len: "length (keys_of ob) = length estimate_keys"
    and keys: "list_all (hasOwn ob) estimate_keys"
    and counts: "list_all (\<lambda>k. safe_count (get_prop ob k))
      [''activeContextTokens'', ''fullEstimatedTokens'', ''suffixEstimatedTokens'', ''contextWindow'']"
    and lim: "get_prop ob ''autoCompactTokenLimit'' = JNull \<or> (case get_prop ob ''autoCompactTokenLimit'' of
                 JNum n \<Rightarrow> isSafeInteger n \<and> \<not> num_le n (Fin 0) | _ \<Rightarrow> False)"
    and src: "get_prop ob ''accountingSource'' = JStr ''server_usage_plus_suffix'' \<or>
        get_prop ob ''accountingSource'' = JStr ''full_estimate''"
    unfolding decodeContextEstimate_def Let_def
    by (auto simp: list_ex_iff list_all_iff split: option.splits if_splits)
  have sub: "set estimate_keys \<subseteq> set (keys_of ob)" using keys by (auto simp: list_all_iff hasOwn_def)
  have "distinct estimate_keys" by (simp add: estimate_keys_def)
  then have "card (set estimate_keys) = length (keys_of ob)" using len by (simp add: distinct_card)
  then have "set estimate_keys = set (keys_of ob)"
    using sub card_length [of "keys_of ob"] by (metis List.finite_set card_seteq)
  then have ek: "exact_keys ob estimate_keys" by (simp add: exact_keys_def)
  have safe: "safe_count x \<Longrightarrow> \<exists>n. x = JNum n \<and> isSafeInteger n \<and> \<not> num_less n (Fin 0)" for x
    by (cases x) (auto simp: safe_count_def)
  have pos: "isSafeInteger n \<Longrightarrow> \<not> num_le n (Fin 0) \<Longrightarrow> num_less (Fin 0) n" for n
    by (auto elim!: isSafeInteger_cases)
  have "length ob = 6" using len by (simp add: keys_of_def estimate_keys_def)
  with v ek counts lim src Inr show ?thesis
    using safe pos by (auto split: js.splits)
qed simp

end
