(* ===== verification/Session_Router.thy ===== *)
theory Session_Router
  imports Config_Service
begin

text \<open>
  The routing of provider calls to sessions, \<open>src/src/integration/pi/provider-session-router.ts\<close>, and the
  choice between the adaptor and the host's own stream, \<open>provider-dispatcher.ts\<close>. A lease binds one
  session id to a pair of dispatchers. The router keeps weak references, so the collection of a lease that
  its owner dropped and the later run of its finalizer are steps of the environment. A binding is named by
  its position in the list of all bindings ever created, which is also its token.

  The reference specification of a lookup is the set of live bindings of the session: the code finds a
  binding exactly when there is one, and refuses when there is none or more than one.
\<close>

section \<open>Bindings\<close>

record 'd SessionDispatchBinding =
  bd_dispatchers :: 'd
  bd_sessionId :: "string option"
  bd_released :: bool
  bd_collected :: bool

type_synonym router_buckets = "string \<rightharpoonup> nat list"

record 'd session_router =
  sr_bindings :: "'d SessionDispatchBinding list"
  sr_buckets :: router_buckets
  sr_finalizer :: "(nat \<times> string) list"

definition createProviderSessionRouter :: "'d session_router" where
  "createProviderSessionRouter = \<lparr>sr_bindings = [], sr_buckets = Map.empty, sr_finalizer = []\<rparr>"

datatype BindingResolution = BindingFound nat | BindingUnavailable | BindingAmbiguous

datatype lease_error = EmptySessionId | ReleasedLease

definition removeToken :: "router_buckets \<Rightarrow> string \<Rightarrow> nat \<Rightarrow> router_buckets" where
  "removeToken buckets sessionId token = (case buckets sessionId of
     None \<Rightarrow> buckets
   | Some bucket \<Rightarrow>
       (let rest = filter (\<lambda>t. t \<noteq> token) bucket in
        if rest = [] then buckets(sessionId := None) else buckets(sessionId \<mapsto> rest)))"

text \<open>\<open>reference.deref()\<close> and the test of the loop of \<open>resolveBinding\<close>.\<close>

definition live_for :: "'d SessionDispatchBinding list \<Rightarrow> string \<Rightarrow> nat \<Rightarrow> bool" where
  "live_for bindings sessionId token \<longleftrightarrow>
    (let b = bindings ! token in \<not> bd_collected b \<and> \<not> bd_released b \<and> bd_sessionId b = Some sessionId)"

definition resolveBinding :: "string \<Rightarrow> 'd session_router \<Rightarrow> BindingResolution \<times> 'd session_router" where
  "resolveBinding sessionId r = (case sr_buckets r sessionId of
     None \<Rightarrow> (BindingUnavailable, r)
   | Some bucket \<Rightarrow>
      (let live = filter (live_for (sr_bindings r) sessionId) bucket;
           r' = r\<lparr>sr_buckets := (if live = [] then (sr_buckets r)(sessionId := None)
                                 else (sr_buckets r)(sessionId \<mapsto> live))\<rparr>
       in (case live of
             [] \<Rightarrow> BindingUnavailable
           | [b] \<Rightarrow> BindingFound b
           | _ \<Rightarrow> BindingAmbiguous, r')))"

definition createLease :: "'d \<Rightarrow> 'd session_router \<Rightarrow> nat \<times> 'd session_router" where
  "createLease dispatchers r = (length (sr_bindings r), r\<lparr>sr_bindings := sr_bindings r @
     [\<lparr>bd_dispatchers = dispatchers, bd_sessionId = None, bd_released = False, bd_collected = False\<rparr>]\<rparr>)"

definition unregister :: "nat \<Rightarrow> (nat \<times> string) list \<Rightarrow> (nat \<times> string) list" where
  "unregister token regs = filter (\<lambda>e. fst e \<noteq> token) regs"

definition lease_bind :: "nat \<Rightarrow> string \<Rightarrow> 'd session_router \<Rightarrow> (lease_error, unit) result \<times> 'd session_router" where
  "lease_bind i sessionId r =
    (let b = sr_bindings r ! i in
     if length (trim sessionId) = 0 then (Inl EmptySessionId, r)
     else if bd_released b then (Inl ReleasedLease, r)
     else
      (let r1 = (case bd_sessionId b of
             None \<Rightarrow> r
           | Some old \<Rightarrow> r\<lparr>sr_finalizer := unregister i (sr_finalizer r),
               sr_buckets := removeToken (sr_buckets r) old i\<rparr>);
           bucket = (case sr_buckets r1 sessionId of None \<Rightarrow> [] | Some ts \<Rightarrow> ts)
       in (Inr (), r1\<lparr>sr_bindings := (sr_bindings r1)[i := b\<lparr>bd_sessionId := Some sessionId\<rparr>],
             sr_buckets := (sr_buckets r1)(sessionId \<mapsto> (if i \<in> set bucket then bucket else bucket @ [i])),
             sr_finalizer := sr_finalizer r1 @ [(i, sessionId)]\<rparr>)))"

definition lease_release :: "nat \<Rightarrow> 'd session_router \<Rightarrow> 'd session_router" where
  "lease_release i r =
    (let b = sr_bindings r ! i in
     if bd_released b then r
     else r\<lparr>sr_bindings := (sr_bindings r)[i := b\<lparr>bd_released := True, bd_sessionId := None\<rparr>],
        sr_finalizer := unregister i (sr_finalizer r),
        sr_buckets := (case bd_sessionId b of None \<Rightarrow> sr_buckets r | Some old \<Rightarrow> removeToken (sr_buckets r) old i)\<rparr>)"

text \<open>The environment: an unreachable lease is collected, and later the finalizer runs for it.\<close>

definition lease_collected :: "nat \<Rightarrow> 'd session_router \<Rightarrow> 'd session_router" where
  "lease_collected i r = r\<lparr>sr_bindings := (sr_bindings r)[i := (sr_bindings r ! i)\<lparr>bd_collected := True\<rparr>]\<rparr>"

definition run_finalizer :: "nat \<times> string \<Rightarrow> 'd session_router \<Rightarrow> 'd session_router" where
  "run_finalizer reg r = r\<lparr>sr_buckets := removeToken (sr_buckets r) (snd reg) (fst reg),
     sr_finalizer := remove1 reg (sr_finalizer r)\<rparr>"

section \<open>Dispatch\<close>

record Model =
  model_id :: string
  model_provider :: string
  model_api :: string

record AssistantMessage =
  msg_api :: string
  msg_provider :: string
  msg_model :: string
  msg_stopReason :: string
  msg_errorMessage :: "string option"
  msg_timestamp :: int

datatype stream_event = StreamStart AssistantMessage | StreamError string AssistantMessage

definition createEmptyAssistantMessage :: "int \<Rightarrow> Model \<Rightarrow> AssistantMessage" where
  "createEmptyAssistantMessage now m = \<lparr>msg_api = model_api m, msg_provider = model_provider m, msg_model = model_id m,
     msg_stopReason = ''pending'', msg_errorMessage = None, msg_timestamp = now\<rparr>"

text \<open>The events of the ended stream.\<close>

definition createRouteErrorStream :: "int \<Rightarrow> Model \<Rightarrow> string \<Rightarrow> stream_event list" where
  "createRouteErrorStream now m reason =
    [StreamStart (createEmptyAssistantMessage now m),
     StreamError ''error'' ((createEmptyAssistantMessage now m)\<lparr>msg_stopReason := ''error'',
       msg_errorMessage := Some reason\<rparr>)]"

definition ROUTE_UNAVAILABLE :: string where
  "ROUTE_UNAVAILABLE = ''Codex provider route is unavailable for the current Pi session''"

definition ROUTE_AMBIGUOUS :: string where
  "ROUTE_AMBIGUOUS = ''Codex provider route is ambiguous for the current Pi session''"

datatype dispatch_field = CodexResponses | OpenAiResponses

datatype 'd dispatched = RouteError "stream_event list" | RouteTo 'd dispatch_field

text \<open>The value \<open>sessionId\<close> is that of the options snapshot, \<open>JUndef\<close> where there is none.\<close>

definition router_dispatch ::
  "dispatch_field \<Rightarrow> int \<Rightarrow> Model \<Rightarrow> js \<Rightarrow> 'd session_router \<Rightarrow> 'd dispatched \<times> 'd session_router" where
  "router_dispatch fld now m sessionId r = (case sessionId of
     JStr sid \<Rightarrow>
       if length (trim sid) = 0 then (RouteError (createRouteErrorStream now m ROUTE_UNAVAILABLE), r)
       else (case resolveBinding sid r of
           (BindingFound b, r') \<Rightarrow> (RouteTo (bd_dispatchers (sr_bindings r' ! b)) fld, r')
         | (BindingAmbiguous, r') \<Rightarrow> (RouteError (createRouteErrorStream now m ROUTE_AMBIGUOUS), r')
         | (BindingUnavailable, r') \<Rightarrow> (RouteError (createRouteErrorStream now m ROUTE_UNAVAILABLE), r'))
   | _ \<Rightarrow> (RouteError (createRouteErrorStream now m ROUTE_UNAVAILABLE), r))"

section \<open>The process-wide slot\<close>

text \<open>
  What the global slot may hold: nothing, a value that is not an object, or an object with a kind, a
  version and, where its \<open>router\<close> is an object, the types of the three members of that router.
\<close>

record slot_object =
  slot_kind :: js
  slot_version :: js
  slot_router :: "(nat \<times> bool \<times> bool \<times> bool) option"

datatype slot_value = SlotUndefined | SlotPrimitive | SlotObject slot_object

definition isCompatibleSlot :: "slot_value \<Rightarrow> bool" where
  "isCompatibleSlot v = (case v of
     SlotObject ob \<Rightarrow> slot_kind ob = JStr ''pi-codex-adaptor-provider-session-router'' \<and> slot_version ob = jint 1 \<and>
       (case slot_router ob of None \<Rightarrow> False | Some (_, f1, f2, f3) \<Rightarrow> f1 \<and> f2 \<and> f3)
   | _ \<Rightarrow> False)"

definition slot_router_of :: "slot_value \<Rightarrow> nat option" where
  "slot_router_of v = (case v of SlotObject ob \<Rightarrow> map_option fst (slot_router ob) | _ \<Rightarrow> None)"

text \<open>
  \<open>fresh\<close> names the router that would be created; \<open>store\<close> is \<open>Reflect.set\<close> on the global object,
  \<open>None\<close> where it refuses. The result is \<open>None\<close> where the function throws.
\<close>

definition getProcessProviderSessionRouter ::
  "nat \<Rightarrow> (slot_value \<Rightarrow> slot_value option) \<Rightarrow> slot_value \<Rightarrow> nat option \<times> slot_value" where
  "getProcessProviderSessionRouter fresh store current =
    (if current \<noteq> SlotUndefined
     then (if isCompatibleSlot current then (slot_router_of current, current) else (None, current))
     else (case store (SlotObject \<lparr>slot_kind = JStr ''pi-codex-adaptor-provider-session-router'', slot_version = jint 1,
                 slot_router = Some (fresh, True, True, True)\<rparr>) of
         None \<Rightarrow> (None, current)
       | Some installed \<Rightarrow>
           if isCompatibleSlot installed then (slot_router_of installed, installed) else (None, installed)))"

section \<open>Adaptor or host stream\<close>

datatype stream_choice = AdaptorStream | FallbackStream

definition createDispatcher :: "('s, 'x) service \<Rightarrow> Model \<Rightarrow> stream_choice" where
  "createDispatcher activation m =
    (if isActive (Some \<lparr>am_provider = model_provider m, am_api = model_api m\<rparr>) activation
     then AdaptorStream else FallbackStream)"

definition selectedCodexProviderIds :: "string list \<Rightarrow> string list" where
  "selectedCodexProviderIds providerIds = unique_values (''openai-codex'' # providerIds)"

record ProviderConfig =
  pc_api :: string
  pc_streamSimple :: dispatch_field

datatype registration = RegisterProvider string ProviderConfig | UnregisterProvider string

definition registerCodexProviderRoutes :: "string list \<Rightarrow> registration list" where
  "registerCodexProviderRoutes providerIds = map (\<lambda>providerId.
     if providerId = ''openai-codex''
     then RegisterProvider providerId \<lparr>pc_api = ''openai-codex-responses'', pc_streamSimple = CodexResponses\<rparr>
     else RegisterProvider providerId \<lparr>pc_api = ''openai-responses'', pc_streamSimple = OpenAiResponses\<rparr>)
     (selectedCodexProviderIds providerIds)"

text \<open>The calls made, in order, and the new set of provider ids.\<close>

definition reconcileCodexProviderRoutes :: "bool \<Rightarrow> string list \<Rightarrow> string list \<Rightarrow> registration list \<times> string list" where
  "reconcileCodexProviderRoutes canUnregister previousProviderIds providerIds =
    (let selected = selectedCodexProviderIds providerIds;
         removed = (if canUnregister
           then map UnregisterProvider (filter (\<lambda>p. p \<notin> set selected) previousProviderIds) else [])
     in (removed @ registerCodexProviderRoutes providerIds, selected))"

section \<open>Steps\<close>

inductive router_step :: "'d session_router \<Rightarrow> 'd session_router \<Rightarrow> bool" where
  rt_lease: "router_step r (snd (createLease d r))"
| rt_bind: "i < length (sr_bindings r) \<Longrightarrow> \<not> bd_collected (sr_bindings r ! i) \<Longrightarrow> router_step r (snd (lease_bind i sid r))"
| rt_release: "i < length (sr_bindings r) \<Longrightarrow> \<not> bd_collected (sr_bindings r ! i) \<Longrightarrow> router_step r (lease_release i r)"
| rt_dispatch: "router_step r (snd (router_dispatch fld now m sid r))"
| rt_collect: "i < length (sr_bindings r) \<Longrightarrow> router_step r (lease_collected i r)"
| rt_finalize: "reg \<in> set (sr_finalizer r) \<Longrightarrow> bd_collected (sr_bindings r ! fst reg) \<Longrightarrow>
    router_step r (run_finalizer reg r)"

inductive router_reachable :: "'d session_router \<Rightarrow> bool" where
  router_start: "router_reachable createProviderSessionRouter"
| router_next: "router_reachable r \<Longrightarrow> router_step r r' \<Longrightarrow> router_reachable r'"

text \<open>
  Every token of a bucket is a binding of that session, collected or not yet released, and every live
  binding is in the bucket of its session.
\<close>

definition bucket_of :: "router_buckets \<Rightarrow> string \<Rightarrow> nat list" where
  "bucket_of buckets sid = (case buckets sid of None \<Rightarrow> [] | Some b \<Rightarrow> b)"

definition router_ok :: "'d SessionDispatchBinding list \<Rightarrow> router_buckets \<Rightarrow> (nat \<times> string) list \<Rightarrow> bool" where
  "router_ok bs bks regs \<longleftrightarrow>
     (\<forall>sid. bks sid \<noteq> Some [] \<and> distinct (bucket_of bks sid)) \<and>
     (\<forall>sid i. i \<in> set (bucket_of bks sid) \<longrightarrow> i < length bs \<and> bd_sessionId (bs ! i) = Some sid) \<and>
     (\<forall>i < length bs. \<forall>sid. live_for bs sid i \<longrightarrow> i \<in> set (bucket_of bks sid)) \<and>
     (\<forall>e \<in> set regs. fst e < length bs) \<and>
     (\<forall>i < length bs. bd_released (bs ! i) \<longrightarrow> bd_sessionId (bs ! i) = None)"

definition router_inv :: "'d session_router \<Rightarrow> bool" where
  "router_inv r \<longleftrightarrow> router_ok (sr_bindings r) (sr_buckets r) (sr_finalizer r)"

lemma removeToken_bucket:
  "bucket_of (removeToken bks old i) sid =
     (if sid = old then filter (\<lambda>t. t \<noteq> i) (bucket_of bks sid) else bucket_of bks sid)"
  by (auto simp: bucket_of_def removeToken_def Let_def filter_empty_conv split: option.splits)

lemma bucket_of_update [simp]: "bucket_of (bks(sid \<mapsto> b)) x = (if x = sid then b else bucket_of bks x)"
  "bucket_of (bks(sid := None)) x = (if x = sid then [] else bucket_of bks x)"
  by (simp_all add: bucket_of_def)

lemma removeToken_nonempty:
  "\<forall>sid. bks sid \<noteq> Some [] \<Longrightarrow> removeToken bks old i sid \<noteq> Some []"
  by (simp add: removeToken_def Let_def split: option.split)

lemma filter_neq_id: "i \<notin> set xs \<Longrightarrow> filter (\<lambda>t. t \<noteq> i) xs = xs"
  by (auto simp: filter_id_conv)

lemma router_okI:
  assumes "\<And>sid. bks sid \<noteq> Some []" and "\<And>sid. distinct (bucket_of bks sid)"
    and "\<And>sid i. i \<in> set (bucket_of bks sid) \<Longrightarrow> i < length bs \<and> bd_sessionId (bs ! i) = Some sid"
    and "\<And>sid i. i < length bs \<Longrightarrow> live_for bs sid i \<Longrightarrow> i \<in> set (bucket_of bks sid)"
    and "\<And>e. e \<in> set regs \<Longrightarrow> fst e < length bs"
    and "\<And>i. i < length bs \<Longrightarrow> bd_released (bs ! i) \<Longrightarrow> bd_sessionId (bs ! i) = None"
  shows "router_ok bs bks regs"
  using assms by (simp add: router_ok_def)

lemma router_okD:
  assumes "router_ok bs bks regs"
  shows "\<forall>sid. bks sid \<noteq> Some []" "distinct (bucket_of bks sid)"
    "i \<in> set (bucket_of bks sid) \<Longrightarrow> i < length bs"
    "i \<in> set (bucket_of bks sid) \<Longrightarrow> bd_sessionId (bs ! i) = Some sid"
    "i < length bs \<Longrightarrow> live_for bs sid i \<Longrightarrow> i \<in> set (bucket_of bks sid)"
    "\<forall>e \<in> set regs. fst e < length bs"
    "i < length bs \<Longrightarrow> bd_released (bs ! i) \<Longrightarrow> bd_sessionId (bs ! i) = None"
  using assms by (auto simp: router_ok_def)

text \<open>Detaching binding \<open>i\<close> from its session, and attaching a detached one.\<close>

definition detached :: "'d SessionDispatchBinding list \<Rightarrow> nat \<Rightarrow> router_buckets \<Rightarrow> router_buckets" where
  "detached bs i bks = (case bd_sessionId (bs ! i) of None \<Rightarrow> bks | Some old \<Rightarrow> removeToken bks old i)"

lemma detached_bucket:
  assumes "router_ok bs bks regs"
  shows "bucket_of (detached bs i bks) sid = filter (\<lambda>t. t \<noteq> i) (bucket_of bks sid)"
proof (cases "bd_sessionId (bs ! i) = Some sid")
  case False
  then have "i \<notin> set (bucket_of bks sid)" using router_okD(4) [OF assms] by blast
  with False show ?thesis by (simp add: detached_def removeToken_bucket filter_neq_id split: option.split)
qed (simp add: detached_def removeToken_bucket)

lemma detach_ok:
  assumes ok: "router_ok bs bks regs" and i: "i < length bs"
  shows "router_ok (bs[i := (bs ! i)\<lparr>bd_released := rel, bd_sessionId := None\<rparr>]) (detached bs i bks) (unregister i regs)"
proof (rule router_okI)
  show "detached bs i bks sid \<noteq> Some []" for sid
    using router_okD(1) [OF ok] by (simp add: detached_def removeToken_nonempty split: option.split)
  show "j \<in> set (bucket_of (detached bs i bks) sid)"
    if "j < length (bs[i := (bs ! i)\<lparr>bd_released := rel, bd_sessionId := None\<rparr>])"
      "live_for (bs[i := (bs ! i)\<lparr>bd_released := rel, bd_sessionId := None\<rparr>]) sid j" for sid j
    using that router_okD(5) [OF ok, of j sid] i
    by (auto simp: detached_bucket [OF ok] live_for_def nth_list_update Let_def split: if_splits)
qed (use router_okD [OF ok] i in \<open>auto simp: detached_bucket [OF ok] unregister_def nth_list_update split: if_splits\<close>)

lemma attach_ok:
  assumes ok: "router_ok bs bks regs" and i: "i < length bs" and none: "bd_sessionId (bs ! i) = None"
    and b: "bd_released b = False" "bd_collected b = bd_collected (bs ! i)" "bd_sessionId b = Some sid"
  shows "router_ok (bs[i := b]) (bks(sid \<mapsto> bucket_of bks sid @ [i])) (regs @ [(i, sid)])"
proof -
  have out: "i \<notin> set (bucket_of bks x)" for x using router_okD(4) [OF ok, of i x] none by auto
  show ?thesis
  proof (rule router_okI)
    show "(bks(sid \<mapsto> bucket_of bks sid @ [i])) x \<noteq> Some []" for x using router_okD(1) [OF ok] by simp
    show "distinct (bucket_of (bks(sid \<mapsto> bucket_of bks sid @ [i])) x)" for x
      using router_okD(2) [OF ok] out by simp
    show "j < length (bs[i := b]) \<and> bd_sessionId (bs[i := b] ! j) = Some x"
      if "j \<in> set (bucket_of (bks(sid \<mapsto> bucket_of bks sid @ [i])) x)" for x j
      using that out [of x] i b(3) router_okD(3,4) [OF ok, of j x] by (auto simp: nth_list_update split: if_splits)
    show "j \<in> set (bucket_of (bks(sid \<mapsto> bucket_of bks sid @ [i])) x)"
      if "j < length (bs[i := b])" "live_for (bs[i := b]) x j" for x j
      using that i b router_okD(5) [OF ok, of j x]
      by (auto simp: live_for_def nth_list_update Let_def split: if_splits)
  qed (use router_okD(6,7) [OF ok] i b(1) in \<open>auto simp: nth_list_update\<close>)
qed

lemma release_inv: "router_inv r \<Longrightarrow> i < length (sr_bindings r) \<Longrightarrow> router_inv (lease_release i r)"
  using detach_ok [of "sr_bindings r" "sr_buckets r" "sr_finalizer r" i True]
  by (simp add: lease_release_def router_inv_def detached_def Let_def)

lemma bind_inv:
  assumes inv: "router_inv r" and i: "i < length (sr_bindings r)"
  shows "router_inv (snd (lease_bind i sid r))"
proof (cases "length (trim sid) = 0 \<or> bd_released (sr_bindings r ! i)")
  case True
  with inv show ?thesis by (auto simp: lease_bind_def Let_def)
next
  case False
  let ?b = "sr_bindings r ! i"
  let ?bs = "(sr_bindings r)[i := ?b\<lparr>bd_released := False, bd_sessionId := None\<rparr>]"
  let ?bks = "detached (sr_bindings r) i (sr_buckets r)"
  show ?thesis
  proof (cases "bd_sessionId ?b")
    case None
    then have out: "i \<notin> set (bucket_of (sr_buckets r) sid)"
      using router_okD(4) [OF inv [unfolded router_inv_def], of i sid] by auto
    from False None out attach_ok [OF inv [unfolded router_inv_def] i None, of "?b\<lparr>bd_sessionId := Some sid\<rparr>"]
    show ?thesis by (auto simp: lease_bind_def router_inv_def Let_def bucket_of_def [symmetric])
  next
    case (Some old)
    have ok: "router_ok ?bs ?bks (unregister i (sr_finalizer r))"
      using detach_ok inv i by (auto simp: router_inv_def)
    have out: "i \<notin> set (bucket_of ?bks sid)"
      using detached_bucket [OF inv [unfolded router_inv_def], of i sid] by simp
    from False Some out attach_ok [OF ok, of i "?b\<lparr>bd_sessionId := Some sid\<rparr>"] i
    show ?thesis by (auto simp: lease_bind_def router_inv_def Let_def bucket_of_def [symmetric] detached_def)
  qed
qed

lemma lease_inv: "router_inv r \<Longrightarrow> router_inv (snd (createLease d r))"
  unfolding router_inv_def
  by (rule router_okI)
    (auto simp: createLease_def live_for_def Let_def nth_append less_Suc_eq dest: router_okD)

lemma collect_inv: "router_inv r \<Longrightarrow> i < length (sr_bindings r) \<Longrightarrow> router_inv (lease_collected i r)"
  unfolding router_inv_def
  by (rule router_okI)
    (auto simp: lease_collected_def live_for_def Let_def nth_list_update dest: router_okD split: if_splits)

lemma finalize_inv:
  assumes inv: "router_inv r" and "reg \<in> set (sr_finalizer r)" "bd_collected (sr_bindings r ! fst reg)"
  shows "router_inv (run_finalizer reg r)"
proof -
  note ok = inv [unfolded router_inv_def]
  show ?thesis
    unfolding router_inv_def
  proof (rule router_okI)
    show "sr_buckets (run_finalizer reg r) sid \<noteq> Some []" for sid
      using router_okD(1) [OF ok] by (simp add: run_finalizer_def removeToken_nonempty)
    show "i \<in> set (bucket_of (sr_buckets (run_finalizer reg r)) sid)"
      if "i < length (sr_bindings (run_finalizer reg r))" "live_for (sr_bindings (run_finalizer reg r)) sid i" for sid i
      using that assms(3) router_okD(5) [OF ok, of i sid]
      by (auto simp: run_finalizer_def removeToken_bucket live_for_def Let_def)
  qed (use router_okD(2-4,6,7) [OF ok] set_remove1_subset [of reg "sr_finalizer r"] in
      \<open>auto simp: run_finalizer_def removeToken_bucket split: if_splits\<close>)
qed

lemma resolve_eq:
  "resolveBinding sid r =
    (let live = filter (live_for (sr_bindings r) sid) (bucket_of (sr_buckets r) sid) in
     (case live of [] \<Rightarrow> BindingUnavailable | [b] \<Rightarrow> BindingFound b | _ \<Rightarrow> BindingAmbiguous,
      r\<lparr>sr_buckets := (if live = [] then (sr_buckets r)(sid := None) else (sr_buckets r)(sid \<mapsto> live))\<rparr>))"
  by (auto simp: resolveBinding_def bucket_of_def Let_def fun_upd_idem split: option.splits)

lemma resolve_inv:
  assumes "router_inv r"
  shows "router_inv (snd (resolveBinding sid r))"
proof -
  note ok = assms [unfolded router_inv_def]
  let ?live = "filter (live_for (sr_bindings r) sid) (bucket_of (sr_buckets r) sid)"
  show ?thesis
    unfolding router_inv_def resolve_eq Let_def snd_conv
  proof (rule router_okI)
    show "sr_buckets (r\<lparr>sr_buckets := (if ?live = [] then (sr_buckets r)(sid := None)
        else (sr_buckets r)(sid \<mapsto> ?live))\<rparr>) x \<noteq> Some []" for x
      using router_okD(1) [OF ok] by simp
  qed (use router_okD(2-7) [OF ok] in \<open>auto split: if_splits simp: filter_empty_conv\<close>)
qed

lemma dispatch_inv: "router_inv r \<Longrightarrow> router_inv (snd (router_dispatch fld now m sid r))"
  using resolve_inv [of r]
  by (auto simp: router_dispatch_def split: js.split prod.split BindingResolution.split) (metis snd_conv)+

lemma step_router_inv: "router_step r r' \<Longrightarrow> router_inv r \<Longrightarrow> router_inv r'"
  by (induction rule: router_step.induct)
    (simp_all add: lease_inv bind_inv release_inv dispatch_inv collect_inv finalize_inv)

lemma reachable_router_inv: "router_reachable r \<Longrightarrow> router_inv r"
proof (induction rule: router_reachable.induct)
  case router_start
  show ?case by (simp add: router_inv_def router_ok_def createProviderSessionRouter_def bucket_of_def)
qed (rule step_router_inv)

section \<open>Lookups against the live bindings\<close>

definition live_bindings :: "'d session_router \<Rightarrow> string \<Rightarrow> nat list" where
  "live_bindings r sid = filter (live_for (sr_bindings r) sid) [0..<length (sr_bindings r)]"

lemma live_bucket_set:
  assumes "router_inv r"
  shows "set (filter (live_for (sr_bindings r) sid) (bucket_of (sr_buckets r) sid)) = set (live_bindings r sid)"
  using router_okD(3,5) [OF assms [unfolded router_inv_def]] by (auto simp: live_bindings_def)

lemma distinct_same_set_cases:
  assumes "distinct xs" "distinct ys" "set xs = set ys"
  shows "(case xs of [] \<Rightarrow> a | [b] \<Rightarrow> f b | _ \<Rightarrow> c) = (case ys of [] \<Rightarrow> a | [b] \<Rightarrow> f b | _ \<Rightarrow> c)"
proof -
  have len: "length xs = length ys" using assms by (metis distinct_card)
  consider "ys = []" | y where "ys = [y]" | y y' zs where "ys = y # y' # zs"
    by (metis neq_Nil_conv)
  then show ?thesis
  proof cases
    case 2
    with assms len show ?thesis by (cases xs) auto
  next
    case 3
    with len obtain x x' ws where "xs = x # x' # ws" by (metis Suc_length_conv length_Cons)
    with 3 show ?thesis by simp
  qed (use assms in simp)
qed

lemma resolve_live:
  assumes "router_inv r"
  shows "fst (resolveBinding sid r) = (case live_bindings r sid of
    [] \<Rightarrow> BindingUnavailable | [b] \<Rightarrow> BindingFound b | _ \<Rightarrow> BindingAmbiguous)"
  unfolding resolve_eq Let_def fst_conv
  by (rule distinct_same_set_cases)
    (use live_bucket_set [OF assms, of sid] router_okD(2) [OF assms [unfolded router_inv_def]] in
      \<open>auto simp: live_bindings_def\<close>)

lemma dispatch_live:
  assumes "router_inv r"
  shows "fst (router_dispatch fld now m sid r) = (case sid of
     JStr s \<Rightarrow> if trim s = [] then RouteError (createRouteErrorStream now m ROUTE_UNAVAILABLE)
       else (case live_bindings r s of
           [] \<Rightarrow> RouteError (createRouteErrorStream now m ROUTE_UNAVAILABLE)
         | [b] \<Rightarrow> RouteTo (bd_dispatchers (sr_bindings r ! b)) fld
         | _ \<Rightarrow> RouteError (createRouteErrorStream now m ROUTE_AMBIGUOUS))
   | _ \<Rightarrow> RouteError (createRouteErrorStream now m ROUTE_UNAVAILABLE))"
proof (cases sid)
  case (JStr s)
  have "sr_bindings (snd (resolveBinding s r)) = sr_bindings r" by (simp add: resolve_eq Let_def)
  with resolve_live [OF assms, of s] JStr show ?thesis
    by (cases "resolveBinding s r") (simp add: router_dispatch_def split: list.split)
qed (simp_all add: router_dispatch_def)

section \<open>Registrations\<close>

text \<open>What a host that keeps one configuration per provider id holds after the calls.\<close>

fun apply_registration :: "registration \<Rightarrow> (string \<rightharpoonup> ProviderConfig) \<Rightarrow> (string \<rightharpoonup> ProviderConfig)" where
  "apply_registration (RegisterProvider p c) reg = reg(p \<mapsto> c)"
| "apply_registration (UnregisterProvider p) reg = reg(p := None)"

definition route_config :: "string \<Rightarrow> ProviderConfig" where
  "route_config p = (if p = ''openai-codex''
     then \<lparr>pc_api = ''openai-codex-responses'', pc_streamSimple = CodexResponses\<rparr>
     else \<lparr>pc_api = ''openai-responses'', pc_streamSimple = OpenAiResponses\<rparr>)"

lemma registerCodexProviderRoutes_eq:
  "registerCodexProviderRoutes ps = map (\<lambda>p. RegisterProvider p (route_config p)) (selectedCodexProviderIds ps)"
  by (simp add: registerCodexProviderRoutes_def route_config_def)

lemma apply_registers:
  "fold apply_registration (map (\<lambda>p. RegisterProvider p (f p)) ps) reg =
     (\<lambda>p. if p \<in> set ps then Some (f p) else reg p)"
  by (induction ps arbitrary: reg) (auto simp: fun_eq_iff)

lemma apply_unregisters:
  "fold apply_registration (map UnregisterProvider ps) reg = (\<lambda>p. if p \<in> set ps then None else reg p)"
  by (induction ps arbitrary: reg) (auto simp: fun_eq_iff)

section \<open>Properties\<close>

text \<open>
  C15: Routing by session. In every reachable state, however leases are created, bound, rebound, released,
  collected and finalized, a call is routed to the dispatchers of a lease exactly when that lease is the
  only live one bound to the session of the call; otherwise the caller gets an ended error stream that says
  whether the route is missing or ambiguous.
\<close>

theorem routed_to_only_live_lease:
  assumes "router_reachable r"
  shows "fst (router_dispatch fld now m sid r) = (case sid of
     JStr s \<Rightarrow> if trim s = [] then RouteError (createRouteErrorStream now m ROUTE_UNAVAILABLE)
       else (case live_bindings r s of
           [] \<Rightarrow> RouteError (createRouteErrorStream now m ROUTE_UNAVAILABLE)
         | [b] \<Rightarrow> RouteTo (bd_dispatchers (sr_bindings r ! b)) fld
         | _ \<Rightarrow> RouteError (createRouteErrorStream now m ROUTE_AMBIGUOUS))
   | _ \<Rightarrow> RouteError (createRouteErrorStream now m ROUTE_UNAVAILABLE))"
  by (rule dispatch_live [OF reachable_router_inv [OF assms]])

definition sample_router :: "string session_router" where
  "sample_router = snd (lease_bind 1 ''b'' (snd (createLease ''second''
     (snd (lease_bind 0 ''a'' (snd (createLease ''first'' createProviderSessionRouter)))))))"

definition sample_route_model :: Model where
  "sample_route_model = \<lparr>model_id = ''m'', model_provider = ''openai-codex'', model_api = ''openai-codex-responses''\<rparr>"

theorem routed_to_only_live_lease_witness:
  "fst (router_dispatch CodexResponses 0 sample_route_model (JStr ''b'') sample_router) = RouteTo ''second'' CodexResponses"
proof -
  let ?r0 = "createProviderSessionRouter :: string session_router"
  let ?r1 = "snd (createLease ''first'' ?r0)"
  let ?r2 = "snd (lease_bind 0 ''a'' ?r1)"
  let ?r3 = "snd (createLease ''second'' ?r2)"
  have r2: "?r2 = \<lparr>sr_bindings = [\<lparr>bd_dispatchers = ''first'', bd_sessionId = Some ''a'', bd_released = False,
      bd_collected = False\<rparr>], sr_buckets = [''a'' \<mapsto> [0]], sr_finalizer = [(0, ''a'')]\<rparr>"
    by (simp add: createProviderSessionRouter_def createLease_def lease_bind_def Let_def trim_def js_space_def)
  have sample: "sample_router = \<lparr>sr_bindings = [\<lparr>bd_dispatchers = ''first'', bd_sessionId = Some ''a'', bd_released = False,
      bd_collected = False\<rparr>, \<lparr>bd_dispatchers = ''second'', bd_sessionId = Some ''b'', bd_released = False,
      bd_collected = False\<rparr>], sr_buckets = [''a'' \<mapsto> [0], ''b'' \<mapsto> [1]], sr_finalizer = [(0, ''a''), (1, ''b'')]\<rparr>"
    unfolding sample_router_def r2
    by (simp add: createLease_def lease_bind_def Let_def trim_def js_space_def)
  have "router_reachable ?r1" by (intro router_next [OF _ rt_lease] router_start)
  then have "router_reachable ?r2"
    by (rule router_next [OF _ rt_bind]) (simp_all add: createProviderSessionRouter_def createLease_def)
  then have "router_reachable ?r3" by (rule router_next [OF _ rt_lease])
  then have "router_reachable sample_router"
    unfolding sample_router_def by (rule router_next [OF _ rt_bind]) (unfold r2, simp_all add: createLease_def)
  from routed_to_only_live_lease [OF this, of CodexResponses 0 sample_route_model "JStr ''b''"] show ?thesis
    by (simp add: sample live_bindings_def live_for_def Let_def trim_def js_space_def upt_rec)
qed

text \<open>
  Provider registrations follow the configuration. After a reconciliation every selected provider id, and always
  the Codex provider, is registered with the API and the handler of its kind; ids that are no longer
  selected are unregistered where the host can do that; all other registrations are unchanged.
\<close>

theorem reconcile_exact:
  "fold apply_registration (fst (reconcileCodexProviderRoutes canUnregister previous ps)) reg p =
    (if p = ''openai-codex'' \<or> p \<in> set ps then Some (route_config p)
     else if canUnregister \<and> p \<in> set previous then None else reg p) \<and>
   set (snd (reconcileCodexProviderRoutes canUnregister previous ps)) = insert ''openai-codex'' (set ps)"
  by (auto simp: reconcileCodexProviderRoutes_def registerCodexProviderRoutes_eq selectedCodexProviderIds_def
      apply_registers apply_unregisters Let_def)

text \<open>
  One router per process. If the slot was free or compatible, a later call returns the router of the first
  call; a slot that holds anything else is refused and left alone.
\<close>

theorem process_router_stable:
  "case getProcessProviderSessionRouter fresh store current of
     (Some router, slot) \<Rightarrow> getProcessProviderSessionRouter fresh' store' slot = (Some router, slot)
   | (None, slot) \<Rightarrow> if current = SlotUndefined then True else slot = current \<and> \<not> isCompatibleSlot current"
proof -
  have some: "isCompatibleSlot v \<Longrightarrow> \<exists>n. slot_router_of v = Some n \<and> v \<noteq> SlotUndefined" for v
    by (cases v) (auto simp: isCompatibleSlot_def slot_router_of_def split: option.splits)
  show ?thesis
    using some [of current] some
    by (auto simp: getProcessProviderSessionRouter_def split: option.splits if_splits) force+
qed

end
