(* ===== verification/Message_Normalization.thy ===== *)
theory Message_Normalization
  imports Js_Prelude
begin

text \<open>
  The repair of message histories, \<open>src/src/integration/pi/codex-message-normalization.ts\<close>: assistant
  messages that failed are dropped, and a tool call whose result was not recorded gets a synthetic one
  before the next turn. Messages are JSON values; \<open>parse\<close> stands for \<open>JSON.parse\<close> and is
  arbitrary, \<open>None\<close> where it throws.

  The lemmas show that a normalized history is closed (every call of it is answered before the turn
  ends), that normalizing it again changes nothing, and that nothing is lost or reordered: without the
  synthetic results it is the original without the failed assistant messages.
\<close>

section \<open>Tool calls\<close>

definition INTERRUPTED_TOOL_RESULT_TEXT :: string where
  "INTERRUPTED_TOOL_RESULT_TEXT =
     ''Tool result was not recorded. The tool may have partially executed; inspect state before retrying.''"

datatype OutputKind = FunctionOutput | CustomOutput

record PendingToolCall =
  ptc_callId :: string
  ptc_toolName :: string
  ptc_outputKind :: OutputKind

datatype normalization_error = NormalizationError

definition outputKindForToolName :: "string \<Rightarrow> OutputKind" where
  "outputKindForToolName toolName = (if toolName = ''apply_patch'' then CustomOutput else FunctionOutput)"

definition resultKind :: "js_object \<Rightarrow> OutputKind" where
  "resultKind message = outputKindForToolName (case get_prop message ''toolName'' of JStr s \<Rightarrow> s | _ \<Rightarrow> '''')"

definition nonEmptyString :: "js \<Rightarrow> string option" where
  "nonEmptyString v = (case v of JStr s \<Rightarrow> if 0 < length s then Some s else None | _ \<Rightarrow> None)"

definition normalization_hasExactKeys :: "js_object \<Rightarrow> string list \<Rightarrow> bool" where
  "normalization_hasExactKeys v ks \<longleftrightarrow>
     length (keys_of v) = card (set ks) \<and> list_all (\<lambda>k. k \<in> set ks) (keys_of v)"

text \<open>The kind a signature claims: \<open>None\<close> inside where there is no signature of this form.\<close>

definition signedToolCallKind ::
  "(string \<Rightarrow> js option) \<Rightarrow> js \<Rightarrow> string \<Rightarrow> (normalization_error, OutputKind option) result" where
  "signedToolCallKind parse v visibleCallId = (case v of
     JStr s \<Rightarrow>
       if length s = 0 then Inr None
       else (case parse s of
           None \<Rightarrow> Inr None
         | Some parsed \<Rightarrow>
           (case as_record parsed of
              None \<Rightarrow> Inr None
            | Some envelope \<Rightarrow>
              if \<not> normalization_hasExactKeys envelope [''v'', ''kind'', ''item''] \<or> get_prop envelope ''v'' \<noteq> jint 2 \<or>
                 get_prop envelope ''kind'' \<noteq> JStr ''pi-codex-adaptor.response-item''
              then Inr None
              else (case as_record (get_prop envelope ''item'') of
                  None \<Rightarrow> Inl NormalizationError
                | Some item \<Rightarrow>
                   (case nonEmptyString (get_prop item ''call_id'') of
                      None \<Rightarrow> Inl NormalizationError
                    | Some callId \<Rightarrow>
                        if callId \<noteq> visibleCallId then Inl NormalizationError
                        else if get_prop item ''type'' = JStr ''custom_tool_call'' then Inr (Some CustomOutput)
                        else if get_prop item ''type'' = JStr ''function_call'' then Inr (Some FunctionOutput)
                        else Inl NormalizationError))))
   | _ \<Rightarrow> Inr None)"

fun collect_blocks ::
  "(string \<Rightarrow> js option) \<Rightarrow> js list \<Rightarrow> string set \<Rightarrow> PendingToolCall list \<Rightarrow>
     (normalization_error, PendingToolCall list) result" where
  "collect_blocks parse [] ids calls = Inr calls"
| "collect_blocks parse (block # blocks) ids calls =
    (case as_record block of
       None \<Rightarrow> collect_blocks parse blocks ids calls
     | Some content \<Rightarrow>
       if get_prop content ''type'' \<noteq> JStr ''toolCall'' then collect_blocks parse blocks ids calls
       else (case (nonEmptyString (get_prop content ''id''), nonEmptyString (get_prop content ''name'')) of
           (Some callId, Some toolName) \<Rightarrow>
             if callId \<in> ids then Inl NormalizationError
             else (case signedToolCallKind parse (get_prop content ''thoughtSignature'') callId of
                 Inl e \<Rightarrow> Inl e
               | Inr signedKind \<Rightarrow>
                   if signedKind \<noteq> None \<and> signedKind \<noteq> Some (outputKindForToolName toolName)
                   then Inl NormalizationError
                   else collect_blocks parse blocks (insert callId ids)
                     (calls @ [\<lparr>ptc_callId = callId, ptc_toolName = toolName,
                        ptc_outputKind = (case signedKind of None \<Rightarrow> outputKindForToolName toolName | Some k \<Rightarrow> k)\<rparr>]))
         | _ \<Rightarrow> Inl NormalizationError))"

definition collectToolCalls ::
  "(string \<Rightarrow> js option) \<Rightarrow> js_object \<Rightarrow> (normalization_error, PendingToolCall list) result" where
  "collectToolCalls parse message = (case get_prop message ''content'' of
     JArr blocks \<Rightarrow> collect_blocks parse blocks {} [] | _ \<Rightarrow> Inr [])"

definition syntheticToolResult :: "PendingToolCall \<Rightarrow> js" where
  "syntheticToolResult call = JObj
    [(''role'', JStr ''toolResult''), (''toolCallId'', JStr (ptc_callId call)), (''toolName'', JStr (ptc_toolName call)),
     (''content'', JArr [JObj [(''type'', JStr ''text''), (''text'', JStr INTERRUPTED_TOOL_RESULT_TEXT)]]),
     (''isError'', JBool True), (''timestamp'', jint 0)]"

section \<open>The loop\<close>

definition isTurnBoundary :: "js_object \<Rightarrow> bool" where
  "isTurnBoundary message \<longleftrightarrow>
     get_prop message ''role'' \<in> {JStr ''user'', JStr ''custom'', JStr ''branchSummary'', JStr ''compactionSummary'',
       JStr ''assistant''} \<or>
     get_prop message ''role'' = JStr ''bashExecution'' \<and> get_prop message ''excludeFromContext'' \<noteq> JBool True"

text \<open>\<open>pending.findIndex\<close> and \<open>pending.splice(index, 1)\<close>: the first pending call with the id.\<close>

fun take_call :: "string \<Rightarrow> PendingToolCall list \<Rightarrow> (PendingToolCall \<times> PendingToolCall list) option" where
  "take_call callId [] = None"
| "take_call callId (c # cs) = (if ptc_callId c = callId then Some (c, cs)
     else map_option (\<lambda>(x, rest). (x, c # rest)) (take_call callId cs))"

text \<open>What one message adds to the result, and the calls pending after it.\<close>

definition normalize_message ::
  "(string \<Rightarrow> js option) \<Rightarrow> js \<Rightarrow> PendingToolCall list \<Rightarrow>
     (normalization_error, js list \<times> PendingToolCall list) result" where
  "normalize_message parse message pending0 = (case as_record message of
     None \<Rightarrow> Inr ([message], pending0)
   | Some raw \<Rightarrow>
      (case get_prop raw ''role'' of
         JStr role \<Rightarrow>
          (let flushed = (if isTurnBoundary raw then map syntheticToolResult pending0 else []);
               pending = (if isTurnBoundary raw then [] else pending0)
           in if role = ''assistant''
              then (if get_prop raw ''stopReason'' = JStr ''error'' \<or> get_prop raw ''stopReason'' = JStr ''aborted''
                    then Inr (flushed, pending)
                    else (case collectToolCalls parse raw of
                        Inl e \<Rightarrow> Inl e | Inr calls \<Rightarrow> Inr (flushed @ [message], calls)))
              else if role = ''toolResult''
              then (case get_prop raw ''toolCallId'' of
                  JStr callId \<Rightarrow>
                   (case take_call callId pending of
                      None \<Rightarrow> Inr (flushed @ [message], pending)
                    | Some (call, rest) \<Rightarrow>
                        if resultKind raw \<noteq> ptc_outputKind call then Inl NormalizationError
                        else Inr (flushed @ [message], rest))
                | _ \<Rightarrow> Inr (flushed @ [message], pending))
              else Inr (flushed @ [message], pending))
       | _ \<Rightarrow> Inr ([message], pending0)))"

fun normalize_loop ::
  "(string \<Rightarrow> js option) \<Rightarrow> js list \<Rightarrow> PendingToolCall list \<Rightarrow> (normalization_error, js list) result" where
  "normalize_loop parse [] pending = Inr (map syntheticToolResult pending)"
| "normalize_loop parse (message # messages) pending =
    (case normalize_message parse message pending of
       Inl e \<Rightarrow> Inl e
     | Inr (out, pending') \<Rightarrow>
        (case normalize_loop parse messages pending' of
           Inl e \<Rightarrow> Inl e | Inr rest \<Rightarrow> Inr (out @ rest)))"

definition normalizeCodexContextMessages ::
  "(string \<Rightarrow> js option) \<Rightarrow> js list \<Rightarrow> (normalization_error, js list) result" where
  "normalizeCodexContextMessages parse messages =
    (case normalize_loop parse messages [] of
       Inl e \<Rightarrow> Inl e
     | Inr normalized \<Rightarrow> Inr (if messages = normalized then messages else normalized))"

section \<open>Specification\<close>

definition role_of :: "js \<Rightarrow> string option" where
  "role_of m = (case as_record m of None \<Rightarrow> None | Some raw \<Rightarrow> as_string (get_prop raw ''role''))"

definition boundary :: "js \<Rightarrow> bool" where
  "boundary m = (case as_record m of None \<Rightarrow> False | Some raw \<Rightarrow> isTurnBoundary raw)"

definition failed_assistant :: "js \<Rightarrow> bool" where
  "failed_assistant m \<longleftrightarrow> role_of m = Some ''assistant'' \<and> (case as_record m of None \<Rightarrow> False
     | Some raw \<Rightarrow> get_prop raw ''stopReason'' = JStr ''error'' \<or> get_prop raw ''stopReason'' = JStr ''aborted'')"

definition calls_of :: "(string \<Rightarrow> js option) \<Rightarrow> js \<Rightarrow> PendingToolCall list" where
  "calls_of parse m = (if role_of m = Some ''assistant''
     then (case as_record m of None \<Rightarrow> [] | Some raw \<Rightarrow>
       (case collectToolCalls parse raw of Inl _ \<Rightarrow> [] | Inr calls \<Rightarrow> calls)) else [])"

definition answers :: "PendingToolCall \<Rightarrow> js \<Rightarrow> bool" where
  "answers c m \<longleftrightarrow> role_of m = Some ''toolResult'' \<and> (case as_record m of None \<Rightarrow> False
     | Some raw \<Rightarrow> get_prop raw ''toolCallId'' = JStr (ptc_callId c) \<and> resultKind raw = ptc_outputKind c)"

text \<open>The call is answered, by a result of its kind, before the next turn begins.\<close>

fun answered_in :: "PendingToolCall \<Rightarrow> js list \<Rightarrow> bool" where
  "answered_in c [] = False"
| "answered_in c (m # ms) = (answers c m \<or> (\<not> boundary m \<and> answered_in c ms))"

fun well_answered :: "(string \<Rightarrow> js option) \<Rightarrow> js list \<Rightarrow> bool" where
  "well_answered parse [] = True"
| "well_answered parse (m # ms) =
    (\<not> failed_assistant m \<and> list_all (\<lambda>c. answered_in c ms) (calls_of parse m) \<and> well_answered parse ms)"

text \<open>The second list is the first with synthetic results inserted.\<close>

inductive repaired :: "js list \<Rightarrow> js list \<Rightarrow> bool" where
  rep_nil: "repaired [] []"
| rep_same: "repaired xs ys \<Longrightarrow> repaired (x # xs) (x # ys)"
| rep_new: "repaired xs ys \<Longrightarrow> repaired xs (syntheticToolResult c # ys)"

section \<open>One message\<close>

definition wf_call :: "PendingToolCall \<Rightarrow> bool" where
  "wf_call c \<longleftrightarrow> ptc_outputKind c = outputKindForToolName (ptc_toolName c)"

lemma collect_blocks_wf:
  "collect_blocks parse blocks ids calls = Inr out \<Longrightarrow> list_all wf_call calls \<Longrightarrow> list_all wf_call out"
  by (induction parse blocks ids calls rule: collect_blocks.induct)
    (auto simp: wf_call_def split: option.splits if_splits sum.splits)

lemma collect_wf: "collectToolCalls parse raw = Inr calls \<Longrightarrow> list_all wf_call calls"
  by (auto simp: collectToolCalls_def dest: collect_blocks_wf split: js.splits)

lemma take_call_set:
  "take_call i p = Some (c, rest) \<Longrightarrow> ptc_callId c = i \<and> c \<in> set p \<and> set p = insert c (set rest)"
  by (induction p arbitrary: rest) (auto split: if_splits)

lemma synthetic_record:
  "as_record (syntheticToolResult c) = Some [(''role'', JStr ''toolResult''), (''toolCallId'', JStr (ptc_callId c)),
     (''toolName'', JStr (ptc_toolName c)),
     (''content'', JArr [JObj [(''type'', JStr ''text''), (''text'', JStr INTERRUPTED_TOOL_RESULT_TEXT)]]),
     (''isError'', JBool True), (''timestamp'', jint 0)]"
  by (simp add: syntheticToolResult_def as_record_def)

lemma synthetic_facts [simp]:
  "role_of (syntheticToolResult c) = Some ''toolResult''" "\<not> boundary (syntheticToolResult c)"
  "\<not> failed_assistant (syntheticToolResult c)" "calls_of parse (syntheticToolResult c) = []"
  by (simp_all add: role_of_def boundary_def failed_assistant_def calls_of_def synthetic_record get_prop_def
      as_string_def isTurnBoundary_def)

lemma synthetic_answers: "wf_call c \<Longrightarrow> answers c (syntheticToolResult c)"
  by (simp add: answers_def synthetic_record get_prop_def resultKind_def wf_call_def)

lemma normalize_synthetic:
  "wf_call c \<Longrightarrow> normalize_message parse (syntheticToolResult c) (c # p) = Inr ([syntheticToolResult c], p)"
  by (simp add: normalize_message_def synthetic_record get_prop_def isTurnBoundary_def resultKind_def wf_call_def Let_def)

text \<open>
  The four ways in which a message is handled: dropped, kept as an assistant message, kept as the answer of a
  pending call, or just kept.
\<close>

lemma normalize_message_cases:
  assumes "normalize_message parse m p = Inr (out, p')"
  obtains (dropped) "boundary m" "failed_assistant m" "out = map syntheticToolResult p" "p' = []"
  | (assistant) "boundary m" "\<not> failed_assistant m" "out = map syntheticToolResult p @ [m]" "p' = calls_of parse m"
      "list_all wf_call p'"
  | (answer) c where "\<not> boundary m" "calls_of parse m = []" "\<not> failed_assistant m" "out = [m]"
      "answers c m" "take_call (ptc_callId c) p = Some (c, p')"
  | (turn) "boundary m" "calls_of parse m = []" "\<not> failed_assistant m" "out = map syntheticToolResult p @ [m]" "p' = []"
  | (kept) "\<not> boundary m" "calls_of parse m = []" "\<not> failed_assistant m" "out = [m]" "p' = p"
proof (cases "as_record m")
  case None
  with assms kept show ?thesis
    by (simp add: normalize_message_def boundary_def calls_of_def failed_assistant_def role_of_def)
next
  case (Some raw)
  note facts = Some boundary_def calls_of_def failed_assistant_def role_of_def answers_def as_string_def
  show ?thesis
  proof (cases "get_prop raw ''role''")
    case (JStr role)
    consider "role = ''assistant''" | "role = ''toolResult''" | "role \<noteq> ''assistant''" "role \<noteq> ''toolResult''" by blast
    then show ?thesis
    proof cases
      case 1
      with Some JStr assms dropped assistant show ?thesis
        by (auto simp: normalize_message_def isTurnBoundary_def facts collect_wf Let_def split: if_splits sum.splits)
    next
      case 2
      show ?thesis
      proof (cases "\<exists>i c. get_prop raw ''toolCallId'' = JStr i \<and> take_call i p = Some (c, p')")
        case True
        then obtain i c where ic: "get_prop raw ''toolCallId'' = JStr i" "take_call i p = Some (c, p')" by blast
        with 2 Some JStr assms have "out = [m]" "resultKind raw = ptc_outputKind c"
          by (auto simp: normalize_message_def isTurnBoundary_def Let_def split: if_splits)
        with 2 ic take_call_set [OF ic(2)] JStr show ?thesis
          by (intro answer [of c]) (simp_all add: facts isTurnBoundary_def)
      next
        case False
        with 2 Some JStr assms kept show ?thesis
          by (auto simp: normalize_message_def isTurnBoundary_def facts Let_def split: js.splits option.splits if_splits)
      qed
    next
      case 3
      with Some JStr assms turn kept show ?thesis
        by (cases "isTurnBoundary raw") (auto simp: normalize_message_def facts Let_def)
    qed
  qed (use Some assms kept in \<open>auto simp: normalize_message_def isTurnBoundary_def facts\<close>)
qed

section \<open>The whole history\<close>

lemma loop_synthetic:
  "list_all wf_call p \<Longrightarrow> normalize_loop parse (map syntheticToolResult p @ ms) (p @ q) =
     (case normalize_loop parse ms q of Inl e \<Rightarrow> Inl e | Inr out \<Rightarrow> Inr (map syntheticToolResult p @ out))"
  by (induction p) (auto simp: normalize_synthetic split: sum.split)

lemma loop_Cons:
  "normalize_loop parse (m # ms) p = Inr out \<longleftrightarrow>
    (\<exists>o1 p' o2. normalize_message parse m p = Inr (o1, p') \<and> normalize_loop parse ms p' = Inr o2 \<and> out = o1 @ o2)"
  by (auto split: sum.splits)

text \<open>A boundary with nothing pending, and a message that is just kept, behave the same on the second run.\<close>

lemma boundary_again:
  "normalize_message parse m p = Inr (map syntheticToolResult p @ [m], p') \<Longrightarrow> boundary m \<Longrightarrow>
     normalize_message parse m [] = Inr ([m], p')"
proof -
  assume m: "normalize_message parse m p = Inr (map syntheticToolResult p @ [m], p')" and b: "boundary m"
  obtain raw where raw1: "as_record m = Some raw" "isTurnBoundary raw"
    using b by (cases "as_record m") (simp_all add: boundary_def)
  obtain role where raw: "as_record m = Some raw" "isTurnBoundary raw" "get_prop raw ''role'' = JStr role"
    and role: "role \<noteq> ''toolResult''"
    using raw1 unfolding isTurnBoundary_def by fastforce
  show ?thesis
  proof (cases "role = ''assistant''")
    case True
    with m raw show ?thesis
      by (cases "collectToolCalls parse raw") (auto simp: normalize_message_def Let_def split: if_splits)
  next
    case False
    with m raw role show ?thesis by (simp add: normalize_message_def Let_def)
  qed
qed

lemma pending_wf:
  assumes "normalize_message parse m p = Inr (out, p')" and "list_all wf_call p"
  shows "list_all wf_call p'"
  using assms
  by (cases rule: normalize_message_cases) (auto simp: list_all_iff dest: take_call_set)

lemma loop_idem:
  "list_all wf_call p \<Longrightarrow> normalize_loop parse ms p = Inr out \<Longrightarrow> normalize_loop parse out p = Inr out"
proof (induction ms arbitrary: p out)
  case Nil
  with loop_synthetic [of p parse "[]" "[]"] show ?case by simp
next
  case (Cons m ms)
  from Cons.prems(2) obtain o1 p' o2 where m: "normalize_message parse m p = Inr (o1, p')"
    and ms: "normalize_loop parse ms p' = Inr o2" and out: "out = o1 @ o2"
    unfolding loop_Cons by blast
  have again: "normalize_loop parse o2 p' = Inr o2" by (rule Cons.IH [OF pending_wf [OF m Cons.prems(1)] ms])
  have flush: "normalize_loop parse ((map syntheticToolResult p @ [m]) @ o2) p = Inr ((map syntheticToolResult p @ [m]) @ o2)"
    if "boundary m" "o1 = map syntheticToolResult p @ [m]"
    using loop_synthetic [OF Cons.prems(1), of parse "m # o2" "[]"] boundary_again [OF m [unfolded that(2)] that(1)] again
    by simp
  from m show ?case
  proof (cases rule: normalize_message_cases)
    case dropped
    then show ?thesis using loop_synthetic [OF Cons.prems(1), of parse o2 "[]"] again out by simp
  qed (use flush m again out in \<open>simp_all add: out\<close>)
qed

lemma answered_later:
  "normalize_loop parse ms p = Inr out \<Longrightarrow> list_all wf_call p \<Longrightarrow> c \<in> set p \<Longrightarrow> answered_in c out"
proof (induction ms arbitrary: p out)
  have flush: "answered_in c (map syntheticToolResult p @ ms)" if "c \<in> set p" "list_all wf_call p" for p ms
    using that by (induction p) (auto simp: synthetic_answers)
  {
    case Nil
    then show ?case using flush [of p "[]"] by simp
  next
    case (Cons m ms)
    from Cons.prems(1) obtain o1 p' o2 where m: "normalize_message parse m p = Inr (o1, p')"
      and ms: "normalize_loop parse ms p' = Inr o2" and out: "out = o1 @ o2"
      unfolding loop_Cons by blast
    note IH = Cons.IH [OF ms pending_wf [OF m Cons.prems(2)]]
    from m show ?case
    proof (cases rule: normalize_message_cases)
      case (answer d)
      then show ?thesis using IH take_call_set [OF answer(6)] Cons.prems(3) out by (cases "c = d") auto
    qed (use IH Cons.prems flush [of p] in \<open>auto simp: out\<close>)
  }
qed

lemma well_answered_synthetic [simp]: "well_answered parse (map syntheticToolResult p @ ms) = well_answered parse ms"
  by (induction p) auto

lemma loop_answered:
  "normalize_loop parse ms p = Inr out \<Longrightarrow> list_all wf_call p \<Longrightarrow> well_answered parse out"
proof (induction ms arbitrary: p out)
  case Nil
  then show ?case using well_answered_synthetic [of parse p "[]"] by simp
next
  case (Cons m ms)
  from Cons.prems(1) obtain o1 p' o2 where m: "normalize_message parse m p = Inr (o1, p')"
    and ms: "normalize_loop parse ms p' = Inr o2" and out: "out = o1 @ o2"
    unfolding loop_Cons by blast
  have IH: "well_answered parse o2" by (rule Cons.IH [OF ms pending_wf [OF m Cons.prems(2)]])
  from m show ?case
  proof (cases rule: normalize_message_cases)
    case assistant
    then have "list_all (\<lambda>c. answered_in c o2) (calls_of parse m)"
      using answered_later [OF ms] by (auto simp: list_all_iff)
    with assistant IH show ?thesis by (simp add: out)
  qed (use IH in \<open>simp_all add: out\<close>)
qed

lemma repaired_synthetic: "repaired xs ys \<Longrightarrow> repaired xs (map syntheticToolResult p @ ys)"
  by (induction p) (auto intro: rep_new)

lemma loop_repaired:
  "normalize_loop parse ms p = Inr out \<Longrightarrow> repaired (filter (\<lambda>m. \<not> failed_assistant m) ms) out"
proof (induction ms arbitrary: p out)
  case Nil
  then show ?case using repaired_synthetic [OF rep_nil, of p] by simp
next
  case (Cons m ms)
  from Cons.prems obtain o1 p' o2 where m: "normalize_message parse m p = Inr (o1, p')"
    and ms: "normalize_loop parse ms p' = Inr o2" and out: "out = o1 @ o2"
    unfolding loop_Cons by blast
  note IH = Cons.IH [OF ms]
  from m show ?case
    by (cases rule: normalize_message_cases) (use IH in \<open>auto simp: out intro: repaired_synthetic rep_same\<close>)
qed

lemma normalize_eq: "normalizeCodexContextMessages parse ms = normalize_loop parse ms []"
  by (simp add: normalizeCodexContextMessages_def split: sum.split)

section \<open>Properties\<close>

text \<open>
  Every tool call is answered. In a normalized history no assistant message that failed is left, and
  every tool call of an assistant message is answered, by a result of its kind, before the next turn
  begins; the history is the original one, in order, without the failed assistant messages and with
  synthetic results inserted.
\<close>

theorem normalized_calls_answered:
  "case normalizeCodexContextMessages parse ms of
     Inl _ \<Rightarrow> True
   | Inr out \<Rightarrow> well_answered parse out \<and> repaired (filter (\<lambda>m. \<not> failed_assistant m) ms) out"
  using loop_answered [of parse ms "[]"] loop_repaired [of parse ms "[]"]
  by (simp add: normalize_eq split: sum.split)

text \<open>
  Normalization is idempotent. A history that was normalized is accepted unchanged.
\<close>

theorem normalization_idempotent:
  "case normalizeCodexContextMessages parse ms of
     Inl _ \<Rightarrow> True | Inr out \<Rightarrow> normalizeCodexContextMessages parse out = Inr out"
  using loop_idem [of "[]" parse ms] by (simp add: normalize_eq split: sum.split)

end
