(* ===== verification/Compaction_Checkpoint.thy ===== *)
theory Compaction_Checkpoint
  imports Structured_Json "HOL-Library.List_Lexorder" "HOL-Library.Char_ord"
begin

text \<open>
  Remote compaction checkpoints of \<open>src/src/application/compaction.ts\<close>: validation of the
  opaque output, creation and strict parsing of the persisted entry, the identity a checkpoint
  is bound to and its key. Values are the trees of the strict JSON theory, so
  \<open>isStrictPlainRecord\<close> is \<open>as_record\<close>, \<open>isStrictJsonArray\<close> is \<open>as_array\<close> and
  \<open>isStrictJsonValue\<close> is \<open>strict_js\<close> here, and \<open>structuredClone\<close> is the identity.
  The lemmas show that what is created parses back to itself, that nothing else parses, and
  that the identity key is injective on valid identities.
\<close>

section \<open>Types\<close>

definition CODEX_REMOTE_COMPACTION_KIND :: string where
  "CODEX_REMOTE_COMPACTION_KIND = ''pi-codex-adaptor.remote-compaction''"

definition CODEX_REMOTE_COMPACTION_VERSION :: js where
  "CODEX_REMOTE_COMPACTION_VERSION = jint 1"

datatype BindingKind = JwtAccount | Credential

record AuthenticationBinding =
  bindingKind :: BindingKind
  fingerprint :: string

record CodexCompactionIdentity =
  sessionFingerprint :: string
  providerId :: string
  api :: string
  baseUrl :: string
  modelId :: string
  authenticationBinding :: AuthenticationBinding

record NormalizedUsage =
  inputTokens :: jsnum
  outputTokens :: jsnum
  cachedInputTokens :: jsnum
  reasoningTokens :: "jsnum option"

datatype CompactionImplementation = RemoteV2 | CompactEndpoint

record CodexRemoteCompactionCheckpoint =
  cp_identity :: CodexCompactionIdentity
  checkpointId :: string
  coveredEntryId :: string
  implementation :: CompactionImplementation
  cp_output :: "js list"
  tokensBefore :: jsnum
  cp_usage :: "NormalizedUsage option"

definition MAX_IDENTITY_FIELD_LENGTH :: nat where "MAX_IDENTITY_FIELD_LENGTH = 4096"
definition MAX_CHECKPOINT_ID_LENGTH :: nat where "MAX_CHECKPOINT_ID_LENGTH = 256"
definition MAX_OUTPUT_ITEMS :: nat where "MAX_OUTPUT_ITEMS = 8192"

section \<open>Response items\<close>

definition METADATA_FIELD :: string where
  "METADATA_FIELD = ''internal_chat_message_metadata_passthrough''"

definition RESPONSE_ITEM_FIELDS :: "(string \<times> string list) list" where
  "RESPONSE_ITEM_FIELDS =
    [(''additional_tools'', [''type'', ''id'', ''role'', ''tools'']),
     (''message'', [''type'', ''id'', ''role'', ''content'', ''phase'', METADATA_FIELD]),
     (''agent_message'', [''type'', ''id'', ''author'', ''recipient'', ''content'', METADATA_FIELD]),
     (''reasoning'', [''type'', ''id'', ''summary'', ''content'', ''encrypted_content'', METADATA_FIELD]),
     (''local_shell_call'', [''type'', ''id'', ''call_id'', ''status'', ''action'', METADATA_FIELD]),
     (''function_call'', [''type'', ''id'', ''name'', ''namespace'', ''arguments'', ''call_id'',
        METADATA_FIELD]),
     (''tool_search_call'', [''type'', ''id'', ''call_id'', ''status'', ''execution'', ''arguments'',
        METADATA_FIELD]),
     (''function_call_output'', [''type'', ''id'', ''call_id'', ''output'', METADATA_FIELD]),
     (''custom_tool_call'', [''type'', ''id'', ''status'', ''call_id'', ''name'', ''namespace'', ''input'',
        METADATA_FIELD]),
     (''custom_tool_call_output'', [''type'', ''id'', ''call_id'', ''name'', ''output'', METADATA_FIELD]),
     (''tool_search_output'', [''type'', ''id'', ''call_id'', ''status'', ''execution'', ''tools'',
        METADATA_FIELD]),
     (''web_search_call'', [''type'', ''id'', ''status'', ''action'', METADATA_FIELD]),
     (''image_generation_call'', [''type'', ''id'', ''status'', ''revised_prompt'', ''result'',
        METADATA_FIELD]),
     (''compaction'', [''type'', ''id'', ''encrypted_content'', METADATA_FIELD]),
     (''context_compaction'', [''type'', ''id'', ''encrypted_content'', METADATA_FIELD])]"

definition nonempty_text :: "js \<Rightarrow> bool" where
  "nonempty_text v = (case v of JStr s \<Rightarrow> s \<noteq> [] | _ \<Rightarrow> False)"

definition isSupportedStructuredResponseItem :: "js \<Rightarrow> bool" where
  "isSupportedStructuredResponseItem v =
    (case as_record v of
       None \<Rightarrow> False
     | Some ob \<Rightarrow>
        (case as_string (get_prop ob ''type'') of
           None \<Rightarrow> False
         | Some ty \<Rightarrow>
            (case map_of RESPONSE_ITEM_FIELDS ty of
               None \<Rightarrow> False
             | Some fs \<Rightarrow>
                 \<not> list_ex (\<lambda>k. k \<notin> set fs) (keys_of ob) \<and>
                 list_all (\<lambda>kv. strict_js (snd kv)) ob \<and>
                 (if ty = ''compaction'' \<or> ty = ''context_compaction''
                  then nonempty_text (get_prop ob ''encrypted_content'') else True))))"

definition item_type :: "js \<Rightarrow> string option" where
  "item_type v = (case as_record v of None \<Rightarrow> None | Some ob \<Rightarrow> as_string (get_prop ob ''type''))"

definition is_compaction_item :: "js \<Rightarrow> bool" where
  "is_compaction_item v \<longleftrightarrow> item_type v = Some ''compaction''"

definition validateCompactionOutput :: "js \<Rightarrow> (string, js list) result" where
  "validateCompactionOutput v =
    (case as_array v of
       None \<Rightarrow> Inl ''Remote compaction output is invalid''
     | Some items \<Rightarrow>
         if length items = 0 \<or> MAX_OUTPUT_ITEMS < length items
         then Inl ''Remote compaction output is invalid''
         else res_bind
           (traverse (\<lambda>item. if isSupportedStructuredResponseItem item then Inr item
              else Inl ''Remote compaction output item is invalid'') items)
           (\<lambda>output. if length (filter is_compaction_item output) \<noteq> 1
              then Inl ''Remote compaction output must contain exactly one compaction item''
              else Inr output))"

section \<open>Field validation\<close>

definition hasControlCharacter :: "string \<Rightarrow> bool" where
  "hasControlCharacter s = list_ex (\<lambda>c. (of_char c :: nat) < 32 \<or> (of_char c :: nat) = 127) s"

definition valid_text :: "nat \<Rightarrow> string \<Rightarrow> bool" where
  "valid_text maximum s \<longleftrightarrow> \<not> (length s = 0 \<or> maximum < length s \<or> length (trim s) = 0 \<or>
     hasControlCharacter s)"

definition requireText :: "js \<Rightarrow> string \<Rightarrow> nat \<Rightarrow> (string, string) result" where
  "requireText v label maximum = (case v of
     JStr s \<Rightarrow> if valid_text maximum s then Inr s else Inl (label @ '' is invalid'')
   | _ \<Rightarrow> Inl (label @ '' is invalid''))"

definition normalizeNonNegativeInteger :: "js \<Rightarrow> string \<Rightarrow> (string, jsnum) result" where
  "normalizeNonNegativeInteger v label = (case v of
     JNum n \<Rightarrow> if isSafeInteger n \<and> \<not> num_less n (Fin 0) then Inr n else Inl (label @ '' is invalid'')
   | _ \<Rightarrow> Inl (label @ '' is invalid''))"

text \<open>Both key lists are sorted and compared position by position.\<close>

definition hasExactKeys :: "js_object \<Rightarrow> string list \<Rightarrow> bool" where
  "hasExactKeys ob expected \<longleftrightarrow> sort (keys_of ob) = sort expected"

definition validateAuthenticationBinding :: "js \<Rightarrow> (string, AuthenticationBinding) result" where
  "validateAuthenticationBinding v =
    (case as_record v of
       None \<Rightarrow> Inl ''Authentication binding is invalid''
     | Some ob \<Rightarrow>
         if \<not> hasExactKeys ob [''kind'', ''fingerprint''] then Inl ''Authentication binding is invalid''
         else (case get_prop ob ''kind'' of
             JStr k \<Rightarrow>
               if k = ''jwt_account'' \<or> k = ''credential'' then
                 res_bind (requireText (get_prop ob ''fingerprint'') ''authentication fingerprint''
                     MAX_IDENTITY_FIELD_LENGTH)
                   (\<lambda>f. Inr \<lparr>bindingKind = (if k = ''jwt_account'' then JwtAccount else Credential),
                     fingerprint = f\<rparr>)
               else Inl ''Authentication binding is invalid''
           | _ \<Rightarrow> Inl ''Authentication binding is invalid''))"

definition validateIdentity :: "js \<Rightarrow> (string, CodexCompactionIdentity) result" where
  "validateIdentity v =
    (case as_record v of
       None \<Rightarrow> Inl ''Compaction identity is invalid''
     | Some ob \<Rightarrow>
       let txt = (\<lambda>k label. requireText (get_prop ob k) label MAX_IDENTITY_FIELD_LENGTH) in
       res_bind (txt ''sessionFingerprint'' ''session fingerprint'') (\<lambda>sf.
       res_bind (txt ''providerId'' ''provider ID'') (\<lambda>pid.
       res_bind (txt ''api'' ''API'') (\<lambda>a.
       res_bind (txt ''baseUrl'' ''base URL'') (\<lambda>bu.
       res_bind (txt ''modelId'' ''model ID'') (\<lambda>mid.
       res_bind (validateAuthenticationBinding (get_prop ob ''authenticationBinding'')) (\<lambda>ab.
         Inr \<lparr>sessionFingerprint = sf, providerId = pid, api = a, baseUrl = bu, modelId = mid,
           authenticationBinding = ab\<rparr>)))))))"

definition parseIdentity :: "js_object \<Rightarrow> (string, CodexCompactionIdentity) result" where
  "parseIdentity ob = validateIdentity (JObj
     [(''sessionFingerprint'', get_prop ob ''sessionFingerprint''),
      (''providerId'', get_prop ob ''providerId''),
      (''api'', get_prop ob ''api''),
      (''baseUrl'', get_prop ob ''baseUrl''),
      (''modelId'', get_prop ob ''modelId''),
      (''authenticationBinding'', get_prop ob ''authenticationBinding'')])"

definition validateUsage :: "js \<Rightarrow> (string, NormalizedUsage) result" where
  "validateUsage v =
    (case as_record v of
       None \<Rightarrow> Inl ''Usage is invalid''
     | Some ob \<Rightarrow>
       let keys = [''inputTokens'', ''outputTokens'', ''cachedInputTokens''] in
       if \<not> hasExactKeys ob keys \<and> \<not> hasExactKeys ob (keys @ [''reasoningTokens''])
       then Inl ''Usage is invalid''
       else
       res_bind (normalizeNonNegativeInteger (get_prop ob ''inputTokens'') ''input tokens'') (\<lambda>i.
       res_bind (normalizeNonNegativeInteger (get_prop ob ''outputTokens'') ''output tokens'') (\<lambda>u.
       res_bind (normalizeNonNegativeInteger (get_prop ob ''cachedInputTokens'') ''cached input tokens'') (\<lambda>c.
       if get_prop ob ''reasoningTokens'' = JUndef
       then Inr \<lparr>inputTokens = i, outputTokens = u, cachedInputTokens = c, reasoningTokens = None\<rparr>
       else res_bind (normalizeNonNegativeInteger (get_prop ob ''reasoningTokens'') ''reasoning tokens'')
         (\<lambda>r. Inr \<lparr>inputTokens = i, outputTokens = u, cachedInputTokens = c,
            reasoningTokens = Some r\<rparr>)))))"

definition parseUsage :: "js \<Rightarrow> (string, NormalizedUsage) result" where
  "parseUsage v = validateUsage v"

section \<open>Creation and parsing\<close>

text \<open>
  The arguments are run-time values, since the source validates them again. An absent
  \<open>usage\<close> argument is \<open>undefined\<close>.
\<close>

definition createRemoteCompactionCheckpoint ::
  "js \<Rightarrow> js \<Rightarrow> js \<Rightarrow> js \<Rightarrow> js \<Rightarrow> js \<Rightarrow> js \<Rightarrow>
     (string, CodexRemoteCompactionCheckpoint) result" where
  "createRemoteCompactionCheckpoint identity cpId covered impl output tokens usage =
    res_bind
      (if impl = JStr ''remote_v2'' then Inr RemoteV2
       else if impl = JStr ''compact_endpoint'' then Inr CompactEndpoint
       else Inl ''Remote compaction implementation is invalid'') (\<lambda>im.
    res_bind (validateIdentity identity) (\<lambda>idn.
    res_bind (requireText cpId ''checkpoint ID'' MAX_CHECKPOINT_ID_LENGTH) (\<lambda>ci.
    res_bind (requireText covered ''covered entry ID'' MAX_IDENTITY_FIELD_LENGTH) (\<lambda>ce.
    res_bind (validateCompactionOutput output) (\<lambda>out.
    res_bind (normalizeNonNegativeInteger tokens ''tokens before'') (\<lambda>tb.
    res_bind (if usage = JUndef then Inr None else res_bind (validateUsage usage) (\<lambda>u. Inr (Some u)))
      (\<lambda>us. Inr \<lparr>cp_identity = idn, checkpointId = ci, coveredEntryId = ce, implementation = im,
         cp_output = out, tokensBefore = tb, cp_usage = us\<rparr>)))))))"

definition binding_kind_name :: "BindingKind \<Rightarrow> string" where
  "binding_kind_name k = (case k of JwtAccount \<Rightarrow> ''jwt_account'' | Credential \<Rightarrow> ''credential'')"

definition binding_js :: "AuthenticationBinding \<Rightarrow> js" where
  "binding_js b = JObj [(''kind'', JStr (binding_kind_name (bindingKind b))),
     (''fingerprint'', JStr (fingerprint b))]"

definition identity_fields :: "CodexCompactionIdentity \<Rightarrow> js_object" where
  "identity_fields i =
    [(''sessionFingerprint'', JStr (sessionFingerprint i)), (''providerId'', JStr (providerId i)),
     (''api'', JStr (api i)), (''baseUrl'', JStr (baseUrl i)), (''modelId'', JStr (modelId i)),
     (''authenticationBinding'', binding_js (authenticationBinding i))]"

definition implementation_js :: "CompactionImplementation \<Rightarrow> js" where
  "implementation_js im = (case im of RemoteV2 \<Rightarrow> JStr ''remote_v2'' | CompactEndpoint \<Rightarrow> JStr ''compact_endpoint'')"

definition usage_js :: "NormalizedUsage \<Rightarrow> js" where
  "usage_js u = JObj
    ([(''inputTokens'', JNum (inputTokens u)), (''outputTokens'', JNum (outputTokens u)),
      (''cachedInputTokens'', JNum (cachedInputTokens u))] @
     (case reasoningTokens u of None \<Rightarrow> [] | Some r \<Rightarrow> [(''reasoningTokens'', JNum r)]))"

text \<open>The object a checkpoint is persisted as, in the key order of the object literal.\<close>

definition checkpoint_js :: "CodexRemoteCompactionCheckpoint \<Rightarrow> js" where
  "checkpoint_js c = JObj
    ([(''kind'', JStr CODEX_REMOTE_COMPACTION_KIND), (''version'', CODEX_REMOTE_COMPACTION_VERSION)] @
     identity_fields (cp_identity c) @
     [(''checkpointId'', JStr (checkpointId c)), (''coveredEntryId'', JStr (coveredEntryId c)),
      (''implementation'', implementation_js (implementation c)), (''output'', JArr (cp_output c)),
      (''tokensBefore'', JNum (tokensBefore c))] @
     (case cp_usage c of None \<Rightarrow> [] | Some u \<Rightarrow> [(''usage'', usage_js u)]))"

definition checkpoint_keys :: "string list" where
  "checkpoint_keys = [''kind'', ''version'', ''sessionFingerprint'', ''providerId'', ''api'', ''baseUrl'',
     ''modelId'', ''authenticationBinding'', ''checkpointId'', ''coveredEntryId'', ''implementation'',
     ''output'', ''tokensBefore'']"

definition option_of_result :: "('e, 'a) result \<Rightarrow> 'a option" where
  "option_of_result r = (case r of Inl _ \<Rightarrow> None | Inr a \<Rightarrow> Some a)"

definition parseRemoteCompactionCheckpoint :: "js \<Rightarrow> CodexRemoteCompactionCheckpoint option" where
  "parseRemoteCompactionCheckpoint v =
    (case as_record v of
       None \<Rightarrow> None
     | Some ob \<Rightarrow>
       if get_prop ob ''kind'' \<noteq> JStr CODEX_REMOTE_COMPACTION_KIND \<or>
          get_prop ob ''version'' \<noteq> CODEX_REMOTE_COMPACTION_VERSION \<or>
          (\<not> hasExactKeys ob checkpoint_keys \<and> \<not> hasExactKeys ob (checkpoint_keys @ [''usage'']))
       then None
       else if get_prop ob ''implementation'' \<noteq> JStr ''remote_v2'' \<and>
          get_prop ob ''implementation'' \<noteq> JStr ''compact_endpoint''
       then None
       else (case as_array (get_prop ob ''output'') of
           None \<Rightarrow> None
         | Some _ \<Rightarrow> option_of_result
             (res_bind (parseIdentity ob) (\<lambda>idn.
              res_bind (requireText (get_prop ob ''checkpointId'') ''checkpoint ID'' MAX_CHECKPOINT_ID_LENGTH) (\<lambda>ci.
              res_bind (requireText (get_prop ob ''coveredEntryId'') ''covered entry ID'' MAX_IDENTITY_FIELD_LENGTH) (\<lambda>ce.
              res_bind (normalizeNonNegativeInteger (get_prop ob ''tokensBefore'') ''tokens before'') (\<lambda>tb.
              res_bind (if get_prop ob ''usage'' = JUndef then Inr JUndef
                  else res_bind (parseUsage (get_prop ob ''usage'')) (\<lambda>u. Inr (usage_js u))) (\<lambda>us.
              createRemoteCompactionCheckpoint (JObj (identity_fields idn)) (JStr ci) (JStr ce)
                (get_prop ob ''implementation'') (get_prop ob ''output'') (JNum tb) us))))))))"

section \<open>Identities\<close>

definition sameCompactionIdentity ::
  "CodexCompactionIdentity option \<Rightarrow> CodexCompactionIdentity option \<Rightarrow> bool" where
  "sameCompactionIdentity l r = (case (l, r) of
     (Some a, Some b) \<Rightarrow>
       sessionFingerprint a = sessionFingerprint b \<and> providerId a = providerId b \<and>
       api a = api b \<and> baseUrl a = baseUrl b \<and> modelId a = modelId b \<and>
       bindingKind (authenticationBinding a) = bindingKind (authenticationBinding b) \<and>
       fingerprint (authenticationBinding a) = fingerprint (authenticationBinding b)
   | _ \<Rightarrow> False)"

definition identityKey :: "CodexCompactionIdentity \<Rightarrow> string" where
  "identityKey i = join_with (CHR 0x01)
    [sessionFingerprint i, providerId i, api i, baseUrl i, modelId i,
     binding_kind_name (bindingKind (authenticationBinding i)),
     fingerprint (authenticationBinding i)]"

definition wf_identity :: "CodexCompactionIdentity \<Rightarrow> bool" where
  "wf_identity i \<longleftrightarrow>
     list_all (valid_text MAX_IDENTITY_FIELD_LENGTH)
       [sessionFingerprint i, providerId i, api i, baseUrl i, modelId i,
        fingerprint (authenticationBinding i)]"

definition wf_usage :: "NormalizedUsage \<Rightarrow> bool" where
  "wf_usage u \<longleftrightarrow>
     list_all (\<lambda>n. isSafeInteger n \<and> \<not> num_less n (Fin 0))
       ([inputTokens u, outputTokens u, cachedInputTokens u] @
        (case reasoningTokens u of None \<Rightarrow> [] | Some r \<Rightarrow> [r]))"

definition wf_output :: "js list \<Rightarrow> bool" where
  "wf_output xs \<longleftrightarrow> 0 < length xs \<and> length xs \<le> MAX_OUTPUT_ITEMS \<and>
     list_all isSupportedStructuredResponseItem xs \<and> length (filter is_compaction_item xs) = 1"

definition wf_checkpoint :: "CodexRemoteCompactionCheckpoint \<Rightarrow> bool" where
  "wf_checkpoint c \<longleftrightarrow> wf_identity (cp_identity c) \<and>
     valid_text MAX_CHECKPOINT_ID_LENGTH (checkpointId c) \<and>
     valid_text MAX_IDENTITY_FIELD_LENGTH (coveredEntryId c) \<and> wf_output (cp_output c) \<and>
     isSafeInteger (tokensBefore c) \<and> \<not> num_less (tokensBefore c) (Fin 0) \<and>
     (case cp_usage c of None \<Rightarrow> True | Some u \<Rightarrow> wf_usage u)"

section \<open>What validation returns\<close>

lemma requireText_eq [simp]: "requireText v l m = Inr s \<longleftrightarrow> v = JStr s \<and> valid_text m s"
  by (cases v) (auto simp: requireText_def)

lemma normalizeNonNegativeInteger_eq [simp]:
  "normalizeNonNegativeInteger v l = Inr n \<longleftrightarrow> v = JNum n \<and> isSafeInteger n \<and> \<not> num_less n (Fin 0)"
  by (cases v) (auto simp: normalizeNonNegativeInteger_def)

lemma hasExactKeys_self: "keys_of ob = ks \<Longrightarrow> hasExactKeys ob ks"
  by (simp add: hasExactKeys_def)

lemma hasExactKeys_set: "hasExactKeys ob ks \<Longrightarrow> exact_keys ob ks"
  unfolding hasExactKeys_def exact_keys_def by (metis set_sort)

lemma traverse_check:
  "traverse (\<lambda>x. if P x then Inr x else Inl e) xs = Inr ys \<longleftrightarrow> ys = xs \<and> list_all P xs"
  by (induction xs arbitrary: ys) auto

lemma validateCompactionOutput_eq:
  "validateCompactionOutput v = Inr out \<longleftrightarrow> v = JArr out \<and> wf_output out"
  by (cases v) (auto simp: validateCompactionOutput_def as_array_def traverse_check wf_output_def)

lemma validateAuthenticationBinding_wf:
  "validateAuthenticationBinding v = Inr b \<Longrightarrow> valid_text MAX_IDENTITY_FIELD_LENGTH (fingerprint b)"
  by (auto simp: validateAuthenticationBinding_def split: option.splits if_splits js.splits)

lemma validateAuthenticationBinding_js:
  "valid_text MAX_IDENTITY_FIELD_LENGTH (fingerprint b) \<Longrightarrow>
     validateAuthenticationBinding (binding_js b) = Inr b"
  by (cases b; cases "bindingKind b")
     (auto simp: validateAuthenticationBinding_def binding_js_def binding_kind_name_def
        hasExactKeys_def requireText_def)

lemma validateIdentity_wf: "validateIdentity v = Inr i \<Longrightarrow> wf_identity i"
  by (auto simp: validateIdentity_def wf_identity_def Let_def split: option.splits
      dest: validateAuthenticationBinding_wf)

lemma validateIdentity_fields:
  assumes "wf_identity i"
  shows "validateIdentity (JObj (identity_fields i)) = Inr i"
proof -
  from assms have "validateAuthenticationBinding (binding_js (authenticationBinding i)) =
      Inr (authenticationBinding i)"
    by (simp add: wf_identity_def validateAuthenticationBinding_js)
  with assms show ?thesis
    by (simp add: validateIdentity_def identity_fields_def requireText_def wf_identity_def)
qed

lemma validateUsage_wf: "validateUsage v = Inr u \<Longrightarrow> wf_usage u"
  by (auto simp: validateUsage_def wf_usage_def Let_def split: option.splits if_splits)

lemma validateUsage_js: "wf_usage u \<Longrightarrow> validateUsage (usage_js u) = Inr u"
  by (cases u; cases "reasoningTokens u")
     (auto simp: validateUsage_def usage_js_def wf_usage_def hasExactKeys_def
        normalizeNonNegativeInteger_def)

lemma implementation_js_eq:
  "(if implementation_js im = JStr ''remote_v2'' then Inr RemoteV2
    else if implementation_js im = JStr ''compact_endpoint'' then Inr CompactEndpoint else Inl e) = Inr im"
  by (cases im) (simp_all add: implementation_js_def)

lemma createRemoteCompactionCheckpoint_wf:
  "createRemoteCompactionCheckpoint a b c d e f g = Inr cp \<Longrightarrow> wf_checkpoint cp"
  by (auto simp: createRemoteCompactionCheckpoint_def wf_checkpoint_def validateCompactionOutput_eq
      split: if_splits dest: validateIdentity_wf validateUsage_wf)

lemma usage_js_not_undef [simp]: "usage_js u \<noteq> JUndef"
  by (simp add: usage_js_def)

lemma createRemoteCompactionCheckpoint_wf_args:
  assumes "wf_checkpoint cp"
  shows "createRemoteCompactionCheckpoint (JObj (identity_fields (cp_identity cp)))
     (JStr (checkpointId cp)) (JStr (coveredEntryId cp)) (implementation_js (implementation cp))
     (JArr (cp_output cp)) (JNum (tokensBefore cp))
     (case cp_usage cp of None \<Rightarrow> JUndef | Some u \<Rightarrow> usage_js u) = Inr cp"
proof -
  have "requireText (JStr (checkpointId cp)) ''checkpoint ID'' MAX_CHECKPOINT_ID_LENGTH = Inr (checkpointId cp)"
    "requireText (JStr (coveredEntryId cp)) ''covered entry ID'' MAX_IDENTITY_FIELD_LENGTH = Inr (coveredEntryId cp)"
    "normalizeNonNegativeInteger (JNum (tokensBefore cp)) ''tokens before'' = Inr (tokensBefore cp)"
    "validateCompactionOutput (JArr (cp_output cp)) = Inr (cp_output cp)"
    "validateIdentity (JObj (identity_fields (cp_identity cp))) = Inr (cp_identity cp)"
    using assms by (simp_all add: wf_checkpoint_def validateCompactionOutput_eq validateIdentity_fields)
  moreover have "(if (case cp_usage cp of None \<Rightarrow> JUndef | Some u \<Rightarrow> usage_js u) = JUndef then Inr None
      else res_bind (validateUsage (case cp_usage cp of None \<Rightarrow> JUndef | Some u \<Rightarrow> usage_js u))
        (\<lambda>u. Inr (Some u))) = Inr (cp_usage cp)"
    using assms by (cases "cp_usage cp") (simp_all add: wf_checkpoint_def validateUsage_js)
  ultimately show ?thesis
    by (simp only: createRemoteCompactionCheckpoint_def implementation_js_eq res_bind_simps) simp
qed

lemma option_of_result_eq [simp]: "option_of_result r = Some a \<longleftrightarrow> r = Inr a"
  by (cases r) (auto simp: option_of_result_def)

lemma parseRemoteCompactionCheckpoint_wf:
  "parseRemoteCompactionCheckpoint v = Some cp \<Longrightarrow> wf_checkpoint cp"
  by (auto simp: parseRemoteCompactionCheckpoint_def split: option.splits if_splits
      dest: createRemoteCompactionCheckpoint_wf)

lemma get_identity_fields:
  "get_prop (identity_fields i @ r) ''sessionFingerprint'' = JStr (sessionFingerprint i)"
  "get_prop (identity_fields i @ r) ''providerId'' = JStr (providerId i)"
  "get_prop (identity_fields i @ r) ''api'' = JStr (api i)"
  "get_prop (identity_fields i @ r) ''baseUrl'' = JStr (baseUrl i)"
  "get_prop (identity_fields i @ r) ''modelId'' = JStr (modelId i)"
  "get_prop (identity_fields i @ r) ''authenticationBinding'' = binding_js (authenticationBinding i)"
  by (simp_all add: identity_fields_def)

lemma parseIdentity_eq: "parseIdentity (a # b # identity_fields i @ r) = validateIdentity (JObj (identity_fields i))"
  if "fst a = ''kind''" "fst b = ''version''"
  using that by (cases a; cases b) (simp add: parseIdentity_def identity_fields_def)

lemma parse_checkpoint_js:
  assumes "wf_checkpoint cp"
  shows "parseRemoteCompactionCheckpoint (checkpoint_js cp) = Some cp"
proof -
  let ?tail = "[(''checkpointId'', JStr (checkpointId cp)), (''coveredEntryId'', JStr (coveredEntryId cp)),
      (''implementation'', implementation_js (implementation cp)), (''output'', JArr (cp_output cp)),
      (''tokensBefore'', JNum (tokensBefore cp))] @
     (case cp_usage cp of None \<Rightarrow> [] | Some u \<Rightarrow> [(''usage'', usage_js u)])"
  let ?ob = "(''kind'', JStr CODEX_REMOTE_COMPACTION_KIND) #
     (''version'', CODEX_REMOTE_COMPACTION_VERSION) # identity_fields (cp_identity cp) @ ?tail"
  have ob: "checkpoint_js cp = JObj ?ob" by (simp add: checkpoint_js_def)
  have pid: "parseIdentity ?ob = Inr (cp_identity cp)"
    using assms by (simp add: parseIdentity_eq validateIdentity_fields wf_checkpoint_def)
  have keys: "hasExactKeys ?ob checkpoint_keys \<or> hasExactKeys ?ob (checkpoint_keys @ [''usage''])"
    by (cases "cp_usage cp")
       (simp_all add: hasExactKeys_self checkpoint_keys_def identity_fields_def)
  have get: "get_prop ?ob ''kind'' = JStr CODEX_REMOTE_COMPACTION_KIND"
    "get_prop ?ob ''version'' = CODEX_REMOTE_COMPACTION_VERSION"
    "get_prop ?ob ''checkpointId'' = JStr (checkpointId cp)"
    "get_prop ?ob ''coveredEntryId'' = JStr (coveredEntryId cp)"
    "get_prop ?ob ''implementation'' = implementation_js (implementation cp)"
    "get_prop ?ob ''output'' = JArr (cp_output cp)"
    "get_prop ?ob ''tokensBefore'' = JNum (tokensBefore cp)"
    "get_prop ?ob ''usage'' = (case cp_usage cp of None \<Rightarrow> JUndef | Some u \<Rightarrow> usage_js u)"
    by (simp_all add: identity_fields_def split: option.splits)
  have us: "(if get_prop ?ob ''usage'' = JUndef then Inr JUndef
      else res_bind (parseUsage (get_prop ?ob ''usage'')) (\<lambda>u. Inr (usage_js u))) =
      Inr (case cp_usage cp of None \<Rightarrow> JUndef | Some u \<Rightarrow> usage_js u)"
    using assms unfolding get
    by (cases "cp_usage cp") (simp_all add: parseUsage_def wf_checkpoint_def validateUsage_js)
  have im: "\<not> (implementation_js (implementation cp) \<noteq> JStr ''remote_v2'' \<and>
      implementation_js (implementation cp) \<noteq> JStr ''compact_endpoint'')"
    by (cases "implementation cp") (simp_all add: implementation_js_def)
  have req: "requireText (JStr (checkpointId cp)) ''checkpoint ID'' MAX_CHECKPOINT_ID_LENGTH = Inr (checkpointId cp)"
    "requireText (JStr (coveredEntryId cp)) ''covered entry ID'' MAX_IDENTITY_FIELD_LENGTH = Inr (coveredEntryId cp)"
    "normalizeNonNegativeInteger (JNum (tokensBefore cp)) ''tokens before'' = Inr (tokensBefore cp)"
    using assms by (simp_all add: wf_checkpoint_def)
  show ?thesis
    unfolding ob parseRemoteCompactionCheckpoint_def as_record_JObj option.case us pid
    unfolding get as_array_JArr req res_bind_simps option.case
    using keys im createRemoteCompactionCheckpoint_wf_args [OF assms] by simp
qed

section \<open>The identity key is injective\<close>

lemma valid_text_no_separator: "valid_text m s \<Longrightarrow> CHR 0x01 \<notin> set s" "valid_text m s \<Longrightarrow> CHR 0x00 \<notin> set s"
  by (auto simp: valid_text_def hasControlCharacter_def list_ex_iff)

lemma binding_kind_no_separator: "CHR 0x01 \<notin> set (binding_kind_name k)"
  by (cases k) (simp_all add: binding_kind_name_def)

lemma binding_kind_name_inject [simp]: "binding_kind_name a = binding_kind_name b \<longleftrightarrow> a = b"
  by (cases a; cases b) (simp_all add: binding_kind_name_def)

lemma identityKey_inject:
  assumes "wf_identity i" and "wf_identity j" and "identityKey i = identityKey j"
  shows "i = j"
proof -
  let ?f = "\<lambda>i. [sessionFingerprint i, providerId i, api i, baseUrl i, modelId i,
     binding_kind_name (bindingKind (authenticationBinding i)), fingerprint (authenticationBinding i)]"
  have "?f i = ?f j"
  proof (rule join_with_inject [where c = "CHR 0x01"])
    show "join_with (CHR 0x01) (?f i) = join_with (CHR 0x01) (?f j)"
      using assms(3) by (simp add: identityKey_def)
    show "CHR 0x01 \<notin> set s" if "s \<in> set (?f i)" for s
      using that assms(1) binding_kind_no_separator valid_text_no_separator(1)
      unfolding wf_identity_def by auto
    show "CHR 0x01 \<notin> set s" if "s \<in> set (?f j)" for s
      using that assms(2) binding_kind_no_separator valid_text_no_separator(1)
      unfolding wf_identity_def by auto
  qed simp
  then show ?thesis
    by (cases i; cases j; cases "authenticationBinding i"; cases "authenticationBinding j") simp
qed

lemma sameCompactionIdentity_eq: "sameCompactionIdentity (Some a) (Some b) \<longleftrightarrow> a = b"
  by (cases a; cases b; cases "authenticationBinding a"; cases "authenticationBinding b")
     (auto simp: sameCompactionIdentity_def)

section \<open>Properties\<close>

text \<open>
  Round trip. A checkpoint that \<open>createRemoteCompactionCheckpoint\<close> returns is read back unchanged
  by the strict parser from the object it is persisted as.
\<close>

theorem checkpoint_roundtrip:
  assumes "createRemoteCompactionCheckpoint identity cpId covered impl output tokens usage = Inr cp"
  shows "parseRemoteCompactionCheckpoint (checkpoint_js cp) = Some cp"
  using createRemoteCompactionCheckpoint_wf [OF assms] by (rule parse_checkpoint_js)

definition sample_checkpoint :: CodexRemoteCompactionCheckpoint where
  "sample_checkpoint = \<lparr>cp_identity = \<lparr>sessionFingerprint = ''s'', providerId = ''p'', api = ''a'',
     baseUrl = ''u'', modelId = ''m'', authenticationBinding = \<lparr>bindingKind = JwtAccount, fingerprint = ''f''\<rparr>\<rparr>,
     checkpointId = ''c'', coveredEntryId = ''e'', implementation = RemoteV2,
     cp_output = [JObj [(''type'', JStr ''compaction''), (''encrypted_content'', JStr ''x'')]],
     tokensBefore = Fin (of_int 7), cp_usage = None\<rparr>"

lemma wf_sample_checkpoint: "wf_checkpoint sample_checkpoint"
  by (simp add: wf_checkpoint_def sample_checkpoint_def wf_identity_def valid_text_def trim_def
      js_space_def hasControlCharacter_def wf_output_def isSupportedStructuredResponseItem_def
      RESPONSE_ITEM_FIELDS_def METADATA_FIELD_def nonempty_text_def is_compaction_item_def item_type_def
      MAX_IDENTITY_FIELD_LENGTH_def MAX_CHECKPOINT_ID_LENGTH_def MAX_OUTPUT_ITEMS_def
      isSafeInteger_def MAX_SAFE_INTEGER_def)

theorem checkpoint_roundtrip_witness:
  "parseRemoteCompactionCheckpoint (checkpoint_js sample_checkpoint) = Some sample_checkpoint"
  using checkpoint_roundtrip [OF createRemoteCompactionCheckpoint_wf_args [OF wf_sample_checkpoint]] .

text \<open>
  Soundness of the checkpoint parser. Whatever value a session entry holds, a parsed checkpoint has
  between one and 8192 supported response items, exactly one of which is a compaction item, safe
  non-negative token counts, and text fields within their lengths and free of control characters.
\<close>

theorem parsed_checkpoint_wf:
  "case parseRemoteCompactionCheckpoint v of None \<Rightarrow> True | Some cp \<Rightarrow> wf_checkpoint cp"
  using parseRemoteCompactionCheckpoint_wf [of v] by (simp split: option.split)

text \<open>
  The key under which warnings and accounting are kept determines the identity: two valid
  identities have the same key only when \<open>sameCompactionIdentity\<close> holds of them.
\<close>

theorem identity_key_exact:
  assumes "wf_identity i" and "wf_identity j"
  shows "identityKey i = identityKey j \<longleftrightarrow> sameCompactionIdentity (Some i) (Some j)"
  using assms identityKey_inject by (auto simp: sameCompactionIdentity_eq)

theorem identity_key_exact_witness:
  "identityKey (cp_identity sample_checkpoint) \<noteq>
   identityKey ((cp_identity sample_checkpoint)\<lparr>modelId := ''n''\<rparr>)"
proof -
  have "wf_identity (cp_identity sample_checkpoint)"
    "wf_identity ((cp_identity sample_checkpoint)\<lparr>modelId := ''n''\<rparr>)"
    using wf_sample_checkpoint
    by (simp_all add: wf_checkpoint_def wf_identity_def valid_text_def trim_def js_space_def
        hasControlCharacter_def MAX_IDENTITY_FIELD_LENGTH_def)
  from identity_key_exact [OF this] show ?thesis
    by (simp add: sameCompactionIdentity_def sample_checkpoint_def)
qed

end
