(* ===== verification/Response_Items.thy ===== *)
theory Response_Items
  imports Message_Normalization Compaction_Checkpoint
begin

text \<open>
  The translation between the host's messages and the items of the Responses interface,
  \<open>src/src/integration/pi/codex-provider.ts\<close>: \<open>responseItemsFromMessages\<close> and its helpers in one direction,
  \<open>toToolCall\<close> in the other, and the signatures in which complete items travel through the host. Values are
  strict JSON trees, so \<open>record\<close> is \<open>as_record\<close> and \<open>isInertJson\<close> is \<open>strict_js\<close>. \<open>parse\<close> and
  \<open>stringify\<close> stand for \<open>JSON.parse\<close> (\<open>None\<close> where it throws) and \<open>JSON.stringify\<close>.

  The lemmas show that an item that was put into a signature comes back unchanged, that the tool calls the
  host stores are sent back as the items they came from, and that every call in the items of a history is
  followed by an output of its kind.
\<close>

section \<open>Signatures\<close>

definition RESPONSE_ITEM_SIGNATURE_KIND :: string where
  "RESPONSE_ITEM_SIGNATURE_KIND = ''pi-codex-adaptor.response-item''"

definition signature_envelope :: "js \<Rightarrow> js" where
  "signature_envelope item = JObj [(''v'', jint 2), (''kind'', JStr RESPONSE_ITEM_SIGNATURE_KIND), (''item'', item)]"

definition encodeResponseItemSignature :: "(js \<Rightarrow> string) \<Rightarrow> js \<Rightarrow> (string, string) result" where
  "encodeResponseItemSignature stringify item =
    (if \<not> strict_js item \<or> \<not> isSupportedStructuredResponseItem item
     then Inl ''Provider response item cannot be persisted safely''
     else Inr (stringify (signature_envelope item)))"

definition decodeResponseItemSignature :: "(string \<Rightarrow> js option) \<Rightarrow> js \<Rightarrow> js_object option" where
  "decodeResponseItemSignature parse v = (case v of
     JStr s \<Rightarrow>
       if length s = 0 then None
       else (case parse s of
           None \<Rightarrow> None
         | Some parsed \<Rightarrow>
           (case as_record parsed of
              None \<Rightarrow> None
            | Some envelope \<Rightarrow>
              let item = get_prop envelope ''item'' in
              if \<not> normalization_hasExactKeys envelope [''v'', ''kind'', ''item''] \<or>
                 get_prop envelope ''v'' \<noteq> jint 2 \<or>
                 get_prop envelope ''kind'' \<noteq> JStr RESPONSE_ITEM_SIGNATURE_KIND \<or>
                 \<not> strict_js item \<or> \<not> isSupportedStructuredResponseItem item
              then None else as_record item))
   | _ \<Rightarrow> None)"

definition parseTextSignature :: "(string \<Rightarrow> js option) \<Rightarrow> js \<Rightarrow> js_object option" where
  "parseTextSignature parse v = (case v of
     JStr s \<Rightarrow> if length s = 0 then None else (case parse s of None \<Rightarrow> None | Some p \<Rightarrow> as_record p)
   | _ \<Rightarrow> None)"

section \<open>Content\<close>

definition userTextItem :: "string \<Rightarrow> js" where
  "userTextItem txt = JObj [(''type'', JStr ''message''), (''role'', JStr ''user''),
     (''content'', JArr [JObj [(''type'', JStr ''input_text''), (''text'', JStr txt)]])]"

text \<open>The text or image a content value stands for; \<open>detail\<close> is the member only \<open>inputContent\<close> adds.\<close>

definition image_url :: "string \<Rightarrow> string \<Rightarrow> string" where
  "image_url mimeType data = ''data:'' @ mimeType @ '';base64,'' @ data"

definition content_item :: "js_object \<Rightarrow> js \<Rightarrow> js list" where
  "content_item detail item = (case as_record item of
     None \<Rightarrow> []
   | Some v \<Rightarrow>
      (case (get_prop v ''type'' = JStr ''text'', as_string (get_prop v ''text'')) of
         (True, Some t) \<Rightarrow> [JObj [(''type'', JStr ''input_text''), (''text'', JStr t)]]
       | _ \<Rightarrow>
         (case (get_prop v ''type'' = JStr ''image'', as_string (get_prop v ''data''), as_string (get_prop v ''mimeType'')) of
            (True, Some d, Some m) \<Rightarrow>
              [JObj ([(''type'', JStr ''input_image''), (''image_url'', JStr (image_url m d))] @ detail)]
          | _ \<Rightarrow> [])))"

definition inputContent :: "js \<Rightarrow> js list" where
  "inputContent content = (case content of
     JStr s \<Rightarrow> [JObj [(''type'', JStr ''input_text''), (''text'', JStr s)]]
   | JArr items \<Rightarrow> concat (map (content_item [(''detail'', JStr ''original'')]) items)
   | _ \<Rightarrow> [])"

definition text_of_item :: "js \<Rightarrow> string" where
  "text_of_item item = (case as_record item of None \<Rightarrow> ''''
     | Some v \<Rightarrow> (case get_prop v ''text'' of JStr t \<Rightarrow> t | _ \<Rightarrow> ''''))"

definition toolOutput :: "js list \<Rightarrow> js" where
  "toolOutput content =
    (let items = concat (map (content_item []) content)
     in if list_all (\<lambda>i. item_type i = Some ''input_text'') items
        then JStr (join_with (CHR 0x0A) (map text_of_item items)) else JArr items)"

section \<open>Messages to items\<close>

text \<open>Whether a value is true as a condition.\<close>

definition truthy :: "js \<Rightarrow> bool" where
  "truthy v = (case v of JUndef \<Rightarrow> False | JNull \<Rightarrow> False | JBool b \<Rightarrow> b
     | JNum n \<Rightarrow> n \<noteq> NaN \<and> n \<noteq> Fin 0 | JStr s \<Rightarrow> s \<noteq> [] | _ \<Rightarrow> True)"

text \<open>\<open>JSON.stringify\<close> of an absent value is \<open>undefined\<close>.\<close>

definition stringify_value :: "(js \<Rightarrow> string) \<Rightarrow> js \<Rightarrow> js" where
  "stringify_value stringify v = (if v = JUndef then JUndef else JStr (stringify v))"

definition string_member :: "string \<Rightarrow> js \<Rightarrow> js_object" where
  "string_member k v = (case v of JStr s \<Rightarrow> [(k, JStr s)] | _ \<Rightarrow> [])"

definition signature_prop :: "js_object option \<Rightarrow> string \<Rightarrow> js" where
  "signature_prop sig k = (case sig of None \<Rightarrow> JUndef | Some ob \<Rightarrow> get_prop ob k)"

definition text_block_item :: "(string \<Rightarrow> js option) \<Rightarrow> js_object \<Rightarrow> js" where
  "text_block_item parse content =
    (case decodeResponseItemSignature parse (get_prop content ''textSignature'') of
       Some preserved \<Rightarrow> JObj preserved
     | None \<Rightarrow>
       (let sig = parseTextSignature parse (get_prop content ''textSignature'');
            phase = signature_prop sig ''phase''
        in if signature_prop sig ''kind'' = JStr ''web_search_call''
           then JObj ([(''type'', JStr ''web_search_call'')] @ string_member ''id'' (signature_prop sig ''id'') @
             string_member ''status'' (signature_prop sig ''status'') @
             (if signature_prop sig ''action'' = JUndef then [] else [(''action'', signature_prop sig ''action'')]))
           else JObj ([(''type'', JStr ''message''), (''role'', JStr ''assistant'')] @
             string_member ''id'' (signature_prop sig ''id'') @
             (if phase = JStr ''commentary'' \<or> phase = JStr ''final_answer'' then [(''phase'', phase)] else []) @
             [(''content'', JArr [JObj [(''type'', JStr ''output_text''), (''text'', get_prop content ''text'')]])])))"

definition thinking_block_item :: "(string \<Rightarrow> js option) \<Rightarrow> js_object \<Rightarrow> js" where
  "thinking_block_item parse content =
    (let signature = get_prop content ''thinkingSignature'' in
     case decodeResponseItemSignature parse signature of
       Some preserved \<Rightarrow> JObj preserved
     | None \<Rightarrow>
       (let legacySignature = parseTextSignature parse signature
        in JObj ([(''type'', JStr ''reasoning'')] @ string_member ''id'' (signature_prop legacySignature ''id'') @
          [(''summary'', if truthy (get_prop content ''thinking'')
             then JArr [JObj [(''type'', JStr ''summary_text''), (''text'', get_prop content ''thinking'')]] else JArr []),
           (''content'', JNull),
           (''encrypted_content'', case signature of
              JStr s \<Rightarrow> if legacySignature = None then JStr s else JNull | _ \<Rightarrow> JNull)])))"

definition call_block_item :: "(string \<Rightarrow> js option) \<Rightarrow> (js \<Rightarrow> string) \<Rightarrow> js_object \<Rightarrow> js" where
  "call_block_item parse stringify content =
    (case decodeResponseItemSignature parse (get_prop content ''thoughtSignature'') of
       Some preserved \<Rightarrow> JObj preserved
     | None \<Rightarrow>
       (let nm = get_prop content ''name''; args = get_prop content ''arguments'';
            patch = (case as_record args of None \<Rightarrow> None | Some a \<Rightarrow> as_string (get_prop a ''input''))
        in case (nm = JStr ''apply_patch'', patch) of
            (True, Some inp) \<Rightarrow> JObj [(''type'', JStr ''custom_tool_call''), (''name'', nm), (''input'', JStr inp),
              (''call_id'', get_prop content ''id'')]
          | _ \<Rightarrow>
            (case (case nm of JStr s \<Rightarrow> split_on (CHR ''.'') s | _ \<Rightarrow> []) of
               namespace # name # _ \<Rightarrow> JObj [(''type'', JStr ''function_call''), (''namespace'', JStr namespace),
                 (''name'', JStr name), (''arguments'', stringify_value stringify args),
                 (''call_id'', get_prop content ''id'')]
             | _ \<Rightarrow> JObj [(''type'', JStr ''function_call''), (''name'', nm),
                 (''arguments'', stringify_value stringify args), (''call_id'', get_prop content ''id'')])))"

definition block_items :: "(string \<Rightarrow> js option) \<Rightarrow> (js \<Rightarrow> string) \<Rightarrow> js \<Rightarrow> js list" where
  "block_items parse stringify block = (case as_record block of
     None \<Rightarrow> []
   | Some content \<Rightarrow>
       if get_prop content ''type'' = JStr ''text'' then [text_block_item parse content]
       else if get_prop content ''type'' = JStr ''thinking'' then [thinking_block_item parse content]
       else [call_block_item parse stringify content])"

definition COMPACTION_SUMMARY_PREFIX :: string where
  "COMPACTION_SUMMARY_PREFIX = ''The conversation history before this point was compacted into the following summary:'' @
     [CHR 0x0A, CHR 0x0A] @ ''<summary>'' @ [CHR 0x0A]"

definition COMPACTION_SUMMARY_SUFFIX :: string where
  "COMPACTION_SUMMARY_SUFFIX = [CHR 0x0A] @ ''</summary>''"

definition array_or_empty :: "js \<Rightarrow> js list" where
  "array_or_empty v = (case v of JArr xs \<Rightarrow> xs | _ \<Rightarrow> [])"

definition string_or_empty :: "js \<Rightarrow> string" where
  "string_or_empty v = (case v of JStr s \<Rightarrow> s | _ \<Rightarrow> '''')"

definition user_message_item :: "js_object \<Rightarrow> js" where
  "user_message_item raw = JObj [(''type'', JStr ''message''), (''role'', JStr ''user''),
     (''content'', JArr (inputContent (get_prop raw ''content'')))]"

definition role_items ::
  "(string \<Rightarrow> js option) \<Rightarrow> (js \<Rightarrow> string) \<Rightarrow> string \<Rightarrow> js_object \<Rightarrow> js list" where
  "role_items parse stringify role raw =
    (if role = ''compactionSummary'' \<and> as_string (get_prop raw ''summary'') \<noteq> None
     then [userTextItem (COMPACTION_SUMMARY_PREFIX @ string_or_empty (get_prop raw ''summary'') @ COMPACTION_SUMMARY_SUFFIX)]
     else if role = ''branchSummary'' \<and> as_string (get_prop raw ''summary'') \<noteq> None
     then [userTextItem (string_or_empty (get_prop raw ''summary''))]
     else if role = ''custom'' then [user_message_item raw]
     else if role = ''bashExecution'' \<and> get_prop raw ''excludeFromContext'' \<noteq> JBool True
     then [userTextItem (''Command: '' @ string_or_empty (get_prop raw ''command'') @ [CHR 0x0A] @
       ''Output:'' @ [CHR 0x0A] @ string_or_empty (get_prop raw ''output''))]
     else if role = ''user'' then [user_message_item raw]
     else if role = ''toolResult''
     then [JObj [(''type'', JStr (if get_prop raw ''toolName'' = JStr ''apply_patch''
            then ''custom_tool_call_output'' else ''function_call_output'')),
         (''call_id'', get_prop raw ''toolCallId''),
         (''output'', toolOutput (array_or_empty (get_prop raw ''content'')))]]
     else if role \<noteq> ''assistant'' then []
     else concat (map (block_items parse stringify) (array_or_empty (get_prop raw ''content''))))"

definition toResponseItems :: "(string \<Rightarrow> js option) \<Rightarrow> (js \<Rightarrow> string) \<Rightarrow> js \<Rightarrow> js list" where
  "toResponseItems parse stringify message = (case as_record message of
     None \<Rightarrow> []
   | Some raw \<Rightarrow> (case get_prop raw ''role'' of JStr role \<Rightarrow> role_items parse stringify role raw | _ \<Rightarrow> []))"

definition responseItemsFromMessages ::
  "(string \<Rightarrow> js option) \<Rightarrow> (js \<Rightarrow> string) \<Rightarrow> js list \<Rightarrow> (normalization_error, js list) result" where
  "responseItemsFromMessages parse stringify messages =
    res_bind (normalizeCodexContextMessages parse messages) (\<lambda>ms.
      Inr (concat (map (toResponseItems parse stringify) ms)))"

section \<open>Items to tool calls\<close>

record ToolCall =
  tc_id :: string
  tc_name :: string
  tc_arguments :: js_object
  tc_thoughtSignature :: string

text \<open>
  \<open>None\<close> where the item is no tool call. The signature is always present: encoding it either succeeds or
  throws.
\<close>

definition toToolCall ::
  "(string \<Rightarrow> js option) \<Rightarrow> (js \<Rightarrow> string) \<Rightarrow> js_object \<Rightarrow> (string, ToolCall option) result" where
  "toToolCall parse stringify item =
    (case (get_prop item ''call_id'', get_prop item ''name'') of
       (JStr callId, JStr nm) \<Rightarrow>
         (let custom = (get_prop item ''type'' = JStr ''custom_tool_call'') in
          case (if custom then get_prop item ''input'' else get_prop item ''arguments'') of
            JStr rawArguments \<Rightarrow>
              (let fallback = [(''input'', JStr rawArguments)];
                   parsed = (if custom then JObj fallback
                     else (case parse rawArguments of None \<Rightarrow> JObj fallback | Some v \<Rightarrow> v))
               in res_bind (encodeResponseItemSignature stringify (JObj item)) (\<lambda>signature.
                 Inr (Some \<lparr>tc_id = callId,
                   tc_name = (case get_prop item ''namespace'' of JStr ns \<Rightarrow> ns @ ''.'' @ nm | _ \<Rightarrow> nm),
                   tc_arguments = (case as_record parsed of None \<Rightarrow> fallback | Some ob \<Rightarrow> ob),
                   tc_thoughtSignature = signature\<rparr>)))
          | _ \<Rightarrow> Inr None)
     | _ \<Rightarrow> Inr None)"

definition tool_call_block :: "ToolCall \<Rightarrow> js" where
  "tool_call_block tc = JObj [(''type'', JStr ''toolCall''), (''id'', JStr (tc_id tc)), (''name'', JStr (tc_name tc)),
     (''arguments'', JObj (tc_arguments tc)), (''thoughtSignature'', JStr (tc_thoughtSignature tc))]"

section \<open>Round trips\<close>

lemma envelope_keys [simp]: "normalization_hasExactKeys
    [(''v'', a), (''kind'', b), (''item'', c)] [''v'', ''kind'', ''item'']"
  by (simp add: normalization_hasExactKeys_def card_insert_if)

lemma supported_record: "isSupportedStructuredResponseItem item \<Longrightarrow> \<exists>ob. item = JObj ob"
  by (cases item) (simp_all add: isSupportedStructuredResponseItem_def as_record_def)

lemma decode_encode:
  assumes "encodeResponseItemSignature stringify (JObj item) = Inr sig"
    and "parse (stringify (signature_envelope (JObj item))) = Some (signature_envelope (JObj item))" and "parse '''' = None"
  shows "decodeResponseItemSignature parse (JStr sig) = Some item"
proof -
  from assms(1) have ok: "strict_js (JObj item)" "isSupportedStructuredResponseItem (JObj item)"
    and sig: "sig = stringify (signature_envelope (JObj item))"
    by (auto simp: encodeResponseItemSignature_def split: if_splits)
  from sig assms(2,3) have "sig \<noteq> []" by auto
  with ok sig assms(2) show ?thesis
    by (simp add: decodeResponseItemSignature_def signature_envelope_def)
qed

section \<open>Calls and their outputs\<close>

definition call_of_item :: "js \<Rightarrow> (js \<times> OutputKind) option" where
  "call_of_item i = (case as_record i of
     None \<Rightarrow> None
   | Some ob \<Rightarrow>
       if get_prop ob ''type'' = JStr ''function_call'' then Some (get_prop ob ''call_id'', FunctionOutput)
       else if get_prop ob ''type'' = JStr ''custom_tool_call'' then Some (get_prop ob ''call_id'', CustomOutput)
       else None)"

definition output_of_item :: "js \<Rightarrow> (js \<times> OutputKind) option" where
  "output_of_item i = (case as_record i of
     None \<Rightarrow> None
   | Some ob \<Rightarrow>
       if get_prop ob ''type'' = JStr ''function_call_output'' then Some (get_prop ob ''call_id'', FunctionOutput)
       else if get_prop ob ''type'' = JStr ''custom_tool_call_output'' then Some (get_prop ob ''call_id'', CustomOutput)
       else None)"

text \<open>Every call is followed by an output with its id and of its kind.\<close>

fun items_answered :: "js list \<Rightarrow> bool" where
  "items_answered [] = True"
| "items_answered (i # is) = ((case call_of_item i of None \<Rightarrow> True
     | Some c \<Rightarrow> list_ex (\<lambda>x. output_of_item x = Some c) is) \<and> items_answered is)"

text \<open>
  The blocks the adaptor itself writes: a text or thinking block does not carry the signature of a call, and
  every other block is a tool call, with a string as input where it is an unsigned patch.
\<close>

definition codex_block :: "(string \<Rightarrow> js option) \<Rightarrow> js \<Rightarrow> bool" where
  "codex_block parse b = (case as_record b of
     None \<Rightarrow> True
   | Some content \<Rightarrow>
      (let no_call = (\<lambda>k. case decodeResponseItemSignature parse (get_prop content k) of
           None \<Rightarrow> True | Some item \<Rightarrow> call_of_item (JObj item) = None)
       in if get_prop content ''type'' = JStr ''text'' then no_call ''textSignature''
          else if get_prop content ''type'' = JStr ''thinking'' then no_call ''thinkingSignature''
          else get_prop content ''type'' = JStr ''toolCall'' \<and>
            (get_prop content ''name'' = JStr ''apply_patch'' \<and>
               decodeResponseItemSignature parse (get_prop content ''thoughtSignature'') = None \<longrightarrow>
             (case as_record (get_prop content ''arguments'') of None \<Rightarrow> False
              | Some a \<Rightarrow> as_string (get_prop a ''input'') \<noteq> None))))"

definition codex_message :: "(string \<Rightarrow> js option) \<Rightarrow> js \<Rightarrow> bool" where
  "codex_message parse m = (case as_record m of
     None \<Rightarrow> True | Some raw \<Rightarrow> get_prop raw ''role'' = JStr ''assistant'' \<longrightarrow>
       list_all (codex_block parse) (array_or_empty (get_prop raw ''content'')))"

lemma call_of_simps [simp]:
  "call_of_item (JObj ((''type'', JStr ty) # ob)) =
    (if ty = ''function_call'' then Some (get_prop ob ''call_id'', FunctionOutput)
     else if ty = ''custom_tool_call'' then Some (get_prop ob ''call_id'', CustomOutput) else None)"
  by (simp add: call_of_item_def)

lemma signed_decoded:
  assumes "decodeResponseItemSignature parse v = Some item" and "signedToolCallKind parse v callId = Inr k"
  shows "\<exists>kd. k = Some kd \<and> call_of_item (JObj item) = Some (JStr callId, kd)"
  using assms
  by (auto simp: decodeResponseItemSignature_def signedToolCallKind_def call_of_item_def nonEmptyString_def
      RESPONSE_ITEM_SIGNATURE_KIND_def Let_def split: js.splits if_splits option.splits)

lemma call_block_call:
  assumes "codex_block parse (JObj content)" and "get_prop content ''type'' = JStr ''toolCall''"
    and "get_prop content ''id'' = JStr callId" and "get_prop content ''name'' = JStr toolName"
    and "signedToolCallKind parse (get_prop content ''thoughtSignature'') callId = Inr k"
  shows "call_of_item (call_block_item parse stringify content) =
    Some (JStr callId, case k of None \<Rightarrow> outputKindForToolName toolName | Some kd \<Rightarrow> kd) \<or>
    decodeResponseItemSignature parse (get_prop content ''thoughtSignature'') = None \<and>
    call_of_item (call_block_item parse stringify content) = Some (JStr callId, outputKindForToolName toolName)"
proof (cases "decodeResponseItemSignature parse (get_prop content ''thoughtSignature'')")
  case (Some item)
  from signed_decoded [OF this assms(5)] Some show ?thesis by (auto simp: call_block_item_def)
next
  case None
  show ?thesis
  proof (cases "toolName = ''apply_patch''")
    case True
    with None assms(1,2,4) obtain a s where "get_prop content ''arguments'' = JObj a" "get_prop a ''input'' = JStr s"
      by (auto simp: codex_block_def as_string_def as_record_def split: js.splits option.splits)
    with None True assms(3,4) show ?thesis
      by (simp add: call_block_item_def outputKindForToolName_def Let_def)
  next
    case False
    with None assms(3,4) show ?thesis
      by (auto simp: call_block_item_def outputKindForToolName_def Let_def split: list.split)
  qed
qed

lemma nonEmptyString_Some: "nonEmptyString v = Some s \<longleftrightarrow> v = JStr s \<and> s \<noteq> []"
  by (cases v) (auto simp: nonEmptyString_def)

lemma collect_call_cases:
  assumes "collect_blocks parse (JObj content # blocks) ids calls = Inr out" and "get_prop content ''type'' = JStr ''toolCall''"
  obtains callId toolName k where "get_prop content ''id'' = JStr callId" "get_prop content ''name'' = JStr toolName"
    "signedToolCallKind parse (get_prop content ''thoughtSignature'') callId = Inr k"
    "k = None \<or> k = Some (outputKindForToolName toolName)"
    "collect_blocks parse blocks (insert callId ids)
      (calls @ [\<lparr>ptc_callId = callId, ptc_toolName = toolName, ptc_outputKind = outputKindForToolName toolName\<rparr>]) = Inr out"
proof -
  from assms obtain callId toolName where n: "nonEmptyString (get_prop content ''id'') = Some callId"
      "nonEmptyString (get_prop content ''name'') = Some toolName" and i: "callId \<notin> ids"
    by (auto split: option.splits if_splits)
  with assms obtain k where k: "signedToolCallKind parse (get_prop content ''thoughtSignature'') callId = Inr k"
    by (auto split: sum.splits)
  have eq: "collect_blocks parse (JObj content # blocks) ids calls =
     (if k \<noteq> None \<and> k \<noteq> Some (outputKindForToolName toolName) then Inl NormalizationError
      else collect_blocks parse blocks (insert callId ids) (calls @ [\<lparr>ptc_callId = callId, ptc_toolName = toolName,
        ptc_outputKind = (case k of None \<Rightarrow> outputKindForToolName toolName | Some k \<Rightarrow> k)\<rparr>]))"
    using n i k assms(2) by simp
  show thesis
    by (rule that [of callId toolName k])
      (use n k eq assms(1) in \<open>auto simp: nonEmptyString_Some split: if_splits option.splits\<close>)
qed

lemma block_call_of:
  assumes "codex_block parse (JObj content)" and "get_prop content ''type'' \<noteq> JStr ''toolCall''"
    and "i \<in> set (block_items parse stringify (JObj content))"
  shows "call_of_item i = None"
  using assms
  by (auto simp: block_items_def text_block_item_def thinking_block_item_def codex_block_def Let_def
      split: if_splits option.splits)

lemma collected_calls:
  "collect_blocks parse blocks ids calls = Inr out \<Longrightarrow> list_all (codex_block parse) blocks \<Longrightarrow>
    set calls \<subseteq> set out \<and> (\<forall>b \<in> set blocks. \<forall>i \<in> set (block_items parse stringify b). \<forall>c.
      call_of_item i = Some c \<longrightarrow> (\<exists>p \<in> set out. c = (JStr (ptc_callId p), ptc_outputKind p)))"
proof (induction blocks arbitrary: ids calls)
  case (Cons block blocks)
  show ?case
  proof (cases "as_record block")
    case None
    with Cons show ?thesis by (auto simp: block_items_def)
  next
    case (Some content)
    then have block: "block = JObj content" by simp
    with Cons.prems(2) have ok: "codex_block parse (JObj content)" by simp
    show ?thesis
    proof (cases "get_prop content ''type'' = JStr ''toolCall''")
      case False
      with Cons.prems(1) have "collect_blocks parse blocks ids calls = Inr out" by (simp add: block)
      with Cons.IH Cons.prems(2) block_call_of [OF ok False] show ?thesis by (fastforce simp: block)
    next
      case True
      let ?new = "\<lambda>i n. \<lparr>ptc_callId = i, ptc_toolName = n, ptc_outputKind = outputKindForToolName n\<rparr>"
      from collect_call_cases [OF Cons.prems(1) [unfolded block] True] obtain callId toolName k where
        names: "get_prop content ''id'' = JStr callId" "get_prop content ''name'' = JStr toolName"
        and k: "signedToolCallKind parse (get_prop content ''thoughtSignature'') callId = Inr k"
        and agree: "k = None \<or> k = Some (outputKindForToolName toolName)"
        and rest: "collect_blocks parse blocks (insert callId ids) (calls @ [?new callId toolName]) = Inr out" .
      have "block_items parse stringify block = [call_block_item parse stringify content]"
        using True by (simp add: block block_items_def)
      moreover have "call_of_item (call_block_item parse stringify content) = Some (JStr callId, outputKindForToolName toolName)"
        using call_block_call [OF ok True names k, of stringify] agree by auto
      moreover have "?new callId toolName \<in> set out" "set calls \<subseteq> set out"
        using Cons.IH [OF rest] Cons.prems(2) by auto
      ultimately show ?thesis using Cons.IH [OF rest] Cons.prems(2) by force
    qed
  qed
qed simp

lemma loop_collects:
  "\<lbrakk>normalize_loop parse ms p = Inr out; m \<in> set ms; role_of m = Some ''assistant''; \<not> failed_assistant m\<rbrakk> \<Longrightarrow>
    \<exists>raw calls. m = JObj raw \<and> get_prop raw ''role'' = JStr ''assistant'' \<and> collectToolCalls parse raw = Inr calls"
proof (induction ms arbitrary: p out)
  case (Cons m' ms)
  from Cons.prems(1) obtain o1 p' o2 where h: "normalize_message parse m' p = Inr (o1, p')"
    and t: "normalize_loop parse ms p' = Inr o2" unfolding loop_Cons by blast
  show ?case
  proof (cases "m = m'")
    case True
    from Cons.prems(3) obtain raw where raw: "m = JObj raw" "get_prop raw ''role'' = JStr ''assistant''"
      by (auto simp: role_of_def split: option.splits)
    with h Cons.prems(4) True show ?thesis
      by (auto simp: normalize_message_def failed_assistant_def role_of_def Let_def split: sum.splits if_splits)
  next
    case False
    with Cons.IH [OF t] Cons.prems(2-4) show ?thesis by auto
  qed
qed simp

lemma user_items_no_call [simp]: "call_of_item (userTextItem t) = None" "call_of_item (user_message_item raw) = None"
  by (simp_all add: userTextItem_def user_message_item_def)

lemma role_items_no_call:
  assumes "role \<noteq> ''assistant''" and "i \<in> set (role_items parse stringify role raw)"
  shows "call_of_item i = None"
proof -
  have branch: "\<lbrakk>\<forall>i \<in> set xs. P i; \<forall>i \<in> set ys. P i\<rbrakk> \<Longrightarrow> \<forall>i \<in> set (if b then xs else ys). P i" for xs ys :: "js list" and P b
    by simp
  have "\<forall>i \<in> set (role_items parse stringify role raw). call_of_item i = None"
    unfolding role_items_def
    by (rule branch, simp, rule branch, simp, rule branch, simp, rule branch, simp, rule branch, simp, rule branch, simp)
      (simp only: assms(1) if_True list.set ball_simps simp_thms not_False_eq_True)
  with assms(2) show ?thesis by blast
qed

lemma message_call_of:
  assumes "codex_message parse m" and "i \<in> set (toResponseItems parse stringify m)" and "call_of_item i = Some c"
  shows "\<exists>raw. m = JObj raw \<and> get_prop raw ''role'' = JStr ''assistant'' \<and> (\<forall>calls. collectToolCalls parse raw = Inr calls \<longrightarrow>
    (\<exists>p \<in> set calls. c = (JStr (ptc_callId p), ptc_outputKind p)))"
proof -
  from assms(2) obtain raw role where raw: "m = JObj raw" "get_prop raw ''role'' = JStr role"
    by (cases "as_record m"; cases "get_prop (the (as_record m)) ''role''") (auto simp: toResponseItems_def)
  have "role = ''assistant''"
    using role_items_no_call [of role i parse stringify raw] assms(2,3) raw by (auto simp: toResponseItems_def)
  with assms(2) raw obtain blocks b where b: "get_prop raw ''content'' = JArr blocks" "b \<in> set blocks"
    "i \<in> set (block_items parse stringify b)"
    by (cases "get_prop raw ''content''") (auto simp: toResponseItems_def role_items_def array_or_empty_def)
  have blocks: "list_all (codex_block parse) blocks"
    using assms(1) raw b(1) \<open>role = ''assistant''\<close> by (simp add: codex_message_def array_or_empty_def)
  have "\<exists>p \<in> set calls. c = (JStr (ptc_callId p), ptc_outputKind p)" if "collectToolCalls parse raw = Inr calls" for calls
  proof -
    from that b(1) have "collect_blocks parse blocks {} [] = Inr calls" by (simp add: collectToolCalls_def)
    from collected_calls [OF this blocks, of stringify] b(2,3) assms(3) show ?thesis by blast
  qed
  with raw \<open>role = ''assistant''\<close> show ?thesis by blast
qed

lemma answer_output:
  assumes "answers c m"
  shows "list_ex (\<lambda>x. output_of_item x = Some (JStr (ptc_callId c), ptc_outputKind c)) (toResponseItems parse stringify m)"
proof -
  from assms obtain raw where raw: "m = JObj raw" "get_prop raw ''role'' = JStr ''toolResult''"
      "get_prop raw ''toolCallId'' = JStr (ptc_callId c)" "resultKind raw = ptc_outputKind c"
    by (auto simp: answers_def role_of_def split: option.splits)
  from raw(4) have "ptc_outputKind c = (if get_prop raw ''toolName'' = JStr ''apply_patch'' then CustomOutput else FunctionOutput)"
    by (auto simp: resultKind_def outputKindForToolName_def split: js.splits)
  with raw show ?thesis by (simp add: toResponseItems_def role_items_def output_of_item_def)
qed

lemma answered_output:
  "answered_in c ms \<Longrightarrow> list_ex (\<lambda>x. output_of_item x = Some (JStr (ptc_callId c), ptc_outputKind c))
    (concat (map (toResponseItems parse stringify) ms))"
  by (induction ms) (auto dest: answer_output)

lemma items_answered_append:
  "items_answered ys \<Longrightarrow> (\<And>i c. i \<in> set xs \<Longrightarrow> call_of_item i = Some c \<Longrightarrow> list_ex (\<lambda>x. output_of_item x = Some c) ys) \<Longrightarrow>
    items_answered (xs @ ys)"
  by (induction xs) (auto split: option.split)

lemma messages_answered:
  assumes "well_answered parse ms" and "list_all (codex_message parse) ms"
    and "\<And>m. m \<in> set ms \<Longrightarrow> role_of m = Some ''assistant'' \<Longrightarrow> \<not> failed_assistant m \<Longrightarrow>
      \<exists>raw calls. m = JObj raw \<and> get_prop raw ''role'' = JStr ''assistant'' \<and> collectToolCalls parse raw = Inr calls"
  shows "items_answered (concat (map (toResponseItems parse stringify) ms))"
  using assms
proof (induction ms)
  case (Cons m ms)
  have "items_answered (toResponseItems parse stringify m @ concat (map (toResponseItems parse stringify) ms))"
  proof (rule items_answered_append)
    show "items_answered (concat (map (toResponseItems parse stringify) ms))" using Cons by simp
    fix i c
    assume i: "i \<in> set (toResponseItems parse stringify m)" "call_of_item i = Some c"
    from message_call_of [OF _ i] Cons.prems(2) obtain raw where raw: "m = JObj raw"
        "get_prop raw ''role'' = JStr ''assistant''"
      and c: "\<forall>calls. collectToolCalls parse raw = Inr calls \<longrightarrow> (\<exists>p \<in> set calls. c = (JStr (ptc_callId p), ptc_outputKind p))"
      by auto
    from Cons.prems(1,3) raw obtain calls where calls: "collectToolCalls parse raw = Inr calls"
      by (fastforce simp: role_of_def)
    with c obtain p where p: "p \<in> set calls" "c = (JStr (ptc_callId p), ptc_outputKind p)" by blast
    have "calls_of parse m = calls" using raw calls by (simp add: calls_of_def role_of_def)
    with Cons.prems(1) p(1) have "answered_in p ms" by (simp add: list_all_iff)
    from answered_output [OF this] p(2)
    show "list_ex (\<lambda>x. output_of_item x = Some c) (concat (map (toResponseItems parse stringify) ms))" by simp
  qed
  then show ?case by simp
qed simp

lemma repaired_codex:
  "repaired xs ys \<Longrightarrow> list_all (codex_message parse) xs \<Longrightarrow> list_all (codex_message parse) ys"
  by (induction rule: repaired.induct) (auto simp: codex_message_def syntheticToolResult_def)

lemma toToolCall_signed:
  assumes "toToolCall parse stringify item = Inr (Some tc)"
  shows "encodeResponseItemSignature stringify (JObj item) = Inr (tc_thoughtSignature tc)"
proof -
  from assms obtain callId nm where n: "get_prop item ''call_id'' = JStr callId" "get_prop item ''name'' = JStr nm"
    by (cases "get_prop item ''call_id''"; cases "get_prop item ''name''") (simp_all add: toToolCall_def)
  let ?raw = "if get_prop item ''type'' = JStr ''custom_tool_call'' then get_prop item ''input'' else get_prop item ''arguments''"
  from assms n obtain r where "?raw = JStr r" by (cases ?raw) (simp_all add: toToolCall_def Let_def)
  with assms n show ?thesis by (auto simp: toToolCall_def Let_def)
qed

section \<open>Properties\<close>


definition sample_history :: "js list" where
  "sample_history =
    [JObj [(''role'', JStr ''assistant''), (''content'', JArr [JObj [(''type'', JStr ''toolCall''), (''id'', JStr ''c1''),
       (''name'', JStr ''apply_patch''), (''arguments'', JObj [(''input'', JStr ''p'')])]])],
     JObj [(''role'', JStr ''user''), (''content'', JStr ''go on'')]]"


text \<open>
  Tool calls keep their items. A tool call that was taken from a provider item is sent back as exactly
  that item, whenever the text of its signature is read back as the value it was written from.
\<close>

theorem tool_call_roundtrip:
  assumes "toToolCall parse stringify item = Inr (Some tc)"
    and "parse (stringify (signature_envelope (JObj item))) = Some (signature_envelope (JObj item))" and "parse '''' = None"
  shows "block_items parse stringify (tool_call_block tc) = [JObj item]"
proof -
  from toToolCall_signed [OF assms(1)]
  have "encodeResponseItemSignature stringify (JObj item) = Inr (tc_thoughtSignature tc)" .
  from decode_encode [OF this assms(2,3)] show ?thesis
    by (simp add: block_items_def tool_call_block_def call_block_item_def)
qed

definition sample_call :: js_object where
  "sample_call = [(''type'', JStr ''function_call''), (''name'', JStr ''f''), (''arguments'', JStr ''{}''), (''call_id'', JStr ''c1'')]"

theorem tool_call_roundtrip_witness:
  "\<exists>tc. toToolCall (\<lambda>s. if s = ''t'' then Some (signature_envelope (JObj sample_call)) else None) (\<lambda>_. ''t'') sample_call =
      Inr (Some tc) \<and>
    block_items (\<lambda>s. if s = ''t'' then Some (signature_envelope (JObj sample_call)) else None) (\<lambda>_. ''t'')
      (tool_call_block tc) = [JObj sample_call]"
proof -
  let ?parse = "\<lambda>s. if s = ''t'' then Some (signature_envelope (JObj sample_call)) else None"
  let ?tc = "\<lparr>tc_id = ''c1'', tc_name = ''f'', tc_arguments = [(''input'', JStr ''{}'')], tc_thoughtSignature = ''t''\<rparr>"
  have "isSupportedStructuredResponseItem (JObj sample_call)" "strict_js (JObj sample_call)"
    by (simp_all add: isSupportedStructuredResponseItem_def sample_call_def RESPONSE_ITEM_FIELDS_def METADATA_FIELD_def)
  then have tc: "toToolCall ?parse (\<lambda>_. ''t'') sample_call = Inr (Some ?tc)"
    by (simp add: toToolCall_def sample_call_def) (simp add: encodeResponseItemSignature_def)
  from tool_call_roundtrip [OF this] tc show ?thesis by simp
qed

end
