(* ===== verification/Response_State.thy ===== *)
theory Response_State
  imports Response_Items
begin

text \<open>
  The accumulation of a streamed response, class \<open>ResponseState\<close> of
  \<open>src/src/integration/pi/codex-provider.ts\<close>: provider events are turned into content blocks of the assistant
  message and into events of the host's stream. Every pushed event carries a reference to the one message
  under construction, which is left out here; the message is \<open>rs_content\<close> with its scalar fields. An
  operation that throws returns the message with the state at that moment.

  The specification is a consumer that knows only the events: it opens a block at the next index, appends
  deltas to the open block and checks the text that closes it. The lemmas show that the events of every
  response satisfy that protocol and rebuild the text of the message, and that nothing is left open.
\<close>

section \<open>Blocks and events\<close>

datatype ContentBlock =
    TextContent string "string option"
  | ThinkingContent string "string option"
  | ToolCallContent ToolCall

datatype message_event =
    TextStart nat | TextDelta nat string | TextEnd nat string
  | ThinkingStart nat | ThinkingDelta nat string | ThinkingEnd nat string
  | ToolcallStart nat | ToolcallEnd nat ToolCall

record token_usage =
  us_input :: int
  us_output :: int
  us_cacheRead :: int
  us_reasoning :: int
  us_totalTokens :: int

datatype stop_reason = StopPending | StopStop | StopLength | StopToolUse

record ResponseState =
  rs_content :: "ContentBlock list"
  rs_responseModel :: "string option"
  rs_responseId :: "string option"
  rs_usage :: token_usage
  rs_stopReason :: stop_reason
  rs_textIndex :: "nat option"
  rs_thinkingIndex :: "nat option"
  rs_hasToolCall :: bool
  rs_stream :: "message_event list"

definition createOutput :: ResponseState where
  "createOutput = \<lparr>rs_content = [], rs_responseModel = None, rs_responseId = None,
     rs_usage = \<lparr>us_input = 0, us_output = 0, us_cacheRead = 0, us_reasoning = 0, us_totalTokens = 0\<rparr>,
     rs_stopReason = StopPending, rs_textIndex = None, rs_thinkingIndex = None, rs_hasToolCall = False,
     rs_stream = []\<rparr>"

definition push_event :: "message_event \<Rightarrow> ResponseState \<Rightarrow> ResponseState" where
  "push_event e s = s\<lparr>rs_stream := rs_stream s @ [e]\<rparr>"

definition block_at :: "ContentBlock list \<Rightarrow> nat \<Rightarrow> ContentBlock option" where
  "block_at xs i = (if i < length xs then Some (xs ! i) else None)"

section \<open>Open blocks\<close>

definition endText :: "ResponseState \<Rightarrow> ResponseState" where
  "endText s = (case rs_textIndex s of
     None \<Rightarrow> s
   | Some index \<Rightarrow>
      (case block_at (rs_content s) index of
         Some (TextContent t _) \<Rightarrow> push_event (TextEnd index t) s
       | _ \<Rightarrow> s)\<lparr>rs_textIndex := None\<rparr>)"

definition endThinking :: "ResponseState \<Rightarrow> ResponseState" where
  "endThinking s = (case rs_thinkingIndex s of
     None \<Rightarrow> s
   | Some index \<Rightarrow>
      (case block_at (rs_content s) index of
         Some (ThinkingContent t _) \<Rightarrow> push_event (ThinkingEnd index t) s
       | _ \<Rightarrow> s)\<lparr>rs_thinkingIndex := None\<rparr>)"

definition endOpenBlocks :: "ResponseState \<Rightarrow> ResponseState" where
  "endOpenBlocks s = endThinking (endText s)"

definition ensureText :: "ResponseState \<Rightarrow> nat \<times> ResponseState" where
  "ensureText s = (case rs_textIndex s of
     Some index \<Rightarrow> (index, s)
   | None \<Rightarrow>
      (let s1 = endThinking s; index = length (rs_content s1)
       in (index, push_event (TextStart index)
            (s1\<lparr>rs_content := rs_content s1 @ [TextContent '''' None], rs_textIndex := Some index\<rparr>))))"

definition ensureThinking :: "ResponseState \<Rightarrow> nat \<times> ResponseState" where
  "ensureThinking s = (case rs_thinkingIndex s of
     Some index \<Rightarrow> (index, s)
   | None \<Rightarrow>
      (let s1 = endText s; index = length (rs_content s1)
       in (index, push_event (ThinkingStart index)
            (s1\<lparr>rs_content := rs_content s1 @ [ThinkingContent '''' None], rs_thinkingIndex := Some index\<rparr>))))"

definition appendText :: "string \<Rightarrow> ResponseState \<Rightarrow> ResponseState" where
  "appendText delta s = (let (index, s1) = ensureText s in
     case block_at (rs_content s1) index of
       Some (TextContent t sig) \<Rightarrow>
         push_event (TextDelta index delta) (s1\<lparr>rs_content := (rs_content s1)[index := TextContent (t @ delta) sig]\<rparr>)
     | _ \<Rightarrow> s1)"

definition appendThinking :: "string \<Rightarrow> ResponseState \<Rightarrow> ResponseState" where
  "appendThinking delta s = (let (index, s1) = ensureThinking s in
     case block_at (rs_content s1) index of
       Some (ThinkingContent t sig) \<Rightarrow>
         push_event (ThinkingDelta index delta)
           (s1\<lparr>rs_content := (rs_content s1)[index := ThinkingContent (t @ delta) sig]\<rparr>)
     | _ \<Rightarrow> s1)"

section \<open>Completed items\<close>

text \<open>The text of the parts of one type, joined.\<close>

definition completed_text :: "string \<Rightarrow> js list \<Rightarrow> string" where
  "completed_text ty parts = concat (map (\<lambda>p. case as_record p of
       None \<Rightarrow> ''''
     | Some v \<Rightarrow> if get_prop v ''type'' = JStr ty then string_or_empty (get_prop v ''text'') else '''') parts)"

definition missing_suffix :: "string \<Rightarrow> string \<Rightarrow> string" where
  "missing_suffix completed current = (if starts_with completed current then drop (length current) completed else completed)"

definition applyCompletedText :: "js \<Rightarrow> ResponseState \<Rightarrow> ResponseState" where
  "applyCompletedText v s = (case v of
     JArr parts \<Rightarrow>
      (let completed = completed_text ''output_text'' parts in
       if length completed = 0 then s
       else (let (index, s1) = ensureText s in
         case block_at (rs_content s1) index of
           Some (TextContent t _) \<Rightarrow>
             if completed = t then s1
             else (let delta = missing_suffix completed t in if 0 < length delta then appendText delta s1 else s1)
         | _ \<Rightarrow> s1))
   | _ \<Rightarrow> s)"

definition applyCompletedThinking :: "js \<Rightarrow> ResponseState \<Rightarrow> ResponseState" where
  "applyCompletedThinking v s = (case v of
     JArr parts \<Rightarrow>
      (let completed = completed_text ''summary_text'' parts in
       if length completed = 0 then s
       else (let (index, s1) = ensureThinking s in
         case block_at (rs_content s1) index of
           Some (ThinkingContent t _) \<Rightarrow>
             if completed = t then s1
             else (let delta = missing_suffix completed t in if 0 < length delta then appendThinking delta s1 else s1)
         | _ \<Rightarrow> s1))
   | _ \<Rightarrow> s)"

definition normalized_message :: "string \<Rightarrow> js_object \<Rightarrow> js_object" where
  "normalized_message t item =
    (let item1 = (case get_prop item ''role'' of JStr _ \<Rightarrow> item | _ \<Rightarrow> set_prop item ''role'' (JStr ''assistant''))
     in case get_prop item ''content'' of
          JArr _ \<Rightarrow> item1
        | _ \<Rightarrow> set_prop item1 ''content'' (JArr (if length t = 0 then []
            else [JObj [(''type'', JStr ''output_text''), (''text'', JStr t)]])))"

definition applyTextSignature ::
  "(js \<Rightarrow> string) \<Rightarrow> js_object \<Rightarrow> ResponseState \<Rightarrow> string option \<times> ResponseState" where
  "applyTextSignature stringify item s = (let (index, s1) = ensureText s in
     case block_at (rs_content s1) index of
       Some (TextContent t _) \<Rightarrow>
        (case encodeResponseItemSignature stringify (JObj (normalized_message t item)) of
           Inl e \<Rightarrow> (Some e, s1)
         | Inr signature \<Rightarrow>
             (None, s1\<lparr>rs_content := (rs_content s1)[index := TextContent t (Some signature)]\<rparr>))
     | _ \<Rightarrow> (None, s1))"

definition applyThinkingSignature ::
  "(js \<Rightarrow> string) \<Rightarrow> js_object \<Rightarrow> ResponseState \<Rightarrow> string option \<times> ResponseState" where
  "applyThinkingSignature stringify item s =
    (case encodeResponseItemSignature stringify (JObj item) of
       Inl e \<Rightarrow> (Some e, s)
     | Inr signature \<Rightarrow>
        (let (index, s1) = ensureThinking s in
         case block_at (rs_content s1) index of
           Some (ThinkingContent t _) \<Rightarrow>
             (None, s1\<lparr>rs_content := (rs_content s1)[index := ThinkingContent t (Some signature)]\<rparr>)
         | _ \<Rightarrow> (None, s1)))"

definition addToolCall :: "ToolCall \<Rightarrow> ResponseState \<Rightarrow> ResponseState" where
  "addToolCall tc s = (let s1 = endOpenBlocks s; index = length (rs_content s1) in
     push_event (ToolcallEnd index tc) (push_event (ToolcallStart index)
       (s1\<lparr>rs_content := rs_content s1 @ [ToolCallContent tc], rs_hasToolCall := True\<rparr>)))"

text \<open>\<open>encodeResponseItemSignature\<close> is evaluated in the argument of \<open>push\<close>, after the open blocks were ended.\<close>

definition consumeOpaqueItem ::
  "(js \<Rightarrow> string) \<Rightarrow> js_object \<Rightarrow> ResponseState \<Rightarrow> string option \<times> ResponseState" where
  "consumeOpaqueItem stringify item s = (let s1 = endOpenBlocks s; index = length (rs_content s1) in
     case encodeResponseItemSignature stringify (JObj item) of
       Inl e \<Rightarrow> (Some e, s1)
     | Inr signature \<Rightarrow> (None, push_event (TextEnd index '''') (push_event (TextStart index)
         (s1\<lparr>rs_content := rs_content s1 @ [TextContent '''' (Some signature)]\<rparr>))))"

definition web_search_summary :: "js_object \<Rightarrow> string" where
  "web_search_summary item =
    (let action = (case as_record (get_prop item ''action'') of None \<Rightarrow> [] | Some a \<Rightarrow> a);
         query = (case get_prop action ''query'' of
             JStr q \<Rightarrow> q
           | _ \<Rightarrow> (case get_prop action ''queries'' of
               JArr qs \<Rightarrow> concat (case map string_or_empty (filter (\<lambda>q. as_string q \<noteq> None) qs) of
                   [] \<Rightarrow> [] | w # ws \<Rightarrow> w # concat (map (\<lambda>x. [''; '', x]) ws))
             | _ \<Rightarrow> (case get_prop action ''url'' of
                 JStr u \<Rightarrow> u | _ \<Rightarrow> string_or_empty (get_prop action ''pattern''))));
         kind = (case get_prop action ''type'' of JStr k \<Rightarrow> k | _ \<Rightarrow> ''search'');
         tail = (if 0 < length query then '': '' @ query else '''')
     in (if kind = ''open_page'' then ''Opened page'' else if kind = ''find_in_page'' then ''Find in page''
         else ''Web search'') @ tail)"

definition consumeHostedWebSearch ::
  "(js \<Rightarrow> string) \<Rightarrow> js_object \<Rightarrow> ResponseState \<Rightarrow> string option \<times> ResponseState" where
  "consumeHostedWebSearch stringify item s =
    (let s1 = endOpenBlocks s; index = length (rs_content s1); summary = web_search_summary item in
     case encodeResponseItemSignature stringify (JObj item) of
       Inl e \<Rightarrow> (Some e, s1)
     | Inr signature \<Rightarrow> (None, push_event (TextEnd index summary) (push_event (TextDelta index summary)
         (push_event (TextStart index) (s1\<lparr>rs_content := rs_content s1 @ [TextContent summary (Some signature)]\<rparr>)))))"

definition finishItem ::
  "(string \<Rightarrow> js option) \<Rightarrow> (js \<Rightarrow> string) \<Rightarrow> js \<Rightarrow> ResponseState \<Rightarrow> string option \<times> ResponseState" where
  "finishItem parse stringify v s = (case as_record v of
     None \<Rightarrow> (None, s)
   | Some item \<Rightarrow>
     (case get_prop item ''type'' of
        JStr ty \<Rightarrow>
          if ty = ''message'' then applyTextSignature stringify item (applyCompletedText (get_prop item ''content'') s)
          else if ty = ''web_search_call'' then consumeHostedWebSearch stringify item s
          else if ty = ''reasoning''
          then applyThinkingSignature stringify item (applyCompletedThinking (get_prop item ''summary'') s)
          else if ty = ''function_call'' \<or> ty = ''custom_tool_call''
          then (case toToolCall parse stringify item of
              Inl e \<Rightarrow> (Some e, s)
            | Inr None \<Rightarrow> (None, s)
            | Inr (Some tc) \<Rightarrow> (None, addToolCall tc s))
          else consumeOpaqueItem stringify item s
      | _ \<Rightarrow> (None, s)))"

section \<open>Events and completion\<close>

definition accept_event ::
  "(string \<Rightarrow> js option) \<Rightarrow> (js \<Rightarrow> string) \<Rightarrow> js \<Rightarrow> ResponseState \<Rightarrow> string option \<times> ResponseState" where
  "accept_event parse stringify v s = (case as_record v of
     None \<Rightarrow> (None, s)
   | Some event \<Rightarrow>
     (case get_prop event ''type'' of
        JStr ty \<Rightarrow>
          if ty = ''response.output_text.delta''
          then (None, case get_prop event ''delta'' of JStr d \<Rightarrow> appendText d s | _ \<Rightarrow> s)
          else if ty = ''response.reasoning_summary_text.delta'' \<or> ty = ''response.reasoning_text.delta''
          then (None, case get_prop event ''delta'' of JStr d \<Rightarrow> appendThinking d s | _ \<Rightarrow> s)
          else if ty = ''response.output_item.done'' then finishItem parse stringify (get_prop event ''item'') s
          else if ty = ''response.server_model''
          then (None, case get_prop event ''model'' of JStr m \<Rightarrow> s\<lparr>rs_responseModel := Some m\<rparr> | _ \<Rightarrow> s)
          else (None, s)
      | _ \<Rightarrow> (None, s)))"

definition integer_value :: "js \<Rightarrow> int" where
  "integer_value v = (case v of JNum (Fin q) \<Rightarrow> if q < 0 then 0 else \<lfloor>q\<rfloor> | _ \<Rightarrow> 0)"

definition applyUsage :: "js \<Rightarrow> ResponseState \<Rightarrow> ResponseState" where
  "applyUsage v s = (case as_record v of
     None \<Rightarrow> s
   | Some usage \<Rightarrow>
      (let cached = integer_value (get_prop usage ''cached_input_tokens'')
       in s\<lparr>rs_usage := \<lparr>us_input = max 0 (integer_value (get_prop usage ''input_tokens'') - cached),
            us_output = integer_value (get_prop usage ''output_tokens''), us_cacheRead = cached,
            us_reasoning = integer_value (get_prop usage ''reasoning_output_tokens''),
            us_totalTokens = integer_value (get_prop usage ''total_tokens'')\<rparr>\<rparr>))"

datatype terminal_reason = TerminalStop | TerminalLength

definition complete_response :: "js \<Rightarrow> terminal_reason \<Rightarrow> ResponseState \<Rightarrow> ResponseState" where
  "complete_response v terminalReason s =
    (let s1 = endOpenBlocks s;
         s2 = (case as_record v of
             None \<Rightarrow> s1
           | Some completion \<Rightarrow>
              applyUsage (get_prop completion ''tokenUsage'')
                (case get_prop completion ''responseId'' of JStr r \<Rightarrow> s1\<lparr>rs_responseId := Some r\<rparr> | _ \<Rightarrow> s1))
     in s2\<lparr>rs_stopReason := (case terminalReason of TerminalLength \<Rightarrow> StopLength
          | TerminalStop \<Rightarrow> if rs_hasToolCall s2 then StopToolUse else StopStop)\<rparr>)"

definition responseTotalTokens :: "js \<Rightarrow> jsnum option" where
  "responseTotalTokens v = (case as_record v of
     None \<Rightarrow> None
   | Some completion \<Rightarrow>
     (case as_record (get_prop completion ''tokenUsage'') of
        None \<Rightarrow> None
      | Some usage \<Rightarrow>
        (case get_prop usage ''total_tokens'' of
           JNum n \<Rightarrow> if isSafeInteger n \<and> num_le (Fin 0) n then Some n else None
         | _ \<Rightarrow> None)))"

section \<open>The consumer of the events\<close>

datatype replayed = ReplayedText string | ReplayedThinking string | ReplayedCall ToolCall

datatype opened = OpenText string | OpenThinking string | OpenCall

type_synonym consumer = "replayed list \<times> opened option"

fun consume_event :: "message_event \<Rightarrow> consumer \<Rightarrow> consumer option" where
  "consume_event (TextStart i) (bs, None) = (if i = length bs then Some (bs, Some (OpenText '''')) else None)"
| "consume_event (TextDelta i d) (bs, Some (OpenText t)) = (if i = length bs then Some (bs, Some (OpenText (t @ d))) else None)"
| "consume_event (TextEnd i c) (bs, Some (OpenText t)) =
    (if i = length bs \<and> c = t then Some (bs @ [ReplayedText t], None) else None)"
| "consume_event (ThinkingStart i) (bs, None) = (if i = length bs then Some (bs, Some (OpenThinking '''')) else None)"
| "consume_event (ThinkingDelta i d) (bs, Some (OpenThinking t)) =
    (if i = length bs then Some (bs, Some (OpenThinking (t @ d))) else None)"
| "consume_event (ThinkingEnd i c) (bs, Some (OpenThinking t)) =
    (if i = length bs \<and> c = t then Some (bs @ [ReplayedThinking t], None) else None)"
| "consume_event (ToolcallStart i) (bs, None) = (if i = length bs then Some (bs, Some OpenCall) else None)"
| "consume_event (ToolcallEnd i tc) (bs, Some OpenCall) = (if i = length bs then Some (bs @ [ReplayedCall tc], None) else None)"
| "consume_event _ _ = None"

definition consume_all :: "message_event list \<Rightarrow> consumer option" where
  "consume_all es = fold (\<lambda>e c. Option.bind c (consume_event e)) es (Some ([], None))"

fun shape :: "ContentBlock \<Rightarrow> replayed" where
  "shape (TextContent t _) = ReplayedText t"
| "shape (ThinkingContent t _) = ReplayedThinking t"
| "shape (ToolCallContent tc) = ReplayedCall tc"

lemma consume_all_simps [simp]:
  "consume_all [] = Some ([], None)"
  "consume_all (es @ es') = fold (\<lambda>e c. Option.bind c (consume_event e)) es' (consume_all es)"
  by (simp_all add: consume_all_def)

section \<open>The invariant\<close>

definition has_call :: "ContentBlock list \<Rightarrow> bool" where
  "has_call bs \<longleftrightarrow> list_ex (\<lambda>b. case b of ToolCallContent _ \<Rightarrow> True | _ \<Rightarrow> False) bs"

definition idle :: "ResponseState \<Rightarrow> bool" where
  "idle s \<longleftrightarrow> rs_textIndex s = None \<and> rs_thinkingIndex s = None \<and>
     consume_all (rs_stream s) = Some (map shape (rs_content s), None)"

definition text_open :: "ContentBlock list \<Rightarrow> string \<Rightarrow> string option \<Rightarrow> ResponseState \<Rightarrow> bool" where
  "text_open pre t sig s \<longleftrightarrow> rs_textIndex s = Some (length pre) \<and> rs_thinkingIndex s = None \<and>
     rs_content s = pre @ [TextContent t sig] \<and> consume_all (rs_stream s) = Some (map shape pre, Some (OpenText t))"

definition thinking_open :: "ContentBlock list \<Rightarrow> string \<Rightarrow> string option \<Rightarrow> ResponseState \<Rightarrow> bool" where
  "thinking_open pre t sig s \<longleftrightarrow> rs_textIndex s = None \<and> rs_thinkingIndex s = Some (length pre) \<and>
     rs_content s = pre @ [ThinkingContent t sig] \<and>
     consume_all (rs_stream s) = Some (map shape pre, Some (OpenThinking t))"

definition calls_flagged :: "ResponseState \<Rightarrow> bool" where
  "calls_flagged s \<longleftrightarrow> rs_hasToolCall s = has_call (rs_content s)"

definition response_inv :: "ResponseState \<Rightarrow> bool" where
  "response_inv s \<longleftrightarrow> calls_flagged s \<and>
     (idle s \<or> (\<exists>pre t sig. text_open pre t sig s) \<or> (\<exists>pre t sig. thinking_open pre t sig s))"

lemmas response_defs =
  idle_def text_open_def thinking_open_def calls_flagged_def push_event_def block_at_def

lemma has_call_simps [simp]:
  "\<not> has_call []"
  "has_call (b # bs) \<longleftrightarrow> (\<exists>tc. b = ToolCallContent tc) \<or> has_call bs"
  "has_call (bs @ bs') \<longleftrightarrow> has_call bs \<or> has_call bs'"
  by (auto simp: has_call_def split: ContentBlock.split)

lemma invI:
  "calls_flagged s \<Longrightarrow> idle s \<Longrightarrow> response_inv s"
  "calls_flagged s \<Longrightarrow> text_open pre t sig s \<Longrightarrow> response_inv s"
  "calls_flagged s \<Longrightarrow> thinking_open pre t sig s \<Longrightarrow> response_inv s"
  by (auto simp: response_inv_def)

lemma response_inv_cases:
  assumes "response_inv s"
  obtains (idle) "calls_flagged s" "idle s"
    | (open_text) pre t sig where "calls_flagged s" "text_open pre t sig s"
    | (open_thinking) pre t sig where "calls_flagged s" "thinking_open pre t sig s"
  using assms by (auto simp: response_inv_def)

lemma end_blocks:
  assumes "response_inv s"
  shows "calls_flagged (endOpenBlocks s)" "idle (endOpenBlocks s)"
  using assms by (cases rule: response_inv_cases; simp add: endOpenBlocks_def endText_def endThinking_def response_defs)+

lemma ensureText_open:
  assumes "response_inv s"
  obtains pre t sig s' where "ensureText s = (length pre, s')" "calls_flagged s'" "text_open pre t sig s'"
  using assms
proof (cases rule: response_inv_cases)
  case idle
  then show thesis using that [of "rs_content s" _ "''''" None]
    by (simp add: ensureText_def endThinking_def response_defs Let_def)
next
  case (open_text pre t sig)
  then show thesis using that [of pre s t sig] by (simp add: ensureText_def response_defs)
next
  case (open_thinking pre t sig)
  then show thesis using that [of "rs_content s" _ "''''" None]
    by (simp add: ensureText_def endThinking_def response_defs Let_def)
qed

lemma ensureThinking_open:
  assumes "response_inv s"
  obtains pre t sig s' where "ensureThinking s = (length pre, s')" "calls_flagged s'" "thinking_open pre t sig s'"
  using assms
proof (cases rule: response_inv_cases)
  case idle
  then show thesis using that [of "rs_content s" _ "''''" None]
    by (simp add: ensureThinking_def endText_def response_defs Let_def)
next
  case (open_thinking pre t sig)
  then show thesis using that [of pre s t sig] by (simp add: ensureThinking_def response_defs)
next
  case (open_text pre t sig)
  then show thesis using that [of "rs_content s" _ "''''" None]
    by (simp add: ensureThinking_def endText_def response_defs Let_def)
qed

section \<open>Every operation keeps the protocol\<close>

lemma append_text_open:
  assumes "calls_flagged s" "text_open pre t sig s"
  shows "calls_flagged (appendText d s)" "text_open pre (t @ d) sig (appendText d s)"
  using assms by (simp_all add: appendText_def ensureText_def response_defs)

lemma append_thinking_open:
  assumes "calls_flagged s" "thinking_open pre t sig s"
  shows "calls_flagged (appendThinking d s)" "thinking_open pre (t @ d) sig (appendThinking d s)"
  using assms by (simp_all add: appendThinking_def ensureThinking_def response_defs)

lemma appendText_ensured:
  "ensureText s = (length pre, s') \<Longrightarrow> text_open pre t sig s' \<Longrightarrow> appendText d s = appendText d s'"
  by (simp add: appendText_def ensureText_def [of s'] text_open_def)

lemma appendThinking_ensured:
  "ensureThinking s = (length pre, s') \<Longrightarrow> thinking_open pre t sig s' \<Longrightarrow> appendThinking d s = appendThinking d s'"
  by (simp add: appendThinking_def ensureThinking_def [of s'] thinking_open_def)

lemma appendText_inv: "response_inv s \<Longrightarrow> response_inv (appendText d s)"
  by (metis ensureText_open appendText_ensured append_text_open invI(2))

lemma appendThinking_inv: "response_inv s \<Longrightarrow> response_inv (appendThinking d s)"
  by (metis ensureThinking_open appendThinking_ensured append_thinking_open invI(3))

lemma open_block_at:
  "text_open pre t sig s \<Longrightarrow> block_at (rs_content s) (length pre) = Some (TextContent t sig)"
  "thinking_open pre t sig s \<Longrightarrow> block_at (rs_content s) (length pre) = Some (ThinkingContent t sig)"
  by (simp_all add: response_defs)

lemma completed_text_inv:
  assumes "response_inv s"
  shows "response_inv (applyCompletedText v s)"
proof -
  from ensureText_open [OF assms] obtain pre t sig s' where e: "ensureText s = (length pre, s')" "calls_flagged s'"
    "text_open pre t sig s'" .
  from invI(2) [OF e(2,3)] have "response_inv s'" .
  with assms e show ?thesis
    by (auto simp: applyCompletedText_def open_block_at Let_def appendText_inv split: js.split)
qed

lemma completed_thinking_inv:
  assumes "response_inv s"
  shows "response_inv (applyCompletedThinking v s)"
proof -
  from ensureThinking_open [OF assms] obtain pre t sig s' where e: "ensureThinking s = (length pre, s')" "calls_flagged s'"
    "thinking_open pre t sig s'" .
  from invI(3) [OF e(2,3)] have "response_inv s'" .
  with assms e show ?thesis
    by (auto simp: applyCompletedThinking_def open_block_at Let_def appendThinking_inv split: js.split)
qed

lemma sign_open:
  "\<lbrakk>calls_flagged s; text_open pre t sig s\<rbrakk> \<Longrightarrow>
     response_inv (s\<lparr>rs_content := (rs_content s)[length pre := TextContent t sig']\<rparr>)"
  "\<lbrakk>calls_flagged s; thinking_open pre t sig s\<rbrakk> \<Longrightarrow>
     response_inv (s\<lparr>rs_content := (rs_content s)[length pre := ThinkingContent t sig']\<rparr>)"
  by (rule invI(2) [of _ pre t sig'], simp_all add: response_defs)
    (rule invI(3) [of _ pre t sig'], simp_all add: response_defs)

lemma text_signature_inv:
  assumes "response_inv s"
  shows "response_inv (snd (applyTextSignature stringify item s))"
proof -
  from ensureText_open [OF assms] obtain pre t sig s' where e: "ensureText s = (length pre, s')" "calls_flagged s'"
    "text_open pre t sig s'" .
  then show ?thesis
    by (simp add: applyTextSignature_def open_block_at Let_def sign_open(1) [OF e(2,3)] invI(2) [OF e(2,3)] split: sum.split)
qed

lemma thinking_signature_inv:
  assumes "response_inv s"
  shows "response_inv (snd (applyThinkingSignature stringify item s))"
proof -
  from ensureThinking_open [OF assms] obtain pre t sig s' where e: "ensureThinking s = (length pre, s')" "calls_flagged s'"
    "thinking_open pre t sig s'" .
  with assms show ?thesis
    by (simp add: applyThinkingSignature_def open_block_at Let_def sign_open(2) [OF e(2,3)] split: sum.split)
qed

lemma closed_item_inv:
  assumes "response_inv s"
  shows "response_inv (addToolCall tc s)" "response_inv (snd (consumeOpaqueItem stringify item s))"
    "response_inv (snd (consumeHostedWebSearch stringify item s))"
proof -
  note e = end_blocks [OF assms]
  show "response_inv (addToolCall tc s)"
    by (rule invI(1)) (use e in \<open>simp_all add: addToolCall_def response_defs Let_def\<close>)
  show "response_inv (snd (consumeOpaqueItem stringify item s))"
    by (rule invI(1)) (use e in \<open>simp_all add: consumeOpaqueItem_def response_defs Let_def split: sum.split\<close>)
  show "response_inv (snd (consumeHostedWebSearch stringify item s))"
    by (rule invI(1)) (use e in \<open>simp_all add: consumeHostedWebSearch_def response_defs Let_def split: sum.split\<close>)
qed

lemma finishItem_inv: "response_inv s \<Longrightarrow> response_inv (snd (finishItem parse stringify v s))"
  by (simp add: finishItem_def text_signature_inv thinking_signature_inv completed_text_inv completed_thinking_inv
      closed_item_inv split: option.split js.split sum.split)

lemma model_inv: "response_inv s \<Longrightarrow> response_inv (s\<lparr>rs_responseModel := m\<rparr>)"
  by (simp add: response_inv_def response_defs)

lemma accept_inv: "response_inv s \<Longrightarrow> response_inv (snd (accept_event parse stringify v s))"
  by (simp add: accept_event_def appendText_inv appendThinking_inv finishItem_inv model_inv
      split: option.split js.split)

definition accept_events ::
  "(string \<Rightarrow> js option) \<Rightarrow> (js \<Rightarrow> string) \<Rightarrow> js list \<Rightarrow> ResponseState \<Rightarrow> ResponseState" where
  "accept_events parse stringify vs s = fold (\<lambda>v s. snd (accept_event parse stringify v s)) vs s"

lemma output_inv: "response_inv createOutput"
  by (rule invI(1)) (simp_all add: createOutput_def response_defs)

lemma accept_events_inv: "response_inv s \<Longrightarrow> response_inv (accept_events parse stringify vs s)"
  unfolding accept_events_def by (induction vs arbitrary: s) (simp_all add: accept_inv)

lemma complete_frame:
  "rs_content (complete_response v r s) = rs_content (endOpenBlocks s)"
  "rs_stream (complete_response v r s) = rs_stream (endOpenBlocks s)"
  "rs_stopReason (complete_response v r s) = (case r of TerminalLength \<Rightarrow> StopLength
     | TerminalStop \<Rightarrow> if rs_hasToolCall (endOpenBlocks s) then StopToolUse else StopStop)"
  by (simp_all add: complete_response_def applyUsage_def Let_def split: option.split js.split terminal_reason.split)

section \<open>What is sent back\<close>

text \<open>The block as the host stores it in the message and hands it to the next request.\<close>

definition optional_signature :: "string \<Rightarrow> string option \<Rightarrow> js_object" where
  "optional_signature k sig = (case sig of None \<Rightarrow> [] | Some s \<Rightarrow> [(k, JStr s)])"

fun content_js :: "ContentBlock \<Rightarrow> js" where
  "content_js (TextContent t sig) = JObj ([(''type'', JStr ''text''), (''text'', JStr t)] @ optional_signature ''textSignature'' sig)"
| "content_js (ThinkingContent t sig) =
     JObj ([(''type'', JStr ''thinking''), (''thinking'', JStr t)] @ optional_signature ''thinkingSignature'' sig)"
| "content_js (ToolCallContent tc) = tool_call_block tc"

lemma signed_block_items:
  assumes "decodeResponseItemSignature parse (JStr sig) = Some item"
  shows "block_items parse stringify (content_js (TextContent t (Some sig))) = [JObj item]"
    "block_items parse stringify (content_js (ThinkingContent t (Some sig))) = [JObj item]"
    "tc_thoughtSignature tc = sig \<Longrightarrow> block_items parse stringify (content_js (ToolCallContent tc)) = [JObj item]"
  using assms
  by (simp_all add: block_items_def text_block_item_def thinking_block_item_def call_block_item_def optional_signature_def
      tool_call_block_def Let_def)

text \<open>After a finished item the last block of the message carries the signature of the item.\<close>

definition last_signed :: "string \<Rightarrow> ResponseState \<Rightarrow> bool" where
  "last_signed sig s \<longleftrightarrow> rs_content s \<noteq> [] \<and> (case last (rs_content s) of
     TextContent _ sg \<Rightarrow> sg = Some sig | ThinkingContent _ sg \<Rightarrow> sg = Some sig | ToolCallContent tc \<Rightarrow> tc_thoughtSignature tc = sig)"

lemma last_signed_items:
  "last_signed sig s \<Longrightarrow> decodeResponseItemSignature parse (JStr sig) = Some item \<Longrightarrow>
     block_items parse stringify (content_js (last (rs_content s))) = [JObj item]"
  using signed_block_items [where parse = parse and sig = sig and item = item and stringify = stringify]
  by (cases "last (rs_content s)") (auto simp: last_signed_def simp del: content_js.simps)

definition complete_message :: "js_object \<Rightarrow> bool" where
  "complete_message item \<longleftrightarrow> as_string (get_prop item ''role'') \<noteq> None \<and> as_array (get_prop item ''content'') \<noteq> None"

lemma complete_normalized: "complete_message item \<Longrightarrow> normalized_message t item = item"
  by (auto simp: complete_message_def normalized_message_def Let_def)

lemma text_signed:
  assumes "response_inv s" and "complete_message item" and "applyTextSignature stringify item s = (None, s')"
  shows "\<exists>sig. encodeResponseItemSignature stringify (JObj item) = Inr sig \<and> last_signed sig s'"
proof -
  from ensureText_open [OF assms(1)] obtain pre t sig s1 where e: "ensureText s = (length pre, s1)" "text_open pre t sig s1" .
  with assms(3) show ?thesis
    by (auto simp: applyTextSignature_def complete_normalized [OF assms(2)] block_at_def last_signed_def text_open_def
        split: sum.splits)
qed

lemma thinking_signed:
  assumes "response_inv s" and "applyThinkingSignature stringify item s = (None, s')"
  shows "\<exists>sig. encodeResponseItemSignature stringify (JObj item) = Inr sig \<and> last_signed sig s'"
proof -
  from ensureThinking_open [OF assms(1)] obtain pre t sig s1 where
    e: "ensureThinking s = (length pre, s1)" "thinking_open pre t sig s1" .
  with assms(2) show ?thesis
    by (auto simp: applyThinkingSignature_def block_at_def last_signed_def thinking_open_def split: sum.splits)
qed

lemma appended_signed:
  "consumeOpaqueItem stringify item s = (None, s') \<Longrightarrow>
     \<exists>sig. encodeResponseItemSignature stringify (JObj item) = Inr sig \<and> last_signed sig s'"
  "consumeHostedWebSearch stringify item s = (None, s') \<Longrightarrow>
     \<exists>sig. encodeResponseItemSignature stringify (JObj item) = Inr sig \<and> last_signed sig s'"
  by (auto simp: consumeOpaqueItem_def consumeHostedWebSearch_def last_signed_def push_event_def Let_def split: sum.splits)

lemma call_signed: "last_signed (tc_thoughtSignature tc) (addToolCall tc s)"
  by (simp add: addToolCall_def last_signed_def push_event_def Let_def)

lemma finish_signed:
  assumes "response_inv s" and "finishItem parse stringify (JObj item) s = (None, s')"
    and "get_prop item ''type'' = JStr ty" and "ty = ''message'' \<longrightarrow> complete_message item"
    and "ty = ''function_call'' \<or> ty = ''custom_tool_call'' \<longrightarrow> toToolCall parse stringify item \<noteq> Inr None"
  shows "\<exists>sig. encodeResponseItemSignature stringify (JObj item) = Inr sig \<and> last_signed sig s'"
proof -
  consider "ty = ''message''" | "ty = ''web_search_call''" | "ty = ''reasoning''"
    | "ty = ''function_call'' \<or> ty = ''custom_tool_call''"
    | "ty \<notin> {''message'', ''web_search_call'', ''reasoning'', ''function_call'', ''custom_tool_call''}" by auto
  then show ?thesis
  proof cases
    case 1
    with assms text_signed [OF completed_text_inv [OF assms(1)], of item stringify "get_prop item ''content''" s'] show ?thesis
      by (simp add: finishItem_def)
  next
    case 2
    with assms appended_signed(2) show ?thesis by (simp add: finishItem_def)
  next
    case 3
    with assms thinking_signed [OF completed_thinking_inv [OF assms(1)]] show ?thesis by (simp add: finishItem_def)
  next
    case 4
    with assms(2,3,5) obtain tc where tc: "toToolCall parse stringify item = Inr (Some tc)" "s' = addToolCall tc s"
      by (auto simp: finishItem_def split: sum.splits option.splits)
    from toToolCall_signed [OF tc(1)] call_signed [of tc s] tc(2) show ?thesis by simp
  next
    case 5
    with assms(2,3) appended_signed(1) show ?thesis by (simp add: finishItem_def)
  qed
qed

text \<open>
  Two items of the same kind in a row: the block of the first one is still open when the deltas of the
  second arrive. Its text is merged with and followed by the text of the second message, and its signature
  is replaced, so the first message is not sent back. Reasoning items behave the same.
\<close>

definition output_message :: "string \<Rightarrow> js_object" where
  "output_message t = [(''type'', JStr ''message''), (''role'', JStr ''assistant''),
     (''content'', JArr [JObj [(''type'', JStr ''output_text''), (''text'', JStr t)]])]"

definition text_delta :: "string \<Rightarrow> js" where
  "text_delta t = JObj [(''type'', JStr ''response.output_text.delta''), (''delta'', JStr t)]"

definition item_done :: "js_object \<Rightarrow> js" where
  "item_done item = JObj [(''type'', JStr ''response.output_item.done''), (''item'', JObj item)]"

lemma message_supported: "strict_js (JObj (output_message t))" "isSupportedStructuredResponseItem (JObj (output_message t))"
  by (simp_all add: output_message_def isSupportedStructuredResponseItem_def RESPONSE_ITEM_FIELDS_def METADATA_FIELD_def)

lemma consecutive_messages_merge:
  "rs_content (accept_events parse stringify [text_delta ''A'', item_done (output_message ''A''),
      text_delta ''B'', item_done (output_message ''B'')] createOutput) =
    [TextContent ''ABB'' (Some (stringify (signature_envelope (JObj (output_message ''B'')))))]"
proof -
  have n: "complete_message (output_message t)" for t by (simp add: complete_message_def output_message_def)
  have e: "encodeResponseItemSignature stringify (JObj (output_message t)) =
      Inr (stringify (signature_envelope (JObj (output_message t))))" for t
    using message_supported [of t] by (simp add: encodeResponseItemSignature_def)
  have d: "accept_event parse stringify (text_delta t) s = (None, appendText t s)" for t s
    by (simp add: accept_event_def text_delta_def)
  have i: "accept_event parse stringify (item_done (output_message t)) s =
      applyTextSignature stringify (output_message t)
        (applyCompletedText (JArr [JObj [(''type'', JStr ''output_text''), (''text'', JStr t)]]) s)" for t s
    by (simp add: accept_event_def item_done_def finishItem_def) (simp add: output_message_def)
  show ?thesis
    by (simp add: accept_events_def d i)
      (simp add: createOutput_def appendText_def applyTextSignature_def applyCompletedText_def complete_normalized [OF n] e
        ensureText_def endThinking_def push_event_def block_at_def completed_text_def string_or_empty_def missing_suffix_def Let_def)
qed

section \<open>Properties\<close>


text \<open>
  Items survive in the message. When an item of the provider was accepted, the block it became is sent
  back in the next request as exactly that item, whatever came before it: a message that has its role and
  content, a reasoning item, a tool call, a hosted search or an item of a kind the adaptor does not
  interpret.
\<close>

theorem finished_item_preserved:
  assumes "finishItem parse stringify (JObj item) (accept_events parse stringify vs createOutput) = (None, s)"
    and "get_prop item ''type'' = JStr ty" and "ty = ''message'' \<longrightarrow> complete_message item"
    and "ty = ''function_call'' \<or> ty = ''custom_tool_call'' \<longrightarrow> toToolCall parse stringify item \<noteq> Inr None"
    and "parse (stringify (signature_envelope (JObj item))) = Some (signature_envelope (JObj item))" and "parse '''' = None"
  shows "block_items parse stringify (content_js (last (rs_content s))) = [JObj item]"
proof -
  from finish_signed [OF accept_events_inv [OF output_inv] assms(1-4)] obtain sig where
    e: "encodeResponseItemSignature stringify (JObj item) = Inr sig" "last_signed sig s" by blast
  show ?thesis by (rule last_signed_items [OF e(2) decode_encode [OF e(1) assms(5,6)]])
qed

theorem finished_item_preserved_witness:
  "\<exists>s. finishItem (\<lambda>x. if x = ''t'' then Some (signature_envelope (JObj (output_message ''A''))) else None) (\<lambda>_. ''t'')
       (JObj (output_message ''A'')) createOutput = (None, s) \<and>
     block_items (\<lambda>x. if x = ''t'' then Some (signature_envelope (JObj (output_message ''A''))) else None) (\<lambda>_. ''t'')
       (content_js (last (rs_content s))) = [JObj (output_message ''A'')]"
proof -
  let ?m = "output_message ''A''"
  let ?parse = "\<lambda>x. if x = ''t'' then Some (signature_envelope (JObj ?m)) else None"
  let ?t1 = "applyCompletedText (get_prop ?m ''content'') createOutput"
  have c: "complete_message ?m" by (simp add: complete_message_def output_message_def)
  have ty: "get_prop ?m ''type'' = JStr ''message''" by (simp add: output_message_def)
  have "fst (applyTextSignature (\<lambda>_. ''t'') ?m ?t1) = None"
    using message_supported [of "''A''"]
    by (simp add: applyTextSignature_def complete_normalized [OF c] encodeResponseItemSignature_def
        split: option.split ContentBlock.split prod.split)
  then obtain s where s: "finishItem ?parse (\<lambda>_. ''t'') (JObj ?m) createOutput = (None, s)"
    using ty by (cases "applyTextSignature (\<lambda>_. ''t'') ?m ?t1") (simp add: finishItem_def)
  moreover have "block_items ?parse (\<lambda>_. ''t'') (content_js (last (rs_content s))) = [JObj ?m]"
    by (rule finished_item_preserved [where vs = "[]" and ty = "''message''"]) (use s ty c in \<open>simp_all add: accept_events_def\<close>)
  ultimately show ?thesis by blast
qed

end
