(* ===== verification/Tool_Profile.thy ===== *)
theory Tool_Profile
  imports Capability_Resolution
begin

text \<open>
  The tool profile of \<open>src/src/integration/pi/codex-tool-profile.ts\<close>: while the Codex provider is
  active the coding tools of the host are replaced by the managed Codex tools, and they are put back
  when it is left. The host is a parameter, the record of the three calls the profile makes; the
  locale \<open>pi_host\<close> states what the code relies on: a list of names that are active or registered
  becomes the active list, and activating tools does not change the registry. Between two operations
  the host may change in any way, except where a theorem says otherwise.

  The lemmas show that the phase of the profile and the readiness it reports agree in every reachable
  state, that the profile is reversible, that a healthy profile activates exactly the managed tools it
  owns, that a refused one activates none, and that a conflict is reported at most once per generation.
\<close>

section \<open>Names\<close>

definition PI_CORE_AGENT_TOOL_NAMES :: "string list" where
  "PI_CORE_AGENT_TOOL_NAMES = [''read'', ''bash'', ''edit'', ''write'', ''grep'', ''find'', ''ls'']"

definition isPiCoreAgentToolName :: "string \<Rightarrow> bool" where
  "isPiCoreAgentToolName name \<longleftrightarrow> name \<in> set PI_CORE_AGENT_TOOL_NAMES"

definition isManagedToolName :: "string \<Rightarrow> bool" where
  "isManagedToolName name \<longleftrightarrow> name \<in> set MANAGED_TOOL_NAMES"

fun orderedUnique_loop :: "string list \<Rightarrow> string set \<Rightarrow> string list \<Rightarrow> string list" where
  "orderedUnique_loop [] seen result = result"
| "orderedUnique_loop (name # names) seen result =
    (if name \<in> seen then orderedUnique_loop names seen result
     else orderedUnique_loop names (insert name seen) (result @ [name]))"

definition orderedUnique :: "string list \<Rightarrow> string list" where
  "orderedUnique names = orderedUnique_loop names {} []"

definition reconcileCodexActiveToolNames :: "string list \<Rightarrow> string set \<Rightarrow> string list \<Rightarrow> string list" where
  "reconcileCodexActiveToolNames currentNames availableNames activeManaged =
    fold (\<lambda>name result.
        if name \<notin> availableNames \<or> \<not> isManagedToolName name \<or> name \<in> set result then result
        else result @ [name])
      (orderedUnique activeManaged)
      (orderedUnique (filter (\<lambda>name. name \<in> availableNames \<and> \<not> isPiCoreAgentToolName name \<and>
         \<not> isManagedToolName name) currentNames))"

definition append_available :: "string set \<Rightarrow> string \<Rightarrow> string list \<Rightarrow> string list" where
  "append_available availableNames name restored =
    (if name \<notin> availableNames \<or> name \<in> set restored then restored else restored @ [name])"

definition restorePiActiveToolNames ::
  "string list \<Rightarrow> string set \<Rightarrow> string list option \<Rightarrow> string list \<Rightarrow> string list" where
  "restorePiActiveToolNames currentNames availableNames baselineOrder capturedPiCore =
    (let current = orderedUnique currentNames in
     case baselineOrder of
       None \<Rightarrow> filter (\<lambda>name. name \<in> availableNames \<and> \<not> isManagedToolName name) current
     | Some baseline \<Rightarrow>
        (let captured = set (filter isPiCoreAgentToolName capturedPiCore);
             currentAdditives = filter (\<lambda>name. name \<in> availableNames \<and> \<not> isPiCoreAgentToolName name \<and>
               \<not> isManagedToolName name) current;
             restored = fold (\<lambda>name restored.
                 if isManagedToolName name then restored
                 else if isPiCoreAgentToolName name
                   then (if name \<in> captured then append_available availableNames name restored else restored)
                 else if name \<in> set currentAdditives then append_available availableNames name restored
                 else restored) (orderedUnique baseline) []
         in fold (append_available availableNames) currentAdditives restored))"

section \<open>The host\<close>

record ToolInfo =
  tool_name :: string
  tool_path :: "string option"

text \<open>
  \<open>pi_normalizedEntryPath\<close> stands for \<open>normalizedEntryPath\<close>, which resolves a path in the file
  system; \<open>getAllTools\<close> is \<open>None\<close> where the call throws.
\<close>

record 'h PiHost =
  getActiveTools :: "'h \<Rightarrow> string list"
  setActiveTools :: "string list \<Rightarrow> 'h \<Rightarrow> 'h"
  getAllTools :: "'h \<Rightarrow> ToolInfo list option"
  pi_normalizedEntryPath :: "string \<Rightarrow> string"

definition toolNames :: "ToolInfo list \<Rightarrow> string set" where
  "toolNames infos = set (map tool_name infos)"

definition listed_names :: "ToolInfo list option \<Rightarrow> string set" where
  "listed_names infos = (case infos of None \<Rightarrow> {} | Some ts \<Rightarrow> toolNames ts)"

record ManagedToolOwnership =
  own_ok :: bool
  own_conflictingTool :: "string option"

fun validate_names ::
  "(string \<Rightarrow> string) \<Rightarrow> (string \<rightharpoonup> ToolInfo) \<Rightarrow> string option \<Rightarrow> string list \<Rightarrow> ManagedToolOwnership" where
  "validate_names entryPath byName expected [] = \<lparr>own_ok = True, own_conflictingTool = None\<rparr>"
| "validate_names entryPath byName expected (name # names) =
    (if \<not> isManagedToolName name then \<lparr>own_ok = False, own_conflictingTool = Some name\<rparr>
     else (case byName name of
         None \<Rightarrow> \<lparr>own_ok = False, own_conflictingTool = Some name\<rparr>
       | Some tool \<Rightarrow>
           (case expected of
              None \<Rightarrow> validate_names entryPath byName expected names
            | Some e \<Rightarrow>
                if (case tool_path tool of None \<Rightarrow> True | Some p \<Rightarrow> entryPath p \<noteq> entryPath e)
                then \<lparr>own_ok = False, own_conflictingTool = Some name\<rparr>
                else validate_names entryPath byName expected names)))"

text \<open>\<open>new Map(tools.map((tool) => [tool.name, tool]))\<close>: the last tool of a name wins.\<close>

definition tools_by_name :: "ToolInfo list \<Rightarrow> string \<rightharpoonup> ToolInfo" where
  "tools_by_name infos = map_of (rev (map (\<lambda>t. (tool_name t, t)) infos))"

definition validateManagedToolOwnership ::
  "(string \<Rightarrow> string) \<Rightarrow> ToolInfo list option \<Rightarrow> string list \<Rightarrow> string option \<Rightarrow> ManagedToolOwnership" where
  "validateManagedToolOwnership entryPath infos activeManaged expectedEntryPath =
    (case infos of
       None \<Rightarrow> \<lparr>own_ok = False, own_conflictingTool = None\<rparr>
     | Some ts \<Rightarrow> validate_names entryPath (tools_by_name ts) expectedEntryPath (orderedUnique activeManaged))"

definition registeredManagedToolNames :: "ToolInfo list option \<Rightarrow> string list" where
  "registeredManagedToolNames infos = (case infos of None \<Rightarrow> []
     | Some ts \<Rightarrow> filter (\<lambda>name. name \<in> toolNames ts) MANAGED_TOOL_NAMES)"

section \<open>The profile\<close>

datatype profile_phase = ProfilePending | ProfileHealthy | ProfileUnavailable

record CodexProfileState =
  cp_phase :: profile_phase
  cp_baselineOrder :: "string list"
  cp_suppressedPiCore :: "string list"
  cp_activeManaged :: "string list"
  cp_skillLoader :: "string option"

datatype ProfileState = PiState | CodexState CodexProfileState

datatype CodexToolProfileReadiness =
    ReadinessInactive
  | ReadinessPending "string option"
  | ReadinessHealthy string
  | ReadinessUnavailable "string option"

text \<open>The fields of the class, the host it talks to, and a history of the messages it sent.\<close>

record 'h CodexToolProfile =
  tp_host :: 'h
  tp_state :: ProfileState
  tp_readiness :: CodexToolProfileReadiness
  tp_generation :: int
  tp_conflictGeneration :: int
  tp_notices :: "(int \<times> string) list"

definition createCodexToolProfile :: "'h \<Rightarrow> 'h CodexToolProfile" where
  "createCodexToolProfile h = \<lparr>tp_host = h, tp_state = PiState, tp_readiness = ReadinessInactive,
     tp_generation = 0, tp_conflictGeneration = -1, tp_notices = []\<rparr>"

text \<open>The host and the entry path a profile was created with.\<close>

record 'h profile_env =
  pe_pi :: "'h PiHost"
  pe_expectedEntryPath :: "string option"

definition skillLoader :: "'h CodexToolProfile \<Rightarrow> string option" where
  "skillLoader p = (case tp_state p of CodexState s \<Rightarrow> cp_skillLoader s | PiState \<Rightarrow> None)"

definition readTools :: "'h profile_env \<Rightarrow> 'h CodexToolProfile \<Rightarrow> ToolInfo list option" where
  "readTools env p = getAllTools (pe_pi env) (tp_host p)"

definition registeredManagedTools :: "'h profile_env \<Rightarrow> 'h CodexToolProfile \<Rightarrow> string list" where
  "registeredManagedTools env p = registeredManagedToolNames (readTools env p)"

definition activeTools :: "'h profile_env \<Rightarrow> 'h CodexToolProfile \<Rightarrow> string list" where
  "activeTools env p = getActiveTools (pe_pi env) (tp_host p)"

definition fallbackAvailableNames :: "'h profile_env \<Rightarrow> 'h CodexToolProfile \<Rightarrow> CodexProfileState \<Rightarrow> string set" where
  "fallbackAvailableNames env p s =
     set (activeTools env p @ cp_baselineOrder s @ cp_suppressedPiCore s @ cp_activeManaged s)"

definition availableNames :: "'h profile_env \<Rightarrow> 'h CodexToolProfile \<Rightarrow> CodexProfileState \<Rightarrow> string set" where
  "availableNames env p s = (case readTools env p of
     None \<Rightarrow> fallbackAvailableNames env p s | Some infos \<Rightarrow> toolNames infos)"

definition sameNames :: "string list \<Rightarrow> string list \<Rightarrow> bool" where
  "sameNames left right \<longleftrightarrow>
     length left = length right \<and> list_all (\<lambda>i. left ! i = right ! i) [0..<length left]"

definition applyActiveNames :: "'h profile_env \<Rightarrow> string list \<Rightarrow> 'h CodexToolProfile \<Rightarrow> 'h CodexToolProfile" where
  "applyActiveNames env next p =
    (if sameNames (orderedUnique (activeTools env p)) (orderedUnique next) then p
     else p\<lparr>tp_host := setActiveTools (pe_pi env) (orderedUnique next) (tp_host p)\<rparr>)"

definition orderedManaged :: "string list \<Rightarrow> string list" where
  "orderedManaged names = filter isManagedToolName (orderedUnique names)"

definition ensureCodexState :: "'h profile_env \<Rightarrow> 'h CodexToolProfile \<Rightarrow> 'h CodexToolProfile" where
  "ensureCodexState env p = (case tp_state p of
     CodexState _ \<Rightarrow> p
   | PiState \<Rightarrow>
       (let current = orderedUnique (activeTools env p);
            available = (case readTools env p of None \<Rightarrow> set current | Some infos \<Rightarrow> toolNames infos)
        in p\<lparr>tp_state := CodexState \<lparr>cp_phase = ProfilePending, cp_baselineOrder = current,
             cp_suppressedPiCore = filter (\<lambda>name. isPiCoreAgentToolName name \<and> name \<in> available) current,
             cp_activeManaged = [], cp_skillLoader = None\<rparr>\<rparr>))"

definition suppressManagedTools ::
  "'h profile_env \<Rightarrow> profile_phase \<Rightarrow> 'h CodexToolProfile \<Rightarrow> bool \<times> 'h CodexToolProfile" where
  "suppressManagedTools env phase p = (case tp_state p of
     PiState \<Rightarrow> (False, p)
   | CodexState s \<Rightarrow>
       (True, (applyActiveNames env
           (reconcileCodexActiveToolNames (activeTools env p) (availableNames env p s) []) p)
         \<lparr>tp_state := CodexState (s\<lparr>cp_phase := phase, cp_activeManaged := [], cp_skillLoader := None\<rparr>)\<rparr>))"

definition enterPending :: "'h profile_env \<Rightarrow> string option \<Rightarrow> 'h CodexToolProfile \<Rightarrow> 'h CodexToolProfile" where
  "enterPending env capabilityKey p0 =
    (let p1 = ensureCodexState env p0;
         p2 = p1\<lparr>tp_generation := tp_generation p1 + 1, tp_conflictGeneration := -1\<rparr>
     in case suppressManagedTools env ProfilePending p2 of
          (False, p3) \<Rightarrow> p3
        | (True, p3) \<Rightarrow> p3\<lparr>tp_readiness := ReadinessPending capabilityKey\<rparr>)"

definition conflict_message :: "string \<Rightarrow> string" where
  "conflict_message tool = ''Codex unavailable: managed tool ownership conflict for '' @ tool"

definition installUnavailable ::
  "'h profile_env \<Rightarrow> string option \<Rightarrow> string option \<Rightarrow> bool \<Rightarrow> 'h CodexToolProfile \<Rightarrow> 'h CodexToolProfile" where
  "installUnavailable env capabilityKey conflictingTool notifies p0 =
    (case suppressManagedTools env ProfileUnavailable (ensureCodexState env p0) of
       (False, p) \<Rightarrow> p
     | (True, p) \<Rightarrow>
        (let p1 = p\<lparr>tp_readiness := ReadinessUnavailable capabilityKey\<rparr> in
         case conflictingTool of
           None \<Rightarrow> p1
         | Some tool \<Rightarrow>
             if notifies \<and> tp_conflictGeneration p1 \<noteq> tp_generation p1
             then p1\<lparr>tp_conflictGeneration := tp_generation p1,
                  tp_notices := tp_notices p1 @ [(tp_generation p1, conflict_message tool)]\<rparr>
             else p1))"

definition profile_ownership :: "'h profile_env \<Rightarrow> string list \<Rightarrow> 'h CodexToolProfile \<Rightarrow> ManagedToolOwnership" where
  "profile_ownership env activeManaged p =
     validateManagedToolOwnership (pi_normalizedEntryPath (pe_pi env)) (readTools env p) activeManaged
       (map_option (pi_normalizedEntryPath (pe_pi env)) (pe_expectedEntryPath env))"

definition installHealthy ::
  "'h profile_env \<Rightarrow> string \<Rightarrow> string list \<Rightarrow> string option \<Rightarrow> bool \<Rightarrow> 'h CodexToolProfile \<Rightarrow>
     bool \<times> 'h CodexToolProfile" where
  "installHealthy env capabilityKey activeManaged loader notifies p0 =
    (let p = ensureCodexState env p0 in
     case tp_state p of
       PiState \<Rightarrow> (False, p)
     | CodexState s \<Rightarrow>
        (let ownership = profile_ownership env activeManaged p in
         if \<not> own_ok ownership
         then (False, installUnavailable env (Some capabilityKey) (own_conflictingTool ownership) notifies p)
         else (True, (applyActiveNames env
                 (reconcileCodexActiveToolNames (activeTools env p) (availableNames env p s) activeManaged) p)
               \<lparr>tp_state := CodexState (s\<lparr>cp_phase := ProfileHealthy,
                  cp_activeManaged := orderedManaged activeManaged, cp_skillLoader := loader\<rparr>),
                tp_readiness := ReadinessHealthy capabilityKey\<rparr>)))"

definition revalidateHealthyOwnership ::
  "'h profile_env \<Rightarrow> bool \<Rightarrow> 'h CodexToolProfile \<Rightarrow> bool \<times> 'h CodexToolProfile" where
  "revalidateHealthyOwnership env notifies p = (case tp_state p of
     PiState \<Rightarrow> (False, p)
   | CodexState s \<Rightarrow>
       if cp_phase s \<noteq> ProfileHealthy then (False, p)
       else
        (let ownership = profile_ownership env (cp_activeManaged s) p in
         if \<not> own_ok ownership
         then (False, installUnavailable env
                 (case tp_readiness p of ReadinessHealthy k \<Rightarrow> Some k | _ \<Rightarrow> None)
                 (own_conflictingTool ownership) notifies p)
         else (True, applyActiveNames env
                 (reconcileCodexActiveToolNames (activeTools env p) (availableNames env p s) (cp_activeManaged s)) p)))"

definition isHealthy :: "string \<Rightarrow> 'h CodexToolProfile \<Rightarrow> bool" where
  "isHealthy capabilityKey p \<longleftrightarrow> tp_readiness p = ReadinessHealthy capabilityKey"

definition restorePi :: "'h profile_env \<Rightarrow> 'h CodexToolProfile \<Rightarrow> 'h CodexToolProfile" where
  "restorePi env p =
    (let current = activeTools env p;
         available = (case readTools env p of
             None \<Rightarrow> (case tp_state p of CodexState s \<Rightarrow> fallbackAvailableNames env p s | PiState \<Rightarrow> set current)
           | Some infos \<Rightarrow> toolNames infos);
         restored = (case tp_state p of
             CodexState s \<Rightarrow>
               restorePiActiveToolNames current available (Some (cp_baselineOrder s)) (cp_suppressedPiCore s)
           | PiState \<Rightarrow> restorePiActiveToolNames current available None [])
     in (applyActiveNames env restored p)\<lparr>tp_state := PiState, tp_readiness := ReadinessInactive\<rparr>)"

definition profile_dispose :: "'h profile_env \<Rightarrow> 'h CodexToolProfile \<Rightarrow> 'h CodexToolProfile" where
  "profile_dispose env p = restorePi env p"

section \<open>Names: reference equations\<close>

definition isAdditive :: "string set \<Rightarrow> string \<Rightarrow> bool" where
  "isAdditive available name \<longleftrightarrow> name \<in> available \<and> \<not> isPiCoreAgentToolName name \<and> \<not> isManagedToolName name"

lemma orderedUnique_loop_eq:
  "orderedUnique_loop names seen result = result @ filter (\<lambda>n. n \<notin> seen) (unique_values names)"
proof (induction names arbitrary: seen result)
  case (Cons n ns)
  have "filter (\<lambda>x. x \<notin> seen \<and> x \<noteq> n) (unique_values ns) = filter (\<lambda>x. x \<notin> seen) (unique_values ns)"
    if "n \<in> seen" using that by (intro filter_cong) auto
  moreover have "filter (\<lambda>x. x \<notin> seen \<and> x \<noteq> n) (unique_values ns) =
      filter (\<lambda>x. x \<noteq> n \<and> x \<notin> seen) (unique_values ns)"
    by (rule filter_cong) auto
  ultimately show ?case using Cons by simp
qed simp

lemma orderedUnique_eq: "orderedUnique names = unique_values names"
  by (simp add: orderedUnique_def orderedUnique_loop_eq)

lemma core_not_managed: "isPiCoreAgentToolName n \<Longrightarrow> \<not> isManagedToolName n"
  by (auto simp: isPiCoreAgentToolName_def isManagedToolName_def PI_CORE_AGENT_TOOL_NAMES_def MANAGED_TOOL_NAMES_def)

lemma isAdditive_fun:
  "(\<lambda>name. name \<in> available \<and> \<not> isPiCoreAgentToolName name \<and> \<not> isManagedToolName name) = isAdditive available"
  by (intro ext) (auto simp: isAdditive_def)

lemma reconcile_eq:
  "reconcileCodexActiveToolNames current available managed =
     filter (isAdditive available) (unique_values current) @
     filter (\<lambda>n. n \<in> available \<and> isManagedToolName n) (unique_values managed)"
proof -
  let ?r = "filter (isAdditive available) (unique_values current)"
  have step: "(\<lambda>name result. if name \<notin> available \<or> \<not> isManagedToolName name \<or> name \<in> set result then result
        else result @ [name]) =
      (\<lambda>name result. if (name \<in> available \<and> isManagedToolName name) \<and> name \<notin> set result
        then result @ [name] else result)"
    by (intro ext) auto
  have "reconcileCodexActiveToolNames current available managed =
      ?r @ filter (\<lambda>n. (n \<in> available \<and> isManagedToolName n) \<and> n \<notin> set ?r) (unique_values managed)"
    unfolding reconcileCodexActiveToolNames_def step orderedUnique_eq unique_values_filter isAdditive_fun
    by (rule fold_append_new) simp
  also have "filter (\<lambda>n. (n \<in> available \<and> isManagedToolName n) \<and> n \<notin> set ?r) (unique_values managed) =
      filter (\<lambda>n. n \<in> available \<and> isManagedToolName n) (unique_values managed)"
    by (rule filter_cong) (auto simp: isAdditive_def)
  finally show ?thesis .
qed

lemma restore_None_eq:
  "restorePiActiveToolNames current available None captured =
     filter (\<lambda>n. n \<in> available \<and> \<not> isManagedToolName n) (unique_values current)"
  by (simp add: restorePiActiveToolNames_def orderedUnique_eq Let_def)

lemma restore_Some_eq:
  "restorePiActiveToolNames current available (Some baseline) captured =
    (let kept = filter (\<lambda>n. n \<in> available \<and> \<not> isManagedToolName n \<and>
           (if isPiCoreAgentToolName n then n \<in> set captured
            else n \<in> set (filter (isAdditive available) (unique_values current)))) (unique_values baseline)
     in kept @ filter (\<lambda>n. n \<notin> set kept) (filter (isAdditive available) (unique_values current)))"
proof -
  let ?A = "filter (isAdditive available) (unique_values current)"
  let ?P = "\<lambda>n. n \<in> available \<and> \<not> isManagedToolName n \<and>
    (if isPiCoreAgentToolName n then n \<in> set captured else n \<in> set ?A)"
  let ?kept = "filter ?P (unique_values baseline)"
  have step: "(\<lambda>name restored.
         if isManagedToolName name then restored
         else if isPiCoreAgentToolName name
           then (if name \<in> set (filter isPiCoreAgentToolName captured)
                 then append_available available name restored else restored)
         else if name \<in> set ?A then append_available available name restored else restored) =
       (\<lambda>n r. if ?P n \<and> n \<notin> set r then r @ [n] else r)"
    by (intro ext) (auto simp: append_available_def)
  have step2: "append_available available = (\<lambda>n r. if n \<in> available \<and> n \<notin> set r then r @ [n] else r)"
    by (intro ext) (auto simp: append_available_def)
  have f1: "fold (\<lambda>n r. if ?P n \<and> n \<notin> set r then r @ [n] else r) (unique_values baseline) [] = ?kept"
    using fold_append_new [where P = ?P and ns = "unique_values baseline" and ?r0.0 = "[]"] by simp
  have f2: "fold (\<lambda>n r. if n \<in> available \<and> n \<notin> set r then r @ [n] else r) ?A ?kept =
      ?kept @ filter (\<lambda>n. n \<in> available \<and> n \<notin> set ?kept) ?A"
    by (rule fold_append_new) simp
  have f3: "filter (\<lambda>n. n \<in> available \<and> n \<notin> set ?kept) ?A = filter (\<lambda>n. n \<notin> set ?kept) ?A"
    by (rule filter_cong) (auto simp: isAdditive_def)
  show ?thesis
    unfolding restorePiActiveToolNames_def Let_def orderedUnique_eq option.case isAdditive_fun step
    unfolding f1 step2 f2 f3 ..
qed

lemma sameNames_iff: "sameNames xs ys \<longleftrightarrow> xs = ys"
  by (auto simp: sameNames_def list_all_iff intro: nth_equalityI)

section \<open>The contract of the host\<close>

locale pi_host =
  fixes pi :: "'h PiHost"
  assumes set_active: "set ns \<subseteq> set (getActiveTools pi h) \<union> listed_names (getAllTools pi h) \<Longrightarrow>
      getActiveTools pi (setActiveTools pi ns h) = ns"
    and set_registry: "getAllTools pi (setActiveTools pi ns h) = getAllTools pi h"
begin

lemma apply_active:
  assumes "pe_pi env = pi" and "set next \<subseteq> set (activeTools env p) \<union> listed_names (readTools env p)"
  shows "unique_values (activeTools env (applyActiveNames env next p)) = unique_values next"
  using assms set_active [of "unique_values next" "tp_host p"]
  by (auto simp: applyActiveNames_def sameNames_iff activeTools_def readTools_def orderedUnique_eq
      unique_values_distinct)

lemma apply_registry: "pe_pi env = pi \<Longrightarrow> readTools env (applyActiveNames env next p) = readTools env p"
  by (simp add: applyActiveNames_def readTools_def set_registry)

end

text \<open>A host that keeps the active names and the registry satisfies the contract.\<close>

record list_host =
  lh_active :: "string list"
  lh_registry :: "ToolInfo list option"

definition listHost :: "list_host PiHost" where
  "listHost = \<lparr>getActiveTools = lh_active, setActiveTools = (\<lambda>ns h. h\<lparr>lh_active := ns\<rparr>),
     getAllTools = lh_registry, pi_normalizedEntryPath = (\<lambda>p. p)\<rparr>"

interpretation list_host: pi_host listHost
  by unfold_locales (simp_all add: listHost_def)

section \<open>Frames\<close>

lemma apply_frame [simp]:
  "tp_state (applyActiveNames env next p) = tp_state p"
  "tp_readiness (applyActiveNames env next p) = tp_readiness p"
  "tp_generation (applyActiveNames env next p) = tp_generation p"
  "tp_conflictGeneration (applyActiveNames env next p) = tp_conflictGeneration p"
  "tp_notices (applyActiveNames env next p) = tp_notices p"
  by (simp_all add: applyActiveNames_def)

lemma tools_frame [simp]:
  "activeTools env (p\<lparr>tp_state := s\<rparr>) = activeTools env p"
  "activeTools env (p\<lparr>tp_readiness := r\<rparr>) = activeTools env p"
  "activeTools env (p\<lparr>tp_generation := g\<rparr>) = activeTools env p"
  "activeTools env (p\<lparr>tp_conflictGeneration := g\<rparr>) = activeTools env p"
  "activeTools env (p\<lparr>tp_notices := ns\<rparr>) = activeTools env p"
  "readTools env (p\<lparr>tp_state := s\<rparr>) = readTools env p"
  "readTools env (p\<lparr>tp_readiness := r\<rparr>) = readTools env p"
  "readTools env (p\<lparr>tp_generation := g\<rparr>) = readTools env p"
  "readTools env (p\<lparr>tp_conflictGeneration := g\<rparr>) = readTools env p"
  "readTools env (p\<lparr>tp_notices := ns\<rparr>) = readTools env p"
  by (simp_all add: activeTools_def readTools_def)

lemma ensure_frame [simp]:
  "tp_host (ensureCodexState env p) = tp_host p"
  "tp_generation (ensureCodexState env p) = tp_generation p"
  "tp_conflictGeneration (ensureCodexState env p) = tp_conflictGeneration p"
  "tp_notices (ensureCodexState env p) = tp_notices p"
  "tp_readiness (ensureCodexState env p) = tp_readiness p"
  "activeTools env (ensureCodexState env p) = activeTools env p"
  "readTools env (ensureCodexState env p) = readTools env p"
  by (simp_all add: ensureCodexState_def Let_def split: ProfileState.split)

lemma ensure_codex: "\<exists>s. tp_state (ensureCodexState env p) = CodexState s"
  by (simp add: ensureCodexState_def Let_def split: ProfileState.split)

text \<open>Suppression on a profile that is in the Codex state.\<close>

definition suppressed :: "'h profile_env \<Rightarrow> profile_phase \<Rightarrow> CodexProfileState \<Rightarrow> 'h CodexToolProfile \<Rightarrow> 'h CodexToolProfile" where
  "suppressed env phase s p = (applyActiveNames env
     (reconcileCodexActiveToolNames (activeTools env p) (availableNames env p s) []) p)
     \<lparr>tp_state := CodexState (s\<lparr>cp_phase := phase, cp_activeManaged := [], cp_skillLoader := None\<rparr>)\<rparr>"

lemma suppress_eq: "tp_state p = CodexState s \<Longrightarrow> suppressManagedTools env phase p = (True, suppressed env phase s p)"
  by (simp add: suppressManagedTools_def suppressed_def)

lemma suppressed_frame [simp]:
  "tp_generation (suppressed env phase s p) = tp_generation p"
  "tp_conflictGeneration (suppressed env phase s p) = tp_conflictGeneration p"
  "tp_notices (suppressed env phase s p) = tp_notices p"
  "tp_readiness (suppressed env phase s p) = tp_readiness p"
  "tp_state (suppressed env phase s p) =
     CodexState (s\<lparr>cp_phase := phase, cp_activeManaged := [], cp_skillLoader := None\<rparr>)"
  by (simp_all add: suppressed_def)

lemma enterPending_eq:
  assumes "tp_state (ensureCodexState env p) = CodexState s"
  shows "enterPending env key p =
    (suppressed env ProfilePending s ((ensureCodexState env p)\<lparr>tp_generation := tp_generation p + 1,
       tp_conflictGeneration := -1\<rparr>))\<lparr>tp_readiness := ReadinessPending key\<rparr>"
  using assms by (simp add: enterPending_def Let_def suppress_eq)

lemma installUnavailable_eq:
  assumes "tp_state (ensureCodexState env p) = CodexState s"
  shows "installUnavailable env key conflict notifies p =
    (let p1 = (suppressed env ProfileUnavailable s (ensureCodexState env p))\<lparr>tp_readiness := ReadinessUnavailable key\<rparr>
     in case conflict of
          None \<Rightarrow> p1
        | Some tool \<Rightarrow>
            if notifies \<and> tp_conflictGeneration p \<noteq> tp_generation p
            then p1\<lparr>tp_conflictGeneration := tp_generation p,
                 tp_notices := tp_notices p @ [(tp_generation p, conflict_message tool)]\<rparr>
            else p1)"
  using assms by (simp add: installUnavailable_def Let_def suppress_eq split: option.split)

lemma ensure_idem: "tp_state p = CodexState s \<Longrightarrow> ensureCodexState env p = p"
  by (simp add: ensureCodexState_def)

section \<open>Steps\<close>

datatype profile_op =
    OpPending "string option"
  | OpHealthy string "string list" "string option" bool
  | OpUnavailable "string option" "string option" bool
  | OpRevalidate bool
  | OpRestore
  | OpDispose

fun profile_do :: "'h profile_env \<Rightarrow> profile_op \<Rightarrow> 'h CodexToolProfile \<Rightarrow> 'h CodexToolProfile" where
  "profile_do env (OpPending k) p = enterPending env k p"
| "profile_do env (OpHealthy k ms l n) p = snd (installHealthy env k ms l n p)"
| "profile_do env (OpUnavailable k c n) p = installUnavailable env k c n p"
| "profile_do env (OpRevalidate n) p = snd (revalidateHealthyOwnership env n p)"
| "profile_do env OpRestore p = restorePi env p"
| "profile_do env OpDispose p = profile_dispose env p"

text \<open>Between operations the host may change in any way.\<close>

inductive profile_reachable :: "'h profile_env \<Rightarrow> 'h CodexToolProfile \<Rightarrow> bool" for env where
  pr_create: "profile_reachable env (createCodexToolProfile h)"
| pr_op: "profile_reachable env p \<Longrightarrow> profile_reachable env (profile_do env a p)"
| pr_host: "profile_reachable env p \<Longrightarrow> profile_reachable env (p\<lparr>tp_host := h\<rparr>)"

text \<open>
  Every operation ends in one of four ways; a property that holds in these four holds after every
  operation.
\<close>

lemma profile_do_cases:
  obtains (same) "profile_do env a p = p"
  | (applied) names s where "tp_state p = CodexState s" "cp_phase s = ProfileHealthy"
      "profile_do env a p = applyActiveNames env names p"
      "names = reconcileCodexActiveToolNames (activeTools env p) (availableNames env p s) (cp_activeManaged s)"
  | (pending) k where "profile_do env a p = enterPending env k p"
  | (unavailable) q k c n where "q = p \<or> q = ensureCodexState env p" "profile_do env a p = installUnavailable env k c n q"
  | (healthy) s ms l k where "tp_state (ensureCodexState env p) = CodexState s"
      "profile_do env a p = (applyActiveNames env
         (reconcileCodexActiveToolNames (activeTools env p) (availableNames env (ensureCodexState env p) s) ms)
         (ensureCodexState env p))\<lparr>tp_state := CodexState (s\<lparr>cp_phase := ProfileHealthy,
                  cp_activeManaged := orderedManaged ms, cp_skillLoader := l\<rparr>),
                tp_readiness := ReadinessHealthy k\<rparr>"
  | (restored) "profile_do env a p = restorePi env p"
proof (cases a)
  case (OpHealthy k ms l n)
  obtain s where s: "tp_state (ensureCodexState env p) = CodexState s" using ensure_codex by blast
  show ?thesis
  proof (cases "own_ok (profile_ownership env ms (ensureCodexState env p))")
    case True
    then show ?thesis using healthy [OF s, where ms = ms and l = l and k = k] OpHealthy s by (simp add: installHealthy_def Let_def)
  next
    case False
    then have "profile_do env a p = installUnavailable env (Some k)
        (own_conflictingTool (profile_ownership env ms (ensureCodexState env p))) n (ensureCodexState env p)"
      using OpHealthy s by (simp add: installHealthy_def Let_def)
    then show ?thesis by (rule unavailable [OF disjI2 [OF refl]])
  qed
next
  case (OpRevalidate n)
  show ?thesis
  proof (cases "tp_state p")
    case PiState
    then show ?thesis using same OpRevalidate by (simp add: revalidateHealthyOwnership_def)
  next
    case (CodexState s)
    let ?own = "profile_ownership env (cp_activeManaged s) p"
    consider "cp_phase s \<noteq> ProfileHealthy" | "cp_phase s = ProfileHealthy" "\<not> own_ok ?own"
      | "cp_phase s = ProfileHealthy" "own_ok ?own"
      by blast
    then show ?thesis
    proof cases
      case 1
      then show ?thesis using same OpRevalidate CodexState by (simp add: revalidateHealthyOwnership_def)
    next
      case 2
      then have "profile_do env a p = installUnavailable env
          (case tp_readiness p of ReadinessHealthy k \<Rightarrow> Some k | _ \<Rightarrow> None) (own_conflictingTool ?own) n p"
        using OpRevalidate CodexState by (simp add: revalidateHealthyOwnership_def Let_def)
      then show ?thesis by (rule unavailable [OF disjI1 [OF refl]])
    next
      case 3
      then have "profile_do env a p = applyActiveNames env
          (reconcileCodexActiveToolNames (activeTools env p) (availableNames env p s) (cp_activeManaged s)) p"
        using OpRevalidate CodexState by (simp add: revalidateHealthyOwnership_def Let_def)
      then show ?thesis using applied [OF CodexState 3(1)] by blast
    qed
  qed
next
  case (OpUnavailable k c n)
  then show ?thesis by (intro unavailable [OF disjI1 [OF refl]]) simp
qed (use pending restored in \<open>auto simp: profile_dispose_def\<close>)

section \<open>Consistency\<close>

definition phase_agrees :: "CodexProfileState \<Rightarrow> CodexToolProfileReadiness \<Rightarrow> bool" where
  "phase_agrees s r = (case cp_phase s of
     ProfilePending \<Rightarrow> (\<exists>k. r = ReadinessPending k)
   | ProfileHealthy \<Rightarrow> (\<exists>k. r = ReadinessHealthy k)
   | ProfileUnavailable \<Rightarrow> (\<exists>k. r = ReadinessUnavailable k))"

definition wf_codex_state :: "CodexProfileState \<Rightarrow> bool" where
  "wf_codex_state s \<longleftrightarrow>
     (cp_phase s \<noteq> ProfileHealthy \<longrightarrow> cp_activeManaged s = [] \<and> cp_skillLoader s = None) \<and>
     distinct (cp_baselineOrder s) \<and> distinct (cp_activeManaged s) \<and>
     list_all isManagedToolName (cp_activeManaged s) \<and>
     list_all (\<lambda>n. isPiCoreAgentToolName n \<and> n \<in> set (cp_baselineOrder s)) (cp_suppressedPiCore s)"

definition profile_ok :: "ProfileState \<Rightarrow> CodexToolProfileReadiness \<Rightarrow> bool" where
  "profile_ok st r = (case st of
     PiState \<Rightarrow> r = ReadinessInactive | CodexState s \<Rightarrow> phase_agrees s r \<and> wf_codex_state s)"

definition profile_inv :: "'h CodexToolProfile \<Rightarrow> bool" where
  "profile_inv p \<longleftrightarrow> profile_ok (tp_state p) (tp_readiness p)"

definition notice_inv :: "'h CodexToolProfile \<Rightarrow> bool" where
  "notice_inv p \<longleftrightarrow> 0 \<le> tp_generation p \<and> distinct (map fst (tp_notices p)) \<and>
     (\<forall>e \<in> set (tp_notices p). fst e \<le> tp_generation p) \<and>
     (tp_conflictGeneration p \<noteq> tp_generation p \<longrightarrow> tp_generation p \<notin> fst ` set (tp_notices p))"

lemma notice_frame [simp]:
  "notice_inv (p\<lparr>tp_state := st\<rparr>) = notice_inv p" "notice_inv (p\<lparr>tp_readiness := r\<rparr>) = notice_inv p"
  "notice_inv (p\<lparr>tp_host := h\<rparr>) = notice_inv p"
  "notice_inv (applyActiveNames env next p) = notice_inv p" "notice_inv (ensureCodexState env p) = notice_inv p"
  "notice_inv (suppressed env phase s p) = notice_inv p"
  by (simp_all add: notice_inv_def)

lemma unavailable_notice: "notice_inv p \<Longrightarrow> notice_inv (installUnavailable env k c n p)"
proof -
  assume i: "notice_inv p"
  obtain s where s: "tp_state (ensureCodexState env p) = CodexState s" using ensure_codex by blast
  show ?thesis
    using i unfolding installUnavailable_eq [OF s] Let_def
    by (auto simp: notice_inv_def split: option.split)
qed

lemma pending_notice: "notice_inv p \<Longrightarrow> notice_inv (enterPending env k p)"
proof -
  assume i: "notice_inv p"
  obtain s where s: "tp_state (ensureCodexState env p) = CodexState s" using ensure_codex by blast
  show ?thesis using i unfolding enterPending_eq [OF s] by (force simp: notice_inv_def)
qed

lemma do_notice: "notice_inv p \<Longrightarrow> notice_inv (profile_do env a p)"
  by (cases rule: profile_do_cases [of env a p]) (auto simp: unavailable_notice pending_notice restorePi_def Let_def)

lemma reachable_notice: "profile_reachable env p \<Longrightarrow> notice_inv p"
  by (induction rule: profile_reachable.induct) (simp_all add: do_notice, simp add: createCodexToolProfile_def notice_inv_def)

lemmas profile_state_defs = profile_inv_def profile_ok_def phase_agrees_def wf_codex_state_def

lemma ensure_wf:
  "profile_inv p \<Longrightarrow> tp_state (ensureCodexState env p) = CodexState s \<Longrightarrow>
     distinct (cp_baselineOrder s) \<and>
     list_all (\<lambda>n. isPiCoreAgentToolName n \<and> n \<in> set (cp_baselineOrder s)) (cp_suppressedPiCore s)"
  by (auto simp: ensureCodexState_def profile_inv_def profile_ok_def wf_codex_state_def orderedUnique_eq Let_def
      list_all_iff split: ProfileState.splits)

lemma unavailable_inv:
  assumes "profile_inv p"
  shows "profile_inv (installUnavailable env k c n p)"
proof -
  obtain s where s: "tp_state (ensureCodexState env p) = CodexState s" using ensure_codex by blast
  from ensure_wf [OF assms s] show ?thesis
    unfolding installUnavailable_eq [OF s] Let_def by (simp add: profile_state_defs split: option.split)
qed

lemma unavailable_ensured:
  "installUnavailable env k c n (ensureCodexState env p) = installUnavailable env k c n p"
proof -
  obtain s where s: "tp_state (ensureCodexState env p) = CodexState s" using ensure_codex by blast
  then show ?thesis by (simp add: installUnavailable_def ensure_idem [OF s])
qed

lemma pending_inv:
  assumes "profile_inv p"
  shows "profile_inv (enterPending env k p)"
proof -
  obtain s where s: "tp_state (ensureCodexState env p) = CodexState s" using ensure_codex by blast
  from ensure_wf [OF assms s] show ?thesis unfolding enterPending_eq [OF s] by (simp add: profile_state_defs)
qed

lemma applied_inv: "profile_inv (applyActiveNames env names p) = profile_inv p"
  by (simp add: profile_inv_def)

lemma do_inv:
  assumes "profile_inv p"
  shows "profile_inv (profile_do env a p)"
proof (cases rule: profile_do_cases [of env a p])
  case (unavailable q k c n)
  with assms show ?thesis by (auto simp: unavailable_ensured unavailable_inv)
next
  case (healthy s ms l k)
  from ensure_wf [OF assms healthy(1)] show ?thesis
    by (simp add: healthy(2) profile_state_defs orderedManaged_def orderedUnique_eq list_all_iff)
qed (simp_all add: assms applied_inv pending_inv restorePi_def Let_def, simp add: profile_inv_def profile_ok_def)

lemma reachable_inv: "profile_reachable env p \<Longrightarrow> profile_inv p"
proof (induction rule: profile_reachable.induct)
  case (pr_host p h)
  then show ?case by (simp add: profile_inv_def)
qed (simp_all add: do_inv, simp add: createCodexToolProfile_def profile_inv_def profile_ok_def)

section \<open>Reversibility\<close>

text \<open>
  What the profile owes the host: the names \<open>owed\<close> are the registered tools that were active and are
  not managed.
\<close>

definition keepable :: "string set \<Rightarrow> string \<Rightarrow> bool" where
  "keepable available n \<longleftrightarrow> n \<in> available \<and> \<not> isManagedToolName n"

definition owes :: "'h profile_env \<Rightarrow> ToolInfo list \<Rightarrow> string list \<Rightarrow> 'h CodexToolProfile \<Rightarrow> bool" where
  "owes env infos owed p \<longleftrightarrow> readTools env p = Some infos \<and>
    (case tp_state p of
       PiState \<Rightarrow> filter (keepable (toolNames infos)) (unique_values (activeTools env p)) = owed
     | CodexState s \<Rightarrow>
         distinct (cp_baselineOrder s) \<and> filter (keepable (toolNames infos)) (cp_baselineOrder s) = owed \<and>
         cp_suppressedPiCore s =
           filter (\<lambda>n. isPiCoreAgentToolName n \<and> n \<in> toolNames infos) (cp_baselineOrder s) \<and>
         filter (isAdditive (toolNames infos)) (unique_values (activeTools env p)) =
           filter (isAdditive (toolNames infos)) owed)"

lemma additive_keepable [simp]:
  "filter (\<lambda>n. keepable a n \<and> isAdditive a n) xs = filter (isAdditive a) xs"
  by (rule filter_cong) (auto simp: isAdditive_def keepable_def)

lemma additive_reconcile:
  "filter (isAdditive a) (unique_values (reconcileCodexActiveToolNames current a managed)) =
     filter (isAdditive a) (unique_values current)"
proof -
  have "filter (isAdditive a) (filter (\<lambda>n. n \<in> a \<and> isManagedToolName n) xs) = []" for xs
    by (auto simp: filter_empty_conv isAdditive_def)
  moreover have "distinct (reconcileCodexActiveToolNames current a managed)"
    by (auto simp: reconcile_eq isAdditive_def)
  ultimately show ?thesis by (simp add: unique_values_distinct reconcile_eq)
qed

lemma reconcile_available: "set (reconcileCodexActiveToolNames current a managed) \<subseteq> a"
  by (auto simp: reconcile_eq isAdditive_def)

lemma owes_ensure: "owes env infos owed p \<Longrightarrow> owes env infos owed (ensureCodexState env p)"
  by (auto simp: owes_def ensureCodexState_def orderedUnique_eq Let_def
      split: ProfileState.splits)

lemma restore_owed:
  assumes "distinct base" and "filter (keepable a) base = owed"
    and "captured = filter (\<lambda>n. isPiCoreAgentToolName n \<and> n \<in> a) base"
    and "filter (isAdditive a) (unique_values current) = filter (isAdditive a) owed"
  shows "restorePiActiveToolNames current a (Some base) captured = owed"
proof -
  let ?A = "filter (isAdditive a) owed"
  have A: "set ?A = {n \<in> set base. isAdditive a n}"
    using assms(2) by (auto simp: keepable_def isAdditive_def)
  have kept: "filter (\<lambda>n. n \<in> a \<and> \<not> isManagedToolName n \<and>
      (if isPiCoreAgentToolName n then n \<in> set captured else n \<in> set ?A)) base = owed"
    unfolding A assms(3) assms(2) [symmetric]
    by (rule filter_cong) (auto simp: keepable_def isAdditive_def)
  have "filter (\<lambda>n. n \<notin> set owed) ?A = []" by (auto simp: filter_empty_conv)
  then show ?thesis
    unfolding restore_Some_eq assms(4) unique_values_distinct [OF assms(1)] Let_def kept by simp
qed

lemma restore_None_keepable:
  "restorePiActiveToolNames current a None captured = filter (keepable a) (unique_values current)"
  unfolding restore_None_eq keepable_def ..

context pi_host
begin

lemma owes_applied:
  assumes pi: "pe_pi env = pi" and ow: "owes env infos owed p" and st: "tp_state p = CodexState s"
    and q: "q = applyActiveNames env (reconcileCodexActiveToolNames (activeTools env p) (toolNames infos) ms) p"
    and s': "cp_baselineOrder s' = cp_baselineOrder s" "cp_suppressedPiCore s' = cp_suppressedPiCore s"
  shows "owes env infos owed (q\<lparr>tp_state := CodexState s'\<rparr>)"
proof -
  let ?names = "reconcileCodexActiveToolNames (activeTools env p) (toolNames infos) ms"
  have r: "readTools env p = Some infos" using ow by (simp add: owes_def)
  have "set ?names \<subseteq> set (activeTools env p) \<union> listed_names (readTools env p)"
    using reconcile_available [of "activeTools env p" "toolNames infos" ms] r by (auto simp: listed_names_def)
  from apply_active [OF pi this] have "unique_values (activeTools env q) = unique_values ?names" by (simp add: q)
  then show ?thesis
    using ow st s' by (simp add: owes_def q apply_registry [OF pi] additive_reconcile)
qed

lemma owes_available: "owes env infos owed p \<Longrightarrow> availableNames env p s = toolNames infos"
  by (simp add: owes_def availableNames_def)

lemma owes_suppressed:
  assumes "pe_pi env = pi" "owes env infos owed p" "tp_state p = CodexState s"
  shows "owes env infos owed (suppressed env phase s p)"
  using owes_applied [OF assms refl, where ms = "[]"]
  by (simp add: suppressed_def owes_available [OF assms(2)])

lemma owes_restore:
  assumes pi: "pe_pi env = pi" and ow: "owes env infos owed p"
  shows "owes env infos owed (restorePi env p) \<and> unique_values (activeTools env (restorePi env p)) = owed"
proof -
  have r: "readTools env p = Some infos" using ow by (simp add: owes_def)
  obtain base where base: "distinct base" "owed = filter (keepable (toolNames infos)) base"
    using ow distinct_unique_values [of "activeTools env p"]
    by (cases "tp_state p") (auto simp: owes_def simp del: distinct_unique_values)
  then have dist: "distinct owed" and keep: "filter (keepable (toolNames infos)) owed = owed" by simp_all
  have sub: "set owed \<subseteq> toolNames infos" using base by (auto simp: keepable_def)
  have e: "restorePi env p = (applyActiveNames env owed p)\<lparr>tp_state := PiState, tp_readiness := ReadinessInactive\<rparr>"
  proof (cases "tp_state p")
    case PiState
    then show ?thesis using ow by (simp add: restorePi_def r owes_def restore_None_keepable)
  next
    case (CodexState s)
    with ow have "restorePiActiveToolNames (activeTools env p) (toolNames infos) (Some (cp_baselineOrder s))
        (cp_suppressedPiCore s) = owed"
      by (intro restore_owed) (auto simp: owes_def)
    with CodexState show ?thesis by (simp add: restorePi_def r)
  qed
  have "set owed \<subseteq> set (activeTools env p) \<union> listed_names (readTools env p)"
    using sub r by (auto simp: listed_names_def)
  from apply_active [OF pi this] show ?thesis
    by (simp add: e owes_def apply_registry [OF pi] r keep unique_values_distinct [OF dist])
qed

end

lemma owes_frame [simp]:
  "owes env infos owed (p\<lparr>tp_readiness := r\<rparr>) = owes env infos owed p"
  "owes env infos owed (p\<lparr>tp_generation := g\<rparr>) = owes env infos owed p"
  "owes env infos owed (p\<lparr>tp_conflictGeneration := g\<rparr>) = owes env infos owed p"
  "owes env infos owed (p\<lparr>tp_notices := ns\<rparr>) = owes env infos owed p"
  by (simp_all add: owes_def split: ProfileState.split)

context pi_host
begin

lemma owes_unavailable:
  assumes "pe_pi env = pi" "owes env infos owed p"
  shows "owes env infos owed (installUnavailable env k c n p)"
proof -
  obtain s where s: "tp_state (ensureCodexState env p) = CodexState s" using ensure_codex by blast
  from owes_suppressed [OF assms(1) owes_ensure [OF assms(2)] s] show ?thesis
    unfolding installUnavailable_eq [OF s] Let_def by (simp split: option.split)
qed

lemma owes_do:
  assumes pi: "pe_pi env = pi" and ow: "owes env infos owed p"
  shows "owes env infos owed (profile_do env a p)"
proof (cases rule: profile_do_cases [of env a p])
  case (applied names s)
  from owes_applied [OF pi ow applied(1) refl refl refl, of "cp_activeManaged s"] show ?thesis
    using applied by (simp add: owes_available [OF ow] owes_def)
next
  case (pending k)
  obtain s where s: "tp_state (ensureCodexState env p) = CodexState s" using ensure_codex by blast
  let ?p = "(ensureCodexState env p)\<lparr>tp_generation := tp_generation p + 1, tp_conflictGeneration := -1\<rparr>"
  have "owes env infos owed ?p" using owes_ensure [OF ow] by simp
  from owes_suppressed [OF pi this, of s ProfilePending] s show ?thesis
    unfolding pending enterPending_eq [OF s] by simp
next
  case (unavailable q k c n)
  with owes_unavailable [OF pi ow] show ?thesis by (auto simp: unavailable_ensured)
next
  case (healthy s ms l k)
  note ow' = owes_ensure [OF ow]
  from owes_applied [OF pi ow' healthy(1) refl, of "s\<lparr>cp_phase := ProfileHealthy, cp_activeManaged := orderedManaged ms,
      cp_skillLoader := l\<rparr>" ms]
  show ?thesis unfolding healthy(2) by (simp add: owes_available [OF ow'])
qed (use ow owes_restore [OF pi ow] in simp_all)

lemma owes_run: "pe_pi env = pi \<Longrightarrow> owes env infos owed p \<Longrightarrow> owes env infos owed (fold (profile_do env) ops p)"
  by (induction ops arbitrary: p) (simp_all add: owes_do)

end

section \<open>Ownership\<close>

text \<open>The managed tool \<open>n\<close> is registered, by the extension itself where its entry path is known.\<close>

definition owned_tool :: "'h profile_env \<Rightarrow> ToolInfo list \<Rightarrow> string \<Rightarrow> bool" where
  "owned_tool env infos n \<longleftrightarrow> isManagedToolName n \<and> (\<exists>t. tools_by_name infos n = Some t \<and>
     (case pe_expectedEntryPath env of
        None \<Rightarrow> True
      | Some e \<Rightarrow> \<exists>path. tool_path t = Some path \<and> pi_normalizedEntryPath (pe_pi env) path =
          pi_normalizedEntryPath (pe_pi env) (pi_normalizedEntryPath (pe_pi env) e)))"

lemma validate_names_ok:
  "own_ok (validate_names f byName e ns) \<longleftrightarrow> (\<forall>n \<in> set ns. isManagedToolName n \<and> (\<exists>t. byName n = Some t \<and>
     (case e of None \<Rightarrow> True | Some x \<Rightarrow> \<exists>path. tool_path t = Some path \<and> f path = f x)))"
  by (induction ns) (auto split: option.split)

lemma ownership_ok:
  "own_ok (profile_ownership env ms p) \<longleftrightarrow>
     (\<exists>infos. readTools env p = Some infos \<and> (\<forall>n \<in> set ms. owned_tool env infos n))"
  by (auto simp: profile_ownership_def validateManagedToolOwnership_def validate_names_ok orderedUnique_eq
      owned_tool_def split: option.splits)

lemma tools_by_name_listed: "tools_by_name infos n = Some t \<Longrightarrow> n \<in> toolNames infos"
  unfolding tools_by_name_def toolNames_def by (drule map_of_SomeD) auto

lemma reconcile_active: "n \<in> set (reconcileCodexActiveToolNames current a ms) \<longleftrightarrow>
    n \<in> a \<and> \<not> isPiCoreAgentToolName n \<and> (if isManagedToolName n then n \<in> set ms else n \<in> set current)"
  by (auto simp: reconcile_eq isAdditive_def dest: core_not_managed)

context pi_host
begin

lemma active_applied:
  "pe_pi env = pi \<Longrightarrow> set names \<subseteq> set (activeTools env p) \<union> listed_names (readTools env p) \<Longrightarrow>
     set (activeTools env (applyActiveNames env names p)) = set names"
  using apply_active [of env names p] by (metis set_unique_values)

lemma healthy_active:
  assumes "pe_pi env = pi" and "installHealthy env key ms l n p = (True, p')"
  shows "\<exists>infos. readTools env p = Some infos \<and> (\<forall>m \<in> set ms. owned_tool env infos m) \<and>
    {m \<in> set (activeTools env p'). isManagedToolName m} = set ms \<and>
    {m \<in> set (activeTools env p'). isPiCoreAgentToolName m} = {}"
proof -
  let ?p = "ensureCodexState env p"
  obtain s where s: "tp_state ?p = CodexState s" using ensure_codex by blast
  have ok: "own_ok (profile_ownership env ms ?p)"
    using assms(2) s by (simp add: installHealthy_def Let_def split: if_splits)
  then obtain infos where r: "readTools env p = Some infos" and own: "\<forall>m \<in> set ms. owned_tool env infos m"
    by (auto simp: ownership_ok)
  let ?names = "reconcileCodexActiveToolNames (activeTools env p) (toolNames infos) ms"
  have av: "availableNames env ?p s = toolNames infos" by (simp add: availableNames_def r)
  have "activeTools env p' = activeTools env (applyActiveNames env ?names ?p)"
    using assms(2) s ok av by (auto simp: installHealthy_def Let_def)
  also have "set \<dots> = set ?names"
    using reconcile_available [of "activeTools env p" "toolNames infos" ms] r
    by (intro active_applied [OF assms(1)]) (auto simp: listed_names_def)
  finally have act: "set (activeTools env p') = set ?names" .
  have listed: "set ms \<subseteq> {m \<in> toolNames infos. isManagedToolName m}"
    using own by (auto simp: owned_tool_def dest: tools_by_name_listed)
  show ?thesis
  proof (intro exI conjI)
    show "{m \<in> set (activeTools env p'). isManagedToolName m} = set ms"
      using listed by (auto simp: act reconcile_active dest: core_not_managed)
  qed (use r own in \<open>auto simp: act reconcile_active\<close>)
qed

lemma unavailable_active:
  assumes "pe_pi env = pi"
  shows "list_all (\<lambda>m. \<not> isManagedToolName m \<and> \<not> isPiCoreAgentToolName m)
    (activeTools env (installUnavailable env k c n p))"
proof -
  let ?p = "ensureCodexState env p"
  obtain s where s: "tp_state ?p = CodexState s" using ensure_codex by blast
  let ?names = "reconcileCodexActiveToolNames (activeTools env p) (availableNames env ?p s) []"
  have "activeTools env (installUnavailable env k c n p) = activeTools env (applyActiveNames env ?names ?p)"
    unfolding installUnavailable_eq [OF s] Let_def by (simp add: suppressed_def split: option.split)
  also have "set \<dots> = set ?names"
    by (intro active_applied [OF assms]) (auto simp: reconcile_active split: if_splits)
  finally show ?thesis by (auto simp: list_all_iff reconcile_active split: if_splits)
qed

end

section \<open>Properties\<close>

text \<open>
  C16: The profile is reversible. Whatever sequence of profile operations runs on a host that satisfies its
  contract and whose registry can be read, restoring afterwards makes exactly the tools active that were
  active before, in the same order, except managed tools and tools that are not registered.
\<close>

theorem profile_reversible:
  assumes "pi_host (pe_pi env)" and "getAllTools (pe_pi env) h = Some infos"
  shows "orderedUnique (activeTools env (restorePi env (fold (profile_do env) ops (createCodexToolProfile h)))) =
    filter (\<lambda>n. n \<in> toolNames infos \<and> \<not> isManagedToolName n) (orderedUnique (getActiveTools (pe_pi env) h))"
proof -
  let ?owed = "filter (keepable (toolNames infos)) (unique_values (getActiveTools (pe_pi env) h))"
  have "owes env infos ?owed (createCodexToolProfile h)"
    using assms(2) by (simp add: owes_def createCodexToolProfile_def readTools_def activeTools_def)
  then have "owes env infos ?owed (fold (profile_do env) ops (createCodexToolProfile h))"
    by (rule pi_host.owes_run [OF assms(1) refl])
  then have "unique_values (activeTools env (restorePi env (fold (profile_do env) ops (createCodexToolProfile h)))) = ?owed"
    using pi_host.owes_restore [OF assms(1) refl] by blast
  then show ?thesis by (simp add: orderedUnique_eq keepable_def [abs_def])
qed

definition sample_tool :: "string \<Rightarrow> ToolInfo" where
  "sample_tool n = \<lparr>tool_name = n, tool_path = Some ''ext''\<rparr>"

definition sample_host :: list_host where
  "sample_host = \<lparr>lh_active = [''bash'', ''todo'', ''read''],
     lh_registry = Some (map sample_tool [''read'', ''bash'', ''todo'', ''exec_command''])\<rparr>"

definition sample_profile_env :: "list_host profile_env" where
  "sample_profile_env = \<lparr>pe_pi = listHost, pe_expectedEntryPath = Some ''ext''\<rparr>"

lemma sample_contract: "pi_host (pe_pi sample_profile_env)"
  by (simp add: sample_profile_env_def list_host.pi_host_axioms)

theorem profile_reversible_witness:
  "orderedUnique (activeTools sample_profile_env (restorePi sample_profile_env (fold (profile_do sample_profile_env)
      [OpPending None, OpHealthy ''k'' [''exec_command''] (Some ''exec_command'') True]
      (createCodexToolProfile sample_host)))) = [''bash'', ''todo'', ''read'']"
proof -
  have "getAllTools (pe_pi sample_profile_env) sample_host =
      Some (map sample_tool [''read'', ''bash'', ''todo'', ''exec_command''])"
    by (simp add: sample_profile_env_def listHost_def sample_host_def)
  from profile_reversible [OF sample_contract this,
      of "[OpPending None, OpHealthy ''k'' [''exec_command''] (Some ''exec_command'') True]"]
  show ?thesis
    by (simp add: sample_profile_env_def listHost_def sample_host_def sample_tool_def toolNames_def
        orderedUnique_def isManagedToolName_def MANAGED_TOOL_NAMES_def)
qed

text \<open>
  Ownership before activation. A profile that is installed as healthy has active, of the managed
  tools, exactly the requested ones, each registered by the extension itself, and none of the host's
  coding tools; one that is refused has neither managed tools nor coding tools active.
\<close>

theorem healthy_iff_owned:
  assumes "pi_host (pe_pi env)"
  shows "case installHealthy env key ms loader notifies p of
     (True, p') \<Rightarrow> isHealthy key p' \<and>
       (\<exists>infos. readTools env p = Some infos \<and> (\<forall>m \<in> set ms. owned_tool env infos m)) \<and>
       {m \<in> set (activeTools env p'). isManagedToolName m} = set ms \<and>
       {m \<in> set (activeTools env p'). isPiCoreAgentToolName m} = {}
   | (False, p') \<Rightarrow> \<not> isHealthy key p' \<and>
       \<not> (\<exists>infos. readTools env p = Some infos \<and> (\<forall>m \<in> set ms. owned_tool env infos m)) \<and>
       {m \<in> set (activeTools env p'). isManagedToolName m \<or> isPiCoreAgentToolName m} = {}"
proof -
  obtain s where s: "tp_state (ensureCodexState env p) = CodexState s" using ensure_codex by blast
  obtain ok p' where r: "installHealthy env key ms loader notifies p = (ok, p')" by force
  show ?thesis
  proof (cases ok)
    case True
    then have "isHealthy key p'"
      using r s by (auto simp: installHealthy_def isHealthy_def Let_def split: if_splits)
    with pi_host.healthy_active [OF assms refl r [unfolded True eqTrueI [OF True]]] r True show ?thesis by auto
  next
    case False
    with r s have bad: "\<not> own_ok (profile_ownership env ms (ensureCodexState env p))"
      and p': "p' = installUnavailable env (Some key)
        (own_conflictingTool (profile_ownership env ms (ensureCodexState env p))) notifies (ensureCodexState env p)"
      by (auto simp: installHealthy_def Let_def split: if_splits)
    have "\<not> isHealthy key p'"
      unfolding p' unavailable_ensured installUnavailable_eq [OF s] Let_def
      by (simp add: isHealthy_def split: option.split)
    moreover have "{m \<in> set (activeTools env p'). isManagedToolName m \<or> isPiCoreAgentToolName m} = {}"
      using pi_host.unavailable_active [OF assms refl] by (auto simp: p' list_all_iff)
    ultimately show ?thesis using bad False r by (simp add: ownership_ok)
  qed
qed

theorem healthy_iff_owned_witness:
  "fst (installHealthy sample_profile_env ''k'' [''exec_command''] None True (createCodexToolProfile sample_host)) \<and>
   {m \<in> set (activeTools sample_profile_env (snd (installHealthy sample_profile_env ''k'' [''exec_command''] None True
       (createCodexToolProfile sample_host)))). isManagedToolName m} = {''exec_command''}"
proof -
  let ?r = "installHealthy sample_profile_env ''k'' [''exec_command''] None True (createCodexToolProfile sample_host)"
  have "\<exists>infos. readTools sample_profile_env (createCodexToolProfile sample_host) = Some infos \<and>
      (\<forall>m \<in> set [''exec_command'']. owned_tool sample_profile_env infos m)"
    by (simp add: sample_profile_env_def listHost_def sample_host_def sample_tool_def readTools_def owned_tool_def
        createCodexToolProfile_def tools_by_name_def isManagedToolName_def MANAGED_TOOL_NAMES_def)
  with healthy_iff_owned [OF sample_contract, where key = "''k''" and ms = "[''exec_command'']" and loader = None
      and notifies = True and p = "createCodexToolProfile sample_host"]
  have "fst ?r" by (cases ?r) (auto split: bool.splits)
  with healthy_iff_owned [OF sample_contract, where key = "''k''" and ms = "[''exec_command'']" and loader = None
      and notifies = True and p = "createCodexToolProfile sample_host"]
  show ?thesis by (cases ?r) auto
qed

text \<open>
  One conflict notice per generation, and a consistent profile. In every reachable state, however the host
  changes between operations, the phase agrees with the reported readiness, managed tools and the skill
  loader are recorded only in the healthy phase, and no two conflict messages belong to one generation.
\<close>

theorem profile_consistent:
  assumes "profile_reachable env p"
  shows "profile_ok (tp_state p) (tp_readiness p) \<and> distinct (map fst (tp_notices p)) \<and>
    (skillLoader p \<noteq> None \<longrightarrow> (\<exists>k. isHealthy k p))"
  using reachable_inv [OF assms] reachable_notice [OF assms]
  by (auto simp: profile_state_defs notice_inv_def skillLoader_def isHealthy_def
      split: ProfileState.splits profile_phase.splits)

theorem profile_consistent_witness:
  "profile_ok (tp_state (profile_do sample_profile_env (OpUnavailable None (Some ''exec_command'') True)
      (createCodexToolProfile sample_host)))
    (tp_readiness (profile_do sample_profile_env (OpUnavailable None (Some ''exec_command'') True)
      (createCodexToolProfile sample_host)))"
  by (rule conjunct1 [OF profile_consistent [OF pr_op [OF pr_create]]])

end
