(* ===== verification/Tool_Surface.thy ===== *)
theory Tool_Surface
  imports Tool_Profile Structured_Json
begin

text \<open>
  The tool list a model sees, \<open>src/src/integration/pi/codex-tool-surface.ts\<close>: the official tools, followed
  by the tools of other extensions that are active. The parameters of those are schema objects of the host,
  with symbol keys and possibly cycles, which are copied to plain JSON; they live on the heap of the strict
  JSON theory, and the copy is total because the set of ancestors only grows. The official tools are JSON
  trees.

  The lemmas show that the copy is the JSON tree of the object without its symbol keys and hidden
  properties, which exists exactly when there is no cycle and no accessor, and that the list holds the
  official tools unchanged and every other tool at most once.
\<close>

section \<open>Copying a schema\<close>

text \<open>\<open>Object.getOwnPropertyDescriptor\<close> where it describes a value.\<close>

definition own_value :: "hobj \<Rightarrow> string \<Rightarrow> hval option" where
  "own_value ob k = (case map_of (own ob) (PName k) of Some (DataProp v _) \<Rightarrow> Some v | _ \<Rightarrow> None)"

text \<open>\<open>Object.keys\<close>: the enumerable string keys.\<close>

definition enumerable_names :: "hobj \<Rightarrow> string list" where
  "enumerable_names ob = filter (\<lambda>k. case map_of (own ob) (PName k) of
     Some (DataProp _ e) \<Rightarrow> e | Some (AccessorProp e) \<Rightarrow> e | None \<Rightarrow> False) (own_names ob)"

text \<open>Assigning to \<open>__proto__\<close> adds no property.\<close>

definition assign_all :: "(string \<times> js) list \<Rightarrow> js_object" where
  "assign_all kvs = filter (\<lambda>kv. fst kv \<noteq> ''__proto__'') kvs"

function (sequential) projectJsonValue :: "heap \<Rightarrow> hval \<Rightarrow> addr set \<Rightarrow> js option" where
  "projectJsonValue h HNull ancestors = Some JNull"
| "projectJsonValue h (HStr s) ancestors = Some (JStr s)"
| "projectJsonValue h (HBool b) ancestors = Some (JBool b)"
| "projectJsonValue h (HNum n) ancestors = (if isFinite n then Some (JNum n) else None)"
| "projectJsonValue h (HRef a) ancestors =
    (if a \<in> ancestors \<or> length h \<le> a then None
     else if is_array (h ! a)
     then (if proto (h ! a) \<noteq> ArrayPrototype then None
       else (case those (map (\<lambda>i. own_value (h ! a) (digits_of i)) [0..<arr_length (h ! a)]) of
           None \<Rightarrow> None
         | Some vs \<Rightarrow> map_option JArr (those (map (\<lambda>w. projectJsonValue h w (insert a ancestors)) vs))))
     else (if proto (h ! a) \<noteq> ObjectPrototype \<and> proto (h ! a) \<noteq> NullPrototype then None
       else (case those (map (own_value (h ! a)) (enumerable_names (h ! a))) of
           None \<Rightarrow> None
         | Some vs \<Rightarrow> map_option (\<lambda>ts. JObj (assign_all (zip (enumerable_names (h ! a)) ts)))
             (those (map (\<lambda>w. projectJsonValue h w (insert a ancestors)) vs)))))"
| "projectJsonValue h v ancestors = None"
  by pat_completeness (simp_all only: prod.inject hval.inject hval.distinct simp_thms)
termination
  by (relation "measure (\<lambda>(h, v, anc). card ({..<length h} - anc))")
     (auto simp del: card_Diff_insert intro: ancestors_decrease)

declare projectJsonValue.simps(5) [simp del]

definition projectToolParameters :: "heap \<Rightarrow> hval \<Rightarrow> js_object option" where
  "projectToolParameters h v = (case projectJsonValue h v {} of None \<Rightarrow> None | Some t \<Rightarrow> as_record t)"

section \<open>The list\<close>

record PiResponsesToolDefinition =
  td_name :: string
  td_description :: "string option"
  td_parameters :: hval

definition nested_tool_names :: "string \<Rightarrow> js \<Rightarrow> string list" where
  "nested_tool_names nm v = (case as_record v of
     None \<Rightarrow> [] | Some nested \<Rightarrow> (case get_prop nested ''name'' of JStr n \<Rightarrow> [nm @ ''.'' @ n] | _ \<Rightarrow> []))"

definition official_names_of :: "js \<Rightarrow> string list" where
  "official_names_of v = (case as_record v of
     None \<Rightarrow> []
   | Some tool \<Rightarrow>
      (case get_prop tool ''name'' of
         JStr nm \<Rightarrow> nm # (case (get_prop tool ''type'' = JStr ''namespace'', get_prop tool ''tools'') of
             (True, JArr ts) \<Rightarrow> concat (map (nested_tool_names nm) ts) | _ \<Rightarrow> [])
       | _ \<Rightarrow> []))"

definition officialToolNames :: "js list \<Rightarrow> string set" where
  "officialToolNames ts = set (concat (map official_names_of ts))"

definition isAdditiveToolName :: "string \<Rightarrow> string set \<Rightarrow> bool" where
  "isAdditiveToolName name officialNames \<longleftrightarrow>
     \<not> isPiCoreAgentToolName name \<and> name \<notin> set MANAGED_TOOL_NAMES \<and> name \<notin> officialNames"

definition toResponsesFunctionTool :: "heap \<Rightarrow> PiResponsesToolDefinition \<Rightarrow> js option" where
  "toResponsesFunctionTool h tool =
    (case (projectToolParameters h (td_parameters tool), td_description tool) of
       (Some parameters, Some description) \<Rightarrow>
         if length (td_name tool) = 0 then None
         else Some (JObj [(''type'', JStr ''function''), (''name'', JStr (td_name tool)),
           (''description'', JStr description), (''parameters'', JObj parameters), (''strict'', JBool False)])
     | _ \<Rightarrow> None)"

fun select_loop :: "heap \<Rightarrow> string set \<Rightarrow> string set \<Rightarrow> PiResponsesToolDefinition list \<Rightarrow> string set \<Rightarrow> js list" where
  "select_loop h officialNames active [] seen = []"
| "select_loop h officialNames active (d # ds) seen =
    (if td_name d \<notin> active \<or> \<not> isAdditiveToolName (td_name d) officialNames \<or> td_name d \<in> seen
     then select_loop h officialNames active ds seen
     else (case toResponsesFunctionTool h d of
         None \<Rightarrow> select_loop h officialNames active ds seen
       | Some converted \<Rightarrow> converted # select_loop h officialNames active ds (insert (td_name d) seen)))"

definition selectCodexToolSurface ::
  "heap \<Rightarrow> js list \<Rightarrow> string list \<Rightarrow> PiResponsesToolDefinition list \<Rightarrow> js list" where
  "selectCodexToolSurface h officialTools activeNames activeDefinitions =
     officialTools @ select_loop h (officialToolNames officialTools) (set activeNames) activeDefinitions {}"

definition orderedToolNames :: "PiResponsesToolDefinition list \<Rightarrow> string list" where
  "orderedToolNames ts = unique_values (map td_name ts)"

section \<open>The copy is a JSON tree\<close>

text \<open>The object without what the copy ignores; one the copy refuses is given a foreign prototype.\<close>

definition clean_own :: "hobj \<Rightarrow> string list \<Rightarrow> (pkey \<times> descriptor) list" where
  "clean_own ob ks = map (\<lambda>k. (PName k, DataProp (data_of ob k) True)) ks"

definition index_names :: "hobj \<Rightarrow> string list" where
  "index_names ob = map digits_of [0..<arr_length ob]"

definition clean :: "hobj \<Rightarrow> hobj" where
  "clean ob =
    (if is_array ob
     then (if proto ob = ArrayPrototype \<and> list_all (\<lambda>k. own_value ob k \<noteq> None) (index_names ob)
       then ob\<lparr>own := (PName ''length'', DataProp (HNum (Fin (of_nat (arr_length ob)))) False) # clean_own ob (index_names ob)\<rparr>
       else ob\<lparr>proto := OtherPrototype\<rparr>)
     else (if (proto ob = ObjectPrototype \<or> proto ob = NullPrototype) \<and> list_all (\<lambda>k. own_value ob k \<noteq> None) (enumerable_names ob)
       then ob\<lparr>own := clean_own ob (enumerable_names ob)\<rparr> else ob\<lparr>proto := OtherPrototype\<rparr>))"

definition no_proto_keys :: "heap \<Rightarrow> bool" where
  "no_proto_keys h \<longleftrightarrow> list_all (\<lambda>ob. ''__proto__'' \<notin> set (own_names ob)) h"

lemma those_eq_Some: "those xs = Some ys \<longleftrightarrow> xs = map Some ys"
proof (induction xs arbitrary: ys)
  case (Cons x xs)
  then show ?case by (cases ys; cases x) auto
qed auto

lemma those_eq_None: "those xs = None \<longleftrightarrow> None \<in> set xs"
  by (induction xs) (auto split: option.split)

lemma own_value_data: "own_value ob k = Some v \<Longrightarrow> v = data_of ob k"
  by (auto simp: own_value_def data_of_def split: option.splits descriptor.splits)

lemma own_values_eq:
  "those (map (own_value ob) ks) = (if list_all (\<lambda>k. own_value ob k \<noteq> None) ks then Some (map (data_of ob) ks) else None)"
proof (cases "list_all (\<lambda>k. own_value ob k \<noteq> None) ks")
  case True
  then have "map (own_value ob) ks = map Some (map (data_of ob) ks)"
    by (auto simp: list_all_iff dest: own_value_data)
  then have "those (map (own_value ob) ks) = Some (map (data_of ob) ks)" by (simp only: those_eq_Some)
  with True show ?thesis by simp
next
  case False
  then have "None \<in> set (map (own_value ob) ks)" by (force simp: list_all_iff image_iff)
  then have "those (map (own_value ob) ks) = None" by (simp only: those_eq_None)
  with False show ?thesis by simp
qed

lemma digits_not_length: "digits_of n \<noteq> ''length''"
proof -
  have "\<forall>c \<in> set (digits_of n). of_char c < (58 :: nat)" for n
  proof (induction n rule: digits_of.induct)
    case (1 n)
    then show ?case by (subst digits_of.simps) (auto simp: of_char_of take_bit_eq_mod)
  qed
  from this [of n] show ?thesis by auto
qed

lemma clean_own_lookup: "k \<in> set ks \<Longrightarrow> map_of (clean_own ob ks) (PName k) = Some (DataProp (data_of ob k) True)"
  by (induction ks) (auto simp: clean_own_def)

lemma clean_own_names: "concat (map (\<lambda>(k, d). case k of PName s \<Rightarrow> [s] | PSymbol _ \<Rightarrow> []) (clean_own ob ks)) = ks"
  "\<not> list_ex (\<lambda>(k, d). case k of PName _ \<Rightarrow> False | PSymbol _ \<Rightarrow> True) (clean_own ob ks)"
  by (induction ks) (auto simp: clean_own_def)

lemma clean_frame [simp]: "is_array (clean ob) = is_array ob" "arr_length (clean ob) = arr_length ob"
  by (simp_all add: clean_def)

lemma clean_array:
  assumes "is_array ob" "proto ob = ArrayPrototype" "list_all (\<lambda>k. own_value ob k \<noteq> None) (index_names ob)"
  shows "strictJsonArrayObject (clean ob)" "elements (clean ob) = map (data_of ob) (index_names ob)"
proof -
  have o: "own (clean ob) = (PName ''length'', DataProp (HNum (Fin (of_nat (arr_length ob)))) False) # clean_own ob (index_names ob)"
    and p: "proto (clean ob) = ArrayPrototype" using assms by (simp_all add: clean_def)
  have l: "map_of (own (clean ob)) (PName k) = Some (DataProp (data_of ob k) True)" if "k \<in> set (index_names ob)" for k
  proof -
    from that have "k \<noteq> ''length''" using digits_not_length by (auto simp: index_names_def)
    with clean_own_lookup [OF that, of ob] show ?thesis by (simp add: o)
  qed
  have n: "own_names (clean ob) = ''length'' # index_names ob"
    using clean_own_names(1) by (simp add: own_names_def o)
  have "\<not> has_symbol (clean ob)" using clean_own_names(2) by (simp add: has_symbol_def o)
  moreover have "list_all (\<lambda>i. plain_data (clean ob) (digits_of i)) [0..<arr_length ob]"
    using l by (simp add: list_all_iff plain_data_def index_names_def)
  moreover have "list_all (\<lambda>name. name = ''length'' \<or> isArrayIndex name (arr_length ob)) (own_names (clean ob))"
    by (auto simp: n list_all_iff index_names_def isArrayIndex_def list_ex_iff)
  ultimately show "strictJsonArrayObject (clean ob)"
    using assms(1) p n o by (simp add: strictJsonArrayObject_def strictArrayProperties_def)
  show "elements (clean ob) = map (data_of ob) (index_names ob)"
    using l by (simp add: elements_def index_names_def data_of_def [of "clean ob"])
qed

lemma clean_record:
  assumes "\<not> is_array ob" "proto ob = ObjectPrototype \<or> proto ob = NullPrototype"
    and "list_all (\<lambda>k. own_value ob k \<noteq> None) (enumerable_names ob)"
  shows "strictPlainRecordObject (clean ob)" "entries (clean ob) = map (\<lambda>k. (k, data_of ob k)) (enumerable_names ob)"
proof -
  have o: "own (clean ob) = clean_own ob (enumerable_names ob)" and p: "proto (clean ob) = proto ob"
    using assms by (simp_all add: clean_def)
  have n: "own_names (clean ob) = enumerable_names ob" using clean_own_names(1) by (simp add: own_names_def o)
  have l: "map_of (own (clean ob)) (PName k) = Some (DataProp (data_of ob k) True)" if "k \<in> set (enumerable_names ob)" for k
    using clean_own_lookup [OF that, of ob] by (simp add: o)
  show "strictPlainRecordObject (clean ob)"
    using assms(1,2) p n l clean_own_names(2)
    by (simp add: strictPlainRecordObject_def strictRecordProperties_def has_symbol_def plain_data_def list_all_iff o)
  show "entries (clean ob) = map (\<lambda>k. (k, data_of ob k)) (enumerable_names ob)"
    using l by (simp add: entries_def n data_of_def [of "clean ob"])
qed

lemma clean_rejected:
  "is_array ob \<Longrightarrow> strictJsonArrayObject (clean ob) \<Longrightarrow>
     proto ob = ArrayPrototype \<and> list_all (\<lambda>k. own_value ob k \<noteq> None) (index_names ob)"
  "\<not> is_array ob \<Longrightarrow> strictPlainRecordObject (clean ob) \<Longrightarrow>
     (proto ob = ObjectPrototype \<or> proto ob = NullPrototype) \<and> list_all (\<lambda>k. own_value ob k \<noteq> None) (enumerable_names ob)"
  by (auto simp: clean_def strictJsonArrayObject_def strictPlainRecordObject_def split: if_splits)

lemma index_values: "map (\<lambda>i. own_value ob (digits_of i)) [0..<n] = map (own_value ob) (map digits_of [0..<n])"
  by simp

lemma assign_zip: "no_proto_keys h \<Longrightarrow> a < length h \<Longrightarrow>
    assign_all (zip (enumerable_names (h ! a)) ts) = zip (enumerable_names (h ! a)) ts"
  by (auto simp: assign_all_def filter_id_conv no_proto_keys_def list_all_iff enumerable_names_def dest!: set_zip_leftD
      simp del: set_filter) (auto dest: nth_mem)

lemma project_ref:
  assumes "no_proto_keys h" "a \<notin> anc" "a < length h"
  shows "projectJsonValue h (HRef a) anc =
    (if is_array (h ! a)
     then (if strictJsonArrayObject (clean (h ! a))
       then map_option JArr (those (map (\<lambda>w. projectJsonValue h w (insert a anc)) (elements (clean (h ! a))))) else None)
     else (if strictPlainRecordObject (clean (h ! a))
       then map_option (\<lambda>ts. JObj (zip (map fst (entries (clean (h ! a)))) ts))
         (those (map (\<lambda>e. projectJsonValue h (snd e) (insert a anc)) (entries (clean (h ! a))))) else None))"
proof (cases "is_array (h ! a)")
  case True
  show ?thesis
  proof (cases "strictJsonArrayObject (clean (h ! a))")
    case strict: True
    note r = clean_rejected(1) [OF True strict]
    note c = clean_array [OF True conjunct1 [OF r] conjunct2 [OF r]]
    from True r assms(2,3) show ?thesis
      by (simp add: projectJsonValue.simps(5) index_values own_values_eq c del: map_map) (simp add: index_names_def)
  next
    case False
    then have "\<not> (proto (h ! a) = ArrayPrototype \<and> list_all (\<lambda>k. own_value (h ! a) k \<noteq> None) (index_names (h ! a)))"
      using clean_array(1) [OF True] by blast
    with True False assms(2,3) show ?thesis
      by (auto simp: projectJsonValue.simps(5) index_values own_values_eq index_names_def simp del: map_map)
  qed
next
  case False
  show ?thesis
  proof (cases "strictPlainRecordObject (clean (h ! a))")
    case strict: True
    note r = clean_rejected(2) [OF False strict]
    note c = clean_record [OF False conjunct1 [OF r] conjunct2 [OF r]]
    from False r assms show ?thesis
      by (auto simp: projectJsonValue.simps(5) own_values_eq c assign_zip comp_def)
  next
    case bad: False
    then have "\<not> ((proto (h ! a) = ObjectPrototype \<or> proto (h ! a) = NullPrototype) \<and>
        list_all (\<lambda>k. own_value (h ! a) k \<noteq> None) (enumerable_names (h ! a)))"
      using clean_record(1) [OF False] by blast
    with False bad assms(2,3) show ?thesis by (auto simp: projectJsonValue.simps(5) own_values_eq)
  qed
qed

lemma all_projected:
  "\<lbrakk>map f xs = map Some ts; \<And>x. x \<in> set xs \<Longrightarrow> case f x of None \<Rightarrow> Q x | Some t \<Rightarrow> V x \<and> R x t\<rbrakk> \<Longrightarrow>
    list_all2 R xs ts \<and> list_all V xs"
proof (induction xs arbitrary: ts)
  case (Cons x xs)
  then obtain t ts' where ts: "ts = t # ts'" "f x = Some t" "map f xs = map Some ts'" by (cases ts) auto
  from Cons.IH [OF ts(3)] Cons.prems(2) [of x] Cons.prems(2) ts show ?case by simp
qed simp

lemma zip_keys: "list_all2 (\<lambda>e t. R (snd e) t) es ts \<Longrightarrow> list_all2 (\<lambda>e t. fst e = fst t \<and> R (snd e) (snd t)) es (zip (map fst es) ts)"
  by (induction rule: list_all2_induct) auto

lemma project_visit:
  assumes "no_proto_keys h"
  shows "case projectJsonValue h v anc of None \<Rightarrow> \<not> visit (map clean h) v anc
    | Some t \<Rightarrow> visit (map clean h) v anc \<and> unfolds (map clean h) v t"
proof (induction "map clean h" v anc rule: visit.induct)
  case (5 a anc)
  let ?H = "map clean h" and ?P = "\<lambda>w. projectJsonValue h w (insert a anc)"
  show ?case
  proof (cases "a \<in> anc \<or> length h \<le> a")
    case False
    then have a: "a \<notin> anc" "a < length h" and Ha: "?H ! a = clean (h ! a)" by simp_all
    show ?thesis
    proof (cases "is_array (h ! a)")
      case True
      have IH: "case ?P w of None \<Rightarrow> \<not> visit ?H w (insert a anc) | Some t \<Rightarrow> visit ?H w (insert a anc) \<and> unfolds ?H w t"
        if "w \<in> set (elements (clean (h ! a)))" for w
        using 5(1) [of w] False True that a by (simp add: Ha)
      show ?thesis
      proof (cases "those (map ?P (elements (clean (h ! a))))")
        case None
        then obtain w where "w \<in> set (elements (clean (h ! a)))" "?P w = None" by (auto simp: those_eq_None)
        with IH [of w] None True a show ?thesis
          by (auto simp: project_ref [OF assms] visit.simps(5) Ha list_all_iff)
      next
        case (Some ts)
        then have ps: "map ?P (elements (clean (h ! a))) = map Some ts" by (simp only: those_eq_Some)
        note all = all_projected [OF ps IH]
        from all Some True a show ?thesis
          by (auto simp: project_ref [OF assms] visit.simps(5) Ha intro!: unfolds.unfolds_arr)
      qed
    next
      case notarr: False
      have IH: "case ?P (snd e) of None \<Rightarrow> \<not> visit ?H (snd e) (insert a anc)
          | Some t \<Rightarrow> visit ?H (snd e) (insert a anc) \<and> unfolds ?H (snd e) t"
        if "e \<in> set (entries (clean (h ! a)))" for e
        using 5(2) [of e] False notarr that a by (simp add: Ha)
      show ?thesis
      proof (cases "those (map (\<lambda>e. ?P (snd e)) (entries (clean (h ! a))))")
        case None
        then obtain e where "e \<in> set (entries (clean (h ! a)))" "?P (snd e) = None" by (auto simp: those_eq_None)
        with IH [of e] None notarr a show ?thesis
          by (auto simp: project_ref [OF assms] visit.simps(5) Ha list_all_iff)
      next
        case (Some ts)
        then have ps: "map (\<lambda>e. ?P (snd e)) (entries (clean (h ! a))) = map Some ts" by (simp only: those_eq_Some)
        note all = all_projected [OF ps IH]
        from zip_keys [of "unfolds ?H", OF conjunct1 [OF all]] conjunct2 [OF all] Some notarr a show ?thesis
          by (auto simp: project_ref [OF assms] visit.simps(5) Ha intro!: unfolds.unfolds_obj)
      qed
    qed
  qed (auto simp: projectJsonValue.simps(5) visit.simps(5))
qed (auto intro: unfolds.intros)

lemma project_iff:
  assumes "no_proto_keys h"
  shows "projectJsonValue h v {} = Some t \<longleftrightarrow> unfolds (map clean h) v t \<and> strict_js t"
proof -
  note pv = project_visit [OF assms, of v "{}"]
  have "strict_js t" if "projectJsonValue h v {} = Some t" for t
    using pv that isStrictJsonValue_tree [of "map clean h" v t] by (simp add: isStrictJsonValue_def)
  moreover have "projectJsonValue h v {} = Some t" if "unfolds (map clean h) v t" "strict_js t"
  proof (cases "projectJsonValue h v {}")
    case None
    with pv that isStrictJsonValue_tree [OF that(1)] show ?thesis by (simp add: isStrictJsonValue_def)
  next
    case (Some t')
    with pv unfolds_unique [OF that(1), of t'] show ?thesis by simp
  qed
  moreover have "unfolds (map clean h) v t" if "projectJsonValue h v {} = Some t" using pv that by simp
  ultimately show ?thesis by blast
qed

section \<open>The list is exact\<close>

definition tool_name_js :: "js \<Rightarrow> string" where
  "tool_name_js v = (case as_record v of None \<Rightarrow> '''' | Some ob \<Rightarrow> (case get_prop ob ''name'' of JStr s \<Rightarrow> s | _ \<Rightarrow> ''''))"

definition offered :: "heap \<Rightarrow> string set \<Rightarrow> string set \<Rightarrow> PiResponsesToolDefinition \<Rightarrow> bool" where
  "offered h officialNames active d \<longleftrightarrow> td_name d \<in> active \<and> isAdditiveToolName (td_name d) officialNames \<and>
     toResponsesFunctionTool h d \<noteq> None"

lemma converted_name: "toResponsesFunctionTool h d = Some j \<Longrightarrow> tool_name_js j = td_name d"
  by (auto simp: toResponsesFunctionTool_def tool_name_js_def split: option.splits if_splits)

lemma select_names:
  "map tool_name_js (select_loop h off act ds seen) =
    filter (\<lambda>n. n \<notin> seen) (unique_values (map td_name (filter (offered h off act) ds)))"
proof (induction ds arbitrary: seen)
  case (Cons d ds)
  show ?case
  proof (cases "offered h off act d")
    case True
    then obtain j where j: "toResponsesFunctionTool h d = Some j" by (auto simp: offered_def)
    have "td_name d \<in> act" "isAdditiveToolName (td_name d) off" using True by (simp_all add: offered_def)
    with j True Cons converted_name [OF j] show ?thesis by (auto intro!: filter_cong)
  next
    case False
    then have "td_name d \<notin> act \<or> \<not> isAdditiveToolName (td_name d) off \<or> toResponsesFunctionTool h d = None"
      by (simp add: offered_def)
    then have "select_loop h off act (d # ds) seen = select_loop h off act ds seen" by auto
    with Cons False show ?thesis by simp
  qed
qed simp

lemma select_converted:
  "j \<in> set (select_loop h off act ds seen) \<Longrightarrow> \<exists>d \<in> set ds. offered h off act d \<and> toResponsesFunctionTool h d = Some j"
proof (induction ds arbitrary: seen)
  case (Cons d ds)
  then show ?case by (fastforce simp: offered_def split: if_splits option.splits)
qed simp

section \<open>Properties\<close>


text \<open>A schema object with a symbol key, and an object that contains itself.\<close>

definition sample_heap :: heap where
  "sample_heap =
    [\<lparr>is_array = False, proto = ObjectPrototype, own = [(PName ''type'', DataProp (HStr ''object'') True),
        (PSymbol 0, DataProp (HStr ''Kind'') True)], arr_length = 0\<rparr>,
     \<lparr>is_array = False, proto = ObjectPrototype, own = [(PName ''self'', DataProp (HRef 1) True)], arr_length = 0\<rparr>]"


text \<open>
  The tool list is exact. The official tools come first and unchanged; they are followed by the active
  tools of other extensions whose names are neither tools of the host, nor managed, nor official and whose
  schema could be copied, each name once and in the order of the definitions.
\<close>

theorem tool_surface_exact:
  "let additions = drop (length official) (selectCodexToolSurface h official active defs);
       shown = offered h (officialToolNames official) (set active) in
     take (length official) (selectCodexToolSurface h official active defs) = official \<and>
     map tool_name_js additions = unique_values (map td_name (filter shown defs)) \<and>
     list_all (\<lambda>j. list_ex (\<lambda>d. shown d \<and> toResponsesFunctionTool h d = Some j) defs) additions"
  using select_converted by (auto simp: selectCodexToolSurface_def select_names list_all_iff list_ex_iff)

end
