(* ===== verification/Provider_Connection.thy ===== *)
theory Provider_Connection
  imports Bridge_Protocol Config_Service
begin

text \<open>
  The connection handed to the native process for one request,
  \<open>src/src/integration/pi/provider-connection.ts\<close>, and the account helpers of
  \<open>src/src/application/codex-runtime.ts\<close>. The platform's URL parser and serializer, base64 decoder and
  JSON parser are parameters, \<open>None\<close> where they throw; the theorems hold for all of them.

  The lemmas show that headers are unique up to case, that no header and no credential carries a line
  break, that a bearer credential is never sent twice, and for which connections the message schema of the
  bridge accepts the result.
\<close>

section \<open>Strings\<close>

definition ends_with :: "string \<Rightarrow> string \<Rightarrow> bool" where
  "ends_with s t = starts_with (rev s) (rev t)"

section \<open>Account ids\<close>

definition OFFICIAL_ACCOUNT_CLAIM :: string where
  "OFFICIAL_ACCOUNT_CLAIM = ''https://api.openai.com/auth''"

record platform =
  pf_atob :: "string \<Rightarrow> string option"
  pf_parse :: "string \<Rightarrow> js option"

definition replace_char :: "char \<Rightarrow> char \<Rightarrow> string \<Rightarrow> string" where
  "replace_char a b s = map (\<lambda>c. if c = a then b else c) s"

definition decodeBase64Url :: "platform \<Rightarrow> string \<Rightarrow> string option" where
  "decodeBase64Url pf v =
    (let normalized = replace_char CHR ''_'' CHR ''/'' (replace_char CHR ''-'' CHR ''+'' v);
         padLength = (4 - length normalized mod 4) mod 4
     in pf_atob pf (normalized @ replicate padLength CHR ''=''))"

definition extractAccountId :: "platform \<Rightarrow> string \<Rightarrow> string option" where
  "extractAccountId pf credential =
    (case split_on CHR ''.'' credential of
       [_, payloadSegment, _] \<Rightarrow>
         if length payloadSegment = 0 then None
         else (case decodeBase64Url pf payloadSegment of
             None \<Rightarrow> None
           | Some payloadText \<Rightarrow>
              (case pf_parse pf payloadText of
                 None \<Rightarrow> None
               | Some decoded \<Rightarrow>
                  (let auth = (case as_record decoded of None \<Rightarrow> None
                         | Some ob \<Rightarrow> as_record (get_prop ob OFFICIAL_ACCOUNT_CLAIM));
                       accountId = (case auth of None \<Rightarrow> JUndef | Some ob \<Rightarrow> get_prop ob ''chatgpt_account_id'')
                   in case accountId of JStr s \<Rightarrow> if 0 < length s then Some s else None | _ \<Rightarrow> None)))
     | _ \<Rightarrow> None)"

definition remoteCompactionV2Context :: "string option \<Rightarrow> string option \<Rightarrow> string option \<Rightarrow> js option" where
  "remoteCompactionV2Context implementation sessionId compactionTrigger =
    (if implementation \<noteq> Some ''remote_v2'' then None
     else (case sessionId of
         None \<Rightarrow> None
       | Some sid \<Rightarrow> Some (JObj ([(''sessionId'', JStr sid)] @
           (case compactionTrigger of None \<Rightarrow> [] | Some t \<Rightarrow> [(''compactionTrigger'', JStr t)])))))"

section \<open>Base URLs\<close>

record url =
  url_protocol :: string
  url_hostname :: string
  url_username :: string
  url_password :: string
  url_hash :: string
  url_search :: string
  url_pathname :: string

definition strip_slashes :: "string \<Rightarrow> string" where
  "strip_slashes s = rev (dropWhile (\<lambda>c. c = CHR ''/'') (rev s))"

definition strip_slash :: "string \<Rightarrow> string" where
  "strip_slash s = (if ends_with s ''/'' then butlast s else s)"

definition normalizeBaseUrl ::
  "(string \<Rightarrow> url option) \<Rightarrow> (url \<Rightarrow> string) \<Rightarrow> string \<Rightarrow> (string, string) result" where
  "normalizeBaseUrl parse_url url_text v = (case parse_url v of
     None \<Rightarrow> Inl ''Provider base URL is invalid''
   | Some u \<Rightarrow>
      if url_protocol u \<noteq> ''https:'' \<and> url_protocol u \<noteq> ''http:'' \<or> length (url_hostname u) = 0 \<or>
         0 < length (url_username u) \<or> 0 < length (url_password u) \<or> 0 < length (url_hash u) \<or> 0 < length (url_search u)
      then Inl ''Provider base URL is invalid''
      else
       (let path = strip_slashes (url_pathname u) in
        if path = ''/responses'' \<or> ends_with path ''/responses'' then Inl ''Provider base URL must be an API root''
        else
         (let u' = (if url_protocol u = ''https:'' \<and>
                (url_hostname u = ''chatgpt.com'' \<or> url_hostname u = ''chat.openai.com'') \<and> path = ''/backend-api''
              then u\<lparr>url_pathname := ''/backend-api/codex''\<rparr> else u)
          in Inr (strip_slash (url_text u')))))"

section \<open>Headers\<close>

type_synonym headers = "(string \<times> string) list"

definition MAX_HEADER_COUNT :: nat where "MAX_HEADER_COUNT = 128"
definition MAX_HEADER_NAME_LENGTH :: nat where "MAX_HEADER_NAME_LENGTH = 256"
definition MAX_HEADER_VALUE_LENGTH :: nat where "MAX_HEADER_VALUE_LENGTH = 1024 * 1024"
definition MAX_ACCOUNT_ID_LENGTH :: nat where "MAX_ACCOUNT_ID_LENGTH = 256"

definition token_char :: "char \<Rightarrow> bool" where
  "token_char c = (let n = of_char c :: nat in 48 \<le> n \<and> n \<le> 57 \<or> 65 \<le> n \<and> n \<le> 90 \<or> 97 \<le> n \<and> n \<le> 122 \<or>
     c \<in> set ''!#$%&*+-.^_`|~'' \<or> n = 39)"

definition validateHeaderName :: "string \<Rightarrow> (string, unit) result" where
  "validateHeaderName name =
    (if length name = 0 \<or> MAX_HEADER_NAME_LENGTH < length name \<or> \<not> list_all token_char name
     then Inl ''Provider headers are invalid'' else Inr ())"

definition removeHeader :: "headers \<Rightarrow> string \<Rightarrow> headers" where
  "removeHeader hs name = filter (\<lambda>h. toLowerCase (fst h) \<noteq> toLowerCase name) hs"

text \<open>\<open>Map.set\<close> after the entries of that name were removed.\<close>

definition header_set :: "headers \<Rightarrow> string \<Rightarrow> string \<Rightarrow> headers" where
  "header_set hs name v = (if name \<in> fst ` set hs then map (\<lambda>h. if fst h = name then (name, v) else h) hs
     else hs @ [(name, v)])"

fun normalize_headers_loop ::
  "(string \<times> string option) list \<Rightarrow> headers \<Rightarrow> string set \<Rightarrow> (string, headers \<times> string set) result" where
  "normalize_headers_loop [] vals suppressed = Inr (vals, suppressed)"
| "normalize_headers_loop ((name, rawValue) # rest) vals suppressed =
    (case validateHeaderName name of
       Inl e \<Rightarrow> Inl e
     | Inr _ \<Rightarrow>
       (case rawValue of
          None \<Rightarrow> normalize_headers_loop rest (removeHeader vals name) (insert (toLowerCase name) suppressed)
        | Some v \<Rightarrow>
            if MAX_HEADER_VALUE_LENGTH < length v \<or> has_newline v then Inl ''Provider headers are invalid''
            else normalize_headers_loop rest (header_set (removeHeader vals name) name v)
              (suppressed - {toLowerCase name})))"

definition normalizeHeaders ::
  "(string \<times> string option) list option \<Rightarrow> (string, headers \<times> string set) result" where
  "normalizeHeaders input = (case input of
     None \<Rightarrow> Inr ([], {})
   | Some hs \<Rightarrow> if MAX_HEADER_COUNT < length hs then Inl ''Provider headers are invalid''
       else normalize_headers_loop hs [] {})"

fun takeHeader :: "headers \<Rightarrow> string \<Rightarrow> (string \<times> string) option \<times> headers" where
  "takeHeader [] name = (None, [])"
| "takeHeader (h # hs) name =
    (if toLowerCase (fst h) \<noteq> name then (let (r, rest) = takeHeader hs name in (r, h # rest)) else (Some h, hs))"

section \<open>Authentication\<close>

datatype CodexProviderAuthentication = BearerToken string | NoAuthentication

definition is_bearer :: "string \<Rightarrow> bool" where
  "is_bearer v = starts_with (toLowerCase (trim v)) ''bearer ''"

definition resolveAuthentication ::
  "(string \<times> string) option \<Rightarrow> bool \<Rightarrow> string option \<Rightarrow> (string, CodexProviderAuthentication) result" where
  "resolveAuthentication authorization authorizationSuppressed apiKey = (case authorization of
     Some (_, v) \<Rightarrow>
       if is_bearer v
       then (let token = trim (drop (length ''bearer '') (trim v)) in
             if length token = 0 then Inl ''Authorization header is invalid'' else Inr (BearerToken token))
       else Inr NoAuthentication
   | None \<Rightarrow>
       if authorizationSuppressed then Inr NoAuthentication
       else (case apiKey of
           None \<Rightarrow> Inr NoAuthentication
         | Some key \<Rightarrow>
             if length key = 0 then Inr NoAuthentication
             else if has_newline key \<or> MAX_HEADER_VALUE_LENGTH < length key then Inl ''Provider credential is invalid''
             else Inr (BearerToken key)))"

section \<open>The connection\<close>

record CodexProviderConnection =
  cn_providerId :: string
  cn_baseUrl :: string
  cn_headers :: headers
  cn_authentication :: CodexProviderAuthentication
  cn_accountId :: "string option"
  cn_accountIdSource :: "string option"
  cn_maxRetries :: "jsnum option"
  cn_timeoutMs :: "jsnum option"
  cn_websocketConnectTimeoutMs :: "jsnum option"

record connection_options =
  co_apiKey :: "string option"
  co_headers :: "(string \<times> string option) list option"
  co_maxRetries :: "jsnum option"
  co_timeoutMs :: "jsnum option"
  co_websocketConnectTimeoutMs :: "jsnum option"

definition validateProviderId :: "string \<Rightarrow> (string, string) result" where
  "validateProviderId v = (if length v = 0 \<or> 256 < length v \<or> v \<noteq> trim v \<or> has_newline v
     then Inl ''Provider id is invalid'' else Inr v)"

definition optionalNumber :: "jsnum option \<Rightarrow> int \<Rightarrow> int \<Rightarrow> (string, jsnum option) result" where
  "optionalNumber v minimum maximum = (case v of
     None \<Rightarrow> Inr None
   | Some n \<Rightarrow>
       if \<not> isSafeInteger n \<or> num_less n (Fin (of_int minimum)) \<or> num_less (Fin (of_int maximum)) n
       then Inl ''Provider request settings are invalid'' else Inr (Some n))"

definition MAX_RETRIES :: int where "MAX_RETRIES = 10"
definition MAX_TIMEOUT_MS :: int where "MAX_TIMEOUT_MS = 24 * 60 * 60 * 1000"
definition PI_DISABLED_IDLE_TIMEOUT_MS :: int where "PI_DISABLED_IDLE_TIMEOUT_MS = 2147483647"

definition optionalTimeoutMs :: "jsnum option \<Rightarrow> (string, jsnum option) result" where
  "optionalTimeoutMs v =
    (if v = None then Inr None
     else if v = Some (Fin (of_int PI_DISABLED_IDLE_TIMEOUT_MS)) then Inr (Some (Fin (of_int PI_DISABLED_IDLE_TIMEOUT_MS)))
     else optionalNumber v 1 MAX_TIMEOUT_MS)"

definition resolve_account ::
  "platform \<Rightarrow> (string \<times> string) option \<Rightarrow> bool \<Rightarrow> CodexProviderAuthentication \<Rightarrow> string option" where
  "resolve_account pf explicitAccountId suppressed authentication = (case explicitAccountId of
     Some (_, v) \<Rightarrow> if 0 < length v then Some v else None
   | None \<Rightarrow>
       if suppressed then None
       else (case authentication of BearerToken token \<Rightarrow> extractAccountId pf token | NoAuthentication \<Rightarrow> None))"

definition createProviderConnection ::
  "platform \<Rightarrow> (string \<Rightarrow> url option) \<Rightarrow> (url \<Rightarrow> string) \<Rightarrow> string \<Rightarrow> string \<Rightarrow> connection_options \<Rightarrow>
     (string, CodexProviderConnection) result" where
  "createProviderConnection pf parse_url url_text provider baseUrl0 options =
    res_bind (validateProviderId provider) (\<lambda>providerId.
    res_bind (normalizeBaseUrl parse_url url_text baseUrl0) (\<lambda>baseUrl.
    res_bind (normalizeHeaders (co_headers options)) (\<lambda>(vals, suppressed).
    let (authorization, source1) = takeHeader vals ''authorization'';
        (explicitAccountId, source2) = takeHeader source1 ''chatgpt-account-id''
    in
    res_bind (resolveAuthentication authorization (''authorization'' \<in> suppressed) (co_apiKey options)) (\<lambda>authentication.
    let accountId = resolve_account pf explicitAccountId (''chatgpt-account-id'' \<in> suppressed) authentication in
    if (case accountId of None \<Rightarrow> False | Some a \<Rightarrow> MAX_ACCOUNT_ID_LENGTH < length a)
    then Inl ''Provider account id is invalid''
    else if providerId = ''openai-codex'' \<and> authentication = NoAuthentication \<and> authorization = None
    then Inl ''Provider credentials are unavailable''
    else
    let source = (case authorization of
           Some (name, v) \<Rightarrow> if \<not> is_bearer v then header_set source2 name v else source2
         | None \<Rightarrow> source2)
    in
    res_bind (optionalNumber (co_maxRetries options) 0 MAX_RETRIES) (\<lambda>maxRetries.
    res_bind (optionalTimeoutMs (co_timeoutMs options)) (\<lambda>timeoutMs.
    res_bind (optionalNumber (co_websocketConnectTimeoutMs options) 1 MAX_TIMEOUT_MS) (\<lambda>websocketMs.
    Inr \<lparr>cn_providerId = providerId, cn_baseUrl = baseUrl, cn_headers = source, cn_authentication = authentication,
      cn_accountId = accountId,
      cn_accountIdSource = (case explicitAccountId of None \<Rightarrow> None | Some _ \<Rightarrow> Some ''header''),
      cn_maxRetries = maxRetries, cn_timeoutMs = timeoutMs, cn_websocketConnectTimeoutMs = websocketMs\<rparr>)))))))"

definition assertProviderActive ::
  "ProviderActivationModel option \<Rightarrow> ('s, 'x) service \<Rightarrow> string \<Rightarrow> (string, unit) result" where
  "assertProviderActive model activation inactiveMessage =
    (if \<not> isActive model activation then Inl inactiveMessage else Inr ())"

record auth_answer =
  auth_ok :: bool
  auth_apiKey :: "string option"
  auth_headers :: "(string \<times> string option) list option"

text \<open>\<open>auth\<close> is the answer of the host's model registry.\<close>

definition resolveProviderConnection ::
  "platform \<Rightarrow> (string \<Rightarrow> url option) \<Rightarrow> (url \<Rightarrow> string) \<Rightarrow> ProviderActivationModel option \<Rightarrow> string \<Rightarrow>
     ('s, 'x) service \<Rightarrow> string \<Rightarrow> auth_answer \<Rightarrow> (string, CodexProviderConnection) result" where
  "resolveProviderConnection pf parse_url url_text model baseUrl activation inactiveMessage auth =
    res_bind (assertProviderActive model activation inactiveMessage) (\<lambda>_.
    case model of
      None \<Rightarrow> Inl ''Provider connection requires an active model''
    | Some m \<Rightarrow>
        if \<not> auth_ok auth then Inl ''Provider authentication is unavailable''
        else createProviderConnection pf parse_url url_text (am_provider m) baseUrl
          \<lparr>co_apiKey = auth_apiKey auth, co_headers = auth_headers auth, co_maxRetries = None, co_timeoutMs = None,
           co_websocketConnectTimeoutMs = None\<rparr>)"

text \<open>The object of a connection as it is sent.\<close>

definition authentication_js :: "CodexProviderAuthentication \<Rightarrow> js" where
  "authentication_js a = (case a of
     BearerToken t \<Rightarrow> JObj [(''kind'', JStr ''bearer''), (''token'', JStr t)]
   | NoAuthentication \<Rightarrow> JObj [(''kind'', JStr ''none'')])"

definition optional_member :: "string \<Rightarrow> ('a \<Rightarrow> js) \<Rightarrow> 'a option \<Rightarrow> js_object" where
  "optional_member k f v = (case v of None \<Rightarrow> [] | Some x \<Rightarrow> [(k, f x)])"

definition connection_js :: "CodexProviderConnection \<Rightarrow> js" where
  "connection_js c = JObj ([(''providerId'', JStr (cn_providerId c)), (''baseUrl'', JStr (cn_baseUrl c)),
     (''headers'', JObj (map (\<lambda>h. (fst h, JStr (snd h))) (cn_headers c))),
     (''authentication'', authentication_js (cn_authentication c))] @
     optional_member ''accountId'' JStr (cn_accountId c) @
     optional_member ''accountIdSource'' JStr (cn_accountIdSource c) @
     optional_member ''maxRetries'' JNum (cn_maxRetries c) @
     optional_member ''timeoutMs'' JNum (cn_timeoutMs c) @
     optional_member ''websocketConnectTimeoutMs'' JNum (cn_websocketConnectTimeoutMs c))"

section \<open>Well-formed headers\<close>

definition header_ok :: "string \<times> string \<Rightarrow> bool" where
  "header_ok h \<longleftrightarrow> 0 < length (fst h) \<and> length (fst h) \<le> MAX_HEADER_NAME_LENGTH \<and> list_all token_char (fst h) \<and>
     length (snd h) \<le> MAX_HEADER_VALUE_LENGTH \<and> \<not> has_newline (snd h)"

definition lower_names :: "headers \<Rightarrow> string list" where
  "lower_names hs = map (\<lambda>h. toLowerCase (fst h)) hs"

definition headers_wf :: "headers \<Rightarrow> bool" where
  "headers_wf hs \<longleftrightarrow> list_all header_ok hs \<and> distinct (lower_names hs)"

lemma headers_wf_append:
  assumes "headers_wf hs" "header_ok (name, v)" "toLowerCase name \<notin> set (lower_names hs)"
  shows "headers_wf (header_set hs name v)" "length (header_set hs name v) = Suc (length hs)"
    "lower_names (header_set hs name v) = lower_names hs @ [toLowerCase name]"
proof -
  have "name \<notin> fst ` set hs" using assms(3) by (auto simp: lower_names_def)
  then have "header_set hs name v = hs @ [(name, v)]" by (auto simp: header_set_def)
  with assms show "headers_wf (header_set hs name v)" "length (header_set hs name v) = Suc (length hs)"
    "lower_names (header_set hs name v) = lower_names hs @ [toLowerCase name]"
    by (simp_all add: headers_wf_def lower_names_def)
qed

lemma headers_wf_remove:
  "headers_wf hs \<Longrightarrow> headers_wf (removeHeader hs name) \<and> length (removeHeader hs name) \<le> length hs \<and>
     toLowerCase name \<notin> set (lower_names (removeHeader hs name))"
  by (auto simp: headers_wf_def removeHeader_def lower_names_def list_all_iff distinct_map_filter)

lemma normalize_loop_wf:
  "normalize_headers_loop input vals supp = Inr (out, supp') \<Longrightarrow> headers_wf vals \<Longrightarrow>
     headers_wf out \<and> length out \<le> length vals + length input"
proof (induction input vals supp rule: normalize_headers_loop.induct)
  case (2 name raw rest vals supp)
  note rem = headers_wf_remove [OF "2.prems"(2), of name]
  show ?case
  proof (cases raw)
    case None
    with 2 rem show ?thesis by (fastforce split: sum.splits)
  next
    case (Some v)
    with "2.prems"(1) have ok: "header_ok (name, v)" and valid: "validateHeaderName name = Inr ()"
      and run: "normalize_headers_loop rest (header_set (removeHeader vals name) name v) (supp - {toLowerCase name}) = Inr (out, supp')"
      by (auto simp: header_ok_def validateHeaderName_def split: sum.splits if_splits)
    have app: "headers_wf (header_set (removeHeader vals name) name v)"
      "length (header_set (removeHeader vals name) name v) \<le> Suc (length vals)"
      using headers_wf_append [of "removeHeader vals name" name v] ok rem by simp_all
    have "\<not> (MAX_HEADER_VALUE_LENGTH < length v \<or> has_newline v)" using ok by (simp add: header_ok_def)
    from "2.IH"(2) [OF valid Some this run app(1)] app(2) show ?thesis by simp
  qed
qed simp

lemma normalizeHeaders_wf:
  "normalizeHeaders input = Inr (vals, supp) \<Longrightarrow> headers_wf vals \<and> length vals \<le> MAX_HEADER_COUNT"
  using normalize_loop_wf [of _ "[]" "{}" vals supp]
  by (auto simp: normalizeHeaders_def headers_wf_def lower_names_def split: option.splits if_splits) fastforce+

lemma takeHeader_wf:
  assumes "takeHeader hs name = (r, rest)" and "headers_wf hs"
  shows "headers_wf rest \<and> set (lower_names rest) = set (lower_names hs) - {name} \<and>
    (case r of None \<Rightarrow> rest = hs | Some h \<Rightarrow> header_ok h \<and> toLowerCase (fst h) = name \<and> length hs = Suc (length rest))"
  using assms
proof (induction hs arbitrary: rest)
  case (Cons h hs)
  show ?case
  proof (cases "toLowerCase (fst h) = name")
    case True
    with Cons.prems show ?thesis by (auto simp: headers_wf_def lower_names_def)
  next
    case False
    with Cons.prems obtain rest' where r: "takeHeader hs name = (r, rest')" "rest = h # rest'"
      by (auto split: prod.splits)
    moreover have "headers_wf hs" using Cons.prems(2) by (simp add: headers_wf_def lower_names_def)
    ultimately have IH: "headers_wf rest' \<and> set (lower_names rest') = set (lower_names hs) - {name} \<and>
        (case r of None \<Rightarrow> rest' = hs | Some h \<Rightarrow> header_ok h \<and> toLowerCase (fst h) = name \<and> length hs = Suc (length rest'))"
      using Cons.IH by blast
    with Cons.prems(2) False r(2) show ?thesis
      by (auto simp: headers_wf_def lower_names_def split: option.splits)
  qed
qed (simp add: lower_names_def)

section \<open>Well-formed connections\<close>

definition wf_token :: "CodexProviderAuthentication \<Rightarrow> bool" where
  "wf_token a = (case a of NoAuthentication \<Rightarrow> True
     | BearerToken t \<Rightarrow> 0 < length t \<and> length t \<le> MAX_HEADER_VALUE_LENGTH \<and> \<not> has_newline t)"

definition wf_number :: "int \<Rightarrow> int \<Rightarrow> jsnum option \<Rightarrow> bool" where
  "wf_number lo hi v = (case v of None \<Rightarrow> True | Some n \<Rightarrow> \<exists>i. n = Fin (of_int i) \<and> lo \<le> i \<and> i \<le> hi)"

definition wf_connection :: "CodexProviderConnection \<Rightarrow> bool" where
  "wf_connection c \<longleftrightarrow>
     0 < length (cn_providerId c) \<and> length (cn_providerId c) \<le> 256 \<and> \<not> has_newline (cn_providerId c) \<and>
     headers_wf (cn_headers c) \<and> length (cn_headers c) \<le> MAX_HEADER_COUNT \<and>
     ''chatgpt-account-id'' \<notin> set (lower_names (cn_headers c)) \<and>
     (''authorization'' \<in> set (lower_names (cn_headers c)) \<longrightarrow> cn_authentication c = NoAuthentication) \<and>
     wf_token (cn_authentication c) \<and>
     (case cn_accountId c of None \<Rightarrow> True | Some a \<Rightarrow> 0 < length a \<and> length a \<le> MAX_ACCOUNT_ID_LENGTH) \<and>
     wf_number 0 MAX_RETRIES (cn_maxRetries c) \<and>
     (wf_number 1 MAX_TIMEOUT_MS (cn_timeoutMs c) \<or> cn_timeoutMs c = Some (Fin (of_int PI_DISABLED_IDLE_TIMEOUT_MS))) \<and>
     wf_number 1 MAX_TIMEOUT_MS (cn_websocketConnectTimeoutMs c)"

lemma trim_set: "set (trim s) \<subseteq> set s"
  unfolding trim_def by (metis set_dropWhileD set_rev subsetI)

lemma trim_length: "length (trim s) \<le> length s"
  unfolding trim_def by (metis length_dropWhile_le length_rev order_trans)

lemma has_newline_mono: "set t \<subseteq> set s \<Longrightarrow> has_newline t \<Longrightarrow> has_newline s"
  by (auto simp: has_newline_def list_ex_iff)

lemma resolveAuthentication_wf:
  assumes "resolveAuthentication authorization supp key = Inr a" and "pred_option header_ok authorization"
  shows "wf_token a \<and> (authorization = None \<or> (\<exists>h. authorization = Some h \<and>
    (if is_bearer (snd h) then a \<noteq> NoAuthentication else a = NoAuthentication)))"
proof (cases authorization)
  case None
  with assms(1) show ?thesis by (auto simp: resolveAuthentication_def wf_token_def split: option.splits if_splits)
next
  case (Some h)
  let ?t = "trim (drop (length ''bearer '') (trim (snd h)))"
  have "length ?t \<le> length (snd h)"
    using trim_length [of "drop (length ''bearer '') (trim (snd h))"] trim_length [of "snd h"]
    by simp
  moreover have "set ?t \<subseteq> set (snd h)"
    by (rule order_trans [OF trim_set order_trans [OF set_drop_subset trim_set]])
  ultimately have "length ?t \<le> MAX_HEADER_VALUE_LENGTH" "\<not> has_newline ?t"
    using Some assms(2) has_newline_mono [of ?t "snd h"] by (auto simp: header_ok_def)
  with Some assms(1) show ?thesis
    by (cases h) (auto simp: resolveAuthentication_def wf_token_def Let_def split: if_splits)
qed

lemma extractAccountId_nonempty: "extractAccountId pf t = Some a \<Longrightarrow> 0 < length a"
  by (auto simp: extractAccountId_def Let_def split: list.splits if_splits option.splits js.splits)

lemma optionalNumber_wf: "optionalNumber v lo hi = Inr n \<Longrightarrow> wf_number lo hi n"
  by (auto simp: optionalNumber_def wf_number_def elim!: isSafeInteger_cases split: option.splits if_splits)

text \<open>The way through \<open>createProviderConnection\<close> when it does not throw.\<close>

lemma create_eq:
  assumes "createProviderConnection pf parse_url url_text provider baseUrl options = Inr c"
  obtains vals supp authorization source1 expl source2 where
    "normalizeHeaders (co_headers options) = Inr (vals, supp)"
    "takeHeader vals ''authorization'' = (authorization, source1)"
    "takeHeader source1 ''chatgpt-account-id'' = (expl, source2)"
    "validateProviderId provider = Inr (cn_providerId c)"
    "resolveAuthentication authorization (''authorization'' \<in> supp) (co_apiKey options) = Inr (cn_authentication c)"
    "cn_accountId c = resolve_account pf expl (''chatgpt-account-id'' \<in> supp) (cn_authentication c)"
    "\<not> (case cn_accountId c of None \<Rightarrow> False | Some a \<Rightarrow> MAX_ACCOUNT_ID_LENGTH < length a)"
    "cn_headers c = (case authorization of
       Some (name, v) \<Rightarrow> if \<not> is_bearer v then header_set source2 name v else source2 | None \<Rightarrow> source2)"
    "optionalNumber (co_maxRetries options) 0 MAX_RETRIES = Inr (cn_maxRetries c)"
    "optionalTimeoutMs (co_timeoutMs options) = Inr (cn_timeoutMs c)"
    "optionalNumber (co_websocketConnectTimeoutMs options) 1 MAX_TIMEOUT_MS = Inr (cn_websocketConnectTimeoutMs c)"
    "cn_accountIdSource c = (case expl of None \<Rightarrow> None | Some _ \<Rightarrow> Some ''header'')"
proof -
  obtain vals supp where n: "normalizeHeaders (co_headers options) = Inr (vals, supp)"
    using assms by (auto simp: createProviderConnection_def)
  obtain authorization source1 where a: "takeHeader vals ''authorization'' = (authorization, source1)" by force
  obtain expl source2 where e: "takeHeader source1 ''chatgpt-account-id'' = (expl, source2)" by force
  show ?thesis
    by (rule that [OF n a e]) (use assms in \<open>auto simp: createProviderConnection_def n a e Let_def split: if_splits\<close>)
qed

lemma create_wf:
  assumes "createProviderConnection pf parse_url url_text provider baseUrl options = Inr c"
  shows "wf_connection c"
proof -
  from assms obtain vals supp authorization source1 expl source2 where
    n: "normalizeHeaders (co_headers options) = Inr (vals, supp)" and
    a: "takeHeader vals ''authorization'' = (authorization, source1)" and
    e: "takeHeader source1 ''chatgpt-account-id'' = (expl, source2)" and
    p: "validateProviderId provider = Inr (cn_providerId c)" and
    r: "resolveAuthentication authorization (''authorization'' \<in> supp) (co_apiKey options) = Inr (cn_authentication c)" and
    acc: "cn_accountId c = resolve_account pf expl (''chatgpt-account-id'' \<in> supp) (cn_authentication c)" and
    len: "\<not> (case cn_accountId c of None \<Rightarrow> False | Some a \<Rightarrow> MAX_ACCOUNT_ID_LENGTH < length a)" and
    h: "cn_headers c = (case authorization of
       Some (name, v) \<Rightarrow> if \<not> is_bearer v then header_set source2 name v else source2 | None \<Rightarrow> source2)" and
    nums: "optionalNumber (co_maxRetries options) 0 MAX_RETRIES = Inr (cn_maxRetries c)"
      "optionalTimeoutMs (co_timeoutMs options) = Inr (cn_timeoutMs c)"
      "optionalNumber (co_websocketConnectTimeoutMs options) 1 MAX_TIMEOUT_MS = Inr (cn_websocketConnectTimeoutMs c)"
    by (rule create_eq)
  note vals = normalizeHeaders_wf [OF n]
  note w1 = takeHeader_wf [OF a conjunct1 [OF vals]]
  note w2 = takeHeader_wf [OF e conjunct1 [OF w1]]
  have auth: "pred_option header_ok authorization" using w1 by (cases authorization) auto
  note tok = resolveAuthentication_wf [OF r auth]
  have low2: "''authorization'' \<notin> set (lower_names source2)" "''chatgpt-account-id'' \<notin> set (lower_names source2)"
    using w1 w2 by auto
  have len2: "length source2 \<le> length source1" using w2 by (cases expl) auto
  have hs: "headers_wf (cn_headers c) \<and> length (cn_headers c) \<le> MAX_HEADER_COUNT \<and>
      ''chatgpt-account-id'' \<notin> set (lower_names (cn_headers c)) \<and>
      (''authorization'' \<in> set (lower_names (cn_headers c)) \<longrightarrow> cn_authentication c = NoAuthentication)"
  proof (cases "authorization = None \<or> is_bearer (snd (the authorization))")
    case True
    then have "cn_headers c = source2" using h by (auto split: option.splits)
    moreover have "length source1 \<le> length vals" using w1 by (cases authorization) auto
    ultimately show ?thesis using low2 len2 w2 vals by simp
  next
    case False
    then obtain nm v where s: "authorization = Some (nm, v)" "\<not> is_bearer v" by auto
    then have nm: "header_ok (nm, v)" "toLowerCase nm = ''authorization''" "length vals = Suc (length source1)"
      using w1 by simp_all
    have "toLowerCase nm \<notin> set (lower_names source2)" using low2 nm by simp
    note app = headers_wf_append [OF conjunct1 [OF w2] nm(1) this]
    have "cn_headers c = header_set source2 nm v" using h s by simp
    with app nm low2 len2 vals tok s show ?thesis by auto
  qed
  have "wf_number 1 MAX_TIMEOUT_MS (cn_timeoutMs c) \<or> cn_timeoutMs c = Some (Fin (of_int PI_DISABLED_IDLE_TIMEOUT_MS))"
    using nums(2) optionalNumber_wf [of "co_timeoutMs options" 1 MAX_TIMEOUT_MS]
    by (auto simp: optionalTimeoutMs_def wf_number_def [of _ _ None] split: if_splits)
  moreover have "case cn_accountId c of None \<Rightarrow> True | Some a \<Rightarrow> 0 < length a \<and> length a \<le> MAX_ACCOUNT_ID_LENGTH"
    using len acc extractAccountId_nonempty
    by (auto simp: resolve_account_def split: option.splits if_splits CodexProviderAuthentication.splits)
  moreover have "0 < length (cn_providerId c) \<and> length (cn_providerId c) \<le> 256 \<and> \<not> has_newline (cn_providerId c)"
    using p by (auto simp: validateProviderId_def split: if_splits)
  ultimately show ?thesis
    unfolding wf_connection_def using hs tok optionalNumber_wf [OF nums(1)] optionalNumber_wf [OF nums(3)] by blast
qed

section \<open>The schema of the bridge\<close>

lemma optional_member_simps:
  "keys_of (optional_member k f v) = (if v = None then [] else [k])"
  "get_prop (optional_member k f v) k' = (case v of None \<Rightarrow> JUndef | Some x \<Rightarrow> if k = k' then f x else JUndef)"
  by (simp_all add: optional_member_def split: option.split)

lemma wf_number_conforms: "wf_number lo hi (Some n) \<Longrightarrow> conforms (SInteger (Some lo) (Some hi)) (JNum n)"
  by (auto simp: wf_number_def in_bounds_def)

lemma wf_headers_conform:
  "headers_wf hs \<Longrightarrow> conforms (SRecord (SString 1 (Some 256)) (SString 0 (Some (1024 * 1024))))
     (JObj (map (\<lambda>h. (fst h, JStr (snd h))) hs))"
  by (auto simp: headers_wf_def header_ok_def list_all_iff MAX_HEADER_NAME_LENGTH_def MAX_HEADER_VALUE_LENGTH_def
      Suc_le_eq)

lemma wf_token_conforms: "wf_token a \<Longrightarrow> conforms ProviderAuthentication (authentication_js a)"
  by (cases a) (simp_all add: wf_token_def ProviderAuthentication_def authentication_js_def hasOwn_def
      MAX_HEADER_VALUE_LENGTH_def Suc_le_eq)

lemma wf_connection_conforms:
  assumes "wf_connection c"
  shows "conforms ProviderConnectionSchema (connection_js c) \<longleftrightarrow>
    cn_accountIdSource c = None \<and> 0 < length (cn_baseUrl c) \<and> length (cn_baseUrl c) \<le> 2048"
proof -
  note wf = assms [unfolded wf_connection_def]
  have t: "case cn_timeoutMs c of None \<Rightarrow> True | Some n \<Rightarrow>
      conforms (SInteger (Some 1) (Some 86400000)) (JNum n) \<or> n = Fin 2147483647"
    using wf wf_number_conforms [of 1 86400000]
    by (auto simp: MAX_TIMEOUT_MS_def PI_DISABLED_IDLE_TIMEOUT_MS_def simp del: conforms.simps split: option.split)
  have w: "case cn_websocketConnectTimeoutMs c of None \<Rightarrow> True | Some n \<Rightarrow>
      conforms (SInteger (Some 1) (Some 86400000)) (JNum n)"
    using wf wf_number_conforms [of 1 86400000] by (auto simp: MAX_TIMEOUT_MS_def simp del: conforms.simps split: option.split)
  have r: "case cn_maxRetries c of None \<Rightarrow> True | Some n \<Rightarrow> conforms (SInteger (Some 0) (Some 10)) (JNum n)"
    using wf wf_number_conforms [of 0 10] by (auto simp: MAX_RETRIES_def simp del: conforms.simps split: option.split)
  have h: "conforms (SRecord (SString 1 (Some 256)) (SString 0 (Some (1024 * 1024))))
      (JObj (map (\<lambda>h. (fst h, JStr (snd h))) (cn_headers c)))" using wf by (intro wf_headers_conform) blast
  have a: "conforms ProviderAuthentication (authentication_js (cn_authentication c))" using wf by (intro wf_token_conforms) blast
  show ?thesis
    using wf t w r h a
    by (simp add: ProviderConnectionSchema_def connection_js_def hasOwn_def get_prop_append
        optional_member_simps MAX_ACCOUNT_ID_LENGTH_def Suc_le_eq del: conforms.simps(2,3,5,6,9,10) split: option.splits)
qed

section \<open>Properties\<close>

text \<open>
  Safe connections. Whatever headers, credentials and settings the host supplies, a connection that is
  created has a valid provider id, at most 128 headers that are valid tokens and unique up to case, no
  line break in any header value or credential, no authorization header beside a bearer credential, and
  all lengths and numbers within their bounds.
\<close>

theorem connection_safe:
  "case createProviderConnection pf parse_url url_text provider baseUrl options of
     Inl _ \<Rightarrow> True | Inr c \<Rightarrow> wf_connection c"
  using create_wf by (auto split: sum.split)


end
