(* ===== verification/Request_Guard.thy ===== *)
theory Request_Guard
  imports Structured_Json Provider_Connection "HOL-Library.List_Lexorder" "HOL-Library.Char_ord" "HOL-Library.Multiset"
begin

text \<open>
  The provenance and final approval of provider requests,
  \<open>src/src/integration/pi/codex-provider-request-guard.ts\<close>. Records live in a list and are named by their
  generation; the record that is current in the async-local scope of a call is an argument of the
  operations that look at it; an abort of a signal is a step of the environment. Freezing and
  \<open>structuredClone\<close> keep the value. \<open>sha\<close> stands for the hash of the JSON text of a value.

  The lemmas show that the digest of a request depends on its value up to the order of keys and on
  nothing else, and that a request passes the guard only if it was approved on a live record, in the
  scope of that record, with nothing recorded against it.
\<close>

section \<open>Canonical JSON\<close>

fun sortJson :: "js \<Rightarrow> js" where
  "sortJson (JArr xs) = JArr (map sortJson xs)"
| "sortJson (JObj ob) = JObj (sort_key fst (map (\<lambda>kv. (fst kv, sortJson (snd kv))) ob))"
| "sortJson v = v"

datatype guard_error = RecordUnavailable | RecordRejected | RecordedFailure string

definition digestJson :: "(js \<Rightarrow> string) \<Rightarrow> js \<Rightarrow> (guard_error, string) result" where
  "digestJson sha v = (if \<not> strict_js v then Inl RecordRejected else Inr (''sha256:'' @ sha (json_tree (sortJson v))))"

definition cloneFrozenJson :: "js \<Rightarrow> (guard_error, js) result" where
  "cloneFrozenJson v = (if \<not> strict_js v then Inl RecordUnavailable else Inr v)"

section \<open>Fingerprints\<close>

definition sha256 :: "(string \<Rightarrow> string) \<Rightarrow> string \<Rightarrow> string" where
  "sha256 sha256Hex v = ''sha256:'' @ sha256Hex v"

definition session_fingerprint :: "(string \<Rightarrow> string) \<Rightarrow> string \<Rightarrow> string" where
  "session_fingerprint hex sessionId = sha256 hex (''pi-codex-adaptor/session/v1/'' @ sessionId)"

definition credentialFingerprint :: "(string \<Rightarrow> string) \<Rightarrow> string \<Rightarrow> string" where
  "credentialFingerprint hex credential = sha256 hex (''pi-codex-adaptor/credential/v1/'' @ credential)"

definition accountFingerprint :: "(string \<Rightarrow> string) \<Rightarrow> string \<Rightarrow> string" where
  "accountFingerprint hex accountId = sha256 hex (''pi-codex-adaptor/jwt-account/v1/'' @ accountId)"

definition extractAccountClaim :: "platform \<Rightarrow> string \<Rightarrow> string option" where
  "extractAccountClaim pf token =
    (let parts = split_on CHR ''.'' token in
     if length parts \<noteq> 3 \<or> length (parts ! 1) = 0 then None
     else
      (let normalized = replace_char CHR ''_'' CHR ''/'' (replace_char CHR ''-'' CHR ''+'' (parts ! 1)) in
       case pf_atob pf (normalized @ replicate ((4 - length normalized mod 4) mod 4) CHR ''='') of
         None \<Rightarrow> None
       | Some txt \<Rightarrow>
          (case pf_parse pf txt of
             None \<Rightarrow> None
           | Some payload \<Rightarrow>
              (case as_record payload of
                 None \<Rightarrow> None
               | Some ob \<Rightarrow>
                  (case as_record (get_prop ob ''https://api.openai.com/auth'') of
                     None \<Rightarrow> None
                   | Some auth \<Rightarrow>
                      (case get_prop auth ''chatgpt_account_id'' of
                         JStr s \<Rightarrow> if 0 < length s then Some s else None
                       | _ \<Rightarrow> None))))))"

datatype binding_summary = JwtAccount string | Credential string

definition authenticationSummary ::
  "platform \<Rightarrow> (string \<Rightarrow> string) \<Rightarrow> CodexProviderAuthentication \<Rightarrow> string option \<Rightarrow> string option \<Rightarrow> binding_summary option" where
  "authenticationSummary pf hex authentication accountId accountIdSource = (case authentication of
     NoAuthentication \<Rightarrow> None
   | BearerToken token \<Rightarrow>
      (case extractAccountClaim pf token of
         Some verifiedAccount \<Rightarrow>
           if accountIdSource = Some ''header'' \<and> accountId \<noteq> Some verifiedAccount then None
           else Some (JwtAccount (accountFingerprint hex verifiedAccount))
       | None \<Rightarrow> Some (Credential (credentialFingerprint hex token))))"

section \<open>Records\<close>

record CodexProviderRequestRecordInput =
  in_options :: js
  in_sessionId :: string
  in_model :: js_object
  in_request :: js
  in_inputLedger :: js
  in_connection :: js
  in_recordConfig :: js
  in_capabilities :: js

record CodexProviderRequestRecord =
  gr_sessionId :: string
  gr_model :: js_object
  gr_connection :: js
  gr_inputLedger :: js
  gr_config :: js
  gr_capabilities :: js
  gr_options :: js
  gr_requestDigest :: string
  gr_approvedRequest :: "js option"
  gr_approvedDigest :: "string option"
  gr_failure :: "string option"
  gr_closed :: bool
  gr_aborted :: bool

text \<open>
  The state: the live records of the map \<open>#records\<close>, by generation, and all records ever opened; the last
  one has the generation \<open>#nextGeneration\<close> unless opening it threw.
\<close>

record CodexProviderRequestGuard =
  gd_live :: "nat set"
  gd_heap :: "nat \<rightharpoonup> CodexProviderRequestRecord"
  gd_nextGeneration :: nat
  gd_disposed :: bool

definition new_guard :: CodexProviderRequestGuard where
  "new_guard = \<lparr>gd_live = {}, gd_heap = Map.empty, gd_nextGeneration = 0, gd_disposed = False\<rparr>"

definition snapshotProviderModel :: "js_object \<Rightarrow> (guard_error, js_object) result" where
  "snapshotProviderModel m =
    (if as_string (get_prop m ''id'') = None \<or> as_string (get_prop m ''provider'') = None \<or>
        as_string (get_prop m ''api'') = None \<or>
        (case get_prop m ''contextWindow'' of JNum n \<Rightarrow> \<not> isFinite n | _ \<Rightarrow> True) \<or>
        (case get_prop m ''input'' of
           JArr xs \<Rightarrow> \<not> list_all (\<lambda>x. x = JStr ''text'' \<or> x = JStr ''image'') xs | _ \<Rightarrow> True)
     then Inl RecordUnavailable
     else res_bind (cloneFrozenJson (get_prop m ''cost'')) (\<lambda>cost.
       Inr [(''id'', get_prop m ''id''), (''provider'', get_prop m ''provider''), (''api'', get_prop m ''api''),
            (''cost'', cost), (''contextWindow'', get_prop m ''contextWindow''), (''input'', get_prop m ''input'')]))"

text \<open>\<open>cloneOptionRecord\<close> and \<open>cloneOptionValue\<close>; the check of the outermost value is the first.\<close>

fun cloneOptionValue :: "js \<Rightarrow> js" where
  "cloneOptionValue (JArr xs) = JArr (map cloneOptionValue xs)"
| "cloneOptionValue (JObj ob) = JObj (map (\<lambda>kv. (fst kv, cloneOptionValue (snd kv))) ob)"
| "cloneOptionValue v = v"

definition snapshotSimpleStreamOptions :: "js \<Rightarrow> (guard_error, js) result" where
  "snapshotSimpleStreamOptions options = (case options of
     JUndef \<Rightarrow> Inr JUndef
   | JObj ob \<Rightarrow> Inr (cloneOptionValue (JObj ob))
   | _ \<Rightarrow> Inl RecordUnavailable)"

text \<open>The record that \<open>open\<close> builds.\<close>

definition new_record ::
  "(js \<Rightarrow> string) \<Rightarrow> CodexProviderRequestRecordInput \<Rightarrow> bool \<Rightarrow> (guard_error, CodexProviderRequestRecord) result" where
  "new_record sha inp aborted =
    res_bind (snapshotSimpleStreamOptions (in_options inp)) (\<lambda>options.
    res_bind (snapshotProviderModel (in_model inp)) (\<lambda>model.
    res_bind (cloneFrozenJson (in_connection inp)) (\<lambda>connection.
    res_bind (cloneFrozenJson (in_inputLedger inp)) (\<lambda>inputLedger.
    res_bind (cloneFrozenJson (in_recordConfig inp)) (\<lambda>config.
    res_bind (cloneFrozenJson (in_capabilities inp)) (\<lambda>capabilities.
    res_bind (digestJson sha (in_request inp)) (\<lambda>requestDigest.
    Inr \<lparr>gr_sessionId = in_sessionId inp, gr_model = model, gr_connection = connection,
      gr_inputLedger = inputLedger, gr_config = config, gr_capabilities = capabilities,
      gr_options = options, gr_requestDigest = requestDigest, gr_approvedRequest = None,
      gr_approvedDigest = None, gr_failure = None, gr_closed = False, gr_aborted = aborted\<rparr>)))))))"

definition guard_open ::
  "(js \<Rightarrow> string) \<Rightarrow> CodexProviderRequestRecordInput \<Rightarrow> bool \<Rightarrow> CodexProviderRequestGuard \<Rightarrow>
     (guard_error, nat) result \<times> CodexProviderRequestGuard" where
  "guard_open sha inp aborted g =
    (if gd_disposed g then (Inl RecordUnavailable, g)
     else
      (let generation = gd_nextGeneration g + 1;
           g1 = g\<lparr>gd_nextGeneration := generation\<rparr>
       in case new_record sha inp aborted of
            Inl e \<Rightarrow> (Inl e, g1)
          | Inr rec \<Rightarrow> (Inr generation, g1\<lparr>gd_live := insert generation (gd_live g1),
              gd_heap := (gd_heap g1)(generation \<mapsto> rec)\<rparr>)))"

text \<open>\<open>assertLive\<close>: the abort flag covers both signals of a record.\<close>

definition assertLive :: "nat \<Rightarrow> CodexProviderRequestGuard \<Rightarrow> (guard_error, CodexProviderRequestRecord) result" where
  "assertLive i g = (case gd_heap g i of
     None \<Rightarrow> Inl RecordRejected
   | Some rec \<Rightarrow>
       if gd_disposed g \<or> gr_closed rec \<or> i \<notin> gd_live g \<or> gr_aborted rec
       then Inl RecordRejected else Inr rec)"

definition assertRoute :: "nat \<Rightarrow> string \<Rightarrow> CodexProviderRequestGuard \<Rightarrow> (guard_error, unit) result" where
  "assertRoute i hookSessionId g = res_bind (assertLive i g) (\<lambda>rec.
     if gr_sessionId rec \<noteq> hookSessionId then Inl RecordRejected else Inr ())"

text \<open>\<open>current\<close> is the record of the async-local scope of the call.\<close>

definition approve ::
  "(js \<Rightarrow> string) \<Rightarrow> nat option \<Rightarrow> nat \<Rightarrow> js \<Rightarrow> CodexProviderRequestGuard \<Rightarrow>
     (guard_error, js) result \<times> CodexProviderRequestGuard" where
  "approve sha current i rq g = (case assertLive i g of
     Inl e \<Rightarrow> (Inl e, g)
   | Inr rec \<Rightarrow>
      if current \<noteq> Some i then (Inl RecordRejected, g)
      else
       (let g1 = g\<lparr>gd_heap := (gd_heap g)(i \<mapsto> rec\<lparr>gr_approvedRequest := Some rq\<rparr>)\<rparr> in
        case digestJson sha rq of
          Inl e \<Rightarrow> (Inl e, g1)
        | Inr d \<Rightarrow> (Inr rq, g1\<lparr>gd_heap := (gd_heap g1)(i \<mapsto>
            rec\<lparr>gr_approvedRequest := Some rq, gr_approvedDigest := Some d\<rparr>)\<rparr>)))"

definition recordFailure ::
  "nat option \<Rightarrow> nat \<Rightarrow> string \<Rightarrow> CodexProviderRequestGuard \<Rightarrow> (guard_error, unit) result \<times> CodexProviderRequestGuard" where
  "recordFailure current i cause g = (case assertLive i g of
     Inl e \<Rightarrow> (Inl e, g)
   | Inr rec \<Rightarrow>
      if current \<noteq> Some i then (Inl RecordRejected, g)
      else (Inr (), if gr_failure rec = None
          then g\<lparr>gd_heap := (gd_heap g)(i \<mapsto> rec\<lparr>gr_failure := Some cause\<rparr>)\<rparr> else g))"

definition assertApproved ::
  "(js \<Rightarrow> string) \<Rightarrow> nat \<Rightarrow> js \<Rightarrow> CodexProviderRequestGuard \<Rightarrow> (guard_error, js) result" where
  "assertApproved sha i rq g = res_bind (assertLive i g) (\<lambda>rec.
     case gr_failure rec of
       Some cause \<Rightarrow> Inl (RecordedFailure cause)
     | None \<Rightarrow>
        (case (gr_approvedRequest rec, gr_approvedDigest rec) of
           (Some approved, Some d) \<Rightarrow>
             if as_record rq = None then Inl RecordRejected
             else res_bind (digestJson sha rq) (\<lambda>d'.
               if d' \<noteq> d then Inl RecordRejected else Inr approved)
         | _ \<Rightarrow> Inl RecordRejected))"

definition close_record :: "nat \<Rightarrow> CodexProviderRequestGuard \<Rightarrow> CodexProviderRequestGuard" where
  "close_record i g = g\<lparr>gd_live := gd_live g - {i},
     gd_heap := (gd_heap g)(i := map_option (\<lambda>rec. rec\<lparr>gr_closed := True\<rparr>) (gd_heap g i))\<rparr>"

definition consume :: "nat \<Rightarrow> CodexProviderRequestGuard \<Rightarrow> CodexProviderRequestGuard" where
  "consume i g = (case gd_heap g i of
     None \<Rightarrow> g | Some rec \<Rightarrow> if gr_closed rec then g else close_record i g)"

text \<open>Closing every live record that satisfies a test.\<close>

definition close_where :: "(CodexProviderRequestRecord \<Rightarrow> bool) \<Rightarrow> CodexProviderRequestGuard \<Rightarrow> CodexProviderRequestGuard" where
  "close_where t g =
    (let hit = {i \<in> gd_live g. case gd_heap g i of None \<Rightarrow> False | Some rec \<Rightarrow> t rec} in
     g\<lparr>gd_live := gd_live g - hit,
       gd_heap := (\<lambda>i. if i \<in> hit then map_option (\<lambda>rec. rec\<lparr>gr_closed := True\<rparr>) (gd_heap g i) else gd_heap g i)\<rparr>)"

definition invalidateSession :: "string \<Rightarrow> CodexProviderRequestGuard \<Rightarrow> CodexProviderRequestGuard" where
  "invalidateSession sessionId g = close_where (\<lambda>rec. gr_sessionId rec = sessionId) g"

definition invalidateAll :: "CodexProviderRequestGuard \<Rightarrow> CodexProviderRequestGuard" where
  "invalidateAll g = close_where (\<lambda>_. True) g"

definition guard_dispose :: "CodexProviderRequestGuard \<Rightarrow> CodexProviderRequestGuard" where
  "guard_dispose g = invalidateAll (g\<lparr>gd_disposed := True\<rparr>)"

definition activeRecordCount :: "CodexProviderRequestGuard \<Rightarrow> nat" where
  "activeRecordCount g = card (gd_live g)"

text \<open>The environment aborts a signal of a record.\<close>

definition abort_record :: "nat \<Rightarrow> CodexProviderRequestGuard \<Rightarrow> CodexProviderRequestGuard" where
  "abort_record i g = g\<lparr>gd_heap := (gd_heap g)(i := map_option (\<lambda>rec. rec\<lparr>gr_aborted := True\<rparr>) (gd_heap g i))\<rparr>"

section \<open>The digest is canonical\<close>

text \<open>The keys of every object are distinct, as they are in every JavaScript object.\<close>

fun wf_js :: "js \<Rightarrow> bool" where
  "wf_js (JArr xs) = list_all wf_js xs"
| "wf_js (JObj ob) = (distinct (keys_of ob) \<and> list_all (\<lambda>kv. wf_js (snd kv)) ob)"
| "wf_js v = True"

lemma sort_key_eq_iff:
  fixes xs ys :: "(string \<times> 'a) list"
  assumes "distinct (map fst xs)" "distinct (map fst ys)"
  shows "sort_key fst xs = sort_key fst ys \<longleftrightarrow> set xs = set ys"
proof
  assume "set xs = set ys"
  then have "mset xs = mset ys"
    using assms by (metis distinct_map set_eq_iff_mset_eq_distinct)
  then show "sort_key fst xs = sort_key fst ys"
    using assms by (intro sort_key_inj_key_eq) (auto simp: distinct_map)
qed (metis set_sort)

lemma distinct_member: "distinct (keys_of ob) \<Longrightarrow> (k, v) \<in> set ob \<Longrightarrow> get_prop ob k = v"
  by (induction ob) (auto simp: keys_of_def rev_image_eqI)

lemma key_member: "k \<in> set (keys_of ob) \<Longrightarrow> (k, get_prop ob k) \<in> set ob"
  by (induction ob) (auto split: if_splits)

lemma sorted_members_iff:
  assumes "distinct (keys_of ob)" "distinct (keys_of p)"
    and "\<And>k x y. (k, x) \<in> set p \<Longrightarrow> (k, y) \<in> set ob \<Longrightarrow> sortJson y = sortJson x \<longleftrightarrow> js_sim y x"
  shows "(\<lambda>kv. (fst kv, sortJson (snd kv))) ` set ob = (\<lambda>kv. (fst kv, sortJson (snd kv))) ` set p \<longleftrightarrow>
    exact_keys ob (map fst p) \<and> (\<forall>(k, w) \<in> set p. js_sim (get_prop ob k) w)" (is "?f ` set ob = ?f ` set p \<longleftrightarrow> ?R")
proof
  assume eq: "?f ` set ob = ?f ` set p"
  have "fst ` set ob = fst ` set p" using arg_cong [OF eq, of "image fst"] by (simp add: image_image)
  moreover have "js_sim (get_prop ob k) x" if "(k, x) \<in> set p" for k x
  proof -
    have "(k, sortJson x) \<in> ?f ` set ob" using that eq by force
    then obtain y where "(k, y) \<in> set ob" "sortJson y = sortJson x" by auto
    with assms(3) [OF that] distinct_member [OF assms(1)] show ?thesis by auto
  qed
  ultimately show ?R by (auto simp: exact_keys_def keys_of_def)
next
  assume R: ?R
  have 1: "?f kv \<in> ?f ` set ob" if "kv \<in> set p" for kv
  proof -
    obtain k x where kv: "kv = (k, x)" by force
    have "k \<in> set (keys_of ob)" using R that kv by (force simp: exact_keys_def)
    then have m: "(k, get_prop ob k) \<in> set ob" by (rule key_member)
    with R that kv assms(3) [of k x "get_prop ob k"] have "sortJson (get_prop ob k) = sortJson x" by auto
    with m kv show ?thesis by force
  qed
  have 2: "?f kv \<in> ?f ` set p" if "kv \<in> set ob" for kv
  proof -
    obtain k y where kv: "kv = (k, y)" by force
    have "k \<in> fst ` set p" using R that kv by (force simp: exact_keys_def keys_of_def)
    then obtain x where x: "(k, x) \<in> set p" by auto
    have "get_prop ob k = y" using distinct_member [OF assms(1)] that kv by blast
    with R x that kv assms(3) [of k x y] have "sortJson y = sortJson x" by auto
    with x kv show ?thesis by force
  qed
  from 1 2 show "?f ` set ob = ?f ` set p" by blast
qed

lemma sortJson_eq_iff: "wf_js v \<Longrightarrow> wf_js w \<Longrightarrow> sortJson v = sortJson w \<longleftrightarrow> js_sim v w"
proof (induction w arbitrary: v)
  case (JArr ys)
  show ?case
  proof (cases v)
    case (JArr xs)
    with JArr.prems JArr.IH have "map sortJson xs = map sortJson ys \<longleftrightarrow> list_all2 js_sim xs ys"
      unfolding list_eq_iff_nth_eq list_all2_conv_all_nth by (auto simp: list_all_length)
    with JArr show ?thesis by simp
  qed simp_all
next
  case (JObj p)
  show ?case
  proof (cases v)
    case v: (JObj ob)
    have IH: "sortJson y = sortJson x \<longleftrightarrow> js_sim y x" if "(k, x) \<in> set p" "(k, y) \<in> set ob" for k x y
    proof -
      have "wf_js y" "wf_js x" using JObj.prems v that by (force simp: list_all_iff)+
      with JObj.IH [of "(k, x)" x y] that show ?thesis by simp
    qed
    have d: "distinct (keys_of ob)" "distinct (keys_of p)" using JObj.prems v by simp_all
    let ?f = "\<lambda>kv. (fst kv, sortJson (snd kv))"
    have "sort_key fst (map ?f ob) = sort_key fst (map ?f p) \<longleftrightarrow> ?f ` set ob = ?f ` set p"
      using sort_key_eq_iff [of "map ?f ob" "map ?f p"] d by (simp add: keys_of_def comp_def)
    with sorted_members_iff [OF d IH] v show ?thesis by simp
  qed simp_all
qed (case_tac v; simp)+

lemma json_tree_strict: "strict_js v \<Longrightarrow> json_tree v = v"
proof (induction v)
  case (JArr xs)
  then show ?case by (simp add: list_all_iff map_idI)
next
  case (JObj ob)
  then have "filter (\<lambda>kv. snd kv \<noteq> JUndef) ob = ob" by (auto simp: list_all_iff filter_id_conv)
  moreover have "map (\<lambda>kv. (fst kv, json_tree (snd kv))) ob = ob"
    using JObj by (intro map_idI) (auto simp: list_all_iff)
  ultimately show ?case by simp
qed auto

lemma strict_sortJson: "strict_js (sortJson v) = strict_js v"
  by (induction v) (auto simp: list_all_iff)

lemma digest_eq: "strict_js v \<Longrightarrow> digestJson sha v = Inr (''sha256:'' @ sha (sortJson v))"
  by (simp add: digestJson_def json_tree_strict strict_sortJson)

lemma clone_identity: "cloneOptionValue v = v"
proof (induction v)
  case (JObj ob)
  then have "map (\<lambda>kv. (fst kv, cloneOptionValue (snd kv))) ob = ob" by (intro map_idI) auto
  then show ?case by simp
qed (auto intro: map_idI)

lemma accounts_agree: "extractAccountClaim pf t = extractAccountId pf t"
proof (cases "split_on CHR ''.'' t")
  case (Cons a xs)
  show ?thesis
  proof (cases "length xs = 2")
    case True
    then obtain b c where "xs = [b, c]" by (auto simp: numeral_2_eq_2 length_Suc_conv)
    with Cons show ?thesis
      by (auto simp: extractAccountClaim_def extractAccountId_def decodeBase64Url_def OFFICIAL_ACCOUNT_CLAIM_def Let_def
          split: option.splits js.splits)
  next
    case False
    with Cons show ?thesis
      by (auto simp: extractAccountClaim_def extractAccountId_def Let_def split: list.splits)
  qed
qed (simp add: extractAccountClaim_def extractAccountId_def)

section \<open>Steps\<close>

text \<open>
  The second component is a history that no operation reads: which requests were approved on which record,
  in the scope of that record.
\<close>

type_synonym guard_world = "CodexProviderRequestGuard \<times> (nat \<times> js) set"

inductive guard_step :: "(js \<Rightarrow> string) \<Rightarrow> guard_world \<Rightarrow> guard_world \<Rightarrow> bool" for sha where
  gs_open: "guard_step sha (g, hist) (snd (guard_open sha inp ab g), hist)"
| gs_approve: "guard_step sha (g, hist) (snd (approve sha current i rq g),
    if current = Some i \<and> assertLive i g \<noteq> Inl RecordRejected then insert (i, rq) hist else hist)"
| gs_failure: "guard_step sha (g, hist) (snd (recordFailure current i cause g), hist)"
| gs_consume: "guard_step sha (g, hist) (consume i g, hist)"
| gs_session: "guard_step sha (g, hist) (invalidateSession sid g, hist)"
| gs_all: "guard_step sha (g, hist) (invalidateAll g, hist)"
| gs_dispose: "guard_step sha (g, hist) (guard_dispose g, hist)"
| gs_abort: "guard_step sha (g, hist) (abort_record i g, hist)"

definition record_ok :: "(js \<Rightarrow> string) \<Rightarrow> (nat \<times> js) set \<Rightarrow> nat \<Rightarrow> CodexProviderRequestRecord \<Rightarrow> bool" where
  "record_ok sha hist i rec \<longleftrightarrow>
     (case gr_approvedRequest rec of
        None \<Rightarrow> gr_approvedDigest rec = None
      | Some a \<Rightarrow> (i, a) \<in> hist \<and>
         (case gr_approvedDigest rec of None \<Rightarrow> True | Some d \<Rightarrow> strict_js a \<longrightarrow> digestJson sha a = Inr d))"

definition guard_inv :: "(js \<Rightarrow> string) \<Rightarrow> guard_world \<Rightarrow> bool" where
  "guard_inv sha w \<longleftrightarrow> (\<forall>i rec. gd_heap (fst w) i = Some rec \<longrightarrow>
     i \<le> gd_nextGeneration (fst w) \<and> record_ok sha (snd w) i rec \<and> (\<not> gr_closed rec \<longrightarrow> i \<in> gd_live (fst w)))"

lemma record_ok_frame [simp]:
  "record_ok sha hist i (rec\<lparr>gr_closed := b\<rparr>) = record_ok sha hist i rec"
  "record_ok sha hist i (rec\<lparr>gr_aborted := b\<rparr>) = record_ok sha hist i rec"
  "record_ok sha hist i (rec\<lparr>gr_failure := f\<rparr>) = record_ok sha hist i rec"
  by (simp_all add: record_ok_def split: option.split)

lemma record_ok_mono: "record_ok sha hist i rec \<Longrightarrow> record_ok sha (insert e hist) i rec"
  by (auto simp: record_ok_def split: option.splits)

lemma assertLive_Inr:
  "assertLive i g = Inr rec \<longleftrightarrow> gd_heap g i = Some rec \<and> \<not> gd_disposed g \<and> \<not> gr_closed rec \<and> i \<in> gd_live g \<and> \<not> gr_aborted rec"
  by (auto simp: assertLive_def split: option.splits)

lemma assertLive_Inl: "assertLive i g = Inl e \<Longrightarrow> e = RecordRejected"
  by (auto simp: assertLive_def split: option.splits if_splits)

lemma guard_invD:
  "guard_inv sha (g, hist) \<Longrightarrow> gd_heap g i = Some rec \<Longrightarrow>
     i \<le> gd_nextGeneration g \<and> record_ok sha hist i rec \<and> (\<not> gr_closed rec \<longrightarrow> i \<in> gd_live g)"
  by (simp add: guard_inv_def)

lemma new_record_ok: "new_record sha inp ab = Inr rec \<Longrightarrow> record_ok sha hist i rec \<and> \<not> gr_closed rec"
  by (auto simp: new_record_def record_ok_def)

lemma open_guard_inv: "guard_inv sha (g, hist) \<Longrightarrow> guard_inv sha (snd (guard_open sha inp ab g), hist)"
  using new_record_ok [of sha inp ab] by (fastforce simp: guard_open_def guard_inv_def Let_def split: sum.split)

lemma close_where_heap:
  "gd_heap (close_where t g) i = (case gd_heap g i of None \<Rightarrow> None
     | Some rec \<Rightarrow> Some (if i \<in> gd_live g \<and> t rec then rec\<lparr>gr_closed := True\<rparr> else rec))"
  "gd_live (close_where t g) = {i \<in> gd_live g. case gd_heap g i of None \<Rightarrow> True | Some rec \<Rightarrow> \<not> t rec}"
  "gd_nextGeneration (close_where t g) = gd_nextGeneration g"
  "gd_disposed (close_where t g) = gd_disposed g"
  by (auto simp: close_where_def Let_def split: option.splits)

lemma close_where_inv: "guard_inv sha (g, hist) \<Longrightarrow> guard_inv sha (close_where t g, hist)"
  by (auto simp: guard_inv_def close_where_heap split: option.splits if_splits)

lemma dispose_guard_inv: "guard_inv sha (g, hist) \<Longrightarrow> guard_inv sha (guard_dispose g, hist)"
  unfolding guard_dispose_def invalidateAll_def by (rule close_where_inv) (simp add: guard_inv_def)

lemma approve_guard_inv:
  assumes inv: "guard_inv sha (g, hist)"
  shows "guard_inv sha (snd (approve sha current i rq g),
    if current = Some i \<and> assertLive i g \<noteq> Inl RecordRejected then insert (i, rq) hist else hist)"
proof (cases "assertLive i g")
  case (Inl e)
  with inv assertLive_Inl [OF Inl] show ?thesis by (simp add: approve_def)
next
  case (Inr rec)
  then have h: "gd_heap g i = Some rec" by (simp add: assertLive_Inr)
  note r = guard_invD [OF inv h]
  show ?thesis
  proof (cases "current = Some i")
    case True
    have new: "record_ok sha (insert (i, rq) hist) i (rec\<lparr>gr_approvedRequest := Some rq, gr_approvedDigest := d\<rparr>)"
      if "strict_js rq \<longrightarrow> (case d of None \<Rightarrow> True | Some x \<Rightarrow> digestJson sha rq = Inr x)" for d
      using that by (auto simp: record_ok_def split: option.split)
    have old: "record_ok sha (insert (i, rq) hist) i (rec\<lparr>gr_approvedRequest := Some rq\<rparr>)" if "\<not> strict_js rq"
      using that by (auto simp: record_ok_def split: option.split)
    show ?thesis
    proof (cases "digestJson sha rq")
      case (Inl e)
      then have "\<not> strict_js rq" by (auto simp: digestJson_def split: if_splits)
      with Inl Inr True inv r old show ?thesis
        by (auto simp: approve_def guard_inv_def Let_def intro: record_ok_mono)
    next
      case d: (Inr d)
      with Inr True inv r new [of "Some d"] show ?thesis
        by (auto simp: approve_def guard_inv_def Let_def intro: record_ok_mono)
    qed
  qed (use Inr inv in \<open>simp add: approve_def\<close>)
qed

lemma failure_guard_inv: "guard_inv sha (g, hist) \<Longrightarrow> guard_inv sha (snd (recordFailure current i cause g), hist)"
  by (auto simp: recordFailure_def guard_inv_def assertLive_Inr split: sum.split)

lemma step_guard_inv: "guard_step sha w w' \<Longrightarrow> guard_inv sha w \<Longrightarrow> guard_inv sha w'"
proof (induction rule: guard_step.induct)
  case (gs_consume g hist i)
  then show ?case by (auto simp: consume_def close_record_def guard_inv_def split: option.split)
next
  case (gs_abort g hist i)
  then show ?case by (auto simp: abort_record_def guard_inv_def)
qed (simp_all only: open_guard_inv approve_guard_inv failure_guard_inv invalidateSession_def invalidateAll_def
      close_where_inv dispose_guard_inv)

lemma reachable_guard_inv: "(guard_step sha)\<^sup>*\<^sup>* (new_guard, {}) w \<Longrightarrow> guard_inv sha w"
proof (induction rule: rtranclp_induct)
  case base
  show ?case by (simp add: guard_inv_def new_guard_def)
qed (rule step_guard_inv)

text \<open>A closed record stays closed: generations are never reused.\<close>

definition closed_record :: "nat \<Rightarrow> guard_world \<Rightarrow> bool" where
  "closed_record i w \<longleftrightarrow> i \<le> gd_nextGeneration (fst w) \<and> (\<exists>rec. gd_heap (fst w) i = Some rec \<and> gr_closed rec)"

lemma step_closed: "guard_step sha w w' \<Longrightarrow> closed_record i w \<Longrightarrow> closed_record i w'"
proof (induction rule: guard_step.induct)
  case (gs_open g hist inp ab)
  then show ?case by (auto simp: closed_record_def guard_open_def Let_def split: sum.split)
next
  case (gs_approve g hist current j rq)
  then show ?case
    by (auto simp: closed_record_def approve_def assertLive_Inr Let_def split: sum.split)
next
  case (gs_failure g hist current j cause)
  then show ?case by (auto simp: closed_record_def recordFailure_def assertLive_Inr split: sum.split)
next
  case (gs_consume g hist j)
  then show ?case by (auto simp: closed_record_def consume_def close_record_def split: option.split)
next
  case (gs_abort g hist j)
  then show ?case by (auto simp: closed_record_def abort_record_def)
qed (auto simp: closed_record_def invalidateSession_def invalidateAll_def guard_dispose_def close_where_heap
      split: option.splits)

lemma steps_closed: "(guard_step sha)\<^sup>*\<^sup>* w w' \<Longrightarrow> closed_record i w \<Longrightarrow> closed_record i w'"
  by (induction rule: rtranclp_induct) (auto intro: step_closed)

lemma closed_rejected: "closed_record i w \<Longrightarrow> assertLive i (fst w) = Inl RecordRejected"
  by (auto simp: closed_record_def assertLive_def)

text \<open>
  An approval whose digest throws has already replaced the approved request, while the digest of the
  earlier approval is kept: the earlier request is then answered with the later one. Callers record a
  failure in that case, which blocks the record.
\<close>

lemma failed_approval_keeps_digest:
  assumes "assertLive i g = Inr rec" and "gr_failure rec = None" and "as_record old \<noteq> None"
    and "digestJson sha old = Inr d" and "gr_approvedDigest rec = Some d" and "\<not> strict_js new"
  shows "fst (approve sha (Some i) i new g) = Inl RecordRejected \<and>
    assertApproved sha i old (snd (approve sha (Some i) i new g)) = Inr new"
proof -
  let ?g = "g\<lparr>gd_heap := (gd_heap g)(i \<mapsto> rec\<lparr>gr_approvedRequest := Some new\<rparr>)\<rparr>"
  have "digestJson sha new = Inl RecordRejected" using assms(6) by (simp add: digestJson_def)
  then have ap: "approve sha (Some i) i new g = (Inl RecordRejected, ?g)"
    by (simp add: approve_def assms(1) Let_def)
  have "assertLive i ?g = Inr (rec\<lparr>gr_approvedRequest := Some new\<rparr>)"
    using assms(1) by (simp add: assertLive_Inr)
  then have "assertApproved sha i old ?g = Inr new" using assms(2-5) by (auto simp: assertApproved_def)
  with ap show ?thesis by simp
qed

lemma approval_releases:
  assumes "assertLive i g = Inr rec" and "gr_failure rec = None" and "digestJson sha a = Inr d"
    and "digestJson sha rq = Inr d" and "as_record rq \<noteq> None"
  shows "assertApproved sha i rq (snd (approve sha (Some i) i a g)) = Inr a"
proof -
  let ?rec = "rec\<lparr>gr_approvedRequest := Some a, gr_approvedDigest := Some d\<rparr>"
  let ?g = "g\<lparr>gd_heap := (gd_heap g)(i \<mapsto> ?rec)\<rparr>"
  have ap: "snd (approve sha (Some i) i a g) = ?g" by (simp add: approve_def assms(1,3) Let_def)
  have "assertLive i ?g = Inr ?rec" using assms(1) by (simp add: assertLive_Inr)
  then show ?thesis using assms(2,4,5) by (auto simp: ap assertApproved_def)
qed

section \<open>Properties\<close>

text \<open>
  Only approved requests leave. In every reachable state, whatever the order of opening, approving,
  failing, aborting, consuming and invalidating, a request that passes the guard is answered with a request
  that was approved on the same record in the scope of that record; the record is live, nothing failed on
  it, and an approved request that is strict JSON has the digest of the request that was submitted.
\<close>

theorem released_request_was_approved:
  assumes "(guard_step sha)\<^sup>*\<^sup>* (new_guard, {}) (g, hist)" and "assertApproved sha i rq g = Inr a"
  shows "(i, a) \<in> hist \<and> (\<exists>rec. assertLive i g = Inr rec \<and> gr_failure rec = None) \<and>
    (strict_js a \<longrightarrow> digestJson sha a = digestJson sha rq)"
proof -
  from assms(2) obtain rec d where live: "assertLive i g = Inr rec" and f: "gr_failure rec = None"
    and a: "gr_approvedRequest rec = Some a" and d: "gr_approvedDigest rec = Some d" "digestJson sha rq = Inr d"
    by (auto simp: assertApproved_def split: option.splits if_splits)
  from live have "gd_heap g i = Some rec" by (simp add: assertLive_Inr)
  from guard_invD [OF reachable_guard_inv [OF assms(1)] this] have "record_ok sha hist i rec" by blast
  with live f a d show ?thesis by (simp add: record_ok_def)
qed

definition sample_request_input :: CodexProviderRequestRecordInput where
  "sample_request_input = \<lparr>in_options = JUndef, in_sessionId = ''s'',
     in_model = [(''id'', JStr ''m''), (''provider'', JStr ''p''), (''api'', JStr ''a''), (''cost'', JNull),
       (''contextWindow'', jint 1000), (''input'', JArr [JStr ''text''])],
     in_request = JObj [], in_inputLedger = JArr [], in_connection = JObj [], in_recordConfig = JObj [],
     in_capabilities = JObj []\<rparr>"

definition sample_sha :: "js \<Rightarrow> string" where
  "sample_sha v = (if v = JObj [(''a'', jint 1), (''b'', jint 2)] then ''x'' else ''y'')"

definition sample_guard :: CodexProviderRequestGuard where
  "sample_guard = snd (approve sample_sha (Some 1) 1 (JObj [(''a'', jint 1), (''b'', jint 2)])
     (snd (guard_open sample_sha sample_request_input False new_guard)))"

theorem released_request_was_approved_witness:
  "assertApproved sample_sha 1 (JObj [(''b'', jint 2), (''a'', jint 1)]) sample_guard =
     Inr (JObj [(''a'', jint 1), (''b'', jint 2)]) \<and>
   (\<exists>rec. assertLive 1 sample_guard = Inr rec \<and> gr_failure rec = None)"
proof -
  let ?g = "snd (guard_open sample_sha sample_request_input False new_guard)"
  let ?a = "JObj [(''a'', jint 1), (''b'', jint 2)]"
  have rec: "\<exists>rec. new_record sample_sha sample_request_input False = Inr rec \<and> gr_failure rec = None"
    by (simp add: new_record_def sample_request_input_def snapshotSimpleStreamOptions_def snapshotProviderModel_def
        cloneFrozenJson_def digestJson_def isFinite_def as_string_def)
  then obtain rec where rec: "new_record sample_sha sample_request_input False = Inr rec" "gr_failure rec = None" by blast
  have flags: "\<not> gr_closed rec" "\<not> gr_aborted rec" using rec by (auto simp: new_record_def)
  have live: "assertLive 1 ?g = Inr rec"
    using rec flags by (simp add: guard_open_def new_guard_def assertLive_Inr Let_def)
  have dig: "digestJson sample_sha ?a = Inr ''sha256:x''"
    "digestJson sample_sha (JObj [(''b'', jint 2), (''a'', jint 1)]) = Inr ''sha256:x''"
    by (simp_all add: digestJson_def sample_sha_def isFinite_def)
  have "(guard_step sample_sha)\<^sup>*\<^sup>* (new_guard, {}) (?g, {})"
    by (rule r_into_rtranclp) (rule gs_open)
  then have "(guard_step sample_sha)\<^sup>*\<^sup>* (new_guard, {}) (sample_guard, {(1, ?a)})"
    using gs_approve [of sample_sha ?g "{}" "Some 1" 1 ?a] live unfolding sample_guard_def
    by (auto intro: rtranclp.rtrancl_into_rtrancl)
  moreover have ok: "assertApproved sample_sha 1 (JObj [(''b'', jint 2), (''a'', jint 1)]) sample_guard = Inr ?a"
    unfolding sample_guard_def by (rule approval_releases [OF live rec(2) dig]) simp
  ultimately show ?thesis using released_request_was_approved by blast
qed

text \<open>
  The digest is canonical. Two strict JSON values have the same digest under every hash exactly when
  they are equal up to the order of object keys.
\<close>

theorem digest_canonical:
  assumes "strict_js v" "strict_js w" "wf_js v" "wf_js w"
  shows "js_sim v w \<longleftrightarrow> (\<forall>sha. digestJson sha v = digestJson sha w)"
proof
  assume "\<forall>sha. digestJson sha v = digestJson sha w"
  from spec [OF this, of "\<lambda>x. if x = sortJson v then ''a'' else ''b''"] have "sortJson v = sortJson w"
    by (simp add: digest_eq assms split: if_splits)
  then show "js_sim v w" using sortJson_eq_iff [OF assms(3,4)] by simp
qed (simp add: digest_eq assms sortJson_eq_iff [OF assms(3,4), symmetric])

theorem digest_canonical_witness:
  "\<forall>sha. digestJson sha (JObj [(''a'', jint 1), (''b'', JArr [JObj [(''d'', JNull), (''c'', JStr ''x'')]])]) =
     digestJson sha (JObj [(''b'', JArr [JObj [(''c'', JStr ''x''), (''d'', JNull)]]), (''a'', jint 1)])"
  by (rule iffD1 [OF digest_canonical])
    (simp_all add: isFinite_def exact_keys_def keys_of_def insert_commute)

text \<open>
  An invalidated session stays invalidated. After the records of a session are invalidated, each of
  them is refused by every later check, whatever happens in between.
\<close>

theorem invalidated_stays_rejected:
  assumes "(guard_step sha)\<^sup>*\<^sup>* (new_guard, {}) (g, hist)" and "gd_heap g i = Some rec" and "gr_sessionId rec = sid"
    and "(guard_step sha)\<^sup>*\<^sup>* (invalidateSession sid g, hist) (g', hist')"
  shows "assertLive i g' = Inl RecordRejected"
proof -
  note inv = guard_invD [OF reachable_guard_inv [OF assms(1)] assms(2)]
  have "closed_record i (invalidateSession sid g, hist)"
    using inv assms(2,3) by (auto simp: closed_record_def invalidateSession_def close_where_heap)
  from closed_rejected [OF steps_closed [OF assms(4) this]] show ?thesis by simp
qed

theorem invalidated_stays_rejected_witness:
  "assertLive 1 (invalidateSession ''s'' (snd (guard_open sample_sha sample_request_input False new_guard))) =
     Inl RecordRejected"
proof -
  let ?g = "snd (guard_open sample_sha sample_request_input False new_guard)"
  have "\<exists>rec. new_record sample_sha sample_request_input False = Inr rec \<and> gr_sessionId rec = ''s''"
    by (simp add: new_record_def sample_request_input_def snapshotSimpleStreamOptions_def snapshotProviderModel_def
        cloneFrozenJson_def digestJson_def isFinite_def as_string_def)
  then obtain rec where "new_record sample_sha sample_request_input False = Inr rec" "gr_sessionId rec = ''s''" by blast
  then have "gd_heap ?g 1 = Some rec" "gr_sessionId rec = ''s''" by (simp_all add: guard_open_def new_guard_def Let_def)
  moreover have "(guard_step sample_sha)\<^sup>*\<^sup>* (new_guard, {}) (?g, {})" by (rule r_into_rtranclp) (rule gs_open)
  ultimately show ?thesis using invalidated_stays_rejected [OF _ _ _ rtranclp.rtrancl_refl] by blast
qed

end
