(* ===== verification/Compaction_Store.thy ===== *)
theory Compaction_Store
  imports Compaction_Checkpoint
begin

text \<open>
  The process-local compaction state of \<open>src/src/application/compaction.ts\<close>: the
  \<open>CodexCompactionStore\<close>, with its one-time warnings and provider context accounting.

  The store keeps string-keyed maps whose keys join a session id and an identity key with a NUL.
  The locale \<open>session_keys\<close> states what such keys must promise; it is interpreted on
  \<open>accountingKey\<close>. The store refines a specification indexed by session and identity, and
  its generations refuse every usage report that was opened before an invalidation.
\<close>

section \<open>The store\<close>

record CodexContextUsageBaseline =
  totalTokens :: jsnum
  inputItemCount :: jsnum
  inputDigest :: string
  instructionsDigest :: string

record AccountingEntry =
  entryBaseline :: CodexContextUsageBaseline
  entryGeneration :: nat
  entryRequestGeneration :: nat

record CodexContextAccountingSnapshot =
  snapshotGeneration :: nat
  snapshotBaseline :: "CodexContextUsageBaseline option"

record CodexCompactionStore =
  warningKeys :: "string list"
  accountingGenerations :: "string \<rightharpoonup> nat"
  activeAccountingIdentities :: "string \<rightharpoonup> string"
  accounting :: "string \<rightharpoonup> AccountingEntry"

definition newCompactionStore :: CodexCompactionStore where
  "newCompactionStore = \<lparr>warningKeys = [], accountingGenerations = Map.empty,
     activeAccountingIdentities = Map.empty, accounting = Map.empty\<rparr>"

definition session_prefix :: "string \<Rightarrow> string" where
  "session_prefix sessionId = sessionId @ [CHR 0x00]"

definition accountingKey :: "string \<Rightarrow> CodexCompactionIdentity \<Rightarrow> string" where
  "accountingKey sessionId i = session_prefix sessionId @ identityKey i"

definition warn_key_once :: "string \<Rightarrow> CodexCompactionStore \<Rightarrow> bool \<times> CodexCompactionStore" where
  "warn_key_once key st =
    (if key \<in> set (warningKeys st) then (False, st)
     else (True, st\<lparr>warningKeys := warningKeys st @ [key]\<rparr>))"

definition warnOnce ::
  "string \<Rightarrow> CodexCompactionIdentity \<Rightarrow> CodexCompactionStore \<Rightarrow> bool \<times> CodexCompactionStore" where
  "warnOnce sessionId i = warn_key_once (accountingKey sessionId i)"

definition warnSessionOnce :: "string \<Rightarrow> CodexCompactionStore \<Rightarrow> bool \<times> CodexCompactionStore" where
  "warnSessionOnce sessionId = warn_key_once (session_prefix sessionId @ ''<inactive>'')"

text \<open>\<open>this.#accountingGenerations.get(sessionId) ?? 0\<close>.\<close>

definition generation_of :: "CodexCompactionStore \<Rightarrow> string \<Rightarrow> nat" where
  "generation_of st sessionId = (case accountingGenerations st sessionId of None \<Rightarrow> 0 | Some g \<Rightarrow> g)"

text \<open>\<open>for (const key of map.keys()) if (key.startsWith(prefix)) map.delete(key)\<close>.\<close>

definition delete_prefix :: "string \<Rightarrow> (string \<rightharpoonup> 'v) \<Rightarrow> (string \<rightharpoonup> 'v)" where
  "delete_prefix p m = (\<lambda>k. if starts_with k p then None else m k)"

definition invalidateContextAccounting :: "string \<Rightarrow> CodexCompactionStore \<Rightarrow> CodexCompactionStore" where
  "invalidateContextAccounting sessionId st = st\<lparr>
     accountingGenerations := (accountingGenerations st)(sessionId \<mapsto> generation_of st sessionId + 1),
     accounting := delete_prefix (session_prefix sessionId) (accounting st)\<rparr>"

definition contextAccounting ::
  "string \<Rightarrow> CodexCompactionIdentity \<Rightarrow> CodexCompactionStore \<Rightarrow>
     CodexContextAccountingSnapshot \<times> CodexCompactionStore" where
  "contextAccounting sessionId i st0 =
    (let selectedIdentity = identityKey i;
         st1 = (case activeAccountingIdentities st0 sessionId of
             Some activeIdentity \<Rightarrow>
               if activeIdentity \<noteq> selectedIdentity then invalidateContextAccounting sessionId st0 else st0
           | None \<Rightarrow> st0);
         st2 = st1\<lparr>activeAccountingIdentities :=
           (activeAccountingIdentities st1)(sessionId \<mapsto> selectedIdentity)\<rparr>;
         generation = generation_of st2 sessionId
     in (\<lparr>snapshotGeneration = generation,
          snapshotBaseline = (case accounting st2 (accountingKey sessionId i) of
              None \<Rightarrow> None
            | Some e \<Rightarrow> if entryGeneration e \<noteq> generation then None else Some (entryBaseline e))\<rparr>,
         st2))"

definition valid_count :: "jsnum \<Rightarrow> bool" where
  "valid_count n \<longleftrightarrow> isSafeInteger n \<and> \<not> num_less n (Fin 0)"

definition recordContextUsage ::
  "string \<Rightarrow> CodexCompactionIdentity \<Rightarrow> nat \<Rightarrow> nat \<Rightarrow> CodexContextUsageBaseline \<Rightarrow>
     CodexCompactionStore \<Rightarrow> bool \<times> CodexCompactionStore" where
  "recordContextUsage sessionId i generation requestGeneration b st =
    (if generation_of st sessionId \<noteq> generation \<or>
        \<not> valid_count (totalTokens b) \<or> \<not> valid_count (inputItemCount b)
     then (False, st)
     else
       let key = accountingKey sessionId i in
       if (case accounting st key of None \<Rightarrow> False
           | Some current \<Rightarrow> entryGeneration current = generation \<and>
               requestGeneration < entryRequestGeneration current)
       then (False, st)
       else (True, st\<lparr>accounting := (accounting st)(key \<mapsto>
           \<lparr>entryBaseline = b, entryGeneration = generation,
            entryRequestGeneration = requestGeneration\<rparr>)\<rparr>))"

definition dispose :: "string \<Rightarrow> CodexCompactionStore \<Rightarrow> CodexCompactionStore" where
  "dispose sessionId st = st\<lparr>
     warningKeys := filter (\<lambda>k. \<not> starts_with k (session_prefix sessionId)) (warningKeys st),
     accountingGenerations := (accountingGenerations st)(sessionId \<mapsto> generation_of st sessionId + 1),
     activeAccountingIdentities := (activeAccountingIdentities st)(sessionId := None),
     accounting := delete_prefix (session_prefix sessionId) (accounting st)\<rparr>"

definition tracked :: "CodexCompactionStore \<Rightarrow> string \<Rightarrow> bool" where
  "tracked st s \<longleftrightarrow> accountingGenerations st s \<noteq> None \<or> activeAccountingIdentities st s \<noteq> None"

definition disposeAll :: "CodexCompactionStore \<Rightarrow> CodexCompactionStore" where
  "disposeAll st = \<lparr>
     warningKeys = [],
     accountingGenerations = (\<lambda>s. if tracked st s then Some (generation_of st s + 1) else None),
     activeAccountingIdentities = Map.empty,
     accounting = Map.empty\<rparr>"

section \<open>Operation sequences\<close>

datatype store_op =
    OpWarn string CodexCompactionIdentity
  | OpWarnSession string
  | OpContext string CodexCompactionIdentity
  | OpRecord string CodexCompactionIdentity nat nat CodexContextUsageBaseline
  | OpInvalidate string
  | OpDispose string
  | OpDisposeAll

datatype store_out = OutUnit | OutBool bool | OutSnapshot CodexContextAccountingSnapshot

fun store_step :: "store_op \<Rightarrow> CodexCompactionStore \<Rightarrow> store_out \<times> CodexCompactionStore" where
  "store_step (OpWarn s i) st = apfst OutBool (warnOnce s i st)"
| "store_step (OpWarnSession s) st = apfst OutBool (warnSessionOnce s st)"
| "store_step (OpContext s i) st = apfst OutSnapshot (contextAccounting s i st)"
| "store_step (OpRecord s i g r b) st = apfst OutBool (recordContextUsage s i g r b st)"
| "store_step (OpInvalidate s) st = (OutUnit, invalidateContextAccounting s st)"
| "store_step (OpDispose s) st = (OutUnit, dispose s st)"
| "store_step OpDisposeAll st = (OutUnit, disposeAll st)"

fun store_run :: "store_op list \<Rightarrow> CodexCompactionStore \<Rightarrow> store_out list \<times> CodexCompactionStore" where
  "store_run [] st = ([], st)"
| "store_run (p # ps) st =
    (let (out, st') = store_step p st; (outs, st'') = store_run ps st' in (out # outs, st''))"

section \<open>The specification\<close>

text \<open>
  What the store promises: per session a generation, an active identity, the warnings given and,
  per identity, the last accepted report. No key is built and no prefix is searched here.
\<close>

record session_state =
  ss_tracked :: bool
  ss_generation :: nat
  ss_active :: "CodexCompactionIdentity option"
  ss_warned :: "CodexCompactionIdentity \<Rightarrow> bool"
  ss_warned_inactive :: bool
  ss_reports :: "CodexCompactionIdentity \<rightharpoonup> AccountingEntry"

type_synonym spec_state = "string \<Rightarrow> session_state"

definition spec_fresh :: session_state where
  "spec_fresh = \<lparr>ss_tracked = False, ss_generation = 0, ss_active = None, ss_warned = (\<lambda>_. False),
     ss_warned_inactive = False, ss_reports = Map.empty\<rparr>"

definition spec_invalidate :: "session_state \<Rightarrow> session_state" where
  "spec_invalidate x = x\<lparr>ss_tracked := True, ss_generation := ss_generation x + 1,
     ss_reports := Map.empty\<rparr>"

definition spec_select :: "CodexCompactionIdentity \<Rightarrow> session_state \<Rightarrow> session_state" where
  "spec_select i x = (if ss_active x = None \<or> ss_active x = Some i then x else spec_invalidate x)
     \<lparr>ss_tracked := True, ss_active := Some i\<rparr>"

definition spec_close :: "session_state \<Rightarrow> session_state" where
  "spec_close x = spec_fresh\<lparr>ss_tracked := True, ss_generation := ss_generation x + 1\<rparr>"

definition spec_accepts ::
  "session_state \<Rightarrow> CodexCompactionIdentity \<Rightarrow> nat \<Rightarrow> nat \<Rightarrow> CodexContextUsageBaseline \<Rightarrow> bool" where
  "spec_accepts x i g r b \<longleftrightarrow> g = ss_generation x \<and>
     valid_count (totalTokens b) \<and> valid_count (inputItemCount b) \<and>
     (\<forall>e. ss_reports x i = Some e \<longrightarrow> entryGeneration e = g \<longrightarrow> entryRequestGeneration e \<le> r)"

fun spec_step :: "store_op \<Rightarrow> spec_state \<Rightarrow> store_out \<times> spec_state" where
  "spec_step (OpWarn s i) a =
    (OutBool (\<not> ss_warned (a s) i), a(s := (a s)\<lparr>ss_warned := (ss_warned (a s))(i := True)\<rparr>))"
| "spec_step (OpWarnSession s) a =
    (OutBool (\<not> ss_warned_inactive (a s)), a(s := (a s)\<lparr>ss_warned_inactive := True\<rparr>))"
| "spec_step (OpContext s i) a =
    (let x = spec_select i (a s) in
     (OutSnapshot \<lparr>snapshotGeneration = ss_generation x,
        snapshotBaseline = (case ss_reports x i of None \<Rightarrow> None
          | Some e \<Rightarrow> if entryGeneration e = ss_generation x then Some (entryBaseline e) else None)\<rparr>,
      a(s := x)))"
| "spec_step (OpRecord s i g r b) a =
    (if spec_accepts (a s) i g r b
     then (OutBool True, a(s := (a s)\<lparr>ss_reports := (ss_reports (a s))(i \<mapsto>
        \<lparr>entryBaseline = b, entryGeneration = g, entryRequestGeneration = r\<rparr>)\<rparr>))
     else (OutBool False, a))"
| "spec_step (OpInvalidate s) a = (OutUnit, a(s := spec_invalidate (a s)))"
| "spec_step (OpDispose s) a = (OutUnit, a(s := spec_close (a s)))"
| "spec_step OpDisposeAll a =
    (OutUnit, \<lambda>s. if ss_tracked (a s) then spec_close (a s) else spec_fresh)"

fun spec_run :: "store_op list \<Rightarrow> spec_state \<Rightarrow> store_out list \<times> spec_state" where
  "spec_run [] a = ([], a)"
| "spec_run (p # ps) a =
    (let (out, a') = spec_step p a; (outs, a'') = spec_run ps a' in (out # outs, a''))"

definition valid_session :: "string \<Rightarrow> bool" where
  "valid_session s \<longleftrightarrow> CHR 0x00 \<notin> set s"

fun valid_op :: "store_op \<Rightarrow> bool" where
  "valid_op (OpWarn s i) = (valid_session s \<and> wf_identity i)"
| "valid_op (OpWarnSession s) = valid_session s"
| "valid_op (OpContext s i) = (valid_session s \<and> wf_identity i)"
| "valid_op (OpRecord s i g r b) = (valid_session s \<and> wf_identity i)"
| "valid_op (OpInvalidate s) = valid_session s"
| "valid_op (OpDispose s) = valid_session s"
| "valid_op OpDisposeAll = True"

section \<open>Keys\<close>

text \<open>
  What the store needs of its keys: on valid sessions and identities the key determines both,
  and a key starts with a session's prefix only when it belongs to that session.
\<close>

locale session_keys =
  fixes skey :: "'s \<Rightarrow> 'i \<Rightarrow> string"
    and sprefix :: "'s \<Rightarrow> string"
    and valid_s :: "'s \<Rightarrow> bool"
    and valid_i :: "'i \<Rightarrow> bool"
  assumes key_inject: "\<lbrakk>valid_s s; valid_s t; valid_i i; valid_i j; skey s i = skey t j\<rbrakk> \<Longrightarrow> s = t \<and> i = j"
    and key_owner: "\<lbrakk>valid_s s; valid_s t; valid_i i\<rbrakk> \<Longrightarrow> starts_with (skey s i) (sprefix t) \<longleftrightarrow> s = t"
begin

lemma lookup_delete_prefix:
  "\<lbrakk>valid_s s; valid_s t; valid_i i\<rbrakk> \<Longrightarrow>
     delete_prefix (sprefix t) m (skey s i) = (if s = t then None else m (skey s i))"
  by (simp add: delete_prefix_def key_owner)

lemma lookup_update:
  "\<lbrakk>valid_s s; valid_s t; valid_i i; valid_i j\<rbrakk> \<Longrightarrow>
     (m(skey t j \<mapsto> v)) (skey s i) = (if s = t \<and> i = j then Some v else m (skey s i))"
  using key_inject by auto

lemma member_filter_prefix:
  "\<lbrakk>valid_s s; valid_s t; valid_i i\<rbrakk> \<Longrightarrow>
     skey s i \<in> set (filter (\<lambda>k. \<not> starts_with k (sprefix t)) ks) \<longleftrightarrow> s \<noteq> t \<and> skey s i \<in> set ks"
  using key_owner by auto

lemma key_eq: "\<lbrakk>valid_s s; valid_s t; valid_i i; valid_i j\<rbrakk> \<Longrightarrow> skey s i = skey t j \<longleftrightarrow> s = t \<and> i = j"
  using key_inject by auto

end

lemma session_prefix_owner:
  assumes "valid_session s" and "valid_session t"
  shows "starts_with (session_prefix s @ r) (session_prefix t) \<longleftrightarrow> s = t"
proof
  assume "starts_with (session_prefix s @ r) (session_prefix t)"
  then obtain q where "s @ CHR 0x00 # r = t @ CHR 0x00 # q"
    by (auto simp: starts_with_iff session_prefix_def)
  with assms show "s = t" using split_at_separator [of "CHR 0x00" s t r q]
    by (auto simp: valid_session_def)
qed (simp add: starts_with_append)

lemma session_prefix_inject:
  "valid_session s \<Longrightarrow> valid_session t \<Longrightarrow>
     session_prefix s @ x = session_prefix t @ y \<longleftrightarrow> s = t \<and> x = y"
  using split_at_separator [of "CHR 0x00" s t x y] by (auto simp: valid_session_def session_prefix_def)

interpretation acct: session_keys accountingKey session_prefix valid_session wf_identity
  by unfold_locales
     (auto simp: accountingKey_def session_prefix_owner session_prefix_inject dest: identityKey_inject)

lemma identityKey_separator: "CHR 0x01 \<in> set (identityKey i)"
  by (simp add: identityKey_def join_with_def)

text \<open>The reserved suffix of \<open>warnSessionOnce\<close> is no identity key, so the two kinds never meet.\<close>

lemma inactive_key_distinct:
  assumes "valid_session s" and "valid_session t"
  shows "accountingKey s i \<noteq> session_prefix t @ ''<inactive>''"
proof
  assume "accountingKey s i = session_prefix t @ ''<inactive>''"
  with assms have "identityKey i = ''<inactive>''"
    by (simp add: accountingKey_def session_prefix_inject)
  with identityKey_separator [of i] show False by simp
qed

section \<open>Refinement\<close>

definition session_rel :: "CodexCompactionStore \<Rightarrow> string \<Rightarrow> session_state \<Rightarrow> bool" where
  "session_rel st s x \<longleftrightarrow>
     tracked st s = ss_tracked x \<and> generation_of st s = ss_generation x \<and>
     activeAccountingIdentities st s = map_option identityKey (ss_active x) \<and>
     pred_option wf_identity (ss_active x) \<and>
     (session_prefix s @ ''<inactive>'' \<in> set (warningKeys st)) = ss_warned_inactive x \<and>
     (\<forall>i. wf_identity i \<longrightarrow> accounting st (accountingKey s i) = ss_reports x i \<and>
        (accountingKey s i \<in> set (warningKeys st)) = ss_warned x i)"

definition store_rel :: "CodexCompactionStore \<Rightarrow> spec_state \<Rightarrow> bool" where
  "store_rel st a \<longleftrightarrow> (\<forall>s. valid_session s \<longrightarrow> session_rel st s (a s))"

lemma store_relI: "(\<And>s. valid_session s \<Longrightarrow> session_rel st s (a s)) \<Longrightarrow> store_rel st a"
  by (simp add: store_rel_def)

lemma store_relD: "store_rel st a \<Longrightarrow> valid_session s \<Longrightarrow> session_rel st s (a s)"
  by (simp add: store_rel_def)

lemma store_rel_new: "store_rel newCompactionStore (\<lambda>_. spec_fresh)"
  by (simp add: store_rel_def session_rel_def newCompactionStore_def spec_fresh_def tracked_def
      generation_of_def)

lemma generation_of_simps [simp]:
  "generation_of (st\<lparr>accountingGenerations := m\<rparr>) s = (case m s of None \<Rightarrow> 0 | Some g \<Rightarrow> g)"
  "generation_of (st\<lparr>warningKeys := w\<rparr>) s = generation_of st s"
  "generation_of (st\<lparr>activeAccountingIdentities := v\<rparr>) s = generation_of st s"
  "generation_of (st\<lparr>accounting := u\<rparr>) s = generation_of st s"
  by (simp_all add: generation_of_def)

lemma tracked_simps [simp]:
  "tracked (st\<lparr>warningKeys := w\<rparr>) s = tracked st s"
  "tracked (st\<lparr>accounting := u\<rparr>) s = tracked st s"
  by (simp_all add: tracked_def)

lemma session_prefix_eq [simp]: "session_prefix s = session_prefix t \<longleftrightarrow> s = t"
  by (simp add: session_prefix_def)

lemma generation_of_bumped:
  "generation_of (invalidateContextAccounting s st) t = (if t = s then generation_of st s + 1 else generation_of st t)"
  "generation_of (dispose s st) t = (if t = s then generation_of st s + 1 else generation_of st t)"
  "generation_of (disposeAll st) t = (if tracked st t then generation_of st t + 1 else 0)"
  by (simp_all add: invalidateContextAccounting_def dispose_def disposeAll_def generation_of_def)

lemma tracked_bumped:
  "tracked (invalidateContextAccounting s st) t \<longleftrightarrow> t = s \<or> tracked st t"
  "tracked (dispose s st) t \<longleftrightarrow> t = s \<or> tracked st t"
  "tracked (disposeAll st) t \<longleftrightarrow> tracked st t"
  by (auto simp: invalidateContextAccounting_def dispose_def disposeAll_def tracked_def)

lemma rel_invalidate:
  assumes "store_rel st a" and "valid_session s"
  shows "store_rel (invalidateContextAccounting s st) (a(s := spec_invalidate (a s)))"
proof (rule store_relI)
  fix t assume t: "valid_session t"
  have "session_rel st t (a t)" "session_rel st s (a s)"
    using assms t by (simp_all add: store_relD)
  then show "session_rel (invalidateContextAccounting s st) t ((a(s := spec_invalidate (a s))) t)"
    using t assms(2) unfolding session_rel_def generation_of_bumped tracked_bumped
    by (cases "t = s") (simp_all add: invalidateContextAccounting_def spec_invalidate_def
        acct.lookup_delete_prefix)
qed

lemma rel_dispose:
  assumes "store_rel st a" and "valid_session s"
  shows "store_rel (dispose s st) (a(s := spec_close (a s)))"
proof (rule store_relI)
  fix t assume t: "valid_session t"
  have "session_rel st t (a t)" "session_rel st s (a s)"
    using assms t by (simp_all add: store_relD)
  then show "session_rel (dispose s st) t ((a(s := spec_close (a s))) t)"
    using t assms(2) unfolding session_rel_def generation_of_bumped tracked_bumped
    by (cases "t = s") (simp_all add: dispose_def spec_close_def spec_fresh_def
        acct.lookup_delete_prefix acct.key_owner session_prefix_owner)
qed

lemma rel_disposeAll:
  assumes "store_rel st a"
  shows "store_rel (disposeAll st) (\<lambda>s. if ss_tracked (a s) then spec_close (a s) else spec_fresh)"
proof (rule store_relI)
  fix t assume "valid_session t"
  with assms have "session_rel st t (a t)" by (simp add: store_relD)
  then show "session_rel (disposeAll st) t (if ss_tracked (a t) then spec_close (a t) else spec_fresh)"
    unfolding session_rel_def generation_of_bumped tracked_bumped
    by (simp add: disposeAll_def spec_close_def spec_fresh_def)
qed

lemma rel_warn:
  assumes "store_rel st a" and "valid_session s" and "wf_identity i"
  shows "fst (warnOnce s i st) = (\<not> ss_warned (a s) i) \<and>
    store_rel (snd (warnOnce s i st)) (a(s := (a s)\<lparr>ss_warned := (ss_warned (a s))(i := True)\<rparr>))"
proof
  have s: "session_rel st s (a s)" using assms by (simp add: store_relD)
  then show "fst (warnOnce s i st) = (\<not> ss_warned (a s) i)"
    using assms(3) by (simp add: warnOnce_def warn_key_once_def session_rel_def)
  show "store_rel (snd (warnOnce s i st)) (a(s := (a s)\<lparr>ss_warned := (ss_warned (a s))(i := True)\<rparr>))"
  proof (rule store_relI)
    fix t assume t: "valid_session t"
    with assms have "session_rel st t (a t)" by (simp add: store_relD)
    with s t assms(2,3) show "session_rel (snd (warnOnce s i st)) t
        ((a(s := (a s)\<lparr>ss_warned := (ss_warned (a s))(i := True)\<rparr>)) t)"
      by (cases "t = s") (auto simp: session_rel_def warnOnce_def warn_key_once_def acct.key_eq
          inactive_key_distinct [symmetric])
  qed
qed

lemma rel_warnSession:
  assumes "store_rel st a" and "valid_session s"
  shows "fst (warnSessionOnce s st) = (\<not> ss_warned_inactive (a s)) \<and>
    store_rel (snd (warnSessionOnce s st)) (a(s := (a s)\<lparr>ss_warned_inactive := True\<rparr>))"
proof
  have s: "session_rel st s (a s)" using assms by (simp add: store_relD)
  then show "fst (warnSessionOnce s st) = (\<not> ss_warned_inactive (a s))"
    by (simp add: warnSessionOnce_def warn_key_once_def session_rel_def)
  show "store_rel (snd (warnSessionOnce s st)) (a(s := (a s)\<lparr>ss_warned_inactive := True\<rparr>))"
  proof (rule store_relI)
    fix t assume t: "valid_session t"
    with assms have "session_rel st t (a t)" by (simp add: store_relD)
    with s t assms(2) show "session_rel (snd (warnSessionOnce s st)) t
        ((a(s := (a s)\<lparr>ss_warned_inactive := True\<rparr>)) t)"
      by (cases "t = s") (auto simp: session_rel_def warnSessionOnce_def warn_key_once_def
          inactive_key_distinct)
  qed
qed

lemma tracked_select:
  "tracked (st\<lparr>activeAccountingIdentities := (activeAccountingIdentities st)(s \<mapsto> v)\<rparr>) t \<longleftrightarrow>
     t = s \<or> tracked st t"
  by (simp add: tracked_def)

lemma rel_select:
  assumes "store_rel st a" and "valid_session s" and "wf_identity i"
  shows "store_rel (snd (contextAccounting s i st)) (a(s := spec_select i (a s)))"
proof -
  have s: "session_rel st s (a s)" using assms by (simp add: store_relD)
  define st1 where "st1 = (if ss_active (a s) = None \<or> ss_active (a s) = Some i then st
    else invalidateContextAccounting s st)"
  define a1 where "a1 = a(s := (if ss_active (a s) = None \<or> ss_active (a s) = Some i then a s
    else spec_invalidate (a s)))"
  have rel1: "store_rel st1 a1"
    using rel_invalidate [OF assms(1,2)] assms(1) by (simp add: st1_def a1_def)
  have "(case activeAccountingIdentities st s of
      Some activeIdentity \<Rightarrow>
        if activeIdentity \<noteq> identityKey i then invalidateContextAccounting s st else st
    | None \<Rightarrow> st) = st1"
    using s assms(3) unfolding st1_def session_rel_def
    by (auto split: option.splits dest: identityKey_inject)
  then have snd: "snd (contextAccounting s i st) = st1\<lparr>activeAccountingIdentities :=
      (activeAccountingIdentities st1)(s \<mapsto> identityKey i)\<rparr>"
    by (simp add: contextAccounting_def Let_def)
  have spec: "a(s := spec_select i (a s)) = a1(s := (a1 s)\<lparr>ss_tracked := True, ss_active := Some i\<rparr>)"
    by (simp add: a1_def spec_select_def)
  show ?thesis
    unfolding snd spec
  proof (rule store_relI)
    fix t assume "valid_session t"
    with rel1 have "session_rel st1 t (a1 t)" by (simp add: store_relD)
    with assms(3) show "session_rel (st1\<lparr>activeAccountingIdentities :=
      (activeAccountingIdentities st1)(s \<mapsto> identityKey i)\<rparr>) t
      ((a1(s := (a1 s)\<lparr>ss_tracked := True, ss_active := Some i\<rparr>)) t)"
      by (cases "t = s") (simp_all add: session_rel_def tracked_select)
  qed
qed

lemma contextAccounting_snapshot:
  "fst (contextAccounting s i st) =
     (let st' = snd (contextAccounting s i st) in
      \<lparr>snapshotGeneration = generation_of st' s,
       snapshotBaseline = (case accounting st' (accountingKey s i) of None \<Rightarrow> None
         | Some e \<Rightarrow> if entryGeneration e = generation_of st' s then Some (entryBaseline e) else None)\<rparr>)"
  by (simp add: contextAccounting_def Let_def split: option.split)

text \<open>A snapshot depends on the generation, the active identity and the entry of its own key only.\<close>

lemma contextAccounting_reads:
  assumes "valid_session s" and "wf_identity i"
  shows "fst (contextAccounting s i st) =
    (if activeAccountingIdentities st s = None \<or> activeAccountingIdentities st s = Some (identityKey i)
     then \<lparr>snapshotGeneration = generation_of st s,
       snapshotBaseline = (case accounting st (accountingKey s i) of None \<Rightarrow> None
         | Some e \<Rightarrow> if entryGeneration e = generation_of st s then Some (entryBaseline e) else None)\<rparr>
     else \<lparr>snapshotGeneration = generation_of st s + 1, snapshotBaseline = None\<rparr>)"
  using assms
  by (auto simp: contextAccounting_def Let_def invalidateContextAccounting_def
      acct.lookup_delete_prefix split: option.split)

lemma rel_context:
  assumes "store_rel st a" and "valid_session s" and "wf_identity i"
  shows "OutSnapshot (fst (contextAccounting s i st)) = fst (spec_step (OpContext s i) a)"
proof -
  have "session_rel (snd (contextAccounting s i st)) s (spec_select i (a s))"
    using store_relD [OF rel_select [OF assms] assms(2)] by simp
  with assms(3) have gen: "generation_of (snd (contextAccounting s i st)) s = ss_generation (spec_select i (a s))"
    and rep: "accounting (snd (contextAccounting s i st)) (accountingKey s i) = ss_reports (spec_select i (a s)) i"
    by (simp_all add: session_rel_def)
  show ?thesis
    unfolding contextAccounting_snapshot Let_def gen rep by (simp add: Let_def)
qed

lemma rel_record:
  assumes "store_rel st a" and "valid_session s" and "wf_identity i"
  shows "fst (recordContextUsage s i g r b st) = spec_accepts (a s) i g r b \<and>
    store_rel (snd (recordContextUsage s i g r b st)) (snd (spec_step (OpRecord s i g r b) a))"
proof -
  have s: "generation_of st s = ss_generation (a s)"
    "accounting st (accountingKey s i) = ss_reports (a s) i"
    using store_relD [OF assms(1,2)] assms(3) by (simp_all add: session_rel_def)
  have acc: "fst (recordContextUsage s i g r b st) = spec_accepts (a s) i g r b"
    by (auto simp: recordContextUsage_def spec_accepts_def s Let_def split: option.splits)
  show ?thesis
  proof (cases "spec_accepts (a s) i g r b")
    case False
    then have "snd (recordContextUsage s i g r b st) = st"
      using acc by (auto simp: recordContextUsage_def Let_def split: if_splits)
    with False assms acc show ?thesis by simp
  next
    case True
    let ?e = "\<lparr>entryBaseline = b, entryGeneration = g, entryRequestGeneration = r\<rparr>"
    have upd: "snd (recordContextUsage s i g r b st) = st\<lparr>accounting :=
        (accounting st)(accountingKey s i \<mapsto> ?e)\<rparr>"
      using acc True by (auto simp: recordContextUsage_def Let_def split: if_splits)
    have "store_rel (st\<lparr>accounting := (accounting st)(accountingKey s i \<mapsto> ?e)\<rparr>)
        (a(s := (a s)\<lparr>ss_reports := (ss_reports (a s))(i \<mapsto> ?e)\<rparr>))"
    proof (rule store_relI)
      fix t assume t: "valid_session t"
      with assms(1) have "session_rel st t (a t)" by (simp add: store_relD)
      with t assms(2,3) show "session_rel (st\<lparr>accounting := (accounting st)(accountingKey s i \<mapsto> ?e)\<rparr>) t
        ((a(s := (a s)\<lparr>ss_reports := (ss_reports (a s))(i \<mapsto> ?e)\<rparr>)) t)"
        by (cases "t = s") (auto simp: session_rel_def acct.key_eq)
    qed
    with True acc show ?thesis by (simp add: upd)
  qed
qed

lemma store_step_refines:
  assumes "store_rel st a" and "valid_op p"
  shows "fst (store_step p st) = fst (spec_step p a) \<and>
    store_rel (snd (store_step p st)) (snd (spec_step p a))"
proof (cases p)
  case (OpContext s i)
  with assms show ?thesis using rel_context [of st a s i] rel_select [of st a s i] by (simp add: Let_def)
next
  case (OpRecord s i g r b)
  with assms show ?thesis using rel_record [of st a s i g r b] by simp
qed (use assms rel_warn rel_warnSession rel_invalidate rel_dispose rel_disposeAll in auto)

lemma store_run_refines:
  assumes "store_rel st a" and "list_all valid_op ps"
  shows "fst (store_run ps st) = fst (spec_run ps a) \<and>
    store_rel (snd (store_run ps st)) (snd (spec_run ps a))"
  using assms
proof (induction ps arbitrary: st a)
  case (Cons p ps)
  then have "fst (store_step p st) = fst (spec_step p a)"
    "store_rel (snd (store_step p st)) (snd (spec_step p a))"
    using store_step_refines [of st a p] by simp_all
  with Cons.IH [of "snd (store_step p st)" "snd (spec_step p a)"] Cons.prems(2)
  show ?case by (simp add: case_prod_beta Let_def)
qed simp

section \<open>Generations\<close>

text \<open>An operation that ends every accounting snapshot taken of a session so far.\<close>

fun ends_session :: "string \<Rightarrow> store_op \<Rightarrow> bool" where
  "ends_session s (OpInvalidate t) = (t = s)"
| "ends_session s (OpDispose t) = (t = s)"
| "ends_session s OpDisposeAll = True"
| "ends_session s _ = False"

lemma warn_generation [simp]:
  "generation_of (snd (warn_key_once k st)) = generation_of st"
  "tracked (snd (warn_key_once k st)) = tracked st"
  by (auto simp: warn_key_once_def generation_of_def tracked_def fun_eq_iff)

lemma record_generation [simp]:
  "generation_of (snd (recordContextUsage s i g r b st)) = generation_of st"
  "tracked (snd (recordContextUsage s i g r b st)) = tracked st"
  by (auto simp: recordContextUsage_def generation_of_def tracked_def fun_eq_iff Let_def)

lemma context_generation:
  "generation_of st t \<le> generation_of (snd (contextAccounting s i st)) t"
  "tracked (snd (contextAccounting s i st)) t \<longleftrightarrow> t = s \<or> tracked st t"
  by (auto simp: contextAccounting_def Let_def tracked_def invalidateContextAccounting_def
      generation_of_def split: option.splits)

lemma store_step_generation:
  "tracked st s \<Longrightarrow> tracked (snd (store_step p st)) s"
  "tracked st s \<Longrightarrow> generation_of st s \<le> generation_of (snd (store_step p st)) s"
  by (cases p; simp add: context_generation warnOnce_def warnSessionOnce_def tracked_bumped
      generation_of_bumped)+

lemma ends_session_bumps:
  "tracked st s \<Longrightarrow> ends_session s p \<Longrightarrow> generation_of st s < generation_of (snd (store_step p st)) s"
  by (cases p) (simp_all add: generation_of_bumped)

lemma store_run_generation:
  assumes "tracked st s"
  shows "tracked (snd (store_run ps st)) s \<and> generation_of st s \<le> generation_of (snd (store_run ps st)) s"
  using assms
proof (induction ps arbitrary: st)
  case (Cons p ps)
  with store_step_generation [of st s p] show ?case
    by (auto simp: case_prod_beta Let_def intro: order_trans)
qed simp

lemma store_run_bumps:
  assumes "tracked st s" and "list_ex (ends_session s) ps"
  shows "generation_of st s < generation_of (snd (store_run ps st)) s"
  using assms
proof (induction ps arbitrary: st)
  case (Cons p ps)
  let ?st = "snd (store_step p st)"
  have "tracked ?st s" "generation_of st s \<le> generation_of ?st s"
    using store_step_generation Cons.prems(1) by blast+
  moreover have "generation_of st s < generation_of ?st s \<or> list_ex (ends_session s) ps"
    using ends_session_bumps Cons.prems by auto
  ultimately have "generation_of st s < generation_of (snd (store_run ps ?st)) s"
    using Cons.IH store_run_generation [of ?st s ps] order_less_le_trans order_le_less_trans by blast
  then show ?case by (simp add: case_prod_beta Let_def)
qed simp

lemma recordContextUsage_stale:
  "generation_of st s \<noteq> g \<Longrightarrow> recordContextUsage s i g r b st = (False, st)"
  by (simp add: recordContextUsage_def)

section \<open>Properties\<close>

text \<open>
  C2: Refinement of the accounting store. Every sequence of store operations on valid sessions and
  identities, started from a new store, gives the outputs of the specification that is indexed
  by session and identity: string keys, prefix deletion and generation counters implement it.
\<close>

theorem store_refines_spec:
  "list_all valid_op ps \<Longrightarrow>
     fst (store_run ps newCompactionStore) = fst (spec_run ps (\<lambda>_. spec_fresh))"
  using store_run_refines [OF store_rel_new] by blast

definition sample_identity :: CodexCompactionIdentity where
  "sample_identity = \<lparr>sessionFingerprint = ''s'', providerId = ''openai-codex'', api = ''a'', baseUrl = ''u'',
     modelId = ''m'', authenticationBinding = \<lparr>bindingKind = Credential, fingerprint = ''f''\<rparr>\<rparr>"

definition sample_baseline :: CodexContextUsageBaseline where
  "sample_baseline = \<lparr>totalTokens = Fin 10, inputItemCount = Fin 1, inputDigest = ''d'', instructionsDigest = ''e''\<rparr>"

lemma wf_sample_identity [simp]: "wf_identity sample_identity"
  by (simp add: wf_identity_def sample_identity_def valid_text_def trim_def js_space_def
      hasControlCharacter_def MAX_IDENTITY_FIELD_LENGTH_def)

theorem store_refines_spec_witness:
  "fst (store_run [OpContext ''x'' sample_identity, OpRecord ''x'' sample_identity 0 0 sample_baseline,
      OpInvalidate ''x'', OpContext ''x'' sample_identity] newCompactionStore) =
   [OutSnapshot \<lparr>snapshotGeneration = 0, snapshotBaseline = None\<rparr>, OutBool True, OutUnit,
    OutSnapshot \<lparr>snapshotGeneration = 1, snapshotBaseline = None\<rparr>]"
proof -
  let ?ps = "[OpContext ''x'' sample_identity, OpRecord ''x'' sample_identity 0 0 sample_baseline,
      OpInvalidate ''x'', OpContext ''x'' sample_identity]"
  have "fst (store_run ?ps newCompactionStore) = fst (spec_run ?ps (\<lambda>_. spec_fresh))"
    by (rule store_refines_spec) (simp add: valid_session_def)
  then show ?thesis
    by (simp add: spec_select_def spec_fresh_def spec_accepts_def spec_invalidate_def valid_count_def
        sample_baseline_def isSafeInteger_def MAX_SAFE_INTEGER_def Let_def)
qed

text \<open>
  Staleness. A usage report that carries the generation of an accounting snapshot is refused,
  and changes nothing, once any invalidation or disposal of its session (or of every session)
  has run after the snapshot, whatever other operations ran in between.
\<close>

theorem stale_report_refused:
  assumes "contextAccounting s i st0 = (snap, st1)"
    and "list_ex (ends_session s) ps"
    and "snd (store_run ps st1) = st2"
  shows "recordContextUsage s i (snapshotGeneration snap) r b st2 = (False, st2)"
proof (rule recordContextUsage_stale)
  from assms(1) have "tracked st1 s" "snapshotGeneration snap = generation_of st1 s"
    using context_generation(2) [of s i st0 s] contextAccounting_snapshot [of s i st0]
    by (simp_all add: Let_def)
  with store_run_bumps [of st1 s ps] assms(2,3)
  show "generation_of st2 s \<noteq> snapshotGeneration snap" by simp
qed

theorem stale_report_refused_witness:
  "recordContextUsage ''x'' sample_identity (snapshotGeneration (fst (contextAccounting ''x'' sample_identity newCompactionStore)))
     0 sample_baseline
     (snd (store_run [OpDisposeAll] (snd (contextAccounting ''x'' sample_identity newCompactionStore)))) =
   (False, snd (store_run [OpDisposeAll] (snd (contextAccounting ''x'' sample_identity newCompactionStore))))"
  by (rule stale_report_refused [OF prod.collapse [symmetric] _ refl]) simp

text \<open>
  Isolation. Invalidating one session changes neither the generation nor any accounting entry
  of another session.
\<close>

theorem invalidate_other_session:
  assumes "valid_session s" and "valid_session t" and "s \<noteq> t" and "wf_identity i"
  shows "fst (contextAccounting t i (invalidateContextAccounting s st)) = fst (contextAccounting t i st)"
proof -
  have same: "generation_of (invalidateContextAccounting s st) t = generation_of st t"
    "activeAccountingIdentities (invalidateContextAccounting s st) = activeAccountingIdentities st"
    "accounting (invalidateContextAccounting s st) (accountingKey t i) = accounting st (accountingKey t i)"
    using assms acct.lookup_delete_prefix [of t s i] generation_of_bumped(1) [of s st t]
    by (simp_all add: invalidateContextAccounting_def)
  show ?thesis unfolding contextAccounting_reads [OF assms(2,4)] same ..
qed

theorem invalidate_other_session_witness:
  "fst (contextAccounting ''y'' sample_identity (invalidateContextAccounting ''x'' newCompactionStore)) =
     \<lparr>snapshotGeneration = 0, snapshotBaseline = None\<rparr>"
proof -
  have "fst (contextAccounting ''y'' sample_identity (invalidateContextAccounting ''x'' newCompactionStore)) =
      fst (contextAccounting ''y'' sample_identity newCompactionStore)"
    by (rule invalidate_other_session) (simp_all add: valid_session_def)
  then show ?thesis
    by (simp add: contextAccounting_def newCompactionStore_def generation_of_def Let_def)
qed

end
