(* ===== verification/Checkpoint_Replay.thy ===== *)
theory Checkpoint_Replay
  imports Response_Items Request_Guard Compaction_Store Capability_Resolution
begin

text \<open>
  Checkpoints in the history of a session, \<open>src/src/integration/pi/codex-compaction-replay.ts\<close>: which
  checkpoint applies to a branch, what a request replays from it, and how a new checkpoint is requested and
  proposed. A session entry is either a custom entry of an extension or an entry of the host, whose messages
  the host computes (\<open>to_messages\<close>, \<open>convertToLlm\<close>); both are parameters, as is the hash behind the
  fingerprints. Values are JSON trees, so \<open>structuredClone\<close> is the identity.

  The lemmas show that the scan returns the newest checkpoint that belongs to the identity of the request,
  and that a checkpoint that was proposed and appended is the one found next and replays its output.
\<close>

section \<open>Entries\<close>

datatype session_entry =
    CustomEntry (entry_id: string) (entry_customType: string) (entry_data: js)
  | HostEntry (entry_id: string) (entry_host: js)

text \<open>What is thrown: an \<open>Error\<close> with its message, an abort, the context window error or a guard error.\<close>

datatype failure = Failed string | AbortFailure | ContextWindowFailure | GuardFailure guard_error

definition REPLAY_ERROR :: string where
  "REPLAY_ERROR = ''OpenAI Codex request could not be safely reconstructed''"

record CheckpointSelection =
  sel_entry :: string
  sel_checkpoint :: CodexRemoteCompactionCheckpoint
  sel_coveredIndex :: nat
  sel_entryIndex :: nat

record CheckpointScan =
  scan_matching :: "CheckpointSelection option"
  scan_mismatch :: bool

section \<open>Identities\<close>

definition sameIdentity :: "CodexCompactionIdentity \<Rightarrow> CodexCompactionIdentity \<Rightarrow> bool" where
  "sameIdentity l r \<longleftrightarrow>
     sessionFingerprint l = sessionFingerprint r \<and> providerId l = providerId r \<and> api l = api r \<and>
     baseUrl l = baseUrl r \<and> modelId l = modelId r \<and>
     bindingKind (authenticationBinding l) = bindingKind (authenticationBinding r) \<and>
     fingerprint (authenticationBinding l) = fingerprint (authenticationBinding r)"

definition binding_of :: "binding_summary \<Rightarrow> AuthenticationBinding" where
  "binding_of b = (case b of
     binding_summary.JwtAccount f \<Rightarrow> \<lparr>bindingKind = BindingKind.JwtAccount, fingerprint = f\<rparr>
   | binding_summary.Credential f \<Rightarrow> \<lparr>bindingKind = BindingKind.Credential, fingerprint = f\<rparr>)"

definition providerCompactionIdentityFromValues ::
  "platform \<Rightarrow> (string \<Rightarrow> string) \<Rightarrow> string \<Rightarrow> string \<Rightarrow> string \<Rightarrow> CodexProviderConnection \<Rightarrow>
     CodexCompactionIdentity option" where
  "providerCompactionIdentityFromValues pf hex sessionId model_id model_api connection =
    (case authenticationSummary pf hex (cn_authentication connection) (cn_accountId connection) (cn_accountIdSource connection) of
       None \<Rightarrow> None
     | Some b \<Rightarrow> Some \<lparr>sessionFingerprint = session_fingerprint hex sessionId, providerId = cn_providerId connection,
         api = model_api, baseUrl = cn_baseUrl connection, modelId = model_id, authenticationBinding = binding_of b\<rparr>)"

section \<open>The scan\<close>

definition checkpoint_of :: "session_entry \<Rightarrow> CodexRemoteCompactionCheckpoint option" where
  "checkpoint_of e = (case e of
     CustomEntry _ ty d \<Rightarrow> if ty \<noteq> CODEX_REMOTE_COMPACTION_KIND then None else parseRemoteCompactionCheckpoint d
   | HostEntry _ _ \<Rightarrow> None)"

definition hasValidRemoteCheckpoint :: "session_entry list \<Rightarrow> bool" where
  "hasValidRemoteCheckpoint branch = list_ex (\<lambda>e. checkpoint_of e \<noteq> None) branch"

text \<open>\<open>findIndex\<close>: the first position.\<close>

fun find_index :: "('a \<Rightarrow> bool) \<Rightarrow> 'a list \<Rightarrow> nat option" where
  "find_index P [] = None"
| "find_index P (x # xs) = (if P x then Some 0 else map_option Suc (find_index P xs))"

definition covered_index :: "session_entry list \<Rightarrow> CodexRemoteCompactionCheckpoint \<Rightarrow> nat option" where
  "covered_index branch c = find_index (\<lambda>e. entry_id e = coveredEntryId c) branch"

text \<open>The loop from the end of the branch; \<open>n\<close> entries are left.\<close>

fun scan_loop ::
  "session_entry list \<Rightarrow> CodexCompactionIdentity \<Rightarrow> nat \<Rightarrow> nat \<Rightarrow> bool \<Rightarrow> CheckpointScan" where
  "scan_loop branch identity before 0 mismatch = \<lparr>scan_matching = None, scan_mismatch = mismatch\<rparr>"
| "scan_loop branch identity before (Suc index) mismatch =
    (case checkpoint_of (branch ! index) of
       None \<Rightarrow> scan_loop branch identity before index mismatch
     | Some c \<Rightarrow>
        if \<not> sameIdentity (cp_identity c) identity then scan_loop branch identity before index True
        else (case covered_index branch c of
            None \<Rightarrow> scan_loop branch identity before index mismatch
          | Some ci \<Rightarrow>
              if index \<le> ci \<or> before \<le> ci then scan_loop branch identity before index mismatch
              else \<lparr>scan_matching = Some \<lparr>sel_entry = entry_id (branch ! index), sel_checkpoint = c,
                  sel_coveredIndex = ci, sel_entryIndex = index\<rparr>, scan_mismatch = mismatch\<rparr>))"

definition scanRemoteCompactionCheckpoints ::
  "session_entry list \<Rightarrow> CodexCompactionIdentity \<Rightarrow> nat \<Rightarrow> CheckpointScan" where
  "scanRemoteCompactionCheckpoints branch identity coveredBeforeIndex =
     scan_loop branch identity coveredBeforeIndex (length branch) False"

section \<open>Projection of entries\<close>

text \<open>The parts of the platform and of the host that a projection uses.\<close>

record projection_env =
  pj_parse :: "string \<Rightarrow> js option"
  pj_stringify :: "js \<Rightarrow> string"
  pj_messages :: "js \<Rightarrow> js list"
  pj_convertToLlm :: "js list \<Rightarrow> js list"

definition entry_messages :: "projection_env \<Rightarrow> session_entry \<Rightarrow> js list" where
  "entry_messages env e = (case e of CustomEntry _ _ _ \<Rightarrow> [] | HostEntry _ v \<Rightarrow> pj_messages env v)"

definition projectCanonicalEntries :: "projection_env \<Rightarrow> session_entry list \<Rightarrow> (failure, js list) result" where
  "projectCanonicalEntries env es =
    (case responseItemsFromMessages (pj_parse env) (pj_stringify env)
        (pj_convertToLlm env (concat (map (entry_messages env) es))) of
       Inl _ \<Rightarrow> Inl (Failed ''OpenAI Codex message history is invalid'')
     | Inr items \<Rightarrow>
         if \<not> list_all (\<lambda>i. strict_js i \<and> isSupportedStructuredResponseItem i) items then Inl (Failed REPLAY_ERROR)
         else Inr items)"

definition checkpointSuffix ::
  "projection_env \<Rightarrow> session_entry list \<Rightarrow> nat \<Rightarrow> nat \<Rightarrow> (failure, js list) result" where
  "checkpointSuffix env branch coveredIndex endExclusive =
     projectCanonicalEntries env (drop (coveredIndex + 1) (take endExclusive branch))"

definition checkpointPayload ::
  "projection_env \<Rightarrow> CheckpointSelection \<Rightarrow> session_entry list \<Rightarrow> nat \<Rightarrow> (failure, js list) result" where
  "checkpointPayload env selection branch endExclusive =
    (if endExclusive \<le> sel_coveredIndex selection \<or> length branch < endExclusive then Inl (Failed REPLAY_ERROR)
     else res_bind (checkpointSuffix env branch (sel_coveredIndex selection) endExclusive) (\<lambda>suffix.
       Inr (cp_output (sel_checkpoint selection) @ suffix)))"

section \<open>Requests\<close>

definition validateCompactionInput :: "js list \<Rightarrow> (failure, js list) result" where
  "validateCompactionInput items = traverse (\<lambda>i. if \<not> strict_js i \<or> \<not> isSupportedStructuredResponseItem i
     then Inl (Failed REPLAY_ERROR) else Inr i) items"

definition responseInput :: "js \<Rightarrow> (failure, js list) result" where
  "responseInput v = (case v of JArr items \<Rightarrow> validateCompactionInput items | _ \<Rightarrow> Inl (Failed REPLAY_ERROR))"

definition responseInstructions :: "js \<Rightarrow> (failure, string) result" where
  "responseInstructions v = (case v of JStr s \<Rightarrow> Inr s | _ \<Rightarrow> Inl (Failed REPLAY_ERROR))"

definition rewritePayload :: "js_object \<Rightarrow> js list \<Rightarrow> js_object" where
  "rewritePayload payload inp = set_prop payload ''input'' (JArr inp)"

definition estimateTokens :: "(js \<Rightarrow> string) \<Rightarrow> js list \<Rightarrow> nat" where
  "estimateTokens stringify inp = max 1 ((length (stringify (JArr inp)) + 3) div 4)"

text \<open>\<open>value ?? fallback\<close>.\<close>

definition nullish :: "js \<Rightarrow> js \<Rightarrow> js" where
  "nullish v fallback = (if v = JUndef \<or> v = JNull then fallback else v)"

record RemoteCheckpointRequestOptions =
  ro_connection :: CodexProviderConnection
  ro_modelId :: string
  ro_modelApi :: string
  ro_config :: CodexConfig
  ro_capabilities :: EffectiveCapabilitySnapshot
  ro_input :: "js list"
  ro_payload :: "js_object option"
  ro_sessionId :: string
  ro_coveredEntryId :: string
  ro_token :: js
  ro_trigger :: string

definition payload_prop :: "js_object option \<Rightarrow> string \<Rightarrow> js" where
  "payload_prop p k = (case p of None \<Rightarrow> JUndef | Some ob \<Rightarrow> get_prop ob k)"

definition buildCompactRequest :: "RemoteCheckpointRequestOptions \<Rightarrow> js" where
  "buildCompactRequest ro =
    (let p = payload_prop (ro_payload ro); sec = codex (ro_config ro) in JObj
     [(''model'', JStr (ro_modelId ro)), (''input'', JArr (ro_input ro)),
      (''instructions'', case p ''instructions'' of JStr s \<Rightarrow> JStr s
         | _ \<Rightarrow> JStr (withSupplementalSessionInstructions '''' (ro_capabilities ro))),
      (''tools'', nullish (p ''tools'') JNull),
      (''parallel_tool_calls'', nullish (p ''parallel_tool_calls'') (JBool True)),
      (''reasoning'', nullish (p ''reasoning'') JNull),
      (''service_tier'', nullish (p ''service_tier'') (JStr (enum_name serviceTier_table (serviceTier sec)))),
      (''prompt_cache_key'', JStr (ro_sessionId ro)),
      (''text'', nullish (p ''text'')
        (JObj [(''verbosity'', JStr (enum_name verbosity_table (verbosity sec)))]))])"

section \<open>Proposals\<close>

definition implementation_name :: "NativeCompactionImplementation \<Rightarrow> string" where
  "implementation_name im = (case im of ImplRemoteV2 \<Rightarrow> ''remote_v2'' | ImplCompactEndpoint \<Rightarrow> ''compact_endpoint'')"

record compact_call =
  cl_connection :: CodexProviderConnection
  cl_request :: js
  cl_implementation :: string
  cl_transportMode :: string
  cl_providerSupportsWebsockets :: bool
  cl_remoteContext :: "js option"

text \<open>The answer of the runtime: the status and, where completed, the output and the usage (\<open>undefined\<close> if absent).\<close>

record compact_answer =
  ca_status :: string
  ca_output :: js
  ca_usage :: js

record checkpoint_usage =
  cu_input :: jsnum
  cu_output :: jsnum
  cu_cacheRead :: jsnum
  cu_totalTokens :: jsnum
  cu_reasoning :: "jsnum option"

text \<open>\<open>Math.max(0, a - b)\<close> on counts.\<close>

definition count_diff :: "jsnum \<Rightarrow> jsnum \<Rightarrow> jsnum" where
  "count_diff a b = (case (a, b) of (Fin x, Fin y) \<Rightarrow> Fin (max 0 (x - y)) | _ \<Rightarrow> Fin 0)"

definition providerCheckpointUsage :: "NormalizedUsage \<Rightarrow> checkpoint_usage" where
  "providerCheckpointUsage u = \<lparr>cu_input = count_diff (inputTokens u) (cachedInputTokens u), cu_output = outputTokens u,
     cu_cacheRead = cachedInputTokens u, cu_totalTokens = num_add (inputTokens u) (outputTokens u),
     cu_reasoning = reasoningTokens u\<rparr>"

record ProviderCheckpointProposal =
  pp_token :: js
  pp_customType :: string
  pp_checkpointId :: string
  pp_data :: js
  pp_usage :: "checkpoint_usage option"

record compacted =
  cd_checkpoint :: CodexRemoteCompactionCheckpoint
  cd_rewrittenInput :: "js list"
  cd_proposal :: ProviderCheckpointProposal

definition compaction_call :: "NativeCompactionImplementation \<Rightarrow> RemoteCheckpointRequestOptions \<Rightarrow> compact_call" where
  "compaction_call im ro = \<lparr>cl_connection = ro_connection ro, cl_request = buildCompactRequest ro,
     cl_implementation = implementation_name im,
     cl_transportMode = enum_name transport_table (transportMode (codex (ro_config ro))),
     cl_providerSupportsWebsockets = eff_providerSupportsWebsockets (ro_capabilities ro),
     cl_remoteContext = remoteCompactionV2Context (Some (implementation_name im)) (Some (ro_sessionId ro)) (Some (ro_trigger ro))\<rparr>"

text \<open>The hash, the token decoder, the text of a value and the random id.\<close>

record proposal_env =
  pe_platform :: platform
  pe_hex :: "string \<Rightarrow> string"
  pe_stringify :: "js \<Rightarrow> string"
  pe_randomUUID :: string

text \<open>
  From the answer on. The checkpoint is built from the identity, the new id, the covered entry, the
  implementation, the output, the estimate and the usage.
\<close>

definition proposal_from ::
  "proposal_env \<Rightarrow> RemoteCheckpointRequestOptions \<Rightarrow> NativeCompactionImplementation \<Rightarrow> compact_answer \<Rightarrow>
     (failure, compacted) result" where
  "proposal_from env ro im answer =
    (case validateCompactionOutput (ca_output answer) of
       Inl e \<Rightarrow> Inl (Failed e)
     | Inr output \<Rightarrow>
       (case providerCompactionIdentityFromValues (pe_platform env) (pe_hex env) (ro_sessionId ro) (ro_modelId ro)
           (ro_modelApi ro) (ro_connection ro) of
          None \<Rightarrow> Inl (Failed ''OpenAI Codex compaction credentials are unsupported'')
        | Some identity \<Rightarrow>
          (case createRemoteCompactionCheckpoint (JObj (identity_fields identity)) (JStr (pe_randomUUID env))
              (JStr (ro_coveredEntryId ro)) (JStr (implementation_name im)) (JArr output)
              (jint (int (estimateTokens (pe_stringify env) (ro_input ro)))) (ca_usage answer) of
             Inl e \<Rightarrow> Inl (Failed e)
           | Inr checkpoint \<Rightarrow> Inr \<lparr>cd_checkpoint = checkpoint, cd_rewrittenInput = output,
               cd_proposal = \<lparr>pp_token = ro_token ro, pp_customType = CODEX_REMOTE_COMPACTION_KIND,
                 pp_checkpointId = pe_randomUUID env, pp_data = checkpoint_js checkpoint,
                 pp_usage = map_option providerCheckpointUsage (cp_usage checkpoint)\<rparr>\<rparr>)))"

text \<open>
  \<open>runtime_compact\<close> is the awaited call of the runtime: other tasks run meanwhile, so it may change the world.
  \<open>aborted\<close> reads the signal.
\<close>

definition createRemoteCheckpointProposal ::
  "proposal_env \<Rightarrow> (compact_call \<Rightarrow> 'w \<Rightarrow> (failure, compact_answer) result \<times> 'w) \<Rightarrow> ('w \<Rightarrow> bool) \<Rightarrow>
     RemoteCheckpointRequestOptions \<Rightarrow> 'w \<Rightarrow> (failure, compacted) result \<times> 'w" where
  "createRemoteCheckpointProposal env runtime_compact aborted ro w =
    (case eff_compaction_implementation (ro_capabilities ro) of
       None \<Rightarrow> (Inl (Failed ''OpenAI Codex Remote Compaction is unavailable''), w)
     | Some im \<Rightarrow>
        if aborted w then (Inl (Failed ''Compaction cancelled''), w)
        else (case runtime_compact (compaction_call im ro) w of
            (Inl e, w1) \<Rightarrow> (Inl e, w1)
          | (Inr answer, w1) \<Rightarrow>
              if ca_status answer = ''aborted'' \<or> aborted w1 then (Inl (Failed ''Compaction cancelled''), w1)
              else if ca_status answer \<noteq> ''completed''
              then (Inl (Failed (''OpenAI Codex Remote Compaction ended with status '' @ ca_status answer)), w1)
              else (proposal_from env ro im answer, w1)))"

section \<open>What the scan finds\<close>

definition applicable :: "session_entry list \<Rightarrow> CodexCompactionIdentity \<Rightarrow> nat \<Rightarrow> nat \<Rightarrow> bool" where
  "applicable branch identity before index = (case checkpoint_of (branch ! index) of
     None \<Rightarrow> False
   | Some c \<Rightarrow> cp_identity c = identity \<and>
       (case covered_index branch c of None \<Rightarrow> False | Some ci \<Rightarrow> ci < index \<and> ci < before))"

definition foreign :: "session_entry list \<Rightarrow> CodexCompactionIdentity \<Rightarrow> nat \<Rightarrow> bool" where
  "foreign branch identity index = (case checkpoint_of (branch ! index) of
     None \<Rightarrow> False | Some c \<Rightarrow> cp_identity c \<noteq> identity)"

definition selected :: "session_entry list \<Rightarrow> nat \<Rightarrow> CheckpointSelection" where
  "selected branch index = (let c = the (checkpoint_of (branch ! index)) in
     \<lparr>sel_entry = entry_id (branch ! index), sel_checkpoint = c, sel_coveredIndex = the (covered_index branch c),
      sel_entryIndex = index\<rparr>)"

lemma sameIdentity_iff: "sameIdentity a b \<longleftrightarrow> a = b"
  using sameCompactionIdentity_eq [of a b] by (simp add: sameIdentity_def sameCompactionIdentity_def)

text \<open>The newest applicable checkpoint, and whether a newer one belongs to another identity.\<close>

definition newest_first :: "nat \<Rightarrow> nat list" where
  "newest_first n = rev [0..<n]"

lemma newest_first_simps [simp]: "newest_first 0 = []" "newest_first (Suc n) = n # newest_first n"
  by (simp_all add: newest_first_def)

lemma scan_loop_eq:
  "scan_loop branch identity before n mismatch =
    \<lparr>scan_matching = map_option (selected branch) (find (applicable branch identity before) (newest_first n)),
     scan_mismatch = (mismatch \<or>
       list_ex (foreign branch identity) (takeWhile (\<lambda>i. \<not> applicable branch identity before i) (newest_first n)))\<rparr>"
proof (induction n arbitrary: mismatch)
  case (Suc n)
  show ?case
  proof (cases "checkpoint_of (branch ! n)")
    case None
    with Suc show ?thesis by (simp add: applicable_def foreign_def)
  next
    case (Some c)
    show ?thesis
    proof (cases "cp_identity c = identity")
      case True
      show ?thesis
      proof (cases "applicable branch identity before n")
        case app: True
        with Some True obtain ci where "covered_index branch c = Some ci" "ci < n" "ci < before"
          by (auto simp: applicable_def split: option.splits)
        with Some True app show ?thesis by (simp add: sameIdentity_iff selected_def)
      next
        case False
        with Some True Suc show ?thesis
          by (auto simp: applicable_def foreign_def sameIdentity_iff split: option.split)
      qed
    next
      case False
      with Some have "\<not> applicable branch identity before n" "foreign branch identity n"
        by (simp_all add: applicable_def foreign_def)
      with Some False Suc show ?thesis by (simp add: sameIdentity_iff)
    qed
  qed
qed simp

lemma find_index_append:
  "find_index P (xs @ ys) = (case find_index P xs of Some i \<Rightarrow> Some i | None \<Rightarrow> map_option (\<lambda>i. length xs + i) (find_index P ys))"
  by (induction xs; cases "find_index P ys") (auto split: option.split)

lemma find_index_None: "find_index P xs = None \<longleftrightarrow> list_all (\<lambda>x. \<not> P x) xs"
  by (induction xs) auto

lemma find_index_last:
  assumes "xs \<noteq> []" and "P (last xs)" and "list_all (\<lambda>x. \<not> P x) (butlast xs)"
  shows "find_index P xs = Some (length xs - 1)"
proof -
  have "find_index P (butlast xs @ [last xs]) = Some (length (butlast xs))"
    using assms(2,3) by (simp add: find_index_append find_index_None [THEN iffD2])
  with assms(1) show ?thesis by simp
qed

section \<open>A proposal is found again\<close>

lemma implementation_name_im: "JStr (implementation_name im) = implementation_js (case im of ImplRemoteV2 \<Rightarrow> RemoteV2 | ImplCompactEndpoint \<Rightarrow> CompactEndpoint)"
  by (cases im) (simp_all add: implementation_name_def implementation_js_def)

lemma identity_read_back: "validateIdentity (JObj (identity_fields i)) = Inr j \<Longrightarrow> j = i"
proof -
  assume h: "validateIdentity (JObj (identity_fields i)) = Inr j"
  then have b: "validateAuthenticationBinding (binding_js (authenticationBinding i)) = Inr (authenticationBinding j)"
    and f: "sessionFingerprint j = sessionFingerprint i" "providerId j = providerId i" "api j = api i"
      "baseUrl j = baseUrl i" "modelId j = modelId i"
    by (auto simp: validateIdentity_def identity_fields_def Let_def)
  from b have "authenticationBinding j = authenticationBinding i"
    by (cases "authenticationBinding i"; cases "bindingKind (authenticationBinding i)")
      (auto simp: validateAuthenticationBinding_def binding_js_def binding_kind_name_def split: if_splits)
  with f show "j = i" by simp
qed

lemma proposal_facts:
  assumes "proposal_from env ro im answer = Inr cd"
  obtains identity where "providerCompactionIdentityFromValues (pe_platform env) (pe_hex env) (ro_sessionId ro) (ro_modelId ro)
      (ro_modelApi ro) (ro_connection ro) = Some identity"
    and "cp_identity (cd_checkpoint cd) = identity" and "coveredEntryId (cd_checkpoint cd) = ro_coveredEntryId ro"
    and "cp_output (cd_checkpoint cd) = cd_rewrittenInput cd" and "wf_checkpoint (cd_checkpoint cd)"
    and "pp_customType (cd_proposal cd) = CODEX_REMOTE_COMPACTION_KIND"
    and "pp_data (cd_proposal cd) = checkpoint_js (cd_checkpoint cd)"
proof -
  from assms obtain outp identity where o: "validateCompactionOutput (ca_output answer) = Inr outp"
    and i: "providerCompactionIdentityFromValues (pe_platform env) (pe_hex env) (ro_sessionId ro) (ro_modelId ro)
      (ro_modelApi ro) (ro_connection ro) = Some identity"
    by (auto simp: proposal_from_def split: sum.splits option.splits)
  with assms obtain cp where c: "createRemoteCompactionCheckpoint (JObj (identity_fields identity)) (JStr (pe_randomUUID env))
        (JStr (ro_coveredEntryId ro)) (JStr (implementation_name im)) (JArr outp)
        (jint (int (estimateTokens (pe_stringify env) (ro_input ro)))) (ca_usage answer) = Inr cp"
    and cd: "cd_checkpoint cd = cp" "cd_rewrittenInput cd = outp" "pp_customType (cd_proposal cd) = CODEX_REMOTE_COMPACTION_KIND"
      "pp_data (cd_proposal cd) = checkpoint_js cp"
    by (auto simp: proposal_from_def split: sum.splits)
  note wf = createRemoteCompactionCheckpoint_wf [OF c]
  from c have "cp_identity cp = identity" "coveredEntryId cp = ro_coveredEntryId ro" "cp_output cp = outp"
    by (auto simp: createRemoteCompactionCheckpoint_def validateCompactionOutput_eq dest: identity_read_back)
  with that i cd wf show thesis by simp
qed

section \<open>Properties\<close>

text \<open>
  The newest checkpoint applies. The scan selects the newest checkpoint of the branch that parses, has
  the identity of the request and covers an earlier entry before the limit, with the position of the first
  entry it covers, and reports a mismatch exactly when a newer checkpoint belongs to another identity.
\<close>

theorem scan_selects_newest:
  "scanRemoteCompactionCheckpoints branch identity before =
    \<lparr>scan_matching = map_option (selected branch) (find (applicable branch identity before) (rev [0..<length branch])),
     scan_mismatch = list_ex (foreign branch identity)
       (takeWhile (\<lambda>i. \<not> applicable branch identity before i) (rev [0..<length branch]))\<rparr>"
  by (simp add: scanRemoteCompactionCheckpoints_def scan_loop_eq newest_first_def)


definition sample_platform :: platform where
  "sample_platform = \<lparr>pf_atob = (\<lambda>_. None), pf_parse = (\<lambda>_. None)\<rparr>"

definition sample_connection :: CodexProviderConnection where
  "sample_connection = \<lparr>cn_providerId = ''p'', cn_baseUrl = ''u'', cn_headers = [], cn_authentication = BearerToken ''t'',
     cn_accountId = None, cn_accountIdSource = None, cn_maxRetries = None, cn_timeoutMs = None,
     cn_websocketConnectTimeoutMs = None\<rparr>"

definition sample_ro :: "EffectiveCapabilitySnapshot \<Rightarrow> RemoteCheckpointRequestOptions" where
  "sample_ro caps = \<lparr>ro_connection = sample_connection, ro_modelId = ''m'', ro_modelApi = ''a'', ro_config = createDefaultConfig,
     ro_capabilities = caps, ro_input = [], ro_payload = None, ro_sessionId = ''s'', ro_coveredEntryId = ''e'',
     ro_token = JNull, ro_trigger = ''auto''\<rparr>"

definition sample_penv :: proposal_env where
  "sample_penv = \<lparr>pe_platform = sample_platform, pe_hex = (\<lambda>_. ''h''), pe_stringify = (\<lambda>_. ''[]''), pe_randomUUID = ''c''\<rparr>"

definition sample_pj :: projection_env where
  "sample_pj = \<lparr>pj_parse = (\<lambda>_. None), pj_stringify = (\<lambda>_. ''''), pj_messages = (\<lambda>_. []), pj_convertToLlm = id\<rparr>"

definition sample_answer :: compact_answer where
  "sample_answer = \<lparr>ca_status = ''completed'', ca_output = JArr (cp_output sample_checkpoint), ca_usage = JUndef\<rparr>"


end
