(* ===== verification/Async_Steps.thy ===== *)
theory Async_Steps
  imports Js_Prelude
begin

text \<open>
  Asynchronous handlers as state-passing steps. A step takes the shared state of the process to a result and
  the state after it; a thrown exception is the left result and keeps the effects up to that moment. An
  \<open>await\<close> is an argument of this type: while it is pending other tasks run, so it may change the state in
  any way, within the contract that a theorem states for it.

  The lemmas give the closure of invariants under sequencing, exceptions and \<open>finally\<close>, and the inversion
  of a run that returned.
\<close>

type_synonym ('w, 'e, 'a) step = "'w \<Rightarrow> ('e, 'a) result \<times> 'w"

definition st_return :: "'a \<Rightarrow> ('w, 'e, 'a) step" where
  "st_return a w = (Inr a, w)"

definition st_throw :: "'e \<Rightarrow> ('w, 'e, 'a) step" where
  "st_throw e w = (Inl e, w)"

definition st_bind :: "('w, 'e, 'a) step \<Rightarrow> ('a \<Rightarrow> ('w, 'e, 'b) step) \<Rightarrow> ('w, 'e, 'b) step" where
  "st_bind m f w = (case m w of (Inl e, w1) \<Rightarrow> (Inl e, w1) | (Inr a, w1) \<Rightarrow> f a w1)"

definition st_lift :: "('e, 'a) result \<Rightarrow> ('w, 'e, 'a) step" where
  "st_lift r w = (r, w)"

text \<open>Reading the state, and a synchronous operation on it.\<close>

definition st_read :: "('w \<Rightarrow> 'a) \<Rightarrow> ('w, 'e, 'a) step" where
  "st_read f w = (Inr (f w), w)"

definition st_modify :: "('w \<Rightarrow> 'w) \<Rightarrow> ('w, 'e, unit) step" where
  "st_modify f w = (Inr (), f w)"

definition st_check :: "bool \<Rightarrow> 'e \<Rightarrow> ('w, 'e, unit) step" where
  "st_check b e w = (if b then Inr () else Inl e, w)"

text \<open>\<open>try m catch (e) h e\<close>.\<close>

definition st_catch :: "('w, 'e, 'a) step \<Rightarrow> ('e \<Rightarrow> ('w, 'e, 'a) step) \<Rightarrow> ('w, 'e, 'a) step" where
  "st_catch m h w = (case m w of (Inl e, w1) \<Rightarrow> h e w1 | (Inr a, w1) \<Rightarrow> (Inr a, w1))"

text \<open>\<open>try m finally f\<close>, where \<open>f\<close> does not throw.\<close>

definition st_finally :: "('w, 'e, 'a) step \<Rightarrow> ('w \<Rightarrow> 'w) \<Rightarrow> ('w, 'e, 'a) step" where
  "st_finally m f w = (case m w of (r, w1) \<Rightarrow> (r, f w1))"

lemmas step_defs = st_return_def st_throw_def st_lift_def st_read_def st_modify_def st_check_def

lemma st_bind_Inr: "st_bind m f w = (Inr b, w') \<longleftrightarrow> (\<exists>a w1. m w = (Inr a, w1) \<and> f a w1 = (Inr b, w'))"
  by (cases "m w") (auto simp: st_bind_def split: sum.split)

lemma st_bind_simps [simp]:
  "st_bind (st_return a) f = f a" "st_bind (st_throw e) f = st_throw e"
  "st_bind (st_read g) f w = f (g w) w" "st_bind (st_modify h) f w = f () (h w)"
  "st_bind (st_check b e) f w = (if b then f () w else (Inl e, w))"
  by (simp_all add: st_bind_def step_defs fun_eq_iff)

lemma st_bind_read: "st_bind (st_read g) f w = f (g w) w"
  by (simp add: st_bind_def step_defs)

lemma st_bind_lift [simp]: "st_bind (st_lift r) f w = (case r of Inl e \<Rightarrow> (Inl e, w) | Inr a \<Rightarrow> f a w)"
  by (simp add: st_bind_def step_defs split: sum.split)

section \<open>Invariants\<close>

text \<open>The step keeps a property of the state, however it ends.\<close>

definition preserves :: "('w \<Rightarrow> bool) \<Rightarrow> ('w, 'e, 'a) step \<Rightarrow> bool" where
  "preserves P m \<longleftrightarrow> (\<forall>w. P w \<longrightarrow> P (snd (m w)))"

lemma preservesD: "preserves P m \<Longrightarrow> P w \<Longrightarrow> P (snd (m w))"
  by (simp add: preserves_def)

named_theorems preserves_rules

lemma preserves_basic [preserves_rules]:
  "preserves P (st_return a)" "preserves P (st_throw e)" "preserves P (st_lift r)" "preserves P (st_read f)"
  "preserves P (st_check b e)"
  by (simp_all add: preserves_def step_defs)

lemma preserves_modify: "(\<And>w. P w \<Longrightarrow> P (h w)) \<Longrightarrow> preserves P (st_modify h)"
  by (simp add: preserves_def step_defs)

lemma preserves_bind [preserves_rules]:
  assumes "preserves P m" and "\<And>a. preserves P (f a)"
  shows "preserves P (st_bind m f)"
proof -
  have "P (snd (st_bind m f w))" if "P w" for w
    using preservesD [OF assms(1) that] preservesD [OF assms(2)]
    by (cases "m w"; cases "fst (m w)") (auto simp: st_bind_def)
  then show ?thesis by (simp add: preserves_def)
qed

lemma preserves_catch [preserves_rules]:
  assumes "preserves P m" and "\<And>e. preserves P (h e)"
  shows "preserves P (st_catch m h)"
proof -
  have "P (snd (st_catch m h w))" if "P w" for w
    using preservesD [OF assms(1) that] preservesD [OF assms(2)]
    by (cases "m w"; cases "fst (m w)") (auto simp: st_catch_def)
  then show ?thesis by (simp add: preserves_def)
qed

lemma catch_state: "P (snd (m w)) \<Longrightarrow> (\<And>e. preserves P (h e)) \<Longrightarrow> P (snd (st_catch m h w))"
  by (cases "m w"; cases "fst (m w)") (auto simp: st_catch_def preserves_def)

lemma preserves_if [preserves_rules]: "preserves P m \<Longrightarrow> preserves P m' \<Longrightarrow> preserves P (if b then m else m')"
  by simp

lemma preserves_option [preserves_rules]:
  "preserves P m \<Longrightarrow> (\<And>a. preserves P (f a)) \<Longrightarrow> preserves P (case x of None \<Rightarrow> m | Some a \<Rightarrow> f a)"
  by (cases x) auto

text \<open>A \<open>finally\<close> block establishes its property whatever the body did and however it ended.\<close>

lemma preserves_finally: "(\<And>w. P (f w)) \<Longrightarrow> preserves P (st_finally m f)"
  by (auto simp: preserves_def st_finally_def split: prod.split)

section \<open>Results\<close>

lemma st_finally_Inr: "st_finally m f w = (Inr a, w') \<longleftrightarrow> (\<exists>w1. m w = (Inr a, w1) \<and> w' = f w1)"
  by (cases "m w") (auto simp: st_finally_def)

lemma st_catch_Inr:
  "st_catch m h w = (Inr a, w') \<longleftrightarrow> m w = (Inr a, w') \<or> (\<exists>e w1. m w = (Inl e, w1) \<and> h e w1 = (Inr a, w'))"
  by (cases "m w"; cases "fst (m w)") (auto simp: st_catch_def)

lemma step_Inr [simp]:
  "st_return a w = (Inr b, w') \<longleftrightarrow> b = a \<and> w' = w" "st_throw e w = (Inr b, w') \<longleftrightarrow> False"
  "st_lift r w = (Inr b, w') \<longleftrightarrow> r = Inr b \<and> w' = w" "st_read f w = (Inr b, w') \<longleftrightarrow> b = f w \<and> w' = w"
  by (auto simp: step_defs)

text \<open>Whenever the step returns, the result and the state after it satisfy the property.\<close>

definition ensures :: "('a \<Rightarrow> 'w \<Rightarrow> bool) \<Rightarrow> ('w, 'e, 'a) step \<Rightarrow> bool" where
  "ensures Q m \<longleftrightarrow> (\<forall>w a w'. m w = (Inr a, w') \<longrightarrow> Q a w')"

lemma ensuresD: "ensures Q m \<Longrightarrow> m w = (Inr a, w') \<Longrightarrow> Q a w'"
  by (auto simp: ensures_def)

named_theorems ensures_rules

lemma ensures_bind [ensures_rules]:
  "(\<And>w a w1. m w = (Inr a, w1) \<Longrightarrow> ensures Q (f a)) \<Longrightarrow> ensures Q (st_bind m f)"
  by (auto simp: ensures_def st_bind_Inr)

lemma ensures_throw [ensures_rules]: "ensures Q (st_throw e)"
  by (simp add: ensures_def)

lemma ensures_if [ensures_rules]: "(b \<Longrightarrow> ensures Q m) \<Longrightarrow> (\<not> b \<Longrightarrow> ensures Q m') \<Longrightarrow> ensures Q (if b then m else m')"
  by simp

lemma ensures_option [ensures_rules]:
  "(x = None \<Longrightarrow> ensures Q m) \<Longrightarrow> (\<And>a. x = Some a \<Longrightarrow> ensures Q (f a)) \<Longrightarrow> ensures Q (case x of None \<Rightarrow> m | Some a \<Rightarrow> f a)"
  by (cases x) auto

lemma ensures_finally [ensures_rules]: "ensures (\<lambda>a w. Q a (f w)) m \<Longrightarrow> ensures Q (st_finally m f)"
  by (auto simp: ensures_def st_finally_Inr)

lemma ensures_catch [ensures_rules]:
  "ensures Q m \<Longrightarrow> (\<And>e. ensures Q (h e)) \<Longrightarrow> ensures Q (st_catch m h)"
  by (auto simp: ensures_def st_catch_Inr)

section \<open>Pre- and postconditions\<close>

text \<open>From a state with the first property the step returns with the second or throws with the third.\<close>

definition triple ::
  "('w \<Rightarrow> bool) \<Rightarrow> ('w, 'e, 'a) step \<Rightarrow> ('a \<Rightarrow> 'w \<Rightarrow> bool) \<Rightarrow> ('e \<Rightarrow> 'w \<Rightarrow> bool) \<Rightarrow> bool" where
  "triple P m Q E \<longleftrightarrow> (\<forall>w. P w \<longrightarrow> (case m w of (Inr a, w') \<Rightarrow> Q a w' | (Inl e, w') \<Rightarrow> E e w'))"

lemma tripleD: "triple P m Q E \<Longrightarrow> P w \<Longrightarrow> m w = (Inr a, w') \<Longrightarrow> Q a w'" "triple P m Q E \<Longrightarrow> P w \<Longrightarrow> m w = (Inl e, w') \<Longrightarrow> E e w'"
  by (auto simp: triple_def split: prod.splits sum.splits)

lemma triple_returns:
  assumes "triple P m Q (\<lambda>_ _. False)" and "P w"
  obtains a w' where "m w = (Inr a, w')" "Q a w'"
  using assms by (cases "m w"; cases "fst (m w)") (auto simp: triple_def)

lemma triple_bind: "triple P m Q E \<Longrightarrow> (\<And>a. triple (Q a) (f a) R E) \<Longrightarrow> triple P (st_bind m f) R E"
  unfolding triple_def st_bind_def by (fastforce split: prod.splits sum.splits)

lemma triple_catch: "triple P m Q X \<Longrightarrow> (\<And>e. triple (X e) (h e) Q E) \<Longrightarrow> triple P (st_catch m h) Q E"
  unfolding triple_def st_catch_def by (fastforce split: prod.splits sum.splits)

lemma triple_finally: "triple P m (\<lambda>a w. Q a (f w)) (\<lambda>e w. E e (f w)) \<Longrightarrow> triple P (st_finally m f) Q E"
  unfolding triple_def st_finally_def by (fastforce split: prod.splits sum.splits)

lemma triple_preserves: "preserves P m \<Longrightarrow> triple P m (\<lambda>_. P) (\<lambda>_. P)"
  unfolding triple_def preserves_def by (metis (mono_tags, lifting) case_prod_beta old.sum.exhaust snd_conv sum.simps(5) sum.simps(6))

lemma triple_conseq:
  "triple P m Q E \<Longrightarrow> (\<And>w. P' w \<Longrightarrow> P w) \<Longrightarrow> (\<And>a w. Q a w \<Longrightarrow> Q' a w) \<Longrightarrow> (\<And>e w. E e w \<Longrightarrow> E' e w) \<Longrightarrow> triple P' m Q' E'"
  unfolding triple_def by (fastforce split: prod.splits sum.splits)

lemma triple_bind_preserves: "preserves P m \<Longrightarrow> (\<And>a. triple P (f a) R (\<lambda>_. P)) \<Longrightarrow> triple P (st_bind m f) R (\<lambda>_. P)"
  by (rule triple_bind [OF triple_preserves])

end
