(* ===== verification/Payload_Handler.thy ===== *)
theory Payload_Handler
  imports Checkpoint_Replay Async_Steps Tool_Profile
begin

text \<open>
  What happens to a provider payload before it is sent: the handler \<open>handleBeforeProviderPayload\<close> of
  \<open>src/src/integration/pi/codex-compaction-replay.ts\<close> and the usage boundary it maintains, with the status
  line of \<open>codex-compaction-ui.ts\<close>. The handler composes the request guard, the compaction store, the
  coordinator, the tool profile and the scan of the branch. They are the fields of one world, and the awaited
  calls (configuration, capabilities, context estimate, compaction) may change that world in any way.

  The lemmas show that a payload the handler lets through was approved by the guard and is accounted for
  exactly as it is, and that the coordinator is released on every path.
\<close>

section \<open>The status line\<close>

datatype notice_level = NoticeInfo | NoticeWarning | NoticeError

record compaction_ui =
  ui_status :: "string option"
  ui_notices :: "(string \<times> notice_level) list"

datatype CodexInlineCompactionPhase = PhaseThreshold | PhaseRecompact

datatype CodexInlineCompactionOutcome = OutcomeError | OutcomeCancel | OutcomeIndeterminate

datatype CodexCompactionCompletionTrigger = TriggerInline | TriggerManual | TriggerThreshold | TriggerOverflow

definition phase_label :: "CodexInlineCompactionPhase \<Rightarrow> string" where
  "phase_label p = (case p of PhaseThreshold \<Rightarrow> ''Codex compaction'' | PhaseRecompact \<Rightarrow> ''Codex re-compaction'')"

definition ui_setStatus :: "string option \<Rightarrow> compaction_ui \<Rightarrow> compaction_ui" where
  "ui_setStatus t ui = ui\<lparr>ui_status := t\<rparr>"

definition ui_notify :: "string \<Rightarrow> notice_level \<Rightarrow> compaction_ui \<Rightarrow> compaction_ui" where
  "ui_notify t l ui = ui\<lparr>ui_notices := ui_notices ui @ [(t, l)]\<rparr>"

definition beginInline :: "CodexInlineCompactionPhase \<Rightarrow> compaction_ui \<Rightarrow> compaction_ui" where
  "beginInline p = ui_setStatus (Some (phase_label p @ '': creating checkpoint''))"

definition clearInline :: "compaction_ui \<Rightarrow> compaction_ui" where
  "clearInline = ui_setStatus None"

text \<open>\<open>toLocaleString("en-US")\<close> of a natural number: groups of three digits.\<close>

fun group_digits :: "string \<Rightarrow> string" where
  "group_digits s = (if length s \<le> 3 then s
     else group_digits (take (length s - 3) s) @ '','' @ drop (length s - 3) s)"

declare group_digits.simps [simp del]

text \<open>\<open>toExponential(3)\<close> of a natural number of at least four digits, rounded half up.\<close>

definition exponential3 :: "nat \<Rightarrow> string" where
  "exponential3 n =
    (let e = length (digits_of n) - 1;
         m = (n + 5 * 10 ^ (e - 4)) div 10 ^ (e - 3);
         (m', e') = (if 10000 \<le> m then (m div 10, e + 1) else (m, e));
         ds = digits_of m'
     in take 1 ds @ ''.'' @ drop 1 ds @ ''e+'' @ digits_of e')"

definition formatTokenCount :: "jsnum \<Rightarrow> string option" where
  "formatTokenCount v = (case v of
     Fin q \<Rightarrow>
       if q < 0 then None
       else (let rounded = nat \<lfloor>q + 1 / 2\<rfloor>; formatted = group_digits (digits_of rounded)
             in Some (if length formatted \<le> 24 then formatted else exponential3 rounded))
   | _ \<Rightarrow> None)"

definition completeInline :: "jsnum \<Rightarrow> CodexCompactionCompletionTrigger \<Rightarrow> compaction_ui \<Rightarrow> compaction_ui" where
  "completeInline tokens_before trigger ui =
    (let ui1 = clearInline ui in
     if trigger \<noteq> TriggerInline then ui1
     else ui_notify (case formatTokenCount tokens_before of
         None \<Rightarrow> ''Codex checkpoint saved''
       | Some t \<Rightarrow> ''Codex checkpoint saved ('' @ t @ '' tokens before compaction)'') NoticeInfo ui1)"

definition failInlineForTrigger ::
  "CodexInlineCompactionOutcome \<Rightarrow> CodexCompactionCompletionTrigger \<Rightarrow> compaction_ui \<Rightarrow> compaction_ui" where
  "failInlineForTrigger outcome trigger ui =
    (let ui1 = clearInline ui in
     if trigger \<noteq> TriggerInline then ui1
     else (case outcome of
         OutcomeCancel \<Rightarrow> ui_notify ''Codex compaction cancelled'' NoticeWarning ui1
       | OutcomeError \<Rightarrow> ui_notify ''Codex checkpoint failed'' NoticeError ui1
       | OutcomeIndeterminate \<Rightarrow> ui_notify ''Codex checkpoint outcome could not be verified'' NoticeWarning ui1))"

definition failInline :: "CodexInlineCompactionOutcome \<Rightarrow> compaction_ui \<Rightarrow> compaction_ui" where
  "failInline outcome = failInlineForTrigger outcome TriggerInline"

section \<open>The world\<close>

record request_accounting =
  ra_generation :: nat
  ra_identity :: CodexCompactionIdentity
  ra_inputItemCount :: nat
  ra_inputDigest :: string
  ra_instructionsDigest :: string

text \<open>
  \<open>rw_accounting\<close> is the field \<open>contextAccounting\<close> of the request records. \<open>rw_boundary\<close> lists the arguments of
  the calls of the host's boundary setter.
\<close>

record 'h replay_world =
  rw_guard :: CodexProviderRequestGuard
  rw_store :: CodexCompactionStore
  rw_coordinator :: CodexCompactionCoordinator
  rw_profile :: "'h CodexToolProfile"
  rw_accounting :: "nat \<rightharpoonup> request_accounting"
  rw_branch :: "session_entry list"
  rw_leaf :: "string option"
  rw_boundary :: "string option list"
  rw_ui :: compaction_ui

type_synonym ('h, 'a) handler = "('h replay_world, failure, 'a) step"

record context_estimate =
  es_activeContextTokens :: jsnum
  es_fullEstimatedTokens :: jsnum
  es_autoCompactTokenLimit :: "jsnum option"
  es_contextWindow :: jsnum

record estimate_call =
  ec_model :: string
  ec_instructions :: string
  ec_input :: "js list"
  ec_baseline :: "(jsnum \<times> jsnum) option"

text \<open>
  The surroundings of a call. \<open>sv_connection\<close> is the typed view of the connection stored in a record,
  \<open>sv_setter\<close> whether the host has the boundary setter, and \<open>sv_load\<close>, \<open>sv_resolve\<close>, \<open>sv_estimate\<close> and
  \<open>sv_compact\<close> are the awaited calls.
\<close>

record 'h services =
  sv_sha :: "js \<Rightarrow> string"
  sv_proposal :: proposal_env
  sv_projection :: projection_env
  sv_profileEnv :: "'h profile_env"
  sv_active :: "ProviderActivationModel option \<Rightarrow> bool"
  sv_setter :: bool
  sv_connection :: "nat \<Rightarrow> CodexProviderConnection"
  sv_load :: "('h, CodexConfig) handler"
  sv_resolve :: "ResolveEffectiveCapabilitiesInput \<Rightarrow> ('h, EffectiveCapabilitySnapshot) handler"
  sv_estimate :: "(estimate_call \<Rightarrow> ('h, context_estimate) handler) option"
  sv_compact :: "compact_call \<Rightarrow> ('h, compact_answer) handler"

record payload_event =
  ev_payload :: js
  ev_sessionId :: string
  ev_sameSignal :: bool
  ev_origin :: string
  ev_token :: "js option"

record model_reference =
  mr_id :: string
  mr_provider :: string
  mr_api :: string

record context_reference =
  cx_sessionId :: string
  cx_model :: "model_reference option"

section \<open>Operations on the world\<close>

definition guard_call ::
  "(CodexProviderRequestGuard \<Rightarrow> (guard_error, 'a) result \<times> CodexProviderRequestGuard) \<Rightarrow> ('h, 'a) handler" where
  "guard_call f w = (case f (rw_guard w) of
     (Inl e, g) \<Rightarrow> (Inl (GuardFailure e), w\<lparr>rw_guard := g\<rparr>) | (Inr a, g) \<Rightarrow> (Inr a, w\<lparr>rw_guard := g\<rparr>))"

definition guard_assert :: "(CodexProviderRequestGuard \<Rightarrow> (guard_error, 'a) result) \<Rightarrow> ('h, 'a) handler" where
  "guard_assert f w = (case f (rw_guard w) of Inl e \<Rightarrow> (Inl (GuardFailure e), w) | Inr a \<Rightarrow> (Inr a, w))"

definition store_call :: "(CodexCompactionStore \<Rightarrow> 'a \<times> CodexCompactionStore) \<Rightarrow> ('h, 'a) handler" where
  "store_call f w = (case f (rw_store w) of (a, s) \<Rightarrow> (Inr a, w\<lparr>rw_store := s\<rparr>))"

definition digest :: "(js \<Rightarrow> string) \<Rightarrow> js \<Rightarrow> ('h, string) handler" where
  "digest sha v = st_lift (case digestJson sha v of Inl e \<Rightarrow> Inl (GuardFailure e) | Inr d \<Rightarrow> Inr d)"

definition ui_call :: "(compaction_ui \<Rightarrow> compaction_ui) \<Rightarrow> ('h, unit) handler" where
  "ui_call f = st_modify (\<lambda>w. w\<lparr>rw_ui := f (rw_ui w)\<rparr>)"

definition record_aborted :: "nat \<Rightarrow> 'h replay_world \<Rightarrow> bool" where
  "record_aborted i w = (case gd_heap (rw_guard w) i of None \<Rightarrow> False | Some rec \<Rightarrow> gr_aborted rec)"

definition IDENTITY_MISMATCH_WARNING :: string where
  "IDENTITY_MISMATCH_WARNING = ''Codex checkpoint identity changed; canonical session history is being used. Start a new session if it does not fit.''"

definition warn_mismatch :: "string \<Rightarrow> CodexCompactionIdentity \<Rightarrow> CheckpointScan \<Rightarrow> ('h, unit) handler" where
  "warn_mismatch sid identity scan =
    (if scan_mismatch scan
     then st_bind (store_call (warnOnce sid identity)) (\<lambda>first.
       if first then ui_call (ui_notify IDENTITY_MISMATCH_WARNING NoticeWarning) else st_return ())
     else st_return ())"

definition warnInactiveIdentity :: "string \<Rightarrow> bool \<Rightarrow> ('h, unit) handler" where
  "warnInactiveIdentity sid hasCheckpoint =
    (if hasCheckpoint
     then st_bind (store_call (warnSessionOnce sid)) (\<lambda>first.
       if first then ui_call (ui_notify IDENTITY_MISMATCH_WARNING NoticeWarning) else st_return ())
     else st_return ())"

definition set_boundary :: "string option \<Rightarrow> ('h, unit) handler" where
  "set_boundary b = st_modify (\<lambda>w. w\<lparr>rw_boundary := rw_boundary w @ [b]\<rparr>)"

text \<open>The boundary of the scan of the branch for an identity; without one the boundary is cleared.\<close>

definition boundary_for :: "string \<Rightarrow> CodexCompactionIdentity option \<Rightarrow> ('h, unit) handler" where
  "boundary_for sid identity = st_bind (st_read rw_branch) (\<lambda>branch.
     case identity of
       None \<Rightarrow> st_bind (set_boundary None) (\<lambda>_. warnInactiveIdentity sid (hasValidRemoteCheckpoint branch))
     | Some i \<Rightarrow>
        (let scan = scanRemoteCompactionCheckpoints branch i (length branch) in
         st_bind (warn_mismatch sid i scan) (\<lambda>_. set_boundary (map_option sel_entry (scan_matching scan)))))"

definition identity_of :: "'h services \<Rightarrow> string \<Rightarrow> string \<Rightarrow> string \<Rightarrow> CodexProviderConnection \<Rightarrow> CodexCompactionIdentity option" where
  "identity_of sv sid mid mapi connection =
     providerCompactionIdentityFromValues (pe_platform (sv_proposal sv)) (pe_hex (sv_proposal sv)) sid mid mapi connection"

definition model_field :: "CodexProviderRequestRecord \<Rightarrow> string \<Rightarrow> string" where
  "model_field rec k = string_or_empty (get_prop (gr_model rec) k)"

definition providerCompactionIdentity ::
  "'h services \<Rightarrow> nat \<Rightarrow> CodexProviderRequestRecord \<Rightarrow> CodexCompactionIdentity option" where
  "providerCompactionIdentity sv i rec =
     identity_of sv (gr_sessionId rec) (model_field rec ''id'') (model_field rec ''api'') (sv_connection sv i)"

definition refreshBoundaryForRequest :: "'h services \<Rightarrow> nat \<Rightarrow> CodexProviderRequestRecord \<Rightarrow> ('h, unit) handler" where
  "refreshBoundaryForRequest sv i rec =
    (if \<not> sv_setter sv then st_return () else boundary_for (gr_sessionId rec) (providerCompactionIdentity sv i rec))"

definition restoreProviderCheckpointUsageBoundary ::
  "'h services \<Rightarrow> context_reference \<Rightarrow> CodexProviderConnection option \<Rightarrow> ('h, unit) handler" where
  "restoreProviderCheckpointUsageBoundary sv cx connection =
    (if \<not> sv_setter sv then st_return ()
     else (case (cx_model cx, connection) of
         (Some m, Some c) \<Rightarrow>
           boundary_for (cx_sessionId cx)
             (if sv_active sv (Some \<lparr>am_provider = mr_provider m, am_api = mr_api m\<rparr>)
              then identity_of sv (cx_sessionId cx) (mr_id m) (mr_api m) c else None)
       | _ \<Rightarrow> boundary_for (cx_sessionId cx) None))"

section \<open>Decisions\<close>

definition num_max :: "jsnum \<Rightarrow> jsnum \<Rightarrow> jsnum" where
  "num_max a b = (if a = NaN \<or> b = NaN then NaN else if num_less a b then b else a)"

text \<open>\<open>Math.min\<close> over numbers that are all positive, so none is NaN.\<close>

definition num_min :: "jsnum \<Rightarrow> jsnum \<Rightarrow> jsnum" where
  "num_min a b = (if num_less b a then b else a)"

definition option_list :: "'a option \<Rightarrow> 'a list" where
  "option_list x = (case x of None \<Rightarrow> [] | Some a \<Rightarrow> [a])"

definition decisionThreshold :: "EffectiveCapabilitySnapshot \<Rightarrow> context_estimate \<Rightarrow> jsnum option" where
  "decisionThreshold snapshot estimate =
    (case filter (num_less (Fin 0)) (option_list (eff_compaction_threshold snapshot) @
        option_list (es_autoCompactTokenLimit estimate) @ [es_contextWindow estimate]) of
       [] \<Rightarrow> None | c # cs \<Rightarrow> Some (fold (\<lambda>a b. num_min b a) cs c))"

definition decisionContextTokens :: "CheckpointSelection option \<Rightarrow> context_estimate \<Rightarrow> jsnum" where
  "decisionContextTokens current estimate = (case current of
     None \<Rightarrow> num_max (es_activeContextTokens estimate) (es_fullEstimatedTokens estimate)
   | Some _ \<Rightarrow> es_activeContextTokens estimate)"

definition compaction_mode :: "CodexConfig \<Rightarrow> CompactionMode" where
  "compaction_mode c = (case compaction (codex c) of CompactionOff \<Rightarrow> ModeOff | CompactionAuto _ \<Rightarrow> ModeAuto)"

text \<open>The stored usage counts only if the new request begins with the input it was measured on.\<close>

definition alignedBaseline ::
  "(js \<Rightarrow> string) \<Rightarrow> CodexContextUsageBaseline option \<Rightarrow> string \<Rightarrow> js list \<Rightarrow> ('h, (jsnum \<times> jsnum) option) handler" where
  "alignedBaseline sha stored instrDigest replayInput = (case stored of
     None \<Rightarrow> st_return None
   | Some b \<Rightarrow>
      if instructionsDigest b \<noteq> instrDigest \<or> \<not> num_le (inputItemCount b) (Fin (of_nat (length replayInput)))
      then st_return None
      else st_bind (digest sha (JArr (take (case inputItemCount b of Fin q \<Rightarrow> nat \<lfloor>q\<rfloor> | _ \<Rightarrow> 0) replayInput))) (\<lambda>d.
        st_return (if d = inputDigest b then Some (totalTokens b, inputItemCount b) else None)))"

definition isCompactionCancellation :: "failure \<Rightarrow> bool" where
  "isCompactionCancellation e \<longleftrightarrow> e = Failed ''Compaction cancelled'' \<or> e = AbortFailure"

section \<open>The handler\<close>

record agent_request =
  aq_generation :: nat
  aq_record :: CodexProviderRequestRecord
  aq_payload :: js_object
  aq_token :: "js option"
  aq_identity :: CodexCompactionIdentity
  aq_current :: "CheckpointSelection option"
  aq_input :: "js list"
  aq_instructionsDigest :: string
  aq_config :: CodexConfig
  aq_snapshot :: EffectiveCapabilitySnapshot

abbreviation aq_session :: "agent_request \<Rightarrow> string" where
  "aq_session aq \<equiv> gr_sessionId (aq_record aq)"

type_synonym payload_result = "js \<times> ProviderCheckpointProposal option"

definition approve_payload :: "'h services \<Rightarrow> nat \<Rightarrow> js \<Rightarrow> ('h, js) handler" where
  "approve_payload sv i rq = guard_call (approve (sv_sha sv) (Some i) i rq)"

text \<open>\<open>record.contextAccounting = ...\<close> and the approval of the payload with this input.\<close>

definition send_input ::
  "'h services \<Rightarrow> agent_request \<Rightarrow> nat \<Rightarrow> js list \<Rightarrow> ProviderCheckpointProposal option \<Rightarrow> ('h, payload_result) handler" where
  "send_input sv aq generation inp proposal =
     st_bind (digest (sv_sha sv) (JArr inp)) (\<lambda>d.
     st_bind (st_modify (\<lambda>w. w\<lparr>rw_accounting := (rw_accounting w)(aq_generation aq \<mapsto>
        \<lparr>ra_generation = generation, ra_identity = aq_identity aq, ra_inputItemCount = length inp, ra_inputDigest = d,
         ra_instructionsDigest = aq_instructionsDigest aq\<rparr>)\<rparr>)) (\<lambda>_.
     st_bind (approve_payload sv (aq_generation aq) (JObj (rewritePayload (aq_payload aq) inp))) (\<lambda>p.
       st_return (p, proposal))))"

definition checkpoint_options :: "'h services \<Rightarrow> agent_request \<Rightarrow> string \<Rightarrow> js \<Rightarrow> RemoteCheckpointRequestOptions" where
  "checkpoint_options sv aq covered token = \<lparr>ro_connection = sv_connection sv (aq_generation aq),
     ro_modelId = model_field (aq_record aq) ''id'', ro_modelApi = model_field (aq_record aq) ''api'',
     ro_config = aq_config aq, ro_capabilities = aq_snapshot aq, ro_input = aq_input aq,
     ro_payload = Some (aq_payload aq), ro_sessionId = aq_session aq, ro_coveredEntryId = covered,
     ro_token = token, ro_trigger = ''auto''\<rparr>"

text \<open>The body of the \<open>try\<close>: the checkpoint is requested, and used only if nothing changed meanwhile.\<close>

definition compact_body :: "'h services \<Rightarrow> agent_request \<Rightarrow> js \<Rightarrow> ('h, payload_result) handler" where
  "compact_body sv aq token = st_bind (st_read rw_leaf) (\<lambda>leaf.
     case leaf of
       None \<Rightarrow> st_throw (Failed REPLAY_ERROR)
     | Some covered \<Rightarrow>
        st_bind (createRemoteCheckpointProposal (sv_proposal sv) (sv_compact sv) (record_aborted (aq_generation aq))
            (checkpoint_options sv aq covered token)) (\<lambda>cd.
        st_bind (guard_assert (assertLive (aq_generation aq))) (\<lambda>_.
        st_bind (st_read (\<lambda>w. rw_leaf w \<noteq> Some covered \<or> record_aborted (aq_generation aq) w)) (\<lambda>stale.
        st_bind (st_check (\<not> stale) (Failed REPLAY_ERROR)) (\<lambda>_.
        st_bind (st_modify (\<lambda>w. w\<lparr>rw_store := invalidateContextAccounting (aq_session aq) (rw_store w)\<rparr>)) (\<lambda>_.
        st_bind (store_call (contextAccounting (aq_session aq) (aq_identity aq))) (\<lambda>acc.
          send_input sv aq (snapshotGeneration acc) (cd_rewrittenInput cd) (Some (cd_proposal cd)))))))))"

definition coordinator_begin :: "string \<Rightarrow> ('h, bool) handler" where
  "coordinator_begin sid w = (case begin_compaction sid (rw_coordinator w) of (b, c) \<Rightarrow> (Inr b, w\<lparr>rw_coordinator := c\<rparr>))"

definition coordinator_end :: "string \<Rightarrow> 'h replay_world \<Rightarrow> 'h replay_world" where
  "coordinator_end sid w = w\<lparr>rw_coordinator := end_compaction sid (rw_coordinator w)\<rparr>"

definition compact_guarded :: "'h services \<Rightarrow> agent_request \<Rightarrow> js \<Rightarrow> ('h, payload_result) handler" where
  "compact_guarded sv aq token = st_catch (compact_body sv aq token) (\<lambda>e.
     st_bind (st_read (record_aborted (aq_generation aq))) (\<lambda>ab.
     st_bind (ui_call (failInline (if ab \<or> isCompactionCancellation e then OutcomeCancel else OutcomeError))) (\<lambda>_.
       st_throw e)))"

definition compact_inline :: "'h services \<Rightarrow> agent_request \<Rightarrow> js \<Rightarrow> ('h, payload_result) handler" where
  "compact_inline sv aq token =
     st_bind (coordinator_begin (aq_session aq)) (\<lambda>begun.
       if \<not> begun then st_throw (Failed REPLAY_ERROR)
       else st_bind (ui_call (beginInline (if aq_current aq = None then PhaseThreshold else PhaseRecompact))) (\<lambda>_.
         st_finally (compact_guarded sv aq token) (coordinator_end (aq_session aq))))"

definition capability_input ::
  "CodexProviderRequestRecord \<Rightarrow> CodexConfig \<Rightarrow> string list \<Rightarrow> ResolveEffectiveCapabilitiesInput" where
  "capability_input rec config hostTools = \<lparr>in_modelId = model_field rec ''id'', in_providerId = model_field rec ''provider'',
     in_modelInputModalities = map string_or_empty (array_or_empty (get_prop (gr_model rec) ''input'')), in_config = config,
     in_contextWindow = (case get_prop (gr_model rec) ''contextWindow'' of JNum n \<Rightarrow> Some n | _ \<Rightarrow> None),
     in_hostToolNames = Some hostTools\<rparr>"

definition decide_payload ::
  "'h services \<Rightarrow> agent_request \<Rightarrow> session_entry list \<Rightarrow> js list \<Rightarrow> nat \<Rightarrow> context_estimate \<Rightarrow> ('h, payload_result) handler" where
  "decide_payload sv aq branch original generation estimate =
    (let tokens = decisionContextTokens (aq_current aq) estimate in
     st_bind (st_lift (case aq_current aq of
         None \<Rightarrow> Inr (original \<noteq> [])
       | Some sel \<Rightarrow> res_bind (checkpointSuffix (sv_projection sv) branch (sel_coveredIndex sel) (length branch)) (\<lambda>s. Inr (s \<noteq> []))))
       (\<lambda>uncheckpointed.
     st_bind (st_read (\<lambda>w. isBusy (aq_session aq) (rw_coordinator w))) (\<lambda>busy.
     let shouldCompact = shouldCreateAutomaticCheckpoint (compaction_mode (aq_config aq)) (Some tokens)
           (decisionThreshold (aq_snapshot aq) estimate) uncheckpointed busy in
     if \<not> shouldCompact
     then (if num_less (Fin 0) (es_contextWindow estimate) \<and> num_le (es_contextWindow estimate) tokens
           then st_throw (Failed REPLAY_ERROR)
           else send_input sv aq generation (aq_input aq) None)
     else (case aq_token aq of
         None \<Rightarrow> st_throw ContextWindowFailure
       | Some token \<Rightarrow> compact_inline sv aq token))))"

definition handle_agent ::
  "'h services \<Rightarrow> nat \<Rightarrow> CodexProviderRequestRecord \<Rightarrow> js_object \<Rightarrow> js option \<Rightarrow> ('h, payload_result) handler" where
  "handle_agent sv i rec payload token =
     st_bind (st_lift (responseInput (get_prop payload ''input''))) (\<lambda>original.
     case providerCompactionIdentity sv i rec of
       None \<Rightarrow> st_throw (Failed REPLAY_ERROR)
     | Some identity \<Rightarrow>
     st_bind (st_read rw_branch) (\<lambda>branch.
     let scan = scanRemoteCompactionCheckpoints branch identity (length branch); current = scan_matching scan in
     st_bind (warn_mismatch (gr_sessionId rec) identity scan) (\<lambda>_.
     st_bind (st_lift (case current of None \<Rightarrow> Inr original
        | Some sel \<Rightarrow> checkpointPayload (sv_projection sv) sel branch (length branch))) (\<lambda>replayInput.
     st_bind (st_lift (responseInstructions (get_prop payload ''instructions''))) (\<lambda>instructions.
     st_bind (digest (sv_sha sv) (JStr instructions)) (\<lambda>instrDigest.
     st_bind (sv_load sv) (\<lambda>config.
     st_bind (st_read (\<lambda>w. registeredManagedTools (sv_profileEnv sv) (rw_profile w))) (\<lambda>hostTools.
     let inp = capability_input rec config hostTools in
     st_bind (st_read (\<lambda>w. isHealthy (pe_stringify (sv_proposal sv) (capabilityCacheKey inp)) (rw_profile w))) (\<lambda>healthy.
     st_bind (st_check healthy (Failed REPLAY_ERROR)) (\<lambda>_.
     st_bind (sv_resolve sv inp) (\<lambda>snapshot.
     st_bind (store_call (contextAccounting (gr_sessionId rec) identity)) (\<lambda>acc.
     st_bind (alignedBaseline (sv_sha sv) (snapshotBaseline acc) instrDigest replayInput) (\<lambda>baseline.
     case sv_estimate sv of
       None \<Rightarrow> st_throw (Failed REPLAY_ERROR)
     | Some estimateContext \<Rightarrow>
     st_bind (estimateContext \<lparr>ec_model = model_field rec ''id'', ec_instructions = instructions, ec_input = replayInput,
        ec_baseline = baseline\<rparr>) (\<lambda>estimate.
     st_bind (guard_assert (assertLive i)) (\<lambda>_.
     decide_payload sv \<lparr>aq_generation = i, aq_record = rec, aq_payload = payload, aq_token = token, aq_identity = identity,
        aq_current = current, aq_input = replayInput, aq_instructionsDigest = instrDigest, aq_config = config,
        aq_snapshot = snapshot\<rparr> branch original (snapshotGeneration acc) estimate)))))))))))))))"

definition same_model :: "model_reference option \<Rightarrow> CodexProviderRequestRecord \<Rightarrow> bool" where
  "same_model m rec = (case m of None \<Rightarrow> False
     | Some r \<Rightarrow> JStr (mr_id r) = get_prop (gr_model rec) ''id'' \<and> JStr (mr_provider r) = get_prop (gr_model rec) ''provider'' \<and>
         JStr (mr_api r) = get_prop (gr_model rec) ''api'')"

definition activation_model :: "model_reference \<Rightarrow> ProviderActivationModel" where
  "activation_model m = \<lparr>am_provider = mr_provider m, am_api = mr_api m\<rparr>"

definition handleBeforeProviderPayload ::
  "'h services \<Rightarrow> context_reference \<Rightarrow> nat option \<Rightarrow> payload_event \<Rightarrow> ('h, payload_result) handler" where
  "handleBeforeProviderPayload sv cx current ev = (case current of
     None \<Rightarrow>
       if \<not> sv_active sv (map_option activation_model (cx_model cx)) then st_return (ev_payload ev, None)
       else st_throw (Failed REPLAY_ERROR)
   | Some i \<Rightarrow>
     st_bind (guard_assert (assertLive i)) (\<lambda>rec.
     st_bind (guard_assert (assertRoute i (cx_sessionId cx))) (\<lambda>_.
     st_bind (st_check (same_model (cx_model cx) rec \<and> ev_sessionId ev = gr_sessionId rec \<and> ev_sameSignal ev) (Failed REPLAY_ERROR)) (\<lambda>_.
     st_bind (st_check (sv_active sv (Some \<lparr>am_provider = model_field rec ''provider'', am_api = model_field rec ''api''\<rparr>))
        (Failed REPLAY_ERROR)) (\<lambda>_.
     st_bind (refreshBoundaryForRequest sv i rec) (\<lambda>_.
     case as_record (ev_payload ev) of
       None \<Rightarrow> st_throw (Failed REPLAY_ERROR)
     | Some payload \<Rightarrow>
     st_bind (st_check (get_prop payload ''model'' = get_prop (gr_model rec) ''id'') (Failed REPLAY_ERROR)) (\<lambda>_.
     st_bind (digest (sv_sha sv) (JObj payload)) (\<lambda>d.
     st_bind (st_check (d = gr_requestDigest rec) (Failed REPLAY_ERROR)) (\<lambda>_.
       if ev_origin ev \<noteq> ''agent''
       then st_bind (approve_payload sv i (JObj payload)) (\<lambda>p. st_return (p, None))
       else handle_agent sv i rec payload (ev_token ev))))))))))"

text \<open>The message a failure is recorded with.\<close>

definition failure_text :: "failure \<Rightarrow> string" where
  "failure_text e = (case e of Failed m \<Rightarrow> m | AbortFailure \<Rightarrow> ''AbortError''
     | ContextWindowFailure \<Rightarrow> ''the request reached the model context checkpoint threshold''
     | GuardFailure g \<Rightarrow> (case g of RecordUnavailable \<Rightarrow> ''Codex provider request approval is unavailable''
         | RecordRejected \<Rightarrow> ''Codex provider request failed approval'' | RecordedFailure c \<Rightarrow> c))"

text \<open>The registered handler: a failure is recorded on the request before it is thrown on.\<close>

definition onBeforeProviderPayload ::
  "'h services \<Rightarrow> context_reference \<Rightarrow> nat option \<Rightarrow> payload_event \<Rightarrow> ('h, payload_result) handler" where
  "onBeforeProviderPayload sv cx current ev =
     st_catch (handleBeforeProviderPayload sv cx current ev) (\<lambda>e.
       case current of
         None \<Rightarrow> st_throw e
       | Some i \<Rightarrow> st_bind (guard_call (recordFailure (Some i) i (failure_text e))) (\<lambda>_.
           if e = ContextWindowFailure then st_return (ev_payload ev, None) else st_throw e))"

section \<open>The coordinator is released\<close>

definition session_idle :: "string \<Rightarrow> 'h replay_world \<Rightarrow> bool" where
  "session_idle sid w \<longleftrightarrow> phase_of (rw_coordinator w) sid = PhaseIdle"

text \<open>The awaited calls other than the compaction leave a session idle that was idle.\<close>

definition calls_release :: "string \<Rightarrow> 'h services \<Rightarrow> bool" where
  "calls_release sid sv \<longleftrightarrow> preserves (session_idle sid) (sv_load sv) \<and>
     (\<forall>inp. preserves (session_idle sid) (sv_resolve sv inp)) \<and>
     (case sv_estimate sv of None \<Rightarrow> True | Some f \<Rightarrow> (\<forall>c. preserves (session_idle sid) (f c)))"

lemma idle_frame [simp]:
  "session_idle sid (w\<lparr>rw_guard := g\<rparr>) = session_idle sid w" "session_idle sid (w\<lparr>rw_store := s\<rparr>) = session_idle sid w"
  "session_idle sid (w\<lparr>rw_ui := u\<rparr>) = session_idle sid w" "session_idle sid (w\<lparr>rw_boundary := b\<rparr>) = session_idle sid w"
  "session_idle sid (w\<lparr>rw_accounting := a\<rparr>) = session_idle sid w"
  by (simp_all add: session_idle_def)

lemma idle_operations [preserves_rules]:
  "preserves (session_idle sid) (guard_call f)" "preserves (session_idle sid) (guard_assert f')"
  "preserves (session_idle sid) (store_call g)" "preserves (session_idle sid) (ui_call u)"
  "preserves (session_idle sid) (set_boundary b)" "preserves (session_idle sid) (digest sha v)"
  by (auto simp: preserves_def guard_call_def guard_assert_def store_call_def ui_call_def set_boundary_def digest_def step_defs
      split: prod.split sum.split)

lemma idle_boundary [preserves_rules]: "preserves (session_idle sid) (boundary_for s identity)"
  unfolding boundary_for_def warn_mismatch_def warnInactiveIdentity_def Let_def by (intro preserves_rules)

lemma idle_send [preserves_rules]: "preserves (session_idle sid) (send_input sv aq g inp pr)"
  unfolding send_input_def approve_payload_def by (intro preserves_rules preserves_modify) simp

lemma idle_end: "session_idle sid (coordinator_end sid w)"
  by (simp add: session_idle_def coordinator_end_def end_compaction_def phase_of_def)

lemma idle_compaction [preserves_rules]: "preserves (session_idle (aq_session aq)) (compact_inline sv aq token)"
proof -
  let ?P = "session_idle (aq_session aq)"
  have "?P (snd (compact_inline sv aq token w))" if "?P w" for w
  proof (cases "begin_compaction (aq_session aq) (rw_coordinator w)")
    case (Pair b c)
    show ?thesis
    proof (cases b)
      case False
      with Pair have "c = rw_coordinator w" by (auto simp: begin_compaction_def split: if_splits)
      with that Pair False show ?thesis
        by (simp add: compact_inline_def coordinator_begin_def st_bind_def st_throw_def session_idle_def)
    next
      case True
      with Pair show ?thesis
        by (simp add: compact_inline_def coordinator_begin_def st_bind_def ui_call_def step_defs st_finally_def idle_end
            split: prod.split)
    qed
  qed
  then show ?thesis by (simp add: preserves_def)
qed

lemma idle_decide [preserves_rules]:
  "preserves (session_idle (aq_session aq)) (decide_payload sv aq branch original g estimate)"
  unfolding decide_payload_def Let_def by (intro preserves_rules)

lemma idle_aligned [preserves_rules]: "preserves (session_idle sid) (alignedBaseline sha stored d inp)"
  unfolding alignedBaseline_def by (intro preserves_rules)

lemma idle_agent [preserves_rules]:
  assumes "calls_release (gr_sessionId rec) sv"
  shows "preserves (session_idle (gr_sessionId rec)) (handle_agent sv i rec payload token)"
proof -
  have load: "preserves (session_idle (gr_sessionId rec)) (sv_load sv)"
    and resolve: "preserves (session_idle (gr_sessionId rec)) (sv_resolve sv inp)" for inp
    using assms by (simp_all add: calls_release_def)
  have decide: "preserves (session_idle (gr_sessionId rec)) (decide_payload sv aq branch original g e)"
    if "aq_record aq = rec" for aq branch original g e
    using idle_decide [of aq sv branch original g e] that by simp
  show ?thesis
  proof (cases "sv_estimate sv")
    case None
    show ?thesis unfolding handle_agent_def warn_mismatch_def Let_def None option.case by (intro preserves_rules load resolve)
  next
    case (Some f)
    with assms have est: "preserves (session_idle (gr_sessionId rec)) (f c)" for c by (simp add: calls_release_def)
    show ?thesis unfolding handle_agent_def warn_mismatch_def Let_def Some option.case
      by (intro preserves_rules load resolve est decide) simp
  qed
qed

section \<open>What is let through\<close>

definition released :: "'h services \<Rightarrow> nat \<Rightarrow> js \<Rightarrow> 'h replay_world \<Rightarrow> bool" where
  "released sv i p w \<longleftrightarrow> as_record p \<noteq> None \<and> (\<exists>rec d. assertLive i (rw_guard w) = Inr rec \<and> gr_approvedRequest rec = Some p \<and>
     gr_approvedDigest rec = Some d \<and> digestJson (sv_sha sv) p = Inr d)"

text \<open>The accounting of the record describes the payload: its input items and its instructions.\<close>

definition accounted_for :: "'h services \<Rightarrow> nat \<Rightarrow> js \<Rightarrow> 'h replay_world \<Rightarrow> bool" where
  "accounted_for sv i p w \<longleftrightarrow> (\<exists>ob items instr ra. p = JObj ob \<and> get_prop ob ''input'' = JArr items \<and>
     get_prop ob ''instructions'' = JStr instr \<and> rw_accounting w i = Some ra \<and> ra_inputItemCount ra = length items \<and>
     digestJson (sv_sha sv) (JArr items) = Inr (ra_inputDigest ra) \<and>
     digestJson (sv_sha sv) (JStr instr) = Inr (ra_instructionsDigest ra))"

lemma released_frame [simp]:
  "released sv i p (coordinator_end sid w) = released sv i p w"
  "accounted_for sv i p (coordinator_end sid w) = accounted_for sv i p w"
  by (simp_all add: released_def accounted_for_def coordinator_end_def)

lemma digest_Inr: "digest sha v w = (Inr d, w') \<longleftrightarrow> digestJson sha v = Inr d \<and> w' = w"
  by (auto simp: digest_def step_defs split: sum.split)

lemma approve_Inr:
  assumes "approve sha (Some i) i rq g = (Inr p, g')"
  shows "p = rq \<and> (\<exists>rec d. assertLive i g' = Inr rec \<and> gr_approvedRequest rec = Some p \<and> gr_approvedDigest rec = Some d \<and>
    digestJson sha p = Inr d)"
proof -
  from assms obtain rec where rec: "assertLive i g = Inr rec" by (auto simp: approve_def split: sum.splits)
  with assms obtain d where d: "digestJson sha rq = Inr d" by (auto simp: approve_def Let_def split: sum.splits)
  let ?rec = "rec\<lparr>gr_approvedRequest := Some rq, gr_approvedDigest := Some d\<rparr>"
  from assms rec d have p: "p = rq" and g': "g' = g\<lparr>gd_heap := (gd_heap g)(i \<mapsto> ?rec)\<rparr>"
    by (auto simp: approve_def Let_def)
  from rec have "assertLive i g' = Inr ?rec" by (simp add: g' assertLive_Inr)
  with p d show ?thesis by simp
qed

lemma approve_payload_Inr:
  assumes "approve_payload sv i (JObj rq) w = (Inr p, w')"
  shows "p = JObj rq \<and> released sv i p w' \<and> rw_accounting w' = rw_accounting w"
proof -
  from assms obtain g' where "approve (sv_sha sv) (Some i) i (JObj rq) (rw_guard w) = (Inr p, g')" "w' = w\<lparr>rw_guard := g'\<rparr>"
    by (auto simp: approve_payload_def guard_call_def split: prod.splits sum.splits)
  with approve_Inr show ?thesis by (fastforce simp: released_def)
qed

text \<open>The payload of a returned result.\<close>

definition let_through :: "'h services \<Rightarrow> nat \<Rightarrow> payload_result \<Rightarrow> 'h replay_world \<Rightarrow> bool" where
  "let_through sv i r w \<longleftrightarrow> released sv i (fst r) w \<and> accounted_for sv i (fst r) w"

text \<open>The digest of the instructions in a request is the digest of the instructions of its payload.\<close>

definition instructions_digested :: "'h services \<Rightarrow> agent_request \<Rightarrow> bool" where
  "instructions_digested sv aq \<longleftrightarrow> (\<exists>s. get_prop (aq_payload aq) ''instructions'' = JStr s \<and>
     digestJson (sv_sha sv) (JStr s) = Inr (aq_instructionsDigest aq))"

lemma send_ensures:
  assumes "instructions_digested sv aq"
  shows "ensures (let_through sv (aq_generation aq)) (send_input sv aq g inp pr)"
proof -
  have "let_through sv (aq_generation aq) r w'" if "send_input sv aq g inp pr w = (Inr r, w')" for r w w'
  proof -
    from that obtain d w1 where d: "digestJson (sv_sha sv) (JArr inp) = Inr d"
      and a: "approve_payload sv (aq_generation aq) (JObj (rewritePayload (aq_payload aq) inp)) w1 = (Inr (fst r), w')"
      and w1: "rw_accounting w1 (aq_generation aq) = Some \<lparr>ra_generation = g, ra_identity = aq_identity aq,
        ra_inputItemCount = length inp, ra_inputDigest = d, ra_instructionsDigest = aq_instructionsDigest aq\<rparr>"
      by (auto simp: send_input_def st_bind_Inr digest_Inr step_defs)
    with approve_payload_Inr [OF a] assms show ?thesis
      by (auto simp: let_through_def accounted_for_def rewritePayload_def instructions_digested_def)
  qed
  then show ?thesis by (auto simp: ensures_def)
qed

lemma compact_ensures:
  assumes "instructions_digested sv aq"
  shows "ensures (let_through sv (aq_generation aq)) (compact_inline sv aq token)"
proof -
  have "let_through sv i r (coordinator_end sid w) = let_through sv i r w" for i r sid w by (simp add: let_through_def)
  then show ?thesis
    unfolding compact_inline_def compact_guarded_def compact_body_def by (intro ensures_rules) (simp_all add: send_ensures assms)
qed

lemma decide_ensures:
  "instructions_digested sv aq \<Longrightarrow>
     ensures (let_through sv (aq_generation aq)) (decide_payload sv aq branch original g estimate)"
  unfolding decide_payload_def Let_def by (intro ensures_rules send_ensures compact_ensures)

lemma instructions_Inr: "responseInstructions v = Inr s \<longleftrightarrow> v = JStr s"
  by (cases v) (auto simp: responseInstructions_def)

lemma agent_ensures: "ensures (let_through sv i) (handle_agent sv i rec payload token)"
proof -
  have decide: "ensures (let_through sv i) (decide_payload sv aq branch original g estimate)"
    if "aq_generation aq = i" "aq_payload aq = payload" "st_lift (responseInstructions (get_prop payload ''instructions'')) w1 = (Inr s, w2)"
      "digest (sv_sha sv) (JStr s) w3 = (Inr (aq_instructionsDigest aq), w4)" for aq branch original g estimate s w1 w2 w3 w4
    using decide_ensures [of sv aq branch original g estimate] that
    by (simp add: instructions_digested_def instructions_Inr digest_Inr)
  show ?thesis
    unfolding handle_agent_def Let_def by (intro ensures_rules decide; (assumption | simp))
qed

lemma handle_ensures:
  "ensures (\<lambda>r w. released sv i (fst r) w \<and> (ev_origin ev = ''agent'' \<longrightarrow> accounted_for sv i (fst r) w))
     (handleBeforeProviderPayload sv cx (Some i) ev)"
proof -
  have other: "ensures (\<lambda>r w. released sv i (fst r) w \<and> (ev_origin ev = ''agent'' \<longrightarrow> accounted_for sv i (fst r) w))
      (st_bind (approve_payload sv i (JObj payload)) (\<lambda>p. st_return (p, None)))"
    if "ev_origin ev \<noteq> ''agent''" for payload
    using that by (auto simp: ensures_def st_bind_Inr dest!: approve_payload_Inr)
  have agent: "ensures (\<lambda>r w. released sv i (fst r) w \<and> (ev_origin ev = ''agent'' \<longrightarrow> accounted_for sv i (fst r) w))
      (handle_agent sv i rec payload token)" for rec payload token
    using agent_ensures [of sv i rec payload token] by (auto simp: ensures_def let_through_def)
  show ?thesis
    unfolding handleBeforeProviderPayload_def option.case by (intro ensures_rules other agent)
qed

definition answered_by_guard :: "'h services \<Rightarrow> nat \<Rightarrow> payload_event \<Rightarrow> js \<Rightarrow> 'h replay_world \<Rightarrow> bool" where
  "answered_by_guard sv i ev p w = (case assertApproved (sv_sha sv) i p (rw_guard w) of
     Inr a \<Rightarrow> a = p \<and> (ev_origin ev = ''agent'' \<longrightarrow> accounted_for sv i p w)
   | Inl e \<Rightarrow> \<exists>cause. e = RecordedFailure cause)"

lemma released_answered:
  "released sv i p w \<Longrightarrow> (ev_origin ev = ''agent'' \<longrightarrow> accounted_for sv i p w) \<Longrightarrow> answered_by_guard sv i ev p w"
  by (auto simp: released_def answered_by_guard_def assertApproved_def split: option.split)

lemma failure_answered:
  assumes "guard_call (recordFailure (Some i) i cause) w = (Inr (), w')"
  shows "answered_by_guard sv i ev p w'"
proof -
  from assms obtain rec where rec: "assertLive i (rw_guard w) = Inr rec"
    and g: "rw_guard w' = (if gr_failure rec = None
      then (rw_guard w)\<lparr>gd_heap := (gd_heap (rw_guard w))(i \<mapsto> rec\<lparr>gr_failure := Some cause\<rparr>)\<rparr> else rw_guard w)"
    by (auto simp: guard_call_def recordFailure_def split: sum.splits prod.splits if_splits)
  have "\<exists>rec' c. assertLive i (rw_guard w') = Inr rec' \<and> gr_failure rec' = Some c"
  proof (cases "gr_failure rec")
    case None
    with rec g have "assertLive i (rw_guard w') = Inr (rec\<lparr>gr_failure := Some cause\<rparr>)" by (simp add: assertLive_Inr)
    then show ?thesis by simp
  qed (use rec g in auto)
  then show ?thesis by (auto simp: answered_by_guard_def assertApproved_def)
qed

lemma registered_ensures: "ensures (\<lambda>r w. answered_by_guard sv i ev (fst r) w) (onBeforeProviderPayload sv cx (Some i) ev)"
proof -
  have fail: "ensures (\<lambda>r w. answered_by_guard sv i ev (fst r) w) (st_bind (guard_call (recordFailure (Some i) i (failure_text e))) (\<lambda>_.
      if e = ContextWindowFailure then st_return (ev_payload ev, None) else st_throw e))" for e
    by (auto simp: ensures_def st_bind_Inr dest: failure_answered split: if_splits)
  have "ensures (\<lambda>r w. answered_by_guard sv i ev (fst r) w) (handleBeforeProviderPayload sv cx (Some i) ev)"
    using handle_ensures [of sv i ev cx] released_answered by (fastforce simp: ensures_def)
  then show ?thesis unfolding onBeforeProviderPayload_def option.case by (intro ensures_rules fail)
qed

lemma idle_handler:
  assumes "calls_release (cx_sessionId cx) sv" and "session_idle (cx_sessionId cx) w"
  shows "session_idle (cx_sessionId cx) (snd (handleBeforeProviderPayload sv cx current ev w))"
proof (cases current)
  case None
  with assms(2) show ?thesis by (simp add: handleBeforeProviderPayload_def step_defs)
next
  case (Some i)
  show ?thesis
  proof (cases "assertLive i (rw_guard w)")
    case (Inl e)
    with Some assms(2) show ?thesis by (simp add: handleBeforeProviderPayload_def st_bind_def guard_assert_def)
  next
    case (Inr rec)
    show ?thesis
    proof (cases "gr_sessionId rec = cx_sessionId cx")
      case False
      with Inr Some assms(2) show ?thesis
        by (simp add: handleBeforeProviderPayload_def st_bind_def guard_assert_def assertRoute_def)
    next
      case True
      let ?m = "\<lambda>b1 b2 b3. st_bind (st_check b1 (Failed REPLAY_ERROR)) (\<lambda>_.
         st_bind (st_check b2 (Failed REPLAY_ERROR)) (\<lambda>_.
         st_bind (refreshBoundaryForRequest sv i rec) (\<lambda>_.
         case as_record (ev_payload ev) of
           None \<Rightarrow> st_throw (Failed REPLAY_ERROR)
         | Some payload \<Rightarrow>
         st_bind (st_check (b3 payload) (Failed REPLAY_ERROR)) (\<lambda>_.
         st_bind (digest (sv_sha sv) (JObj payload)) (\<lambda>d.
         st_bind (st_check (d = gr_requestDigest rec) (Failed REPLAY_ERROR)) (\<lambda>_.
           if ev_origin ev \<noteq> ''agent''
           then st_bind (approve_payload sv i (JObj payload)) (\<lambda>p. st_return (p, None))
           else handle_agent sv i rec payload (ev_token ev)))))))"
      have "preserves (session_idle (gr_sessionId rec)) (?m b1 b2 b3)" for b1 b2 b3
        unfolding refreshBoundaryForRequest_def approve_payload_def
        by (intro preserves_rules) (simp add: True assms(1))
      with Inr Some True assms(2) show ?thesis
        by (simp add: handleBeforeProviderPayload_def guard_assert_def assertRoute_def st_bind_def [of "guard_assert _"]
            preserves_def)
    qed
  qed
qed

section \<open>Properties\<close>

text \<open>
  C10: The guard answers for every payload. Whatever the awaited calls do to the shared state, when the
  handler returns a payload for a request, submitting that payload to the guard gives exactly this payload,
  and the accounting of an agent request then describes its input and its instructions; or the guard reports
  the failure recorded for the request. No payload passes that was changed after its approval.
\<close>

theorem handler_answered_by_guard:
  assumes "onBeforeProviderPayload sv cx (Some i) ev w = (Inr (p, proposal), w')"
  shows "case assertApproved (sv_sha sv) i p (rw_guard w') of
     Inr a \<Rightarrow> a = p \<and> (ev_origin ev = ''agent'' \<longrightarrow> accounted_for sv i p w')
   | Inl e \<Rightarrow> \<exists>cause. e = RecordedFailure cause"
  using ensuresD [OF registered_ensures assms] by (simp add: answered_by_guard_def)


text \<open>A process with one open request, and calls that all fail.\<close>

definition sample_services :: "list_host services" where
  "sample_services = \<lparr>sv_sha = sample_sha, sv_proposal = sample_penv, sv_projection = sample_pj, sv_profileEnv = sample_profile_env,
     sv_active = (\<lambda>_. True), sv_setter = False, sv_connection = (\<lambda>_. sample_connection), sv_load = st_throw AbortFailure,
     sv_resolve = (\<lambda>_. st_throw AbortFailure), sv_estimate = None, sv_compact = (\<lambda>_. st_throw AbortFailure)\<rparr>"

definition sample_replay_world :: "list_host replay_world" where
  "sample_replay_world = \<lparr>rw_guard = snd (guard_open sample_sha (sample_request_input\<lparr>in_request := JObj [(''model'', JStr ''m'')]\<rparr>)
       False new_guard), rw_store = newCompactionStore, rw_coordinator = Map.empty,
     rw_profile = createCodexToolProfile sample_host, rw_accounting = Map.empty, rw_branch = [], rw_leaf = None,
     rw_boundary = [], rw_ui = \<lparr>ui_status = None, ui_notices = []\<rparr>\<rparr>"

definition sample_cx :: context_reference where
  "sample_cx = \<lparr>cx_sessionId = ''s'', cx_model = Some \<lparr>mr_id = ''m'', mr_provider = ''p'', mr_api = ''a''\<rparr>\<rparr>"

definition sample_event :: payload_event where
  "sample_event = \<lparr>ev_payload = JObj [(''model'', JStr ''m'')], ev_sessionId = ''s'', ev_sameSignal = True,
     ev_origin = ''branch_summary'', ev_token = None\<rparr>"

lemma sample_handled:
  "\<exists>w'. onBeforeProviderPayload sample_services sample_cx (Some 1) sample_event sample_replay_world =
     (Inr (JObj [(''model'', JStr ''m'')], None), w')"
proof -
  let ?inp = "sample_request_input\<lparr>in_request := JObj [(''model'', JStr ''m'')]\<rparr>"
  let ?p = "JObj [(''model'', JStr ''m'')]"
  have dig: "digestJson sample_sha ?p = Inr ''sha256:y''" by (simp add: digestJson_def sample_sha_def)
  have "\<exists>rec. new_record sample_sha ?inp False = Inr rec \<and> gr_sessionId rec = ''s'' \<and> gr_requestDigest rec = ''sha256:y'' \<and>
      get_prop (gr_model rec) ''id'' = JStr ''m'' \<and> get_prop (gr_model rec) ''provider'' = JStr ''p'' \<and>
      get_prop (gr_model rec) ''api'' = JStr ''a'' \<and> \<not> gr_closed rec \<and> \<not> gr_aborted rec"
    using dig by (simp add: new_record_def sample_request_input_def snapshotSimpleStreamOptions_def snapshotProviderModel_def
        cloneFrozenJson_def isFinite_def as_string_def)
  then obtain rec where rec: "new_record sample_sha ?inp False = Inr rec" and f: "gr_sessionId rec = ''s''"
      "gr_requestDigest rec = ''sha256:y''" "get_prop (gr_model rec) ''id'' = JStr ''m''"
      "get_prop (gr_model rec) ''provider'' = JStr ''p''" "get_prop (gr_model rec) ''api'' = JStr ''a''"
      and flags: "\<not> gr_closed rec" "\<not> gr_aborted rec" by blast
  let ?w = "sample_replay_world"
  have live: "assertLive 1 (rw_guard ?w) = Inr rec"
    using rec flags by (simp add: sample_replay_world_def guard_open_def new_guard_def assertLive_Inr Let_def)
  have "\<exists>g'. approve sample_sha (Some 1) 1 ?p (rw_guard ?w) = (Inr ?p, g')" using live dig by (simp add: approve_def Let_def)
  then obtain g' where ap: "approve sample_sha (Some 1) 1 ?p (rw_guard ?w) = (Inr ?p, g')" by blast
  have "handleBeforeProviderPayload sample_services sample_cx (Some 1) sample_event ?w = (Inr (?p, None), ?w\<lparr>rw_guard := g'\<rparr>)"
    using live f dig ap
    by (simp add: handleBeforeProviderPayload_def st_bind_def [of "guard_assert _"] guard_assert_def assertRoute_def sample_cx_def
        same_model_def sample_services_def sample_event_def refreshBoundaryForRequest_def st_bind_def [of "digest _ _"] digest_def
        st_lift_def approve_payload_def st_bind_def [of "guard_call _"] guard_call_def st_return_def)
  then show ?thesis by (simp add: onBeforeProviderPayload_def st_catch_def)
qed

theorem handler_answered_by_guard_witness:
  "\<exists>w'. onBeforeProviderPayload sample_services sample_cx (Some 1) sample_event sample_replay_world =
     (Inr (JObj [(''model'', JStr ''m'')], None), w') \<and>
   (case assertApproved sample_sha 1 (JObj [(''model'', JStr ''m'')]) (rw_guard w') of
      Inr a \<Rightarrow> a = JObj [(''model'', JStr ''m'')] | Inl e \<Rightarrow> \<exists>cause. e = RecordedFailure cause)"
proof -
  from sample_handled obtain w' where w': "onBeforeProviderPayload sample_services sample_cx (Some 1) sample_event
      sample_replay_world = (Inr (JObj [(''model'', JStr ''m'')], None), w')" by blast
  have sha: "sv_sha sample_services = sample_sha" by (simp add: sample_services_def)
  from handler_answered_by_guard [OF w'] w' show ?thesis unfolding sha by (auto split: sum.splits)
qed


end
