(* ===== verification/Compaction_Lifecycle.thy ===== *)
theory Compaction_Lifecycle
  imports Payload_Handler
begin

text \<open>
  Compaction on request of the host and the events of a session, \<open>src/src/integration/pi/codex-compaction.ts\<close>.
  The handlers work on the same world as the payload handler. \<open>connect\<close> is the awaited resolution of the
  provider connection, and \<open>aborted\<close> reads the signal of the event.

  The lemmas show that the session events never throw, that a compaction that was begun is ended on every
  path, and what a checkpoint that is handed to the host covers.
\<close>

section \<open>Compaction for the host\<close>

datatype SessionBeforeCompactResult =
    NotHandled
  | CancelCompaction "string option"
  | CheckpointCompaction ProviderCheckpointProposal

record 'h compact_event =
  ce_customInstructions :: "string option"
  ce_reason :: string
  ce_aborted :: "'h replay_world \<Rightarrow> bool"
  ce_checkpointToken :: "js option"
  ce_branchEntries :: "session_entry list"
  ce_firstKeptEntryId :: string

text \<open>The model of the context with the fields a resolution reads.\<close>

record compaction_model =
  cm_reference :: model_reference
  cm_input :: "string list"
  cm_contextWindow :: jsnum

definition lifecycle_input ::
  "compaction_model \<Rightarrow> CodexConfig \<Rightarrow> string list \<Rightarrow> ResolveEffectiveCapabilitiesInput" where
  "lifecycle_input m config hostTools = \<lparr>in_modelId = mr_id (cm_reference m), in_providerId = mr_provider (cm_reference m),
     in_modelInputModalities = cm_input m, in_config = config, in_contextWindow = Some (cm_contextWindow m),
     in_hostToolNames = Some hostTools\<rparr>"

definition compaction_options ::
  "CodexProviderConnection \<Rightarrow> compaction_model \<Rightarrow> CodexConfig \<Rightarrow> EffectiveCapabilitySnapshot \<Rightarrow> js list \<Rightarrow> string \<Rightarrow> string \<Rightarrow>
     js \<Rightarrow> string \<Rightarrow> RemoteCheckpointRequestOptions" where
  "compaction_options connection m config snapshot inp sid covered token reason = \<lparr>ro_connection = connection,
     ro_modelId = mr_id (cm_reference m), ro_modelApi = mr_api (cm_reference m), ro_config = config, ro_capabilities = snapshot,
     ro_input = inp, ro_payload = None, ro_sessionId = sid, ro_coveredEntryId = covered, ro_token = token,
     ro_trigger = (if reason = ''manual'' then ''manual'' else ''auto'')\<rparr>"

text \<open>From the successful \<open>beginExecution\<close> to the end of the \<open>try\<close>.\<close>

definition execute_body ::
  "'h services \<Rightarrow> string \<Rightarrow> compaction_model \<Rightarrow> 'h compact_event \<Rightarrow> js \<Rightarrow> CodexProviderConnection \<Rightarrow> CodexConfig \<Rightarrow>
     EffectiveCapabilitySnapshot \<Rightarrow> ('h, SessionBeforeCompactResult) handler" where
  "execute_body sv sid m ev token connection config snapshot =
    (let branch = ce_branchEntries ev in
     case find_index (\<lambda>e. entry_id e = ce_firstKeptEntryId ev) branch of
       None \<Rightarrow> st_throw (Failed ''Codex compaction boundary is unavailable'')
     | Some firstKept \<Rightarrow>
     if firstKept = 0 then st_throw (Failed ''Codex compaction boundary is unavailable'')
     else (case identity_of sv sid (mr_id (cm_reference m)) (mr_api (cm_reference m)) connection of
       None \<Rightarrow> st_throw (Failed ''OpenAI Codex compaction credentials are unsupported'')
     | Some identity \<Rightarrow>
     (let scan = scanRemoteCompactionCheckpoints branch identity firstKept in
     st_bind (warn_mismatch sid identity scan) (\<lambda>_.
     st_bind (st_lift (case scan_matching scan of
         None \<Rightarrow> projectCanonicalEntries (sv_projection sv) (take firstKept branch)
       | Some sel \<Rightarrow> checkpointPayload (sv_projection sv) sel branch firstKept)) (\<lambda>inp.
     st_bind (st_check (inp \<noteq> []) (Failed ''Codex compaction input is empty'')) (\<lambda>_.
     st_bind (createRemoteCheckpointProposal (sv_proposal sv) (sv_compact sv) (ce_aborted ev)
        (compaction_options connection m config snapshot inp sid (entry_id (branch ! (firstKept - 1))) token (ce_reason ev))) (\<lambda>cd.
     st_bind (st_read (\<lambda>w. ce_aborted ev w \<or> rw_leaf w \<noteq> Some (entry_id (last branch)))) (\<lambda>stale.
     st_bind (st_check (\<not> stale) (Failed ''Codex compaction became stale'')) (\<lambda>_.
     st_bind (st_modify (\<lambda>w. w\<lparr>rw_store := invalidateContextAccounting sid (rw_store w)\<rparr>)) (\<lambda>_.
     st_bind (st_modify (coordinator_end sid)) (\<lambda>_.
       st_return (CheckpointCompaction (cd_proposal cd)))))))))))))"

definition coordinator_beginExecution :: "string \<Rightarrow> ('h, bool) handler" where
  "coordinator_beginExecution sid w = (case beginExecution sid (rw_coordinator w) of (b, c) \<Rightarrow> (Inr b, w\<lparr>rw_coordinator := c\<rparr>))"

text \<open>The flag \<open>execution\<close> is set exactly in the body, so its error branch ends the compaction.\<close>

definition execute_guarded ::
  "'h services \<Rightarrow> string \<Rightarrow> compaction_model \<Rightarrow> 'h compact_event \<Rightarrow> js \<Rightarrow> CodexProviderConnection \<Rightarrow> CodexConfig \<Rightarrow>
     EffectiveCapabilitySnapshot \<Rightarrow> ('h, SessionBeforeCompactResult) handler" where
  "execute_guarded sv sid m ev token connection config snapshot =
     st_bind (coordinator_beginExecution sid) (\<lambda>begun.
       if \<not> begun then st_return (CancelCompaction None)
       else st_catch (execute_body sv sid m ev token connection config snapshot) (\<lambda>e.
         st_bind (st_modify (coordinator_end sid)) (\<lambda>_. st_throw e)))"

definition compact_try ::
  "'h services \<Rightarrow> ('h, CodexProviderConnection) handler \<Rightarrow> string \<Rightarrow> compaction_model \<Rightarrow> 'h compact_event \<Rightarrow> js \<Rightarrow>
     ('h, SessionBeforeCompactResult) handler" where
  "compact_try sv connect sid m ev token =
     st_bind connect (\<lambda>connection.
     st_bind (sv_load sv) (\<lambda>config.
     if compaction_mode config = ModeOff then st_return (CancelCompaction None)
     else
     st_bind (st_read (\<lambda>w. registeredManagedTools (sv_profileEnv sv) (rw_profile w))) (\<lambda>hostTools.
     let inp = lifecycle_input m config hostTools in
     st_bind (st_read (\<lambda>w. isHealthy (pe_stringify (sv_proposal sv) (capabilityCacheKey inp)) (rw_profile w))) (\<lambda>healthy.
     st_bind (st_check healthy (Failed ''Codex tool profile is unavailable for the selected capability'')) (\<lambda>_.
     st_bind (sv_resolve sv inp) (\<lambda>snapshot.
     st_bind (st_check (eff_compaction_implementation snapshot \<noteq> None) (Failed ''OpenAI Codex Remote Compaction is unavailable'')) (\<lambda>_.
       execute_guarded sv sid m ev token connection config snapshot)))))))"

definition compactForPi ::
  "'h services \<Rightarrow> ('h, CodexProviderConnection) handler \<Rightarrow> string \<Rightarrow> compaction_model option \<Rightarrow> 'h compact_event \<Rightarrow>
     ('h, SessionBeforeCompactResult) handler" where
  "compactForPi sv connect sid model ev = (case model of
     None \<Rightarrow> st_return NotHandled
   | Some m \<Rightarrow>
     if \<not> sv_active sv (Some (activation_model (cm_reference m))) then st_return NotHandled
     else if (case ce_customInstructions ev of None \<Rightarrow> False | Some s \<Rightarrow> trim s \<noteq> [])
     then st_return (CancelCompaction (Some ''Codex remote compaction does not support custom instructions''))
     else if ce_reason ev = ''threshold'' then st_return (CancelCompaction None)
     else st_bind (st_read (ce_aborted ev)) (\<lambda>ab.
       if ab then st_return (CancelCompaction None)
       else (case ce_checkpointToken ev of
           None \<Rightarrow> st_return (CancelCompaction (Some ''Codex checkpoint capability is unavailable''))
         | Some token \<Rightarrow> st_catch (compact_try sv connect sid m ev token) (\<lambda>e.
             st_bind (st_read (ce_aborted ev)) (\<lambda>ab.
               st_return (CancelCompaction (if ab then None else Some (failure_text e))))))))"

section \<open>Session events\<close>

definition restore ::
  "'h services \<Rightarrow> ('h, CodexProviderConnection) handler \<Rightarrow> context_reference \<Rightarrow> ('h, unit) handler" where
  "restore sv connect cx =
     st_catch (st_bind connect (\<lambda>connection. restoreProviderCheckpointUsageBoundary sv cx (Some connection))) (\<lambda>_.
     st_catch (restoreProviderCheckpointUsageBoundary sv cx None) (\<lambda>_.
       if sv_setter sv then set_boundary None else st_return ()))"

definition dispose_session :: "string \<Rightarrow> 'h replay_world \<Rightarrow> 'h replay_world" where
  "dispose_session sid w = w\<lparr>rw_ui := clearInline (rw_ui w), rw_coordinator := coordinator_dispose sid (rw_coordinator w),
     rw_store := dispose sid (rw_store w)\<rparr>"

definition session_start ::
  "'h services \<Rightarrow> ('h, CodexProviderConnection) handler \<Rightarrow> context_reference \<Rightarrow> ('h, unit) handler" where
  "session_start sv connect cx = st_bind (st_modify (dispose_session (cx_sessionId cx))) (\<lambda>_. restore sv connect cx)"

text \<open>\<open>model_select\<close> and \<open>session_tree\<close> have the same handler.\<close>

definition model_select ::
  "'h services \<Rightarrow> ('h, CodexProviderConnection) handler \<Rightarrow> context_reference \<Rightarrow> ('h, unit) handler" where
  "model_select sv connect cx =
     st_bind (st_modify (\<lambda>w. w\<lparr>rw_store := invalidateContextAccounting (cx_sessionId cx) (rw_store w)\<rparr>)) (\<lambda>_. restore sv connect cx)"

definition session_shutdown :: "context_reference \<Rightarrow> ('h, unit) handler" where
  "session_shutdown cx = st_modify (dispose_session (cx_sessionId cx))"

definition session_provider_checkpoint :: "jsnum \<Rightarrow> CodexCompactionCompletionTrigger \<Rightarrow> ('h, unit) handler" where
  "session_provider_checkpoint tokens trigger = ui_call (completeInline tokens trigger)"

definition session_provider_checkpoint_indeterminate :: "CodexCompactionCompletionTrigger \<Rightarrow> ('h, unit) handler" where
  "session_provider_checkpoint_indeterminate trigger = ui_call (failInlineForTrigger OutcomeIndeterminate trigger)"

section \<open>Release\<close>

lemma idle_guarded: "preserves (session_idle sid) (execute_guarded sv sid m ev token connection config snapshot)"
proof -
  let ?b = "execute_body sv sid m ev token connection config snapshot"
  let ?h = "\<lambda>e. st_bind (st_modify (coordinator_end sid)) (\<lambda>_. st_throw e)"
  have fin: "ensures (\<lambda>r w. session_idle sid w) ?b"
  proof -
    have ret: "ensures (\<lambda>r w. session_idle sid w) (st_bind (st_modify (coordinator_end sid)) (\<lambda>_. st_return x))" for x
      by (auto simp: ensures_def step_defs idle_end)
    show ?thesis unfolding execute_body_def Let_def by (intro ensures_rules(2,3,4) ret ensures_bind)
  qed
  have "session_idle sid (snd (st_catch ?b ?h w))" for w
    using ensuresD [OF fin, of w] by (cases "?b w"; cases "fst (?b w)") (auto simp: st_catch_def step_defs idle_end)
  moreover have "beginExecution sid c = (False, c') \<Longrightarrow> c' = c" for c c'
    by (auto simp: beginExecution_def split: if_splits)
  ultimately show ?thesis
    by (auto simp: preserves_def execute_guarded_def st_bind_def [of "coordinator_beginExecution _"] coordinator_beginExecution_def
        step_defs session_idle_def split: prod.split)
qed

lemma idle_try:
  assumes "calls_release sid sv" and "preserves (session_idle sid) connect"
  shows "preserves (session_idle sid) (compact_try sv connect sid m ev token)"
proof -
  from assms(1) have load: "preserves (session_idle sid) (sv_load sv)"
    and resolve: "preserves (session_idle sid) (sv_resolve sv inp)" for inp
    by (simp_all add: calls_release_def)
  show ?thesis unfolding compact_try_def Let_def
    by (intro preserves_rules load resolve assms(2) idle_guarded)
qed

lemma idle_compactForPi:
  assumes "calls_release sid sv" and "preserves (session_idle sid) connect"
  shows "preserves (session_idle sid) (compactForPi sv connect sid model ev)"
  unfolding compactForPi_def by (intro preserves_rules idle_try assms)

section \<open>The checkpoint handed to the host\<close>

definition covers_up_to :: "'h compact_event \<Rightarrow> ProviderCheckpointProposal \<Rightarrow> bool" where
  "covers_up_to ev p \<longleftrightarrow> (\<exists>n cp. find_index (\<lambda>e. entry_id e = ce_firstKeptEntryId ev) (ce_branchEntries ev) = Some n \<and> 0 < n \<and>
     pp_data p = checkpoint_js cp \<and> wf_checkpoint cp \<and> coveredEntryId cp = entry_id (ce_branchEntries ev ! (n - 1)) \<and>
     Some (pp_token p) = ce_checkpointToken ev)"

definition handed_over :: "string \<Rightarrow> 'h compact_event \<Rightarrow> SessionBeforeCompactResult \<Rightarrow> 'h replay_world \<Rightarrow> bool" where
  "handed_over sid ev r w = (case r of CheckpointCompaction p \<Rightarrow>
       covers_up_to ev p \<and> rw_leaf w = Some (entry_id (last (ce_branchEntries ev))) \<and> session_idle sid w
     | _ \<Rightarrow> True)"

lemma proposal_Inr:
  "createRemoteCheckpointProposal env call ab ro w = (Inr cd, w') \<Longrightarrow> \<exists>im answer. proposal_from env ro im answer = Inr cd"
  by (auto simp: createRemoteCheckpointProposal_def split: option.splits if_splits prod.splits sum.splits)

lemma proposal_token: "proposal_from env ro im answer = Inr cd \<Longrightarrow> pp_token (cd_proposal cd) = ro_token ro"
  by (auto simp: proposal_from_def split: sum.splits option.splits)

lemma proposal_covers:
  assumes "createRemoteCheckpointProposal env call ab
      (compaction_options connection m config snapshot inp sid (entry_id (ce_branchEntries ev ! (n - 1))) token reason) w = (Inr cd, w')"
    and "find_index (\<lambda>e. entry_id e = ce_firstKeptEntryId ev) (ce_branchEntries ev) = Some n" and "n \<noteq> 0"
    and "ce_checkpointToken ev = Some token"
  shows "covers_up_to ev (cd_proposal cd)"
proof -
  from proposal_Inr [OF assms(1)] obtain im answer where f: "proposal_from env (compaction_options connection m config snapshot inp sid
      (entry_id (ce_branchEntries ev ! (n - 1))) token reason) im answer = Inr cd" by blast
  from proposal_facts [OF f] obtain cp where "pp_data (cd_proposal cd) = checkpoint_js cp" "wf_checkpoint cp"
    "coveredEntryId cp = entry_id (ce_branchEntries ev ! (n - 1))"
    by (metis RemoteCheckpointRequestOptions.select_convs(9) compaction_options_def)
  with assms proposal_token [OF f] show ?thesis by (auto simp: covers_up_to_def compaction_options_def)
qed

lemma handed_body:
  assumes token: "ce_checkpointToken ev = Some token"
  shows "ensures (handed_over sid ev) (execute_body sv sid m ev token connection config snapshot)"
proof -
  have stale: "ensures (handed_over sid ev) (st_bind (st_read (\<lambda>w. ce_aborted ev w \<or> rw_leaf w \<noteq> Some (entry_id (last (ce_branchEntries ev))))) (\<lambda>stale.
     st_bind (st_check (\<not> stale) (Failed e)) (\<lambda>_.
     st_bind (st_modify (\<lambda>w. w\<lparr>rw_store := invalidateContextAccounting sid (rw_store w)\<rparr>)) (\<lambda>_.
     st_bind (st_modify (coordinator_end sid)) (\<lambda>_. st_return (CheckpointCompaction p))))))" if "covers_up_to ev p" for p e
    using that by (auto simp: ensures_def st_bind_read handed_over_def session_idle_def coordinator_end_def end_compaction_def phase_of_def
        split: if_splits)
  show ?thesis unfolding execute_body_def Let_def
    by (intro ensures_option ensures_if ensures_throw; (rule ensures_bind, rule ensures_bind, rule ensures_bind, rule ensures_bind,
        rule stale, rule proposal_covers [OF _ _ _ token]); assumption)
qed

lemma handed_compactForPi: "ensures (handed_over sid ev) (compactForPi sv connect sid model ev)"
proof -
  have other: "ensures (handed_over sid ev) (st_return NotHandled)" "ensures (handed_over sid ev) (st_return (CancelCompaction x))" for x
    by (simp_all add: ensures_def handed_over_def)
  show ?thesis unfolding compactForPi_def compact_try_def execute_guarded_def Let_def
    by (intro ensures_option ensures_if ensures_catch ensures_throw other handed_body ensures_bind)
qed

section \<open>Restoring the boundary\<close>

text \<open>The boundary for the outcome of the connection: the newest checkpoint of the branch that applies, if any.\<close>

definition restored_boundary ::
  "'h services \<Rightarrow> context_reference \<Rightarrow> (failure, CodexProviderConnection) result \<Rightarrow> session_entry list \<Rightarrow> string option" where
  "restored_boundary sv cx r branch = (case (r, cx_model cx) of
     (Inr c, Some m) \<Rightarrow>
       if sv_active sv (Some (activation_model m)) then
         (case identity_of sv (cx_sessionId cx) (mr_id m) (mr_api m) c of
            None \<Rightarrow> None
          | Some i \<Rightarrow> map_option sel_entry (scan_matching (scanRemoteCompactionCheckpoints branch i (length branch))))
       else None
   | _ \<Rightarrow> None)"

text \<open>A step that returns and makes exactly this call of the boundary setter.\<close>

definition sets_boundary :: "('h replay_world \<Rightarrow> string option) \<Rightarrow> ('h, unit) handler \<Rightarrow> bool" where
  "sets_boundary b m \<longleftrightarrow> (\<forall>w. fst (m w) = Inr () \<and> rw_boundary (snd (m w)) = rw_boundary w @ [b w])"

lemma warn_once_call:
  "fst (st_bind (store_call f) (\<lambda>first. if first then ui_call u else st_return ()) w) = Inr ()"
  "rw_boundary (snd (st_bind (store_call f) (\<lambda>first. if first then ui_call u else st_return ()) w)) = rw_boundary w"
  "rw_branch (snd (st_bind (store_call f) (\<lambda>first. if first then ui_call u else st_return ()) w)) = rw_branch w"
  by (simp_all add: st_bind_def store_call_def ui_call_def step_defs split: prod.split)

lemma boundary_for_sets:
  "sets_boundary (\<lambda>w. case identity of None \<Rightarrow> None
      | Some i \<Rightarrow> map_option sel_entry (scan_matching (scanRemoteCompactionCheckpoints (rw_branch w) i (length (rw_branch w)))))
     (boundary_for sid identity :: ('h, unit) handler)"
proof -
  have warn: "\<exists>w1. warn_mismatch s i scan w = (Inr (), w1) \<and> rw_boundary w1 = rw_boundary w" for s i scan w
    using warn_once_call [of "warnOnce s i" "ui_notify IDENTITY_MISMATCH_WARNING NoticeWarning" w]
    by (cases "scan_mismatch scan") (auto simp: warn_mismatch_def st_return_def prod_eq_iff)
  have inactive: "\<exists>w1. warnInactiveIdentity s b w = (Inr (), w1) \<and> rw_boundary w1 = rw_boundary w" for s b w
    using warn_once_call [of "warnSessionOnce s" "ui_notify IDENTITY_MISMATCH_WARNING NoticeWarning" w]
    by (cases b) (auto simp: warnInactiveIdentity_def st_return_def prod_eq_iff)
  show ?thesis
  proof (cases identity)
    case None
    have "fst (boundary_for sid None w) = Inr () \<and> rw_boundary (snd (boundary_for sid None w)) = rw_boundary w @ [None]" for w :: "'h replay_world"
      using inactive [of sid "hasValidRemoteCheckpoint (rw_branch w)" "w\<lparr>rw_boundary := rw_boundary w @ [None]\<rparr>"]
      by (auto simp: boundary_for_def st_bind_read set_boundary_def)
    with None show ?thesis by (simp add: sets_boundary_def)
  next
    case (Some i)
    let ?scan = "\<lambda>w. scanRemoteCompactionCheckpoints (rw_branch w) i (length (rw_branch w))"
    have "fst (boundary_for sid (Some i) w) = Inr () \<and>
        rw_boundary (snd (boundary_for sid (Some i) w)) = rw_boundary w @ [map_option sel_entry (scan_matching (?scan w))]" for w :: "'h replay_world"
      using warn [of sid i "?scan w" w]
      by (auto simp: boundary_for_def st_bind_read Let_def st_bind_def [of "warn_mismatch _ _ _"] set_boundary_def step_defs)
    with Some show ?thesis by (simp add: sets_boundary_def)
  qed
qed

lemma restore_boundary_call:
  assumes "sv_setter sv"
  shows "sets_boundary (\<lambda>w. restored_boundary sv cx (case c of None \<Rightarrow> Inl AbortFailure | Some c \<Rightarrow> Inr c) (rw_branch w))
    (restoreProviderCheckpointUsageBoundary sv cx c)"
  using assms boundary_for_sets
  by (cases "cx_model cx"; cases c)
    (auto simp: restoreProviderCheckpointUsageBoundary_def restored_boundary_def activation_model_def sets_boundary_def split: option.splits)

lemma restore_sets:
  assumes "sv_setter sv"
  shows "fst (restore sv connect cx w) = Inr ()"
    and "rw_boundary (snd (restore sv connect cx w)) = rw_boundary (snd (connect w)) @
      [restored_boundary sv cx (fst (connect w)) (rw_branch (snd (connect w)))]"
proof -
  note call = restore_boundary_call [OF assms, of cx, unfolded sets_boundary_def, THEN spec]
  obtain r w1 where c: "connect w = (r, w1)" by (cases "connect w")
  have "fst (restore sv connect cx w) = Inr () \<and> rw_boundary (snd (restore sv connect cx w)) = rw_boundary w1 @
      [restored_boundary sv cx r (rw_branch w1)]"
  proof (cases r)
    case (Inl e)
    have "restored_boundary sv cx (Inl e) b = restored_boundary sv cx (Inl AbortFailure) b" for b by (simp add: restored_boundary_def)
    with Inl c call [of None w1] show ?thesis
      by (cases "restoreProviderCheckpointUsageBoundary sv cx None w1") (simp add: restore_def st_catch_def st_bind_def [of connect])
  next
    case (Inr k)
    with c call [of "Some k" w1] show ?thesis
      by (cases "restoreProviderCheckpointUsageBoundary sv cx (Some k) w1") (simp add: restore_def st_catch_def st_bind_def [of connect])
  qed
  with c show "fst (restore sv connect cx w) = Inr ()" "rw_boundary (snd (restore sv connect cx w)) = rw_boundary (snd (connect w)) @
      [restored_boundary sv cx (fst (connect w)) (rw_branch (snd (connect w)))]" by simp_all
qed

lemma restore_quiet: "\<not> sv_setter sv \<Longrightarrow> fst (restore sv connect cx w) = Inr () \<and> snd (restore sv connect cx w) = snd (connect w)"
  by (cases "connect w"; cases "fst (connect w)")
    (auto simp: restore_def st_catch_def st_bind_def [of connect] restoreProviderCheckpointUsageBoundary_def st_return_def)

section \<open>Properties\<close>

text \<open>
  A checkpoint given to the host covers exactly what the host drops. Whenever the handler answers with a
  checkpoint, the checkpoint is well formed, covers the branch up to the entry before the first one the host
  keeps, carries the token of this event, the leaf of the session is still the last entry of the branch that
  was compacted, and the session is free for the next compaction.
\<close>

theorem host_checkpoint_sound: "ensures (handed_over sid ev) (compactForPi sv connect sid model ev)"
  by (rule handed_compactForPi)

text \<open>
  A compaction for the host is always released. If the session is idle when the host asks, it is idle when
  the handler is done: with a checkpoint, a cancellation or any error, whatever the compaction call does.
\<close>

theorem host_compaction_released:
  assumes "calls_release sid sv" and "preserves (session_idle sid) connect" and "session_idle sid w"
  shows "session_idle sid (snd (compactForPi sv connect sid model ev w))"
  using preservesD [OF idle_compactForPi [OF assms(1,2)] assms(3)] .

definition sample_compact_event :: "list_host compact_event" where
  "sample_compact_event = \<lparr>ce_customInstructions = None, ce_reason = ''manual'', ce_aborted = (\<lambda>_. False),
     ce_checkpointToken = Some JNull, ce_branchEntries = [], ce_firstKeptEntryId = ''e''\<rparr>"

theorem host_compaction_released_witness:
  "session_idle ''s'' (snd (compactForPi sample_services (st_return sample_connection) ''s''
     (Some \<lparr>cm_reference = \<lparr>mr_id = ''m'', mr_provider = ''p'', mr_api = ''a''\<rparr>, cm_input = [], cm_contextWindow = Fin 1\<rparr>)
     sample_compact_event sample_replay_world))"
  by (rule host_compaction_released)
    (simp_all add: calls_release_def sample_services_def preserves_rules session_idle_def sample_replay_world_def phase_of_def)

text \<open>
  Session events do not fail and restore one boundary. When a session starts or its model changes, the
  handler returns normally whatever the resolution of the connection does, and calls the setter of the host
  once if it exists: with the newest checkpoint of the branch that applies to the connection, or with none
  when the connection failed, the model is inactive or no checkpoint applies.
\<close>

theorem session_boundary_restored:
  "(case connect (dispose_session (cx_sessionId cx) w) of (r, w1) \<Rightarrow>
      fst (session_start sv connect cx w) = Inr () \<and>
      rw_boundary (snd (session_start sv connect cx w)) =
        rw_boundary w1 @ (if sv_setter sv then [restored_boundary sv cx r (rw_branch w1)] else [])) \<and>
   (case connect (w\<lparr>rw_store := invalidateContextAccounting (cx_sessionId cx) (rw_store w)\<rparr>) of (r, w1) \<Rightarrow>
      fst (model_select sv connect cx w) = Inr () \<and>
      rw_boundary (snd (model_select sv connect cx w)) =
        rw_boundary w1 @ (if sv_setter sv then [restored_boundary sv cx r (rw_branch w1)] else []))"
  using restore_sets [of sv connect cx] restore_quiet [of sv connect cx]
  by (cases "sv_setter sv") (auto simp: session_start_def model_select_def split: prod.split)

end
