(* ===== verification/Provider_Stream.thy ===== *)
theory Provider_Stream
  imports Payload_Handler Response_State Tool_Surface
begin

text \<open>
  One streamed request from the host's call to the terminal event: \<open>createCodexStreamSimple\<close>, \<open>runResponse\<close> and
  \<open>buildCodexRequest\<close> of \<open>src/src/integration/pi/codex-provider.ts\<close>, and
  \<open>src/src/integration/pi/codex-provider-error.ts\<close>. The program runs on the shared world and on a local state
  that holds the message, the events pushed to the host, the opened record, and the calls of the runtime with
  the state of the guard at that moment. The
  awaited calls are arguments that may change the world; the call of the runtime also delivers provider events.
  The cost of a response, computed by the host's library, is left out.

  The lemmas show that every call ends with exactly one terminal event after a well-formed block stream, that
  a guarded request is sent only as the guard released it, that its record is closed whatever happens, and
  when usage is recorded.
\<close>

section \<open>Errors\<close>

text \<open>The errors that the mapping distinguishes; \<open>StreamSafe\<close> is a connection or configuration error.\<close>

datatype stream_error =
    StreamAbort
  | StreamCapability string
  | StreamContextWindow
  | StreamRemote string string bool
  | StreamSafe string
  | StreamOther string

definition PI_RETRYABLE_PROVIDER_ERROR :: string where
  "PI_RETRYABLE_PROVIDER_ERROR = ''OpenAI provider service unavailable''"

definition isExistingSafeProviderError :: "stream_error \<Rightarrow> string option" where
  "isExistingSafeProviderError e = (case e of StreamRemote _ m _ \<Rightarrow> Some m | StreamSafe m \<Rightarrow> Some m | _ \<Rightarrow> None)"

definition toPiProviderErrorMessage :: "stream_error \<Rightarrow> string" where
  "toPiProviderErrorMessage e = (case e of
     StreamAbort \<Rightarrow> ''Request aborted''
   | StreamCapability reason \<Rightarrow> reason
   | StreamContextWindow \<Rightarrow> ''context_length_exceeded: the request reached the model context checkpoint threshold''
   | _ \<Rightarrow>
     (if (case e of StreamRemote code _ _ \<Rightarrow> code = ''context_window_exceeded'' | _ \<Rightarrow> False)
      then ''context_length_exceeded: the request exceeded the model context window''
      else (case e of
          StreamRemote _ m True \<Rightarrow> PI_RETRYABLE_PROVIDER_ERROR @ '': '' @ m
        | _ \<Rightarrow> (case isExistingSafeProviderError e of Some m \<Rightarrow> m | None \<Rightarrow> ''OpenAI Codex request failed''))))"

section \<open>The request\<close>

record stream_model =
  sm_id :: string
  sm_provider :: string
  sm_api :: string
  sm_baseUrl :: string
  sm_input :: "string list"
  sm_contextWindow :: jsnum
  sm_thinkingLevelMap :: "js_object option"
  sm_object :: js_object

record stream_context =
  sc_systemPrompt :: "string option"
  sc_messages :: "js list"
  sc_tools :: "PiResponsesToolDefinition list option"

record stream_options =
  so_value :: js
  so_fetch :: bool
  so_sessionId :: "string option"
  so_reasoning :: "string option"
  so_connection :: connection_options

definition reasoning_effort :: "stream_model \<Rightarrow> stream_options option \<Rightarrow> js option" where
  "reasoning_effort m options = (case Option.bind options so_reasoning of
     None \<Rightarrow> None
   | Some level \<Rightarrow> Some (nullish (case sm_thinkingLevelMap m of None \<Rightarrow> JUndef | Some lm \<Rightarrow> get_prop lm level) (JStr level)))"

definition option_js :: "string option \<Rightarrow> js" where
  "option_js s = (case s of None \<Rightarrow> JUndef | Some t \<Rightarrow> JStr t)"

definition buildCodexRequest ::
  "heap \<Rightarrow> (string \<Rightarrow> js option) \<Rightarrow> (js \<Rightarrow> string) \<Rightarrow> stream_model \<Rightarrow> stream_context \<Rightarrow> stream_options option \<Rightarrow>
     CodexConfig \<Rightarrow> js list \<Rightarrow> EffectiveCapabilitySnapshot \<Rightarrow> (normalization_error, js_object) result" where
  "buildCodexRequest h parse stringify m cx options config officialTools capabilities =
    (let activeDefinitions = (case sc_tools cx of None \<Rightarrow> [] | Some ts \<Rightarrow> ts);
         surface = selectCodexToolSurface h officialTools (map td_name activeDefinitions) activeDefinitions
     in res_bind (responseItemsFromMessages parse stringify (sc_messages cx)) (\<lambda>inp.
       Inr [(''model'', JStr (sm_id m)),
         (''instructions'', JStr (withSupplementalSessionInstructions
            (case sc_systemPrompt cx of None \<Rightarrow> '''' | Some s \<Rightarrow> s) capabilities)),
         (''input'', JArr inp),
         (''tools'', if surface = [] then JNull else JArr surface),
         (''tool_choice'', JStr ''auto''),
         (''parallel_tool_calls'', JBool True),
         (''reasoning'', case reasoning_effort m options of
            None \<Rightarrow> JNull
          | Some effort \<Rightarrow> if effort = JNull then JNull
              else JObj [(''effort'', effort), (''summary'', JStr ''auto''), (''context'', JStr ''all_turns'')]),
         (''store'', JBool False),
         (''stream'', JBool True),
         (''include'', JArr [JStr ''reasoning.encrypted_content'']),
         (''service_tier'', JStr (enum_name serviceTier_table (serviceTier (codex config)))),
         (''prompt_cache_key'', option_js (Option.bind options so_sessionId)),
         (''text'', JObj [(''verbosity'', JStr (enum_name verbosity_table (verbosity (codex config))))])]))"

definition asRequest :: "js \<Rightarrow> (stream_error, js_object) result" where
  "asRequest v = (case as_record v of
     None \<Rightarrow> Inl (StreamOther ''OpenAI Codex provider payload is invalid'')
   | Some rq \<Rightarrow> if \<not> strict_js v \<or> as_array (get_prop rq ''input'') = None
       then Inl (StreamOther ''OpenAI Codex provider payload is invalid'') else Inr rq)"

section \<open>The run\<close>

record dispatch =
  dp_connection :: js
  dp_request :: js
  dp_transportMode :: js
  dp_providerSupportsWebsockets :: js
  dp_remoteContext :: "js option"

record response_answer =
  an_status :: string
  an_result :: js

datatype stream_event =
    StartEvent
  | BlockEvent message_event
  | DoneEvent stop_reason
  | ErrorEvent bool string

record stream_local =
  sl_response :: ResponseState
  sl_stream :: "stream_event list"
  sl_ended :: nat
  sl_dispatched :: "(dispatch \<times> CodexProviderRequestGuard) list"
  sl_record :: "nat option"

type_synonym ('h, 'a) stream_call = "('h replay_world, stream_error, 'a) step"
type_synonym ('h, 'a) stream_step = "('h replay_world \<times> stream_local, stream_error, 'a) step"

text \<open>
  The surroundings. \<open>se_guarded\<close> says whether the adaptor has a request guard, \<open>se_aborted\<close> reads the signal
  of the options, \<open>se_onPayload\<close> is the callback of the host with the record that is current in its
  asynchronous scope (\<open>JUndef\<close> for no replacement), \<open>se_snapshotJs\<close> is the snapshot as an object, and
  \<open>se_cause\<close> the error that was recorded with a text.
\<close>

record 'h stream_env =
  se_platform :: platform
  se_parseUrl :: "string \<Rightarrow> url option"
  se_urlText :: "url \<Rightarrow> string"
  se_heap :: heap
  se_parse :: "string \<Rightarrow> js option"
  se_stringify :: "js \<Rightarrow> string"
  se_sha :: "js \<Rightarrow> string"
  se_profileEnv :: "'h profile_env"
  se_active :: "ProviderActivationModel option \<Rightarrow> bool"
  se_snapshotJs :: "EffectiveCapabilitySnapshot \<Rightarrow> js"
  se_cause :: "string \<Rightarrow> stream_error"
  se_guarded :: bool
  se_aborted :: "'h replay_world \<Rightarrow> bool"
  se_load :: "('h, CodexConfig) stream_call"
  se_resolve :: "ResolveEffectiveCapabilitiesInput \<Rightarrow> ('h, EffectiveCapabilitySnapshot) stream_call"
  se_onPayload :: "(nat option \<Rightarrow> js \<Rightarrow> ('h, js) stream_call) option"
  se_respond :: "dispatch \<Rightarrow> 'h replay_world \<Rightarrow> (js list \<times> (stream_error, response_answer) result) \<times> 'h replay_world"

definition on_world :: "('w, 'e, 'a) step \<Rightarrow> ('w \<times> 'l, 'e, 'a) step" where
  "on_world m s = (case m (fst s) of (r, w) \<Rightarrow> (r, (w, snd s)))"

definition on_local :: "('l \<Rightarrow> 'l) \<Rightarrow> ('w \<times> 'l, 'e, unit) step" where
  "on_local f = st_modify (\<lambda>(w, l). (w, f l))"

definition guard_result :: "'h stream_env \<Rightarrow> (guard_error, 'a) result \<Rightarrow> (stream_error, 'a) result" where
  "guard_result env r = (case r of
     Inr a \<Rightarrow> Inr a
   | Inl (RecordedFailure cause) \<Rightarrow> Inl (se_cause env cause)
   | Inl RecordUnavailable \<Rightarrow> Inl (StreamOther ''Codex provider request approval is unavailable'')
   | Inl RecordRejected \<Rightarrow> Inl (StreamOther ''Codex provider request failed approval''))"

text \<open>The events that a change of the message pushes.\<close>

definition update_response :: "(ResponseState \<Rightarrow> ResponseState) \<Rightarrow> stream_local \<Rightarrow> stream_local" where
  "update_response f l = (let s = f (sl_response l) in
     l\<lparr>sl_response := s,
       sl_stream := sl_stream l @ map BlockEvent (drop (length (rs_stream (sl_response l))) (rs_stream s))\<rparr>)"

definition push_terminal :: "stream_event \<Rightarrow> stream_local \<Rightarrow> stream_local" where
  "push_terminal e l = l\<lparr>sl_stream := sl_stream l @ [e], sl_ended := sl_ended l + 1\<rparr>"

definition CUSTOM_FETCH_UNSUPPORTED_REASON :: string where
  "CUSTOM_FETCH_UNSUPPORTED_REASON = ''Codex provider does not support custom fetch for native dispatch''"

definition js_prop :: "js \<Rightarrow> string \<Rightarrow> js" where
  "js_prop v k = (case v of JObj ob \<Rightarrow> get_prop ob k | _ \<Rightarrow> JUndef)"

definition guard_check :: "'h stream_env \<Rightarrow> (CodexProviderRequestGuard \<Rightarrow> (guard_error, 'a) result) \<Rightarrow> ('h, 'a) stream_step" where
  "guard_check env f s = (guard_result env (f (rw_guard (fst s))), s)"

definition record_input ::
  "'h stream_env \<Rightarrow> stream_model \<Rightarrow> stream_options \<Rightarrow> string \<Rightarrow> CodexProviderConnection \<Rightarrow> CodexConfig \<Rightarrow>
     EffectiveCapabilitySnapshot \<Rightarrow> js_object \<Rightarrow> CodexProviderRequestRecordInput" where
  "record_input env m options sid connection config snapshot rq = \<lparr>in_options = so_value options, in_sessionId = sid,
     in_model = sm_object m, in_request = JObj rq, in_inputLedger = JArr (array_or_empty (get_prop rq ''input'')),
     in_connection = connection_js connection, in_recordConfig = config_js config, in_capabilities = se_snapshotJs env snapshot\<rparr>"

definition open_record :: "'h stream_env \<Rightarrow> CodexProviderRequestRecordInput \<Rightarrow> ('h, nat) stream_step" where
  "open_record env inp s = (case s of (w, l) \<Rightarrow>
     (case guard_open (se_sha env) inp (se_aborted env w) (rw_guard w) of (r, g) \<Rightarrow>
       (case guard_result env r of
          Inl e \<Rightarrow> (Inl e, (w\<lparr>rw_guard := g\<rparr>, l))
        | Inr i \<Rightarrow> (Inr i, (w\<lparr>rw_guard := g\<rparr>, l\<lparr>sl_record := Some i\<rparr>)))))"

text \<open>The callback of the host in the scope of a record, and its replacement of the request.\<close>

definition ask_payload :: "'h stream_env \<Rightarrow> nat option \<Rightarrow> js_object \<Rightarrow> ('h, js_object) stream_step" where
  "ask_payload env current rq =
     st_bind (case se_onPayload env of None \<Rightarrow> st_return JUndef | Some callback \<Rightarrow> on_world (callback current (JObj rq))) (\<lambda>replacement.
       if replacement = JUndef then st_return rq else st_lift (asRequest replacement))"

text \<open>What is sent: the approved request with the connection, the transport and the capability of its record.\<close>

definition approved_dispatch :: "js \<Rightarrow> CodexProviderRequestRecord \<Rightarrow> js option \<Rightarrow> dispatch" where
  "approved_dispatch approved rec remote = \<lparr>dp_connection = gr_connection rec, dp_request = approved,
     dp_transportMode = js_prop (js_prop (js_prop (gr_config rec) ''codex'') ''transport'') ''mode'',
     dp_providerSupportsWebsockets = js_prop (gr_capabilities rec) ''providerSupportsWebsockets'', dp_remoteContext = remote\<rparr>"

definition plain_dispatch ::
  "js_object \<Rightarrow> CodexProviderConnection \<Rightarrow> CodexConfig \<Rightarrow> EffectiveCapabilitySnapshot \<Rightarrow> js option \<Rightarrow> dispatch" where
  "plain_dispatch rq connection config snapshot remote = \<lparr>dp_connection = connection_js connection, dp_request = JObj rq,
     dp_transportMode = JStr (enum_name transport_table (transportMode (codex config))),
     dp_providerSupportsWebsockets = JBool (eff_providerSupportsWebsockets snapshot), dp_remoteContext = remote\<rparr>"

text \<open>\<open>assertApproved\<close> has found the record live, so the second \<open>assertLive\<close> only reads it.\<close>

definition guarded_dispatch ::
  "'h stream_env \<Rightarrow> CodexProviderRequestRecordInput \<Rightarrow> js_object \<Rightarrow> js option \<Rightarrow> ('h, dispatch) stream_step" where
  "guarded_dispatch env inp rq remote =
     st_bind (open_record env inp) (\<lambda>i.
     st_bind (guard_check env (assertLive i)) (\<lambda>_.
     st_bind (ask_payload env (Some i) rq) (\<lambda>rq'.
     st_bind (guard_check env (assertApproved (se_sha env) i (JObj rq'))) (\<lambda>approved.
     st_bind (guard_check env (assertLive i)) (\<lambda>rec. st_return (approved_dispatch approved rec remote))))))"

definition prepare_dispatch ::
  "'h stream_env \<Rightarrow> stream_model \<Rightarrow> stream_options option \<Rightarrow> CodexProviderConnection \<Rightarrow> CodexConfig \<Rightarrow>
     EffectiveCapabilitySnapshot \<Rightarrow> js_object \<Rightarrow> ('h, dispatch) stream_step" where
  "prepare_dispatch env m options connection config snapshot rq =
    (let remote = remoteCompactionV2Context (map_option implementation_name (eff_compaction_implementation snapshot))
           (Option.bind options so_sessionId) None
     in if se_guarded env
        then (case options of
            None \<Rightarrow> st_throw (StreamOther ''Codex provider session route is unavailable'')
          | Some ops \<Rightarrow>
             (case so_sessionId ops of
                None \<Rightarrow> st_throw (StreamOther ''Codex provider session route is unavailable'')
              | Some sid \<Rightarrow> guarded_dispatch env (record_input env m ops sid connection config snapshot rq) rq remote))
        else st_bind (if options = None then st_return rq else ask_payload env None rq) (\<lambda>rq'.
          st_return (plain_dispatch rq' connection config snapshot remote)))"

definition respond :: "'h stream_env \<Rightarrow> dispatch \<Rightarrow> ('h, response_answer) stream_step" where
  "respond env d s = (case s of (w, l) \<Rightarrow>
     (case se_respond env d w of ((events, r), w1) \<Rightarrow>
       (r, (w1, update_response (accept_events (se_parse env) (se_stringify env) events)
          (l\<lparr>sl_dispatched := sl_dispatched l @ [(d, rw_guard w)]\<rparr>)))))"

definition complete_step :: "response_answer \<Rightarrow> ('h, unit) stream_step" where
  "complete_step answer =
    (if an_status answer = ''completed'' then on_local (update_response (complete_response (an_result answer) TerminalStop))
     else if an_status answer = ''incomplete'' then on_local (update_response (complete_response (an_result answer) TerminalLength))
     else st_throw (StreamOther (''OpenAI Codex response ended with status '' @ an_status answer)))"

definition usage_report :: "jsnum \<Rightarrow> request_accounting \<Rightarrow> CodexContextUsageBaseline" where
  "usage_report n a = \<lparr>totalTokens = n, inputItemCount = Fin (of_nat (ra_inputItemCount a)), inputDigest = ra_inputDigest a,
     instructionsDigest = ra_instructionsDigest a\<rparr>"

definition report_usage ::
  "'h stream_env \<Rightarrow> string \<Rightarrow> nat \<Rightarrow> request_accounting \<Rightarrow> js \<Rightarrow> js \<Rightarrow> ('h, unit) stream_step" where
  "report_usage env sid i a rq v =
    (case responseTotalTokens v of None \<Rightarrow> st_return () | Some n \<Rightarrow>
     (case as_array (js_prop rq ''input'') of None \<Rightarrow> st_return () | Some inp \<Rightarrow>
     (case as_string (js_prop rq ''instructions'') of None \<Rightarrow> st_return () | Some instructions \<Rightarrow>
       if length inp \<noteq> ra_inputItemCount a then st_return ()
       else st_bind (st_lift (guard_result env (digestJson (se_sha env) (JArr inp)))) (\<lambda>d.
         if d \<noteq> ra_inputDigest a then st_return ()
         else st_bind (st_lift (guard_result env (digestJson (se_sha env) (JStr instructions)))) (\<lambda>d'.
           if d' \<noteq> ra_instructionsDigest a then st_return ()
           else st_modify (\<lambda>(w, l). (w\<lparr>rw_store := snd (recordContextUsage sid (ra_identity a) (ra_generation a) i
             (usage_report n a) (rw_store w))\<rparr>, l)))))))"

definition account_usage :: "'h stream_env \<Rightarrow> string option \<Rightarrow> js \<Rightarrow> js \<Rightarrow> ('h, unit) stream_step" where
  "account_usage env sid rq v = st_bind (st_read (\<lambda>(w, l). Option.bind (sl_record l) (\<lambda>i. map_option (Pair i) (rw_accounting w i)))) (\<lambda>acc.
     case (acc, sid) of
       (Some (i, a), Some s) \<Rightarrow> report_usage env s i a rq v
     | _ \<Rightarrow> st_return ())"

definition finish_stream :: "('h, unit) stream_step" where
  "finish_stream = st_bind (st_read (\<lambda>(w, l). rs_stopReason (sl_response l))) (\<lambda>reason.
     if reason = StopPending then st_throw (StreamOther ''OpenAI Codex response ended without a terminal success reason'')
     else on_local (push_terminal (DoneEvent reason)))"

definition exchange :: "'h stream_env \<Rightarrow> string option \<Rightarrow> dispatch \<Rightarrow> ('h, unit) stream_step" where
  "exchange env sid d =
     st_bind (respond env d) (\<lambda>answer.
     st_bind (st_read (\<lambda>(w, l). an_status answer = ''aborted'' \<or> se_aborted env w)) (\<lambda>ab.
     if ab then st_throw StreamAbort
     else
     st_bind (complete_step answer) (\<lambda>_.
     st_bind (account_usage env sid (dp_request d) (an_result answer)) (\<lambda>_. finish_stream))))"

definition stream_input :: "stream_model \<Rightarrow> CodexConfig \<Rightarrow> string list \<Rightarrow> ResolveEffectiveCapabilitiesInput" where
  "stream_input m config hostTools = \<lparr>in_modelId = sm_id m, in_providerId = sm_provider m, in_modelInputModalities = sm_input m,
     in_config = config, in_contextWindow = Some (sm_contextWindow m), in_hostToolNames = Some hostTools\<rparr>"

definition no_connection_options :: connection_options where
  "no_connection_options = \<lparr>co_apiKey = None, co_headers = None, co_maxRetries = None, co_timeoutMs = None,
     co_websocketConnectTimeoutMs = None\<rparr>"

text \<open>The body of the \<open>try\<close>.\<close>

definition run_body ::
  "'h stream_env \<Rightarrow> stream_model \<Rightarrow> stream_context \<Rightarrow> stream_options option \<Rightarrow> ('h, unit) stream_step" where
  "run_body env m cx options =
     st_bind (st_check (case options of None \<Rightarrow> True | Some ops \<Rightarrow> \<not> so_fetch ops)
        (StreamCapability CUSTOM_FETCH_UNSUPPORTED_REASON)) (\<lambda>_.
     st_bind (st_check (se_active env (Some \<lparr>am_provider = sm_provider m, am_api = sm_api m\<rparr>))
        (StreamCapability ''Codex dispatch is inactive for the selected provider and API'')) (\<lambda>_.
     st_bind (st_lift (case createProviderConnection (se_platform env) (se_parseUrl env) (se_urlText env) (sm_provider m)
          (sm_baseUrl m) (case options of None \<Rightarrow> no_connection_options | Some ops \<Rightarrow> so_connection ops) of
        Inl e \<Rightarrow> Inl (StreamOther e) | Inr c \<Rightarrow> Inr c)) (\<lambda>connection.
     st_bind (on_world (se_load env)) (\<lambda>config.
     st_bind (st_read (\<lambda>(w, l). registeredManagedTools (se_profileEnv env) (rw_profile w))) (\<lambda>hostTools.
     st_bind (st_read (\<lambda>(w, l). isHealthy (se_stringify env (capabilityCacheKey (stream_input m config hostTools))) (rw_profile w))) (\<lambda>healthy.
     st_bind (st_check healthy (StreamCapability ''Codex tool profile is unavailable for the selected capability'')) (\<lambda>_.
     st_bind (on_world (se_resolve env (stream_input m config hostTools))) (\<lambda>snapshot.
     st_bind (st_lift (case buildCodexRequest (se_heap env) (se_parse env) (se_stringify env) m cx options config
          (eff_modelTools snapshot) snapshot of
        Inl _ \<Rightarrow> Inl (StreamOther ''OpenAI Codex message history is invalid'') | Inr rq \<Rightarrow> Inr rq)) (\<lambda>rq.
     st_bind (prepare_dispatch env m options connection config snapshot rq) (\<lambda>d.
       exchange env (Option.bind options so_sessionId) d))))))))))"

definition fail_stream :: "'h stream_env \<Rightarrow> stream_error \<Rightarrow> ('h, unit) stream_step" where
  "fail_stream env e = st_bind (st_read (\<lambda>(w, l). se_aborted env w \<or> e = StreamAbort)) (\<lambda>ab.
     on_local (push_terminal (ErrorEvent ab (toPiProviderErrorMessage e))))"

definition consume_record :: "'h replay_world \<times> stream_local \<Rightarrow> 'h replay_world \<times> stream_local" where
  "consume_record s = (case sl_record (snd s) of
     None \<Rightarrow> s | Some i \<Rightarrow> ((fst s)\<lparr>rw_guard := consume i (rw_guard (fst s))\<rparr>, snd s))"

definition start_local :: stream_local where
  "start_local = \<lparr>sl_response = createOutput, sl_stream = [StartEvent], sl_ended = 0, sl_dispatched = [], sl_record = None\<rparr>"

definition runResponse ::
  "'h stream_env \<Rightarrow> stream_model \<Rightarrow> stream_context \<Rightarrow> stream_options option \<Rightarrow> ('h, unit) stream_step" where
  "runResponse env m cx options = st_finally (st_catch (run_body env m cx options) (fail_stream env)) consume_record"

text \<open>The stream function: the options are copied before anything else, and a value that is not a record throws.\<close>

definition createCodexStreamSimple ::
  "'h stream_env \<Rightarrow> stream_model \<Rightarrow> stream_context \<Rightarrow> stream_options option \<Rightarrow> 'h replay_world \<Rightarrow>
     (guard_error, stream_local) result \<times> 'h replay_world" where
  "createCodexStreamSimple env m cx options w =
    (case snapshotSimpleStreamOptions (case options of None \<Rightarrow> JUndef | Some ops \<Rightarrow> so_value ops) of
       Inl e \<Rightarrow> (Inl e, w)
     | Inr _ \<Rightarrow> (case runResponse env m cx options (w, start_local) of (_, (w1, l)) \<Rightarrow> (Inr l, w1)))"

section \<open>The events only grow\<close>

definition grows :: "(ResponseState \<Rightarrow> ResponseState) \<Rightarrow> bool" where
  "grows f \<longleftrightarrow> (\<forall>s. \<exists>es. rs_stream (f s) = rs_stream s @ es)"

lemma growsI: "(\<And>s. \<exists>es. rs_stream (f s) = rs_stream s @ es) \<Longrightarrow> grows f"
  by (simp add: grows_def)

lemma growsD: "grows f \<Longrightarrow> \<exists>es. rs_stream (f s) = rs_stream s @ es"
  by (simp add: grows_def)

lemma grows_comp: "grows f \<Longrightarrow> grows g \<Longrightarrow> grows (\<lambda>s. f (g s))"
  unfolding grows_def by (metis append.assoc)

lemma grows_end: "grows endText" "grows endThinking" "grows endOpenBlocks"
proof -
  show 1: "grows endText" "grows endThinking"
    by (auto intro!: growsI simp: endText_def endThinking_def push_event_def split: option.split ContentBlock.split)
  show "grows endOpenBlocks" unfolding endOpenBlocks_def by (rule grows_comp [OF 1(2,1)])
qed

lemma grows_ensure: "grows (\<lambda>s. snd (ensureText s))" "grows (\<lambda>s. snd (ensureThinking s))"
proof -
  have "\<exists>es. rs_stream (snd (ensureText s)) = rs_stream s @ es" for s
    using grows_end(2) [unfolded grows_def, rule_format, of s] by (auto simp: ensureText_def push_event_def Let_def split: option.split)
  moreover have "\<exists>es. rs_stream (snd (ensureThinking s)) = rs_stream s @ es" for s
    using grows_end(1) [unfolded grows_def, rule_format, of s] by (auto simp: ensureThinking_def push_event_def Let_def split: option.split)
  ultimately show "grows (\<lambda>s. snd (ensureText s))" "grows (\<lambda>s. snd (ensureThinking s))" by (simp_all add: grows_def)
qed

lemma grows_append: "grows (appendText d)" "grows (appendThinking d)"
proof -
  have "\<exists>es. rs_stream (appendText d s) = rs_stream s @ es" for s
    using grows_ensure(1) [unfolded grows_def, rule_format, of s]
    by (cases "ensureText s") (auto simp: appendText_def push_event_def split: option.split ContentBlock.split)
  moreover have "\<exists>es. rs_stream (appendThinking d s) = rs_stream s @ es" for s
    using grows_ensure(2) [unfolded grows_def, rule_format, of s]
    by (cases "ensureThinking s") (auto simp: appendThinking_def push_event_def split: option.split ContentBlock.split)
  ultimately show "grows (appendText d)" "grows (appendThinking d)" by (simp_all add: grows_def)
qed

lemma grows_completed: "grows (applyCompletedText v)" "grows (applyCompletedThinking v)"
proof -
  have "\<exists>es. rs_stream (applyCompletedText v s) = rs_stream s @ es" for s
  proof -
    obtain i s1 where e: "ensureText s = (i, s1)" by force
    from grows_ensure(1) [unfolded grows_def, rule_format, of s] e obtain es where "rs_stream s1 = rs_stream s @ es" by auto
    moreover have "\<exists>es'. rs_stream (appendText d s1) = rs_stream s1 @ es'" for d by (rule growsD [OF grows_append(1)])
    then obtain es' where "rs_stream (appendText d s1) = rs_stream s1 @ es' d" for d by metis
    ultimately show ?thesis using e by (auto simp: applyCompletedText_def Let_def split: js.split option.split ContentBlock.split)
  qed
  moreover have "\<exists>es. rs_stream (applyCompletedThinking v s) = rs_stream s @ es" for s
  proof -
    obtain i s1 where e: "ensureThinking s = (i, s1)" by force
    from grows_ensure(2) [unfolded grows_def, rule_format, of s] e obtain es where "rs_stream s1 = rs_stream s @ es" by auto
    moreover have "\<exists>es'. rs_stream (appendThinking d s1) = rs_stream s1 @ es'" for d by (rule growsD [OF grows_append(2)])
    then obtain es' where "rs_stream (appendThinking d s1) = rs_stream s1 @ es' d" for d by metis
    ultimately show ?thesis using e by (auto simp: applyCompletedThinking_def Let_def split: js.split option.split ContentBlock.split)
  qed
  ultimately show "grows (applyCompletedText v)" "grows (applyCompletedThinking v)" by (simp_all add: grows_def)
qed

lemma grows_signature: "grows (\<lambda>s. snd (applyTextSignature f item s))" "grows (\<lambda>s. snd (applyThinkingSignature f item s))"
proof -
  have "\<exists>es. rs_stream (snd (applyTextSignature f item s)) = rs_stream s @ es" for s
    using grows_ensure(1) [unfolded grows_def, rule_format, of s]
    by (cases "ensureText s") (auto simp: applyTextSignature_def split: option.split ContentBlock.split sum.split)
  moreover have "\<exists>es. rs_stream (snd (applyThinkingSignature f item s)) = rs_stream s @ es" for s
    using grows_ensure(2) [unfolded grows_def, rule_format, of s]
    by (cases "ensureThinking s") (auto simp: applyThinkingSignature_def split: option.split ContentBlock.split sum.split)
  ultimately show "grows (\<lambda>s. snd (applyTextSignature f item s))" "grows (\<lambda>s. snd (applyThinkingSignature f item s))"
    by (simp_all add: grows_def)
qed

lemma grows_blocks:
  "grows (addToolCall tc)" "grows (\<lambda>s. snd (consumeOpaqueItem f item s))" "grows (\<lambda>s. snd (consumeHostedWebSearch f item s))"
proof -
  obtain es where "rs_stream (endOpenBlocks s) = rs_stream s @ es s" for s using grows_end(3) unfolding grows_def by metis
  then show "grows (addToolCall tc)" "grows (\<lambda>s. snd (consumeOpaqueItem f item s))"
    "grows (\<lambda>s. snd (consumeHostedWebSearch f item s))"
    by (auto intro!: growsI simp: addToolCall_def consumeOpaqueItem_def consumeHostedWebSearch_def push_event_def Let_def split: sum.split)
qed

lemma grows_finish: "grows (\<lambda>s. snd (finishItem parse f v s))"
  by (rule growsI) (simp add: finishItem_def growsD [OF grows_comp [OF grows_signature(1) grows_completed(1)]]
      growsD [OF grows_comp [OF grows_signature(2) grows_completed(2)]] grows_blocks [THEN growsD] split: option.split js.split sum.split)

lemma grows_accept: "grows (\<lambda>s. snd (accept_event parse f v s))"
  by (rule growsI) (simp add: accept_event_def grows_append [THEN growsD] grows_finish [THEN growsD] split: option.split js.split)

lemma grows_events: "grows (accept_events parse f vs)"
  unfolding accept_events_def
proof (induction vs)
  case (Cons v vs)
  have "fold (\<lambda>v s. snd (accept_event parse f v s)) (v # vs) =
      (\<lambda>s. fold (\<lambda>v s. snd (accept_event parse f v s)) vs (snd (accept_event parse f v s)))" by (simp add: fun_eq_iff)
  then show ?case using grows_comp [OF Cons.IH grows_accept] by simp
qed (simp add: grows_def)

lemma grows_complete: "grows (complete_response v r)"
  using grows_end(3) by (simp add: grows_def complete_frame)

lemma update_stream:
  assumes "grows f" and "sl_stream l = StartEvent # map BlockEvent (rs_stream (sl_response l))"
  shows "sl_stream (update_response f l) = StartEvent # map BlockEvent (rs_stream (sl_response (update_response f l)))"
proof -
  from assms(1) obtain es where "rs_stream (f (sl_response l)) = rs_stream (sl_response l) @ es" unfolding grows_def by blast
  with assms(2) show ?thesis by (simp add: update_response_def Let_def)
qed

section \<open>The shape of the stream\<close>

definition streaming :: "stream_local \<Rightarrow> bool" where
  "streaming l \<longleftrightarrow> response_inv (sl_response l) \<and> sl_ended l = 0 \<and>
     sl_stream l = StartEvent # map BlockEvent (rs_stream (sl_response l))"

definition completed :: "stream_local \<Rightarrow> bool" where
  "completed l \<longleftrightarrow> streaming l \<and> idle (sl_response l) \<and> rs_stopReason (sl_response l) \<noteq> StopPending"

definition terminated :: "stream_local \<Rightarrow> bool" where
  "terminated l \<longleftrightarrow> sl_ended l = 1 \<and> consume_all (rs_stream (sl_response l)) \<noteq> None \<and>
     (\<exists>t. sl_stream l = StartEvent # map BlockEvent (rs_stream (sl_response l)) @ [t] \<and>
        (case t of
           DoneEvent reason \<Rightarrow> reason = rs_stopReason (sl_response l) \<and> reason \<noteq> StopPending \<and>
             consume_all (rs_stream (sl_response l)) = Some (map shape (rs_content (sl_response l)), None)
         | ErrorEvent _ _ \<Rightarrow> True
         | _ \<Rightarrow> False))"

lemma complete_idle: "response_inv s \<Longrightarrow> calls_flagged (complete_response v r s) \<and> idle (complete_response v r s)"
  using end_blocks [of s]
  by (simp add: complete_response_def applyUsage_def response_defs Let_def split: option.split js.split terminal_reason.split)

lemma complete_reason: "rs_stopReason (complete_response v r s) \<noteq> StopPending"
  by (simp add: complete_frame split: terminal_reason.split)

lemma streaming_update:
  assumes "grows f" and "response_inv (sl_response l) \<Longrightarrow> response_inv (f (sl_response l))" and "streaming l"
  shows "streaming (update_response f l)"
proof -
  have s: "sl_stream l = StartEvent # map BlockEvent (rs_stream (sl_response l))" using assms(3) by (simp add: streaming_def)
  have "sl_response (update_response f l) = f (sl_response l)" "sl_ended (update_response f l) = sl_ended l"
    by (simp_all add: update_response_def Let_def)
  with update_stream [OF assms(1) s] assms(2,3) show ?thesis by (simp add: streaming_def)
qed

lemma completed_update: "streaming l \<Longrightarrow> completed (update_response (complete_response v r) l)"
proof -
  assume s: "streaming l"
  then have c: "calls_flagged (complete_response v r (sl_response l)) \<and> idle (complete_response v r (sl_response l))"
    by (intro complete_idle) (simp add: streaming_def)
  then have "streaming (update_response (complete_response v r) l)" by (intro streaming_update grows_complete s invI(1)) simp_all
  with c show ?thesis by (simp add: completed_def update_response_def Let_def complete_reason)
qed

subsection \<open>Steps that leave the local state alone\<close>

lemma local_world: "preserves (\<lambda>s. P (snd s)) (on_world m)"
  by (auto simp: preserves_def on_world_def split: prod.split)

lemma local_guard: "preserves (\<lambda>s. P (snd s)) (guard_check env f)"
  by (simp add: preserves_def guard_check_def)

lemma local_store: "preserves (\<lambda>s. P (snd s)) (st_modify (\<lambda>(w, l). (f w, l)))"
  by (auto simp: preserves_def st_modify_def)

lemma local_ask: "preserves (\<lambda>s. P (snd s)) (ask_payload env current rq)"
  unfolding ask_payload_def by (intro preserves_rules local_world)

lemma local_usage: "preserves (\<lambda>s. P (snd s)) (account_usage env sid rq v)"
proof -
  have report: "preserves (\<lambda>s. P (snd s)) (report_usage env s i a rq v)" for s i a
    unfolding report_usage_def by (intro preserves_rules local_store)
  show ?thesis unfolding account_usage_def
    by (intro preserves_rules) (auto split: option.split intro: report preserves_basic(1))
qed

lemmas local_rules = local_world local_guard local_ask local_usage

lemma streaming_open: "preserves (\<lambda>s. streaming (snd s)) (open_record env inp)"
  by (auto simp: preserves_def open_record_def streaming_def split: prod.split sum.split)

lemma streaming_prepare: "preserves (\<lambda>s. streaming (snd s)) (prepare_dispatch env m options connection config snapshot rq)"
  unfolding prepare_dispatch_def guarded_dispatch_def Let_def by (intro preserves_rules streaming_open local_rules)

lemma streaming_respond: "preserves (\<lambda>s. streaming (snd s)) (respond env d)"
proof -
  have "streaming (update_response (accept_events p f vs) (l\<lparr>sl_dispatched := x\<rparr>))" if "streaming l" for p f vs l x
    by (rule streaming_update [OF grows_events accept_events_inv]) (use that in \<open>simp_all add: streaming_def\<close>)
  then show ?thesis by (auto simp: preserves_def respond_def split: prod.split)
qed

lemma exchange_stream:
  "triple (\<lambda>s. streaming (snd s)) (exchange env sid d) (\<lambda>_ s. terminated (snd s)) (\<lambda>_ s. streaming (snd s))"
proof -
  have complete: "triple (\<lambda>s. streaming (snd s)) (complete_step answer) (\<lambda>_ s. completed (snd s)) (\<lambda>_ s. streaming (snd s))" for answer
    by (auto simp: triple_def complete_step_def on_local_def step_defs completed_update)
  have usage: "triple (\<lambda>s. completed (snd s)) (account_usage env sid rq v) (\<lambda>_ s. completed (snd s)) (\<lambda>_ s. streaming (snd s))" for rq v
    by (rule triple_conseq [OF triple_preserves [OF local_usage [where P = completed]]]) (simp_all add: completed_def)
  have finish: "triple (\<lambda>s. completed (snd s)) finish_stream (\<lambda>_ s. terminated (snd s)) (\<lambda>_ s. streaming (snd s))"
    by (auto simp: triple_def finish_stream_def st_bind_read on_local_def step_defs completed_def streaming_def terminated_def
        push_terminal_def idle_def)
  show ?thesis unfolding exchange_def
  proof (intro triple_bind_preserves streaming_respond preserves_basic)
    fix answer ab
    show "triple (\<lambda>s. streaming (snd s)) (if ab then st_throw StreamAbort
        else st_bind (complete_step answer) (\<lambda>_. st_bind (account_usage env sid (dp_request d) (an_result answer)) (\<lambda>_. finish_stream)))
      (\<lambda>_ s. terminated (snd s)) (\<lambda>_ s. streaming (snd s))"
      by (cases ab) (auto intro!: triple_bind [OF complete] triple_bind [OF usage] finish simp: triple_def [of _ "st_throw _"] st_throw_def)
  qed
qed

lemma run_stream:
  "triple (\<lambda>s. streaming (snd s)) (run_body env m cx options) (\<lambda>_ s. terminated (snd s)) (\<lambda>_ s. streaming (snd s))"
  unfolding run_body_def by (intro triple_bind_preserves preserves_basic local_world streaming_prepare exchange_stream)

lemma fail_stream_terminated:
  "triple (\<lambda>s. streaming (snd s)) (fail_stream env e) (\<lambda>_ s. terminated (snd s)) (\<lambda>_ _. False)"
proof -
  have "consume_all (rs_stream s) \<noteq> None" if "response_inv s" for s
    using that by (cases rule: response_inv_cases) (simp_all add: response_defs)
  then show ?thesis
    by (auto simp: triple_def fail_stream_def st_bind_read on_local_def step_defs streaming_def terminated_def push_terminal_def)
qed

lemma runResponse_terminates:
  "triple (\<lambda>s. streaming (snd s)) (runResponse env m cx options) (\<lambda>_ s. terminated (snd s)) (\<lambda>_ _. False)"
proof -
  have c: "snd (consume_record s) = snd s" for s :: "'h replay_world \<times> stream_local"
    by (simp add: consume_record_def split: option.split)
  show ?thesis unfolding runResponse_def
    by (rule triple_finally) (simp add: c triple_catch [OF run_stream fail_stream_terminated])
qed

section \<open>What is sent\<close>

definition log_approved :: "'h stream_env \<Rightarrow> stream_local \<Rightarrow> bool" where
  "log_approved env l \<longleftrightarrow> (if se_guarded env
     then list_all (\<lambda>(d, g). \<exists>i rq. sl_record l = Some i \<and> assertApproved (se_sha env) i rq g = Inr (dp_request d)) (sl_dispatched l)
     else sl_record l = None)"

definition unsent :: "'h stream_env \<Rightarrow> stream_local \<Rightarrow> bool" where
  "unsent env l \<longleftrightarrow> sl_dispatched l = [] \<and> (\<not> se_guarded env \<longrightarrow> sl_record l = None)"

definition ready :: "'h stream_env \<Rightarrow> dispatch \<Rightarrow> 'h replay_world \<times> stream_local \<Rightarrow> bool" where
  "ready env d s \<longleftrightarrow> unsent env (snd s) \<and> (se_guarded env \<longrightarrow>
     (\<exists>i rq. sl_record (snd s) = Some i \<and> assertApproved (se_sha env) i rq (rw_guard (fst s)) = Inr (dp_request d)))"

lemma unsent_logged: "unsent env l \<Longrightarrow> log_approved env l"
  by (simp add: unsent_def log_approved_def)

lemma guard_result_Inr [simp]: "guard_result env r = Inr a \<longleftrightarrow> r = Inr a"
  by (cases r) (auto simp: guard_result_def split: guard_error.split)

lemma guarded_ready:
  assumes "se_guarded env"
  shows "triple (\<lambda>s. unsent env (snd s)) (guarded_dispatch env inp rq remote) (ready env) (\<lambda>_ s. unsent env (snd s))"
proof -
  let ?R = "\<lambda>i s. unsent env (snd s) \<and> sl_record (snd s) = Some i"
  have open_rec: "triple (\<lambda>s. unsent env (snd s)) (open_record env inp) ?R (\<lambda>_ s. unsent env (snd s))"
    using assms by (auto simp: triple_def open_record_def unsent_def split: prod.split sum.split)
  have keep: "triple (?R i) m (\<lambda>_. ?R i) (\<lambda>_ s. unsent env (snd s))" if "preserves (?R i) m" for i m
    by (rule triple_conseq [OF triple_preserves [OF that]]) simp_all
  have live: "preserves (?R i) (guard_check env f)" "preserves (?R i) (ask_payload env c rq)" for i f c
    by (rule local_guard [of "\<lambda>l. unsent env l \<and> sl_record l = Some i"] local_ask [of "\<lambda>l. unsent env l \<and> sl_record l = Some i"])+
  have last: "triple (?R i) (st_bind (guard_check env (assertApproved (se_sha env) i (JObj rq'))) (\<lambda>approved.
      st_bind (guard_check env (assertLive i)) (\<lambda>rec. st_return (approved_dispatch approved rec remote)))) (ready env)
      (\<lambda>_ s. unsent env (snd s))" for i rq'
    by (auto simp: triple_def st_bind_def guard_check_def st_return_def ready_def approved_dispatch_def split: prod.split sum.split)
  show ?thesis unfolding guarded_dispatch_def
    by (intro triple_bind [OF open_rec] triple_bind [OF keep [OF live(1)]] triple_bind [OF keep [OF live(2)]] last)
qed

lemma prepare_ready:
  "triple (\<lambda>s. unsent env (snd s)) (prepare_dispatch env m options connection config snapshot rq) (ready env) (\<lambda>_ s. unsent env (snd s))"
proof (cases "se_guarded env")
  case True
  have throw: "triple P (st_throw e) Q (\<lambda>_. P)" for P Q and e :: stream_error by (simp add: triple_def st_throw_def)
  show ?thesis unfolding prepare_dispatch_def Let_def using True
    by (cases options) (simp_all add: throw guarded_ready [OF True] split: option.split)
next
  case False
  have "triple (\<lambda>s. unsent env (snd s)) (st_return (plain_dispatch rq' connection config snapshot r)) (ready env) (\<lambda>_ s. unsent env (snd s))" for rq' r
    using False by (simp add: triple_def st_return_def ready_def)
  then show ?thesis using False
    by (cases options) (auto simp: prepare_dispatch_def Let_def intro!: triple_bind_preserves local_ask preserves_basic)
qed

lemma exchange_logged:
  "triple (ready env d) (exchange env sid d) (\<lambda>_ s. log_approved env (snd s)) (\<lambda>_ s. log_approved env (snd s))"
proof -
  have respond: "triple (ready env d) (respond env d) (\<lambda>_ s. log_approved env (snd s)) (\<lambda>_ s. log_approved env (snd s))"
    by (auto simp: triple_def respond_def ready_def unsent_def log_approved_def update_response_def Let_def split: prod.split sum.split)
  have local: "preserves (\<lambda>s. log_approved env (snd s)) (on_local f)" if "\<And>l. sl_record (f l) = sl_record l" "\<And>l. sl_dispatched (f l) = sl_dispatched l"
    for f :: "stream_local \<Rightarrow> stream_local" using that by (auto simp: preserves_def on_local_def step_defs log_approved_def)
  have "preserves (\<lambda>s. log_approved env (snd s)) (complete_step answer)" for answer
    unfolding complete_step_def by (intro preserves_rules local) (simp_all add: update_response_def Let_def)
  moreover have "preserves (\<lambda>s. log_approved env (snd s)) finish_stream"
    unfolding finish_stream_def by (intro preserves_rules local) (simp_all add: push_terminal_def)
  ultimately have rest: "preserves (\<lambda>s. log_approved env (snd s)) (st_bind (st_read (f answer)) (\<lambda>ab.
     if ab then st_throw StreamAbort
     else st_bind (complete_step answer) (\<lambda>_. st_bind (account_usage env sid rq (an_result answer)) (\<lambda>_. finish_stream))))" for f answer rq
    by (intro preserves_rules local_usage)
  show ?thesis unfolding exchange_def by (rule triple_bind [OF respond triple_preserves [OF rest]])
qed

lemma run_logged:
  fixes env :: "'h stream_env"
  shows "triple (\<lambda>s. unsent env (snd s)) (run_body env m cx options) (\<lambda>_ s. log_approved env (snd s)) (\<lambda>_ s. log_approved env (snd s))"
proof -
  have weak: "triple P k Q (\<lambda>_ s. log_approved env (snd s))" if "triple P k Q (\<lambda>_ s. unsent env (snd s))" for P Q
    and k :: "('h, 'b) stream_step" by (rule triple_conseq [OF that]) (simp_all add: unsent_logged)
  have keep: "triple (\<lambda>s. unsent env (snd s)) k (\<lambda>_ s. unsent env (snd s)) (\<lambda>_ s. log_approved env (snd s))"
    if "preserves (\<lambda>s. unsent env (snd s)) k" for k :: "('h, 'b) stream_step" by (rule weak [OF triple_preserves [OF that]])
  show ?thesis unfolding run_body_def
    by (intro triple_bind [OF keep] triple_bind [OF weak [OF prepare_ready]] preserves_basic local_world exchange_logged)
qed

section \<open>The record is closed\<close>

lemma consumed_rejected: "\<exists>e. assertLive i (consume i g) = Inl e"
  by (cases "gd_heap g i") (auto simp: consume_def close_record_def assertLive_def)

lemma runResponse_logged:
  "triple (\<lambda>s. unsent env (snd s)) (runResponse env m cx options)
     (\<lambda>_ s. log_approved env (snd s) \<and> (case sl_record (snd s) of None \<Rightarrow> True | Some i \<Rightarrow> \<exists>e. assertLive i (rw_guard (fst s)) = Inl e))
     (\<lambda>_ _. False)"
proof -
  let ?L = "\<lambda>s. log_approved env (snd s)"
  have fail: "triple ?L (fail_stream env e) (\<lambda>_. ?L) (\<lambda>_ _. False)" for e
    by (auto simp: triple_def fail_stream_def st_bind_read on_local_def step_defs push_terminal_def log_approved_def)
  have closed: "case sl_record (snd (consume_record s)) of None \<Rightarrow> True
      | Some i \<Rightarrow> \<exists>e. assertLive i (rw_guard (fst (consume_record s))) = Inl e" for s :: "'a replay_world \<times> stream_local"
    using consumed_rejected by (auto simp: consume_record_def split: option.split)
  have kept: "snd (consume_record s) = snd s" for s :: "'a replay_world \<times> stream_local"
    by (simp add: consume_record_def split: option.split)
  show ?thesis unfolding runResponse_def
    by (rule triple_finally, rule triple_conseq [OF triple_catch [OF run_logged fail]]) (use closed kept in auto)
qed

section \<open>With the payload handler\<close>

text \<open>The host calls the registered handler with the payload of an agent request, in the scope of its record.\<close>

definition stream_failure :: "failure \<Rightarrow> stream_error" where
  "stream_failure f = (case f of AbortFailure \<Rightarrow> StreamAbort | ContextWindowFailure \<Rightarrow> StreamContextWindow
     | _ \<Rightarrow> StreamOther (failure_text f))"

definition payload_callback :: "'h services \<Rightarrow> context_reference \<Rightarrow> payload_event \<Rightarrow> nat option \<Rightarrow> js \<Rightarrow> ('h, js) stream_call" where
  "payload_callback sv cx ev current rq w =
    (case onBeforeProviderPayload sv cx current (ev\<lparr>ev_payload := rq, ev_origin := ''agent''\<rparr>) w of
       (Inl f, w1) \<Rightarrow> (Inl (stream_failure f), w1) | (Inr (p, _), w1) \<Rightarrow> (Inr p, w1))"

definition handler_env :: "'h services \<Rightarrow> context_reference \<Rightarrow> payload_event \<Rightarrow> 'h stream_env \<Rightarrow> 'h stream_env" where
  "handler_env sv cx ev env = env\<lparr>se_sha := sv_sha sv, se_onPayload := Some (payload_callback sv cx ev)\<rparr>"

lemma recorded_blocks: "assertApproved sha i p g = Inl (RecordedFailure c) \<Longrightarrow> assertApproved sha i p' g = Inl (RecordedFailure c)"
  by (auto simp: assertApproved_def digestJson_def assertLive_def split: option.splits if_splits)

lemma callback_answered:
  assumes "payload_callback sv cx ev (Some i) rq w = (Inr p, w')"
  shows "case assertApproved (sv_sha sv) i p (rw_guard w') of
     Inr a \<Rightarrow> a = p \<and> accounted_for sv i p w' | Inl e \<Rightarrow> \<exists>cause. e = RecordedFailure cause"
proof -
  from assms obtain pr where "onBeforeProviderPayload sv cx (Some i) (ev\<lparr>ev_payload := rq, ev_origin := ''agent''\<rparr>) w = (Inr (p, pr), w')"
    by (auto simp: payload_callback_def split: prod.splits sum.splits)
  from ensuresD [OF registered_ensures this] show ?thesis by (simp add: answered_by_guard_def split: sum.splits)
qed

lemma handler_dispatch:
  "ensures (\<lambda>d s. \<exists>i. sl_record (snd s) = Some i \<and> accounted_for sv i (dp_request d) (fst s))
     (guarded_dispatch (handler_env sv cx ev env) inp rq remote)"
proof -
  let ?env = "handler_env sv cx ev env"
  have sha: "se_sha ?env = sv_sha sv" and cb: "se_onPayload ?env = Some (payload_callback sv cx ev)"
    by (simp_all add: handler_env_def)
  have "\<exists>i. sl_record (snd s') = Some i \<and> accounted_for sv i (dp_request d) (fst s')"
    if run: "guarded_dispatch ?env inp rq remote s = (Inr d, s')" for d s s'
  proof -
    from run obtain i s1 rq' s2 a rec where o: "open_record ?env inp s = (Inr i, s1)"
      and ask: "ask_payload ?env (Some i) rq s1 = (Inr rq', s2)"
      and a: "assertApproved (sv_sha sv) i (JObj rq') (rw_guard (fst s2)) = Inr a" and s': "s' = s2"
      and d: "d = approved_dispatch a rec remote"
      by (auto simp: guarded_dispatch_def st_bind_Inr guard_check_def sha simp del: st_bind_simps st_bind_lift)
    from o have r1: "sl_record (snd s1) = Some i" by (auto simp: open_record_def split: prod.splits sum.splits)
    from ask obtain p where p: "payload_callback sv cx ev (Some i) (JObj rq) (fst s1) = (Inr p, fst s2)"
      and l: "snd s2 = snd s1" and rq': "if p = JUndef then rq' = rq else asRequest p = Inr rq'"
      by (auto simp: ask_payload_def cb st_bind_Inr on_world_def split: prod.splits if_splits simp del: st_bind_simps st_bind_lift)
    note ans = callback_answered [OF p]
    show ?thesis
    proof (cases "assertApproved (sv_sha sv) i p (rw_guard (fst s2))")
      case (Inl e)
      with ans obtain c where "assertApproved (sv_sha sv) i p (rw_guard (fst s2)) = Inl (RecordedFailure c)" by auto
      from recorded_blocks [OF this] a show ?thesis by simp
    next
      case (Inr x)
      then have "p \<noteq> JUndef" by (auto simp: assertApproved_def as_record_def split: option.splits)
      with rq' have "p = JObj rq'" by (auto simp: asRequest_def split: if_splits option.splits)
      with Inr ans a d s' l r1 show ?thesis by (simp add: approved_dispatch_def)
    qed
  qed
  then show ?thesis by (auto simp: ensures_def)
qed

section \<open>Properties\<close>

text \<open>
  C25: Every stream ends once. Whatever the configuration, the host, the guard and the runtime do, a call
  returns normally and its stream is one start event, then block events that a consumer accepts in this
  order, then exactly one terminal event, and it is ended once. A done event names the stop reason of the
  message, and the blocks are then all closed and rebuild the content of the message.
\<close>

theorem stream_ends_once:
  "case runResponse env m cx options (w, start_local) of (r, (w', l)) \<Rightarrow> r = Inr () \<and> terminated l"
proof -
  have "streaming start_local" using output_inv by (simp add: streaming_def start_local_def createOutput_def)
  then show ?thesis by (rule_tac triple_returns [OF runResponse_terminates, of "(w, start_local)" env m cx options]) auto
qed

text \<open>
  C26: Only approved requests are sent. With a guard, every call of the runtime carries a request that the
  guard released, in its state at that moment, for the record opened by this stream; and when the stream is
  over that record is refused by every later check, however the stream ended. Without a guard no record
  exists.
\<close>

theorem only_approved_sent:
  "case runResponse env m cx options (w, start_local) of (r, (w', l)) \<Rightarrow>
     (if se_guarded env
      then list_all (\<lambda>(d, g). \<exists>i rq. sl_record l = Some i \<and> assertApproved (se_sha env) i rq g = Inr (dp_request d)) (sl_dispatched l)
      else sl_record l = None) \<and>
     (case sl_record l of None \<Rightarrow> True | Some i \<Rightarrow> \<exists>e. assertLive i (rw_guard w') = Inl e)"
proof -
  have "unsent env start_local" by (simp add: unsent_def start_local_def)
  then show ?thesis
    by (rule_tac triple_returns [OF runResponse_logged, of env "(w, start_local)" m cx options]) (auto simp: log_approved_def split: option.splits if_splits)
qed


text \<open>
  Usage is recorded for the request that was sent. After a response the store is unchanged, or it took
  one report for the session and the generation of the stored accounting, and the request that was sent has
  as many input items as the report says and the digests that the report carries.
\<close>

theorem usage_matches_request:
  "rw_store (fst (snd (account_usage env sid rq v (w, l)))) = rw_store w \<or>
   (\<exists>i a n s inp instructions. sl_record l = Some i \<and> rw_accounting w i = Some a \<and> sid = Some s \<and> responseTotalTokens v = Some n \<and>
      js_prop rq ''input'' = JArr inp \<and> length inp = ra_inputItemCount a \<and>
      digestJson (se_sha env) (JArr inp) = Inr (ra_inputDigest a) \<and>
      js_prop rq ''instructions'' = JStr instructions \<and>
      digestJson (se_sha env) (JStr instructions) = Inr (ra_instructionsDigest a) \<and>
      rw_store (fst (snd (account_usage env sid rq v (w, l)))) =
        snd (recordContextUsage s (ra_identity a) (ra_generation a) i (usage_report n a) (rw_store w)))"
proof (cases "Option.bind (sl_record l) (\<lambda>i. map_option (Pair i) (rw_accounting w i))")
  case None
  then show ?thesis by (simp add: account_usage_def st_bind_read st_return_def)
next
  case (Some ia)
  then obtain i a where ia: "sl_record l = Some i" "rw_accounting w i = Some a" by (auto simp: bind_eq_Some_conv)
  show ?thesis
  proof (cases sid)
    case None
    then show ?thesis using ia by (simp add: account_usage_def st_bind_read st_return_def)
  next
    case (Some s)
    then have run: "account_usage env sid rq v (w, l) = report_usage env s i a rq v (w, l)" using ia
      by (simp add: account_usage_def st_bind_read)
    show ?thesis unfolding run using ia Some
      by (auto simp: report_usage_def as_array_def as_string_def step_defs split: option.split sum.split js.split)
  qed
qed

end
