(* ===== verification/Terminal_Render.thy ===== *)
theory Terminal_Render
  imports Js_Prelude
begin

text \<open>
  Plain text for the terminal, \<open>src/src/ui/terminal/render.ts\<close>: removal of escape sequences, lines cut or
  padded to a width, wrapping of text and the footer. A width is an integer.

  The lemmas show that no line is longer than its width, that wrapping keeps every visible character in
  order, and that a padded text fills its column exactly.
\<close>

section \<open>Environment\<close>

record TerminalRenderEnvironment =
  env_NO_COLOR :: "string option"
  env_TERM :: "string option"
  env_FORCE_COLOR :: "string option"

definition isMonochromeEnvironment :: "TerminalRenderEnvironment \<Rightarrow> bool" where
  "isMonochromeEnvironment env =
    (if (case env_FORCE_COLOR env of None \<Rightarrow> False | Some f \<Rightarrow> f \<noteq> '''' \<and> f \<noteq> ''0'') then False
     else if (case env_NO_COLOR env of None \<Rightarrow> False | Some n \<Rightarrow> n \<noteq> '''') then True
     else (let term = toLowerCase (case env_TERM env of None \<Rightarrow> '''' | Some t \<Rightarrow> t)
           in term = ''dumb'' \<or> term = '''' \<or> term = ''unknown''))"

section \<open>Escape sequences\<close>

definition ESC :: char where "ESC = CHR 0x1B"

definition BEL :: char where "BEL = CHR 0x07"

definition csi_parameter :: "char \<Rightarrow> bool" where
  "csi_parameter c \<longleftrightarrow> (48 \<le> (of_char c :: nat) \<and> (of_char c :: nat) \<le> 57) \<or> c = CHR '';'' \<or> c = CHR ''?''"

definition csi_intermediate :: "char \<Rightarrow> bool" where
  "csi_intermediate c \<longleftrightarrow> 32 \<le> (of_char c :: nat) \<and> (of_char c :: nat) \<le> 47"

definition csi_final :: "char \<Rightarrow> bool" where
  "csi_final c \<longleftrightarrow> 64 \<le> (of_char c :: nat) \<and> (of_char c :: nat) \<le> 126"

text \<open>
  What follows a match of \<open>ANSI_PATTERN\<close> that begins with the escape before the text. The three classes of a
  control sequence are disjoint, so the greedy match is the only one. In an operating system command the
  greedy class stops before the first bell, or without one at the last string terminator.
\<close>

definition csi_rest :: "string \<Rightarrow> string option" where
  "csi_rest s = (case dropWhile csi_intermediate (dropWhile csi_parameter s) of
     [] \<Rightarrow> None | c # r \<Rightarrow> if csi_final c then Some r else None)"

fun last_terminator :: "string \<Rightarrow> string option" where
  "last_terminator [] = None"
| "last_terminator (c # s) = (case last_terminator s of
     Some r \<Rightarrow> Some r
   | None \<Rightarrow> (case s of [] \<Rightarrow> None | d # r \<Rightarrow> if c = ESC \<and> d = CHR 0x5C then Some r else None))"

definition osc_rest :: "string \<Rightarrow> string option" where
  "osc_rest s = (if BEL \<in> set s then Some (drop 1 (dropWhile (\<lambda>c. c \<noteq> BEL) s)) else last_terminator s)"

definition ansi_rest :: "string \<Rightarrow> string option" where
  "ansi_rest s = (case s of
     [] \<Rightarrow> None
   | c # r \<Rightarrow> if c = CHR ''['' then csi_rest r else if c = CHR '']'' then osc_rest r else None)"

lemma last_terminator_shorter: "last_terminator s = Some r \<Longrightarrow> length r < length s"
proof (induction s arbitrary: r)
  case (Cons c s)
  show ?case
  proof (cases "last_terminator s")
    case None
    with Cons.prems show ?thesis by (cases s) (auto split: if_splits)
  next
    case (Some r')
    with Cons.prems Cons.IH [of r'] show ?thesis by simp
  qed
qed simp

lemma ansi_rest_shorter: "ansi_rest s = Some r \<Longrightarrow> length r < length s"
proof -
  assume a: "ansi_rest s = Some r"
  have "length (dropWhile P t) \<le> length t" for P :: "char \<Rightarrow> bool" and t by (rule length_dropWhile_le)
  then have "csi_rest t = Some r \<Longrightarrow> length r < length t" for t
    unfolding csi_rest_def by (auto split: list.splits if_splits) (metis le_trans length_Cons length_dropWhile_le less_eq_Suc_le)
  moreover have "osc_rest t = Some r \<Longrightarrow> length r < length t" for t
  proof -
    assume o: "osc_rest t = Some r"
    show ?thesis
    proof (cases "BEL \<in> set t")
      case True
      then have "dropWhile (\<lambda>c. c \<noteq> BEL) t \<noteq> []" by (auto simp: dropWhile_eq_Nil_conv)
      with o True length_dropWhile_le [of "\<lambda>c. c \<noteq> BEL" t] show ?thesis
        by (cases "dropWhile (\<lambda>c. c \<noteq> BEL) t") (auto simp: osc_rest_def)
    qed (use o last_terminator_shorter in \<open>simp add: osc_rest_def\<close>)
  qed
  ultimately show ?thesis using a by (fastforce simp: ansi_rest_def split: list.splits if_splits)
qed

function stripAnsi :: "string \<Rightarrow> string" where
  "stripAnsi [] = []"
| "stripAnsi (c # s) = (if c = ESC
     then (case ansi_rest s of Some r \<Rightarrow> stripAnsi r | None \<Rightarrow> c # stripAnsi s)
     else c # stripAnsi s)"
  by pat_completeness auto
termination by (relation "measure length") (auto dest: ansi_rest_shorter)

definition visibleWidth :: "string \<Rightarrow> nat" where
  "visibleWidth v = length (stripAnsi v)"

section \<open>Lines\<close>

definition fitLine :: "string \<Rightarrow> int \<Rightarrow> string" where
  "fitLine v width =
    (if width \<le> 0 then ''''
     else (let plain = stripAnsi v in
       if int (length plain) \<le> width then plain
       else if width \<le> 3 then take (nat width) plain
       else take (nat (width - 3)) plain @ ''...''))"

function words_of :: "string \<Rightarrow> string list" where
  "words_of s = (case dropWhile js_space s of
     [] \<Rightarrow> []
   | c # r \<Rightarrow> (c # takeWhile (\<lambda>x. \<not> js_space x) r) # words_of (dropWhile (\<lambda>x. \<not> js_space x) r))"
  by pat_completeness auto
termination
proof (relation "measure length")
  fix s :: string and c r assume "dropWhile js_space s = c # r"
  then have "length r < length s" by (metis length_Cons length_dropWhile_le less_eq_Suc_le)
  then show "(dropWhile (\<lambda>x. \<not> js_space x) r, s) \<in> measure length"
    using length_dropWhile_le [of "\<lambda>x. \<not> js_space x" r] by simp
qed simp

function chunks :: "nat \<Rightarrow> string \<Rightarrow> string list" where
  "chunks n w = (if w = [] \<or> n = 0 then [] else take n w # chunks n (drop n w))"
  by pat_completeness auto
termination by (relation "measure (\<lambda>(n, w). length w)") auto

declare words_of.simps [simp del] chunks.simps [simp del]

text \<open>The loop over the words; the result ends with the pending line.\<close>

fun wrap_loop :: "nat \<Rightarrow> string list \<Rightarrow> string list \<Rightarrow> string \<Rightarrow> string list" where
  "wrap_loop width [] ls current = (if 0 < length current then ls @ [current] else ls)"
| "wrap_loop width (w # ws) ls current =
    (if width < length w
     then wrap_loop width ws ((if 0 < length current then ls @ [current] else ls) @ chunks width w) ''''
     else (let joined = (if length current = 0 then w else current @ '' '' @ w) in
       if width < length joined then wrap_loop width ws (ls @ [current]) w
       else wrap_loop width ws ls joined))"

definition wrapText :: "string \<Rightarrow> int \<Rightarrow> string list" where
  "wrapText v width =
    (if width \<le> 0 then []
     else (let plain = trim (stripAnsi v) in
       if length plain = 0 then [] else wrap_loop (nat width) (words_of plain) [] ''''))"

definition padEndVisible :: "string \<Rightarrow> int \<Rightarrow> string" where
  "padEndVisible v width = (let plain = fitLine v width in
     if width \<le> int (length plain) then plain else plain @ replicate (nat (width - int (length plain))) CHR '' '')"

datatype status_kind = StatusOk | StatusWarn | StatusError | StatusDirty | StatusInfo | StatusDisabled

fun statusLabel :: "status_kind \<Rightarrow> string" where
  "statusLabel StatusOk = ''[ok]''"
| "statusLabel StatusWarn = ''[warn]''"
| "statusLabel StatusError = ''[error]''"
| "statusLabel StatusDirty = ''[modified]''"
| "statusLabel StatusDisabled = ''[disabled]''"
| "statusLabel StatusInfo = ''[info]''"

fun footer_loop :: "string \<Rightarrow> string list \<Rightarrow> int \<Rightarrow> string" where
  "footer_loop line [] width = line"
| "footer_loop line (a # as) width = (let joined = line @ ''  '' @ a in
     if width < int (length joined) then line else footer_loop joined as width)"

definition joinFooter :: "string list \<Rightarrow> int \<Rightarrow> string" where
  "joinFooter actions width = (case actions of [] \<Rightarrow> '''' | a # as \<Rightarrow> fitLine (footer_loop a as width) width)"

section \<open>Bounds\<close>

lemma chunks_end: "w = [] \<or> n = 0 \<Longrightarrow> chunks n w = []"
  by (subst chunks.simps) simp

lemma chunks_step: "w \<noteq> [] \<Longrightarrow> 0 < n \<Longrightarrow> chunks n w = take n w # chunks n (drop n w)"
  by (subst chunks.simps) simp

lemma words_end: "dropWhile js_space s = [] \<Longrightarrow> words_of s = []"
  by (subst words_of.simps) (simp del: dropWhile_eq_Nil_conv)

lemma words_step: "dropWhile js_space s = c # r \<Longrightarrow>
    words_of s = (c # takeWhile (\<lambda>x. \<not> js_space x) r) # words_of (dropWhile (\<lambda>x. \<not> js_space x) r)"
  by (subst words_of.simps) simp

lemma fitLine_bounded: "int (length (fitLine v width)) \<le> max 0 width"
  by (auto simp: fitLine_def Let_def)

lemma padEnd_exact: "int (length (padEndVisible v width)) = max 0 width"
  using fitLine_bounded [of v width] by (auto simp: padEndVisible_def Let_def)

lemma joinFooter_bounded: "int (length (joinFooter actions width)) \<le> max 0 width"
  by (cases actions) (auto simp: joinFooter_def fitLine_bounded)

lemma chunks_bounded: "l \<in> set (chunks n w) \<Longrightarrow> length l \<le> n \<and> l \<noteq> []"
proof (induction n w rule: chunks.induct)
  case (1 n w)
  show ?case
  proof (cases "w = [] \<or> n = 0")
    case True
    with 1 show ?thesis by (simp add: chunks_end)
  next
    case False
    with 1 show ?thesis by (auto simp: chunks_step)
  qed
qed

lemma chunks_concat: "0 < n \<Longrightarrow> concat (chunks n w) = w"
proof (induction n w rule: chunks.induct)
  case (1 n w)
  then show ?case by (cases "w = []") (simp_all add: chunks_end chunks_step)
qed

lemma words_nonempty: "w \<in> set (words_of s) \<Longrightarrow> w \<noteq> []"
proof (induction s rule: words_of.induct)
  case (1 s)
  then show ?case by (cases "dropWhile js_space s") (auto simp: words_end words_step)
qed

lemma wrap_loop_bounded:
  "\<lbrakk>\<forall>w\<in>set ws. w \<noteq> []; \<forall>l\<in>set ls. length l \<le> n \<and> l \<noteq> []; length current \<le> n\<rbrakk> \<Longrightarrow>
     l \<in> set (wrap_loop n ws ls current) \<Longrightarrow> length l \<le> n \<and> l \<noteq> []"
proof (induction n ws ls current rule: wrap_loop.induct)
  case (2 n w ws ls current)
  consider (long) "n < length w" | (full) "\<not> n < length w" "n < length (if length current = 0 then w else current @ '' '' @ w)"
    | (fits) "\<not> n < length w" "\<not> n < length (if length current = 0 then w else current @ '' '' @ w)" by blast
  then show ?case
  proof cases
    case long
    then have eq: "wrap_loop n (w # ws) ls current =
        wrap_loop n ws ((if 0 < length current then ls @ [current] else ls) @ chunks n w) []" by simp
    have "\<forall>l\<in>set ((if 0 < length current then ls @ [current] else ls) @ chunks n w). length l \<le> n \<and> l \<noteq> []"
      using 2(5,6) chunks_bounded [of _ n w] by auto
    from 2(1) [OF long _ this] 2(4,7) show ?thesis unfolding eq by simp
  next
    case full
    then have "current \<noteq> []" by auto
    from full have eq: "wrap_loop n (w # ws) ls current = wrap_loop n ws (ls @ [current]) w" by (simp add: Let_def)
    from 2(2) [OF full(1) refl full(2)] 2(4-7) full(1) \<open>current \<noteq> []\<close> show ?thesis unfolding eq by simp
  next
    case fits
    then have eq: "wrap_loop n (w # ws) ls current = wrap_loop n ws ls (if length current = 0 then w else current @ '' '' @ w)"
      by (simp add: Let_def)
    have "length (if length current = 0 then w else current @ '' '' @ w) \<le> n" using fits(2) by simp
    from 2(3) [OF fits(1) refl fits(2) _ 2(5) this] 2(4,7) show ?thesis unfolding eq by simp
  qed
qed (auto split: if_splits)

section \<open>Nothing is lost\<close>

definition visible :: "string \<Rightarrow> string" where
  "visible s = filter (\<lambda>c. \<not> js_space c) s"

lemma visible_append [simp]: "visible (s @ t) = visible s @ visible t"
  by (simp add: visible_def)

lemma visible_concat: "visible (concat ls) = concat (map visible ls)"
  by (induction ls) (simp_all add: visible_def)

lemma visible_words: "concat (map visible (words_of s)) = visible s"
proof (induction s rule: words_of.induct)
  case (1 s)
  have d: "visible s = visible (dropWhile js_space s)"
    unfolding visible_def by (induction s) auto
  show ?case
  proof (cases "dropWhile js_space s")
    case (Cons c r)
    have "visible (c # r) = visible (c # takeWhile (\<lambda>x. \<not> js_space x) r) @ visible (dropWhile (\<lambda>x. \<not> js_space x) r)"
      using visible_append [of "c # takeWhile (\<lambda>x. \<not> js_space x) r" "dropWhile (\<lambda>x. \<not> js_space x) r"] by simp
    with 1 Cons d show ?thesis by (simp add: words_step)
  qed (use d in \<open>simp add: words_end visible_def\<close>)
qed

lemma wrap_loop_visible:
  "0 < n \<Longrightarrow> concat (map visible (wrap_loop n ws ls current)) =
     concat (map visible ls) @ visible current @ concat (map visible ws)"
proof (induction n ws ls current rule: wrap_loop.induct)
  case (2 n w ws ls current)
  have ch: "concat (map visible (chunks n w)) = visible w" using chunks_concat [OF 2(4)] visible_concat [of "chunks n w"] by simp
  have sp: "visible (CHR '' '' # t) = visible t" for t by (simp add: visible_def js_space_def)
  have nil: "visible [] = []" by (simp add: visible_def)
  show ?case using 2 ch sp nil by (auto simp: Let_def)
qed (simp add: visible_def)

lemma visible_trim: "visible (trim s) = visible s"
proof -
  have "visible (dropWhile js_space t) = visible t" for t unfolding visible_def by (induction t) auto
  moreover have "visible (rev t) = rev (visible t)" for t by (simp add: visible_def rev_filter)
  ultimately show ?thesis by (simp add: trim_def)
qed

lemma wrapText_bounded: "l \<in> set (wrapText v width) \<Longrightarrow> int (length l) \<le> width \<and> l \<noteq> []"
proof -
  assume l: "l \<in> set (wrapText v width)"
  then have w: "0 < width" and "l \<in> set (wrap_loop (nat width) (words_of (trim (stripAnsi v))) [] [])"
    by (auto simp: wrapText_def Let_def split: if_splits)
  from wrap_loop_bounded [OF _ _ _ this(2)] words_nonempty have "length l \<le> nat width \<and> l \<noteq> []" by auto
  with w show ?thesis by auto
qed

lemma wrapText_visible: "0 < width \<Longrightarrow> concat (map visible (wrapText v width)) = visible (stripAnsi v)"
proof -
  assume w: "0 < width"
  then have "concat (map visible (wrap_loop (nat width) (words_of (trim (stripAnsi v))) [] [])) = visible (trim (stripAnsi v))"
    using wrap_loop_visible [of "nat width" "words_of (trim (stripAnsi v))" "[]" "[]"] visible_words
    by (simp add: visible_def)
  with w show ?thesis using visible_trim [of "stripAnsi v"] by (auto simp: wrapText_def Let_def visible_def)
qed

text \<open>Removing sequences once can leave one: the escape before a removed sequence joins the text behind it.\<close>

lemma stripped_text_may_escape:
  "stripAnsi [ESC, ESC, CHR ''['', CHR ''0'', CHR ''m'', CHR ''['', CHR ''3'', CHR ''1'', CHR ''m''] =
     [ESC, CHR ''['', CHR ''3'', CHR ''1'', CHR ''m'']"
  by code_simp

section \<open>Properties\<close>

text \<open>
  Wrapping fits and loses nothing. Every line of a wrapped text is non-empty and at most as long as the
  width, and the lines hold all visible characters of the text without escape sequences, in order; only
  white space is dropped. For a width that is not positive there is no line.
\<close>

theorem wrapped_text_exact:
  "list_all (\<lambda>l. l \<noteq> [] \<and> int (length l) \<le> width) (wrapText v width) \<and>
   (if 0 < width then concat (map visible (wrapText v width)) = visible (stripAnsi v) else wrapText v width = [])"
proof
  show "list_all (\<lambda>l. l \<noteq> [] \<and> int (length l) \<le> width) (wrapText v width)"
    using wrapText_bounded by (auto simp: list_all_iff)
  show "if 0 < width then concat (map visible (wrapText v width)) = visible (stripAnsi v) else wrapText v width = []"
    using wrapText_visible [of width v] by (cases "0 < width") (simp, simp add: wrapText_def)
qed

end
