(* ===== verification/Approval_Prompt.thy ===== *)
theory Approval_Prompt
  imports Terminal_Render
begin

text \<open>
  The approval dialogue: the view model \<open>src/src/ui/terminal/approval-model.ts\<close> and its binding to the host
  \<open>src/src/ui/terminal/approval-prompt.ts\<close>. The host's key matcher is an argument. The race of the dialogue
  with the abort signal is the first of the things that happen: keys, an abort, or the host tearing the
  overlay down.

  The lemmas show that a tool call is allowed only by moving to the last option and confirming it, and that
  every other end of the dialogue, the abort included, gives cancel or decline, exactly once.
\<close>

section \<open>The model\<close>

datatype PromptDecision = AllowOnce | Decline | Cancel

record ApprovalRequestView =
  ar_operation :: string
  ar_summary :: string
  ar_details :: js_object

record ApprovalModel =
  am_request :: ApprovalRequestView
  am_cwd :: string
  am_focus :: int
  am_resolved :: "PromptDecision option"

definition new_approval :: "ApprovalRequestView \<Rightarrow> string option \<Rightarrow> ApprovalModel" where
  "new_approval rq cwd = \<lparr>am_request = rq, am_cwd = (case cwd of None \<Rightarrow> ''.'' | Some c \<Rightarrow> c), am_focus = 0, am_resolved = None\<rparr>"

definition nonempty_detail :: "ApprovalModel \<Rightarrow> string \<Rightarrow> string option" where
  "nonempty_detail m k = (case get_prop (ar_details (am_request m)) k of
     JStr s \<Rightarrow> if 0 < length s then Some s else None | _ \<Rightarrow> None)"

definition approval_sessionId :: "ApprovalModel \<Rightarrow> string option" where
  "approval_sessionId m = nonempty_detail m ''sessionId''"

definition inputPreview :: "ApprovalModel \<Rightarrow> string option" where
  "inputPreview m = nonempty_detail m ''inputPreview''"

definition approval_title :: "ApprovalModel \<Rightarrow> string" where
  "approval_title m =
    (let external = get_prop (ar_details (am_request m)) ''scope'' = JStr ''external'';
         operation = ar_operation (am_request m)
     in if operation = ''command''
        then (if approval_sessionId m = None then ''Approve native command'' else ''Approve session write'')
        else if operation = ''patch'' then (if external then ''Approve external patch'' else ''Approve workspace patch'')
        else if operation = ''network'' then ''Approve network access''
        else if operation = ''filesystem'' then (if external then ''Approve external file access'' else ''Approve file access'')
        else ''Approve operation'')"

definition approval_target :: "ApprovalModel \<Rightarrow> string" where
  "approval_target m = (case approval_sessionId m of
     Some s \<Rightarrow> ''session '' @ s
   | None \<Rightarrow> (case nonempty_detail m ''workdir'' of
       Some s \<Rightarrow> s
     | None \<Rightarrow> (case nonempty_detail m ''path'' of
         Some s \<Rightarrow> s
       | None \<Rightarrow> (case get_prop (ar_details (am_request m)) ''paths'' of
           JArr ps \<Rightarrow>
            (let paths = concat (map (\<lambda>p. case p of JStr s \<Rightarrow> [s] | _ \<Rightarrow> []) ps)
             in if 0 < length paths then comma_joined paths else am_cwd m)
         | _ \<Rightarrow> am_cwd m))))"

definition approval_options :: "ApprovalModel \<Rightarrow> (PromptDecision \<times> string) list" where
  "approval_options m = [(Decline, ''Decline''), (Cancel, ''Cancel tool call''),
     (AllowOnce, ''Allow once: '' @ ar_summary (am_request m))]"

definition focusedOption :: "ApprovalModel \<Rightarrow> PromptDecision \<times> string" where
  "focusedOption m = (let options = approval_options m in
     if 0 \<le> am_focus m \<and> am_focus m < int (length options) then options ! nat (am_focus m) else hd options)"

definition approval_moveFocus :: "int \<Rightarrow> ApprovalModel \<Rightarrow> ApprovalModel" where
  "approval_moveFocus delta m =
    (if am_resolved m \<noteq> None then m
     else m\<lparr>am_focus := max 0 (min (int (length (approval_options m)) - 1) (am_focus m + delta))\<rparr>)"

definition selectFocused :: "ApprovalModel \<Rightarrow> PromptDecision \<times> ApprovalModel" where
  "selectFocused m = (let decision = fst (focusedOption m) in (decision, m\<lparr>am_resolved := Some decision\<rparr>))"

definition approval_dismiss :: "ApprovalModel \<Rightarrow> PromptDecision \<times> ApprovalModel" where
  "approval_dismiss m = (Cancel, m\<lparr>am_resolved := Some Cancel\<rparr>)"

definition approval_lines :: "ApprovalModel \<Rightarrow> int \<Rightarrow> string list" where
  "approval_lines m width =
     [fitLine (approval_title m) width, fitLine (''Target: '' @ approval_target m) width, ''''] @
     wrapText (ar_summary (am_request m)) width @
     (case inputPreview m of
        None \<Rightarrow> []
      | Some preview \<Rightarrow> if preview = ar_summary (am_request m) then []
          else ['''', fitLine ''Input preview:'' width] @ wrapText preview width) @
     [''''] @
     map (\<lambda>(i, option). fitLine ((if int i = am_focus m then ''>'' else '' '') @ '' '' @ snd option) width)
       (enumerate 0 (approval_options m)) @
     ['''', fitLine ''Up/Down move  Enter select  Esc cancel'' width]"

section \<open>The overlay\<close>

record ApprovalOverlay =
  ao_model :: ApprovalModel
  ao_disposed :: bool
  ao_done :: "PromptDecision list"

definition new_overlay :: "ApprovalModel \<Rightarrow> ApprovalOverlay" where
  "new_overlay m = \<lparr>ao_model = m, ao_disposed = False, ao_done = []\<rparr>"

definition finish_prompt :: "PromptDecision \<Rightarrow> ApprovalOverlay \<Rightarrow> ApprovalOverlay" where
  "finish_prompt decision ov = (if ao_disposed ov then ov
     else ov\<lparr>ao_disposed := True, ao_done := ao_done ov @ [decision]\<rparr>)"

text \<open>\<open>matches\<close> is the key matcher of the host.\<close>

definition handleInput :: "(string \<Rightarrow> string \<Rightarrow> bool) \<Rightarrow> string \<Rightarrow> ApprovalOverlay \<Rightarrow> ApprovalOverlay" where
  "handleInput matches data ov =
    (if ao_disposed ov then ov
     else if matches data ''escape''
     then (case approval_dismiss (ao_model ov) of (d, m) \<Rightarrow> finish_prompt d (ov\<lparr>ao_model := m\<rparr>))
     else if matches data ''up'' \<or> data = ''k'' then ov\<lparr>ao_model := approval_moveFocus (- 1) (ao_model ov)\<rparr>
     else if matches data ''down'' \<or> data = ''j'' then ov\<lparr>ao_model := approval_moveFocus 1 (ao_model ov)\<rparr>
     else if matches data ''return''
     then (case selectFocused (ao_model ov) of (d, m) \<Rightarrow> finish_prompt d (ov\<lparr>ao_model := m\<rparr>))
     else ov)"

definition overlay_dispose :: "ApprovalOverlay \<Rightarrow> ApprovalOverlay" where
  "overlay_dispose ov = (if ao_disposed ov then ov
     else (case approval_dismiss (ao_model ov) of (d, m) \<Rightarrow> finish_prompt d (ov\<lparr>ao_model := m\<rparr>)))"

section \<open>The request\<close>

text \<open>What can happen to an open overlay. \<open>OverlayGone\<close> is the host's teardown.\<close>

datatype prompt_event = PromptKey string | PromptAbort | PromptGone

text \<open>
  The dialogue promise of the host is resolved by the first call of \<open>done\<close>; the race is decided by the abort
  or by this call, whichever is first. The result is \<open>None\<close> while neither happened, \<open>Some None\<close> for
  \<open>undefined\<close>.
\<close>

fun overlay_race ::
  "(string \<Rightarrow> string \<Rightarrow> bool) \<Rightarrow> prompt_event list \<Rightarrow> ApprovalOverlay \<Rightarrow> PromptDecision option option \<times> ApprovalOverlay" where
  "overlay_race matches es ov = (case ao_done ov of
     d # _ \<Rightarrow> (Some (Some d), ov)
   | [] \<Rightarrow> (case es of
       [] \<Rightarrow> (None, ov)
     | PromptKey k # es' \<Rightarrow> overlay_race matches es' (handleInput matches k ov)
     | PromptGone # es' \<Rightarrow> overlay_race matches es' (overlay_dispose ov)
     | PromptAbort # _ \<Rightarrow> (Some None, overlay_dispose ov)))"

declare overlay_race.simps [simp del]

definition finalizeDecision :: "ApprovalModel \<Rightarrow> PromptDecision \<Rightarrow> PromptDecision \<times> string list" where
  "finalizeDecision m decision = (decision, if decision = AllowOnce then [''Approved: '' @ approval_target m] else [])"

text \<open>The race on the choice list of a host without overlays: the chosen label, \<open>None\<close> for \<open>undefined\<close>.\<close>

datatype select_outcome = Selected "string option" | SelectAborted

definition select_decision :: "ApprovalModel \<Rightarrow> select_outcome \<Rightarrow> bool \<Rightarrow> PromptDecision" where
  "select_decision m outcome aborted = (case outcome of
     SelectAborted \<Rightarrow> Cancel
   | Selected None \<Rightarrow> Cancel
   | Selected (Some label) \<Rightarrow>
      if aborted then Cancel
      else (case find (\<lambda>option. snd option = label) (approval_options m) of None \<Rightarrow> Cancel | Some option \<Rightarrow> fst option))"

datatype prompt_surface =
    NoSurface
  | OverlaySurface "prompt_event list"
  | SelectSurface select_outcome bool

definition requestCodexApproval ::
  "(string \<Rightarrow> string \<Rightarrow> bool) \<Rightarrow> ApprovalModel \<Rightarrow> bool \<Rightarrow> prompt_surface \<Rightarrow> (PromptDecision \<times> string list) option" where
  "requestCodexApproval matches m aborted surface =
    (if aborted then Some (Cancel, [])
     else (case surface of
         NoSurface \<Rightarrow> Some (Decline, [])
       | OverlaySurface es \<Rightarrow>
           map_option (\<lambda>r. finalizeDecision m (case r of None \<Rightarrow> Cancel | Some d \<Rightarrow> d)) (fst (overlay_race matches es (new_overlay m)))
       | SelectSurface outcome late \<Rightarrow> Some (finalizeDecision m (select_decision m outcome late))))"

section \<open>How an approval is reached\<close>

definition down_key :: "(string \<Rightarrow> string \<Rightarrow> bool) \<Rightarrow> prompt_event \<Rightarrow> bool" where
  "down_key matches e \<longleftrightarrow> (case e of PromptKey k \<Rightarrow> matches k ''down'' \<or> k = ''j'' | _ \<Rightarrow> False)"

definition pending :: "ApprovalOverlay \<Rightarrow> bool" where
  "pending ov \<longleftrightarrow> \<not> ao_disposed ov \<and> ao_done ov = [] \<and> am_resolved (ao_model ov) = None \<and> 0 \<le> am_focus (ao_model ov)"

text \<open>The keys that confirm the last option: at least the missing presses of down, then return, nothing between.\<close>

definition confirmed :: "(string \<Rightarrow> string \<Rightarrow> bool) \<Rightarrow> int \<Rightarrow> prompt_event list \<Rightarrow> bool" where
  "confirmed matches missing es \<longleftrightarrow> (\<exists>pre k post. es = pre @ PromptKey k # post \<and> matches k ''return'' \<and>
     PromptAbort \<notin> set pre \<and> PromptGone \<notin> set pre \<and> missing \<le> int (length (filter (down_key matches) pre)))"

lemma race_done: "ao_done ov = d # ds \<Longrightarrow> overlay_race matches es ov = (Some (Some d), ov)"
  by (subst overlay_race.simps) simp

lemma race_pending:
  "ao_done ov = [] \<Longrightarrow> overlay_race matches [] ov = (None, ov)"
  "ao_done ov = [] \<Longrightarrow> overlay_race matches (PromptKey k # es) ov = overlay_race matches es (handleInput matches k ov)"
  "ao_done ov = [] \<Longrightarrow> overlay_race matches (PromptGone # es) ov = overlay_race matches es (overlay_dispose ov)"
  "ao_done ov = [] \<Longrightarrow> overlay_race matches (PromptAbort # es) ov = (Some None, overlay_dispose ov)"
  by (subst overlay_race.simps, simp)+

lemma focused_decision:
  "0 \<le> am_focus m \<Longrightarrow> fst (focusedOption m) = AllowOnce \<Longrightarrow> am_focus m = 2"
proof -
  assume "0 \<le> am_focus m" "fst (focusedOption m) = AllowOnce"
  then have "am_focus m \<noteq> 0" "am_focus m \<noteq> 1" "am_focus m < 3" by (auto simp: focusedOption_def approval_options_def Let_def split: if_splits)
  with \<open>0 \<le> am_focus m\<close> show ?thesis by simp
qed

lemma key_cases:
  assumes "pending ov"
  obtains (ended) d where "ao_done (handleInput matches k ov) = [d]" "d = AllowOnce \<Longrightarrow> am_focus (ao_model ov) = 2 \<and> matches k ''return''"
  | (moved) "pending (handleInput matches k ov)"
      "am_focus (ao_model (handleInput matches k ov)) \<le> am_focus (ao_model ov) + (if down_key matches (PromptKey k) then 1 else 0)"
proof -
  note p = assms [unfolded pending_def]
  consider (esc) "matches k ''escape''"
    | (up) "\<not> matches k ''escape''" "matches k ''up'' \<or> k = ''k''"
    | (down) "\<not> matches k ''escape''" "\<not> (matches k ''up'' \<or> k = ''k'')" "matches k ''down'' \<or> k = ''j''"
    | (enter) "\<not> matches k ''escape''" "\<not> (matches k ''up'' \<or> k = ''k'')" "\<not> (matches k ''down'' \<or> k = ''j'')" "matches k ''return''"
    | (other) "\<not> matches k ''escape''" "\<not> (matches k ''up'' \<or> k = ''k'')" "\<not> (matches k ''down'' \<or> k = ''j'')" "\<not> matches k ''return''"
    by blast
  then show thesis
  proof cases
    case esc
    then have "ao_done (handleInput matches k ov) = [Cancel]" using p by (simp add: handleInput_def approval_dismiss_def finish_prompt_def)
    then show thesis by (rule ended) simp
  next
    case up
    then have h: "handleInput matches k ov = ov\<lparr>ao_model := approval_moveFocus (- 1) (ao_model ov)\<rparr>" using p by (simp add: handleInput_def)
    show thesis by (rule moved) (use p in \<open>auto simp: h pending_def approval_moveFocus_def approval_options_def\<close>)
  next
    case down
    then have h: "handleInput matches k ov = ov\<lparr>ao_model := approval_moveFocus 1 (ao_model ov)\<rparr>" using p by (simp add: handleInput_def)
    show thesis by (rule moved) (use p down(3) in \<open>auto simp: h pending_def approval_moveFocus_def approval_options_def down_key_def\<close>)
  next
    case enter
    then have "ao_done (handleInput matches k ov) = [fst (focusedOption (ao_model ov))]"
      using p by (simp add: handleInput_def selectFocused_def finish_prompt_def Let_def)
    then show thesis by (rule ended) (use p enter(4) focused_decision in auto)
  next
    case other
    then have h: "handleInput matches k ov = ov" using p by (simp add: handleInput_def)
    show thesis by (rule moved) (use assms in \<open>simp_all add: h\<close>)
  qed
qed

lemma confirmed_later:
  "confirmed matches n es \<Longrightarrow> m \<le> n + (if down_key matches (PromptKey k) then 1 else 0) \<Longrightarrow> confirmed matches m (PromptKey k # es)"
proof -
  assume "confirmed matches n es" and m: "m \<le> n + (if down_key matches (PromptKey k) then 1 else 0)"
  then obtain pre k' post where e: "es = pre @ PromptKey k' # post" "matches k' ''return''" "PromptAbort \<notin> set pre" "PromptGone \<notin> set pre"
      "n \<le> int (length (filter (down_key matches) pre))" by (auto simp: confirmed_def)
  show ?thesis unfolding confirmed_def
    by (rule exI [of _ "PromptKey k # pre"], rule exI [of _ k'], rule exI [of _ post]) (use e m in auto)
qed

lemma allowed_confirmed:
  assumes "pending ov" and "fst (overlay_race matches es ov) = Some (Some AllowOnce)"
  shows "confirmed matches (2 - am_focus (ao_model ov)) es"
  using assms
proof (induction es arbitrary: ov)
  case Nil
  then show ?case by (simp add: pending_def race_pending)
next
  case (Cons e es)
  have nd: "ao_done ov = []" using Cons.prems(1) by (simp add: pending_def)
  show ?case
  proof (cases e)
    case PromptAbort
    with Cons.prems nd show ?thesis by (simp add: race_pending)
  next
    case PromptGone
    have "ao_done (overlay_dispose ov) = [Cancel]" using Cons.prems(1)
      by (simp add: pending_def overlay_dispose_def approval_dismiss_def finish_prompt_def)
    with Cons.prems nd PromptGone race_done show ?thesis by (simp add: race_pending)
  next
    case (PromptKey k)
    show ?thesis
    proof (cases matches k rule: key_cases [OF Cons.prems(1), case_names ended moved])
      case (ended d)
      with Cons.prems(2) nd PromptKey have "d = AllowOnce" by (simp add: race_pending race_done)
      with ended have "am_focus (ao_model ov) = 2" "matches k ''return''" by auto
      then show ?thesis unfolding PromptKey confirmed_def by (intro exI [of _ "[]"] exI [of _ k] exI [of _ es]) simp
    next
      case moved
      from Cons.IH [OF moved(1)] Cons.prems(2) nd PromptKey
      have "confirmed matches (2 - am_focus (ao_model (handleInput matches k ov))) es" by (simp add: race_pending)
      then show ?thesis unfolding PromptKey by (rule confirmed_later) (use moved(2) in simp)
    qed
  qed
qed

lemma pending_new: "pending (new_overlay (new_approval rq cwd))" "am_focus (ao_model (new_overlay (new_approval rq cwd))) = 0"
  by (simp_all add: pending_def new_overlay_def new_approval_def)

text \<open>The overlay answers once: a finished overlay ignores everything.\<close>

lemma finished_silent:
  "ao_disposed ov \<Longrightarrow> handleInput matches k ov = ov" "ao_disposed ov \<Longrightarrow> overlay_dispose ov = ov" "ao_disposed ov \<Longrightarrow> finish_prompt d ov = ov"
  by (simp_all add: handleInput_def overlay_dispose_def finish_prompt_def)

lemma abort_settles: "pending ov \<Longrightarrow> PromptAbort \<in> set es \<or> PromptGone \<in> set es \<Longrightarrow> \<exists>r. fst (overlay_race matches es ov) = Some r"
proof (induction es arbitrary: ov)
  case (Cons e es)
  have nd: "ao_done ov = []" using Cons.prems(1) by (simp add: pending_def)
  show ?case
  proof (cases e)
    case PromptGone
    have "ao_done (overlay_dispose ov) = [Cancel]" using Cons.prems(1)
      by (simp add: pending_def overlay_dispose_def approval_dismiss_def finish_prompt_def)
    with nd PromptGone race_done show ?thesis by (simp add: race_pending)
  next
    case (PromptKey k)
    show ?thesis
      by (cases rule: key_cases [OF Cons.prems(1), where matches = matches and k = k]) (use Cons.prems Cons.IH nd PromptKey race_done in \<open>auto simp: race_pending\<close>)
  qed (use nd in \<open>simp add: race_pending\<close>)
qed simp

section \<open>Properties\<close>

text \<open>
  C35: Nothing is allowed by accident. A tool call is approved only if the request was not aborted, and then
  either, in the overlay, down was pressed at least twice and return after that with no abort and no
  teardown before it, or the allow option itself was chosen in the list of a host without overlays and no
  abort came in. A host without a user interface never approves.
\<close>

theorem approval_needs_confirmation:
  assumes "requestCodexApproval matches (new_approval rq cwd) aborted surface = Some (AllowOnce, notes)"
  shows "\<not> aborted \<and> (case surface of
     NoSurface \<Rightarrow> False
   | OverlaySurface es \<Rightarrow> confirmed matches 2 es
   | SelectSurface outcome late \<Rightarrow> outcome = Selected (Some (''Allow once: '' @ ar_summary rq)) \<and> \<not> late)"
proof (cases surface)
  case (OverlaySurface es)
  with assms have "\<not> aborted" and r: "fst (overlay_race matches es (new_overlay (new_approval rq cwd))) = Some (Some AllowOnce)"
    by (auto simp: requestCodexApproval_def finalizeDecision_def split: if_splits option.splits)
  with allowed_confirmed [OF pending_new(1) r] pending_new(2) OverlaySurface show ?thesis by simp
next
  case (SelectSurface outcome late)
  with assms show ?thesis
    by (auto simp: requestCodexApproval_def finalizeDecision_def select_decision_def approval_options_def new_approval_def
        split: if_splits select_outcome.splits option.splits)
qed (use assms in \<open>auto simp: requestCodexApproval_def split: if_splits\<close>)

theorem approval_needs_confirmation_witness:
  "requestCodexApproval (=) (new_approval \<lparr>ar_operation = ''command'', ar_summary = ''ls'', ar_details = []\<rparr> None) False
     (OverlaySurface [PromptKey ''j'', PromptKey ''down'', PromptKey ''return'']) = Some (AllowOnce, [''Approved: .'']) \<and>
   confirmed (=) 2 [PromptKey ''j'', PromptKey ''down'', PromptKey ''return'']"
proof -
  have run: "requestCodexApproval (=) (new_approval \<lparr>ar_operation = ''command'', ar_summary = ''ls'', ar_details = []\<rparr> None) False
     (OverlaySurface [PromptKey ''j'', PromptKey ''down'', PromptKey ''return'']) = Some (AllowOnce, [''Approved: .''])"
    by code_simp
  with approval_needs_confirmation [OF run] show ?thesis by simp
qed

end
