(* ===== verification/Settings_Model.thy ===== *)
theory Settings_Model
  imports Config_Service Terminal_Render
begin

text \<open>
  The settings screen, class \<open>SettingsModel\<close> of \<open>src/src/ui/terminal/settings-model.ts\<close>: a saved and a draft
  configuration, the focus, the dialogues, the state of the save transaction, the keys and the text of the
  screen. The key parser of the host is an argument.

  The lemmas show that the draft can always be saved, that no key turns a protection off without its
  confirmation, that the screen knows when the draft differs from the saved configuration, and that every
  line fits the terminal.
\<close>

section \<open>Types\<close>

datatype SettingsCategory = CatGeneral | CatTools | CatCodex | CatDiagnostics

definition SETTINGS_CATEGORIES :: "SettingsCategory list" where
  "SETTINGS_CATEGORIES = [CatGeneral, CatTools, CatCodex, CatDiagnostics]"

fun category_name :: "SettingsCategory \<Rightarrow> string" where
  "category_name CatGeneral = ''General''"
| "category_name CatTools = ''Tools''"
| "category_name CatCodex = ''Codex''"
| "category_name CatDiagnostics = ''Diagnostics''"

datatype SettingsLayout = LayoutWide | LayoutMedium | LayoutNarrow

datatype SettingsState =
    StatePristine | StateDirty | StateValidating | StateSaving | StateSaved | StateValidationError | StateWriteError

fun state_name :: "SettingsState \<Rightarrow> string" where
  "state_name StatePristine = ''pristine''"
| "state_name StateDirty = ''dirty''"
| "state_name StateValidating = ''validating''"
| "state_name StateSaving = ''saving''"
| "state_name StateSaved = ''saved''"
| "state_name StateValidationError = ''validation-error''"
| "state_name StateWriteError = ''write-error''"

datatype SettingsFocusRegion = RegionNav | RegionList

datatype NarrowScreen = ScreenCategories | ScreenSettings

datatype SettingsDialog =
    DialogNone
  | DialogDirtyClose int
  | DialogReset int
  | DialogApprovalNever int
  | DialogFilesystem int
  | DialogHelp

datatype SettingsEffect =
    EffectNone | EffectSave | EffectSaveAndClose | EffectClose | EffectCompact | EffectExport | EffectEditProviders
  | EffectEditAutoCompact | EffectResetDefaults | EffectSecurity string

datatype SettingsRowKind = RowReadonly | RowToggle | RowEnum | RowAction | RowNumber

record SettingsRow =
  row_id :: string
  row_label :: string
  row_value :: string
  row_description :: string
  row_kind :: SettingsRowKind
  row_enabled :: bool
  row_disabledReason :: "string option"

text \<open>\<open>mo_numberText\<close> is the conversion of a number to a string.\<close>

record SettingsModelOptions =
  mo_baseline :: string
  mo_provider :: string
  mo_model :: string
  mo_bridge :: string
  mo_activationModel :: "ProviderActivationModel option"
  mo_activationStatus :: "string option"
  mo_capabilities :: "string list option"
  mo_disabledReasons :: "(string \<times> string) list"
  mo_modelAutoCompactTokenLimit :: "jsnum option"
  mo_numberText :: "jsnum \<Rightarrow> string"

record SettingsModel =
  sx_saved :: CodexConfig
  sx_draft :: CodexConfig
  sx_options :: SettingsModelOptions
  sx_activationStatus :: "string option"
  sx_categoryIndex :: int
  sx_focus :: int
  sx_region :: SettingsFocusRegion
  sx_narrowScreen :: NarrowScreen
  sx_scroll :: int
  sx_state :: SettingsState
  sx_message :: "string option"
  sx_dialog :: SettingsDialog
  sx_disposed :: bool
  sx_width :: int

definition DIRTY_CLOSE_OPTIONS :: "string list" where
  "DIRTY_CLOSE_OPTIONS = [''Continue editing'', ''Discard changes'', ''Save'']"

definition RESET_OPTIONS :: "string list" where
  "RESET_OPTIONS = [''Cancel'', ''Reset to defaults'']"

definition APPROVAL_NEVER_OPTIONS :: "string list" where
  "APPROVAL_NEVER_OPTIONS = [''Cancel'', ''Enable never'']"

definition FILESYSTEM_UNRESTRICTED_OPTIONS :: "string list" where
  "FILESYSTEM_UNRESTRICTED_OPTIONS = [''Cancel'', ''Enable unrestricted'']"

section \<open>Creation and activation\<close>

definition formatActivationStatus :: "ProviderActivationModel option \<Rightarrow> string list \<Rightarrow> string" where
  "formatActivationStatus model selected =
    (let provider = (case model of None \<Rightarrow> ''unknown'' | Some m \<Rightarrow> am_provider m);
         pi_api = (case model of None \<Rightarrow> ''unknown'' | Some m \<Rightarrow> am_api m)
     in case resolveProviderActivation model selected of
          Active \<Rightarrow> ''active ('' @ provider @ '' / '' @ pi_api @ '')''
        | Inactive NoModel \<Rightarrow> ''inactive (no model)''
        | Inactive ProviderNotSelected \<Rightarrow> ''inactive (provider not selected: '' @ provider @ '')''
        | Inactive UnsupportedPiApi \<Rightarrow> ''inactive (unsupported API: '' @ pi_api @ '')'')"

definition new_settings :: "CodexConfig \<Rightarrow> SettingsModelOptions \<Rightarrow> SettingsModel" where
  "new_settings config options = \<lparr>sx_saved = config, sx_draft = config, sx_options = options,
     sx_activationStatus = (case mo_activationStatus options of
        Some s \<Rightarrow> Some s
      | None \<Rightarrow> (case mo_activationModel options of
          None \<Rightarrow> None | Some m \<Rightarrow> Some (formatActivationStatus (Some m) (providers config)))),
     sx_categoryIndex = 0, sx_focus = 0, sx_region = RegionList, sx_narrowScreen = ScreenCategories, sx_scroll = 0,
     sx_state = StatePristine, sx_message = None, sx_dialog = DialogNone, sx_disposed = False, sx_width = 80\<rparr>"

definition routeIsActive :: "SettingsModel \<Rightarrow> bool" where
  "routeIsActive m = (case sx_activationStatus m of None \<Rightarrow> True | Some s \<Rightarrow> starts_with s ''active'')"

definition refreshActivationStatus :: "CodexConfig \<Rightarrow> SettingsModel \<Rightarrow> SettingsModel" where
  "refreshActivationStatus config m = (case mo_activationModel (sx_options m) of
     None \<Rightarrow> m
   | Some am \<Rightarrow> m\<lparr>sx_activationStatus := Some (formatActivationStatus (Some am) (providers config))\<rparr>)"

section \<open>Rows\<close>

definition settings_category :: "SettingsModel \<Rightarrow> SettingsCategory" where
  "settings_category m = (if 0 \<le> sx_categoryIndex m \<and> sx_categoryIndex m < int (length SETTINGS_CATEGORIES)
     then SETTINGS_CATEGORIES ! nat (sx_categoryIndex m) else CatGeneral)"

definition layoutFor :: "int \<Rightarrow> SettingsLayout" where
  "layoutFor width = (if 100 \<le> width then LayoutWide else if 60 \<le> width then LayoutMedium else LayoutNarrow)"

abbreviation settings_layout :: "SettingsModel \<Rightarrow> SettingsLayout" where
  "settings_layout m \<equiv> layoutFor (sx_width m)"

text \<open>The last argument is \<open>disabled\<close>: a reason, and the row is then not enabled.\<close>

definition settings_row ::
  "string \<Rightarrow> string \<Rightarrow> string \<Rightarrow> string \<Rightarrow> SettingsRowKind \<Rightarrow> string option \<Rightarrow> SettingsRow" where
  "settings_row i label v description kind disabled = \<lparr>row_id = i, row_label = label, row_value = v,
     row_description = description, row_kind = kind, row_enabled = (disabled = None), row_disabledReason = disabled\<rparr>"

definition disabled_reason :: "SettingsModel \<Rightarrow> string \<Rightarrow> string option" where
  "disabled_reason m i = map_of (mo_disabledReasons (sx_options m)) i"

definition on_off :: "bool \<Rightarrow> string" where
  "on_off b = (if b then ''on'' else ''off'')"

definition general_rows :: "SettingsModel \<Rightarrow> SettingsRow list" where
  "general_rows m = (let o' = sx_options m; d = sx_draft m in
    [settings_row ''baseline'' ''Baseline'' (mo_baseline o') ''Pinned OpenAI Codex runtime baseline.'' RowReadonly None,
     settings_row ''provider'' ''Provider'' (mo_provider o') ''Active Pi provider id for this session.'' RowReadonly None,
     settings_row ''model'' ''Model'' (mo_model o') ''Active model id resolved by Pi.'' RowReadonly None,
     settings_row ''providers'' ''Active providers'' (comma_joined (providers d))
       ''Exact Pi provider ids that opt into the Codex adaptor. Separate ids with commas.'' RowAction None,
     settings_row ''route'' ''Current route'' (case sx_activationStatus m of None \<Rightarrow> ''unavailable'' | Some s \<Rightarrow> s)
       ''Whether the current provider and API use the Codex adaptor.'' RowReadonly None,
     settings_row ''status'' ''Status bar'' (on_off (uiStatus d)) ''Show a compact Codex status line in the Pi UI.'' RowToggle None,
     settings_row ''reset'' ''Reset to defaults'' ''action'' ''Replace the draft with the product default configuration.''
       RowAction None])"

definition tools_rows :: "SettingsModel \<Rightarrow> SettingsRow list" where
  "tools_rows m = (let d = sx_draft m in
    [settings_row ''backgroundSessions'' ''Background sessions'' (on_off (backgroundSessions (tools d)))
       ''Keep managed sessions alive and expose supplemental exec/write tools when needed.'' RowToggle
       (disabled_reason m ''backgroundSessions''),
     settings_row ''approvalPolicy'' ''Approval policy'' (enum_name approval_table (approvalPolicy (security d)))
       ''On-request is the safe default. Never suppresses operation approval prompts.'' RowEnum None,
     settings_row ''filesystemAccessPolicy'' ''Filesystem access''
       (enum_name filesystem_table (filesystemAccessPolicy (security d)))
       ''Workspace is the safe default. Unrestricted permits explicit structured-tool paths outside workspace roots.'' RowEnum None,
     settings_row ''viewImage'' ''view_image'' (enum_name autoOrOff_table (viewImage (optionalTools (tools d))))
       ''Enable the official view_image tool when the model accepts image inputs.'' RowEnum (disabled_reason m ''viewImage''),
     settings_row ''imageGeneration'' ''image_gen.imagegen'' (enum_name autoOrOff_table (imageGeneration (optionalTools (tools d))))
       ''Enable image generation when the provider and bridge advertise the capability.'' RowEnum
       (disabled_reason m ''imageGeneration'')])"

definition limit_text :: "SettingsModel \<Rightarrow> AutoCompactTokenLimit \<Rightarrow> string" where
  "limit_text m limit = (case limit of
     ModelLimit \<Rightarrow> (case mo_modelAutoCompactTokenLimit (sx_options m) of
         None \<Rightarrow> ''model'' | Some n \<Rightarrow> mo_numberText (sx_options m) n @ '' (model)'')
   | NumberLimit n \<Rightarrow> mo_numberText (sx_options m) n)"

definition compact_now_row :: "SettingsModel \<Rightarrow> SettingsRow" where
  "compact_now_row m =
    (let off = (compaction (codex (sx_draft m)) = CompactionOff) in
     settings_row ''compactNow'' ''Compact now''
       (if sx_state m = StateDirty then ''save first'' else if off then ''disabled''
        else if routeIsActive m then ''action'' else ''inactive'')
       ''Run official compaction for the current session after settings are clean.'' RowAction
       (case disabled_reason m ''compactNow'' of
          Some r \<Rightarrow> Some r
        | None \<Rightarrow> if sx_state m = StateDirty then Some ''Save or discard the draft before compaction.''
            else if off then Some ''Compaction is disabled.''
            else if routeIsActive m then None
            else Some ''Codex route is inactive for the current provider and API.''))"

definition codex_rows :: "SettingsModel \<Rightarrow> SettingsRow list" where
  "codex_rows m = (let c = codex (sx_draft m) in
    [settings_row ''serviceTier'' ''Service tier'' (enum_name serviceTier_table (serviceTier c))
       ''OpenAI service tier preference for Responses requests.'' RowEnum None,
     settings_row ''verbosity'' ''Verbosity'' (enum_name verbosity_table (verbosity c))
       ''Text verbosity preference for Responses requests.'' RowEnum None,
     settings_row ''transport'' ''Transport'' (enum_name transport_table (transportMode c))
       ''Preferred transport mode. auto selects the official default path.'' RowEnum (disabled_reason m ''transport''),
     settings_row ''webSearch'' ''Web search mode'' (enum_name webSearch_table (webSearchMode c))
       ''Standalone or hosted web search mode requested from the resolver.'' RowEnum (disabled_reason m ''webSearch''),
     settings_row ''compaction'' ''Compaction'' (case compaction c of CompactionOff \<Rightarrow> ''off'' | CompactionAuto _ \<Rightarrow> ''auto'')
       ''off disables adaptor compaction. auto uses the official compaction path.'' RowEnum (disabled_reason m ''compaction'')] @
    (case compaction c of
       CompactionOff \<Rightarrow> []
     | CompactionAuto limit \<Rightarrow>
        [settings_row ''autoCompactTokenLimit'' ''Auto compact limit'' (limit_text m limit)
           ''model uses the official model threshold. A positive integer overrides it.'' RowNumber
           (disabled_reason m ''autoCompactTokenLimit'')]) @
    [compact_now_row m])"

definition diagnostics_rows :: "SettingsModel \<Rightarrow> SettingsRow list" where
  "diagnostics_rows m = (let o' = sx_options m in
    [settings_row ''bridge'' ''Bridge'' (mo_bridge o') ''Native bridge protocol identity.'' RowReadonly None,
     settings_row ''capabilities'' ''Capabilities''
       (case mo_capabilities o' of None \<Rightarrow> ''unavailable''
        | Some cs \<Rightarrow> if comma_joined cs = '''' then ''unavailable'' else comma_joined cs)
       ''Capabilities advertised by the native bridge handshake.'' RowReadonly None,
     settings_row ''schema'' ''Config schema'' ''v3'' ''Supported configuration schema version.'' RowReadonly None,
     settings_row ''state'' ''Draft state'' (state_name (sx_state m)) ''Current settings transaction state.'' RowReadonly None,
     settings_row ''export'' ''Export diagnostics'' ''action'' ''Export redacted adaptor and bridge metadata after confirmation.''
       RowAction None])"

definition settings_rows :: "SettingsModel \<Rightarrow> SettingsRow list" where
  "settings_rows m = (case settings_category m of
     CatGeneral \<Rightarrow> general_rows m | CatTools \<Rightarrow> tools_rows m | CatCodex \<Rightarrow> codex_rows m | CatDiagnostics \<Rightarrow> diagnostics_rows m)"

definition focusedRow :: "SettingsModel \<Rightarrow> SettingsRow option" where
  "focusedRow m = (let rows = settings_rows m in
     if 0 \<le> sx_focus m \<and> sx_focus m < int (length rows) then Some (rows ! nat (sx_focus m)) else None)"

definition settings_value :: "string \<Rightarrow> SettingsModel \<Rightarrow> string" where
  "settings_value key m = (case find (\<lambda>r. row_id r = key) (settings_rows m) of None \<Rightarrow> ''n/a'' | Some r \<Rightarrow> row_value r)"

section \<open>Operations\<close>

definition markDirty :: "SettingsModel \<Rightarrow> SettingsModel" where
  "markDirty m = m\<lparr>sx_state := StateDirty, sx_message := None\<rparr>"

definition settings_dispose :: "SettingsModel \<Rightarrow> SettingsModel" where
  "settings_dispose m = m\<lparr>sx_disposed := True, sx_dialog := DialogNone\<rparr>"

definition setWidth :: "int \<Rightarrow> SettingsModel \<Rightarrow> SettingsModel" where
  "setWidth width m = m\<lparr>sx_width := max 0 width\<rparr>"

definition moveCategory :: "int \<Rightarrow> SettingsModel \<Rightarrow> SettingsModel" where
  "moveCategory delta m =
    (if sx_disposed m \<or> sx_dialog m \<noteq> DialogNone then m
     else m\<lparr>sx_categoryIndex := (sx_categoryIndex m + delta + int (length SETTINGS_CATEGORIES)) mod int (length SETTINGS_CATEGORIES),
       sx_focus := 0, sx_scroll := 0\<rparr>)"

fun category_index :: "SettingsCategory \<Rightarrow> int" where
  "category_index CatGeneral = 0"
| "category_index CatTools = 1"
| "category_index CatCodex = 2"
| "category_index CatDiagnostics = 3"

definition setCategory :: "SettingsCategory \<Rightarrow> SettingsModel \<Rightarrow> SettingsModel" where
  "setCategory category m =
    (if sx_disposed m then m else m\<lparr>sx_categoryIndex := category_index category, sx_focus := 0, sx_scroll := 0\<rparr>)"

definition ensureFocusVisible :: "SettingsModel \<Rightarrow> SettingsModel" where
  "ensureFocusVisible m =
    (if settings_rows m = [] then m\<lparr>sx_focus := 0, sx_scroll := 0\<rparr>
     else if sx_focus m < sx_scroll m then m\<lparr>sx_scroll := sx_focus m\<rparr> else m)"

definition settings_moveFocus :: "int \<Rightarrow> SettingsModel \<Rightarrow> SettingsModel" where
  "settings_moveFocus delta m =
    (if sx_disposed m \<or> sx_dialog m \<noteq> DialogNone then m
     else if settings_layout m = LayoutNarrow \<and> sx_narrowScreen m = ScreenCategories
     then m\<lparr>sx_categoryIndex := max 0 (min (int (length SETTINGS_CATEGORIES) - 1) (sx_categoryIndex m + delta))\<rparr>
     else if settings_layout m = LayoutWide \<and> sx_region m = RegionNav then moveCategory delta m
     else (let count = int (length (settings_rows m)) in
       if count = 0 then m\<lparr>sx_focus := 0\<rparr>
       else ensureFocusVisible (m\<lparr>sx_focus := max 0 (min (count - 1) (sx_focus m + delta))\<rparr>)))"

definition flip_background :: "CodexConfig \<Rightarrow> CodexConfig" where
  "flip_background c = c\<lparr>tools := (tools c)\<lparr>backgroundSessions := \<not> backgroundSessions (tools c)\<rparr>\<rparr>"

definition flip_status :: "CodexConfig \<Rightarrow> CodexConfig" where
  "flip_status c = c\<lparr>uiStatus := \<not> uiStatus c\<rparr>"

definition edit_draft :: "(CodexConfig \<Rightarrow> CodexConfig) \<Rightarrow> SettingsModel \<Rightarrow> SettingsModel" where
  "edit_draft f m = m\<lparr>sx_draft := f (sx_draft m)\<rparr>"

definition toggleFocused :: "SettingsModel \<Rightarrow> SettingsModel" where
  "toggleFocused m =
    (if sx_disposed m \<or> sx_dialog m \<noteq> DialogNone then m
     else (case focusedRow m of
         None \<Rightarrow> m
       | Some current \<Rightarrow>
          if \<not> row_enabled current \<or> row_kind current \<noteq> RowToggle then m
          else if row_id current = ''backgroundSessions'' then markDirty (edit_draft flip_background m)
          else if row_id current = ''status'' then markDirty (edit_draft flip_status m)
          else m))"

fun flipAutoOff :: "AutoOrOff \<Rightarrow> AutoOrOff" where
  "flipAutoOff AutoMode = OffMode"
| "flipAutoOff OffMode = AutoMode"

text \<open>The successor of a value in its list of values, in a circle.\<close>

definition cycle :: "'a \<Rightarrow> 'a list \<Rightarrow> 'a" where
  "cycle v vs =
    (let index = (if v \<in> set vs then int (length (takeWhile (\<lambda>x. x \<noteq> v) vs)) else - 1)
     in if vs = [] then v else vs ! nat ((index + 1) mod int (length vs)))"

definition set_approval :: "ApprovalPolicy \<Rightarrow> CodexConfig \<Rightarrow> CodexConfig" where
  "set_approval p c = c\<lparr>security := (security c)\<lparr>approvalPolicy := p\<rparr>\<rparr>"

definition set_filesystem :: "FilesystemAccessPolicy \<Rightarrow> CodexConfig \<Rightarrow> CodexConfig" where
  "set_filesystem p c = c\<lparr>security := (security c)\<lparr>filesystemAccessPolicy := p\<rparr>\<rparr>"

definition edit_optional :: "(OptionalTools \<Rightarrow> OptionalTools) \<Rightarrow> CodexConfig \<Rightarrow> CodexConfig" where
  "edit_optional f c = c\<lparr>tools := (tools c)\<lparr>optionalTools := f (optionalTools (tools c))\<rparr>\<rparr>"

definition edit_codex :: "(CodexSection \<Rightarrow> CodexSection) \<Rightarrow> CodexConfig \<Rightarrow> CodexConfig" where
  "edit_codex f c = c\<lparr>codex := f (codex c)\<rparr>"

text \<open>The change of an enumeration other than the two policies, by the id of its row.\<close>

definition cycle_setting :: "string \<Rightarrow> (CodexConfig \<Rightarrow> CodexConfig) option" where
  "cycle_setting i =
    (if i = ''viewImage'' then Some (edit_optional (\<lambda>t. t\<lparr>viewImage := flipAutoOff (viewImage t)\<rparr>))
     else if i = ''imageGeneration'' then Some (edit_optional (\<lambda>t. t\<lparr>imageGeneration := flipAutoOff (imageGeneration t)\<rparr>))
     else if i = ''serviceTier''
     then Some (edit_codex (\<lambda>c. c\<lparr>serviceTier := cycle (serviceTier c) [TierDefault, TierPriority, TierFlex]\<rparr>))
     else if i = ''verbosity''
     then Some (edit_codex (\<lambda>c. c\<lparr>verbosity := cycle (verbosity c) [VerbLow, VerbMedium, VerbHigh]\<rparr>))
     else if i = ''transport''
     then Some (edit_codex (\<lambda>c. c\<lparr>transportMode := cycle (transportMode c) [TransportAuto, TransportSse]\<rparr>))
     else if i = ''webSearch''
     then Some (edit_codex (\<lambda>c. c\<lparr>webSearchMode := cycle (webSearchMode c) [WebDisabled, WebCached, WebIndexed, WebLive]\<rparr>))
     else if i = ''compaction''
     then Some (edit_codex (\<lambda>c. c\<lparr>compaction := (if compaction c = CompactionOff then CompactionAuto ModelLimit else CompactionOff)\<rparr>))
     else None)"

definition cycleFocused :: "SettingsModel \<Rightarrow> SettingsEffect \<times> SettingsModel" where
  "cycleFocused m =
    (if sx_disposed m \<or> sx_dialog m \<noteq> DialogNone then (EffectNone, m)
     else (case focusedRow m of
         None \<Rightarrow> (EffectNone, m)
       | Some current \<Rightarrow>
          if \<not> row_enabled current \<or> row_kind current \<noteq> RowEnum then (EffectNone, m)
          else if row_id current = ''approvalPolicy''
          then (if approvalPolicy (security (sx_draft m)) = OnRequest
                then (EffectNone, m\<lparr>sx_dialog := DialogApprovalNever 0\<rparr>)
                else (EffectNone, markDirty (edit_draft (set_approval OnRequest) m)))
          else if row_id current = ''filesystemAccessPolicy''
          then (if filesystemAccessPolicy (security (sx_draft m)) = Workspace
                then (EffectNone, m\<lparr>sx_dialog := DialogFilesystem 0\<rparr>)
                else (EffectNone, markDirty (edit_draft (set_filesystem Workspace) m)))
          else (case cycle_setting (row_id current) of
              None \<Rightarrow> (EffectNone, m)
            | Some f \<Rightarrow> (EffectNone, markDirty (edit_draft f m)))))"

text \<open>\<open>beginSave\<close>: the error is the configuration error of the parser, or the disposed overlay.\<close>

definition beginSave :: "SettingsModel \<Rightarrow> (ConfigurationIssue list option, CodexConfig) result \<times> SettingsModel" where
  "beginSave m =
    (if sx_disposed m then (Inl None, m)
     else (let m1 = m\<lparr>sx_state := StateValidating, sx_message := None\<rparr> in
       case parseConfig (config_js (sx_draft m)) of
         Inl issues \<Rightarrow> (Inl (Some issues), m1)
       | Inr validated \<Rightarrow> (Inr validated, m1\<lparr>sx_state := StateSaving\<rparr>)))"

definition markSaved :: "CodexConfig \<Rightarrow> SettingsModel \<Rightarrow> SettingsModel" where
  "markSaved config m =
    (if sx_disposed m then m
     else (refreshActivationStatus config (m\<lparr>sx_saved := config, sx_draft := config\<rparr>))
       \<lparr>sx_state := StateSaved, sx_message := Some (statusLabel StatusOk @ '' Saved'')\<rparr>)"

definition markError :: "string \<Rightarrow> SettingsState \<Rightarrow> SettingsModel \<Rightarrow> SettingsModel" where
  "markError message state m =
    (if sx_disposed m then m else m\<lparr>sx_state := state, sx_message := Some (statusLabel StatusError @ '' '' @ message)\<rparr>)"

definition setAutoCompactTokenLimit :: "AutoCompactTokenLimit \<Rightarrow> SettingsModel \<Rightarrow> SettingsModel" where
  "setAutoCompactTokenLimit v m =
    (if sx_disposed m \<or> compaction (codex (sx_draft m)) = CompactionOff then m
     else markDirty (edit_draft (edit_codex (\<lambda>c. c\<lparr>compaction := CompactionAuto v\<rparr>)) m))"

definition setActivationProviders :: "string list \<Rightarrow> SettingsModel \<Rightarrow> SettingsModel" where
  "setActivationProviders ps m = (if sx_disposed m then m else markDirty (edit_draft (\<lambda>c. c\<lparr>providers := ps\<rparr>) m))"

definition discard :: "SettingsModel \<Rightarrow> SettingsModel" where
  "discard m = (if sx_disposed m then m
     else m\<lparr>sx_draft := sx_saved m, sx_state := StatePristine, sx_message := None, sx_dialog := DialogNone\<rparr>)"

definition applyDefaultsToDraft :: "SettingsModel \<Rightarrow> SettingsModel" where
  "applyDefaultsToDraft m = (if sx_disposed m then m
     else (markDirty (m\<lparr>sx_draft := createDefaultConfig\<rparr>))\<lparr>sx_message := Some (statusLabel StatusInfo @
       '' Draft reset to defaults. Save to apply.''), sx_dialog := DialogNone, sx_focus := 0, sx_scroll := 0\<rparr>)"

definition replaceWithSaved :: "CodexConfig \<Rightarrow> SettingsModel \<Rightarrow> SettingsModel" where
  "replaceWithSaved config m = (if sx_disposed m then m
     else (refreshActivationStatus config (m\<lparr>sx_saved := config, sx_draft := config\<rparr>))
       \<lparr>sx_state := StateSaved, sx_message := Some (statusLabel StatusOk @ '' Defaults restored''), sx_dialog := DialogNone,
        sx_focus := 0, sx_scroll := 0\<rparr>)"

definition openDialog :: "SettingsDialog \<Rightarrow> SettingsModel \<Rightarrow> SettingsModel" where
  "openDialog d m = (if sx_disposed m then m else m\<lparr>sx_dialog := d\<rparr>)"

definition openDirtyCloseDialog :: "SettingsModel \<Rightarrow> SettingsModel" where
  "openDirtyCloseDialog = openDialog (DialogDirtyClose 0)"

definition openResetDialog :: "SettingsModel \<Rightarrow> SettingsModel" where
  "openResetDialog = openDialog (DialogReset 0)"

definition openHelp :: "SettingsModel \<Rightarrow> SettingsModel" where
  "openHelp = openDialog DialogHelp"

definition closeDialog :: "SettingsModel \<Rightarrow> SettingsModel" where
  "closeDialog = openDialog DialogNone"

section \<open>Keys\<close>

definition activateFocused :: "SettingsModel \<Rightarrow> SettingsEffect \<times> SettingsModel" where
  "activateFocused m =
    (if settings_layout m = LayoutNarrow \<and> sx_narrowScreen m = ScreenCategories
     then (EffectNone, m\<lparr>sx_narrowScreen := ScreenSettings, sx_focus := 0, sx_scroll := 0, sx_region := RegionList\<rparr>)
     else if settings_layout m = LayoutWide \<and> sx_region m = RegionNav
     then (EffectNone, m\<lparr>sx_region := RegionList, sx_focus := 0\<rparr>)
     else (case focusedRow m of
         None \<Rightarrow> (EffectNone, m)
       | Some current \<Rightarrow>
          if \<not> row_enabled current then (EffectNone, m)
          else if row_kind current = RowToggle then (EffectNone, toggleFocused m)
          else if row_kind current = RowEnum then cycleFocused m
          else if row_id current = ''autoCompactTokenLimit'' then (EffectEditAutoCompact, m)
          else if row_id current = ''providers'' then (EffectEditProviders, m)
          else if row_id current = ''export'' then (EffectExport, m)
          else if row_id current = ''compactNow'' then (EffectCompact, m)
          else if row_id current = ''reset'' then (EffectNone, openResetDialog m)
          else (EffectNone, m)))"

definition option_at :: "string list \<Rightarrow> int \<Rightarrow> string" where
  "option_at options focus = (if 0 \<le> focus \<and> focus < int (length options) then options ! nat focus else hd options)"

definition is_up :: "string \<Rightarrow> bool" where "is_up key \<longleftrightarrow> key = ''up'' \<or> key = ''k''"

definition is_down :: "string \<Rightarrow> bool" where "is_down key \<longleftrightarrow> key = ''down'' \<or> key = ''j''"

definition is_select :: "string \<Rightarrow> bool" where "is_select key \<longleftrightarrow> key = ''enter'' \<or> key = ''space''"

text \<open>The part the dialogues with options share: leaving, moving, and the selected option.\<close>

definition choose_option ::
  "string \<Rightarrow> (int \<Rightarrow> SettingsDialog) \<Rightarrow> string list \<Rightarrow> int \<Rightarrow> (string \<Rightarrow> SettingsModel \<Rightarrow> SettingsEffect \<times> SettingsModel) \<Rightarrow>
     SettingsModel \<Rightarrow> SettingsEffect \<times> SettingsModel" where
  "choose_option key dialog options focus select m =
    (if key = ''esc'' then (EffectNone, m\<lparr>sx_dialog := DialogNone\<rparr>)
     else if is_up key then (EffectNone, m\<lparr>sx_dialog := dialog (max 0 (focus - 1))\<rparr>)
     else if is_down key then (EffectNone, m\<lparr>sx_dialog := dialog (min (int (length options) - 1) (focus + 1))\<rparr>)
     else if is_select key then select (option_at options focus) m
     else (EffectNone, m))"

definition select_close :: "string \<Rightarrow> SettingsModel \<Rightarrow> SettingsEffect \<times> SettingsModel" where
  "select_close selected m =
    (if selected = ''Continue editing'' then (EffectNone, m\<lparr>sx_dialog := DialogNone\<rparr>)
     else if selected = ''Discard changes'' then (EffectClose, discard m)
     else (EffectSaveAndClose, m\<lparr>sx_dialog := DialogNone\<rparr>))"

definition select_reset :: "string \<Rightarrow> SettingsModel \<Rightarrow> SettingsEffect \<times> SettingsModel" where
  "select_reset selected m =
    (if selected = ''Cancel'' then (EffectNone, m\<lparr>sx_dialog := DialogNone\<rparr>)
     else (EffectResetDefaults, m\<lparr>sx_dialog := DialogNone\<rparr>))"

definition select_policy ::
  "(CodexConfig \<Rightarrow> CodexConfig) \<Rightarrow> string \<Rightarrow> SettingsModel \<Rightarrow> SettingsEffect \<times> SettingsModel" where
  "select_policy change selected m =
    (if selected \<noteq> ''Cancel''
     then (let m1 = (markDirty (edit_draft change m))\<lparr>sx_dialog := DialogNone\<rparr> in
       (EffectSecurity (case securityPolicyWarning (sx_draft m1) of Some w \<Rightarrow> w | None \<Rightarrow> ''Codex security policy changed.''), m1))
     else (EffectNone, m\<lparr>sx_dialog := DialogNone\<rparr>))"

definition handleDialogKey :: "string \<Rightarrow> SettingsModel \<Rightarrow> SettingsEffect \<times> SettingsModel" where
  "handleDialogKey key m = (case sx_dialog m of
     DialogHelp \<Rightarrow> (EffectNone, if key = ''esc'' \<or> key = ''enter'' \<or> key = ''?'' \<or> key = ''space''
        then m\<lparr>sx_dialog := DialogNone\<rparr> else m)
   | DialogDirtyClose focus \<Rightarrow> choose_option key DialogDirtyClose DIRTY_CLOSE_OPTIONS focus select_close m
   | DialogReset focus \<Rightarrow> choose_option key DialogReset RESET_OPTIONS focus select_reset m
   | DialogApprovalNever focus \<Rightarrow> choose_option key DialogApprovalNever APPROVAL_NEVER_OPTIONS focus (select_policy (set_approval Never)) m
   | DialogFilesystem focus \<Rightarrow>
       choose_option key DialogFilesystem FILESYSTEM_UNRESTRICTED_OPTIONS focus (select_policy (set_filesystem Unrestricted)) m
   | DialogNone \<Rightarrow> (EffectNone, m))"

definition narrow_settings :: "SettingsModel \<Rightarrow> bool" where
  "narrow_settings m \<longleftrightarrow> settings_layout m = LayoutNarrow \<and> sx_narrowScreen m = ScreenSettings"

definition handle_parsed :: "string \<Rightarrow> SettingsModel \<Rightarrow> SettingsEffect \<times> SettingsModel" where
  "handle_parsed key m =
    (if key = ''esc''
     then (if narrow_settings m then (EffectNone, m\<lparr>sx_narrowScreen := ScreenCategories\<rparr>)
           else if sx_state m = StateDirty then (EffectNone, openDirtyCloseDialog m)
           else (EffectClose, m))
     else if is_up key then (EffectNone, settings_moveFocus (- 1) m)
     else if is_down key then (EffectNone, settings_moveFocus 1 m)
     else if key = ''left'' \<or> key = ''['' then (EffectNone, if narrow_settings m then m else moveCategory (- 1) m)
     else if key = ''right'' \<or> key = '']'' then (EffectNone, if narrow_settings m then m else moveCategory 1 m)
     else if key = ''tab'' \<or> key = ''shift-tab''
     then (EffectNone, if settings_layout m = LayoutWide
        then m\<lparr>sx_region := (if sx_region m = RegionNav then RegionList else RegionNav)\<rparr> else m)
     else if key = ''space'' then (EffectNone, toggleFocused m)
     else if key = ''enter'' then activateFocused m
     else if key = ''ctrl-s'' then (EffectSave, m)
     else if key = ''?'' then (EffectNone, openHelp m)
     else if key = ''r'' then (EffectNone, openResetDialog m)
     else if key = ''c'' then (if settings_category m = CatCodex then EffectCompact else EffectNone, m)
     else if key = ''e'' then (if settings_category m = CatDiagnostics then EffectExport else EffectNone, m)
     else (EffectNone, m))"

text \<open>\<open>parseKey\<close> over the key parser of the host.\<close>

definition parseKey :: "(string \<Rightarrow> string option) \<Rightarrow> string \<Rightarrow> string" where
  "parseKey parse_tui data = (if parse_tui data = Some ''escape'' then ''esc''
     else map (\<lambda>c. if c = CHR ''+'' then CHR ''-'' else c) (toLowerCase (case parse_tui data of None \<Rightarrow> data | Some k \<Rightarrow> k)))"

definition handleKey :: "(string \<Rightarrow> string option) \<Rightarrow> string \<Rightarrow> SettingsModel \<Rightarrow> SettingsEffect \<times> SettingsModel" where
  "handleKey parse_tui data m =
    (if sx_disposed m then (EffectNone, m)
     else (let key = parseKey parse_tui data in
       if sx_dialog m \<noteq> DialogNone then handleDialogKey key m else handle_parsed key m))"

section \<open>The screen\<close>

definition middle_dot :: string where "middle_dot = [CHR '' '', CHR 0xB7, CHR '' '']"

definition headerLine :: "int \<Rightarrow> SettingsModel \<Rightarrow> string" where
  "headerLine width m =
    (let modified = (if sx_state m = StateDirty \<or> sx_state m = StateValidationError \<or> sx_state m = StateWriteError
           then statusLabel StatusDirty else if sx_state m = StateSaved then statusLabel StatusOk else state_name (sx_state m));
         prefix = ''Codex adaptor'' @ middle_dot @ mo_baseline (sx_options m);
         suffix = middle_dot @ modified
     in if width \<le> 0 then ''''
        else if width \<le> int (length (prefix @ suffix)) then fitLine (prefix @ suffix) width
        else prefix @ fitLine (middle_dot @ mo_provider (sx_options m)) (width - int (length prefix) - int (length suffix)) @ suffix)"

definition settingsLines :: "int \<Rightarrow> bool \<Rightarrow> SettingsModel \<Rightarrow> string list" where
  "settingsLines width showFocus m = map (\<lambda>(index, item).
     let prefix = (if showFocus \<and> int index = sx_focus m then ''>'' else '' '');
         disabled = (if row_enabled item then '''' else '' '' @ statusLabel StatusDisabled);
         label = padEndVisible (row_label item) (min 22 (max 10 (width * 2 div 5)));
         valueWidth = max 4 (width - 2 - int (length label) - int (length disabled))
     in fitLine (prefix @ '' '' @ label @ '' '' @ fitLine (row_value item) valueWidth @ disabled) width)
     (enumerate 0 (settings_rows m))"

definition descriptionLines :: "int \<Rightarrow> SettingsModel \<Rightarrow> string list" where
  "descriptionLines width m = (case focusedRow m of
     None \<Rightarrow> []
   | Some current \<Rightarrow>
      map (\<lambda>l. fitLine l width) (wrapText (case row_disabledReason current of
          None \<Rightarrow> row_description current
        | Some reason \<Rightarrow> row_description current @ '' '' @ statusLabel StatusDisabled @ '' '' @ reason) width))"

definition marked_name :: "bool \<Rightarrow> SettingsCategory \<Rightarrow> string" where
  "marked_name active category = (if active then ''['' @ category_name category @ '']'' else category_name category)"

definition line_at :: "string list \<Rightarrow> nat \<Rightarrow> string" where
  "line_at ls i = (if i < length ls then ls ! i else '''')"

definition wideBody :: "int \<Rightarrow> SettingsModel \<Rightarrow> string list" where
  "wideBody width m =
    (let navWidth = 20; gap = 2; contentWidth = max 20 (width - navWidth - gap);
         navLines = map (\<lambda>(index, category).
            let active = (int index = sx_categoryIndex m) in
            padEndVisible ((if sx_region m = RegionNav \<and> active then ''>'' else '' '') @ marked_name active category) navWidth)
            (enumerate 0 SETTINGS_CATEGORIES);
         right = settingsLines contentWidth (sx_region m = RegionList) m @ [''''] @ descriptionLines contentWidth m
     in map (\<lambda>index. padEndVisible (line_at navLines index) navWidth @ ''  '' @ fitLine (line_at right index) contentWidth)
          [0..<max (length navLines) (length right)])"

definition spaced_names :: "string list \<Rightarrow> string" where
  "spaced_names ss = (case ss of [] \<Rightarrow> '''' | s # rest \<Rightarrow> s @ concat (map (\<lambda>r. ''  '' @ r) rest))"

definition mediumBody :: "int \<Rightarrow> SettingsModel \<Rightarrow> string list" where
  "mediumBody width m =
     [fitLine (spaced_names (map (\<lambda>category. marked_name (category = settings_category m) category) SETTINGS_CATEGORIES)) width, ''''] @
     settingsLines width True m @ [''''] @ descriptionLines width m"

definition narrowBody :: "int \<Rightarrow> SettingsModel \<Rightarrow> string list" where
  "narrowBody width m = (case sx_narrowScreen m of
     ScreenCategories \<Rightarrow> [fitLine ''Select section'' width, ''''] @
       map (\<lambda>(index, category). fitLine ((if int index = sx_categoryIndex m then ''>'' else '' '') @ '' '' @ category_name category) width)
         (enumerate 0 SETTINGS_CATEGORIES)
   | ScreenSettings \<Rightarrow> [fitLine (category_name (settings_category m)) width, ''''] @
       settingsLines width True m @ [''''] @ descriptionLines width m)"

definition footer :: "int \<Rightarrow> SettingsModel \<Rightarrow> string" where
  "footer width m =
    (let layout = layoutFor width in
     if layout = LayoutNarrow \<and> sx_narrowScreen m = ScreenCategories
     then joinFooter [''Up/Down'', ''Enter open'', ''Esc close'', ''? help''] width
     else joinFooter ([''Up/Down''] @ (if layout = LayoutWide then [''Tab region''] else []) @
       (if layout \<noteq> LayoutNarrow then [''[/] category''] else []) @ [''Space'', ''Enter'', ''Ctrl+S'', ''R reset''] @
       (if settings_category m = CatCodex then [''C compact''] else []) @
       (if settings_category m = CatDiagnostics then [''E export''] else []) @
       [if layout = LayoutNarrow then ''Esc back'' else ''Esc close'', ''? help'']) width)"

definition APPROVAL_NEVER_CONFIRMATION :: string where
  "APPROVAL_NEVER_CONFIRMATION = ''Never suppresses approval prompts. Failures return to the model, and native commands still run with the user's permissions.''"

definition FILESYSTEM_UNRESTRICTED_CONFIRMATION :: string where
  "FILESYSTEM_UNRESTRICTED_CONFIRMATION = ''Unrestricted allows structured tools to use paths outside workspace roots. This is a path guardrail setting, not an OS sandbox.''"

definition help_lines :: "string list" where
  "help_lines = [''Codex settings help'', '''', ''Up/Down or j/k: move'', ''[/] or Left/Right: switch category'',
     ''Tab: switch wide layout region'', ''Space: toggle booleans'', ''Enter: activate enum, action, or narrow section'',
     ''Ctrl+S: validate and save draft'', ''R: reset draft to product defaults'', ''C: compact now on Codex section'',
     ''E: export diagnostics on Diagnostics section'', ''Esc: back, cancel dialog, or close'', '''', ''Enter/Esc/? close help'']"

definition option_dialog :: "string \<Rightarrow> string \<Rightarrow> string list \<Rightarrow> int \<Rightarrow> string \<Rightarrow> int \<Rightarrow> string list" where
  "option_dialog title question options focus preset width =
     [fitLine title width, ''''] @ wrapText question width @ [''''] @
     map (\<lambda>(index, option). fitLine ((if int index = focus then ''>'' else '' '') @ '' '' @ option) width) (enumerate 0 options) @
     ['''', fitLine preset width]"

definition dialogLines :: "int \<Rightarrow> SettingsModel \<Rightarrow> string list" where
  "dialogLines width m = (case sx_dialog m of
     DialogHelp \<Rightarrow> map (\<lambda>l. fitLine l width) help_lines
   | DialogDirtyClose focus \<Rightarrow> option_dialog ''Unsaved Codex settings'' ''Save, discard, or continue editing the draft.''
       DIRTY_CLOSE_OPTIONS focus ''Default: Continue editing'' width
   | DialogReset focus \<Rightarrow> option_dialog ''Reset Codex settings'' ''Replace the configuration with product defaults?''
       RESET_OPTIONS focus ''Default: Cancel'' width
   | DialogApprovalNever focus \<Rightarrow> option_dialog ''Enable approval never'' APPROVAL_NEVER_CONFIRMATION
       APPROVAL_NEVER_OPTIONS focus ''Default: Cancel'' width
   | DialogFilesystem focus \<Rightarrow> option_dialog ''Enable unrestricted filesystem access'' FILESYSTEM_UNRESTRICTED_CONFIRMATION
       FILESYSTEM_UNRESTRICTED_OPTIONS focus ''Default: Cancel'' width
   | DialogNone \<Rightarrow> [])"

definition settings_lines :: "int \<Rightarrow> SettingsModel \<Rightarrow> string list \<times> SettingsModel" where
  "settings_lines width m0 =
    (let m = m0\<lparr>sx_width := max 0 width\<rparr> in
     (if sx_disposed m then [fitLine ''Settings closed'' width]
      else if sx_dialog m \<noteq> DialogNone then dialogLines width m
      else
       (let body = (case layoutFor width of LayoutWide \<Rightarrow> wideBody width m | LayoutMedium \<Rightarrow> mediumBody width m
              | LayoutNarrow \<Rightarrow> narrowBody width m)
        in map (\<lambda>l. fitLine l width) ([headerLine width m] @ body @
             (case sx_message m of None \<Rightarrow> [] | Some t \<Rightarrow> [''''] @ wrapText t width) @ ['''', footer width m])), m))"

section \<open>The invariant\<close>

text \<open>What can be done with the screen. Configurations that were saved or restored are valid.\<close>

datatype settings_op =
    OpKey string
  | OpLines int
  | OpSetWidth int
  | OpSetCategory SettingsCategory
  | OpBeginSave
  | OpMarkSaved CodexConfig
  | OpValidationError string
  | OpWriteError string
  | OpLimit AutoCompactTokenLimit
  | OpProviders "string list"
  | OpDiscard
  | OpApplyDefaults
  | OpReplace CodexConfig
  | OpCloseDialog
  | OpDispose

definition settings_step :: "(string \<Rightarrow> string option) \<Rightarrow> settings_op \<Rightarrow> SettingsModel \<Rightarrow> SettingsModel" where
  "settings_step p a m = (case a of
     OpKey data \<Rightarrow> snd (handleKey p data m)
   | OpLines width \<Rightarrow> snd (settings_lines width m)
   | OpSetWidth width \<Rightarrow> setWidth width m
   | OpSetCategory c \<Rightarrow> setCategory c m
   | OpBeginSave \<Rightarrow> snd (beginSave m)
   | OpMarkSaved c \<Rightarrow> markSaved c m
   | OpValidationError t \<Rightarrow> markError t StateValidationError m
   | OpWriteError t \<Rightarrow> markError t StateWriteError m
   | OpLimit v \<Rightarrow> setAutoCompactTokenLimit v m
   | OpProviders ps \<Rightarrow> setActivationProviders ps m
   | OpDiscard \<Rightarrow> discard m
   | OpApplyDefaults \<Rightarrow> applyDefaultsToDraft m
   | OpReplace c \<Rightarrow> replaceWithSaved c m
   | OpCloseDialog \<Rightarrow> closeDialog m
   | OpDispose \<Rightarrow> settings_dispose m)"

definition valid_settings_op :: "settings_op \<Rightarrow> bool" where
  "valid_settings_op a = (case a of
     OpMarkSaved c \<Rightarrow> wf_config c
   | OpReplace c \<Rightarrow> wf_config c
   | OpLimit v \<Rightarrow> wf_limit (CompactionAuto v)
   | OpProviders ps \<Rightarrow> wf_providers ps
   | _ \<Rightarrow> True)"

definition dialog_ok :: "SettingsDialog \<Rightarrow> bool" where
  "dialog_ok d = (case d of DialogDirtyClose f \<Rightarrow> 0 \<le> f \<and> f < 3 | DialogReset f \<Rightarrow> 0 \<le> f \<and> f < 2
     | DialogApprovalNever f \<Rightarrow> 0 \<le> f \<and> f < 2 | DialogFilesystem f \<Rightarrow> 0 \<le> f \<and> f < 2 | _ \<Rightarrow> True)"

text \<open>
  The configurations are valid; a pristine or saved screen shows the saved configuration; the category, the
  focus and the option of a dialogue are in range.
\<close>

definition settings_ok :: "SettingsModel \<Rightarrow> bool" where
  "settings_ok m \<longleftrightarrow> wf_config (sx_draft m) \<and> wf_config (sx_saved m) \<and>
     (sx_state m = StatePristine \<or> sx_state m = StateSaved \<longrightarrow> sx_draft m = sx_saved m) \<and>
     0 \<le> sx_categoryIndex m \<and> sx_categoryIndex m < 4 \<and> 0 \<le> sx_focus m \<and> dialog_ok (sx_dialog m)"

named_theorems settings_keeps

lemma settings_frame [simp]:
  "settings_ok (m\<lparr>sx_width := w\<rparr>) = settings_ok m" "settings_ok (m\<lparr>sx_region := r\<rparr>) = settings_ok m"
  "settings_ok (m\<lparr>sx_narrowScreen := n\<rparr>) = settings_ok m" "settings_ok (m\<lparr>sx_scroll := s\<rparr>) = settings_ok m"
  "settings_ok (m\<lparr>sx_message := t\<rparr>) = settings_ok m" "settings_ok (m\<lparr>sx_disposed := b\<rparr>) = settings_ok m"
  "settings_ok (m\<lparr>sx_activationStatus := a\<rparr>) = settings_ok m"
  by (simp_all add: settings_ok_def)

lemma settings_focus: "settings_ok m \<Longrightarrow> 0 \<le> f \<Longrightarrow> settings_ok (m\<lparr>sx_focus := f\<rparr>)"
  by (simp add: settings_ok_def)

lemma settings_index: "settings_ok m \<Longrightarrow> 0 \<le> i \<Longrightarrow> i < 4 \<Longrightarrow> settings_ok (m\<lparr>sx_categoryIndex := i\<rparr>)"
  by (simp add: settings_ok_def)

lemma settings_dialog: "settings_ok m \<Longrightarrow> dialog_ok d \<Longrightarrow> settings_ok (m\<lparr>sx_dialog := d\<rparr>)"
  by (simp add: settings_ok_def)

lemma dirty_edit: "settings_ok m \<Longrightarrow> wf_config (f (sx_draft m)) \<Longrightarrow> settings_ok (markDirty (edit_draft f m))"
  by (simp add: settings_ok_def markDirty_def edit_draft_def)

lemma wf_edits [simp]:
  "wf_config (flip_background c) = wf_config c" "wf_config (flip_status c) = wf_config c"
  "wf_config (set_approval a c) = wf_config c" "wf_config (set_filesystem fs c) = wf_config c"
  by (simp_all add: wf_config_def flip_background_def flip_status_def set_approval_def set_filesystem_def)

lemma wf_cycle_setting: "cycle_setting i = Some f \<Longrightarrow> wf_config c \<Longrightarrow> wf_config (f c)"
proof -
  have a: "wf_config (edit_optional g c) = wf_config c" for g c by (simp add: wf_config_def edit_optional_def)
  have b: "wf_config (edit_codex g c) \<longleftrightarrow> wf_providers (providers c) \<and> wf_limit (compaction (g (codex c)))" for g c
    by (simp add: wf_config_def edit_codex_def)
  have l: "wf_limit CompactionOff" "wf_limit (CompactionAuto ModelLimit)" by (simp_all add: wf_limit_def)
  assume f: "cycle_setting i = Some f" and w: "wf_config c"
  then have "wf_providers (providers c)" "wf_limit (compaction (codex c))" by (simp_all add: wf_config_def)
  with f w a b l show ?thesis unfolding cycle_setting_def by (simp split: if_split_asm) (auto simp: a b l)
qed

lemma keep_moves [settings_keeps]:
  "settings_ok m \<Longrightarrow> settings_ok (moveCategory d m)"
  "settings_ok m \<Longrightarrow> settings_ok (setCategory c m)"
  "settings_ok m \<Longrightarrow> settings_ok (setWidth w m)"
  "settings_ok m \<Longrightarrow> settings_ok (settings_moveFocus d m)"
proof -
  assume m: "settings_ok m"
  show c: "settings_ok (moveCategory d m)"
    by (simp add: moveCategory_def m SETTINGS_CATEGORIES_def settings_focus settings_index)
  show "settings_ok (setCategory c m)" by (cases c) (simp_all add: setCategory_def m settings_focus settings_index)
  show "settings_ok (setWidth w m)" by (simp add: setWidth_def m)
  have e: "settings_ok k \<Longrightarrow> settings_ok (ensureFocusVisible k)" for k by (simp add: ensureFocusVisible_def settings_focus)
  show "settings_ok (settings_moveFocus d m)"
    unfolding settings_moveFocus_def Let_def SETTINGS_CATEGORIES_def using m c
    by (auto intro!: e settings_focus settings_index)
qed

lemma keep_edits [settings_keeps]:
  "settings_ok m \<Longrightarrow> settings_ok (toggleFocused m)"
  "settings_ok m \<Longrightarrow> settings_ok (snd (cycleFocused m))"
proof -
  assume m: "settings_ok m"
  then have w: "wf_config (sx_draft m)" by (simp add: settings_ok_def)
  show "settings_ok (toggleFocused m)" unfolding toggleFocused_def
    by (cases "focusedRow m") (simp_all add: m dirty_edit w)
  have "dialog_ok (DialogApprovalNever 0)" "dialog_ok (DialogFilesystem 0)" by (simp_all add: dialog_ok_def)
  then show "settings_ok (snd (cycleFocused m))" unfolding cycleFocused_def
    by (cases "focusedRow m") (auto simp: m dirty_edit w wf_cycle_setting settings_dialog split: option.split)
qed

lemma keep_save [settings_keeps]:
  "settings_ok m \<Longrightarrow> settings_ok (snd (beginSave m))"
  "settings_ok m \<Longrightarrow> wf_config c \<Longrightarrow> settings_ok (markSaved c m)"
  "settings_ok m \<Longrightarrow> s = StateValidationError \<or> s = StateWriteError \<Longrightarrow> settings_ok (markError t s m)"
  "settings_ok m \<Longrightarrow> wf_config c \<Longrightarrow> settings_ok (replaceWithSaved c m)"
  "settings_ok m \<Longrightarrow> settings_ok (discard m)"
  "settings_ok m \<Longrightarrow> settings_ok (applyDefaultsToDraft m)"
  by (auto simp: settings_ok_def beginSave_def markSaved_def markError_def replaceWithSaved_def discard_def applyDefaultsToDraft_def
      refreshActivationStatus_def markDirty_def dialog_ok_def Let_def split: option.split sum.split)

lemma keep_setters [settings_keeps]:
  "settings_ok m \<Longrightarrow> wf_limit (CompactionAuto v) \<Longrightarrow> settings_ok (setAutoCompactTokenLimit v m)"
  "settings_ok m \<Longrightarrow> wf_providers ps \<Longrightarrow> settings_ok (setActivationProviders ps m)"
  by (auto simp: setAutoCompactTokenLimit_def setActivationProviders_def settings_ok_def wf_config_def markDirty_def edit_draft_def
      edit_codex_def)

lemma keep_dialogs [settings_keeps]:
  "settings_ok m \<Longrightarrow> settings_ok (openDirtyCloseDialog m)" "settings_ok m \<Longrightarrow> settings_ok (openResetDialog m)"
  "settings_ok m \<Longrightarrow> settings_ok (openHelp m)" "settings_ok m \<Longrightarrow> settings_ok (closeDialog m)"
  "settings_ok m \<Longrightarrow> settings_ok (settings_dispose m)"
  by (auto simp: openDirtyCloseDialog_def openResetDialog_def openHelp_def closeDialog_def openDialog_def settings_dispose_def
      settings_dialog dialog_ok_def)

lemma keep_activate [settings_keeps]: "settings_ok m \<Longrightarrow> settings_ok (snd (activateFocused m))"
  unfolding activateFocused_def
  by (cases "focusedRow m") (auto simp: settings_keeps settings_focus)

lemma keep_option:
  assumes "settings_ok m" and "\<And>f. 0 \<le> f \<Longrightarrow> f < int (length options) \<Longrightarrow> dialog_ok (dialog f)" and "0 \<le> focus" and "options \<noteq> []"
    and "\<And>selected. settings_ok (snd (select selected m))" and "focus < int (length options)"
  shows "settings_ok (snd (choose_option key dialog options focus select m))"
proof -
  have none: "dialog_ok DialogNone" by (simp add: dialog_ok_def)
  have "0 < int (length options)" using assms(4) by simp
  then have "dialog_ok (dialog (max 0 (focus - 1)))" "dialog_ok (dialog (min (int (length options) - 1) (focus + 1)))"
    using assms(2,3,6) by auto
  with assms none show ?thesis by (simp add: choose_option_def settings_dialog)
qed

lemma keep_dialog_key [settings_keeps]: "settings_ok m \<Longrightarrow> settings_ok (snd (handleDialogKey key m))"
proof -
  assume m: "settings_ok m"
  have none: "settings_ok (m\<lparr>sx_dialog := DialogNone\<rparr>)" using m by (simp add: settings_dialog dialog_ok_def)
  have close: "settings_ok (snd (select_close s m))" for s using none m by (simp add: select_close_def settings_keeps)
  have reset: "settings_ok (snd (select_reset s m))" for s using none by (simp add: select_reset_def)
  have policy: "settings_ok (snd (select_policy f s m))" if "wf_config (f (sx_draft m))" for f s
    using none dirty_edit [where f = f, OF m that] by (simp add: select_policy_def Let_def settings_dialog dialog_ok_def)
  have w: "wf_config (sx_draft m)" "dialog_ok (sx_dialog m)" using m by (simp_all add: settings_ok_def)
  show ?thesis
  proof (cases "sx_dialog m")
    case (DialogDirtyClose f)
    then show ?thesis using w(2) unfolding handleDialogKey_def
      by simp (rule keep_option; simp add: m close dialog_ok_def DIRTY_CLOSE_OPTIONS_def)
  next
    case (DialogReset f)
    then show ?thesis using w(2) unfolding handleDialogKey_def
      by simp (rule keep_option; simp add: m reset dialog_ok_def RESET_OPTIONS_def)
  next
    case (DialogApprovalNever f)
    then show ?thesis using w unfolding handleDialogKey_def
      by simp (rule keep_option; simp add: m policy dialog_ok_def APPROVAL_NEVER_OPTIONS_def)
  next
    case (DialogFilesystem f)
    then show ?thesis using w unfolding handleDialogKey_def
      by simp (rule keep_option; simp add: m policy dialog_ok_def FILESYSTEM_UNRESTRICTED_OPTIONS_def)
  qed (simp_all add: handleDialogKey_def m none)
qed

lemma keep_key [settings_keeps]: "settings_ok m \<Longrightarrow> settings_ok (snd (handleKey p data m))"
  by (simp add: handleKey_def handle_parsed_def settings_keeps Let_def)

lemma keep_lines [settings_keeps]: "settings_ok m \<Longrightarrow> settings_ok (snd (settings_lines width m))"
  by (simp add: settings_lines_def Let_def)

lemma keep_step: "settings_ok m \<Longrightarrow> valid_settings_op a \<Longrightarrow> settings_ok (settings_step p a m)"
  by (cases a) (simp_all add: settings_step_def valid_settings_op_def settings_keeps)

lemma keep_steps: "settings_ok m \<Longrightarrow> list_all valid_settings_op as \<Longrightarrow> settings_ok (fold (settings_step p) as m)"
  by (induction as arbitrary: m) (simp_all add: keep_step)

lemma settings_ok_new: "wf_config c \<Longrightarrow> settings_ok (new_settings c options)"
  by (simp add: settings_ok_def new_settings_def dialog_ok_def)

text \<open>
  C32: the screen that any sequence of keys, resizes and completed saves reaches from a valid configuration
  keeps its invariant, and its draft passes validation: \<open>beginSave\<close> returns exactly the draft, unless the
  screen has been disposed.
\<close>

theorem draft_always_saveable:
  assumes "wf_config c" and "list_all valid_settings_op as" and "m = fold (settings_step p) as (new_settings c options)"
  shows "settings_ok m \<and> fst (beginSave m) = (if sx_disposed m then Inl None else Inr (sx_draft m))"
proof -
  have ok: "settings_ok m" using keep_steps [OF settings_ok_new [OF assms(1)] assms(2)] assms(3) by simp
  then have "wf_config (sx_draft m)" by (simp add: settings_ok_def)
  with ok show ?thesis by (simp add: beginSave_def parseConfig_config_js)
qed

definition sample_options :: SettingsModelOptions where
  "sample_options = \<lparr>mo_baseline = ''b'', mo_provider = ''openai'', mo_model = ''m'', mo_bridge = ''v1'',
     mo_activationModel = None, mo_activationStatus = None, mo_capabilities = None, mo_disabledReasons = [],
     mo_modelAutoCompactTokenLimit = None, mo_numberText = (\<lambda>_. '''')\<rparr>"

theorem draft_always_saveable_witness:
  "settings_ok (fold (settings_step (\<lambda>_. None)) [OpSetCategory CatTools, OpKey ''space'', OpMarkSaved createDefaultConfig]
     (new_settings createDefaultConfig sample_options))"
  using draft_always_saveable [OF wf_createDefaultConfig _ refl,
      of "[OpSetCategory CatTools, OpKey ''space'', OpMarkSaved createDefaultConfig]" "\<lambda>_. None" sample_options]
  by (simp add: valid_settings_op_def wf_createDefaultConfig)

section \<open>Protections\<close>

text \<open>The second configuration turns off no protection that the first one has.\<close>

definition keeps_protection :: "CodexConfig \<Rightarrow> CodexConfig \<Rightarrow> bool" where
  "keeps_protection a b \<longleftrightarrow> (approvalPolicy (security b) = Never \<longrightarrow> approvalPolicy (security a) = Never) \<and>
     (filesystemAccessPolicy (security b) = Unrestricted \<longrightarrow> filesystemAccessPolicy (security a) = Unrestricted)"

lemma keeps_protection_same: "security b = security a \<Longrightarrow> keeps_protection a b"
  by (simp add: keeps_protection_def)

lemma edit_security [simp]: "security (edit_optional g c) = security c" "security (edit_codex h c) = security c"
  by (simp_all add: edit_optional_def edit_codex_def)

lemma safe_cycle_setting: "cycle_setting i = Some f \<Longrightarrow> security (f c) = security c"
  unfolding cycle_setting_def by (auto split: if_split_asm)

lemma safe_moves [simp]:
  "sx_draft (moveCategory d m) = sx_draft m" "sx_draft (settings_moveFocus d m) = sx_draft m"
  "sx_draft (openDialog dlg m) = sx_draft m"
  by (simp_all add: moveCategory_def settings_moveFocus_def ensureFocusVisible_def openDialog_def Let_def)

lemma draft_edited [simp]: "sx_draft (markDirty (edit_draft f m)) = f (sx_draft m)"
  by (simp add: markDirty_def edit_draft_def)

lemma safe_toggle: "security (sx_draft (toggleFocused m)) = security (sx_draft m)"
  unfolding toggleFocused_def by (cases "focusedRow m") (simp_all add: flip_background_def flip_status_def)

lemma safe_cycle: "keeps_protection (sx_draft m) (sx_draft (snd (cycleFocused m)))"
  unfolding cycleFocused_def
  by (cases "focusedRow m")
    (auto simp: keeps_protection_def set_approval_def set_filesystem_def safe_cycle_setting split: option.split)

lemma safe_activate: "keeps_protection (sx_draft m) (sx_draft (snd (activateFocused m)))"
  unfolding activateFocused_def
  by (cases "focusedRow m") (auto simp: keeps_protection_same safe_cycle safe_toggle openResetDialog_def)

lemma safe_parsed: "keeps_protection (sx_draft m) (sx_draft (snd (handle_parsed key m)))"
  by (simp add: handle_parsed_def keeps_protection_same safe_activate safe_toggle openResetDialog_def openHelp_def
      openDirtyCloseDialog_def)

lemma second_option: "option_at [''Cancel'', s] f \<noteq> ''Cancel'' \<Longrightarrow> f = 1"
proof -
  assume a: "option_at [''Cancel'', s] f \<noteq> ''Cancel''"
  then have "0 \<le> f" "f < 2" by (auto simp: option_at_def split: if_split_asm)
  moreover have "f \<noteq> 0" using a by (auto simp: option_at_def)
  ultimately show ?thesis by linarith
qed

lemma policy_choice:
  assumes r_def: "r = choose_option key dialog [''Cancel'', s] f (select_policy g) m"
  shows "sx_draft (snd r) = sx_draft m \<or> f = 1 \<and> is_select key \<and> r = select_policy g s m"
proof (cases "option_at [''Cancel'', s] f = ''Cancel''")
  case True
  then show ?thesis by (simp add: r_def choose_option_def select_policy_def)
next
  case False
  then have "f = 1" by (rule second_option)
  moreover have "option_at [''Cancel'', s] 1 = s" by (simp add: option_at_def)
  ultimately show ?thesis by (simp add: r_def choose_option_def)
qed

text \<open>A key of a dialogue leaves the draft, restores the saved configuration, or confirms a policy.\<close>

lemma dialog_key_cases:
  obtains (kept) "sx_draft (snd (handleDialogKey key m)) = sx_draft m"
  | (discarded) "fst (handleDialogKey key m) = EffectClose" "sx_draft (snd (handleDialogKey key m)) = sx_saved m"
  | (never) "sx_dialog m = DialogApprovalNever 1" "is_select key"
      "handleDialogKey key m = select_policy (set_approval Never) ''Enable never'' m"
  | (unrestricted) "sx_dialog m = DialogFilesystem 1" "is_select key"
      "handleDialogKey key m = select_policy (set_filesystem Unrestricted) ''Enable unrestricted'' m"
proof (cases "sx_dialog m")
  case (DialogDirtyClose f)
  then have "sx_draft (snd (handleDialogKey key m)) = sx_draft m \<or>
      fst (handleDialogKey key m) = EffectClose \<and> sx_draft (snd (handleDialogKey key m)) = sx_saved m"
    by (auto simp: handleDialogKey_def choose_option_def select_close_def discard_def)
  then show thesis using kept discarded by blast
next
  case (DialogReset f)
  then show thesis using kept by (auto simp: handleDialogKey_def choose_option_def select_reset_def)
next
  case (DialogApprovalNever f)
  then show thesis using kept never policy_choice [OF refl, of key DialogApprovalNever "''Enable never''" f "set_approval Never" m]
    unfolding handleDialogKey_def APPROVAL_NEVER_OPTIONS_def by auto
next
  case (DialogFilesystem f)
  then show thesis
    using kept unrestricted policy_choice [OF refl, of key DialogFilesystem "''Enable unrestricted''" f "set_filesystem Unrestricted" m]
    unfolding handleDialogKey_def FILESYSTEM_UNRESTRICTED_OPTIONS_def by auto
qed (use kept in \<open>simp_all add: handleDialogKey_def\<close>)

lemma select_policy_confirms:
  assumes "select_policy f s m = (e, m')" and "s \<noteq> ''Cancel''" and "securityPolicyWarning (f (sx_draft m)) = Some w"
  shows "e = EffectSecurity w" "sx_draft m' = f (sx_draft m)"
  using assms by (auto simp: select_policy_def Let_def)

lemma warned:
  "approvalPolicy (security c) = Never \<or> filesystemAccessPolicy (security c) = Unrestricted \<Longrightarrow> \<exists>w. securityPolicyWarning c = Some w"
  by (auto simp: securityPolicyWarning_def Let_def)

text \<open>
  C31: no key turns a protection off silently. When a key leaves a draft with a protection less than before, then
  either the key selected the second option of the confirmation dialogue of exactly that policy, nothing else of the
  draft changed, and the effect carries the security warning of the new draft; or the draft was discarded for
  the configuration that is already saved, and the screen closes.
\<close>

theorem protection_needs_confirmation:
  assumes "handleKey p data m = (e, m')" and "\<not> keeps_protection (sx_draft m) (sx_draft m')"
  shows "(sx_dialog m = DialogApprovalNever 1 \<and> is_select (parseKey p data) \<and> sx_draft m' = set_approval Never (sx_draft m) \<and>
            (\<exists>w. e = EffectSecurity w \<and> securityPolicyWarning (sx_draft m') = Some w)) \<or>
         (sx_dialog m = DialogFilesystem 1 \<and> is_select (parseKey p data) \<and>
            sx_draft m' = set_filesystem Unrestricted (sx_draft m) \<and>
            (\<exists>w. e = EffectSecurity w \<and> securityPolicyWarning (sx_draft m') = Some w)) \<or>
         (sx_draft m' = sx_saved m \<and> e = EffectClose)"
proof -
  let ?key = "parseKey p data"
  have live: "\<not> sx_disposed m" and dlg: "sx_dialog m \<noteq> DialogNone"
    using assms safe_parsed [of m ?key] by (auto simp: handleKey_def Let_def keeps_protection_same split: if_split_asm)
  with assms(1) have k: "handleDialogKey ?key m = (e, m')" by (simp add: handleKey_def Let_def)
  show ?thesis
  proof (cases ?key m rule: dialog_key_cases)
    case kept
    with k assms(2) show ?thesis by (simp add: keeps_protection_same)
  next
    case discarded
    with k show ?thesis by simp
  next
    case never
    obtain w where "securityPolicyWarning (set_approval Never (sx_draft m)) = Some w"
      using warned [of "set_approval Never (sx_draft m)"] by (auto simp: set_approval_def)
    with never k show ?thesis using select_policy_confirms [of "set_approval Never" "''Enable never''" m e m' w] by simp
  next
    case unrestricted
    obtain w where "securityPolicyWarning (set_filesystem Unrestricted (sx_draft m)) = Some w"
      using warned [of "set_filesystem Unrestricted (sx_draft m)"] by (auto simp: set_filesystem_def)
    with unrestricted k show ?thesis
      using select_policy_confirms [of "set_filesystem Unrestricted" "''Enable unrestricted''" m e m' w] by simp
  qed
qed

theorem protection_needs_confirmation_witness:
  "let m = fold (settings_step (\<lambda>_. None)) [OpSetCategory CatTools, OpKey ''down'', OpKey ''enter'', OpKey ''down'']
         (new_settings createDefaultConfig sample_options);
       m' = snd (handleKey (\<lambda>_. None) ''enter'' m)
   in sx_dialog m = DialogApprovalNever 1 \<and> sx_draft m' = set_approval Never (sx_draft m)"
proof -
  let ?m = "fold (settings_step (\<lambda>_. None)) [OpSetCategory CatTools, OpKey ''down'', OpKey ''enter'', OpKey ''down'']
    (new_settings createDefaultConfig sample_options)"
  let ?r = "handleKey (\<lambda>_. None) ''enter'' ?m"
  have "sx_dialog ?m = DialogApprovalNever 1" "\<not> keeps_protection (sx_draft ?m) (sx_draft (snd ?r))"
    "fst ?r \<noteq> EffectClose"
    unfolding keeps_protection_def by code_simp+
  then show ?thesis using protection_needs_confirmation [of "\<lambda>_. None" "''enter''" ?m "fst ?r" "snd ?r"]
    by (simp add: Let_def)
qed

section \<open>The lines of the screen\<close>

abbreviation fits :: "int \<Rightarrow> string \<Rightarrow> bool" where
  "fits width l \<equiv> int (length l) \<le> max 0 width"

lemma fitted_lines: "list_all (fits width) (map (\<lambda>x. fitLine (f x) width) xs)"
  by (simp add: list_all_iff fitLine_bounded)

lemma wrapped_lines: "list_all (fits width) (wrapText t width)"
  by (auto simp: list_all_iff dest!: wrapText_bounded)

lemma option_dialog_fits: "list_all (fits width) (option_dialog title question options focus preset width)"
  using wrapped_lines [of width question]
  by (auto simp: option_dialog_def fitLine_bounded list_all_iff simp del: max.bounded_iff)

lemma dialog_fits: "list_all (fits width) (dialogLines width m)"
  by (cases "sx_dialog m") (simp_all only: dialogLines_def SettingsDialog.case option_dialog_fits fitted_lines list.pred_inject)

text \<open>
  whatever the configuration, the texts of the options and the width of the terminal, no line that the settings
  screen draws is wider than the terminal, and drawing changes nothing of the screen but the width it remembers.
\<close>

theorem settings_screen_fits:
  "list_all (\<lambda>l. int (length l) \<le> max 0 width) (fst (settings_lines width m)) \<and>
   snd (settings_lines width m) = m\<lparr>sx_width := max 0 width\<rparr>"
proof -
  have "list_all (fits width) [fitLine ''Settings closed'' width]" by (simp only: list.pred_inject fitLine_bounded simp_thms)
  then show ?thesis unfolding settings_lines_def Let_def by (simp only: fst_conv snd_conv if_True if_False dialog_fits fitted_lines split: if_split) simp
qed

section \<open>Edits the screen loses\<close>

text \<open>
  A draft that failed to save is closed by one \<open>Esc\<close>, without the dialogue for unsaved changes: the state is an error
  state and no longer \<open>dirty\<close>, so that the edits are lost.
\<close>

lemma error_state_closes:
  assumes "handleKey p data m = (e, m')" and "parseKey p data = ''esc''" and "\<not> sx_disposed m" and "sx_dialog m = DialogNone"
    and "\<not> narrow_settings m" and "sx_state m = StateWriteError"
  shows "e = EffectClose \<and> m' = m"
  using assms by (simp add: handleKey_def handle_parsed_def)

text \<open>
  An edit made while a save is under way is replaced by the configuration that was saved, and the screen says that
  everything is saved.
\<close>

definition edited_during_save :: SettingsModel where
  "edited_during_save = fold (settings_step (\<lambda>_. None)) (OpBeginSave # replicate 5 (OpKey ''down'') @ [OpKey ''space''])
     (new_settings createDefaultConfig sample_options)"

lemma edit_during_save_lost:
  "sx_draft edited_during_save = flip_status createDefaultConfig"
  "sx_draft (markSaved createDefaultConfig edited_during_save) = createDefaultConfig"
  "sx_state (markSaved createDefaultConfig edited_during_save) = StateSaved"
  by code_simp+

end
