(* ===== verification/Diagnostics.thy ===== *)
theory Diagnostics
  imports Config_Service Bridge_Protocol
begin

text \<open>
  The diagnostics export: \<open>src/src/application/diagnostics.ts\<close> and
  \<open>src/src/infrastructure/diagnostics/file-diagnostics-exporter.ts\<close>. A snapshot is a JavaScript object, since the
  second sanitizing pass does not trust the type of what it is given; the file system is the one of the
  configuration file; the digest of the exported text is an argument.

  The lemmas show what a sanitized snapshot may contain, that sanitizing is idempotent, and that a file is written
  only after a confirmation, atomically, with the sanitized snapshot.
\<close>

section \<open>Sanitizing values\<close>

definition MAX_SAFE_STRING :: nat where "MAX_SAFE_STRING = 256"

definition MAX_RECENT_ERRORS :: nat where "MAX_RECENT_ERRORS = 20"

definition BRIDGE_FIELDS :: "string list" where
  "BRIDGE_FIELDS = [''bridgeProtocolVersion'', ''officialCodexVersion'', ''officialCodexTag'', ''officialSourceCommit'',
     ''buildTarget'', ''buildSourceCommit'', ''vendorTreeSha256'', ''capabilities'']"

definition SAFE_ERROR_CATEGORIES :: "string list" where
  "SAFE_ERROR_CATEGORIES = [''ConfigurationError'', ''AuthenticationError'', ''ProtocolError'', ''CapabilityError'', ''NativeToolError'']"

definition is_JStr :: "js \<Rightarrow> bool" where
  "is_JStr v = (case v of JStr _ \<Rightarrow> True | _ \<Rightarrow> False)"

definition isSafeDiagnosticValue :: "js \<Rightarrow> bool" where
  "isSafeDiagnosticValue v = (case v of JStr _ \<Rightarrow> True | JNum _ \<Rightarrow> True | JArr items \<Rightarrow> list_all is_JStr items | _ \<Rightarrow> False)"

text \<open>A zero byte or a line break.\<close>

definition has_control :: "string \<Rightarrow> bool" where
  "has_control s \<longleftrightarrow> CHR 0x00 \<in> set s \<or> CHR 0x0A \<in> set s \<or> CHR 0x0D \<in> set s"

definition identity_text :: "string \<Rightarrow> bool" where
  "identity_text t \<longleftrightarrow> t \<noteq> '''' \<and> length t \<le> MAX_SAFE_STRING \<and> \<not> has_control t \<and>
     \<not> starts_with t ''/'' \<and> CHR 0x5C \<notin> set t"

definition sanitizeIdentityString :: "js \<Rightarrow> string option" where
  "sanitizeIdentityString v = (case v of
     JStr s \<Rightarrow> (let trimmed = trim s in if identity_text trimmed then Some trimmed else None)
   | _ \<Rightarrow> None)"

text \<open>The tests \<open>/(api[_-]?key|token|bearer|authorization|password)/i\<close> and \<open>/[A-Za-z]:\\/\<close>.\<close>

definition credential_words :: "string list" where
  "credential_words = [''apikey'', ''api_key'', ''api-key'', ''token'', ''bearer'', ''authorization'', ''password'']"

definition mentions_credential :: "string \<Rightarrow> bool" where
  "mentions_credential t = list_ex (\<lambda>w. str_includes (toLowerCase t) w) credential_words"

definition ascii_letter :: "char \<Rightarrow> bool" where
  "ascii_letter c = (let n = of_char c :: nat in 65 \<le> n \<and> n \<le> 90 \<or> 97 \<le> n \<and> n \<le> 122)"

definition ascii_digit :: "char \<Rightarrow> bool" where
  "ascii_digit c = (let n = of_char c :: nat in 48 \<le> n \<and> n \<le> 57)"

fun drive_path :: "string \<Rightarrow> bool" where
  "drive_path (a # b # c # s) \<longleftrightarrow> ascii_letter a \<and> b = CHR '':'' \<and> c = CHR 0x5C \<or> drive_path (b # c # s)"
| "drive_path _ \<longleftrightarrow> False"

definition message_text :: "string \<Rightarrow> bool" where
  "message_text t \<longleftrightarrow> t \<noteq> '''' \<and> length t \<le> 512 \<and> \<not> has_control t \<and> \<not> mentions_credential t \<and>
     \<not> starts_with t ''/'' \<and> \<not> drive_path t"

definition sanitizeErrorMessage :: "js \<Rightarrow> string option" where
  "sanitizeErrorMessage v = (case v of
     JStr s \<Rightarrow> (let trimmed = trim s in if message_text trimmed then Some trimmed else None)
   | _ \<Rightarrow> None)"

definition sanitizeChecksum :: "js \<Rightarrow> string option" where
  "sanitizeChecksum v = (case v of JStr s \<Rightarrow> if hex_string 64 s then Some s else None | _ \<Rightarrow> None)"

text \<open>An optional property of an object literal that is built up.\<close>

definition opt_field :: "string \<Rightarrow> js option \<Rightarrow> js_object" where
  "opt_field k v = (case v of None \<Rightarrow> [] | Some x \<Rightarrow> [(k, x)])"

definition sanitizeError :: "js \<Rightarrow> js option" where
  "sanitizeError v = (case as_record v of
     None \<Rightarrow> None
   | Some entry \<Rightarrow>
      (case get_prop entry ''category'' of
         JStr category \<Rightarrow>
           if category \<notin> set SAFE_ERROR_CATEGORIES then None
           else (case (sanitizeIdentityString (get_prop entry ''code''), sanitizeErrorMessage (get_prop entry ''message'')) of
               (Some code, Some message) \<Rightarrow>
                 Some (JObj ([(''category'', JStr category), (''code'', JStr code), (''message'', JStr message)] @
                   opt_field ''requestId'' (map_option JStr (sanitizeIdentityString (get_prop entry ''requestId''))) @
                   opt_field ''retryable'' (case get_prop entry ''retryable'' of JBool b \<Rightarrow> Some (JBool b) | _ \<Rightarrow> None)))
             | _ \<Rightarrow> None)
       | _ \<Rightarrow> None))"

definition sanitizeRecentErrors :: "js \<Rightarrow> js list" where
  "sanitizeRecentErrors v = (case v of JArr entries \<Rightarrow> take MAX_RECENT_ERRORS (List.map_filter sanitizeError entries) | _ \<Rightarrow> [])"

text \<open>The test \<open>/^[A-Za-z][A-Za-z0-9]{0,63}$/\<close>.\<close>

definition capability_key :: "string \<Rightarrow> bool" where
  "capability_key k = (case k of [] \<Rightarrow> False
     | c # r \<Rightarrow> ascii_letter c \<and> list_all (\<lambda>x. ascii_letter x \<or> ascii_digit x) r \<and> length r \<le> 63)"

definition safe_counter :: "js \<Rightarrow> bool" where
  "safe_counter v = (case v of JNum n \<Rightarrow> isSafeInteger n \<and> num_le (Fin 0) n | _ \<Rightarrow> False)"

definition capability_value :: "js \<Rightarrow> js option" where
  "capability_value item =
    (if (case item of JBool _ \<Rightarrow> True | JNull \<Rightarrow> True | _ \<Rightarrow> safe_counter item) then Some item
     else (case sanitizeIdentityString item of
         Some t \<Rightarrow> Some (JStr t)
       | None \<Rightarrow> (case item of
           JArr items \<Rightarrow> (let vs = map sanitizeIdentityString items in
             if list_all (\<lambda>v. v \<noteq> None) vs then Some (JArr (map (\<lambda>v. JStr (the v)) vs)) else None)
         | _ \<Rightarrow> None)))"

definition capability_entry :: "string \<times> js \<Rightarrow> (string \<times> js) option" where
  "capability_entry kv = (if capability_key (fst kv) then map_option (Pair (fst kv)) (capability_value (snd kv)) else None)"

definition sanitizeEffectiveCapabilities :: "js \<Rightarrow> js option" where
  "sanitizeEffectiveCapabilities v = (case as_record v of
     None \<Rightarrow> None
   | Some source \<Rightarrow> (let result = List.map_filter capability_entry source in if result = [] then None else Some (JObj result)))"

section \<open>Snapshots\<close>

text \<open>\<open>v?.k\<close>.\<close>

definition chain :: "js \<Rightarrow> string \<Rightarrow> js" where
  "chain v k = (case v of JObj ob \<Rightarrow> get_prop ob k | _ \<Rightarrow> JUndef)"

definition nullish :: "js \<Rightarrow> js \<Rightarrow> js" where
  "nullish a b = (if a = JUndef \<or> a = JNull then b else a)"

record DiagnosticsHostContext =
  dh_adaptorVersion :: "string option"
  dh_piVersion :: "string option"
  dh_os :: "string option"
  dh_arch :: "string option"
  dh_binaryChecksum :: "string option"
  dh_recentErrors :: "js list option"
  dh_effectiveCapabilities :: "js_object option"

definition js_opt :: "('a \<Rightarrow> js) \<Rightarrow> 'a option \<Rightarrow> js" where
  "js_opt f v = (case v of None \<Rightarrow> JUndef | Some x \<Rightarrow> f x)"

definition safe_bridge :: "js_object \<Rightarrow> js_object" where
  "safe_bridge source = map (\<lambda>field. (field, get_prop source field))
     (filter (\<lambda>field. isSafeDiagnosticValue (get_prop source field)) BRIDGE_FIELDS)"

definition version_field :: "string \<Rightarrow> js \<Rightarrow> js_object" where
  "version_field k v = opt_field k (map_option (\<lambda>s. JObj [(''version'', JStr s)]) (sanitizeIdentityString v))"

definition runtime_field :: "js \<Rightarrow> js \<Rightarrow> js_object" where
  "runtime_field os arch = (case (sanitizeIdentityString os, sanitizeIdentityString arch) of
     (Some a, Some b) \<Rightarrow> [(''runtime'', JObj [(''os'', JStr a), (''arch'', JStr b)])] | _ \<Rightarrow> [])"

text \<open>The object the two builders share: the members in the order in which they are assigned.\<close>

definition snapshot_object :: "js \<Rightarrow> js_object \<Rightarrow> js \<Rightarrow> js \<Rightarrow> js \<Rightarrow> js \<Rightarrow> js \<Rightarrow> js \<Rightarrow> js \<Rightarrow> js_object" where
  "snapshot_object count bridge errors adaptor pi_version os arch checksum capabilities =
     [(''schemaVersion'', jint 2), (''configSchemaVersion'', jint 3),
      (''activation'', JObj [(''providerCount'', count), (''supportedApis'', JArr (map JStr CODEX_PI_APIS))]),
      (''bridge'', JObj (safe_bridge bridge)), (''recentErrors'', JArr (sanitizeRecentErrors errors))] @
     version_field ''adaptor'' adaptor @ version_field ''pi'' pi_version @ runtime_field os arch @
     opt_field ''binaryChecksum'' (map_option JStr (sanitizeChecksum checksum)) @
     opt_field ''effectiveCapabilities'' (sanitizeEffectiveCapabilities capabilities)"

definition createDiagnosticsSnapshot :: "CodexConfig \<Rightarrow> js \<Rightarrow> DiagnosticsHostContext \<Rightarrow> js_object" where
  "createDiagnosticsSnapshot config native host =
    (let source = (case as_record native of None \<Rightarrow> [] | Some ob \<Rightarrow> ob) in
     snapshot_object (jint (int (length (providers config)))) source
       (nullish (js_opt JArr (dh_recentErrors host)) (get_prop source ''recentErrors''))
       (js_opt JStr (dh_adaptorVersion host)) (js_opt JStr (dh_piVersion host)) (js_opt JStr (dh_os host))
       (js_opt JStr (dh_arch host))
       (nullish (nullish (js_opt JStr (dh_binaryChecksum host)) (get_prop source ''binaryChecksum'')) (get_prop source ''binarySha256''))
       (js_opt JObj (dh_effectiveCapabilities host)))"

definition sanitizeSnapshot :: "js_object \<Rightarrow> js_object" where
  "sanitizeSnapshot s =
    (let count = chain (get_prop s ''activation'') ''providerCount'';
         bridge = (case as_record (get_prop s ''bridge'') of None \<Rightarrow> [] | Some ob \<Rightarrow> ob)
     in snapshot_object (if safe_counter count then count else jint 0) bridge (get_prop s ''recentErrors'')
       (chain (get_prop s ''adaptor'') ''version'') (chain (get_prop s ''pi'') ''version'')
       (chain (get_prop s ''runtime'') ''os'') (chain (get_prop s ''runtime'') ''arch'')
       (get_prop s ''binaryChecksum'') (get_prop s ''effectiveCapabilities''))"

section \<open>Lemmas on the sanitizers\<close>

lemma trim_edges: "trim s = [] \<or> \<not> js_space (hd (trim s)) \<and> \<not> js_space (last (trim s))"
proof (cases "trim s = []")
  case False
  let ?d = "dropWhile js_space s"
  have l: "last (trim s) = hd (dropWhile js_space (rev ?d))" using False by (simp add: trim_def last_rev)
  then have "\<not> js_space (last (trim s))" using False hd_dropWhile [of js_space "rev ?d"] by (simp add: trim_def)
  moreover obtain r where "?d = trim s @ r"
    using takeWhile_dropWhile_id [of js_space "rev ?d"] by (metis rev_append rev_rev_ident trim_def)
  with False have "hd (trim s) = hd ?d" "?d \<noteq> []" by auto
  then have "\<not> js_space (hd (trim s))" using hd_dropWhile [of js_space s] by simp
  ultimately show ?thesis by simp
qed simp

lemma trim_fixed: "t = [] \<or> \<not> js_space (hd t) \<and> \<not> js_space (last t) \<Longrightarrow> trim t = t"
proof -
  have keep: "dropWhile js_space u = u" if "u = [] \<or> \<not> js_space (hd u)" for u using that by (cases u) auto
  assume t: "t = [] \<or> \<not> js_space (hd t) \<and> \<not> js_space (last t)"
  then have "dropWhile js_space t = t" "dropWhile js_space (rev t) = rev t" by (auto intro!: keep simp: hd_rev)
  then show ?thesis by (simp add: trim_def)
qed

lemma trim_trim [simp]: "trim (trim s) = trim s"
  by (rule trim_fixed [OF trim_edges])

lemma identity_Some: "sanitizeIdentityString v = Some t \<Longrightarrow> identity_text t \<and> trim t = t"
  by (cases v) (auto simp: sanitizeIdentityString_def Let_def split: if_split_asm)

lemma identity_again [simp]: "sanitizeIdentityString v = Some t \<Longrightarrow> sanitizeIdentityString (JStr t) = Some t"
  using identity_Some [of v t] by (simp add: sanitizeIdentityString_def)

lemma identity_undef [simp]: "sanitizeIdentityString JUndef = None"
  by (simp add: sanitizeIdentityString_def)

lemma message_Some: "sanitizeErrorMessage v = Some t \<Longrightarrow> message_text t \<and> sanitizeErrorMessage (JStr t) = Some t"
  by (cases v) (auto simp: sanitizeErrorMessage_def Let_def split: if_split_asm)

lemma checksum_Some: "sanitizeChecksum v = Some t \<Longrightarrow> hex_string 64 t \<and> sanitizeChecksum (JStr t) = Some t"
  by (cases v) (auto simp: sanitizeChecksum_def split: if_split_asm)

text \<open>A filtering map that fixes its own results is idempotent.\<close>

lemma map_filter_id: "(\<And>y. y \<in> set ys \<Longrightarrow> f y = Some y) \<Longrightarrow> List.map_filter f ys = ys"
  by (induction ys) (simp_all add: List.map_filter_simps)

lemma map_filter_set: "y \<in> set (List.map_filter f xs) \<Longrightarrow> \<exists>x. f x = Some y"
  by (auto simp: List.map_filter_def)

lemma category_safe: "c \<in> set SAFE_ERROR_CATEGORIES \<Longrightarrow> identity_text c"
  by (auto simp: SAFE_ERROR_CATEGORIES_def identity_text_def has_control_def MAX_SAFE_STRING_def)

lemma error_cases:
  assumes "sanitizeError v = Some e"
  obtains category code message request retry where
    "e = JObj ([(''category'', JStr category), (''code'', JStr code), (''message'', JStr message)] @
      opt_field ''requestId'' (map_option JStr request) @ opt_field ''retryable'' (map_option JBool retry))"
    "category \<in> set SAFE_ERROR_CATEGORIES" "sanitizeIdentityString (JStr code) = Some code"
    "sanitizeErrorMessage (JStr message) = Some message" "\<And>r. request = Some r \<Longrightarrow> sanitizeIdentityString (JStr r) = Some r"
proof -
  from assms obtain entry category code message where a: "as_record v = Some entry" "get_prop entry ''category'' = JStr category"
    "category \<in> set SAFE_ERROR_CATEGORIES" "sanitizeIdentityString (get_prop entry ''code'') = Some code"
    "sanitizeErrorMessage (get_prop entry ''message'') = Some message"
    and e: "e = JObj ([(''category'', JStr category), (''code'', JStr code), (''message'', JStr message)] @
       opt_field ''requestId'' (map_option JStr (sanitizeIdentityString (get_prop entry ''requestId''))) @
       opt_field ''retryable'' (case get_prop entry ''retryable'' of JBool b \<Rightarrow> Some (JBool b) | _ \<Rightarrow> None))"
    by (auto simp: sanitizeError_def split: option.splits js.splits if_split_asm)
  have "\<exists>retry. (case x of JBool b \<Rightarrow> Some (JBool b) | _ \<Rightarrow> None) = map_option JBool retry" for x
    by (cases x) (auto intro: exI [of _ None] exI [of _ "Some _"])
  then obtain retry where "(case get_prop entry ''retryable'' of JBool b \<Rightarrow> Some (JBool b) | _ \<Rightarrow> None) = map_option JBool retry"
    by blast
  with a e that [of category code message "sanitizeIdentityString (get_prop entry ''requestId'')" retry]
  show thesis using identity_again message_Some by metis
qed

lemma opt_field_get [simp]:
  "get_prop (opt_field k v @ r) k' = (if k' = k \<and> v \<noteq> None then the v else get_prop r k')"
  "get_prop (opt_field k v) k' = (if k' = k \<and> v \<noteq> None then the v else JUndef)"
  by (cases v; simp add: opt_field_def)+

lemma error_again: "sanitizeError v = Some e \<Longrightarrow> sanitizeError e = Some e"
  by (erule error_cases) (auto simp: sanitizeError_def split: option.split)

lemma errors_again: "sanitizeRecentErrors (JArr (sanitizeRecentErrors v)) = sanitizeRecentErrors v"
proof (cases v)
  case (JArr entries)
  let ?ys = "List.map_filter sanitizeError entries"
  have "List.map_filter sanitizeError (take MAX_RECENT_ERRORS ?ys) = take MAX_RECENT_ERRORS ?ys"
  proof (rule map_filter_id)
    fix y assume "y \<in> set (take MAX_RECENT_ERRORS ?ys)"
    then obtain x where "sanitizeError x = Some y" by (auto dest!: in_set_takeD map_filter_set)
    then show "sanitizeError y = Some y" by (rule error_again)
  qed
  with JArr show ?thesis by (simp add: sanitizeRecentErrors_def)
qed (simp_all add: sanitizeRecentErrors_def List.map_filter_simps)

lemma capability_value_again: "capability_value v = Some w \<Longrightarrow> capability_value w = Some w"
proof -
  assume v: "capability_value v = Some w"
  show ?thesis
  proof (cases "case v of JBool _ \<Rightarrow> True | JNull \<Rightarrow> True | _ \<Rightarrow> safe_counter v")
    case True
    with v show ?thesis by (auto simp: capability_value_def)
  next
    case no: False
    show ?thesis
    proof (cases "sanitizeIdentityString v")
      case (Some t)
      with v no have "w = JStr t" by (auto simp: capability_value_def)
      with Some show ?thesis by (simp add: capability_value_def safe_counter_def)
    next
      case None
      with v no obtain items where "v = JArr items" "list_all (\<lambda>v. v \<noteq> None) (map sanitizeIdentityString items)"
        and w: "w = JArr (map (\<lambda>v. JStr (the v)) (map sanitizeIdentityString items))"
        by (auto simp: capability_value_def Let_def split: js.splits if_split_asm)
      then have "sanitizeIdentityString (JStr (the (sanitizeIdentityString i))) = sanitizeIdentityString i" if "i \<in> set items" for i
        using that by (auto simp: list_all_iff)
      then have "map sanitizeIdentityString (map (\<lambda>v. JStr (the v)) (map sanitizeIdentityString items)) = map sanitizeIdentityString items"
        by simp
      with w \<open>list_all _ _\<close> show ?thesis
        by (simp add: capability_value_def safe_counter_def sanitizeIdentityString_def [of "JArr _"] Let_def del: map_map)
    qed
  qed
qed

lemma capabilities_again: "sanitizeEffectiveCapabilities v = Some w \<Longrightarrow> sanitizeEffectiveCapabilities w = Some w"
proof -
  assume "sanitizeEffectiveCapabilities v = Some w"
  then obtain source where w: "w = JObj (List.map_filter capability_entry source)" "List.map_filter capability_entry source \<noteq> []"
    by (auto simp: sanitizeEffectiveCapabilities_def Let_def split: option.splits if_split_asm)
  have "List.map_filter capability_entry (List.map_filter capability_entry source) = List.map_filter capability_entry source"
    by (rule map_filter_id) (auto simp: capability_entry_def dest!: map_filter_set capability_value_again split: if_split_asm)
  with w show ?thesis by (simp add: sanitizeEffectiveCapabilities_def)
qed

lemma bridge_again: "safe_bridge (safe_bridge source) = safe_bridge source"
proof -
  have get: "get_prop (map (\<lambda>f. (f, g f)) (filter P fs)) f = (if f \<in> set fs \<and> P f then g f else JUndef)" for g P fs f
    by (induction fs) auto
  have "\<not> isSafeDiagnosticValue JUndef" by (simp add: isSafeDiagnosticValue_def)
  moreover have "filter (\<lambda>f. f \<in> set BRIDGE_FIELDS \<and> isSafeDiagnosticValue (get_prop source f)) BRIDGE_FIELDS =
      filter (\<lambda>f. isSafeDiagnosticValue (get_prop source f)) BRIDGE_FIELDS"
    by (rule filter_cong) auto
  ultimately show ?thesis unfolding safe_bridge_def by (auto simp: get if_distrib [of isSafeDiagnosticValue] cong: if_cong)
qed

lemma version_get [simp]:
  "get_prop (version_field k v @ r) k' =
     (case sanitizeIdentityString v of Some s \<Rightarrow> if k' = k then JObj [(''version'', JStr s)] else get_prop r k' | None \<Rightarrow> get_prop r k')"
  by (simp add: version_field_def split: option.split)

lemma runtime_get [simp]:
  "get_prop (runtime_field a b @ r) k' = (case (sanitizeIdentityString a, sanitizeIdentityString b) of
     (Some x, Some y) \<Rightarrow> if k' = ''runtime'' then JObj [(''os'', JStr x), (''arch'', JStr y)] else get_prop r k' | _ \<Rightarrow> get_prop r k')"
  by (simp add: runtime_field_def split: option.split)

lemma fields_again:
  "version_field k (case sanitizeIdentityString v of Some s \<Rightarrow> JStr s | None \<Rightarrow> JUndef) = version_field k v"
  "sanitizeChecksum JUndef = None" "sanitizeEffectiveCapabilities JUndef = None"
  by (simp_all add: version_field_def sanitizeChecksum_def sanitizeEffectiveCapabilities_def as_record_def split: option.split)

text \<open>Sanitizing a built snapshot again changes nothing, provided its count is one.\<close>

lemma snapshot_again:
  assumes "safe_counter count"
  shows "sanitizeSnapshot (snapshot_object count bridge errors adaptor piv os arch checksum caps) =
    snapshot_object count bridge errors adaptor piv os arch checksum caps"
proof -
  define s where "s = snapshot_object count bridge errors adaptor piv os arch checksum caps"
  have g: "get_prop s ''activation'' = JObj [(''providerCount'', count), (''supportedApis'', JArr (map JStr CODEX_PI_APIS))]"
    "get_prop s ''bridge'' = JObj (safe_bridge bridge)" "get_prop s ''recentErrors'' = JArr (sanitizeRecentErrors errors)"
    "version_field ''adaptor'' (chain (get_prop s ''adaptor'') ''version'') = version_field ''adaptor'' adaptor"
    "version_field ''pi'' (chain (get_prop s ''pi'') ''version'') = version_field ''pi'' piv"
    "runtime_field (chain (get_prop s ''runtime'') ''os'') (chain (get_prop s ''runtime'') ''arch'') = runtime_field os arch"
    "sanitizeChecksum (get_prop s ''binaryChecksum'') = sanitizeChecksum checksum"
    "sanitizeEffectiveCapabilities (get_prop s ''effectiveCapabilities'') = sanitizeEffectiveCapabilities caps"
    by (auto simp: s_def snapshot_object_def chain_def version_field_def runtime_field_def fields_again
        dest: checksum_Some capabilities_again split: option.splits)
  have "sanitizeSnapshot s = s" unfolding sanitizeSnapshot_def Let_def
    by (simp add: g bridge_again errors_again assms chain_def [of "JObj _"] snapshot_object_def) (simp add: s_def snapshot_object_def)
  then show ?thesis by (simp add: s_def)
qed

section \<open>What a snapshot may contain\<close>

fun strings_of :: "js \<Rightarrow> string list" where
  "strings_of (JStr s) = [s]"
| "strings_of (JArr vs) = concat (map strings_of vs)"
| "strings_of (JObj kvs) = concat (map (\<lambda>kv. strings_of (snd kv)) kvs)"
| "strings_of _ = []"

text \<open>A bounded text on one line that is not an absolute Unix path.\<close>

definition clean_text :: "string \<Rightarrow> bool" where
  "clean_text t \<longleftrightarrow> t \<noteq> '''' \<and> length t \<le> 512 \<and> \<not> has_control t \<and> \<not> starts_with t ''/''"

definition SNAPSHOT_FIELDS :: "string list" where
  "SNAPSHOT_FIELDS = [''schemaVersion'', ''configSchemaVersion'', ''activation'', ''bridge'', ''recentErrors'', ''adaptor'', ''pi'',
     ''runtime'', ''binaryChecksum'', ''effectiveCapabilities'']"

text \<open>The members of the bridge are allowlisted by name; the texts of every other member are clean.\<close>

definition clean_member :: "string \<times> js \<Rightarrow> bool" where
  "clean_member kv = (fst kv \<in> set SNAPSHOT_FIELDS \<and>
     (if fst kv = ''bridge'' then (case snd kv of JObj ob \<Rightarrow> set (keys_of ob) \<subseteq> set BRIDGE_FIELDS | _ \<Rightarrow> False)
      else list_all clean_text (strings_of (snd kv))))"

lemma clean_identity: "identity_text t \<Longrightarrow> clean_text t"
  by (auto simp: clean_text_def identity_text_def MAX_SAFE_STRING_def)

lemma clean_message: "message_text t \<Longrightarrow> clean_text t"
  by (auto simp: clean_text_def message_text_def)

lemma clean_hex: "hex_string 64 t \<Longrightarrow> clean_text t"
proof -
  assume t: "hex_string 64 t"
  have "\<not> is_hex_digit (CHR 0x00)" "\<not> is_hex_digit (CHR 0x0A)" "\<not> is_hex_digit (CHR 0x0D)" "\<not> is_hex_digit (CHR ''/'')"
    by code_simp+
  with t show ?thesis by (cases t) (auto simp: clean_text_def hex_string_def has_control_def list_all_iff)
qed

lemma clean_error: "sanitizeError v = Some e \<Longrightarrow> list_all clean_text (strings_of e)"
proof (erule error_cases)
  fix category code message request retry
  assume e: "e = JObj ([(''category'', JStr category), (''code'', JStr code), (''message'', JStr message)] @
      opt_field ''requestId'' (map_option JStr request) @ opt_field ''retryable'' (map_option JBool retry))"
    and c: "category \<in> set SAFE_ERROR_CATEGORIES" "sanitizeIdentityString (JStr code) = Some code"
      "sanitizeErrorMessage (JStr message) = Some message"
    and r: "\<And>r. request = Some r \<Longrightarrow> sanitizeIdentityString (JStr r) = Some r"
  have "clean_text category" "clean_text code" "clean_text message"
    using c identity_Some message_Some clean_identity clean_message category_safe by blast+
  moreover have "clean_text r" if "request = Some r" for r using r [OF that] identity_Some clean_identity by blast
  ultimately show ?thesis unfolding e by (cases request; cases retry) (simp_all add: opt_field_def)
qed

lemma clean_capability: "capability_value v = Some w \<Longrightarrow> list_all clean_text (strings_of w)"
proof -
  have i: "list_all clean_text (strings_of (JStr (the (sanitizeIdentityString x))))" if "sanitizeIdentityString x \<noteq> None" for x
    using that identity_Some [of x] clean_identity by auto
  assume v: "capability_value v = Some w"
  show ?thesis
  proof (cases "case v of JBool _ \<Rightarrow> True | JNull \<Rightarrow> True | _ \<Rightarrow> safe_counter v")
    case True
    with v have "w = v" by (simp add: capability_value_def)
    with True show ?thesis by (cases v) (simp_all add: safe_counter_def)
  next
    case no: False
    show ?thesis
    proof (cases "sanitizeIdentityString v")
      case (Some t)
      with v no i [of v] show ?thesis by (simp add: capability_value_def)
    next
      case None
      with v no obtain items where "list_all (\<lambda>v. v \<noteq> None) (map sanitizeIdentityString items)"
        and "w = JArr (map (\<lambda>v. JStr (the v)) (map sanitizeIdentityString items))"
        by (auto simp: capability_value_def Let_def split: js.splits if_split_asm)
      with i show ?thesis by (auto simp: list_all_iff)
    qed
  qed
qed

lemma clean_capabilities: "sanitizeEffectiveCapabilities v = Some w \<Longrightarrow> list_all clean_text (strings_of w)"
  by (auto simp: sanitizeEffectiveCapabilities_def Let_def list_all_iff capability_entry_def
      dest!: map_filter_set clean_capability split: option.splits if_split_asm)

lemma clean_errors: "list_all clean_text (strings_of (JArr (sanitizeRecentErrors v)))"
  by (cases v) (auto simp: sanitizeRecentErrors_def list_all_iff dest!: in_set_takeD map_filter_set clean_error)

lemma clean_snapshot: "list_all clean_member (snapshot_object count bridge errors adaptor piv os arch checksum caps)"
  if count: "strings_of count = []"
proof -
  have b: "clean_member (''bridge'', JObj (safe_bridge bridge))"
    by (auto simp: clean_member_def safe_bridge_def SNAPSHOT_FIELDS_def keys_of_def)
  have v: "list_all clean_member (version_field k x)" if "k \<in> {''adaptor'', ''pi''}" for k x
    using that by (auto simp: version_field_def opt_field_def clean_member_def SNAPSHOT_FIELDS_def
        dest!: identity_Some clean_identity split: option.split)
  have a: "list_all clean_text CODEX_PI_APIS"
    by (simp add: CODEX_PI_APIS_def clean_text_def has_control_def)
  have t: "clean_text t" if "sanitizeIdentityString x = Some t" for x t
    using identity_Some [OF that] clean_identity by blast
  have rt: "list_all clean_member (runtime_field os arch)"
    by (auto simp: runtime_field_def clean_member_def SNAPSHOT_FIELDS_def t split: option.split)
  have ck: "list_all clean_member (opt_field ''binaryChecksum'' (map_option JStr (sanitizeChecksum checksum)))"
    using checksum_Some clean_hex by (auto simp: opt_field_def clean_member_def SNAPSHOT_FIELDS_def split: option.split)
  have cp: "list_all clean_member (opt_field ''effectiveCapabilities'' (sanitizeEffectiveCapabilities caps))"
    using clean_capabilities by (auto simp: opt_field_def clean_member_def SNAPSHOT_FIELDS_def split: option.split)
  have hd: "clean_member (''schemaVersion'', jint 2)" "clean_member (''configSchemaVersion'', jint 3)"
    "clean_member (''activation'', JObj [(''providerCount'', count), (''supportedApis'', JArr (map JStr CODEX_PI_APIS))])"
    "clean_member (''recentErrors'', JArr (sanitizeRecentErrors errors))"
    using a count clean_errors [of errors] by (simp_all add: clean_member_def SNAPSHOT_FIELDS_def list_all_iff)
  show ?thesis unfolding snapshot_object_def
    using b v [of "''adaptor''" adaptor] v [of "''pi''" piv] rt ck cp hd by simp
qed

lemma sanitized_snapshot:
  obtains count bridge errors adaptor piv os arch checksum caps where
    "sanitizeSnapshot s = snapshot_object count bridge errors adaptor piv os arch checksum caps" "safe_counter count" "strings_of count = []"
proof -
  let ?c = "chain (get_prop s ''activation'') ''providerCount''"
  have c: "safe_counter (if safe_counter ?c then ?c else jint 0)" "strings_of (if safe_counter ?c then ?c else jint 0) = []"
    using isSafeInteger_of_int [of 0] by (auto simp: safe_counter_def MAX_SAFE_INTEGER_def split: js.splits)
  show thesis by (rule that [OF _ c]) (simp only: sanitizeSnapshot_def Let_def)
qed

lemma sanitize_idempotent: "sanitizeSnapshot (sanitizeSnapshot s) = sanitizeSnapshot s"
  by (rule sanitized_snapshot [of s]) (simp add: snapshot_again)


lemma created_snapshot_fixed:
  "safe_counter (jint (int (length (providers config)))) \<Longrightarrow>
     sanitizeSnapshot (createDiagnosticsSnapshot config native host) = createDiagnosticsSnapshot config native host"
  by (simp only: createDiagnosticsSnapshot_def Let_def snapshot_again)

section \<open>The export\<close>

record DiagnosticExport =
  de_path :: string
  de_sha256 :: string

datatype DiagnosticsExportError = ConfirmationRequired | ExportFailure

text \<open>
  An exporter fails with an error of this class, or with another one (\<open>None\<close>).
\<close>

type_synonym 's DiagnosticsExporter =
  "js_object \<Rightarrow> string \<Rightarrow> 's \<Rightarrow> (DiagnosticsExportError option, DiagnosticExport) result \<times> 's"

definition exportDiagnosticsConfirmed ::
  "'s DiagnosticsExporter \<Rightarrow> js_object \<Rightarrow> string \<Rightarrow> bool \<Rightarrow> 's \<Rightarrow> (DiagnosticsExportError, DiagnosticExport) result \<times> 's" where
  "exportDiagnosticsConfirmed exporter snapshot path confirmed st =
    (if \<not> confirmed then (Inl ConfirmationRequired, st)
     else (case exporter (sanitizeSnapshot snapshot) path st of
         (Inr result, st') \<Rightarrow> (Inr result, st')
       | (Inl (Some e), st') \<Rightarrow> (Inl e, st')
       | (Inl None, st') \<Rightarrow> (Inl ExportFailure, st')))"

definition diagnostics_text :: "js_object \<Rightarrow> content" where
  "diagnostics_text s = Some (json_tree (JObj s))"

text \<open>The write through a temporary file; \<open>storageFailure\<close> stands for \<open>DiagnosticsStorageError\<close>.\<close>

definition export_file :: "(content \<Rightarrow> string) \<Rightarrow> js_object \<Rightarrow> string \<Rightarrow> DiagnosticExport io" where
  "export_file sha256 snapshot path =
    (let contents = diagnostics_text (sanitizeSnapshot snapshot) in
     io_bind randomUUID (\<lambda>u. let temporary = path @ ''.tmp-'' @ u in
     io_bind mkdir (\<lambda>_.
     io_bind
       (io_catch
         (io_bind (open_wx temporary) (\<lambda>_.
          io_bind (io_finally (io_bind (handle_write temporary contents) (\<lambda>_. handle_sync)) handle_close)
            (\<lambda>_. rename temporary path)))
         (\<lambda>_. io_bind (io_catch (rm_force temporary) (\<lambda>_. io_return ())) (\<lambda>_. io_throw storageFailure)))
       (\<lambda>_. io_return \<lparr>de_path = path, de_sha256 = sha256 contents\<rparr>))))"

definition FileDiagnosticsExporter :: "(content \<Rightarrow> string) \<Rightarrow> world \<Rightarrow> disk DiagnosticsExporter" where
  "FileDiagnosticsExporter sha256 w snapshot path d =
    (case export_file sha256 snapshot path w d of (Inl _, d') \<Rightarrow> (Inl None, d') | (Inr r, d') \<Rightarrow> (Inr r, d'))"

lemma export_file_effect:
  fixes path w d
  defines "t \<equiv> path @ ''.tmp-'' @ uuid w (tick d)"
  shows "case export_file sha snapshot path w d of
     (Inr r, d') \<Rightarrow> files d' path = Some (diagnostics_text (sanitizeSnapshot snapshot)) \<and> de_path r = path \<and>
       de_sha256 r = sha (diagnostics_text (sanitizeSnapshot snapshot)) \<and> (\<forall>q. q \<noteq> path \<longrightarrow> q \<noteq> t \<longrightarrow> files d' q = files d q)
   | (Inl e, d') \<Rightarrow> (\<forall>q. q \<noteq> t \<longrightarrow> files d' q = files d q)"
  unfolding export_file_def randomUUID_def mkdir_def open_wx_def handle_write_def handle_sync_def handle_close_def
    rename_def rm_force_def io_defs t_def
  by (auto split: option.split simp: temporary_distinct(1) [symmetric])

text \<open>
  C36: diagnostics reach the disk only after a confirmation, and atomically, under every schedule of file-system
  faults: a success puts exactly the sanitized snapshot at the path, with its digest in the result; a failure
  leaves the path as it was; apart from the path, only the temporary file may differ.
\<close>

theorem diagnostics_export_atomic:
  "case exportDiagnosticsConfirmed (FileDiagnosticsExporter sha w) snapshot path confirmed d of
     (Inr r, d') \<Rightarrow> confirmed \<and> files d' path = Some (diagnostics_text (sanitizeSnapshot snapshot)) \<and> de_path r = path \<and>
       de_sha256 r = sha (diagnostics_text (sanitizeSnapshot snapshot)) \<and>
       {q. files d' q \<noteq> files d q} \<subseteq> {path, path @ ''.tmp-'' @ uuid w (tick d)}
   | (Inl e, d') \<Rightarrow> (if confirmed then e = ExportFailure else e = ConfirmationRequired \<and> d' = d) \<and> files d' path = files d path \<and>
       {q. files d' q \<noteq> files d q} \<subseteq> {path @ ''.tmp-'' @ uuid w (tick d)}"
proof (cases confirmed)
  case True
  let ?s = "sanitizeSnapshot snapshot" and ?t = "path @ ''.tmp-'' @ uuid w (tick d)"
  obtain r d' where e: "export_file sha ?s path w d = (r, d')" by fastforce
  have same: "sanitizeSnapshot ?s = ?s"
    using sanitize_idempotent .
  note f = export_file_effect [where sha = sha and snapshot = ?s and path = path and w = w and d = d, unfolded e same]
  show ?thesis
  proof (cases r)
    case (Inl x)
    with f have q: "\<And>q. q \<noteq> ?t \<Longrightarrow> files d' q = files d q" by simp
    have "files d' path = files d path" by (rule q) (simp add: temporary_distinct(1) [symmetric])
    with True Inl e q show ?thesis by (auto simp: exportDiagnosticsConfirmed_def FileDiagnosticsExporter_def)
  next
    case (Inr x)
    with True f e show ?thesis by (auto simp: exportDiagnosticsConfirmed_def FileDiagnosticsExporter_def)
  qed
qed (simp add: exportDiagnosticsConfirmed_def)

end
