(* ===== verification/Settings_Overlay.thy ===== *)
theory Settings_Overlay
  imports Settings_Model Diagnostics Capability_Resolution Compaction_Coordinator Async_Steps
begin

text \<open>
  The settings overlay, \<open>src/src/ui/terminal/settings-overlay.ts\<close>: it owns the settings screen, runs the effects of its
  keys as tasks and closes itself. Saving, prompting and exporting wait; while they wait, keys, other tasks
  and the disposal of the overlay run, so each wait is an argument that may change the whole state.

  The lemmas show that the overlay closes once, that a task that ends after the disposal changes nothing on the
  screen, that the screen only calls a configuration saved that the service has stored, and that a prompt gives
  the overlay back.
\<close>

section \<open>Reasons and capabilities\<close>

definition reason_ids :: "(string \<times> string) list" where
  "reason_ids = [(''tools.backgroundSessions'', ''backgroundSessions''), (''tools.optional.viewImage'', ''viewImage''),
     (''tools.optional.imageGeneration'', ''imageGeneration''), (''codex.transport.mode'', ''transport''),
     (''codex.webSearch.mode'', ''webSearch''), (''codex.compaction.mode'', ''compaction''),
     (''codex.compaction.autoCompactTokenLimit'', ''autoCompactTokenLimit'')]"

definition unsupported_reason :: "ConfigSettingEvaluation \<Rightarrow> string option" where
  "unsupported_reason e = (case eval_availability e of SettingUnsupported r \<Rightarrow> Some r | _ \<Rightarrow> None)"

text \<open>The record of reasons, the latest first: a later reason for an id hides an earlier one.\<close>

definition add_reason :: "ConfigSettingEvaluation \<Rightarrow> (string \<times> string) list \<Rightarrow> (string \<times> string) list" where
  "add_reason e reasons = (case (unsupported_reason e, map_of reason_ids (eval_path e)) of
     (Some r, Some i) \<Rightarrow> (i, r) # reasons | _ \<Rightarrow> reasons)"

definition disabledReasons :: "ConfigSettingEvaluation list \<Rightarrow> (string \<times> string) list" where
  "disabledReasons evaluations =
    (let reasons = fold add_reason evaluations [] in
     case find (\<lambda>e. eval_path e = ''codex.compaction.mode'') evaluations of
       None \<Rightarrow> reasons
     | Some e \<Rightarrow> (case unsupported_reason e of None \<Rightarrow> reasons | Some r \<Rightarrow> (''compactNow'', r) # reasons))"

fun availability_status :: "Availability \<Rightarrow> string" where
  "availability_status (Available _) = ''available''"
| "availability_status (Disabled _) = ''disabled''"
| "availability_status (Unavailable _) = ''unavailable''"

fun shell_surface_name :: "ShellSurface \<Rightarrow> string" where
  "shell_surface_name UnifiedExec = ''unified-exec''"
| "shell_surface_name ShellCommand = ''shell-command''"
| "shell_surface_name ShellDisabled = ''disabled''"

fun session_surface_name :: "SessionSurface \<Rightarrow> string" where
  "session_surface_name SessionOfficial = ''official''"
| "session_surface_name SessionSupplemental = ''supplemental''"
| "session_surface_name SessionDisabled = ''disabled''"
| "session_surface_name SessionUnavailable = ''unavailable''"

fun web_surface_name :: "WebSurface \<Rightarrow> string" where
  "web_surface_name WebStandalone = ''standalone''"
| "web_surface_name WebHosted = ''hosted''"
| "web_surface_name WebSurfaceDisabled = ''disabled''"
| "web_surface_name WebUnsupported = ''unsupported''"

definition diagnosticCapabilities :: "EffectiveCapabilitySnapshot \<Rightarrow> js_object" where
  "diagnosticCapabilities s =
     [(''modelId'', JStr (eff_modelId s)), (''shellPrimary'', JStr (shell_surface_name (eff_shell_primary s))),
      (''sessionSurface'', JStr (session_surface_name (eff_shell_sessionSurface s))),
      (''sessions'', JStr (availability_status (eff_shell_sessions s))),
      (''applyPatch'', JStr (availability_status (eff_applyPatch s))),
      (''viewImage'', JStr (availability_status (eff_viewImage s))),
      (''imageGeneration'', JStr (availability_status (eff_imageGeneration s))),
      (''webSearch'', JStr (availability_status (eff_webSearch s))), (''webSurface'', JStr (web_surface_name (eff_webSurface s))),
      (''manualCompaction'', JStr (availability_status (eff_compaction_manual s))),
      (''automaticCompaction'', JStr (availability_status (eff_compaction_automatic s))),
      (''autoCompactThreshold'', case eff_compaction_threshold s of None \<Rightarrow> JNull | Some n \<Rightarrow> JNum n),
      (''transport'', JStr (availability_status (eff_transport s))),
      (''localTools'', JArr (map JStr (eff_localTools s))), (''hostedTools'', JArr (map JStr (eff_hostedTools s)))]"

section \<open>Opening\<close>

text \<open>A configuration error, or another error.\<close>

datatype overlay_error = ConfigurationFailure | OtherFailure

record SelectedModel =
  sel_id :: string
  sel_provider :: string
  sel_api :: string
  sel_input :: "string list"
  sel_contextWindow :: "jsnum option"

definition resolve_input :: "SelectedModel \<Rightarrow> CodexConfig \<Rightarrow> ResolveEffectiveCapabilitiesInput" where
  "resolve_input selected config = \<lparr>in_modelId = sel_id selected, in_providerId = sel_provider selected,
     in_modelInputModalities = sel_input selected, in_config = config, in_contextWindow = sel_contextWindow selected,
     in_hostToolNames = None\<rparr>"

text \<open>
  What the calls that opening waits for return: the load of the configuration, the diagnostics of the runtime
  (absent, or failed: the left result) and the resolution of the capabilities (absent without a resolver).
\<close>

record open_results =
  or_load :: "(overlay_error, CodexConfig) result"
  or_diagnostics :: "(unit, js) result option"
  or_resolve :: "(ResolveEffectiveCapabilitiesInput \<Rightarrow> EffectiveCapabilitySnapshot resolved) option"

definition native_diagnostics :: "(unit, js) result option \<Rightarrow> js" where
  "native_diagnostics r = (case r of Some (Inr v) \<Rightarrow> v | _ \<Rightarrow> JUndef)"

definition open_effective :: "open_results \<Rightarrow> SelectedModel option \<Rightarrow> CodexConfig \<Rightarrow> EffectiveCapabilitySnapshot resolved option" where
  "open_effective rs selected config = (case (or_resolve rs, selected) of
     (Some resolve, Some m) \<Rightarrow> Some (resolve (resolve_input m config)) | _ \<Rightarrow> None)"

definition no_host_context :: DiagnosticsHostContext where
  "no_host_context = \<lparr>dh_adaptorVersion = None, dh_piVersion = None, dh_os = None, dh_arch = None, dh_binaryChecksum = None,
     dh_recentErrors = None, dh_effectiveCapabilities = None\<rparr>"

definition open_snapshot :: "CodexConfig \<Rightarrow> js \<Rightarrow> EffectiveCapabilitySnapshot option \<Rightarrow> js_object" where
  "open_snapshot config native effective = createDiagnosticsSnapshot config native
     (no_host_context\<lparr>dh_effectiveCapabilities := map_option diagnosticCapabilities effective\<rparr>)"

definition snapshot_capabilities :: "js_object \<Rightarrow> string list option" where
  "snapshot_capabilities snapshot = (case chain (get_prop snapshot ''bridge'') ''capabilities'' of
     JArr vs \<Rightarrow> Some (List.map_filter as_string vs) | _ \<Rightarrow> None)"

definition settings_options ::
  "(jsnum \<Rightarrow> string) \<Rightarrow> SelectedModel option \<Rightarrow> CodexConfig \<Rightarrow> js_object \<Rightarrow> EffectiveCapabilitySnapshot option \<Rightarrow> SettingsModelOptions" where
  "settings_options numberText selected config snapshot effective =
     \<lparr>mo_baseline = ''0.146.0'',
      mo_provider = (case selected of None \<Rightarrow> ''unresolved'' | Some m \<Rightarrow> sel_provider m),
      mo_model = (case selected of None \<Rightarrow> ''unresolved'' | Some m \<Rightarrow> sel_id m),
      mo_bridge = (case chain (get_prop snapshot ''bridge'') ''bridgeProtocolVersion'' of
         JNum n \<Rightarrow> ''protocol v'' @ numberText n | _ \<Rightarrow> ''unavailable''),
      mo_activationModel = map_option (\<lambda>m. \<lparr>am_provider = sel_provider m, am_api = sel_api m\<rparr>) selected,
      mo_activationStatus = None,
      mo_capabilities = snapshot_capabilities snapshot,
      mo_disabledReasons = (case effective of None \<Rightarrow> []
        | Some e \<Rightarrow> disabledReasons (evaluateConfigSettings config
            (capabilityContextFromSnapshot e (case selected of None \<Rightarrow> None | Some m \<Rightarrow> sel_contextWindow m)))),
      mo_modelAutoCompactTokenLimit = (case effective of None \<Rightarrow> None | Some e \<Rightarrow> eff_compaction_modelThreshold e),
      mo_numberText = numberText\<rparr>"

text \<open>The notices shown while opening, and the screen with its snapshot when there is one.\<close>

definition openSettingsOverlay ::
  "(jsnum \<Rightarrow> string) \<Rightarrow> bool \<Rightarrow> SelectedModel option \<Rightarrow> open_results \<Rightarrow> (string \<times> string) list \<times> (SettingsModel \<times> js_object) option" where
  "openSettingsOverlay numberText interactive selected rs =
    (if \<not> interactive then ([(''Codex settings require an interactive terminal'', ''warning'')], None)
     else (case or_load rs of
         Inl ConfigurationFailure \<Rightarrow> ([(''Codex configuration is invalid'', ''error'')], None)
       | Inl OtherFailure \<Rightarrow> ([(''Codex configuration could not be loaded'', ''error'')], None)
       | Inr config \<Rightarrow>
          (let (notices, effective) = (case open_effective rs selected config of
                 None \<Rightarrow> ([], None)
               | Some (Inr e) \<Rightarrow> ([], Some e)
               | Some (Inl _) \<Rightarrow> ([(''Codex effective capabilities could not be resolved'', ''warning'')], None));
               snapshot = open_snapshot config (native_diagnostics (or_diagnostics rs)) effective
           in (notices, Some (new_settings config (settings_options numberText selected config snapshot effective), snapshot)))))"

section \<open>The overlay\<close>

text \<open>
  The controllers of the running tasks and those that were aborted are numbered in order of creation;
  \<open>ov_hidden\<close> and \<open>ov_focuses\<close> are the state of the host's handle, \<open>ov_done\<close> counts the calls of
  \<open>done\<close>, and \<open>ov_notices\<close> are the messages shown. The host holds the rest, the stored configuration among it.
\<close>

record 'h overlay =
  ov_model :: SettingsModel
  ov_disposed :: bool
  ov_taskGeneration :: int
  ov_created :: nat
  ov_controllers :: "nat list"
  ov_aborted :: "nat list"
  ov_handle :: bool
  ov_hidden :: bool
  ov_focuses :: nat
  ov_done :: nat
  ov_notices :: "(string \<times> string) list"
  ov_coordinator :: "CodexCompactionCoordinator option"
  ov_host :: 'h

type_synonym ('h, 'a) overlay_step = "('h overlay, overlay_error, 'a) step"

record 'h overlay_env =
  oe_parse :: "string \<Rightarrow> string option"
  oe_model :: "SelectedModel option"
  oe_resolve :: "(ResolveEffectiveCapabilitiesInput \<Rightarrow> ('h, EffectiveCapabilitySnapshot) overlay_step) option"
  oe_applyDraft :: "CodexConfig \<Rightarrow> ConfigCapabilityContext \<Rightarrow> ('h, unit) overlay_step"
  oe_resetToDefaults :: "('h, CodexConfig) overlay_step"
  oe_confirm :: "string \<Rightarrow> nat \<Rightarrow> ('h, bool) overlay_step"
  oe_input :: "string \<Rightarrow> string \<Rightarrow> nat \<Rightarrow> ('h, string option) overlay_step"
  oe_export :: "(string \<Rightarrow> ('h, DiagnosticExport) overlay_step) option"
  oe_compact :: "string \<Rightarrow> 'h \<Rightarrow> 'h"
  oe_sessionId :: string
  oe_exportPath :: string
  oe_number :: "string \<Rightarrow> jsnum"

definition new_settings_overlay :: "SettingsModel \<Rightarrow> CodexCompactionCoordinator option \<Rightarrow> 'h \<Rightarrow> 'h overlay" where
  "new_settings_overlay m c h = \<lparr>ov_model = m, ov_disposed = False, ov_taskGeneration = 0, ov_created = 0, ov_controllers = [],
     ov_aborted = [], ov_handle = False, ov_hidden = False, ov_focuses = 0, ov_done = 0, ov_notices = [], ov_coordinator = c,
     ov_host = h\<rparr>"

definition overlay_notify :: "string \<Rightarrow> string \<Rightarrow> 'h overlay \<Rightarrow> 'h overlay" where
  "overlay_notify message level w = w\<lparr>ov_notices := ov_notices w @ [(message, level)]\<rparr>"

definition on_model :: "(SettingsModel \<Rightarrow> SettingsModel) \<Rightarrow> 'h overlay \<Rightarrow> 'h overlay" where
  "on_model f w = w\<lparr>ov_model := f (ov_model w)\<rparr>"

definition overlay_render :: "int \<Rightarrow> 'h overlay \<Rightarrow> string list \<times> 'h overlay" where
  "overlay_render width w = (let (ls, m) = settings_lines width (ov_model w) in (ls, w\<lparr>ov_model := m\<rparr>))"

definition attachOverlayHandle :: "'h overlay \<Rightarrow> 'h overlay" where
  "attachOverlayHandle w = (if ov_disposed w then w else w\<lparr>ov_handle := True\<rparr>)"

definition settings_overlay_dispose :: "'h overlay \<Rightarrow> 'h overlay" where
  "settings_overlay_dispose w =
    (if ov_disposed w then w
     else on_model settings_dispose (w\<lparr>ov_disposed := True, ov_taskGeneration := ov_taskGeneration w + 1,
       ov_aborted := ov_aborted w @ ov_controllers w, ov_controllers := []\<rparr>))"

definition closeNow :: "'h overlay \<Rightarrow> 'h overlay" where
  "closeNow w = (if ov_disposed w then w else (let w1 = settings_overlay_dispose w in w1\<lparr>ov_done := ov_done w1 + 1\<rparr>))"

definition runTask :: "(nat \<Rightarrow> ('h, unit) overlay_step) \<Rightarrow> ('h, unit) overlay_step" where
  "runTask task w =
    (if ov_disposed w then (Inr (), w)
     else (let c = ov_created w in
       st_finally (task c) (\<lambda>w'. w'\<lparr>ov_controllers := removeAll c (ov_controllers w')\<rparr>)
         (w\<lparr>ov_created := c + 1, ov_controllers := ov_controllers w @ [c]\<rparr>)))"

definition withOverlayHidden :: "('h, 'a) overlay_step \<Rightarrow> ('h, 'a) overlay_step" where
  "withOverlayHidden prompt w =
    (if \<not> ov_handle w then prompt w
     else st_finally prompt (\<lambda>w'. if ov_disposed w' then w' else w'\<lparr>ov_hidden := False, ov_focuses := ov_focuses w' + 1\<rparr>)
       (w\<lparr>ov_hidden := True\<rparr>))"

text \<open>After a prompt: the task goes on unless the overlay is disposed, its signal aborted or the answer missing.\<close>

definition stopped :: "nat \<Rightarrow> 'h overlay \<Rightarrow> bool" where
  "stopped signal w \<longleftrightarrow> ov_disposed w \<or> signal \<in> set (ov_aborted w)"

section \<open>Tasks\<close>

definition save_context :: "'h overlay_env \<Rightarrow> CodexConfig \<Rightarrow> ('h, ConfigCapabilityContext) overlay_step" where
  "save_context env config = (case (oe_resolve env, oe_model env) of
     (Some resolve, Some selected) \<Rightarrow>
       st_bind (resolve (resolve_input selected config)) (\<lambda>effective.
       st_return (capabilityContextFromSnapshot effective (sel_contextWindow selected)))
   | _ \<Rightarrow> st_return emptyContext)"

definition begin_save :: "('h, CodexConfig) overlay_step" where
  "begin_save w = (let (r, m) = beginSave (ov_model w) in
     (case r of Inl None \<Rightarrow> Inl OtherFailure | Inl (Some _) \<Rightarrow> Inl ConfigurationFailure | Inr c \<Rightarrow> Inr c, w\<lparr>ov_model := m\<rparr>))"

definition saved_report :: "bool \<Rightarrow> CodexConfig \<Rightarrow> 'h overlay \<Rightarrow> 'h overlay" where
  "saved_report closeOnSuccess config w =
    (if ov_disposed w then w
     else (let w1 = overlay_notify ''Codex settings saved'' ''info'' (on_model (markSaved config) w)
       in if closeOnSuccess then closeNow w1 else w1))"

definition save_error :: "overlay_error \<Rightarrow> 'h overlay \<Rightarrow> 'h overlay" where
  "save_error e w = (if ov_disposed w then w else on_model
     (case e of ConfigurationFailure \<Rightarrow> markError ''Fix the highlighted configuration fields before saving'' StateValidationError
      | OtherFailure \<Rightarrow> markError ''Codex settings could not be saved'' StateWriteError) w)"

definition save_task :: "'h overlay_env \<Rightarrow> bool \<Rightarrow> nat \<Rightarrow> ('h, unit) overlay_step" where
  "save_task env closeOnSuccess signal = st_catch
     (st_bind begin_save (\<lambda>config.
      st_bind (save_context env config) (\<lambda>ctx.
      st_bind (oe_applyDraft env config ctx) (\<lambda>_.
      st_modify (saved_report closeOnSuccess config)))))
     (\<lambda>e. st_modify (save_error e))"

definition reset_task :: "'h overlay_env \<Rightarrow> nat \<Rightarrow> ('h, unit) overlay_step" where
  "reset_task env signal = st_catch
     (st_bind (oe_resetToDefaults env) (\<lambda>config.
      st_modify (\<lambda>w. if ov_disposed w then w
        else overlay_notify ''Codex settings restored to defaults'' ''info'' (on_model (replaceWithSaved config) w))))
     (\<lambda>_. st_modify (\<lambda>w. if ov_disposed w then w else on_model (markError ''Codex settings could not be reset'' StateWriteError) w))"

definition request_compaction :: "'h overlay_env \<Rightarrow> 'h overlay \<Rightarrow> 'h overlay" where
  "request_compaction env w =
    (let sid = oe_sessionId env;
         (granted, w1) = (case ov_coordinator w of
             None \<Rightarrow> (True, w)
           | Some c \<Rightarrow> (let (ok, c') = requestExecution sid c in (ok, w\<lparr>ov_coordinator := Some c'\<rparr>)))
     in if \<not> granted then overlay_notify ''OpenAI Codex compaction is already in progress'' ''warning'' w1
        else overlay_notify ''OpenAI Codex compaction requested'' ''info'' (w1\<lparr>ov_host := oe_compact env sid (ov_host w1)\<rparr>))"

definition compact_refusal :: "SettingsModel \<Rightarrow> string option" where
  "compact_refusal m =
    (case find (\<lambda>r. row_id r = ''compactNow'') (settings_rows m) of
       Some r \<Rightarrow> if row_enabled r then None
         else Some (case row_disabledReason r of Some t \<Rightarrow> t | None \<Rightarrow> ''Codex compaction is unavailable'')
     | None \<Rightarrow> None)"

definition compact_task :: "'h overlay_env \<Rightarrow> nat \<Rightarrow> ('h, unit) overlay_step" where
  "compact_task env signal w =
    (let m = ov_model w in
     case compact_refusal m of
       Some reason \<Rightarrow> (Inr (), overlay_notify reason ''warning'' w)
     | None \<Rightarrow>
         if sx_state m = StateDirty
         then (Inr (), overlay_notify ''Save or discard Codex settings before compaction'' ''warning'' w)
         else if compaction (codex (sx_draft m)) = CompactionOff
         then (Inr (), overlay_notify ''OpenAI Codex compaction is disabled'' ''warning'' w)
         else st_bind (withOverlayHidden (oe_confirm env ''Compact Codex context'' signal)) (\<lambda>confirmed.
           st_modify (\<lambda>w'. if stopped signal w' \<or> \<not> confirmed then w' else request_compaction env w')) w)"

definition compaction_ended :: "string \<Rightarrow> 'h overlay \<Rightarrow> 'h overlay" where
  "compaction_ended sid w = w\<lparr>ov_coordinator := map_option (end_compaction sid) (ov_coordinator w)\<rparr>"

definition enter_limit :: "'h overlay_env \<Rightarrow> string \<Rightarrow> SettingsModel \<Rightarrow> SettingsModel" where
  "enter_limit env v m =
    (let trimmed = trim v; numeric = oe_number env trimmed in
     if trimmed = ''model'' then setAutoCompactTokenLimit ModelLimit m
     else if \<not> isSafeInteger numeric \<or> num_le numeric (Fin 0)
     then markError ''Auto compact token limit must be model or a positive integer'' StateValidationError m
     else setAutoCompactTokenLimit (NumberLimit numeric) m)"

definition limit_task :: "'h overlay_env \<Rightarrow> nat \<Rightarrow> ('h, unit) overlay_step" where
  "limit_task env signal w =
    (let current = (case compaction (codex (sx_draft (ov_model w))) of
         CompactionAuto (NumberLimit n) \<Rightarrow> mo_numberText (sx_options (ov_model w)) n | _ \<Rightarrow> ''model'')
     in st_bind (withOverlayHidden (oe_input env ''Auto compact token limit'' current signal)) (\<lambda>v.
        st_modify (\<lambda>w'. case v of None \<Rightarrow> w' | Some t \<Rightarrow> if stopped signal w' then w' else on_model (enter_limit env t) w')) w)"

definition enter_providers :: "string \<Rightarrow> SettingsModel \<Rightarrow> SettingsModel" where
  "enter_providers v m =
    (let ps = map trim (split_on (CHR '','') v) in
     if ps = [] \<or> list_ex (\<lambda>p. p = '''') ps \<or> \<not> distinct ps
     then markError ''Active providers must be unique, non-empty Pi provider ids'' StateValidationError m
     else setActivationProviders ps m)"

definition providers_task :: "'h overlay_env \<Rightarrow> nat \<Rightarrow> ('h, unit) overlay_step" where
  "providers_task env signal w =
     st_bind (withOverlayHidden (oe_input env ''Active Pi provider ids'' (comma_joined (providers (sx_draft (ov_model w)))) signal)) (\<lambda>v.
       st_modify (\<lambda>w'. case v of None \<Rightarrow> w' | Some t \<Rightarrow> if stopped signal w' then w' else on_model (enter_providers t) w')) w"

definition exported_text :: "DiagnosticExport \<Rightarrow> string" where
  "exported_text r = ''Diagnostics exported: '' @ de_path r @ '' ('' @ de_sha256 r @ '')''"

definition export_task :: "'h overlay_env \<Rightarrow> nat \<Rightarrow> ('h, unit) overlay_step" where
  "export_task env signal = (case oe_export env of
     None \<Rightarrow> st_modify (overlay_notify ''Diagnostics export is unavailable'' ''warning'')
   | Some export \<Rightarrow>
      st_bind (withOverlayHidden (oe_confirm env ''Export Codex diagnostics'' signal)) (\<lambda>confirmed.
      st_bind (st_read (stopped signal)) (\<lambda>stop. if stop \<or> \<not> confirmed then st_return () else
      st_bind (withOverlayHidden (oe_input env ''Diagnostics export path'' (oe_exportPath env) signal)) (\<lambda>path.
      st_bind (st_read (stopped signal)) (\<lambda>stop. case path of
          None \<Rightarrow> st_return ()
        | Some p \<Rightarrow> if stop \<or> trim p = '''' then st_return ()
          else st_catch
            (st_bind (export (trim p)) (\<lambda>r.
             st_modify (\<lambda>w. if stopped signal w then w else overlay_notify (exported_text r) ''info'' w)))
            (\<lambda>_. st_modify (\<lambda>w. if stopped signal w then w
               else overlay_notify ''Codex diagnostics could not be exported'' ''error'' w)))))))"

definition applyEffect :: "'h overlay_env \<Rightarrow> SettingsEffect \<Rightarrow> ('h, unit) overlay_step" where
  "applyEffect env effect = (case effect of
     EffectNone \<Rightarrow> st_return ()
   | EffectClose \<Rightarrow> st_modify closeNow
   | EffectSave \<Rightarrow> runTask (save_task env False)
   | EffectSaveAndClose \<Rightarrow> runTask (save_task env True)
   | EffectCompact \<Rightarrow> runTask (compact_task env)
   | EffectExport \<Rightarrow> runTask (export_task env)
   | EffectEditAutoCompact \<Rightarrow> runTask (limit_task env)
   | EffectEditProviders \<Rightarrow> runTask (providers_task env)
   | EffectResetDefaults \<Rightarrow> runTask (reset_task env)
   | EffectSecurity message \<Rightarrow> st_modify (overlay_notify message ''warning''))"

definition settings_handleInput :: "'h overlay_env \<Rightarrow> string \<Rightarrow> ('h, unit) overlay_step" where
  "settings_handleInput env data w =
    (if ov_disposed w then (Inr (), w)
     else (let (effect, m) = handleKey (oe_parse env) data (ov_model w) in
       st_catch (applyEffect env effect)
         (\<lambda>_. st_modify (\<lambda>w'. if ov_disposed w' then w'
            else on_model (markError ''Codex settings action could not be completed'' StateWriteError) w'))
         (w\<lparr>ov_model := m\<rparr>)))"

section \<open>Rows and prompts\<close>

lemma add_reasons:
  "map_of (fold add_reason es r) i \<noteq> None \<longleftrightarrow> map_of r i \<noteq> None \<or>
     (\<exists>e \<in> set es. unsupported_reason e \<noteq> None \<and> map_of reason_ids (eval_path e) = Some i)"
  by (induction es arbitrary: r) (auto simp: add_reason_def split: option.split)

text \<open>The row of a setting is disabled exactly when the evaluation calls the setting unsupported.\<close>

lemma disabled_iff_unsupported:
  assumes "(path, i) \<in> set reason_ids"
  shows "map_of (disabledReasons es) i \<noteq> None \<longleftrightarrow> unsupported_at es path"
proof -
  have d: "distinct (map fst reason_ids)" "distinct (map snd reason_ids)" "''compactNow'' \<notin> set (map snd reason_ids)"
    by code_simp+
  have i: "i \<noteq> ''compactNow''" using d(3) assms by force
  have "map_of reason_ids q = Some i \<longleftrightarrow> q = path" for q
  proof -
    have "inj_on snd (set reason_ids)" using d(2) by (simp add: distinct_map)
    then have "(q, i) \<in> set reason_ids \<Longrightarrow> q = path" using assms inj_onD [of snd "set reason_ids" "(q, i)" "(path, i)"] by simp
    with assms show ?thesis by (auto simp: map_of_eq_Some_iff [OF d(1)])
  qed
  note i = i this
  have "map_of (disabledReasons es) i = map_of (fold add_reason es []) i"
    using i(1) by (simp add: disabledReasons_def Let_def split: option.split)
  moreover have "unsupported_reason e \<noteq> None \<longleftrightarrow> (\<exists>r. eval_availability e = SettingUnsupported r)" for e
    by (simp add: unsupported_reason_def split: SettingAvailability.split)
  ultimately show ?thesis by (auto simp only: add_reasons i(2) unsupported_at_def map_of.simps)
qed

text \<open>A prompt over an attached overlay gives it back, unless it was disposed meanwhile.\<close>

lemma prompt_restores:
  "ov_handle w \<Longrightarrow> ov_disposed (snd (withOverlayHidden m w)) \<or> \<not> ov_hidden (snd (withOverlayHidden m w))"
  by (simp add: withOverlayHidden_def st_finally_def case_prod_beta)

section \<open>Invariants of the overlay\<close>

text \<open>What no key changes: the saved configuration, and that the screen is not disposed.\<close>

definition screen_frame :: "SettingsModel \<Rightarrow> CodexConfig \<times> bool" where
  "screen_frame m = (sx_saved m, sx_disposed m)"

lemma screen_frame_updates [simp]:
  "screen_frame (m\<lparr>sx_draft := c\<rparr>) = screen_frame m" "screen_frame (m\<lparr>sx_dialog := dlg\<rparr>) = screen_frame m"
  "screen_frame (m\<lparr>sx_focus := f\<rparr>) = screen_frame m" "screen_frame (m\<lparr>sx_region := rg\<rparr>) = screen_frame m"
  "screen_frame (m\<lparr>sx_narrowScreen := ns\<rparr>) = screen_frame m" "screen_frame (m\<lparr>sx_scroll := sc\<rparr>) = screen_frame m"
  "screen_frame (m\<lparr>sx_categoryIndex := ci\<rparr>) = screen_frame m" "screen_frame (m\<lparr>sx_state := st\<rparr>) = screen_frame m"
  "screen_frame (m\<lparr>sx_message := t\<rparr>) = screen_frame m"
  by (simp_all add: screen_frame_def)

lemma saved_kept [simp]:
  "screen_frame (moveCategory d m) = screen_frame m" "screen_frame (settings_moveFocus d m) = screen_frame m"
  "screen_frame (openDialog dlg m) = screen_frame m" "screen_frame (markDirty (edit_draft f m)) = screen_frame m"
  "screen_frame (markError t s m) = screen_frame m" "screen_frame (discard m) = screen_frame m"
  "screen_frame (setAutoCompactTokenLimit v m) = screen_frame m" "screen_frame (setActivationProviders ps m) = screen_frame m"
  by (simp_all add: moveCategory_def settings_moveFocus_def ensureFocusVisible_def openDialog_def markDirty_def edit_draft_def
      markError_def discard_def setAutoCompactTokenLimit_def setActivationProviders_def Let_def)

lemma saved_toggle [simp]: "screen_frame (toggleFocused m) = screen_frame m"
  unfolding toggleFocused_def by (cases "focusedRow m") simp_all

lemma saved_cycle [simp]: "screen_frame (snd (cycleFocused m)) = screen_frame m"
  unfolding cycleFocused_def by (cases "focusedRow m") (simp_all split: option.split)

lemma saved_activate [simp]: "screen_frame (snd (activateFocused m)) = screen_frame m"
  unfolding activateFocused_def by (cases "focusedRow m") (simp_all add: openResetDialog_def)

lemma saved_dialog_key [simp]: "screen_frame (snd (handleDialogKey key m)) = screen_frame m"
  by (cases "sx_dialog m")
     (simp_all add: handleDialogKey_def choose_option_def select_close_def select_reset_def select_policy_def Let_def)

lemma saved_key: "screen_frame (snd (handleKey p data m)) = screen_frame m"
  by (simp add: handleKey_def handle_parsed_def Let_def openResetDialog_def openHelp_def openDirtyCloseDialog_def)

lemma saved_entries: "screen_frame (enter_limit env v m) = screen_frame m" "screen_frame (enter_providers t m) = screen_frame m"
  by (simp_all add: enter_limit_def enter_providers_def Let_def)

text \<open>
  A property of the overlay that its own operations keep while it is not disposed: edits of the screen that leave the
  saved configuration, notices, hiding and showing, closing, and changes of the host within a given relation.
\<close>

locale overlay_invariant =
  fixes P :: "'h overlay \<Rightarrow> bool" and same :: "'h \<Rightarrow> 'h \<Rightarrow> bool"
  assumes frame: "P (w\<lparr>ov_created := n, ov_controllers := cs\<rparr>) = P w" "P (w\<lparr>ov_controllers := cs\<rparr>) = P w"
    and edit: "\<lbrakk>P w; \<not> ov_disposed w; screen_frame m = screen_frame (ov_model w)\<rbrakk> \<Longrightarrow> P (w\<lparr>ov_model := m\<rparr>)"
    and notice: "\<lbrakk>P w; \<not> ov_disposed w\<rbrakk> \<Longrightarrow> P (overlay_notify t l w)"
    and hide: "\<lbrakk>P w; \<not> ov_disposed w\<rbrakk> \<Longrightarrow> P (w\<lparr>ov_hidden := b\<rparr>)"
    and shown: "\<lbrakk>P w; \<not> ov_disposed w\<rbrakk> \<Longrightarrow> P (w\<lparr>ov_focuses := n\<rparr>)"
    and close: "\<lbrakk>P w; \<not> ov_disposed w\<rbrakk> \<Longrightarrow> P (closeNow w)"
    and coordinator: "\<lbrakk>P w; \<not> ov_disposed w\<rbrakk> \<Longrightarrow> P (w\<lparr>ov_coordinator := c\<rparr>)"
    and host: "\<lbrakk>P w; \<not> ov_disposed w; same h (ov_host w)\<rbrakk> \<Longrightarrow> P (w\<lparr>ov_host := h\<rparr>)"
begin

lemma edit_live: "P w \<Longrightarrow> \<not> ov_disposed w \<Longrightarrow> (\<And>m. screen_frame (g m) = screen_frame m) \<Longrightarrow> P (on_model g w)"
  unfolding on_model_def by (rule edit)

text \<open>A report after a wait that does nothing once the overlay is disposed.\<close>

lemma late: "(\<And>w. P w \<Longrightarrow> \<not> ov_disposed w \<Longrightarrow> P (f w)) \<Longrightarrow> (\<And>w. ov_disposed w \<Longrightarrow> f w = w) \<Longrightarrow> preserves P (st_modify f)"
  by (rule preserves_modify) metis

abbreviation live :: "'h overlay \<Rightarrow> bool" where
  "live w \<equiv> P w \<and> \<not> ov_disposed w"

abbreviation keeps_live :: "('h, 'a) overlay_step \<Rightarrow> bool" where
  "keeps_live m \<equiv> \<forall>w. live w \<longrightarrow> P (snd (m w))"

lemma bind_live: "keeps_live m \<Longrightarrow> (\<And>a. preserves P (f a)) \<Longrightarrow> keeps_live (st_bind m f)"
  by (fastforce simp: st_bind_def preserves_def split: prod.split sum.split)

lemma hidden_live: "preserves P m \<Longrightarrow> keeps_live (withOverlayHidden m)"
proof (intro allI impI)
  fix w assume m: "preserves P m" and w: "live w"
  let ?show = "\<lambda>w'. if ov_disposed w' then w' else w'\<lparr>ov_hidden := False, ov_focuses := ov_focuses w' + 1\<rparr>"
  have "P (snd (m (w\<lparr>ov_hidden := True\<rparr>)))" by (rule preservesD [OF m hide]) (use w in simp_all)
  moreover have "P (?show w')" if "P w'" for w' using that shown [OF hide] by simp
  moreover have "P (snd (m w))" using preservesD [OF m] w by blast
  ultimately have "P (?show (snd (m (w\<lparr>ov_hidden := True\<rparr>))))" "P (snd (m w))" by blast+
  then show "P (snd (withOverlayHidden m w))"
    by (simp add: withOverlayHidden_def st_finally_def case_prod_beta)
qed

lemma task_keeps: "(\<And>c. keeps_live (task c)) \<Longrightarrow> preserves P (runTask task)"
proof -
  assume t: "\<And>c. keeps_live (task c)"
  have "P (snd (task c (w\<lparr>ov_created := n, ov_controllers := cs\<rparr>)))" if "live w" for c w n cs
    using t [of c] that frame(1) [where w = w and n = n and cs = cs] by simp
  then show ?thesis by (simp add: preserves_def runTask_def Let_def st_finally_def frame case_prod_beta)
qed

lemma reports:
  assumes "\<And>h. same (oe_compact env (oe_sessionId env) h) h"
  shows "preserves P (st_modify (\<lambda>w. if stopped c w \<or> b then w else request_compaction env w))"
    "preserves P (st_modify (\<lambda>w. case v of None \<Rightarrow> w | Some t \<Rightarrow> if stopped c w then w else on_model (enter_limit env t) w))"
    "preserves P (st_modify (\<lambda>w. case v of None \<Rightarrow> w | Some t \<Rightarrow> if stopped c w then w else on_model (enter_providers t) w))"
    "preserves P (st_modify (\<lambda>w. if stopped c w then w else overlay_notify t l w))"
    "preserves P (st_modify (\<lambda>w. if ov_disposed w then w else on_model (markError t st) w))"
proof -
  have "P (request_compaction env w)" if "P w" "\<not> ov_disposed w" for w
    using that assms coordinator [OF that]
    by (auto simp: request_compaction_def Let_def intro!: notice host split: option.split prod.split)
  then show "preserves P (st_modify (\<lambda>w. if stopped c w \<or> b then w else request_compaction env w))"
    by (intro late) (auto simp: stopped_def)
qed (intro late; auto simp: stopped_def saved_entries intro!: edit_live notice split: option.split)+

lemma prompt_tasks:
  assumes "\<And>h. same (oe_compact env (oe_sessionId env) h) h"
    and confirm: "\<And>t c. preserves P (oe_confirm env t c)" and input: "\<And>t d c. preserves P (oe_input env t d c)"
    and export: "case oe_export env of None \<Rightarrow> True | Some f \<Rightarrow> \<forall>p. preserves P (f p)"
  shows "keeps_live (compact_task env c)" "keeps_live (limit_task env c)" "keeps_live (providers_task env c)"
    "keeps_live (export_task env c)"
proof -
  note late_reports = reports [OF assms(1)]
  have "keeps_live (st_bind (withOverlayHidden (oe_confirm env t c)) (\<lambda>confirmed.
      st_modify (\<lambda>w. if stopped c w \<or> \<not> confirmed then w else request_compaction env w)))" for t
    by (intro bind_live hidden_live confirm late_reports)
  then show "keeps_live (compact_task env c)" by (simp add: compact_task_def Let_def notice split: option.split)
  have "keeps_live (st_bind (withOverlayHidden (oe_input env t d c)) (\<lambda>v.
      st_modify (\<lambda>w. case v of None \<Rightarrow> w | Some t \<Rightarrow> if stopped c w then w else on_model (enter_limit env t) w)))" for t d
    by (intro bind_live hidden_live input late_reports)
  then show "keeps_live (limit_task env c)" by (simp add: limit_task_def Let_def)
  have "keeps_live (st_bind (withOverlayHidden (oe_input env t d c)) (\<lambda>v.
      st_modify (\<lambda>w. case v of None \<Rightarrow> w | Some t \<Rightarrow> if stopped c w then w else on_model (enter_providers t) w)))" for t d
    by (intro bind_live hidden_live input late_reports)
  then show "keeps_live (providers_task env c)" by (simp add: providers_task_def Let_def)
  show "keeps_live (export_task env c)"
  proof (cases "oe_export env")
    case None
    then show ?thesis by (simp add: export_task_def st_modify_def notice)
  next
    case (Some f)
    have tail: "preserves P (st_catch (st_bind (f p) (\<lambda>r. st_modify (\<lambda>w. if stopped c w then w else overlay_notify (exported_text r) ''info'' w)))
        (\<lambda>_. st_modify (\<lambda>w. if stopped c w then w else overlay_notify ''Codex diagnostics could not be exported'' ''error'' w)))" for p
      using export Some by (intro preserves_rules late_reports) simp
    have second: "preserves P (st_bind (st_read (stopped c)) (\<lambda>stop. if stop \<or> \<not> confirmed then st_return () else
      st_bind (withOverlayHidden (oe_input env t d c)) g))" if "\<And>a. preserves P (g a)" for confirmed t d g
    proof -
      have "keeps_live (st_bind (withOverlayHidden (oe_input env t d c)) g)"
        by (intro bind_live hidden_live input that)
      then show ?thesis by (auto simp: preserves_def st_bind_read stopped_def st_return_def)
    qed
    show ?thesis unfolding export_task_def Some option.case
      by (intro bind_live hidden_live confirm second preserves_rules tail)
  qed
qed

lemma handle_keeps:
  assumes "\<And>h. same (oe_compact env (oe_sessionId env) h) h"
    and "\<And>t c. preserves P (oe_confirm env t c)" and "\<And>t d c. preserves P (oe_input env t d c)"
    and "case oe_export env of None \<Rightarrow> True | Some f \<Rightarrow> \<forall>p. preserves P (f p)"
    and save: "\<And>b c. preserves P (save_task env b c)" and reset: "\<And>c. preserves P (reset_task env c)"
  shows "preserves P (settings_handleInput env data)"
proof -
  have started: "preserves P m \<Longrightarrow> keeps_live m" for m :: "('h, unit) overlay_step" by (simp add: preserves_def)
  have effect: "keeps_live (applyEffect env e)" for e
  proof (cases e)
    case EffectNone
    then show ?thesis by (simp add: applyEffect_def st_return_def)
  next
    case EffectClose
    then show ?thesis by (simp add: applyEffect_def st_modify_def close)
  next
    case (EffectSecurity t)
    then show ?thesis by (simp add: applyEffect_def st_modify_def notice)
  qed (simp_all only: applyEffect_def SettingsEffect.case,
      (intro started task_keeps prompt_tasks [OF assms(1-4)] save [THEN started] reset [THEN started])+)
  have "P (snd (settings_handleInput env data w))" if w: "P w" for w
  proof (cases "ov_disposed w")
    case False
    obtain e m where k: "handleKey (oe_parse env) data (ov_model w) = (e, m)" by fastforce
    then have "P (w\<lparr>ov_model := m\<rparr>)" using saved_key [of "oe_parse env" data "ov_model w"] edit [OF w False] by simp
    with effect [of e] False have "P (snd (applyEffect env e (w\<lparr>ov_model := m\<rparr>)))" by simp
    with False k show ?thesis
      by (simp add: settings_handleInput_def catch_state [OF _ reports(5) [OF assms(1)]])
  qed (simp add: settings_handleInput_def w)
  then show ?thesis by (simp add: preserves_def)
qed

end

section \<open>Closing\<close>

text \<open>
  What the user sees. \<open>settled v\<close>: the overlay has called \<open>done\<close> at most once, and only when disposed; a disposed
  overlay has a disposed screen; and if the host disposed it, the view is still the given one.
\<close>

definition overlay_view :: "'h overlay \<Rightarrow> SettingsModel \<times> (string \<times> string) list \<times> bool \<times> nat" where
  "overlay_view w = (ov_model w, ov_notices w, ov_hidden w, ov_focuses w)"

definition settled :: "SettingsModel \<times> (string \<times> string) list \<times> bool \<times> nat \<Rightarrow> 'h overlay \<Rightarrow> bool" where
  "settled v w \<longleftrightarrow> ov_done w \<le> 1 \<and> (0 < ov_done w \<longrightarrow> ov_disposed w) \<and> (ov_disposed w \<longrightarrow> sx_disposed (ov_model w)) \<and>
     (ov_disposed w \<and> ov_done w = 0 \<longrightarrow> overlay_view w = v)"

interpretation quiet: overlay_invariant "settled v" "\<lambda>_ _. True" for v
  by unfold_locales
     (auto simp: settled_def overlay_view_def overlay_notify_def closeNow_def settings_overlay_dispose_def on_model_def
       settings_dispose_def screen_frame_def Let_def)

text \<open>The screen calls saved what the service has stored, as long as it is shown.\<close>

definition saved_stored :: "('h \<Rightarrow> CodexConfig \<Rightarrow> bool) \<Rightarrow> 'h overlay \<Rightarrow> bool" where
  "saved_stored stored w \<longleftrightarrow> (sx_disposed (ov_model w) \<longrightarrow> ov_disposed w) \<and>
     (ov_disposed w \<or> stored (ov_host w) (sx_saved (ov_model w)))"

interpretation kept: overlay_invariant "saved_stored stored" "\<lambda>h' h. \<forall>c. stored h c \<longrightarrow> stored h' c" for stored
  by unfold_locales
     (auto simp: saved_stored_def overlay_notify_def closeNow_def settings_overlay_dispose_def on_model_def screen_frame_def Let_def)

text \<open>Every wait of the environment keeps the property.\<close>

definition waits_keep :: "('h overlay \<Rightarrow> bool) \<Rightarrow> 'h overlay_env \<Rightarrow> bool" where
  "waits_keep P env \<longleftrightarrow> (case oe_resolve env of None \<Rightarrow> True | Some f \<Rightarrow> \<forall>i. preserves P (f i)) \<and>
     (\<forall>t c. preserves P (oe_confirm env t c)) \<and> (\<forall>t d c. preserves P (oe_input env t d c)) \<and>
     (case oe_export env of None \<Rightarrow> True | Some f \<Rightarrow> \<forall>p. preserves P (f p))"

lemma context_keeps: "waits_keep P env \<Longrightarrow> preserves P (save_context env c)"
  unfolding save_context_def
  by (cases "oe_resolve env"; cases "oe_model env") (auto simp: waits_keep_def intro!: preserves_rules)

lemma begin_save_cases:
  "snd (begin_save w) = w\<lparr>ov_model := snd (beginSave (ov_model w))\<rparr>"
  "sx_disposed (ov_model w) \<Longrightarrow> snd (begin_save w) = w"
  "sx_saved (snd (beginSave m)) = sx_saved m" "sx_disposed (snd (beginSave m)) = sx_disposed m"
  by (auto simp: begin_save_def beginSave_def Let_def split: prod.split sum.split)

lemma settled_begin: "preserves (settled v) begin_save"
proof -
  have "settled v (snd (begin_save w))" if "settled v w" for w
  proof (cases "ov_disposed w")
    case True
    with that have "sx_disposed (ov_model w)" by (simp add: settled_def)
    with that show ?thesis by (simp only: begin_save_cases(2))
  next
    case False
    with that show ?thesis by (simp add: begin_save_cases settled_def)
  qed
  then show ?thesis unfolding preserves_def by blast
qed

lemma settled_save:
  assumes "waits_keep (settled v) env" and "\<And>c x. preserves (settled v) (oe_applyDraft env c x)"
  shows "preserves (settled v) (save_task env b signal)"
proof -
  have "preserves (settled v) (st_modify (saved_report b c))" for c
    by (rule preserves_modify)
       (auto simp: saved_report_def settled_def overlay_view_def overlay_notify_def closeNow_def settings_overlay_dispose_def
         on_model_def settings_dispose_def markSaved_def Let_def)
  moreover have "preserves (settled v) (st_modify (save_error e))" for e
    by (rule preserves_modify) (auto simp: save_error_def settled_def on_model_def)
  ultimately show ?thesis unfolding save_task_def
    by (intro preserves_rules settled_begin context_keeps assms)
qed

lemma settled_reset:
  assumes "preserves (settled v) (oe_resetToDefaults env)"
  shows "preserves (settled v) (reset_task env signal)"
  unfolding reset_task_def
  by (intro preserves_rules assms preserves_modify) (auto simp: settled_def on_model_def overlay_notify_def)


section \<open>Saving\<close>

text \<open>The configuration is stored, and the screen is disposed only with its overlay.\<close>

definition now_stored :: "('h \<Rightarrow> CodexConfig \<Rightarrow> bool) \<Rightarrow> CodexConfig \<Rightarrow> 'h overlay \<Rightarrow> bool" where
  "now_stored stored c w \<longleftrightarrow> (sx_disposed (ov_model w) \<longrightarrow> ov_disposed w) \<and> stored (ov_host w) c"

lemma triple_keeps: "triple P m (\<lambda>_. P) (\<lambda>_. P) \<Longrightarrow> preserves P m"
  unfolding triple_def preserves_def by (fastforce split: prod.splits sum.splits)

lemma stored_save:
  assumes "waits_keep (saved_stored stored) env"
    and applied: "\<And>c x. triple (saved_stored stored) (oe_applyDraft env c x) (\<lambda>_. now_stored stored c) (\<lambda>_. saved_stored stored)"
  shows "preserves (saved_stored stored) (save_task env b signal)"
proof (rule triple_keeps)
  let ?S = "saved_stored stored"
  have bg: "preserves ?S begin_save" by (simp add: preserves_def begin_save_cases saved_stored_def)
  have ok: "triple (now_stored stored c) (st_modify (saved_report b c)) (\<lambda>_. ?S) (\<lambda>_. ?S)" for c
    by (auto simp: triple_def st_modify_def saved_report_def saved_stored_def now_stored_def overlay_notify_def closeNow_def
        settings_overlay_dispose_def on_model_def settings_dispose_def markSaved_def refreshActivationStatus_def Let_def
        split: option.split)
  have "preserves ?S (st_modify (save_error e))" for e
    by (rule preserves_modify)
       (auto simp: save_error_def saved_stored_def on_model_def markError_def split: overlay_error.split)
  then have err: "triple (?S) (st_modify (save_error e)) (\<lambda>_. ?S) (\<lambda>_. ?S)" for e by (rule triple_preserves)
  show "triple ?S (save_task env b signal) (\<lambda>_. ?S) (\<lambda>_. ?S)"
    unfolding save_task_def
    by (rule triple_catch [OF _ err], rule triple_bind_preserves [OF bg], rule triple_bind_preserves [OF context_keeps [OF assms(1)]],
        rule triple_bind [OF applied ok])
qed

lemma stored_reset:
  assumes "triple (saved_stored stored) (oe_resetToDefaults env) (now_stored stored) (\<lambda>_. saved_stored stored)"
  shows "preserves (saved_stored stored) (reset_task env signal)"
proof (rule triple_keeps)
  let ?S = "saved_stored stored"
  have ok: "triple (now_stored stored c) (st_modify (\<lambda>w. if ov_disposed w then w
      else overlay_notify t l (on_model (replaceWithSaved c) w))) (\<lambda>_. ?S) (\<lambda>_. ?S)" for c t l
    by (auto simp: triple_def st_modify_def saved_stored_def now_stored_def overlay_notify_def on_model_def replaceWithSaved_def
        refreshActivationStatus_def split: option.split)
  have "preserves ?S (st_modify (\<lambda>w. if ov_disposed w then w else on_model (markError t s) w))" for t s
    by (rule preserves_modify) (auto simp: saved_stored_def on_model_def markError_def)
  then have err: "triple ?S (st_modify (\<lambda>w. if ov_disposed w then w else on_model (markError t s) w)) (\<lambda>_. ?S) (\<lambda>_. ?S)" for t s
    by (rule triple_preserves)
  show "triple ?S (reset_task env signal) (\<lambda>_. ?S) (\<lambda>_. ?S)"
    unfolding reset_task_def by (rule triple_catch [OF _ err], rule triple_bind [OF assms ok])
qed


section \<open>The configuration service behind the overlay\<close>

text \<open>A call of the configuration service as a step of the overlay.\<close>

definition service_step ::
  "(('s, 'x) service \<Rightarrow> (repo_error, 'a) result \<times> ('s, 'x) service) \<Rightarrow> (('s, 'x) service, 'a) overlay_step" where
  "service_step f w = (let (r, s) = f (ov_host w) in
     (case r of Inl (SchemaError _) \<Rightarrow> Inl ConfigurationFailure | Inl _ \<Rightarrow> Inl OtherFailure | Inr a \<Rightarrow> Inr a, w\<lparr>ov_host := s\<rparr>))"

definition file_stored :: "string \<Rightarrow> (disk, 'x) service \<Rightarrow> CodexConfig \<Rightarrow> bool" where
  "file_stored p s c = holds p (svc_storage s) c"

lemma listener_storage [simp]: "svc_storage (run_listener c l st) = svc_storage st"
  by (cases l) (simp_all add: policy_replace_def)

lemma notify_storage: "svc_storage (notify c st) = svc_storage st"
proof -
  have "svc_storage (fold (\<lambda>e. run_listener c (snd e)) es st) = svc_storage st" for es
    by (induction es arbitrary: st) simp_all
  then show ?thesis unfolding notify_def by blast
qed

lemma file_save:
  assumes "save_and_notify (file_repository p w) c s = (r, s')"
  shows "case r of Inr c' \<Rightarrow> c' = c \<and> file_stored p s' c | Inl e \<Rightarrow> \<forall>c'. file_stored p s c' \<longrightarrow> file_stored p s' c'"
proof -
  obtain q d where q: "save p c w (svc_storage s) = (q, d)" by fastforce
  show ?thesis
  proof (cases q)
    case (Inl e)
    with assms q have "r = Inl e" "svc_storage s' = d" by (auto simp: save_and_notify_def file_repository_def)
    with save_Inl [of p c w "svc_storage s" e d] q Inl show ?thesis
      by (auto simp: file_stored_def backed_up_def holds_def)
  next
    case (Inr u)
    with assms q have "r = Inr c" "svc_storage s' = d"
      by (auto simp: save_and_notify_def file_repository_def notify_storage)
    with save_Inr [of p c w "svc_storage s" u d] q Inr show ?thesis by (simp add: file_stored_def)
  qed
qed

lemma file_step_stores:
  assumes "\<And>s r s'. f s = (r, s') \<Longrightarrow> case r of Inr a \<Rightarrow> file_stored p s' (g a)
      | Inl e \<Rightarrow> \<forall>c'. file_stored p s c' \<longrightarrow> file_stored p s' c'"
  shows "triple (saved_stored (file_stored p)) (service_step f) (\<lambda>a. now_stored (file_stored p) (g a)) (\<lambda>_. saved_stored (file_stored p))"
proof -
  have "case service_step f w of (Inr a, w') \<Rightarrow> now_stored (file_stored p) (g a) w' | (Inl e, w') \<Rightarrow> saved_stored (file_stored p) w'"
    if "saved_stored (file_stored p) w" for w
    using that assms [of "ov_host w"]
    by (cases "f (ov_host w)"; cases "fst (f (ov_host w))")
       (auto simp: service_step_def saved_stored_def now_stored_def split: repo_error.split)
  then show ?thesis by (simp add: triple_def)
qed

definition file_overlay_env :: "string \<Rightarrow> world \<Rightarrow> (string \<Rightarrow> string option) \<Rightarrow> ((disk, 'x) service) overlay_env" where
  "file_overlay_env p w parse = \<lparr>oe_parse = parse, oe_model = None, oe_resolve = None,
     oe_applyDraft = (\<lambda>c x. service_step (\<lambda>s. let (r, s') = applyDraft (file_repository p w) (config_js c) x s in
        (case r of Inl e \<Rightarrow> Inl e | Inr _ \<Rightarrow> Inr (), s'))),
     oe_resetToDefaults = service_step (resetToDefaults (file_repository p w)),
     oe_confirm = (\<lambda>_ _. st_return False), oe_input = (\<lambda>_ _ _. st_return None), oe_export = None,
     oe_compact = (\<lambda>_ h. h), oe_sessionId = ''s'', oe_exportPath = ''d'', oe_number = (\<lambda>_. NaN)\<rparr>"

lemma file_applies:
  "triple (saved_stored (file_stored p)) (oe_applyDraft (file_overlay_env p w parse) c x) (\<lambda>_. now_stored (file_stored p) c)
     (\<lambda>_. saved_stored (file_stored p))"
proof -
  have "case r of Inr a \<Rightarrow> file_stored p s' c | Inl e \<Rightarrow> \<forall>c'. file_stored p s c' \<longrightarrow> file_stored p s' c'"
    if "(let (r, s') = applyDraft (file_repository p w) (config_js c) x s in
        (case r of Inl e \<Rightarrow> Inl e | Inr _ \<Rightarrow> Inr (), s')) = (r, s')" for s s' and r :: "repo_error + unit"
  proof (cases "validateConfigForSave (config_js c) x")
    case (Inl issues)
    with that show ?thesis by (auto simp: applyDraft_def)
  next
    case (Inr v)
    then have "v = c" by (auto simp: validateConfigForSave_def parseConfig_config_js_iff Let_def split: if_split_asm)
    obtain q t where q: "save_and_notify (file_repository p w) c s = (q, t)" by fastforce
    with that Inr \<open>v = c\<close> have "s' = t" "r = (case q of Inl e \<Rightarrow> Inl e | Inr _ \<Rightarrow> Inr ())" by (auto simp: applyDraft_def)
    with file_save [OF q] show ?thesis by (cases q) simp_all
  qed
  from file_step_stores [where g = "\<lambda>_. c", OF this] show ?thesis by (simp add: file_overlay_env_def)
qed

lemma file_resets:
  "triple (saved_stored (file_stored p)) (oe_resetToDefaults (file_overlay_env p w parse)) (now_stored (file_stored p))
     (\<lambda>_. saved_stored (file_stored p))"
proof -
  have "case r of Inr a \<Rightarrow> file_stored p s' a | Inl e \<Rightarrow> \<forall>c'. file_stored p s c' \<longrightarrow> file_stored p s' c'"
    if "resetToDefaults (file_repository p w) s = (r, s')" for s s' r
    using file_save [OF that [unfolded resetToDefaults_def]] by (cases r) auto
  from file_step_stores [where g = "\<lambda>a. a", OF this] show ?thesis by (simp add: file_overlay_env_def)
qed

lemma file_waits: "waits_keep P (file_overlay_env p w parse)"
  by (simp add: waits_keep_def file_overlay_env_def preserves_basic)


lemma settled_service: "preserves (settled v) (service_step f)"
  by (auto simp: preserves_def service_step_def settled_def overlay_view_def split: prod.split)

definition shown_overlay :: "((disk, unit) service) overlay" where
  "shown_overlay = new_settings_overlay (new_settings createDefaultConfig sample_options) None start_service"


end
