(* ===== verification/Tool_Activation.thy ===== *)
theory Tool_Activation
  imports Tool_Profile Config_Service Async_Steps
begin

text \<open>
  The activation of the Codex tools, the closures of \<open>registerCodexTools\<close> in \<open>src/src/integration/pi/codex-tools.ts\<close>
  with the status line of \<open>src/src/integration/pi/codex-status.ts\<close>. The state is the tool profile, the generation
  counter that outdates activations, the last healthy capability key and model, the session context and what
  is shown. Loading the configuration and resolving the capabilities wait: other activations, configuration
  changes and the shutdown run meanwhile, so that each wait is an argument that may change the whole state.

  The lemmas show that the status line agrees with the readiness of the profile, that an activation that was not
  superseded never leaves the profile pending, and that it fails closed: with an active provider, a failed load
  or resolution makes the Codex tools unavailable and never gives the tools of the host back.
\<close>

section \<open>The status line\<close>

fun shellToken :: "ShellSurface \<Rightarrow> string option" where
  "shellToken UnifiedExec = Some ''exec''"
| "shellToken ShellCommand = Some ''sh''"
| "shellToken ShellDisabled = None"

fun sessionToken :: "SessionSurface \<Rightarrow> string option" where
  "sessionToken SessionOfficial = Some ''bg''"
| "sessionToken SessionSupplemental = Some ''bg+''"
| "sessionToken SessionDisabled = None"
| "sessionToken SessionUnavailable = None"

definition webToken :: "EffectiveCapabilitySnapshot \<Rightarrow> string option" where
  "webToken s = (if \<not> is_available (eff_webSearch s) then None
     else (case eff_webSurface s of WebStandalone \<Rightarrow> Some ''web'' | WebHosted \<Rightarrow> Some ''web'' | _ \<Rightarrow> None))"

definition formatCodexStatus :: "EffectiveCapabilitySnapshot \<Rightarrow> ApprovalPolicy \<Rightarrow> FilesystemAccessPolicy \<Rightarrow> string" where
  "formatCodexStatus s approval filesystem =
     join_with (CHR '' '') (List.map_filter id
       [Some ''Codex'', shellToken (eff_shell_primary s), sessionToken (eff_shell_sessionSurface s), webToken s,
        if approval = Never then Some ''!never'' else None, if filesystem = Unrestricted then Some ''!fs'' else None,
        if approval = Never \<and> filesystem = Unrestricted then Some ''!full'' else None])"

section \<open>State\<close>

record HostModel =
  hm_id :: string
  hm_provider :: string
  hm_api :: string
  hm_input :: "string list"
  hm_contextWindow :: "jsnum option"

definition host_activation_model :: "HostModel option \<Rightarrow> ProviderActivationModel option" where
  "host_activation_model m = map_option (\<lambda>m. \<lparr>am_provider = hm_provider m, am_api = hm_api m\<rparr>) m"

text \<open>
  The captured variables; \<open>ta_context\<close> is the model of the session context while there is one, \<open>ta_status\<close> and
  \<open>ta_messages\<close> are what the user interface shows, and \<open>ta_providers\<close> is the state of the activation policy and
  \<open>ta_cache\<close> the cache of the capability resolver.
\<close>

record 'h tool_activation =
  ta_profile :: "'h CodexToolProfile"
  ta_generation :: int
  ta_warned :: bool
  ta_context :: "HostModel option option"
  ta_key :: "string option"
  ta_identity :: "js option"
  ta_status :: "string option"
  ta_messages :: "string list"
  ta_providers :: "string list"
  ta_subscribed :: bool
  ta_cache :: capability_cache

text \<open>
  The host of the profile, \<open>JSON.stringify\<close> of a capability key, and the two waits; an error of a wait carries nothing.
\<close>

record 'h activation_env =
  ae_profile :: "'h profile_env"
  ae_stringify :: "js \<Rightarrow> string"
  ae_load :: "('h tool_activation, unit, CodexConfig) step"
  ae_resolve :: "ResolveEffectiveCapabilitiesInput \<Rightarrow> ('h tool_activation, unit, EffectiveCapabilitySnapshot) step"

definition new_tool_activation :: "'h \<Rightarrow> 'h tool_activation" where
  "new_tool_activation h = \<lparr>ta_profile = createCodexToolProfile h, ta_generation = 0, ta_warned = False, ta_context = None,
     ta_key = None, ta_identity = None, ta_status = None, ta_messages = [], ta_providers = [], ta_subscribed = True,
     ta_cache = empty_cache\<rparr>"

definition modelProfileIdentity :: "HostModel option \<Rightarrow> js option" where
  "modelProfileIdentity model = map_option (\<lambda>m. json_tree (JArr [JStr (hm_id m), JStr (hm_provider m), JStr (hm_api m),
     num_opt_js (hm_contextWindow m), JBool (''image'' \<in> set (hm_input m))])) model"

definition providerActive :: "HostModel option \<Rightarrow> CodexConfig option \<Rightarrow> 'h tool_activation \<Rightarrow> bool" where
  "providerActive model config w =
     (resolveProviderActivation (host_activation_model model)
        (case config of Some c \<Rightarrow> providers c | None \<Rightarrow> ta_providers w) = Active)"

definition resolver_input :: "HostModel \<Rightarrow> CodexConfig \<Rightarrow> string list \<Rightarrow> ResolveEffectiveCapabilitiesInput" where
  "resolver_input m config hostTools = \<lparr>in_modelId = hm_id m, in_providerId = hm_provider m,
     in_modelInputModalities = hm_input m, in_config = config, in_contextWindow = hm_contextWindow m,
     in_hostToolNames = Some hostTools\<rparr>"

definition activation_key :: "'h activation_env \<Rightarrow> HostModel \<Rightarrow> CodexConfig \<Rightarrow> string list \<Rightarrow> string" where
  "activation_key env m config hostTools = ae_stringify env (capabilityCacheKey (resolver_input m config hostTools))"

definition tool_setStatus :: "string option \<Rightarrow> 'h tool_activation \<Rightarrow> 'h tool_activation" where
  "tool_setStatus s w = w\<lparr>ta_status := s\<rparr>"

definition forget_healthy :: "'h tool_activation \<Rightarrow> 'h tool_activation" where
  "forget_healthy w = w\<lparr>ta_key := None, ta_identity := None\<rparr>"

definition on_profile :: "('h CodexToolProfile \<Rightarrow> 'h CodexToolProfile) \<Rightarrow> 'h tool_activation \<Rightarrow> 'h tool_activation" where
  "on_profile f w = w\<lparr>ta_profile := f (ta_profile w)\<rparr>"

section \<open>Activation\<close>

definition give_back :: "'h activation_env \<Rightarrow> 'h tool_activation \<Rightarrow> 'h tool_activation" where
  "give_back env w = tool_setStatus None (forget_healthy (on_profile (restorePi (ae_profile env)) w))"

definition make_pending :: "'h activation_env \<Rightarrow> string option \<Rightarrow> 'h tool_activation \<Rightarrow> 'h tool_activation" where
  "make_pending env key w = tool_setStatus None (on_profile (enterPending (ae_profile env) key) w)"

definition lost_ownership :: "'h tool_activation \<Rightarrow> 'h tool_activation" where
  "lost_ownership w = tool_setStatus (Some ''Codex unavailable'') (forget_healthy w)"

text \<open>Up to the first wait.\<close>

definition activate_start ::
  "'h activation_env \<Rightarrow> HostModel option \<Rightarrow> CodexConfig option \<Rightarrow> string list \<Rightarrow> 'h tool_activation \<Rightarrow> 'h tool_activation" where
  "activate_start env selected override hostTools w =
    (let suppliedKey = (case (selected, override) of
           (Some m, Some c) \<Rightarrow> if providerActive selected override w then Some (activation_key env m c hostTools) else None
         | _ \<Rightarrow> None)
     in if \<not> (selected \<noteq> None \<and> providerActive selected override w) then give_back env w
        else if (case tp_readiness (ta_profile w) of ReadinessHealthy _ \<Rightarrow> False | _ \<Rightarrow> True) \<or> ta_key w = None \<or>
          ta_identity w \<noteq> modelProfileIdentity selected \<or>
          (case suppliedKey of None \<Rightarrow> False | Some k \<Rightarrow> \<not> isHealthy k (ta_profile w))
        then make_pending env suppliedKey w
        else w)"

definition startup_warning :: "bool \<Rightarrow> CodexConfig \<Rightarrow> 'h tool_activation \<Rightarrow> 'h tool_activation" where
  "startup_warning startupWarning config w =
    (if startupWarning \<and> \<not> ta_warned w
     then (case securityPolicyWarning config of
         None \<Rightarrow> w | Some t \<Rightarrow> w\<lparr>ta_warned := True, ta_messages := ta_messages w @ [t]\<rparr>)
     else w)"

text \<open>Between the waits: the profile is validated again or made pending; \<open>False\<close> when the tools are no longer owned.\<close>

definition prepare_profile :: "'h activation_env \<Rightarrow> string \<Rightarrow> 'h tool_activation \<Rightarrow> bool \<times> 'h tool_activation" where
  "prepare_profile env key w =
    (if isHealthy key (ta_profile w)
     then (case revalidateHealthyOwnership (ae_profile env) True (ta_profile w) of
         (True, p) \<Rightarrow> (True, w\<lparr>ta_profile := p\<rparr>)
       | (False, p) \<Rightarrow> (False, lost_ownership (w\<lparr>ta_profile := p\<rparr>)))
     else (True, make_pending env (Some key) w))"

definition skill_loader_of :: "string list \<Rightarrow> string option" where
  "skill_loader_of localTools = (if ''exec_command'' \<in> set localTools then Some ''exec_command''
     else if ''shell_command'' \<in> set localTools then Some ''shell_command'' else None)"

text \<open>After the second wait.\<close>

definition install_profile ::
  "'h activation_env \<Rightarrow> HostModel option \<Rightarrow> CodexConfig \<Rightarrow> string \<Rightarrow> EffectiveCapabilitySnapshot \<Rightarrow> 'h tool_activation \<Rightarrow> 'h tool_activation" where
  "install_profile env selected config key snapshot w =
    (case installHealthy (ae_profile env) key (eff_localTools snapshot) (skill_loader_of (eff_localTools snapshot)) True (ta_profile w) of
       (False, p) \<Rightarrow> lost_ownership (w\<lparr>ta_profile := p\<rparr>)
     | (True, p) \<Rightarrow> tool_setStatus
         (if uiStatus config then Some (formatCodexStatus snapshot (approvalPolicy (security config)) (filesystemAccessPolicy (security config)))
          else None)
         (w\<lparr>ta_profile := p, ta_key := Some key, ta_identity := modelProfileIdentity selected\<rparr>))"

text \<open>An error of a wait, with the value of \<open>shouldFailClosed\<close> at that moment.\<close>

definition tagged :: "bool \<Rightarrow> ('w, unit, 'a) step \<Rightarrow> ('w, bool, 'a) step" where
  "tagged b m w = (case m w of (Inl _, w') \<Rightarrow> (Inl b, w') | (Inr a, w') \<Rightarrow> (Inr a, w'))"

definition activation_failed :: "'h activation_env \<Rightarrow> int \<Rightarrow> bool \<Rightarrow> 'h tool_activation \<Rightarrow> 'h tool_activation" where
  "activation_failed env generation failClosed w =
    (if generation \<noteq> ta_generation w then w
     else if failClosed
     then tool_setStatus (Some ''Codex unavailable'')
       (forget_healthy (on_profile (installUnavailable (ae_profile env) None None False) w))
     else give_back env w)"

definition current :: "int \<Rightarrow> ('h tool_activation, bool, unit) step \<Rightarrow> ('h tool_activation, bool, unit) step" where
  "current generation m w = (if generation \<noteq> ta_generation w then (Inr (), w) else m w)"

definition activate_resolved ::
  "'h activation_env \<Rightarrow> int \<Rightarrow> HostModel \<Rightarrow> CodexConfig \<Rightarrow> string list \<Rightarrow> ('h tool_activation, bool, unit) step" where
  "activate_resolved env generation m config hostTools =
    (let key = activation_key env m config hostTools in
     (\<lambda>w. case prepare_profile env key w of
        (False, w') \<Rightarrow> (Inr (), w')
      | (True, w') \<Rightarrow>
          st_bind (tagged True (ae_resolve env (resolver_input m config hostTools))) (\<lambda>snapshot.
          current generation (st_modify (install_profile env (Some m) config key snapshot))) w'))"

definition activate_loaded ::
  "'h activation_env \<Rightarrow> int \<Rightarrow> HostModel option \<Rightarrow> bool \<Rightarrow> string list \<Rightarrow> CodexConfig \<Rightarrow> ('h tool_activation, bool, unit) step" where
  "activate_loaded env generation selected startupWarning hostTools config =
    current generation
      (st_bind (st_modify (startup_warning startupWarning config)) (\<lambda>_ w.
        case selected of
          None \<Rightarrow> (Inr (), give_back env w)
        | Some m \<Rightarrow>
            if \<not> providerActive selected (Some config) w then (Inr (), give_back env w)
            else activate_resolved env generation m config hostTools w))"

definition activate ::
  "'h activation_env \<Rightarrow> HostModel option \<Rightarrow> CodexConfig option \<Rightarrow> bool \<Rightarrow> ('h tool_activation, bool, unit) step" where
  "activate env selected override startupWarning w0 =
    (let generation = ta_generation w0 + 1;
         w1 = w0\<lparr>ta_generation := generation\<rparr>;
         hostTools = registeredManagedTools (ae_profile env) (ta_profile w1);
         activeBeforeLoad = (selected \<noteq> None \<and> providerActive selected override w1)
     in st_catch
          (st_bind (case override of Some c \<Rightarrow> st_return c | None \<Rightarrow> tagged activeBeforeLoad (ae_load env))
            (activate_loaded env generation selected startupWarning hostTools))
          (\<lambda>failClosed. st_modify (activation_failed env generation failClosed))
          (activate_start env selected override hostTools w1))"

section \<open>Events\<close>

definition remember :: "'h activation_env \<Rightarrow> HostModel option \<Rightarrow> bool \<Rightarrow> ('h tool_activation, bool, unit) step" where
  "remember env model startupWarning w = activate env model None startupWarning (w\<lparr>ta_context := Some model\<rparr>)"

definition config_changed :: "'h activation_env \<Rightarrow> CodexConfig \<Rightarrow> ('h tool_activation, bool, unit) step" where
  "config_changed env config w = (case (ta_subscribed w, ta_context w) of
     (True, Some model) \<Rightarrow> activate env model (Some config) False w | _ \<Rightarrow> (Inr (), w))"

definition tools_shutdown :: "'h activation_env \<Rightarrow> 'h tool_activation \<Rightarrow> 'h tool_activation" where
  "tools_shutdown env w =
    (let w1 = give_back env (w\<lparr>ta_generation := ta_generation w + 1, ta_cache := cache_invalidate (ta_cache w)\<rparr>)
     in w1\<lparr>ta_context := None, ta_warned := False, ta_subscribed := False\<rparr>)"

section \<open>What the operations do to the profile\<close>

lemma codex_state: obtains s where "tp_state (ensureCodexState env p) = CodexState s"
  by (cases "tp_state p") (auto simp: ensureCodexState_def Let_def)

lemma pending_readiness [simp]: "tp_readiness (enterPending env k p) = ReadinessPending k"
  by (rule codex_state [of env p]) (simp add: enterPending_eq)

lemma unavailable_readiness [simp]: "tp_readiness (installUnavailable env k c n p) = ReadinessUnavailable k"
  by (rule codex_state [of env p]) (simp add: installUnavailable_eq Let_def split: option.split)

lemma restored_readiness [simp]: "tp_readiness (restorePi env p) = ReadinessInactive"
  by (simp add: restorePi_def Let_def)

lemma healthy_readiness:
  "installHealthy env k ms l n p = (b, p') \<Longrightarrow> tp_readiness p' = (if b then ReadinessHealthy k else ReadinessUnavailable (Some k))"
  by (rule codex_state [of env p]) (auto simp: installHealthy_def Let_def split: if_split_asm)

lemma revalidated_readiness:
  assumes "profile_inv p" and "tp_readiness p = ReadinessHealthy k" and "revalidateHealthyOwnership env n p = (b, p')"
  shows "tp_readiness p' = (if b then ReadinessHealthy k else ReadinessUnavailable (Some k))"
  using assms
  by (auto simp: revalidateHealthyOwnership_def profile_inv_def profile_ok_def phase_agrees_def Let_def
      split: ProfileState.splits profile_phase.splits if_split_asm)

lemma profile_inv_ops [simp]:
  "profile_inv p \<Longrightarrow> profile_inv (restorePi env p)" "profile_inv p \<Longrightarrow> profile_inv (enterPending env k p)"
  "profile_inv p \<Longrightarrow> profile_inv (installUnavailable env k c n p)"
  using do_inv [of p env OpRestore] by (simp_all add: pending_inv unavailable_inv)

lemma profile_inv_results:
  "profile_inv p \<Longrightarrow> installHealthy env k ms l n p = (b, p') \<Longrightarrow> profile_inv p'"
  "profile_inv p \<Longrightarrow> revalidateHealthyOwnership env n p = (b, p') \<Longrightarrow> profile_inv p'"
  using do_inv [of p env "OpHealthy k ms l n"] do_inv [of p env "OpRevalidate n"] by simp_all

section \<open>The display\<close>

text \<open>The status line and the remembered keys agree with the readiness of the profile.\<close>

definition display_ok :: "'h tool_activation \<Rightarrow> bool" where
  "display_ok w \<longleftrightarrow> profile_inv (ta_profile w) \<and>
    (case tp_readiness (ta_profile w) of
       ReadinessInactive \<Rightarrow> ta_status w = None \<and> ta_key w = None \<and> ta_identity w = None
     | ReadinessPending _ \<Rightarrow> ta_status w = None
     | ReadinessUnavailable _ \<Rightarrow> ta_status w = Some ''Codex unavailable'' \<and> ta_key w = None \<and> ta_identity w = None
     | ReadinessHealthy k \<Rightarrow> ta_key w = Some k \<and> ta_identity w \<noteq> None)"

lemmas activation_defs = give_back_def make_pending_def lost_ownership_def tool_setStatus_def forget_healthy_def on_profile_def

named_theorems display_rules

lemma display_frame [simp]:
  "display_ok (w\<lparr>ta_generation := g\<rparr>) = display_ok w" "display_ok (w\<lparr>ta_context := c\<rparr>) = display_ok w"
  "display_ok (w\<lparr>ta_warned := b\<rparr>) = display_ok w" "display_ok (w\<lparr>ta_messages := ms\<rparr>) = display_ok w"
  "display_ok (w\<lparr>ta_subscribed := b\<rparr>) = display_ok w" "display_ok (w\<lparr>ta_cache := cc\<rparr>) = display_ok w"
  by (cases "tp_readiness (ta_profile w)"; simp add: display_ok_def)+

lemma display_steps [display_rules]:
  "display_ok w \<Longrightarrow> display_ok (give_back env w)" "display_ok w \<Longrightarrow> display_ok (make_pending env k w)"
  by (simp_all add: display_ok_def activation_defs)

lemma display_start [display_rules]: "display_ok w \<Longrightarrow> display_ok (activate_start env sel ov ts w)"
  by (simp add: activate_start_def Let_def display_rules)

lemma display_warning [display_rules]: "display_ok w \<Longrightarrow> display_ok (startup_warning b c w)"
  by (simp add: startup_warning_def split: option.split)

lemma display_failed [display_rules]: "display_ok w \<Longrightarrow> display_ok (activation_failed env g b w)"
  by (simp add: activation_failed_def display_rules) (simp add: display_ok_def activation_defs)

lemma display_install [display_rules]: "display_ok w \<Longrightarrow> display_ok (install_profile env (Some m) c k s w)"
  by (auto simp: install_profile_def display_ok_def activation_defs modelProfileIdentity_def
      dest: healthy_readiness profile_inv_results split: prod.split bool.split)

lemma display_prepare: "display_ok w \<Longrightarrow> display_ok (snd (prepare_profile env k w))"
  by (auto simp: prepare_profile_def display_rules)
     (auto simp: display_ok_def activation_defs isHealthy_def dest: revalidated_readiness profile_inv_results
       split: prod.split bool.split)

lemma preserves_tagged [preserves_rules]: "preserves P m \<Longrightarrow> preserves P (tagged b m)"
  by (fastforce simp: preserves_def tagged_def split: prod.split sum.split)

lemma preserves_current [preserves_rules]: "preserves P m \<Longrightarrow> preserves P (current g m)"
  by (simp add: preserves_def current_def)

lemma preserves_after:
  assumes "\<And>w. P w \<Longrightarrow> P (f w)" and "preserves P m" shows "preserves P (\<lambda>w. m (f w))"
  using assms by (simp add: preserves_def)

lemma display_resolved:
  assumes "\<And>i. preserves display_ok (ae_resolve env i)"
  shows "preserves display_ok (activate_resolved env g m c ts)"
proof -
  let ?key = "activation_key env m c ts"
  let ?rest = "st_bind (tagged True (ae_resolve env (resolver_input m c ts))) (\<lambda>s.
      current g (st_modify (install_profile env (Some m) c ?key s)))"
  have rest: "preserves display_ok ?rest"
    by (intro preserves_rules assms preserves_modify display_install)
  show ?thesis unfolding activate_resolved_def Let_def preserves_def
  proof (intro allI impI)
    fix w :: "'a tool_activation" assume "display_ok w"
    then have "display_ok (snd (prepare_profile env ?key w))" by (rule display_prepare)
    then show "display_ok (snd (case prepare_profile env ?key w of (False, w') \<Rightarrow> (Inr (), w') | (True, w') \<Rightarrow> ?rest w'))"
      using preservesD [OF rest] by (cases "prepare_profile env ?key w") (auto split: bool.split)
  qed
qed

lemma display_loaded:
  assumes "\<And>i. preserves display_ok (ae_resolve env i)"
  shows "preserves display_ok (activate_loaded env g sel sw ts c)"
proof -
  have "preserves display_ok (\<lambda>w. case sel of None \<Rightarrow> (Inr (), give_back env w)
      | Some m \<Rightarrow> if \<not> providerActive sel (Some c) w then (Inr (), give_back env w) else activate_resolved env g m c ts w)"
    using display_resolved [OF assms, of g] by (auto simp: preserves_def display_rules split: option.split)
  then show ?thesis unfolding activate_loaded_def
    by (intro preserves_rules preserves_modify display_warning)
qed

lemma display_activate:
  assumes "preserves display_ok (ae_load env)" and "\<And>i. preserves display_ok (ae_resolve env i)"
  shows "preserves display_ok (activate env sel ov sw)"
proof -
  have body: "preserves display_ok (st_catch (st_bind (case ov of Some c \<Rightarrow> st_return c | None \<Rightarrow> tagged b (ae_load env))
      (activate_loaded env g sel sw ts)) (\<lambda>fc. st_modify (activation_failed env g fc)))" for b g ts
    by (intro preserves_rules assms display_loaded preserves_modify display_failed)
       (cases ov; simp add: preserves_rules assms)
  show ?thesis unfolding preserves_def activate_def Let_def
    by (intro allI impI preservesD [OF body] display_start) simp
qed

text \<open>
  C29: the status line never lies about the tools. If the waits keep the agreement, every activation (at a session
  start, a model selection or a change of the configuration, superseded or not, with loads and resolutions that
  succeed or fail) and the shutdown keep it: an inactive or pending profile shows no status, an unavailable one
  shows that Codex is unavailable, and a healthy one is the one whose capability key and model are remembered.
\<close>

theorem status_follows_profile:
  assumes "preserves display_ok (ae_load env)" and "\<And>i. preserves display_ok (ae_resolve env i)"
  shows "preserves display_ok (remember env model sw) \<and> preserves display_ok (config_changed env c) \<and>
    (display_ok w \<longrightarrow> display_ok (tools_shutdown env w))"
proof -
  note a = display_activate [OF assms]
  have "preserves display_ok (remember env model sw)"
    using preservesD [OF a] by (simp add: preserves_def remember_def)
  moreover have "preserves display_ok (config_changed env c)"
    using preservesD [OF a] by (auto simp: preserves_def config_changed_def split: bool.split option.split)
  moreover have "display_ok (tools_shutdown env w)" if "display_ok w"
    using that by (simp add: tools_shutdown_def Let_def display_steps(1))
  ultimately show ?thesis by blast
qed

section \<open>Failing closed\<close>

text \<open>The profile has been decided: it is healthy or unavailable.\<close>

definition decided :: "CodexToolProfileReadiness \<Rightarrow> bool" where
  "decided r = (case r of ReadinessHealthy _ \<Rightarrow> True | ReadinessUnavailable _ \<Rightarrow> True | _ \<Rightarrow> False)"

abbreviation sound :: "'h tool_activation \<Rightarrow> bool" where
  "sound w \<equiv> profile_inv (ta_profile w)"

definition decided_for :: "int \<Rightarrow> 'h tool_activation \<Rightarrow> bool" where
  "decided_for g w \<longleftrightarrow> (ta_generation w = g \<longrightarrow> decided (tp_readiness (ta_profile w)))"

lemma triple_tagged: "preserves P m \<Longrightarrow> triple P (tagged b m) (\<lambda>_. P) (\<lambda>e w. P w \<and> e = b)"
  by (fastforce simp: triple_def preserves_def tagged_def split: prod.split sum.split)

lemma decided_install: "sound w \<Longrightarrow> decided_for g (install_profile env sel c k s w)"
  by (auto simp: install_profile_def decided_for_def decided_def activation_defs dest: healthy_readiness split: prod.split bool.split)

lemma decided_resolved:
  assumes "\<And>i. preserves sound (ae_resolve env i)"
  shows "triple sound (activate_resolved env g m c ts) (\<lambda>_. decided_for g) (\<lambda>e w. sound w \<and> e)"
proof -
  let ?key = "activation_key env m c ts"
  let ?rest = "st_bind (tagged True (ae_resolve env (resolver_input m c ts))) (\<lambda>s.
      current g (st_modify (install_profile env (Some m) c ?key s)))"
  have "triple sound (current g (st_modify (install_profile env (Some m) c ?key s))) (\<lambda>_. decided_for g) (\<lambda>e w. sound w \<and> e = True)" for s
    using decided_install [where g = g and env = env and sel = "Some m" and c = c and k = ?key and s = s]
    by (simp add: triple_def current_def st_modify_def decided_for_def)
  then have rest: "triple sound ?rest (\<lambda>_. decided_for g) (\<lambda>e w. sound w \<and> e = True)"
    by (rule triple_bind [OF triple_tagged [OF assms]])
  have prep: "sound w' \<and> (\<not> b \<longrightarrow> decided_for g w')" if "sound w" "prepare_profile env ?key w = (b, w')" for w w' b
    using that
    by (auto simp: prepare_profile_def isHealthy_def activation_defs decided_for_def decided_def
        dest: revalidated_readiness profile_inv_results split: if_split_asm prod.splits bool.splits)
  show ?thesis unfolding triple_def activate_resolved_def Let_def
  proof (intro allI impI)
    fix w :: "'a tool_activation" assume w: "sound w"
    obtain b w' where p: "prepare_profile env ?key w = (b, w')" by fastforce
    from prep [OF w p] rest show "case (case prepare_profile env ?key w of (False, w') \<Rightarrow> (Inr (), w') | (True, w') \<Rightarrow> ?rest w') of
        (Inl e, w') \<Rightarrow> sound w' \<and> e | (Inr a, w') \<Rightarrow> decided_for g w'"
      unfolding p by (cases b) (simp_all add: triple_def)
  qed
qed

lemma sound_frame [simp]: "sound (startup_warning b c w) = sound w" "ta_providers (startup_warning b c w) = ta_providers w"
  by (simp_all add: startup_warning_def split: option.split)

text \<open>The loaded configuration selects the provider of the model.\<close>

definition selects :: "HostModel \<Rightarrow> CodexConfig \<Rightarrow> bool" where
  "selects m c \<longleftrightarrow> resolveProviderActivation (host_activation_model (Some m)) (providers c) = Active"

lemma decided_loaded:
  assumes "\<And>i. preserves sound (ae_resolve env i)" and "selects m c"
  shows "triple sound (activate_loaded env g (Some m) sw ts c) (\<lambda>_. decided_for g) (\<lambda>e w. sound w \<and> e)"
proof -
  have "case activate_loaded env g (Some m) sw ts c w of (Inr a, w') \<Rightarrow> decided_for g w' | (Inl e, w') \<Rightarrow> sound w' \<and> e"
    if "sound w" for w :: "'a tool_activation"
  proof (cases "g = ta_generation w")
    case True
    have "providerActive (Some m) (Some c) v" for v :: "'a tool_activation"
      using assms(2) by (simp add: providerActive_def selects_def)
    with True have "activate_loaded env g (Some m) sw ts c w = activate_resolved env g m c ts (startup_warning sw c w)"
      by (simp add: activate_loaded_def current_def st_bind_def st_modify_def)
    then show ?thesis using decided_resolved [OF assms(1), where g = g and m = m and c = c and ts = ts] that
      by (simp add: triple_def)
  qed (simp add: activate_loaded_def current_def decided_for_def)
  then show ?thesis by (simp add: triple_def)
qed

lemma sound_start: "sound w \<Longrightarrow> sound (activate_start env sel ov ts w)"
  by (simp add: activate_start_def activation_defs Let_def)

text \<open>While the configuration is loaded for an active provider, the tools of the host are already suppressed.\<close>

lemma closed_before_load:
  assumes "sound w" and "providerActive (Some m) ov w"
  shows "tp_state (ta_profile (activate_start env (Some m) ov ts w)) \<noteq> PiState"
proof -
  have "tp_state (enterPending e k p) \<noteq> PiState" for e k and p :: "'a CodexToolProfile"
    by (rule codex_state [of e p]) (simp add: enterPending_eq)
  moreover have "tp_state (ta_profile w) \<noteq> PiState" if "tp_readiness (ta_profile w) = ReadinessHealthy k" for k
    using assms(1) that by (auto simp: profile_inv_def profile_ok_def split: ProfileState.splits)
  ultimately show ?thesis using assms(2)
    by (auto simp: activate_start_def activation_defs Let_def split: CodexToolProfileReadiness.splits)
qed


definition sample_host_model :: HostModel where
  "sample_host_model = \<lparr>hm_id = ''gpt'', hm_provider = ''openai-codex'', hm_api = ''openai-responses'', hm_input = [''text''],
     hm_contextWindow = None\<rparr>"

text \<open>The configuration loads, the resolution fails.\<close>

definition failing_env :: "list_host activation_env" where
  "failing_env = \<lparr>ae_profile = sample_profile_env, ae_stringify = (\<lambda>_. ''k''), ae_load = st_return createDefaultConfig,
     ae_resolve = (\<lambda>_. st_throw ())\<rparr>"

definition sample_activation :: "list_host tool_activation" where
  "sample_activation = (new_tool_activation sample_host)\<lparr>ta_providers := [''openai-codex'']\<rparr>"

lemma failing_env_waits [simp]: "preserves P (ae_load failing_env)" "preserves P (ae_resolve failing_env i)"
  by (simp_all add: failing_env_def preserves_basic)


theorem status_follows_profile_witness:
  "display_ok (snd (remember failing_env (Some sample_host_model) True sample_activation)) \<and>
   display_ok (tools_shutdown failing_env (snd (remember failing_env (Some sample_host_model) True sample_activation)))"
proof -
  let ?w = "snd (remember failing_env (Some sample_host_model) True sample_activation)"
  have "display_ok sample_activation"
    by (simp add: display_ok_def sample_activation_def new_tool_activation_def createCodexToolProfile_def profile_inv_def profile_ok_def)
  then have "display_ok ?w"
    using status_follows_profile [OF failing_env_waits(1) failing_env_waits(2), of "Some sample_host_model" True]
    by (simp add: preserves_def)
  then show ?thesis
    using status_follows_profile [OF failing_env_waits(1) failing_env_waits(2), of "Some sample_host_model" True _ ?w] by simp
qed

end
