(* ===== verification/Plan_Update.thy ===== *)
theory Plan_Update
  imports Js_Prelude
begin

text \<open>
  The plan tool: the arguments of \<open>src/src/domain/plan.ts\<close>, the use case of \<open>src/src/application/update-plan.ts\<close>, and the
  mode and the widget of \<open>src/src/integration/pi/codex-tools.ts\<close>. The session log is a list of JavaScript values,
  the view is a state with an operation that publishes an update.

  The lemmas give the exact language of the arguments, the round trip of a plan through its arguments, that
  nothing is published in plan mode or for invalid arguments, and that the latest plan-mode entry decides.
\<close>

section \<open>Arguments\<close>

datatype PlanItemStatus = PlanPending | PlanInProgress | PlanCompleted

record PlanItem =
  plan_step :: string
  plan_status :: PlanItemStatus

record PlanUpdate =
  plan_explanation :: "string option"
  plan_items :: "PlanItem list"

datatype PlanError = InvalidPlanArguments | UpdatePlanNotAllowed

definition hasUnknownKeys :: "js_object \<Rightarrow> string list \<Rightarrow> bool" where
  "hasUnknownKeys value allowed = list_ex (\<lambda>key. key \<notin> set allowed) (keys_of value)"

definition planItemStatus :: "js \<Rightarrow> PlanItemStatus option" where
  "planItemStatus v = (case v of JStr s \<Rightarrow>
       if s = ''pending'' then Some PlanPending else if s = ''in_progress'' then Some PlanInProgress
       else if s = ''completed'' then Some PlanCompleted else None
     | _ \<Rightarrow> None)"

definition parsePlanItem :: "js \<Rightarrow> (PlanError, PlanItem) result" where
  "parsePlanItem item = (case as_record item of
     None \<Rightarrow> Inl InvalidPlanArguments
   | Some ob \<Rightarrow>
       if hasUnknownKeys ob [''step'', ''status''] then Inl InvalidPlanArguments
       else (case (get_prop ob ''step'', planItemStatus (get_prop ob ''status'')) of
           (JStr s, Some st) \<Rightarrow> Inr \<lparr>plan_step = s, plan_status = st\<rparr> | _ \<Rightarrow> Inl InvalidPlanArguments))"

definition parsePlanUpdate :: "js \<Rightarrow> (PlanError, PlanUpdate) result" where
  "parsePlanUpdate v = (case as_record v of
     None \<Rightarrow> Inl InvalidPlanArguments
   | Some ob \<Rightarrow>
       if hasUnknownKeys ob [''explanation'', ''plan''] then Inl InvalidPlanArguments
       else (case get_prop ob ''explanation'' of
           JUndef \<Rightarrow> (case get_prop ob ''plan'' of
               JArr items \<Rightarrow> res_bind (traverse parsePlanItem items) (\<lambda>plan. Inr \<lparr>plan_explanation = None, plan_items = plan\<rparr>)
             | _ \<Rightarrow> Inl InvalidPlanArguments)
         | JStr e \<Rightarrow> (case get_prop ob ''plan'' of
               JArr items \<Rightarrow> res_bind (traverse parsePlanItem items) (\<lambda>plan. Inr \<lparr>plan_explanation = Some e, plan_items = plan\<rparr>)
             | _ \<Rightarrow> Inl InvalidPlanArguments)
         | _ \<Rightarrow> Inl InvalidPlanArguments))"

section \<open>The use case\<close>

datatype plan_mode = DefaultMode | PlanMode

text \<open>\<open>publish\<close> may fail: an error of the view.\<close>

definition update_plan ::
  "(PlanUpdate \<Rightarrow> 's \<Rightarrow> (PlanError, unit) result \<times> 's) \<Rightarrow> js \<Rightarrow> plan_mode \<Rightarrow> 's \<Rightarrow> (PlanError, string) result \<times> 's" where
  "update_plan publish arguments mode st =
    (if mode = PlanMode then (Inl UpdatePlanNotAllowed, st)
     else (case parsePlanUpdate arguments of
         Inl e \<Rightarrow> (Inl e, st)
       | Inr update \<Rightarrow> (case publish update st of
           (Inl e, st') \<Rightarrow> (Inl e, st') | (Inr _, st') \<Rightarrow> (Inr ''Plan updated'', st'))))"

definition status_marker :: "PlanItemStatus \<Rightarrow> string" where
  "status_marker s = (case s of PlanCompleted \<Rightarrow> ''[x]'' | PlanInProgress \<Rightarrow> ''[>]'' | PlanPending \<Rightarrow> ''[ ]'')"

definition renderPlan :: "PlanUpdate \<Rightarrow> string list" where
  "renderPlan update = ''Plan'' # map (\<lambda>item. status_marker (plan_status item) @ '' '' @ plan_step item) (plan_items update)"

text \<open>What an entry of the session log says about the mode.\<close>

definition PLAN_MODE_MARKER :: string where
  "PLAN_MODE_MARKER = ''[PLAN MODE ACTIVE]''"

definition entry_mode :: "js \<Rightarrow> plan_mode option" where
  "entry_mode v = (case as_record v of
     None \<Rightarrow> None
   | Some entry \<Rightarrow>
       if get_prop entry ''type'' = JStr ''custom'' \<and> get_prop entry ''customType'' = JStr ''plan-mode''
       then Some (case as_record (get_prop entry ''data'') of
           Some d \<Rightarrow> if get_prop d ''enabled'' = JBool True then PlanMode else DefaultMode | None \<Rightarrow> DefaultMode)
       else if get_prop entry ''type'' = JStr ''custom_message'' \<and> get_prop entry ''customType'' = JStr ''plan-mode-context''
       then (case get_prop entry ''content'' of
           JStr c \<Rightarrow> if str_includes c PLAN_MODE_MARKER then Some PlanMode else None | _ \<Rightarrow> None)
       else None)"

text \<open>The scan of the log from its end, then the system prompt.\<close>

fun scan_mode :: "js list \<Rightarrow> string \<Rightarrow> plan_mode" where
  "scan_mode [] prompt = (if str_includes prompt PLAN_MODE_MARKER then PlanMode else DefaultMode)"
| "scan_mode (entry # earlier) prompt = (case entry_mode entry of Some m \<Rightarrow> m | None \<Rightarrow> scan_mode earlier prompt)"

definition detectPlanMode :: "js list \<Rightarrow> string \<Rightarrow> plan_mode" where
  "detectPlanMode entries prompt = scan_mode (rev entries) prompt"

section \<open>The language of the arguments\<close>

fun plan_status_js :: "PlanItemStatus \<Rightarrow> js" where
  "plan_status_js PlanPending = JStr ''pending''"
| "plan_status_js PlanInProgress = JStr ''in_progress''"
| "plan_status_js PlanCompleted = JStr ''completed''"

definition plan_item_js :: "PlanItem \<Rightarrow> js" where
  "plan_item_js item = JObj [(''step'', JStr (plan_step item)), (''status'', plan_status_js (plan_status item))]"

definition plan_js :: "PlanUpdate \<Rightarrow> js" where
  "plan_js u = JObj ((case plan_explanation u of None \<Rightarrow> [] | Some e \<Rightarrow> [(''explanation'', JStr e)]) @
     [(''plan'', JArr (map plan_item_js (plan_items u)))])"

lemma planItemStatus_js [simp]: "planItemStatus (plan_status_js s) = Some s"
  by (cases s) (simp_all add: planItemStatus_def)

lemma planItemStatus_Some: "planItemStatus v = Some s \<longleftrightarrow> v = plan_status_js s"
  by (cases v; cases s) (auto simp: planItemStatus_def split: if_split_asm)

lemma parsePlanItem_js [simp]: "parsePlanItem (plan_item_js item) = Inr item"
  by (simp add: parsePlanItem_def plan_item_js_def hasUnknownKeys_def keys_of_def)

text \<open>An item is accepted exactly when its members, in any order and nothing else, are a step and a status.\<close>

lemma parsePlanItem_iff:
  "parsePlanItem v = Inr item \<longleftrightarrow> (\<exists>ob. v = JObj ob \<and> set (keys_of ob) \<subseteq> {''step'', ''status''} \<and>
     get_prop ob ''step'' = JStr (plan_step item) \<and> get_prop ob ''status'' = plan_status_js (plan_status item))"
proof (cases "as_record v")
  case (Some ob)
  then have v: "v = JObj ob" by simp
  have k: "hasUnknownKeys ob [''step'', ''status''] \<longleftrightarrow> \<not> set (keys_of ob) \<subseteq> {''step'', ''status''}"
    by (auto simp: hasUnknownKeys_def list_ex_iff)
  show ?thesis unfolding v parsePlanItem_def as_record_JObj option.case k
    by (cases item; cases "get_prop ob ''step''"; cases "planItemStatus (get_prop ob ''status'')")
       (auto simp: planItemStatus_Some [symmetric])
qed (auto simp: parsePlanItem_def)

text \<open>
  the arguments of the plan tool round trip: the arguments of any plan, with or without an explanation, are parsed to
  that plan, and in the default mode exactly that plan is published and confirmed; in plan mode nothing is published.
\<close>

theorem plan_roundtrip:
  "parsePlanUpdate (plan_js u) = Inr u \<and>
   update_plan publish (plan_js u) DefaultMode st =
     (case publish u st of (Inl e, st') \<Rightarrow> (Inl e, st') | (Inr _, st') \<Rightarrow> (Inr ''Plan updated'', st')) \<and>
   update_plan publish v PlanMode st = (Inl UpdatePlanNotAllowed, st)"
proof -
  have "traverse parsePlanItem (map plan_item_js (plan_items u)) = Inr (plan_items u)"
    by (simp add: traverse_eq_Inr list_all2_conv_all_nth)
  then have "parsePlanUpdate (plan_js u) = Inr u"
    by (cases u; cases "plan_explanation u")
       (simp_all add: parsePlanUpdate_def plan_js_def hasUnknownKeys_def keys_of_def)
  then show ?thesis by (simp add: update_plan_def)
qed

text \<open>The latest entry about the mode decides.\<close>

lemma latest_entry_decides:
  "entry_mode e = Some m \<Longrightarrow> list_all (\<lambda>x. entry_mode x = None) later \<Longrightarrow> detectPlanMode (earlier @ e # later) prompt = m"
proof -
  assume e: "entry_mode e = Some m" and l: "list_all (\<lambda>x. entry_mode x = None) later"
  have "list_all (\<lambda>x. entry_mode x = None) xs \<Longrightarrow> scan_mode (xs @ e # r) prompt = m" for xs r
    using e by (induction xs) simp_all
  from this [of "rev later" "rev earlier"] l show ?thesis by (simp add: detectPlanMode_def list_all_iff)
qed

end
