(* ===== verification/Tool_Execution.thy ===== *)
theory Tool_Execution
  imports Bridge_Runtime Plan_Update Response_Items Provider_Connection
begin

text \<open>
  The execution of the Codex tools: the \<open>execute\<close> handlers of \<open>src/src/integration/pi/codex-tools.ts\<close> with the arguments
  they build, the conversation images they attach and the results they show to the model, and the skills
  section of \<open>src/src/integration/pi/codex-system-prompt.ts\<close>. The arguments of a call come from the model and are any
  JavaScript value; the runtime's answer is a list of events and a result.

  The lemmas show that no argument of the model reaches a setting of the host, that the attached images are
  exactly the last ones, that images and skill texts round trip through their encodings, and what a call fails with.
\<close>

section \<open>Picking arguments\<close>

definition pickString :: "js_object \<Rightarrow> string \<Rightarrow> js_object" where
  "pickString source key = (case get_prop source key of JStr s \<Rightarrow> [(key, JStr s)] | _ \<Rightarrow> [])"

definition pickBoolean :: "js_object \<Rightarrow> string \<Rightarrow> js_object" where
  "pickBoolean source key = (case get_prop source key of JBool b \<Rightarrow> [(key, JBool b)] | _ \<Rightarrow> [])"

definition pickNumber :: "js_object \<Rightarrow> string \<Rightarrow> js_object" where
  "pickNumber source key = (case get_prop source key of JNum n \<Rightarrow> if isFinite n then [(key, JNum n)] else [] | _ \<Rightarrow> [])"

definition pickStringArray :: "js_object \<Rightarrow> string \<Rightarrow> js_object" where
  "pickStringArray source key = (case get_prop source key of
     JArr vs \<Rightarrow> (let items = filter (\<lambda>v. as_string v \<noteq> None) vs in if length items = length vs then [(key, JArr items)] else [])
   | _ \<Rightarrow> [])"

definition params_object :: "js \<Rightarrow> js_object" where
  "params_object params = (case as_record params of None \<Rightarrow> [] | Some ob \<Rightarrow> ob)"

datatype NativeManagedTool = ExecCommand | WriteStdin | ShellCommandTool | ApplyPatch | ViewImage

fun native_tool_name :: "NativeManagedTool \<Rightarrow> string" where
  "native_tool_name ExecCommand = ''exec_command''"
| "native_tool_name WriteStdin = ''write_stdin''"
| "native_tool_name ShellCommandTool = ''shell_command''"
| "native_tool_name ApplyPatch = ''apply_patch''"
| "native_tool_name ViewImage = ''view_image''"

fun presentationKindFor :: "NativeManagedTool \<Rightarrow> string" where
  "presentationKindFor ExecCommand = ''command''"
| "presentationKindFor ShellCommandTool = ''command''"
| "presentationKindFor WriteStdin = ''session-input''"
| "presentationKindFor ApplyPatch = ''patch''"
| "presentationKindFor ViewImage = ''view-image''"

fun buildNativeToolArguments :: "NativeManagedTool \<Rightarrow> js \<Rightarrow> bool \<Rightarrow> string \<Rightarrow> js_object" where
  "buildNativeToolArguments ExecCommand params allowBackground model_id = (let source = params_object params in
     [(''model'', JStr model_id)] @ pickString source ''cmd'' @ pickString source ''shell'' @ pickBoolean source ''login'' @
     pickNumber source ''max_output_tokens'' @ pickBoolean source ''tty'' @ pickNumber source ''yield_time_ms'' @
     [(''allow_background_sessions'', JBool allowBackground)])"
| "buildNativeToolArguments ShellCommandTool params allowBackground model_id = (let source = params_object params in
     [(''model'', JStr model_id)] @ pickString source ''command'' @ pickBoolean source ''login'' @ pickNumber source ''timeout_ms'' @
     pickNumber source ''max_output_tokens'')"
| "buildNativeToolArguments WriteStdin params allowBackground model_id = (let source = params_object params in
     [(''model'', JStr model_id)] @ pickNumber source ''session_id'' @ pickString source ''chars'' @ pickNumber source ''yield_time_ms'' @
     pickNumber source ''max_output_tokens'')"
| "buildNativeToolArguments ApplyPatch params allowBackground model_id =
     [(''model'', JStr model_id)] @ pickString (params_object params) ''input''"
| "buildNativeToolArguments ViewImage params allowBackground model_id = (let source = params_object params in
     [(''model'', JStr model_id)] @ pickString source ''path'' @ pickString source ''detail'')"

definition workdirFrom :: "js \<Rightarrow> string \<Rightarrow> string" where
  "workdirFrom params fallback = (case get_prop (params_object params) ''workdir'' of
     JStr s \<Rightarrow> if 0 < length s then s else fallback | _ \<Rightarrow> fallback)"

section \<open>Images\<close>

record ImageContent =
  img_mimeType :: string
  img_data :: string

definition imageContent :: "js \<Rightarrow> ImageContent option" where
  "imageContent v = (case v of
     JStr s \<Rightarrow>
       if \<not> starts_with s ''data:'' then None
       else if CHR '','' \<notin> set s then None
       else (let separator = length (takeWhile (\<lambda>c. c \<noteq> CHR '','') s);
                 metadata = split_on (CHR '';'') (drop 5 (take separator s))
             in (case metadata of
                 mimeType # encoding # _ \<Rightarrow>
                   if encoding = ''base64'' then Some \<lparr>img_mimeType = mimeType, img_data = drop (separator + 1) s\<rparr> else None
               | _ \<Rightarrow> None))
   | _ \<Rightarrow> None)"

definition content_image_url :: "js \<Rightarrow> string option" where
  "content_image_url v = (case as_record v of
     None \<Rightarrow> None
   | Some content \<Rightarrow>
       if get_prop content ''type'' \<noteq> JStr ''image'' then None
       else (case (get_prop content ''data'', get_prop content ''mimeType'') of
           (JStr d, JStr m) \<Rightarrow> Some (''data:'' @ m @ '';base64,'' @ d) | _ \<Rightarrow> None))"

definition message_content :: "js \<Rightarrow> js list option" where
  "message_content v = (case as_record v of
     None \<Rightarrow> None
   | Some entry \<Rightarrow>
       if get_prop entry ''type'' \<noteq> JStr ''message'' then None
       else (case as_record (get_prop entry ''message'') of
           None \<Rightarrow> None | Some message \<Rightarrow> as_array (get_prop message ''content'')))"

text \<open>The two loops, over lists that are already reversed; a count may be any number.\<close>

fun collect_content :: "jsnum \<Rightarrow> js list \<Rightarrow> string list \<Rightarrow> string list" where
  "collect_content count [] images = images"
| "collect_content count (c # cs) images = (case content_image_url c of
     None \<Rightarrow> collect_content count cs images
   | Some u \<Rightarrow> if num_eq (Fin (of_nat (length images + 1))) count then images @ [u] else collect_content count cs (images @ [u]))"

fun collect_branch :: "jsnum \<Rightarrow> js list \<Rightarrow> string list \<Rightarrow> string list" where
  "collect_branch count [] images = images"
| "collect_branch count (e # es) images =
    (if \<not> num_less (Fin (of_nat (length images))) count then images
     else (case message_content e of
         None \<Rightarrow> collect_branch count es images
       | Some content \<Rightarrow> collect_branch count es (collect_content count (rev content) images)))"

definition recentConversationImageUrls :: "js list \<Rightarrow> jsnum \<Rightarrow> string list" where
  "recentConversationImageUrls branch count = rev (collect_branch count (rev branch) [])"

definition buildImageGenerationArguments :: "js \<Rightarrow> js list \<Rightarrow> js_object" where
  "buildImageGenerationArguments params branch =
    (let source = params_object params;
         args = pickString source ''prompt'' @ pickStringArray source ''referenced_image_paths'' @
           pickNumber source ''num_last_images_to_include''
     in case get_prop args ''num_last_images_to_include'' of
          JNum count \<Rightarrow> set_prop args ''recent_image_urls'' (JArr (map JStr (recentConversationImageUrls branch count)))
        | _ \<Rightarrow> args)"

definition buildWebRunArguments :: "js \<Rightarrow> js list \<Rightarrow> string option \<Rightarrow> string \<Rightarrow> string \<Rightarrow> js_object" where
  "buildWebRunArguments params items model sessionId mode =
     [(''commands'', JObj (params_object params)), (''conversation_items'', JArr items)] @
     (case model of None \<Rightarrow> [] | Some m \<Rightarrow> [(''model'', JStr m)]) @
     [(''request_session_id'', JStr sessionId), (''web_search_mode'', JStr mode)]"

section \<open>Requests\<close>

fun nativeApprovalPolicyFor :: "ApprovalPolicy \<Rightarrow> string" where
  "nativeApprovalPolicyFor OnRequest = ''on-request''"
| "nativeApprovalPolicyFor Never = ''never''"

text \<open>What every handler takes from the configuration and the session.\<close>

definition execute_request :: "string \<Rightarrow> js_object \<Rightarrow> string \<Rightarrow> string \<Rightarrow> CodexConfig \<Rightarrow> ToolsExecuteParamsInput" where
  "execute_request tool args workdir cwd config = \<lparr>te_tool = tool, te_arguments = args, te_workdir = workdir,
     te_workspaceRoots = [cwd], te_approvalPolicy = nativeApprovalPolicyFor (approvalPolicy (security config)),
     te_filesystemAccessPolicy = enum_name filesystem_table (filesystemAccessPolicy (security config))\<rparr>"

definition native_request :: "NativeManagedTool \<Rightarrow> js \<Rightarrow> CodexConfig \<Rightarrow> string \<Rightarrow> string \<Rightarrow> ToolsExecuteParamsInput" where
  "native_request name params config model_id cwd = execute_request (native_tool_name name)
     (buildNativeToolArguments name params (backgroundSessions (tools config)) model_id) (workdirFrom params cwd) cwd config"

definition image_request :: "js \<Rightarrow> js list \<Rightarrow> CodexConfig \<Rightarrow> string \<Rightarrow> ToolsExecuteParamsInput" where
  "image_request params branch config cwd =
     execute_request ''image_gen.imagegen'' (buildImageGenerationArguments params branch) cwd cwd config"

definition web_request :: "js \<Rightarrow> js list \<Rightarrow> string option \<Rightarrow> string \<Rightarrow> CodexConfig \<Rightarrow> string \<Rightarrow> ToolsExecuteParamsInput" where
  "web_request params items model sessionId config cwd = execute_request ''web.run''
     (buildWebRunArguments params items model sessionId (enum_name webSearch_table (webSearchMode (codex config)))) cwd cwd config"

section \<open>Results\<close>

definition toolOutputDelta :: "js \<Rightarrow> string option" where
  "toolOutputDelta v = (case as_record v of
     None \<Rightarrow> None
   | Some event \<Rightarrow> if get_prop event ''type'' = JStr ''tool.output.delta'' then as_string (get_prop event ''text'') else None)"

text \<open>The output streamed so far, and the partial results shown: first the empty one that says the tool is running.\<close>

definition streamed_output :: "js list \<Rightarrow> string" where
  "streamed_output events = concat (List.map_filter toolOutputDelta events)"

fun partial_texts :: "string \<Rightarrow> js list \<Rightarrow> string list" where
  "partial_texts streamed [] = []"
| "partial_texts streamed (e # es) = (case toolOutputDelta e of
     None \<Rightarrow> partial_texts streamed es | Some d \<Rightarrow> (streamed @ d) # partial_texts (streamed @ d) es)"

definition shown_updates :: "js list \<Rightarrow> string list" where
  "shown_updates events = '''' # partial_texts '''' events"

definition result_metadata :: "string \<Rightarrow> js_object \<Rightarrow> js_object" where
  "result_metadata status details = (''status'', JStr status) # filter (\<lambda>kv. fst kv \<noteq> ''output'' \<and> fst kv \<noteq> ''status'') details"

definition modelVisibleNativeToolResult :: "(js \<Rightarrow> string) \<Rightarrow> string \<Rightarrow> js_object \<Rightarrow> string \<Rightarrow> string" where
  "modelVisibleNativeToolResult stringify status details streamed =
    (let text_out = (case get_prop details ''output'' of JStr s \<Rightarrow> s | _ \<Rightarrow> streamed);
         metadata = stringify (JObj (result_metadata status details))
     in if text_out = '''' then metadata
        else text_out @ (if last text_out = CHR 0x0A then '''' else [CHR 0x0A]) @ metadata)"

datatype tool_content = TextContent string | ImageResult ImageContent

record tool_answer =
  ans_status :: string
  ans_result :: js
  ans_events :: "js list"

definition result_object :: "tool_answer \<Rightarrow> js_object" where
  "result_object a = (case as_record (ans_result a) of None \<Rightarrow> [] | Some ob \<Rightarrow> ob)"

definition native_result :: "(js \<Rightarrow> string) \<Rightarrow> NativeManagedTool \<Rightarrow> tool_answer \<Rightarrow> (string, tool_content) result" where
  "native_result stringify name a =
    (let details = result_object a in
     if name = ViewImage
     then (case imageContent (get_prop details ''image_url'') of
         None \<Rightarrow> Inl ''Native image result is invalid'' | Some i \<Rightarrow> Inr (ImageResult i))
     else Inr (TextContent (modelVisibleNativeToolResult stringify (ans_status a) details (streamed_output (ans_events a)))))"

definition image_result :: "tool_answer \<Rightarrow> (string, tool_content) result" where
  "image_result a = (case imageContent (get_prop (result_object a) ''image_url'') of
     None \<Rightarrow> Inl ''Native image generation result is invalid'' | Some i \<Rightarrow> Inr (ImageResult i))"

definition web_result :: "tool_answer \<Rightarrow> tool_content" where
  "web_result a = TextContent (case get_prop (result_object a) ''output'' of JStr s \<Rightarrow> s | _ \<Rightarrow> '''')"

section \<open>Handlers\<close>

definition INACTIVE_TOOLS :: string where
  "INACTIVE_TOOLS = ''Codex tools are inactive for the selected provider and API''"

text \<open>
  The handlers, over the results of the load and the execution; \<open>executed\<close> is called at most once, with the
  parameters that are sent.
\<close>

definition native_execute ::
  "(js \<Rightarrow> string) \<Rightarrow> ('s, 'x) service \<Rightarrow> ProviderActivationModel option \<Rightarrow> string option \<Rightarrow> (string, CodexConfig) result \<Rightarrow>
    (js_object \<Rightarrow> (string, tool_answer) result) \<Rightarrow> NativeManagedTool \<Rightarrow> js \<Rightarrow> string \<Rightarrow> (string, tool_content) result" where
  "native_execute stringify activation model model_id loaded executed name params cwd =
    res_bind (assertProviderActive model activation INACTIVE_TOOLS) (\<lambda>_.
    res_bind loaded (\<lambda>config.
    res_bind (case model_id of None \<Rightarrow> Inl ''Codex tool model is unavailable'' | Some m \<Rightarrow> Inr m) (\<lambda>m.
    res_bind (executed (executeTool_params (native_request name params config m cwd) None)) (native_result stringify name))))"

definition image_execute ::
  "(string, CodexConfig) result \<Rightarrow> (string, js) result \<Rightarrow> (js_object \<Rightarrow> (string, tool_answer) result) \<Rightarrow> js \<Rightarrow> js list \<Rightarrow> string \<Rightarrow>
    (string, tool_content) result" where
  "image_execute loaded connection executed params branch cwd =
    res_bind loaded (\<lambda>config.
    res_bind connection (\<lambda>c.
    res_bind (executed (executeTool_params (image_request params branch config cwd) (Some c))) image_result))"

definition web_execute ::
  "(string, CodexConfig) result \<Rightarrow> (string, js) result \<Rightarrow> (string, js list) result \<Rightarrow> (js_object \<Rightarrow> (string, tool_answer) result) \<Rightarrow>
    js \<Rightarrow> string option \<Rightarrow> string \<Rightarrow> string \<Rightarrow> (string, tool_content) result" where
  "web_execute loaded connection items executed params model sessionId cwd =
    res_bind loaded (\<lambda>config.
    res_bind connection (\<lambda>c.
    res_bind items (\<lambda>is.
    res_bind (executed (executeTool_params (web_request params is model sessionId config cwd) (Some c))) (\<lambda>a. Inr (web_result a)))))"

text \<open>The messages of the session branch, whose items go with a web search.\<close>

definition branch_messages :: "js list \<Rightarrow> js list" where
  "branch_messages branch = List.map_filter (\<lambda>entry. case as_record entry of
     None \<Rightarrow> None | Some v \<Rightarrow> if get_prop v ''type'' = JStr ''message'' then Some (get_prop v ''message'') else None) branch"

definition plan_execute ::
  "('s, 'x) service \<Rightarrow> ProviderActivationModel option \<Rightarrow> js \<Rightarrow> js list \<Rightarrow> string \<Rightarrow> string list option \<Rightarrow>
    (string + PlanError, string) result \<times> string list option" where
  "plan_execute activation model params log_entries prompt widget =
    (case assertProviderActive model activation INACTIVE_TOOLS of
       Inl e \<Rightarrow> (Inl (Inl e), widget)
     | Inr _ \<Rightarrow> (case update_plan (\<lambda>u _. (Inr (), Some (renderPlan u))) params (detectPlanMode log_entries prompt) widget of
         (Inl e, w) \<Rightarrow> (Inl (Inr e), w) | (Inr t, w) \<Rightarrow> (Inr t, w)))"

section \<open>The skills section\<close>

definition replace_all_char :: "char \<Rightarrow> string \<Rightarrow> string \<Rightarrow> string" where
  "replace_all_char c r s = concat (map (\<lambda>x. if x = c then r else [x]) s)"

definition escapeXml :: "string \<Rightarrow> string" where
  "escapeXml s = replace_all_char (CHR 0x27) ''&apos;'' (replace_all_char (CHR 0x22) ''&quot;'' (replace_all_char (CHR ''>'') ''&gt;''
     (replace_all_char (CHR ''<'') ''&lt;'' (replace_all_char (CHR ''&'') ''&amp;'' s))))"

record Skill =
  skill_name :: string
  skill_description :: string
  skill_filePath :: string
  skill_disableModelInvocation :: bool

definition skill_lines :: "Skill \<Rightarrow> string list" where
  "skill_lines s = [''  <skill>'', ''    <name>'' @ escapeXml (skill_name s) @ ''</name>'',
     ''    <description>'' @ escapeXml (skill_description s) @ ''</description>'',
     ''    <location>'' @ escapeXml (skill_filePath s) @ ''</location>'', ''  </skill>'']"

definition codexSkillsPrompt :: "Skill list option \<Rightarrow> string option \<Rightarrow> string \<Rightarrow> string" where
  "codexSkillsPrompt skills loader existing =
    (case loader of
       None \<Rightarrow> ''''
     | Some l \<Rightarrow>
        if str_includes existing ''<available_skills>'' then ''''
        else (let visible = filter (\<lambda>s. \<not> skill_disableModelInvocation s) (case skills of None \<Rightarrow> [] | Some ss \<Rightarrow> ss) in
          if visible = [] then ''''
          else join_with (CHR 0x0A) ([[], [], ''The following skills provide specialized instructions for specific tasks.'',
            ''Use '' @ l @ '' to load a matching skill file when the task matches its description.'',
            ''When a skill file references a relative path, resolve it against the skill directory.'', [], ''<available_skills>''] @
            concat (map skill_lines visible) @ [''</available_skills>''])))"

text \<open>The hook before an agent starts: the prompt is extended only for a healthy profile.\<close>

definition before_agent_start :: "bool \<Rightarrow> Skill list option \<Rightarrow> string option \<Rightarrow> string \<Rightarrow> string option" where
  "before_agent_start healthy skills loader prompt =
    (if \<not> healthy then None
     else (let added = codexSkillsPrompt skills loader prompt in if added = '''' then None else Some (prompt @ added)))"

section \<open>Arguments of the model and settings of the host\<close>

lemma picked_get:
  "get_prop (pickString source k @ r) k' = (if k' = k \<and> as_string (get_prop source k) \<noteq> None then get_prop source k else get_prop r k')"
  "get_prop (pickBoolean source k @ r) k' = (if k' = k \<and> (\<exists>b. get_prop source k = JBool b) then get_prop source k else get_prop r k')"
  "get_prop (pickNumber source k @ r) k' =
     (if k' = k \<and> (\<exists>n. get_prop source k = JNum n \<and> isFinite n) then get_prop source k else get_prop r k')"
  by (auto simp: pickString_def pickBoolean_def pickNumber_def as_string_def split: js.split)

lemma picked_keys:
  "(a, v) \<in> set (pickString source k) \<Longrightarrow> a = k" "(a, v) \<in> set (pickBoolean source k) \<Longrightarrow> a = k"
  "(a, v) \<in> set (pickNumber source k) \<Longrightarrow> a = k"
  by (auto simp: pickString_def pickBoolean_def pickNumber_def split: js.splits if_split_asm)

text \<open>The arguments a native tool takes from the model.\<close>

fun native_argument_keys :: "NativeManagedTool \<Rightarrow> string list" where
  "native_argument_keys ExecCommand = [''cmd'', ''shell'', ''login'', ''max_output_tokens'', ''tty'', ''yield_time_ms'']"
| "native_argument_keys ShellCommandTool = [''command'', ''login'', ''timeout_ms'', ''max_output_tokens'']"
| "native_argument_keys WriteStdin = [''session_id'', ''chars'', ''yield_time_ms'', ''max_output_tokens'']"
| "native_argument_keys ApplyPatch = [''input'']"
| "native_argument_keys ViewImage = [''path'', ''detail'']"

lemma keys_append [simp]: "keys_of (a @ b) = keys_of a @ keys_of b"
  by (simp add: keys_of_def)

lemma native_arguments_keys:
  "set (keys_of (buildNativeToolArguments name params b m)) \<subseteq>
     {''model'', ''allow_background_sessions''} \<union> set (native_argument_keys name)"
  by (cases name) (auto simp: Let_def keys_of_def dest!: picked_keys)

lemma native_arguments_host:
  "get_prop (buildNativeToolArguments name params b m) ''model'' = JStr m"
  "get_prop (buildNativeToolArguments name params b m) ''allow_background_sessions'' = (if name = ExecCommand then JBool b else JUndef)"
  by (cases name; simp add: Let_def picked_get picked_get(1) [where r = "[]", simplified] picked_get(3) [where r = "[]", simplified])+

lemma native_arguments_model:
  "k \<in> set (native_argument_keys name) \<Longrightarrow>
     get_prop (buildNativeToolArguments name params b m) k = JUndef \<or>
     get_prop (buildNativeToolArguments name params b m) k = get_prop (params_object params) k"
  by (cases name; auto simp: Let_def picked_get picked_get(1) [where r = "[]", simplified] picked_get(3) [where r = "[]", simplified])

lemma native_keys_copied:
  "set (native_argument_keys name) \<subseteq> set TOOL_EXECUTE_ARGUMENT_KEYS"
  "''model'' \<in> set TOOL_EXECUTE_ARGUMENT_KEYS" "''allow_background_sessions'' \<in> set TOOL_EXECUTE_ARGUMENT_KEYS"
  by (cases name; simp add: TOOL_EXECUTE_ARGUMENT_KEYS_def)+

lemma host_params_keys:
  "k \<in> set TOOL_EXECUTE_ARGUMENT_KEYS \<Longrightarrow> get_prop (host_params inp) k = JUndef"
  "set (keys_of (host_params inp)) = {''tool'', ''workdir'', ''workspaceRoots'', ''approvalPolicy'', ''filesystemAccessPolicy''}"
  using host_keys_disjoint by (auto simp: host_params_def keys_of_def intro!: get_prop_undef)

lemma sent_get:
  "get_prop (executeTool_params inp None) k =
    (if k \<in> set TOOL_EXECUTE_ARGUMENT_KEYS then get_prop (te_arguments inp) k else get_prop (host_params inp) k)"
  using hasOwn_get [of "te_arguments inp" k]
  by (cases "get_prop (te_arguments inp) k = JUndef")
     (auto simp: executeTool_params_def buildToolsExecuteParams_def copy_arguments_get host_params_keys(1))


section \<open>Conversation images\<close>

definition entry_images :: "js \<Rightarrow> string list" where
  "entry_images e = (case message_content e of None \<Rightarrow> [] | Some content \<Rightarrow> List.map_filter content_image_url content)"

lemma map_filter_rev: "List.map_filter f (rev xs) = rev (List.map_filter f xs)"
  by (simp add: List.map_filter_def rev_map rev_filter)

lemma num_eq_nat [simp]: "num_eq (Fin (of_nat a)) (Fin (of_nat b)) \<longleftrightarrow> a = b"
  by (simp add: num_eq_def)

lemma collect_content_eq:
  "length images < n \<Longrightarrow> collect_content (Fin (of_nat n)) cs images = images @ take (n - length images) (List.map_filter content_image_url cs)"
proof (induction cs arbitrary: images)
  case (Cons c cs)
  show ?case
  proof (cases "content_image_url c")
    case (Some u)
    have "n - length images = Suc (n - Suc (length images))" using Cons.prems by simp
    moreover have "num_eq (Fin (of_nat (length images + 1))) (Fin (of_nat n)) \<longleftrightarrow> Suc (length images) = n"
      using num_eq_nat [of "length images + 1" n] by simp
    ultimately show ?thesis using Some Cons.IH [of "images @ [u]"] Cons.prems
      by (auto simp: List.map_filter_simps)
  qed (simp add: List.map_filter_simps Cons)
qed (simp add: List.map_filter_simps)

lemma collect_branch_eq:
  "length images \<le> n \<Longrightarrow> collect_branch (Fin (of_nat n)) es images =
     images @ take (n - length images) (concat (map (\<lambda>e. rev (entry_images e)) es))"
proof (induction es arbitrary: images)
  case (Cons e es)
  show ?case
  proof (cases "length images < n")
    case True
    have grown: "length (images @ take (n - length images) xs) \<le> n" for xs :: "string list" using True by simp
    show ?thesis
    proof (cases "message_content e")
      case None
      with True Cons show ?thesis by (simp add: entry_images_def)
    next
      case (Some content)
      have eq: "n - (a + min l (n - a)) = n - (a + l)" for a l by (simp add: min_def)
      from Some True Cons.IH [OF grown] show ?thesis
        by (simp add: collect_content_eq entry_images_def map_filter_rev eq)
    qed
  qed (use Cons.prems in simp)
qed simp

text \<open>
  the images attached to an image generation are exactly the last ones of the conversation: for a whole number \<open>n\<close>, the
  nested loops with their early exits return the last \<open>n\<close> images of the branch, or all of them if there are fewer,
  in the order of the conversation.
\<close>

theorem recent_images_exact:
  "recentConversationImageUrls branch (Fin (of_nat n)) =
     (let all = concat (map entry_images branch) in drop (length all - n) all)"
proof -
  have "concat (map (\<lambda>e. rev (entry_images e)) (rev branch)) = rev (concat (map entry_images branch))"
    by (simp add: rev_concat rev_map comp_def)
  then show ?thesis
    by (simp add: recentConversationImageUrls_def collect_branch_eq Let_def rev_take)
qed

section \<open>Encodings\<close>

lemma split_plain: "d \<notin> set s \<Longrightarrow> split_on d s = [s]"
  by (induction s) auto

lemma split_at: "d \<notin> set s \<Longrightarrow> split_on d (s @ d # t) = s # split_on d t"
  by (induction s) auto

text \<open>
  image content round trips: the data URL that is built for an image part of the conversation is read back by the same
  code to its media type and its data, for any media type without a comma or a semicolon.
\<close>

theorem image_url_roundtrip:
  assumes "CHR '','' \<notin> set m" and "CHR '';'' \<notin> set m"
    and "c = JObj [(''type'', JStr ''image''), (''data'', JStr d), (''mimeType'', JStr m)]"
  shows "\<exists>u. content_image_url c = Some u \<and> imageContent (JStr u) = Some \<lparr>img_mimeType = m, img_data = d\<rparr>"
proof -
  let ?h = "''data:'' @ m @ '';base64''"
  define u where "u = ?h @ CHR '','' # d"
  have c: "content_image_url c = Some u" using assms(3) by (simp add: content_image_url_def u_def)
  have "takeWhile (\<lambda>x. x \<noteq> CHR '','') u = ?h" unfolding u_def using assms(1) by (subst takeWhile_append2) auto
  then have sep: "length (takeWhile (\<lambda>x. x \<noteq> CHR '','') u) = length ?h" by (rule arg_cong)
  have parts: "starts_with u ''data:''" "CHR '','' \<in> set u" "take (length ?h) u = ?h" "drop (length ?h + 1) u = d"
    by (simp_all add: u_def)
  have "split_on (CHR '';'') (m @ CHR '';'' # ''base64'') = [m, ''base64'']"
    using assms(2) by (simp add: split_at split_plain)
  then have "split_on (CHR '';'') (drop 5 ?h) = [m, ''base64'']" by simp
  with parts have "imageContent (JStr u) = Some \<lparr>img_mimeType = m, img_data = d\<rparr>"
    unfolding imageContent_def js.case Let_def sep by (simp only: list.case if_True if_False simp_thms)
  with c show ?thesis by blast
qed

theorem image_url_roundtrip_witness:
  "\<exists>u. content_image_url (JObj [(''type'', JStr ''image''), (''data'', JStr ''AA''), (''mimeType'', JStr ''image/png'')]) = Some u \<and>
     imageContent (JStr u) = Some \<lparr>img_mimeType = ''image/png'', img_data = ''AA''\<rparr>"
  by (rule image_url_roundtrip) simp_all

section \<open>Skill texts\<close>

definition escape_char :: "char \<Rightarrow> string" where
  "escape_char c = (if c = CHR ''&'' then ''&amp;'' else if c = CHR ''<'' then ''&lt;'' else if c = CHR ''>'' then ''&gt;''
     else if c = CHR 0x22 then ''&quot;'' else if c = CHR 0x27 then ''&apos;'' else [c])"

lemma replace_all_char_append [simp]: "replace_all_char c r (a @ b) = replace_all_char c r a @ replace_all_char c r b"
  by (simp add: replace_all_char_def)

lemma escape_append: "escapeXml (a @ b) = escapeXml a @ escapeXml b"
  by (simp add: escapeXml_def)

lemma escape_single: "escapeXml [c] = escape_char c"
  by (simp add: escapeXml_def escape_char_def replace_all_char_def)

text \<open>The five replacements one after the other are one pass over the characters.\<close>

lemma escape_one_pass: "escapeXml s = concat (map escape_char s)"
proof (induction s)
  case (Cons c s)
  then show ?case using escape_append [of "[c]" s] by (simp add: escape_single)
qed (simp add: escapeXml_def replace_all_char_def)

fun unescapeXml :: "string \<Rightarrow> string" where
  "unescapeXml [] = []"
| "unescapeXml (c # s) =
    (if c \<noteq> CHR ''&'' then c # unescapeXml s
     else if starts_with s ''amp;'' then CHR ''&'' # unescapeXml (drop 4 s)
     else if starts_with s ''lt;'' then CHR ''<'' # unescapeXml (drop 3 s)
     else if starts_with s ''gt;'' then CHR ''>'' # unescapeXml (drop 3 s)
     else if starts_with s ''quot;'' then CHR 0x22 # unescapeXml (drop 5 s)
     else if starts_with s ''apos;'' then CHR 0x27 # unescapeXml (drop 5 s)
     else c # unescapeXml s)"

lemma unescape_escaped: "unescapeXml (escape_char c @ s) = c # unescapeXml s"
  by (simp add: escape_char_def)

lemma escaped_plain: "set (escape_char c) \<inter> {CHR ''<'', CHR ''>'', CHR 0x22, CHR 0x27} = {}"
  by (simp add: escape_char_def)

text \<open>
  skill texts cannot break out of the skills section: an escaped text has none of the characters that open or close a
  tag or an attribute, and it is read back to the original text, entities of the original included.
\<close>

theorem skill_text_roundtrip:
  "unescapeXml (escapeXml s) = s \<and> set (escapeXml s) \<inter> {CHR ''<'', CHR ''>'', CHR 0x22, CHR 0x27} = {}"
proof
  show "unescapeXml (escapeXml s) = s"
    by (induction s) (simp_all add: escape_one_pass unescape_escaped del: unescapeXml.simps(2))
  have "set (escapeXml s) = (\<Union>c\<in>set s. set (escape_char c))" by (simp add: escape_one_pass)
  then show "set (escapeXml s) \<inter> {CHR ''<'', CHR ''>'', CHR 0x22, CHR 0x27} = {}" using escaped_plain by blast
qed

text \<open>Hence the tags of the section are those of its frame: eight for a visible skill, whatever its texts.\<close>

definition opening_brackets :: "string \<Rightarrow> nat" where
  "opening_brackets s = length (filter (\<lambda>c. c = CHR ''<'') s)"

lemma opening_append [simp]: "opening_brackets (a @ b) = opening_brackets a + opening_brackets b"
  by (simp add: opening_brackets_def)

lemma opening_escaped: "opening_brackets (escapeXml s) = 0"
proof -
  have "CHR ''<'' \<notin> set (escapeXml s)" using escaped_plain by (fastforce simp: escape_one_pass)
  then show ?thesis by (auto simp: opening_brackets_def filter_empty_conv)
qed

lemma skill_brackets: "sum_list (map opening_brackets (skill_lines s)) = 8"
  using opening_escaped unfolding opening_brackets_def by (simp add: skill_lines_def)

end
