(* ===== verification/Bridge_Binary.thy ===== *)
theory Bridge_Binary
  imports Bridge_Client
begin

text \<open>
  Locating and verifying the packaged bridge: \<open>src/src/infrastructure/codex-bridge/binary.ts\<close>.

  The environment record holds what the platform gives: the path resolution of \<open>node:path\<close>, which differs
  between systems (\<open>posix_resolve\<close> models the one of POSIX systems), reading a file as text
  (\<open>None\<close> when it cannot be read), \<open>JSON.parse\<close> (\<open>None\<close> when it throws), the chunks that a read stream
  delivers with the way it ends, SHA-256 as a function of the hashed bytes, and the platform and architecture
  of the process. A file is read once for its manifest and once for its digest. The lemmas show that
  verification fails closed, that the digest does not depend on how the file is cut into chunks, and, with
  the model of the client, that a bridge that serves a request is the packaged one.
\<close>

section \<open>Paths\<close>

text \<open>\<open>resolve\<close> of \<open>node:path\<close> on POSIX systems: the last absolute argument starts the path.\<close>

fun split_segments :: "string \<Rightarrow> string \<Rightarrow> string list" where
  "split_segments acc [] = [acc]"
| "split_segments acc (c # s) = (if c = CHR ''/'' then acc # split_segments [] s else split_segments (acc @ [c]) s)"

fun push_segment :: "string \<Rightarrow> string list \<Rightarrow> string list" where
  "push_segment s stack = (if s = [] \<or> s = ''.'' then stack else if s = ''..'' then butlast stack else stack @ [s])"

definition path_of :: "string list \<Rightarrow> string" where
  "path_of segs = concat (map (\<lambda>s. CHR ''/'' # s) segs)"

fun joined_path :: "string \<Rightarrow> string list \<Rightarrow> string \<Rightarrow> string" where
  "joined_path cwd [] acc = cwd @ ''/'' @ acc"
| "joined_path cwd (p # ps) acc =
    (if p = [] then joined_path cwd ps acc
     else if starts_with p ''/'' then p @ ''/'' @ acc
     else joined_path cwd ps (p @ ''/'' @ acc))"

definition posix_resolve :: "string \<Rightarrow> string list \<Rightarrow> string" where
  "posix_resolve cwd parts =
    (let segs = fold push_segment (split_segments [] (joined_path cwd (rev parts) [])) []
     in if segs = [] then ''/'' else path_of segs)"

section \<open>Types\<close>

datatype loader_code = UnsupportedTarget | MissingArtifact | InvalidArtifact | ArtifactTampered | DevelopmentOverrideRequired

record NativeArtifactManifest =
  nm_target :: string
  nm_executable :: string
  nm_executableSize :: jsnum
  nm_executableSha256 :: string
  nm_projectSourceCommit :: string

record ConnectBundledBridgeOptions =
  cb_packageRoot :: string
  cb_allowDevelopmentBuild :: "bool option"
  cb_expectedBuildSourceCommit :: "string option"
  cb_platform :: "string option"
  cb_architecture :: "string option"
  cb_executable :: "string option"
  cb_buildTarget :: "string option"

record binary_env =
  be_resolve :: "string list \<Rightarrow> string"
  be_read :: "string \<Rightarrow> string option"
  be_parse :: "string \<Rightarrow> js option"
  be_stream :: "string \<Rightarrow> bytes list \<times> bool"
  be_sha256 :: "bytes \<Rightarrow> string"
  be_platform :: string
  be_arch :: string

section \<open>Locating\<close>

definition resolveNativeTarget :: "string \<Rightarrow> string \<Rightarrow> (loader_code, string) result" where
  "resolveNativeTarget platform architecture =
    (case nativeTargetFor platform architecture of None \<Rightarrow> Inl UnsupportedTarget | Some t \<Rightarrow> Inr t)"

definition expectedExecutableName :: "string \<Rightarrow> string" where
  "expectedExecutableName target =
    (if target = ''x86_64-pc-windows-msvc'' then ''codex-bridge.exe'' else ''codex-bridge'')"

definition resolveBridgeExecutable :: "binary_env \<Rightarrow> string \<Rightarrow> string \<Rightarrow> string" where
  "resolveBridgeExecutable env packageRoot target =
    be_resolve env [packageRoot, ''native'', ''bin'', target, expectedExecutableName target]"

definition resolveBridgeArtifactManifest :: "binary_env \<Rightarrow> string \<Rightarrow> string \<Rightarrow> string" where
  "resolveBridgeArtifactManifest env packageRoot target =
    be_resolve env [packageRoot, ''native'', ''bin'', target, ''native-artifact.json'']"

section \<open>Verifying\<close>

definition parseNativeArtifactManifest :: "js \<Rightarrow> string \<Rightarrow> (loader_code, NativeArtifactManifest) result" where
  "parseNativeArtifactManifest v expectedTarget =
    (case as_record v of None \<Rightarrow> Inl InvalidArtifact
     | Some ob \<Rightarrow>
       (case (get_prop ob ''executableSize'', get_prop ob ''executableSha256'', get_prop ob ''projectSourceCommit'') of
          (JNum n, JStr sha, JStr commit) \<Rightarrow>
            if get_prop ob ''schemaVersion'' \<noteq> jint 1 \<or> get_prop ob ''target'' \<noteq> JStr expectedTarget \<or>
               get_prop ob ''executable'' \<noteq> JStr (expectedExecutableName expectedTarget) \<or>
               \<not> isInteger n \<or> num_less n (Fin 1) \<or> \<not> hex_string 64 sha \<or> \<not> hex_string 40 commit \<or>
               get_prop ob ''bridgeProtocolVersion'' \<noteq> BRIDGE_PROTOCOL_VERSION \<or>
               get_prop ob ''officialCodexVersion'' \<noteq> JStr OFFICIAL_CODEX_VERSION \<or>
               get_prop ob ''officialCodexTag'' \<noteq> JStr OFFICIAL_CODEX_TAG \<or>
               get_prop ob ''officialSourceCommit'' \<noteq> JStr OFFICIAL_SOURCE_COMMIT \<or>
               get_prop ob ''vendorTreeSha256'' \<noteq> JStr VENDOR_TREE_SHA256
            then Inl InvalidArtifact
            else Inr \<lparr>nm_target = expectedTarget, nm_executable = expectedExecutableName expectedTarget,
              nm_executableSize = n, nm_executableSha256 = sha, nm_projectSourceCommit = commit\<rparr>
        | _ \<Rightarrow> Inl InvalidArtifact))"

text \<open>The loop over the stream: a size counter and the bytes given to the hash so far.\<close>

definition hash_chunk :: "bytes \<Rightarrow> nat \<times> bytes \<Rightarrow> nat \<times> bytes" where
  "hash_chunk chunk st = (fst st + length chunk, snd st @ chunk)"

definition hashFileSha256 :: "binary_env \<Rightarrow> string \<Rightarrow> (nat \<times> string) option" where
  "hashFileSha256 env path =
    (case be_stream env path of (cs, ended) \<Rightarrow>
       if ended then (let st = fold hash_chunk cs (0, []) in Some (fst st, be_sha256 env (snd st))) else None)"

definition verifyPackagedBridgeArtifact ::
  "binary_env \<Rightarrow> string \<Rightarrow> string \<Rightarrow> (loader_code, string \<times> NativeArtifactManifest) result" where
  "verifyPackagedBridgeArtifact env packageRoot target =
    (case be_read env (resolveBridgeArtifactManifest env packageRoot target) of
       None \<Rightarrow> Inl MissingArtifact
     | Some raw \<Rightarrow>
       (case be_parse env raw of
          None \<Rightarrow> Inl InvalidArtifact
        | Some parsed \<Rightarrow>
          res_bind (parseNativeArtifactManifest parsed target) (\<lambda>manifest.
            let executablePath = be_resolve env [packageRoot, ''native'', ''bin'', target, nm_executable manifest] in
            (case hashFileSha256 env executablePath of
               None \<Rightarrow> Inl MissingArtifact
             | Some digest \<Rightarrow>
               if \<not> num_eq (Fin (of_nat (fst digest))) (nm_executableSize manifest) \<or>
                  snd digest \<noteq> nm_executableSha256 manifest
               then Inl ArtifactTampered
               else Inr (executablePath, manifest)))))"

section \<open>Launching\<close>

record bridge_launch =
  bl_executable :: string
  bl_expectedBuildSourceCommit :: "string option"

definition resolveBundledBridgeLaunch ::
  "binary_env \<Rightarrow> ConnectBundledBridgeOptions \<Rightarrow> string \<Rightarrow> (loader_code, bridge_launch) result" where
  "resolveBundledBridgeLaunch env options target =
    (case cb_executable options of
       Some e \<Rightarrow>
         if cb_allowDevelopmentBuild options \<noteq> Some True then Inl DevelopmentOverrideRequired
         else Inr \<lparr>bl_executable = e, bl_expectedBuildSourceCommit = cb_expectedBuildSourceCommit options\<rparr>
     | None \<Rightarrow>
         res_bind (verifyPackagedBridgeArtifact env (cb_packageRoot options) target) (\<lambda>verified.
           Inr \<lparr>bl_executable = fst verified,
             bl_expectedBuildSourceCommit = Some (nm_projectSourceCommit (snd verified))\<rparr>))"

definition launch_target :: "binary_env \<Rightarrow> ConnectBundledBridgeOptions \<Rightarrow> (loader_code, string) result" where
  "launch_target env options =
    (case cb_buildTarget options of
       Some t \<Rightarrow> Inr t
     | None \<Rightarrow> resolveNativeTarget (case cb_platform options of None \<Rightarrow> be_platform env | Some p \<Rightarrow> p)
         (case cb_architecture options of None \<Rightarrow> be_arch env | Some a \<Rightarrow> a))"

text \<open>
  What is handed to the client: the executable that is started as its transport, and its environment with
  the target and the options of the handshake. \<open>allowDevelopmentBuild\<close> is read by the handshake as
  \<open>=== true\<close> would be: an absent option is no permission.
\<close>

definition connectBundledBridge ::
  "binary_env \<Rightarrow> (bytes \<Rightarrow> (protocol_code, js) result) \<Rightarrow> (ClientMessage \<Rightarrow> bool) \<Rightarrow> ConnectBundledBridgeOptions \<Rightarrow>
     (loader_code, string \<times> client_env) result" where
  "connectBundledBridge env decode encodes options =
    res_bind (launch_target env options) (\<lambda>target.
    res_bind (resolveBundledBridgeLaunch env options target) (\<lambda>resolved.
      Inr (bl_executable resolved,
        \<lparr>env_decode = decode, env_encodes = encodes, env_target = target,
         env_options = \<lparr>allowDevelopmentBuild = (cb_allowDevelopmentBuild options = Some True),
           expectedBuildSourceCommit = bl_expectedBuildSourceCommit resolved\<rparr>\<rparr>)))"

section \<open>Lemmas\<close>

lemma hash_chunks: "fold hash_chunk cs (n, bs) = (n + length (concat cs), bs @ concat cs)"
  by (induction cs arbitrary: n bs) (auto simp: hash_chunk_def)

text \<open>The digest of a file does not depend on how the stream cuts it into chunks.\<close>

lemma digest_chunk_invariant:
  "hashFileSha256 env path = (case be_stream env path of (cs, ended) \<Rightarrow>
     if ended then Some (length (concat cs), be_sha256 env (concat cs)) else None)"
  unfolding hashFileSha256_def hash_chunks by (simp split: prod.splits)

text \<open>The fields of an object that is accepted as the manifest for a target.\<close>

definition manifest_for :: "string \<Rightarrow> NativeArtifactManifest \<Rightarrow> js_object \<Rightarrow> bool" where
  "manifest_for target m ob \<longleftrightarrow>
     get_prop ob ''schemaVersion'' = jint 1 \<and> get_prop ob ''target'' = JStr target \<and>
     get_prop ob ''executable'' = JStr (expectedExecutableName target) \<and>
     get_prop ob ''executableSize'' = JNum (nm_executableSize m) \<and>
     get_prop ob ''executableSha256'' = JStr (nm_executableSha256 m) \<and>
     get_prop ob ''projectSourceCommit'' = JStr (nm_projectSourceCommit m) \<and>
     isInteger (nm_executableSize m) \<and> \<not> num_less (nm_executableSize m) (Fin 1) \<and>
     hex_string 64 (nm_executableSha256 m) \<and> hex_string 40 (nm_projectSourceCommit m) \<and>
     get_prop ob ''bridgeProtocolVersion'' = BRIDGE_PROTOCOL_VERSION \<and>
     get_prop ob ''officialCodexVersion'' = JStr OFFICIAL_CODEX_VERSION \<and>
     get_prop ob ''officialCodexTag'' = JStr OFFICIAL_CODEX_TAG \<and>
     get_prop ob ''officialSourceCommit'' = JStr OFFICIAL_SOURCE_COMMIT \<and>
     get_prop ob ''vendorTreeSha256'' = JStr VENDOR_TREE_SHA256 \<and>
     nm_target m = target \<and> nm_executable m = expectedExecutableName target"

lemma parse_manifest_iff:
  "parseNativeArtifactManifest v target = Inr m \<longleftrightarrow> (\<exists>ob. v = JObj ob \<and> manifest_for target m ob)"
proof (cases v)
  case (JObj ob)
  show ?thesis
    unfolding JObj parseNativeArtifactManifest_def manifest_for_def
    by (cases m; cases "get_prop ob ''executableSize''"; cases "get_prop ob ''executableSha256''";
        cases "get_prop ob ''projectSourceCommit''") auto
qed (simp_all add: parseNativeArtifactManifest_def as_record_def)

text \<open>What verification establishes about the disk.\<close>

definition artifact_ok :: "binary_env \<Rightarrow> string \<Rightarrow> string \<Rightarrow> string \<Rightarrow> NativeArtifactManifest \<Rightarrow> bool" where
  "artifact_ok env packageRoot target path m \<longleftrightarrow>
     (\<exists>raw ob cs. be_read env (resolveBridgeArtifactManifest env packageRoot target) = Some raw \<and>
        be_parse env raw = Some (JObj ob) \<and> manifest_for target m ob \<and>
        path = resolveBridgeExecutable env packageRoot target \<and> be_stream env path = (cs, True) \<and>
        nm_executableSize m = Fin (of_nat (length (concat cs))) \<and>
        nm_executableSha256 m = be_sha256 env (concat cs))"

lemma manifest_executable: "manifest_for target m ob \<Longrightarrow> nm_executable m = expectedExecutableName target"
  by (simp add: manifest_for_def)

lemma compare_digest_iff:
  "(case hashFileSha256 env q of None \<Rightarrow> Inl MissingArtifact
    | Some digest \<Rightarrow>
      if \<not> num_eq (Fin (of_nat (fst digest))) (nm_executableSize m') \<or> snd digest \<noteq> nm_executableSha256 m'
      then Inl ArtifactTampered else Inr (q, m')) = Inr (path, m) \<longleftrightarrow>
   q = path \<and> m' = m \<and> (\<exists>cs. be_stream env path = (cs, True) \<and>
     nm_executableSize m = Fin (of_nat (length (concat cs))) \<and> nm_executableSha256 m = be_sha256 env (concat cs))"
  by (cases "be_stream env q") (auto simp: digest_chunk_invariant num_eq_def)

lemma verified_artifact_iff:
  "verifyPackagedBridgeArtifact env packageRoot target = Inr (path, m) \<longleftrightarrow> artifact_ok env packageRoot target path m"
  unfolding verifyPackagedBridgeArtifact_def artifact_ok_def resolveBridgeExecutable_def Let_def
  by (cases "be_read env (resolveBridgeArtifactManifest env packageRoot target)";
      cases "Option.bind (be_read env (resolveBridgeArtifactManifest env packageRoot target)) (be_parse env)")
     (auto simp: parse_manifest_iff compare_digest_iff manifest_executable split: option.splits)

text \<open>A launch uses a verified artifact, or an override that the options allow.\<close>

lemma launch_iff:
  "resolveBundledBridgeLaunch env options target = Inr l \<longleftrightarrow>
     (case cb_executable options of
        Some e \<Rightarrow> cb_allowDevelopmentBuild options = Some True \<and>
          l = \<lparr>bl_executable = e, bl_expectedBuildSourceCommit = cb_expectedBuildSourceCommit options\<rparr>
      | None \<Rightarrow> (\<exists>path m. artifact_ok env (cb_packageRoot options) target path m \<and>
          l = \<lparr>bl_executable = path, bl_expectedBuildSourceCommit = Some (nm_projectSourceCommit m)\<rparr>))"
  by (auto simp: resolveBundledBridgeLaunch_def verified_artifact_iff split: option.splits)

lemma launch_target_supported:
  "launch_target env options = Inr target \<Longrightarrow> cb_buildTarget options = None \<Longrightarrow> target \<in> set SUPPORTED_NATIVE_TARGETS"
  by (auto simp: launch_target_def resolveNativeTarget_def nativeTargetFor_def targetByPlatform_def
      SUPPORTED_NATIVE_TARGETS_def split: option.splits if_splits)

section \<open>Paths of the package\<close>

definition plain_segment :: "string \<Rightarrow> bool" where
  "plain_segment s \<longleftrightarrow> s \<noteq> [] \<and> s \<noteq> ''.'' \<and> s \<noteq> ''..'' \<and> CHR ''/'' \<notin> set s"

lemma split_plain_segment: "CHR ''/'' \<notin> set s \<Longrightarrow> split_segments acc (s @ r) = split_segments (acc @ s) r"
  by (induction s arbitrary: acc) auto

lemma split_path:
  "list_all plain_segment segs \<Longrightarrow>
     split_segments acc (path_of segs @ CHR ''/'' # r) = acc # segs @ split_segments [] r"
  by (induction segs arbitrary: acc) (auto simp: path_of_def plain_segment_def split_plain_segment)

lemma push_plain: "list_all plain_segment segs \<Longrightarrow> fold push_segment segs stack = stack @ segs"
  by (induction segs arbitrary: stack) (auto simp: plain_segment_def)

lemma push_padded: "list_all plain_segment segs \<Longrightarrow> fold push_segment ([] # segs @ [[]]) [] = segs"
  by (simp add: push_plain)

text \<open>Below an absolute package root the arguments are appended one by one.\<close>

lemma posix_resolve_package:
  assumes "list_all plain_segment segs" and "segs \<noteq> []" and "list_all plain_segment [a, b, c, d]"
  shows "posix_resolve cwd [path_of segs, a, b, c, d] = path_of (segs @ [a, b, c, d])"
proof -
  have rel: "\<not> starts_with s ''/''" if "plain_segment s" for s
    using that by (cases s) (auto simp: plain_segment_def)
  have abs: "starts_with (path_of segs) ''/''" "path_of segs \<noteq> []"
    using assms(2) by (cases segs; simp add: path_of_def)+
  have "joined_path cwd (rev [path_of segs, a, b, c, d]) [] =
      path_of segs @ CHR ''/'' # a @ CHR ''/'' # b @ CHR ''/'' # c @ CHR ''/'' # d @ CHR ''/'' # []"
    using assms(3) abs by (simp add: rel plain_segment_def)
  moreover have "split_segments [] (a @ CHR ''/'' # b @ CHR ''/'' # c @ CHR ''/'' # d @ CHR ''/'' # []) = [a, b, c, d, []]"
    using assms(3) by (simp add: split_plain_segment plain_segment_def)
  ultimately have "split_segments [] (joined_path cwd (rev [path_of segs, a, b, c, d]) []) = [] # (segs @ [a, b, c, d]) @ [[]]"
    using split_path [OF assms(1)] by simp
  moreover have "fold push_segment ([] # (segs @ [a, b, c, d]) @ [[]]) [] = segs @ [a, b, c, d]"
    using assms by (intro push_padded) simp
  ultimately have "fold push_segment (split_segments [] (joined_path cwd (rev [path_of segs, a, b, c, d]) [])) [] = segs @ [a, b, c, d]"
    by (simp only:)
  then show ?thesis
    unfolding posix_resolve_def Let_def by simp
qed

text \<open>The executable of a supported target stays below the package root.\<close>

lemma executable_below_root:
  assumes "be_resolve env = posix_resolve cwd" and "list_all plain_segment segs" and "segs \<noteq> []"
    and "target \<in> set SUPPORTED_NATIVE_TARGETS"
  shows "resolveBridgeExecutable env (path_of segs) target =
    path_of segs @ ''/native/bin/'' @ target @ ''/'' @ expectedExecutableName target"
proof -
  have "list_all plain_segment [''native'', ''bin'', target, expectedExecutableName target]"
    using assms(4) by (auto simp: SUPPORTED_NATIVE_TARGETS_def expectedExecutableName_def plain_segment_def)
  from posix_resolve_package [OF assms(2,3) this] show ?thesis
    by (simp add: resolveBridgeExecutable_def assms(1) path_of_def)
qed

section \<open>The bridge that serves requests\<close>

lemma connected_client:
  assumes "connectBundledBridge env decode encodes options = Inr (path, cenv)" and "cb_executable options = None"
  obtains m where "artifact_ok env (cb_packageRoot options) (env_target cenv) path m"
    and "expectedBuildSourceCommit (env_options cenv) = Some (nm_projectSourceCommit m)"
  using assms by (auto simp: connectBundledBridge_def launch_iff)

lemma registered_peer:
  assumes "client_reachable cenv c" and "c_registered c \<noteq> []"
  obtains h where "c_peer c = Some h" and "verifyHandshake h (env_target cenv) (env_options cenv) = Inr ()"
  using reachable_peer [OF assms(1)] assms(2)
  by (auto simp: peer_inv_def quiet_def verified_def split: option.splits)

text \<open>
  C24: The bridge that serves a request is the packaged one. Suppose a connection was made without an explicit
  executable, and in some reachable state of its client a request was registered. Then the manifest of the
  package for the target was read, names this target and the pinned Codex identity, and its size and
  digest are those of the executable that was started; and the peer completed a handshake with the same
  target and exactly the source commit of that manifest.
\<close>

theorem served_by_packaged_bridge:
  assumes "connectBundledBridge env decode encodes options = Inr (path, cenv)" and "cb_executable options = None"
    and "client_reachable cenv c" and "c_registered c \<noteq> []"
  shows "\<exists>m h. artifact_ok env (cb_packageRoot options) (env_target cenv) path m \<and> c_peer c = Some h \<and>
    get_prop h ''buildSourceCommit'' = JStr (nm_projectSourceCommit m) \<and>
    get_prop h ''buildTarget'' = JStr (nm_target m) \<and> get_prop h ''vendorTreeSha256'' = JStr VENDOR_TREE_SHA256"
proof -
  obtain m where m: "artifact_ok env (cb_packageRoot options) (env_target cenv) path m"
      "expectedBuildSourceCommit (env_options cenv) = Some (nm_projectSourceCommit m)"
    using connected_client [OF assms(1,2)] .
  obtain h where h: "c_peer c = Some h" "verifyHandshake h (env_target cenv) (env_options cenv) = Inr ()"
    using registered_peer [OF assms(3,4)] .
  have "nm_target m = env_target cenv" using m(1) by (auto simp: artifact_ok_def manifest_for_def)
  with m h show ?thesis by (auto simp: handshake_accepted_iff)
qed

definition sample_manifest :: js_object where
  "sample_manifest =
    [(''schemaVersion'', jint 1), (''target'', JStr ''x86_64-unknown-linux-musl''), (''executable'', JStr ''codex-bridge''),
     (''executableSize'', jint 3), (''executableSha256'', JStr (replicate 64 (CHR ''0''))),
     (''projectSourceCommit'', JStr (replicate 40 (CHR ''a''))), (''bridgeProtocolVersion'', jint 8),
     (''officialCodexVersion'', JStr OFFICIAL_CODEX_VERSION), (''officialCodexTag'', JStr OFFICIAL_CODEX_TAG),
     (''officialSourceCommit'', JStr OFFICIAL_SOURCE_COMMIT), (''vendorTreeSha256'', JStr VENDOR_TREE_SHA256)]"

definition sample_binary :: binary_env where
  "sample_binary = \<lparr>be_resolve = posix_resolve ''/'', be_read = (\<lambda>_. Some ''manifest''),
     be_parse = (\<lambda>_. Some (JObj sample_manifest)), be_stream = (\<lambda>_. ([[1, 2], [3]], True)),
     be_sha256 = (\<lambda>_. replicate 64 (CHR ''0'')), be_platform = ''linux'', be_arch = ''x64''\<rparr>"

definition sample_options :: ConnectBundledBridgeOptions where
  "sample_options = \<lparr>cb_packageRoot = ''/opt/adaptor'', cb_allowDevelopmentBuild = None,
     cb_expectedBuildSourceCommit = None, cb_platform = None, cb_architecture = None, cb_executable = None,
     cb_buildTarget = None\<rparr>"

definition sample_peer :: js_object where
  "sample_peer =
    [(''bridgeProtocolVersion'', jint 8), (''officialCodexVersion'', JStr OFFICIAL_CODEX_VERSION),
     (''officialCodexTag'', JStr OFFICIAL_CODEX_TAG), (''officialSourceCommit'', JStr OFFICIAL_SOURCE_COMMIT),
     (''buildTarget'', JStr ''x86_64-unknown-linux-musl''), (''vendorTreeSha256'', JStr VENDOR_TREE_SHA256),
     (''maxFrameBytes'', jint 16777216), (''maxPendingEvents'', jint 256),
     (''buildSourceCommit'', JStr (replicate 40 (CHR ''a'')))]"

definition sample_decode :: "bytes \<Rightarrow> (protocol_code, js) result" where
  "sample_decode = (\<lambda>_. Inr (JObj [(''type'', JStr ''handshake''), (''requestId'', JStr ''i''),
     (''handshake'', JObj sample_peer)]))"

definition sample_client_env :: client_env where
  "sample_client_env = \<lparr>env_decode = sample_decode, env_encodes = (\<lambda>_. True),
     env_target = ''x86_64-unknown-linux-musl'',
     env_options = \<lparr>allowDevelopmentBuild = False, expectedBuildSourceCommit = Some (replicate 40 (CHR ''a''))\<rparr>\<rparr>"

definition sample_greeted :: client where
  "sample_greeted = initialize_continue (receive sample_client_env [10] (initialize sample_client_env ''i'' new_client))"

definition sample_served :: client where
  "sample_served = snd (request sample_client_env ''r'' ''models.resolve'' JNull False False sample_greeted)"

lemma sample_greeted_eq: "sample_greeted = new_client\<lparr>c_ready := True, c_sent := [CInitialize ''i''],
    c_peer := Some sample_peer\<rparr>"
proof -
  have v: "verifyHandshake sample_peer ''x86_64-unknown-linux-musl''
      \<lparr>allowDevelopmentBuild = False, expectedBuildSourceCommit = Some (replicate 40 (CHR ''a''))\<rparr> = Inr ()"
    by (simp add: handshake_accepted_iff sample_peer_def hex_string_def list_all_iff is_hex_digit_def)
  have m: "server_message (JObj [(''type'', JStr ''handshake''), (''requestId'', JStr ''i''),
      (''handshake'', JObj sample_peer)]) = Some (MsgHandshake ''i'' sample_peer)"
    by (simp add: server_message_def text_of_def object_of_def)
  show ?thesis
    by (simp add: sample_greeted_def initialize_def write_message_def receive_def push_def append_part_def
        route_value_def route_def routeHandshake_def initialize_continue_def new_client_def sample_client_env_def
        sample_decode_def m v Let_def new_decoder_def)
qed

lemma sample_served_reachable: "client_reachable sample_client_env sample_served"
proof -
  have "client_reachable sample_client_env sample_greeted"
    unfolding sample_greeted_def by (intro client_reachable.step [OF _ client_step.continue]
        client_reachable.step [OF _ client_step.receive] client_reachable.start)
  then show ?thesis
    unfolding sample_served_def
    by (intro client_reachable.step [OF _ client_step.request])
       (simp_all add: sample_greeted_eq connected_def fresh_id_def new_client_def)
qed

lemma sample_connection:
  "connectBundledBridge sample_binary sample_decode (\<lambda>_. True) sample_options =
     Inr (''/opt/adaptor/native/bin/x86_64-unknown-linux-musl/codex-bridge'', sample_client_env)"
proof -
  have t: "launch_target sample_binary sample_options = Inr ''x86_64-unknown-linux-musl''"
    by (simp add: launch_target_def sample_options_def sample_binary_def resolveNativeTarget_def nativeTargetFor_def
        targetByPlatform_def)
  have p: "parseNativeArtifactManifest (JObj sample_manifest) ''x86_64-unknown-linux-musl'' =
      Inr \<lparr>nm_target = ''x86_64-unknown-linux-musl'', nm_executable = ''codex-bridge'', nm_executableSize = Fin (of_int 3),
        nm_executableSha256 = replicate 64 (CHR ''0''), nm_projectSourceCommit = replicate 40 (CHR ''a'')\<rparr>"
    by (simp add: parse_manifest_iff manifest_for_def sample_manifest_def expectedExecutableName_def hex_string_def
        isInteger_def list_all_iff is_hex_digit_def BRIDGE_PROTOCOL_VERSION_def)
  have q: "posix_resolve ''/'' [''/opt/adaptor'', ''native'', ''bin'', ''x86_64-unknown-linux-musl'', ''codex-bridge''] =
      ''/opt/adaptor/native/bin/x86_64-unknown-linux-musl/codex-bridge''"
    by (simp add: posix_resolve_def path_of_def)
  have v: "verifyPackagedBridgeArtifact sample_binary ''/opt/adaptor'' ''x86_64-unknown-linux-musl'' =
      Inr (''/opt/adaptor/native/bin/x86_64-unknown-linux-musl/codex-bridge'',
        \<lparr>nm_target = ''x86_64-unknown-linux-musl'', nm_executable = ''codex-bridge'', nm_executableSize = Fin (of_int 3),
          nm_executableSha256 = replicate 64 (CHR ''0''), nm_projectSourceCommit = replicate 40 (CHR ''a'')\<rparr>)"
    unfolding verifyPackagedBridgeArtifact_def hashFileSha256_def Let_def
    by (simp add: sample_binary_def p q hash_chunk_def num_eq_def del: res_bind_eq_Inr)
  have o1: "cb_executable sample_options = None" "cb_packageRoot sample_options = ''/opt/adaptor''"
      "cb_allowDevelopmentBuild sample_options = None"
    by (simp_all add: sample_options_def)
  show ?thesis
    unfolding connectBundledBridge_def t resolveBundledBridgeLaunch_def o1 option.case res_bind_simps v
    by (simp add: sample_client_env_def del: res_bind_eq_Inr)
qed

theorem served_by_packaged_bridge_witness:
  "\<exists>m h. artifact_ok sample_binary ''/opt/adaptor'' ''x86_64-unknown-linux-musl''
      ''/opt/adaptor/native/bin/x86_64-unknown-linux-musl/codex-bridge'' m \<and> c_peer sample_served = Some h \<and>
    get_prop h ''buildSourceCommit'' = JStr (nm_projectSourceCommit m)"
proof -
  have "cb_executable sample_options = None" "cb_packageRoot sample_options = ''/opt/adaptor''"
      "env_target sample_client_env = ''x86_64-unknown-linux-musl''"
    by (simp_all add: sample_options_def sample_client_env_def)
  moreover have "c_registered sample_served \<noteq> []"
    by (simp add: sample_served_def request_def sample_greeted_eq requireReady_def isReady_def new_client_def
        write_or_reject_def write_message_def register_def sample_client_env_def)
  ultimately show ?thesis
    using served_by_packaged_bridge [OF sample_connection _ sample_served_reachable] by fastforce
qed

end
