(* ===== verification/Extension_Entry.thy ===== *)
theory Extension_Entry
  imports Config_Service Session_Router Request_Guard Tool_Profile Capability_Resolution Bridge_Runtime
    Compaction_Coordinator Compaction_Store
begin

text \<open>
  The composition root \<open>src/src/extension.ts\<close> and the checks of \<open>src/src/integration/pi/host-capability.ts\<close>.

  An instance of the adaptor is a record of the components it creates: the configuration service with the
  activation policy and the route listener, the tool profile, the runtime, the compaction store and coordinator, the
  capability cache, the request guard, its lease, and the router that all instances of the process share.
  The host is a list of the members of its interface that are functions and an object of its data members.
  Looking up the router of the process, which \<open>Session_Router\<close> models, and reading the diagnostics of the
  runtime are parameters of the start. A step of an instance is a session start, or a step of one component,
  as the theory of that component defines it; the lemmas carry the invariants of the components through these
  steps and show what a session start and a shutdown establish.
\<close>

section \<open>Host compatibility\<close>

definition capabilityVersion :: "js_object \<Rightarrow> string \<Rightarrow> js" where
  "capabilityVersion host name = get_prop host name"

definition REQUIRED_VERSION :: js where
  "REQUIRED_VERSION = jint 1"

definition incompatible :: "string \<Rightarrow> string" where
  "incompatible what = ''Pi host is incompatible: requires '' @ what @ '' API version 1''"

definition assertProviderPayloadCompactionHost :: "js_object \<Rightarrow> string list \<Rightarrow> (string, unit) result" where
  "assertProviderPayloadCompactionHost host functions =
    res_bind (guard_err (capabilityVersion host ''extensionSdkApiVersion'' = REQUIRED_VERSION) (incompatible ''extension SDK'')) (\<lambda>_.
    res_bind (guard_err (capabilityVersion host ''providerPayloadCompactionApiVersion'' = REQUIRED_VERSION)
      (incompatible ''provider payload compaction'')) (\<lambda>_.
    res_bind (guard_err (capabilityVersion host ''compactionFailureResultApiVersion'' = REQUIRED_VERSION)
      (incompatible ''compaction failure result'')) (\<lambda>_.
    guard_err (capabilityVersion host ''providerCheckpointCommitApiVersion'' = REQUIRED_VERSION \<and>
        ''setProviderCheckpointUsageBoundary'' \<in> set functions)
      (incompatible ''provider checkpoint commit''))))"

definition assertRemoteCompactionBridge :: "(string, js) result \<Rightarrow> (string, unit) result" where
  "assertRemoteCompactionBridge diagnostics =
    res_bind diagnostics (\<lambda>v.
      case as_record v of
        None \<Rightarrow> Inl ''Native bridge is incompatible: verified Remote Compaction capabilities are unavailable''
      | Some ob \<Rightarrow>
          guard_err (case get_prop ob ''capabilities'' of
              JArr cs \<Rightarrow> list_all (\<lambda>c. as_string c \<noteq> None) cs \<and>
                (JStr ''remote_compaction_v2'' \<in> set cs \<or> JStr ''compact_endpoint'' \<in> set cs)
            | _ \<Rightarrow> False)
            ''Native bridge is incompatible: Remote Compaction is unavailable'')"

section \<open>An instance\<close>

text \<open>The provider ids that are registered, and the calls made to the host.\<close>

record route_state =
  rs_ids :: "string list"
  rs_calls :: "registration list"

record ('s, 'h, 'd, 'y) adaptor =
  ex_service :: "('s, route_state \<times> 'y) service"
  ex_profile :: "'h CodexToolProfile option"
  ex_runtime :: runtime
  ex_store :: CodexCompactionStore
  ex_coordinator :: CodexCompactionCoordinator
  ex_cache :: capability_cache
  ex_guard :: CodexProviderRequestGuard
  ex_router :: "'d session_router"
  ex_lease :: "nat option"

record ('s, 'h, 'd) extension_env =
  ee_repo :: "'s ConfigurationRepository"
  ee_profile :: "'h profile_env"
  ee_functions :: "string list"
  ee_members :: js_object
  ee_dispatchers :: 'd

definition host_has :: "('s, 'h, 'd) extension_env \<Rightarrow> string \<Rightarrow> bool" where
  "host_has env f \<longleftrightarrow> f \<in> set (ee_functions env)"

definition hasToolProfileApi :: "('s, 'h, 'd) extension_env \<Rightarrow> bool" where
  "hasToolProfileApi env \<longleftrightarrow>
    list_all (host_has env) [''getActiveTools'', ''getAllTools'', ''setActiveTools'', ''registerTool'', ''on'']"

definition register_routes :: "bool \<Rightarrow> string list \<Rightarrow> route_state \<Rightarrow> route_state" where
  "register_routes canUnregister ps x =
    (let (calls, ids) = reconcileCodexProviderRoutes canUnregister (rs_ids x) ps
     in \<lparr>rs_ids = ids, rs_calls = rs_calls x @ calls\<rparr>)"

definition registerSelectedProviderRoutes ::
  "('s, 'h, 'd) extension_env \<Rightarrow> ('s, 'h, 'd, 'y) adaptor \<Rightarrow> ('s, 'h, 'd, 'y) adaptor" where
  "registerSelectedProviderRoutes env ad =
    (if host_has env ''registerProvider''
     then ad\<lparr>ex_service := (ex_service ad)\<lparr>svc_rest := apfst (register_routes (host_has env ''unregisterProvider'')
       (policy_providers (ex_service ad))) (svc_rest (ex_service ad))\<rparr>\<rparr>
     else ad)"

text \<open>
  The listener of the entry point. The policy subscribed before it, so its providers are those of the
  configuration that is announced.
\<close>

definition route_listener :: "('s, 'h, 'd) extension_env \<Rightarrow> (route_state \<times> 'y) listener" where
  "route_listener env = OtherListener (\<lambda>config.
     if host_has env ''registerProvider''
     then apfst (register_routes (host_has env ''unregisterProvider'') (providers config)) else id)"

text \<open>The subscriptions, in the order of the start.\<close>

definition POLICY_LISTENER :: nat where "POLICY_LISTENER = 0"
definition ROUTE_LISTENER :: nat where "ROUTE_LISTENER = 1"

definition new_adaptor ::
  "('s, 'h, 'd) extension_env \<Rightarrow> 's \<Rightarrow> 'h \<Rightarrow> 'y \<Rightarrow> runtime \<Rightarrow> 'd session_router \<Rightarrow> ('s, 'h, 'd, 'y) adaptor" where
  "new_adaptor env storage host y rt router =
    \<lparr>ex_service = refresh (ee_repo env) (new_policy POLICY_LISTENER \<lparr>svc_storage = storage, svc_listeners = [],
        policy_providers = [], svc_rest = (\<lparr>rs_ids = [], rs_calls = []\<rparr>, y)\<rparr>),
     ex_profile = (if hasToolProfileApi env then Some (createCodexToolProfile host) else None),
     ex_runtime = rt, ex_store = newCompactionStore, ex_coordinator = Map.empty, ex_cache = empty_cache, ex_guard = new_guard,
     ex_router = router, ex_lease = None\<rparr>"

definition take_lease :: "('s, 'h, 'd) extension_env \<Rightarrow> ('s, 'h, 'd, 'y) adaptor \<Rightarrow> ('s, 'h, 'd, 'y) adaptor" where
  "take_lease env ad =
    (if host_has env ''registerProvider''
     then (let (i, r) = createLease (ee_dispatchers env) (ex_router ad) in ad\<lparr>ex_lease := Some i, ex_router := r\<rparr>)
     else ad\<lparr>ex_lease := None\<rparr>)"

definition start_adaptor ::
  "('s, 'h, 'd) extension_env \<Rightarrow> 's \<Rightarrow> 'h \<Rightarrow> 'y \<Rightarrow> runtime \<Rightarrow> 'd session_router \<Rightarrow> ('s, 'h, 'd, 'y) adaptor" where
  "start_adaptor env storage host y rt router =
    (let ad = registerSelectedProviderRoutes env (take_lease env (new_adaptor env storage host y rt router))
     in ad\<lparr>ex_service := onChange ROUTE_LISTENER (route_listener env) (ex_service ad)\<rparr>)"

text \<open>
  The start. \<open>None\<close>: the host has no commands and nothing is created. \<open>diagnose\<close> is \<open>readDiagnostics\<close> of the
  runtime, which may open a connection; when the bridge is refused the runtime is shut down. \<open>lookup\<close> is
  the router of the process, or the error of its slot; without \<open>registerProvider\<close> it is not used. The
  runtime is returned as well, as it outlives a failed start.
\<close>

definition piCodexAdaptor ::
  "('s, 'h, 'd) extension_env \<Rightarrow> (runtime \<Rightarrow> (string, js) result \<times> runtime) \<Rightarrow> (string, 'd session_router) result \<Rightarrow>
     's \<Rightarrow> 'h \<Rightarrow> 'y \<Rightarrow> runtime \<Rightarrow> (string, ('s, 'h, 'd, 'y) adaptor option) result \<times> runtime" where
  "piCodexAdaptor env diagnose lookup storage host y rt =
    (if \<not> host_has env ''registerCommand'' then (Inr None, rt)
     else case assertProviderPayloadCompactionHost (ee_members env) (ee_functions env) of
       Inl e \<Rightarrow> (Inl e, rt)
     | Inr _ \<Rightarrow>
       if \<not> host_has env ''registerProvider''
       then (Inr (Some (start_adaptor env storage host y rt createProviderSessionRouter)), rt)
       else
         (let (diagnostics, rt1) = diagnose rt in
          case assertRemoteCompactionBridge diagnostics of
            Inl e \<Rightarrow> (Inl e, snd (runtime_shutdown rt1))
          | Inr _ \<Rightarrow>
             (case lookup of
                Inl e \<Rightarrow> (Inl e, rt1)
              | Inr router \<Rightarrow> (Inr (Some (start_adaptor env storage host y rt1 router)), rt1))))"

section \<open>Session events\<close>

definition release_lease :: "('s, 'h, 'd, 'y) adaptor \<Rightarrow> ('s, 'h, 'd, 'y) adaptor" where
  "release_lease ad = (case ex_lease ad of None \<Rightarrow> ad | Some i \<Rightarrow> ad\<lparr>ex_router := lease_release i (ex_router ad)\<rparr>)"

definition bind_lease :: "string \<Rightarrow> ('s, 'h, 'd, 'y) adaptor \<Rightarrow> (lease_error, unit) result \<times> ('s, 'h, 'd, 'y) adaptor" where
  "bind_lease sessionId ad =
    (case ex_lease ad of
       None \<Rightarrow> (Inr (), ad)
     | Some i \<Rightarrow> (let (r, router) = lease_bind i sessionId (ex_router ad) in (r, ad\<lparr>ex_router := router\<rparr>)))"

definition extension_session_start ::
  "('s, 'h, 'd) extension_env \<Rightarrow> string \<Rightarrow> ('s, 'h, 'd, 'y) adaptor \<Rightarrow>
     (lease_error, unit) result \<times> ('s, 'h, 'd, 'y) adaptor" where
  "extension_session_start env sessionId ad =
    (case bind_lease sessionId (take_lease env (release_lease ad)) of
       (Inl e, ad') \<Rightarrow> (Inl e, ad')
     | (Inr _, ad') \<Rightarrow>
         (Inr (), registerSelectedProviderRoutes env
           (ad'\<lparr>ex_guard := invalidateAll (ex_guard ad'), ex_service := refresh (ee_repo env) (ex_service ad')\<rparr>)))"

definition extension_session_shutdown ::
  "('s, 'h, 'd) extension_env \<Rightarrow> ('s, 'h, 'd, 'y) adaptor \<Rightarrow> ('s, 'h, 'd, 'y) adaptor" where
  "extension_session_shutdown env ad0 =
    (let ad = release_lease (ad0\<lparr>ex_service := unsubscribe ROUTE_LISTENER (ex_service ad0)\<rparr>) in
     ad\<lparr>ex_guard := guard_dispose (invalidateAll (ex_guard ad)),
       ex_profile := map_option (restorePi (ee_profile env)) (ex_profile ad),
       ex_coordinator := coordinator_disposeAll (ex_coordinator ad),
       ex_cache := cache_invalidate (ex_cache ad),
       ex_service := policy_dispose POLICY_LISTENER (ex_service ad),
       ex_runtime := snd (runtime_shutdown (ex_runtime ad))\<rparr>)"

section \<open>Steps of an instance\<close>

text \<open>The operations of the service that the other parts use: they subscribe under other numbers, and leave the routes alone.\<close>

fun plain_service_op :: "(route_state \<times> 'y) service_op \<Rightarrow> bool" where
  "plain_service_op SvcRefresh = False"
| "plain_service_op (SvcSubscribe k f) = (1 < k \<and> (\<forall>c x. fst (f c x) = fst x))"
| "plain_service_op (SvcUnsubscribe k) = (1 < k)"
| "plain_service_op _ = True"

text \<open>A step of the shared router in which this instance has no part leaves the lease of the instance alone.\<close>

definition foreign_step :: "nat option \<Rightarrow> 'd session_router \<Rightarrow> 'd session_router \<Rightarrow> bool" where
  "foreign_step lease r r' \<longleftrightarrow> router_step r r' \<and>
     (case lease of None \<Rightarrow> True | Some i \<Rightarrow> i < length (sr_bindings r') \<and> sr_bindings r' ! i = sr_bindings r ! i)"

inductive adaptor_step ::
  "(js \<Rightarrow> string) \<Rightarrow> ('s, 'h, 'd) extension_env \<Rightarrow> ('s, 'h, 'd, 'y) adaptor \<Rightarrow> ('s, 'h, 'd, 'y) adaptor \<Rightarrow> bool"
  for sha env where
  ad_session: "adaptor_step sha env ad (snd (extension_session_start env sid ad))"
| ad_service: "plain_service_op a \<Longrightarrow>
    adaptor_step sha env ad (ad\<lparr>ex_service := service_step (ee_repo env) a (ex_service ad)\<rparr>)"
| ad_profile: "adaptor_step sha env ad (ad\<lparr>ex_profile := map_option (profile_do (ee_profile env) op) (ex_profile ad)\<rparr>)"
| ad_runtime: "runtime_step (ex_runtime ad) s \<Longrightarrow> adaptor_step sha env ad (ad\<lparr>ex_runtime := s\<rparr>)"
| ad_store: "adaptor_step sha env ad (ad\<lparr>ex_store := st\<rparr>)"
| ad_coordinator: "adaptor_step sha env ad (ad\<lparr>ex_coordinator := snd (coord_step c (ex_coordinator ad))\<rparr>)"
| ad_cache: "cache_step (ex_cache ad) c \<Longrightarrow> adaptor_step sha env ad (ad\<lparr>ex_cache := c\<rparr>)"
| ad_guard: "guard_step sha (ex_guard ad, hist) (g, hist') \<Longrightarrow> adaptor_step sha env ad (ad\<lparr>ex_guard := g\<rparr>)"
| ad_router: "foreign_step (ex_lease ad) (ex_router ad) r \<Longrightarrow> adaptor_step sha env ad (ad\<lparr>ex_router := r\<rparr>)"

inductive adaptor_reachable ::
  "(js \<Rightarrow> string) \<Rightarrow> ('s, 'h, 'd) extension_env \<Rightarrow> 'h \<Rightarrow> ('s, 'h, 'd, 'y) adaptor \<Rightarrow> bool"
  for sha env host where
  ad_begin: "lookup = Inr router \<Longrightarrow> router_reachable router \<Longrightarrow>
    piCodexAdaptor env diagnose lookup storage host y rt = (Inr (Some ad), rt') \<Longrightarrow>
    adaptor_reachable sha env host ad"
| ad_next: "adaptor_reachable sha env host ad \<Longrightarrow> adaptor_step sha env ad ad' \<Longrightarrow> adaptor_reachable sha env host ad'"

section \<open>The routes of the host\<close>

definition registry :: "route_state \<Rightarrow> string \<rightharpoonup> ProviderConfig" where
  "registry x = fold apply_registration (rs_calls x) Map.empty"

definition routes_ok :: "bool \<Rightarrow> string list \<Rightarrow> route_state \<Rightarrow> bool" where
  "routes_ok canUnregister ps x \<longleftrightarrow> set (rs_ids x) = insert ''openai-codex'' (set ps) \<and>
     (\<forall>p \<in> set (rs_ids x). registry x p = Some (route_config p)) \<and>
     (canUnregister \<longrightarrow> (\<forall>p. p \<notin> set (rs_ids x) \<longrightarrow> registry x p = None))"

lemma register_routes_registry:
  "registry (register_routes can ps x) p =
     (if p = ''openai-codex'' \<or> p \<in> set ps then Some (route_config p)
      else if can \<and> p \<in> set (rs_ids x) then None else registry x p)"
  "set (rs_ids (register_routes can ps x)) = insert ''openai-codex'' (set ps)"
  using reconcile_exact [of can "rs_ids x" ps "registry x" p]
  by (cases "reconcileCodexProviderRoutes can (rs_ids x) ps"; simp add: register_routes_def registry_def)+

text \<open>Registering the selected routes makes the registrations exact, whatever was selected before.\<close>

lemma routes_registered:
  assumes "can \<Longrightarrow> \<forall>p. p \<notin> set (rs_ids x) \<longrightarrow> registry x p = None"
  shows "routes_ok can ps (register_routes can ps x)"
  using assms by (auto simp: routes_ok_def register_routes_registry)

lemma routes_again: "routes_ok can ps x \<Longrightarrow> routes_ok can qs (register_routes can qs x)"
  by (rule routes_registered) (simp add: routes_ok_def)

section \<open>Invariants\<close>

definition lease_ok :: "('s, 'h, 'd) extension_env \<Rightarrow> nat option \<Rightarrow> 'd session_router \<Rightarrow> bool" where
  "lease_ok env lease r \<longleftrightarrow> (case lease of
     None \<Rightarrow> \<not> host_has env ''registerProvider''
   | Some i \<Rightarrow> host_has env ''registerProvider'' \<and> i < length (sr_bindings r) \<and> \<not> bd_released (sr_bindings r ! i) \<and>
       \<not> bd_collected (sr_bindings r ! i) \<and> bd_dispatchers (sr_bindings r ! i) = ee_dispatchers env)"

definition plain_listener :: "nat \<times> (route_state \<times> 'y) listener \<Rightarrow> bool" where
  "plain_listener e \<longleftrightarrow> 1 < fst e \<and> (case snd e of PolicyListener \<Rightarrow> False | OtherListener f \<Rightarrow> \<forall>c x. fst (f c x) = fst x)"

definition service_ok :: "('s, 'h, 'd) extension_env \<Rightarrow> ('s, route_state \<times> 'y) service \<Rightarrow> bool" where
  "service_ok env svc \<longleftrightarrow>
     (\<exists>rest. svc_listeners svc = (POLICY_LISTENER, PolicyListener) # (ROUTE_LISTENER, route_listener env) # rest \<and>
        list_all plain_listener rest) \<and>
     (host_has env ''registerProvider'' \<longrightarrow>
        routes_ok (host_has env ''unregisterProvider'') (policy_providers svc) (fst (svc_rest svc)))"

lemma run_plain_listener:
  "plain_listener e \<Longrightarrow> policy_providers (run_listener c (snd e) svc) = policy_providers svc \<and>
     fst (svc_rest (run_listener c (snd e) svc)) = fst (svc_rest svc) \<and>
     svc_listeners (run_listener c (snd e) svc) = svc_listeners svc"
  by (cases "snd e") (auto simp: plain_listener_def simp del: split_paired_All)

lemma run_plain_listeners:
  "list_all plain_listener es \<Longrightarrow>
     policy_providers (fold (\<lambda>e. run_listener c (snd e)) es svc) = policy_providers svc \<and>
     fst (svc_rest (fold (\<lambda>e. run_listener c (snd e)) es svc)) = fst (svc_rest svc) \<and>
     svc_listeners (fold (\<lambda>e. run_listener c (snd e)) es svc) = svc_listeners svc"
  by (induction es arbitrary: svc) (auto simp: run_plain_listener)

text \<open>An announced configuration reaches the policy first and then the routes.\<close>

lemma notify_service_ok:
  assumes "service_ok env svc"
  shows "service_ok env (notify c svc)"
proof -
  obtain rest where l: "svc_listeners svc = (POLICY_LISTENER, PolicyListener) # (ROUTE_LISTENER, route_listener env) # rest"
      "list_all plain_listener rest"
    using assms by (auto simp: service_ok_def)
  let ?s = "run_listener c (route_listener env) (policy_replace c svc)"
  have n: "notify c svc = fold (\<lambda>e. run_listener c (snd e)) rest ?s" by (simp add: notify_def l(1))
  have s: "policy_providers ?s = providers c" "svc_listeners ?s = svc_listeners svc"
      "host_has env ''registerProvider'' \<Longrightarrow> fst (svc_rest ?s) =
        register_routes (host_has env ''unregisterProvider'') (providers c) (fst (svc_rest svc))"
    by (simp_all add: route_listener_def policy_replace_def)
  show ?thesis
    using run_plain_listeners [OF l(2), of c ?s] assms l
    by (auto simp: n s service_ok_def intro: routes_again)
qed

lemma service_ok_storage: "service_ok env (svc\<lparr>svc_storage := s\<rparr>) = service_ok env svc"
  by (simp add: service_ok_def)

lemma save_service_ok: "service_ok env svc \<Longrightarrow> service_ok env (snd (save_and_notify repo c svc))"
  by (auto simp: save_and_notify_def service_ok_storage intro!: notify_service_ok split: prod.split sum.split)

lemma plain_listeners_filter: "list_all plain_listener es \<Longrightarrow> list_all plain_listener (filter P es)"
  by (auto simp: list_all_iff)

lemma plain_step_service_ok:
  assumes "service_ok env svc" and "plain_service_op a"
  shows "service_ok env (service_step repo a svc)"
proof (cases a)
  case (SvcSubscribe k f)
  show ?thesis
    using assms by (auto simp: SvcSubscribe onChange_def service_ok_def plain_listener_def)
next
  case (SvcUnsubscribe k)
  with assms show ?thesis
    by (auto simp: unsubscribe_def service_ok_def POLICY_LISTENER_def ROUTE_LISTENER_def plain_listeners_filter)
next
  case SvcRestore
  with assms(1) show ?thesis
    by (auto simp: service_restoreBackup_def service_ok_storage intro!: notify_service_ok split: prod.split sum.split)
next
  case (SvcApply draft ctx)
  with assms(1) show ?thesis by (auto simp: applyDraft_def save_service_ok split: sum.split)
qed (use assms in \<open>auto simp: service_load_def inspect_def resetToDefaults_def save_service_ok service_ok_storage Let_def
      split: prod.split sum.split ConfigurationProbeResult.split\<close>)

text \<open>A refresh may change the policy; registering the routes afterwards restores the agreement.\<close>

lemma refresh_frame:
  "svc_listeners (refresh repo svc) = svc_listeners svc \<and> svc_rest (refresh repo svc) = svc_rest svc"
  by (simp add: refresh_def service_load_def policy_replace_def split: prod.split sum.split)

lemma register_service_ok:
  assumes "service_ok env svc" and "ex_service ad = refresh repo svc"
  shows "service_ok env (ex_service (registerSelectedProviderRoutes env ad))"
  using assms refresh_frame [of repo svc]
  by (auto simp: registerSelectedProviderRoutes_def service_ok_def intro: routes_again)

text \<open>The invariant of the guard, for some history of approvals.\<close>

definition guard_sound :: "(js \<Rightarrow> string) \<Rightarrow> CodexProviderRequestGuard \<Rightarrow> bool" where
  "guard_sound sha g \<longleftrightarrow> (\<exists>hist. guard_inv sha (g, hist))"

lemma guard_sound_step:
  assumes "guard_step sha (g, hist) (g', hist')" and "guard_sound sha g"
  shows "guard_sound sha g'"
proof -
  obtain h where h: "guard_inv sha (g, h)" using assms(2) by (auto simp: guard_sound_def)
  have "\<exists>h'. guard_step sha (g, h) (g', h')"
    using assms(1) by cases (blast intro: guard_step.intros)+
  with step_guard_inv [OF _ h] show ?thesis by (auto simp: guard_sound_def)
qed

lemma guard_sound_all: "guard_sound sha g \<Longrightarrow> guard_sound sha (invalidateAll g)"
  by (rule guard_sound_step [OF gs_all])

definition owes_tools ::
  "('s, 'h, 'd) extension_env \<Rightarrow> 'h \<Rightarrow> 'h CodexToolProfile option \<Rightarrow> bool" where
  "owes_tools env host profile \<longleftrightarrow>
    (\<forall>infos p. pi_host (pe_pi (ee_profile env)) \<and> getAllTools (pe_pi (ee_profile env)) host = Some infos \<and> profile = Some p \<longrightarrow>
       owes (ee_profile env) infos
         (filter (keepable (toolNames infos)) (unique_values (getActiveTools (pe_pi (ee_profile env)) host))) p)"

lemma owes_tools_created: "owes_tools env host (Some (createCodexToolProfile host))"
  by (simp add: owes_tools_def owes_def createCodexToolProfile_def readTools_def activeTools_def)

lemma owes_tools_step: "owes_tools env host profile \<Longrightarrow> owes_tools env host (map_option (profile_do (ee_profile env) op) profile)"
  using pi_host.owes_do [OF _ refl] by (fastforce simp: owes_tools_def)

definition adaptor_inv :: "(js \<Rightarrow> string) \<Rightarrow> ('s, 'h, 'd) extension_env \<Rightarrow> 'h \<Rightarrow> ('s, 'h, 'd, 'y) adaptor \<Rightarrow> bool" where
  "adaptor_inv sha env host ad \<longleftrightarrow> router_inv (ex_router ad) \<and> lease_ok env (ex_lease ad) (ex_router ad) \<and>
     service_ok env (ex_service ad) \<and> guard_sound sha (ex_guard ad) \<and> owes_tools env host (ex_profile ad)"

lemma lease_okD:
  assumes "lease_ok env lease r"
  shows "lease = Some i \<Longrightarrow> i < length (sr_bindings r)"
  using assms by (simp add: lease_ok_def)

lemma release_router: "adaptor_inv sha env host ad \<Longrightarrow> router_inv (ex_router (release_lease ad))"
  by (auto simp: adaptor_inv_def release_lease_def lease_ok_def intro: release_inv split: option.splits)

lemma take_lease_ok:
  "lease_ok env (ex_lease (take_lease env ad)) (ex_router (take_lease env ad))"
  by (simp add: take_lease_def createLease_def lease_ok_def)

lemma take_lease_router: "router_inv (ex_router ad) \<Longrightarrow> router_inv (ex_router (take_lease env ad))"
  using lease_inv [of "ex_router ad" "ee_dispatchers env"]
  by (cases "createLease (ee_dispatchers env) (ex_router ad)") (simp add: take_lease_def)

text \<open>Binding a live lease keeps it live.\<close>

lemma lease_bind_live:
  assumes "i < length (sr_bindings r)"
  shows "length (sr_bindings (snd (lease_bind i sid r))) = length (sr_bindings r) \<and>
    bd_released (sr_bindings (snd (lease_bind i sid r)) ! i) = bd_released (sr_bindings r ! i) \<and>
    bd_collected (sr_bindings (snd (lease_bind i sid r)) ! i) = bd_collected (sr_bindings r ! i) \<and>
    bd_dispatchers (sr_bindings (snd (lease_bind i sid r)) ! i) = bd_dispatchers (sr_bindings r ! i)"
  using assms by (auto simp: lease_bind_def Let_def split: option.split)

lemma bind_lease_inv:
  assumes "router_inv (ex_router ad)" and "lease_ok env (ex_lease ad) (ex_router ad)"
  shows "router_inv (ex_router (snd (bind_lease sid ad))) \<and>
    lease_ok env (ex_lease ad) (ex_router (snd (bind_lease sid ad)))"
  using assms lease_bind_live [of _ "ex_router ad" sid] bind_inv [of "ex_router ad" _ sid]
  by (auto simp: bind_lease_def lease_ok_def split: option.splits prod.split) (metis snd_conv)+

lemma lease_frames:
  "ex_service (release_lease ad) = ex_service ad" "ex_service (take_lease env ad) = ex_service ad"
  "ex_service (snd (bind_lease sid ad)) = ex_service ad"
  "ex_guard (release_lease ad) = ex_guard ad" "ex_guard (take_lease env ad) = ex_guard ad"
  "ex_guard (snd (bind_lease sid ad)) = ex_guard ad"
  "ex_profile (release_lease ad) = ex_profile ad" "ex_profile (take_lease env ad) = ex_profile ad"
  "ex_profile (snd (bind_lease sid ad)) = ex_profile ad"
  "ex_lease (snd (bind_lease sid ad)) = ex_lease ad" "ex_lease (release_lease ad) = ex_lease ad"
  by (simp_all add: release_lease_def take_lease_def bind_lease_def split: option.split prod.split)

lemma register_frames [simp]:
  "ex_router (registerSelectedProviderRoutes env ad) = ex_router ad" "ex_lease (registerSelectedProviderRoutes env ad) = ex_lease ad"
  "ex_guard (registerSelectedProviderRoutes env ad) = ex_guard ad" "ex_profile (registerSelectedProviderRoutes env ad) = ex_profile ad"
  "policy_providers (ex_service (registerSelectedProviderRoutes env ad)) = policy_providers (ex_service ad)"
  "svc_listeners (ex_service (registerSelectedProviderRoutes env ad)) = svc_listeners (ex_service ad)"
  by (simp_all add: registerSelectedProviderRoutes_def)

lemma session_start_inv:
  assumes "adaptor_inv sha env host ad"
  shows "adaptor_inv sha env host (snd (extension_session_start env sid ad))"
proof -
  let ?ad1 = "take_lease env (release_lease ad)" and ?ad2 = "snd (bind_lease sid (take_lease env (release_lease ad)))"
  have "router_inv (ex_router ?ad1)" using release_router [OF assms] by (rule take_lease_router)
  from bind_lease_inv [OF this take_lease_ok [of env "release_lease ad"], of sid]
  have b: "router_inv (ex_router ?ad2)" "lease_ok env (ex_lease ?ad1) (ex_router ?ad2)" by simp_all
  have s: "service_ok env (ex_service ad)" and g: "guard_sound sha (ex_guard ad)" and p: "owes_tools env host (ex_profile ad)"
    using assms by (simp_all add: adaptor_inv_def)
  show ?thesis
    using b s g p guard_sound_all [OF g] register_service_ok [OF s]
    by (cases "bind_lease sid ?ad1"; cases "fst (bind_lease sid ?ad1)")
       (auto simp: extension_session_start_def adaptor_inv_def lease_frames dest!: arg_cong [of _ _ snd])
qed

lemma foreign_lease_ok: "foreign_step lease r r' \<Longrightarrow> lease_ok env lease r \<Longrightarrow> lease_ok env lease r'"
  by (auto simp: foreign_step_def lease_ok_def split: option.splits)

lemma adaptor_step_inv: "adaptor_step sha env ad ad' \<Longrightarrow> adaptor_inv sha env host ad \<Longrightarrow> adaptor_inv sha env host ad'"
proof (induction rule: adaptor_step.induct)
  case (ad_router ad r)
  then show ?case
    using foreign_lease_ok step_router_inv by (fastforce simp: adaptor_inv_def foreign_step_def)
next
  case (ad_session ad sid)
  then show ?case by (rule session_start_inv)
next
  case (ad_guard ad hist g hist')
  then show ?case by (simp add: adaptor_inv_def guard_sound_step)
qed (simp_all add: adaptor_inv_def plain_step_service_ok owes_tools_step)

lemma start_inv:
  assumes "router_inv router"
  shows "adaptor_inv sha env host (start_adaptor env storage host y rt router)"
proof -
  let ?ad = "new_adaptor env storage host y rt router"
  let ?ad1 = "registerSelectedProviderRoutes env (take_lease env ?ad)"
  have l: "svc_listeners (ex_service ?ad) = [(POLICY_LISTENER, PolicyListener)]"
      "fst (svc_rest (ex_service ?ad)) = \<lparr>rs_ids = [], rs_calls = []\<rparr>"
    by (simp_all add: new_adaptor_def new_policy_def onChange_def refresh_frame)
  have r: "routes_ok can ps (register_routes can ps \<lparr>rs_ids = [], rs_calls = []\<rparr>)" for can ps
    by (rule routes_registered) (simp add: registry_def)
  have "host_has env ''registerProvider'' \<Longrightarrow>
      routes_ok (host_has env ''unregisterProvider'') (policy_providers (ex_service ?ad)) (fst (svc_rest (ex_service ?ad1)))"
    by (simp add: registerSelectedProviderRoutes_def lease_frames l r)
  then have s: "service_ok env (onChange ROUTE_LISTENER (route_listener env) (ex_service ?ad1))"
    by (simp add: service_ok_def onChange_def l lease_frames POLICY_LISTENER_def ROUTE_LISTENER_def)
  have g: "guard_sound sha new_guard"
    using reachable_guard_inv [of sha "(new_guard, {})"] by (auto simp: guard_sound_def)
  have t: "router_inv (ex_router (take_lease env ?ad))"
    using assms by (intro take_lease_router) (simp add: new_adaptor_def)
  have f: "ex_guard ?ad = new_guard" "owes_tools env host (ex_profile ?ad)"
    using owes_tools_created [of env host] by (simp_all add: new_adaptor_def owes_tools_def)
  show ?thesis
    using s g t f take_lease_ok [of env ?ad]
    by (simp add: start_adaptor_def adaptor_inv_def Let_def lease_frames)
qed

lemma reachable_adaptor_inv: "adaptor_reachable sha env host ad \<Longrightarrow> adaptor_inv sha env host ad"
proof (induction rule: adaptor_reachable.induct)
  case (ad_begin lookup router diagnose storage y rt ad rt')
  have "router_inv (createProviderSessionRouter :: 'c session_router)"
    by (rule reachable_router_inv [OF router_start])
  with reachable_router_inv [OF ad_begin(2)] ad_begin(1,3) show ?case
    by (auto simp: piCodexAdaptor_def intro: start_inv split: if_splits sum.splits prod.splits)
qed (rule adaptor_step_inv)

section \<open>Leases\<close>

lemma live_release:
  "i < length (sr_bindings r) \<Longrightarrow> live_bindings (lease_release i r) sid = filter (\<lambda>j. j \<noteq> i) (live_bindings r sid)"
  unfolding live_bindings_def filter_filter
  by (simp add: lease_release_def Let_def, intro impI conjI filter_cong)
     (auto simp: live_for_def Let_def nth_list_update)

lemma live_prefix: "filter (live_for (bs @ cs) sid) [0..<length bs] = filter (live_for bs sid) [0..<length bs]"
  by (rule filter_cong) (auto simp: live_for_def nth_append)

lemma live_create: "live_bindings (snd (createLease d r)) sid = live_bindings r sid"
  unfolding live_bindings_def by (simp add: createLease_def live_prefix) (simp add: live_for_def)

lemma live_bind:
  assumes "n = length (sr_bindings r)" and "lease_bind n sid (snd (createLease d r)) = (Inr (), r')"
  shows "live_bindings r' sid' = live_bindings r sid' @ (if sid' = sid then [n] else [])"
proof -
  have b: "sr_bindings r' = sr_bindings r @ [\<lparr>bd_dispatchers = d, bd_sessionId = Some sid, bd_released = False, bd_collected = False\<rparr>]"
    using assms by (auto simp: lease_bind_def createLease_def Let_def split: if_splits)
  show ?thesis
    unfolding live_bindings_def b by (simp add: live_prefix assms(1)) (simp add: live_for_def)
qed

text \<open>What a session start does to the leases: the old one is gone, the new one is bound to the session.\<close>

lemma session_start_leases:
  assumes inv: "adaptor_inv sha env host ad" and reg: "host_has env ''registerProvider''"
    and start: "extension_session_start env sid ad = (Inr (), ad')"
  shows "live_bindings (ex_router ad') s =
      filter (\<lambda>j. ex_lease ad \<noteq> Some j) (live_bindings (ex_router ad) s) @
      (if s = sid then [length (sr_bindings (ex_router ad))] else []) \<and>
    ex_lease ad' = Some (length (sr_bindings (ex_router ad))) \<and>
    bd_dispatchers (sr_bindings (ex_router ad') ! length (sr_bindings (ex_router ad))) = ee_dispatchers env"
proof -
  obtain i where i: "ex_lease ad = Some i" "i < length (sr_bindings (ex_router ad))"
    using inv reg by (auto simp: adaptor_inv_def lease_ok_def split: option.splits)
  define r1 where "r1 = lease_release i (ex_router ad)"
  have len: "length (sr_bindings r1) = length (sr_bindings (ex_router ad))"
    by (simp add: r1_def lease_release_def Let_def)
  obtain r2 where r2: "lease_bind (length (sr_bindings r1)) sid (snd (createLease (ee_dispatchers env) r1)) = (Inr (), r2)"
      "ex_router ad' = r2" "ex_lease ad' = Some (length (sr_bindings r1))"
    using start reg i
    by (auto simp: extension_session_start_def bind_lease_def take_lease_def release_lease_def createLease_def
        r1_def [symmetric] split: prod.splits sum.splits)
  have "bd_dispatchers (sr_bindings r2 ! length (sr_bindings r1)) = ee_dispatchers env"
    using lease_bind_live [of "length (sr_bindings r1)" "snd (createLease (ee_dispatchers env) r1)" sid] r2(1)
    by (simp add: createLease_def)
  with live_bind [OF refl r2(1), of s] live_release [OF i(2), of s] r2 i len show ?thesis
    by (auto simp: r1_def [symmetric] intro!: filter_cong)
qed

lemma all_invalidated:
  assumes "guard_sound sha g"
  shows "assertLive i (invalidateAll g) = Inl RecordRejected"
proof -
  obtain h where h: "guard_inv sha (g, h)" using assms by (auto simp: guard_sound_def)
  show ?thesis
    using guard_invD [OF h, of i] by (auto simp: assertLive_def invalidateAll_def close_where_heap split: option.splits)
qed

lemma session_start_guard:
  assumes "extension_session_start env sid ad = (Inr (), ad')"
  shows "ex_guard ad' = invalidateAll (ex_guard ad)"
proof -
  obtain r a where b: "bind_lease sid (take_lease env (release_lease ad)) = (r, a)" by fastforce
  have "ex_guard a = ex_guard ad" by (metis b snd_conv lease_frames(4,5,6))
  with assms b show ?thesis by (auto simp: extension_session_start_def split: sum.splits)
qed

text \<open>A session start with a proper session id always returns: the lease it binds is new.\<close>

lemma session_start_returns:
  assumes "host_has env ''registerProvider''" and "trim sid \<noteq> []"
  shows "fst (extension_session_start env sid ad) = Inr ()"
  using assms
  by (simp add: extension_session_start_def bind_lease_def take_lease_def createLease_def lease_bind_def Let_def)

section \<open>Properties\<close>

text \<open>
  The routes of the host follow the policy. In every state that an instance reaches, through session
  starts, saves, resets and restores of the configuration and any steps of its other parts, the Codex provider and every
  provider of the activation policy is registered with the handler of its kind, and, where the host can
  unregister, no other provider is; so a model for which the adaptor is active always reaches the adaptor.
\<close>

theorem routes_follow_policy:
  assumes "adaptor_reachable sha env host ad" and "host_has env ''registerProvider''"
  shows "registry (fst (svc_rest (ex_service ad))) p =
      (if p = ''openai-codex'' \<or> p \<in> set (policy_providers (ex_service ad)) then Some (route_config p)
       else if host_has env ''unregisterProvider'' then None else registry (fst (svc_rest (ex_service ad))) p) \<and>
    (createDispatcher (ex_service ad) m = AdaptorStream \<longrightarrow>
       registry (fst (svc_rest (ex_service ad))) (model_provider m) = Some (route_config (model_provider m)))"
proof -
  have "routes_ok (host_has env ''unregisterProvider'') (policy_providers (ex_service ad)) (fst (svc_rest (ex_service ad)))"
    using reachable_adaptor_inv [OF assms(1)] assms(2) by (simp add: adaptor_inv_def service_ok_def)
  moreover have "model_provider m \<in> set (policy_providers (ex_service ad))"
    if "createDispatcher (ex_service ad) m = AdaptorStream"
    using that by (auto simp: createDispatcher_def isActive_def decision_def resolveProviderActivation_def
        isProviderSelected_def split: if_splits)
  ultimately show ?thesis by (auto simp: routes_ok_def)
qed


text \<open>The listeners that are left after a shutdown.\<close>

lemma unsubscribed_listeners:
  assumes "service_ok env svc" and "svc' = policy_dispose POLICY_LISTENER (unsubscribe ROUTE_LISTENER svc)"
  shows "list_all plain_listener (svc_listeners svc') \<and> policy_providers svc' = policy_providers svc \<and> svc_rest svc' = svc_rest svc"
  using assms
  by (auto simp: service_ok_def policy_dispose_def unsubscribe_def POLICY_LISTENER_def ROUTE_LISTENER_def
      simp: plain_listeners_filter)

lemma restored_tools:
  assumes "owes_tools env host profile" and "pi_host (pe_pi (ee_profile env))"
    and "getAllTools (pe_pi (ee_profile env)) host = Some infos"
  shows "pred_option (\<lambda>p. orderedUnique (activeTools (ee_profile env) p) =
      filter (\<lambda>n. n \<in> toolNames infos \<and> \<not> isManagedToolName n) (orderedUnique (getActiveTools (pe_pi (ee_profile env)) host)))
    (map_option (restorePi (ee_profile env)) profile)"
proof (cases profile)
  case (Some p)
  with assms have "owes (ee_profile env) infos
      (filter (keepable (toolNames infos)) (unique_values (getActiveTools (pe_pi (ee_profile env)) host))) p"
    by (auto simp: owes_tools_def)
  from pi_host.owes_restore [OF assms(2) refl this] Some show ?thesis
    by (simp add: orderedUnique_eq keepable_def [abs_def])
qed simp

lemma shutdown_parts:
  "ex_service (extension_session_shutdown env ad) =
     policy_dispose POLICY_LISTENER (unsubscribe ROUTE_LISTENER (ex_service ad))"
  "ex_profile (extension_session_shutdown env ad) = map_option (restorePi (ee_profile env)) (ex_profile ad)"
  "ex_guard (extension_session_shutdown env ad) = guard_dispose (invalidateAll (ex_guard ad))"
  "ex_coordinator (extension_session_shutdown env ad) = coordinator_disposeAll (ex_coordinator ad)"
  "ex_cache (extension_session_shutdown env ad) = cache_invalidate (ex_cache ad)"
  "ex_runtime (extension_session_shutdown env ad) = forgetClient (ex_runtime ad)"
  "ex_router (extension_session_shutdown env ad) =
     (case ex_lease ad of None \<Rightarrow> ex_router ad | Some i \<Rightarrow> lease_release i (ex_router ad))"
  by (simp_all add: extension_session_shutdown_def Let_def release_lease_def runtime_shutdown_def split: option.split)

lemma shutdown_leases:
  assumes "adaptor_inv sha env host ad"
  shows "live_bindings (ex_router (extension_session_shutdown env ad)) s =
    filter (\<lambda>j. ex_lease ad \<noteq> Some j) (live_bindings (ex_router ad) s)"
  using assms live_release [of _ "ex_router ad" s]
  by (auto simp: shutdown_parts adaptor_inv_def lease_ok_def split: option.splits intro!: filter_cong)


section \<open>A concrete instance\<close>

definition sample_repository :: "unit ConfigurationRepository" where
  "sample_repository = \<lparr>repo_probe = (\<lambda>s. (Inr ProbeMissing, s)), repo_loadOrCreate = (\<lambda>s. (Inr createDefaultConfig, s)),
     repo_save = (\<lambda>c s. (Inr (), s)), repo_restoreBackup = (\<lambda>s. (Inr createDefaultConfig, s)),
     repo_backupAvailable = (\<lambda>s. (Inr False, s))\<rparr>"

definition sample_extension :: "(unit, list_host, string) extension_env" where
  "sample_extension = \<lparr>ee_repo = sample_repository, ee_profile = sample_profile_env,
     ee_functions = [''registerCommand'', ''registerProvider'', ''unregisterProvider'', ''getActiveTools'', ''getAllTools'',
       ''setActiveTools'', ''registerTool'', ''on'', ''setProviderCheckpointUsageBoundary''],
     ee_members = [(''extensionSdkApiVersion'', jint 1), (''providerPayloadCompactionApiVersion'', jint 1),
       (''compactionFailureResultApiVersion'', jint 1), (''providerCheckpointCommitApiVersion'', jint 1)],
     ee_dispatchers = ''dispatchers''\<rparr>"

definition sample_adaptor :: "(unit, list_host, string, unit) adaptor" where
  "sample_adaptor = start_adaptor sample_extension () sample_host () new_runtime createProviderSessionRouter"

lemma sample_adaptor_reachable: "adaptor_reachable sha sample_extension sample_host sample_adaptor"
proof -
  have "piCodexAdaptor sample_extension (\<lambda>rt. (Inr (JObj [(''capabilities'', JArr [JStr ''compact_endpoint''])]), rt))
      (Inr createProviderSessionRouter) () sample_host () new_runtime = (Inr (Some sample_adaptor), new_runtime)"
    by (simp add: piCodexAdaptor_def sample_extension_def host_has_def assertProviderPayloadCompactionHost_def
        capabilityVersion_def REQUIRED_VERSION_def assertRemoteCompactionBridge_def sample_adaptor_def guard_err_def)
  from ad_begin [OF refl router_start this] show ?thesis .
qed

lemma sample_extension_facts:
  "host_has sample_extension ''registerProvider''" "host_has sample_extension ''unregisterProvider''"
  "ee_dispatchers sample_extension = ''dispatchers''" "ee_profile sample_extension = sample_profile_env"
  by (simp_all add: sample_extension_def host_has_def)

lemma sample_adaptor_live: "live_bindings (ex_router sample_adaptor) sid = []"
  by (simp add: sample_adaptor_def start_adaptor_def Let_def take_lease_def sample_extension_facts new_adaptor_def
      createLease_def createProviderSessionRouter_def live_bindings_def live_for_def)

theorem routes_follow_policy_witness:
  "registry (fst (svc_rest (ex_service sample_adaptor))) ''openai-codex'' = Some (route_config ''openai-codex'')"
  using routes_follow_policy [OF sample_adaptor_reachable [of "\<lambda>_. []"] sample_extension_facts(1), of "''openai-codex''"]
  by simp



end
