(* ===== verification/Tool_Renderer.thy ===== *)
theory Tool_Renderer
  imports Structured_Json Terminal_Render
begin

text \<open>
  The presentation of managed tool calls, \<open>src/src/ui/terminal/codex-tool-renderer.ts\<close>: headers, detail rows and
  the lines of a tool row.

  The terminal library of the host is a parameter: the visible width of a text, truncation and wrapping of
  styled text, and the theme; so are the text of a number, the JSON parser and the three structural glyphs, which
  lie outside the code units of the string model. The interface \<open>terminal_library\<close> states what the layout relies on,
  and is interpreted on plain text with the identity theme of the source. Results and arguments are
  arbitrary values: reading a member of \<open>undefined\<close> or \<open>null\<close>, or searching something that is not an array,
  throws, and the renderer catches that. The lemmas show which states are shown as a success, that
  titles and previews are bounded and on one line, that every row fits the terminal, and that a tool call never
  shows two headers.
\<close>

section \<open>Types\<close>

datatype CodexToolPresentationKind =
    KindCommand | KindSessionInput | KindPatch | KindViewImage | KindImageGeneration | KindWeb | KindPlan

datatype TerminalState = TsCompleted | TsFailed | TsTimedOut | TsAborted | TsRunning | TsUnknown

datatype row_kind = RowOutput | RowMuted

record DetailRow =
  dr_text :: string
  dr_kind :: row_kind

record HeaderModel =
  hd_state :: TerminalState
  hd_title :: string
  hd_action :: "string option"
  hd_summary :: "string option"
  hd_suffix :: "string option"

record PresentationModel =
  pm_header :: "HeaderModel option"
  pm_details :: "DetailRow list"

record ThemeLike =
  th_fg :: "string \<Rightarrow> string \<Rightarrow> string"
  th_bold :: "string \<Rightarrow> string"

record RenderContextLike =
  rc_args :: js
  rc_isPartial :: "bool option"
  rc_executionStarted :: "bool option"
  rc_isError :: "bool option"

record NativeToolPresentationDetails =
  np_status :: "string option"
  np_output :: "string option"
  np_exit_code :: "rat option"
  np_exitCode :: "rat option"
  np_wall_time_seconds :: "rat option"
  np_session_id :: "rat option"
  np_original_token_count :: "rat option"
  np_added :: "string list"
  np_modified :: "string list"
  np_deleted :: "string list"
  np_detail :: "string option"

record tui_env =
  tu_visibleWidth :: "string \<Rightarrow> nat"
  tu_truncateToWidth :: "string \<Rightarrow> nat \<Rightarrow> string \<Rightarrow> string"
  tu_wrapTextWithAnsi :: "string \<Rightarrow> nat \<Rightarrow> string list"
  tu_number :: "rat \<Rightarrow> string"
  tu_parse :: "string \<Rightarrow> js option"
  tu_marker :: string
  tu_continue :: string
  tu_last :: string

definition COLLAPSED_OUTPUT_LINES :: nat where "COLLAPSED_OUTPUT_LINES = 5"
definition DEFAULT_SUMMARY_LIMIT :: nat where "DEFAULT_SUMMARY_LIMIT = 64"
definition INPUT_PREVIEW_LIMIT :: nat where "INPUT_PREVIEW_LIMIT = 48"
definition WEB_QUERY_LIMIT :: nat where "WEB_QUERY_LIMIT = 48"
definition HEADER_PREFIX_COLS :: nat where "HEADER_PREFIX_COLS = 2"
definition DETAIL_PREFIX_COLS :: nat where "DETAIL_PREFIX_COLS = 4"

abbreviation LF :: char where "LF \<equiv> CHR 0x0A"
abbreviation CR :: char where "CR \<equiv> CHR 0x0D"

section \<open>Text\<close>

text \<open>\<open>replaceAll(/\s+/g, " ")\<close>: a run of white space becomes one space.\<close>

fun squeeze :: "bool \<Rightarrow> string \<Rightarrow> string" where
  "squeeze b [] = []"
| "squeeze b (c # s) = (if js_space c then (if b then squeeze True s else CHR '' '' # squeeze True s) else c # squeeze False s)"

definition collapseWs :: "string \<Rightarrow> string" where
  "collapseWs s = trim (squeeze False s)"

definition clipSummary :: "string \<Rightarrow> nat \<Rightarrow> string" where
  "clipSummary s limit = (let normalized = trim (squeeze False s)
     in if length normalized \<le> limit then normalized else take (limit - 3) normalized @ ''...'')"

fun crlf :: "string \<Rightarrow> string" where
  "crlf (c # d # s) = (if c = CR \<and> d = LF then LF # crlf s else c # crlf (d # s))"
| "crlf s = s"

definition splitLogicalLines :: "string \<Rightarrow> string list" where
  "splitLogicalLines s = (if s = [] then []
     else (let ls = split_on LF (map (\<lambda>c. if c = CR then LF else c) (crlf s))
           in if ls \<noteq> [] \<and> last ls = [] then butlast ls else ls))"

definition collapseLines :: "string list \<Rightarrow> nat \<Rightarrow> string list \<times> nat" where
  "collapseLines ls n = (if length ls \<le> n then (ls, 0) else (take n ls, length ls - n))"

definition hex_digit :: "nat \<Rightarrow> char" where
  "hex_digit n = (if n < 10 then char_of (48 + n) else char_of (87 + n))"

definition display_char :: "char \<Rightarrow> string" where
  "display_char c = (let code = of_char c :: nat in
     if c = CHR 0x5C then [CHR 0x5C, CHR 0x5C]
     else if c = LF then [CHR 0x5C, CHR ''n'']
     else if c = CR then [CHR 0x5C, CHR ''r'']
     else if c = CHR 0x09 then [CHR 0x5C, CHR ''t'']
     else if code < 32 \<or> code = 127 then [CHR 0x5C, CHR ''x'', hex_digit (code div 16), hex_digit (code mod 16)]
     else [c])"

fun escape_loop :: "string \<Rightarrow> string \<Rightarrow> nat \<Rightarrow> string" where
  "escape_loop escaped [] limit = escaped"
| "escape_loop escaped (c # s) limit = (let e = escaped @ display_char c in
     if limit \<le> length e then take (limit - 3) e @ ''...'' else escape_loop e s limit)"

definition escapeForDisplay :: "string \<Rightarrow> nat \<Rightarrow> string" where
  "escapeForDisplay s limit = escape_loop [] s limit"

text \<open>
  The expression reads \<open>ESC\<close>, then \<open>[[0-9;]*\<close>, then \<open>m\<close>: the bracket is not escaped, so it is a member of the class. The
  class does not contain the final letter, so a match is greedy.
\<close>

definition sgr_class :: "char \<Rightarrow> bool" where
  "sgr_class c \<longleftrightarrow> (48 \<le> (of_char c :: nat) \<and> (of_char c :: nat) \<le> 57) \<or> c = CHR '';'' \<or> c = CHR ''[''"

definition sgr_rest :: "string \<Rightarrow> string option" where
  "sgr_rest s = (case s of
     [] \<Rightarrow> None
   | c # r \<Rightarrow> if c = CHR 0x1B then (case dropWhile sgr_class r of
         e # r' \<Rightarrow> if e = CHR ''m'' then Some r' else None | [] \<Rightarrow> None) else None)"

lemma sgr_rest_shorter: "sgr_rest s = Some r \<Longrightarrow> length r < length s"
proof -
  have "length (dropWhile sgr_class t) \<le> length t" for t by (rule length_dropWhile_le)
  then show "sgr_rest s = Some r \<Longrightarrow> ?thesis"
    by (auto simp: sgr_rest_def split: list.splits if_splits) (metis Suc_le_eq le_SucI length_Cons)
qed

function strip_sgr :: "string \<Rightarrow> string" where
  "strip_sgr s = (case sgr_rest s of
     Some r \<Rightarrow> strip_sgr r
   | None \<Rightarrow> (case s of [] \<Rightarrow> [] | c # t \<Rightarrow> c # strip_sgr t))"
  by auto
termination
  by (relation "measure length") (auto dest: sgr_rest_shorter)

declare strip_sgr.simps [simp del]

definition printable_ascii :: "char \<Rightarrow> bool" where
  "printable_ascii c \<longleftrightarrow> 32 \<le> (of_char c :: nat) \<and> (of_char c :: nat) \<le> 126"

definition truncatePlain :: "tui_env \<Rightarrow> string \<Rightarrow> int \<Rightarrow> string" where
  "truncatePlain env s maxCols =
    (if maxCols \<le> 0 then []
     else if int (tu_visibleWidth env s) \<le> maxCols then s
     else if maxCols \<le> 3 then take (nat maxCols) ''...''
     else if list_all printable_ascii s then take (nat maxCols - 3) s @ ''...''
     else strip_sgr (tu_truncateToWidth env s (nat maxCols) ''...''))"

section \<open>Numbers\<close>

text \<open>\<open>toFixed(1)\<close> and \<open>Math.round\<close> on the exact value; between two neighbours the larger one is taken.\<close>

definition to_fixed_1 :: "rat \<Rightarrow> string" where
  "to_fixed_1 q = (let n = nat \<lfloor>10 * q + 1 / 2\<rfloor> in digits_of (n div 10) @ ''.'' @ digits_of (n mod 10))"

definition math_round :: "rat \<Rightarrow> int" where
  "math_round q = \<lfloor>q + 1 / 2\<rfloor>"

definition drop_zero_fraction :: "string \<Rightarrow> string" where
  "drop_zero_fraction s = (if drop (length s - 2) s = ''.0'' then take (length s - 2) s else s)"

definition formatDuration :: "rat option \<Rightarrow> string option" where
  "formatDuration seconds = (case seconds of
     None \<Rightarrow> None
   | Some q \<Rightarrow>
       if q < 0 then None
       else if q < 10 then Some (drop_zero_fraction (to_fixed_1 q) @ ''s'')
       else if q < 60 then Some (digits_of (nat (math_round q)) @ ''s'')
       else (let minutes = \<lfloor>q / 60\<rfloor>; rem = math_round (q - 60 * of_int \<lfloor>q / 60\<rfloor>) in
         Some (if rem = 0 then digits_of (nat minutes) @ ''m''
           else digits_of (nat minutes) @ ''m '' @ digits_of (nat rem) @ ''s'')))"

section \<open>Commands\<close>

text \<open>
  The tokenizer on the rest of the text: a quoted token, whose body ends at the quote or at the end of the
  text, or a run without white space.
\<close>

fun quoted :: "char \<Rightarrow> string \<Rightarrow> string \<times> string" where
  "quoted q [] = ([], [])"
| "quoted q [c] = (if c = q then ([], []) else ([c], []))"
| "quoted q (c # d # s) = (if c = q then ([], d # s)
     else if q = CHR 0x22 \<and> c = CHR 0x5C then apfst (Cons d) (quoted q s)
     else apfst (Cons c) (quoted q (d # s)))"

lemma quoted_shorter: "length (snd (quoted q s)) \<le> length s"
  by (induction q s rule: quoted.induct) auto

function shell_tokens :: "string \<Rightarrow> string list" where
  "shell_tokens s = (case dropWhile js_space s of
     [] \<Rightarrow> []
   | c # r \<Rightarrow>
      if c = CHR 0x27 \<or> c = CHR 0x22 then fst (quoted c r) # shell_tokens (snd (quoted c r))
      else takeWhile (\<lambda>d. \<not> js_space d) (c # r) # shell_tokens (dropWhile (\<lambda>d. \<not> js_space d) (c # r)))"
  by auto
termination
proof (relation "measure length")
  fix s c r
  assume e: "dropWhile js_space s = c # r"
  have l: "length (c # r) \<le> length s" using length_dropWhile_le [of js_space s] by (simp add: e)
  show "(snd (quoted c r), s) \<in> measure length" using quoted_shorter [of c r] l by simp
  have "\<not> js_space c" using hd_dropWhile [of js_space s] by (simp add: e)
  then show "(dropWhile (\<lambda>d. \<not> js_space d) (c # r), s) \<in> measure length"
    using length_dropWhile_le [of "\<lambda>d. \<not> js_space d" r] l by simp
qed simp

declare shell_tokens.simps [simp del]

definition tokenizeShellPresentation :: "string \<Rightarrow> string list" where
  "tokenizeShellPresentation s = shell_tokens (trim s)"

definition drop_prefix :: "string \<Rightarrow> string \<Rightarrow> string" where
  "drop_prefix p s = (if starts_with s p then drop (length p) s else s)"

text \<open>
  \<open>/^(?:(?:\/+|\.\/)?(?:(?:usr\/)?bin\/)?)?(?:ba)?sh$/\<close>: every optional part starts with a character that
  what follows cannot start with, so taking it whenever it fits decides the match.
\<close>

definition isShOrBashToken :: "string \<Rightarrow> bool" where
  "isShOrBashToken token =
    (let t1 = (if starts_with token ''/'' then dropWhile (\<lambda>c. c = CHR ''/'') token else drop_prefix ''./'' token);
         t2 = (if starts_with t1 ''usr/bin/'' then drop 8 t1 else drop_prefix ''bin/'' t1)
     in t2 = ''sh'' \<or> t2 = ''bash'')"

definition letter :: "char \<Rightarrow> bool" where
  "letter c \<longleftrightarrow> (let n = of_char c :: nat in 65 \<le> n \<and> n \<le> 90 \<or> 97 \<le> n \<and> n \<le> 122)"

definition short_flag :: "string \<Rightarrow> bool" where
  "short_flag token = (case token of [] \<Rightarrow> False | c # r \<Rightarrow> c = CHR ''-'' \<and> r \<noteq> [] \<and> list_all letter r)"

definition isShortFlagTokenWithC :: "string \<Rightarrow> bool" where
  "isShortFlagTokenWithC token \<longleftrightarrow> short_flag token \<and> CHR ''c'' \<in> set token"

fun after_c :: "string list \<Rightarrow> string list option" where
  "after_c [] = None"
| "after_c (t # ts) = (if t = ''-c'' \<or> isShortFlagTokenWithC t then (if ts = [] then None else Some ts)
     else if \<not> short_flag t then None else after_c ts)"

definition unwrapShellDashC :: "string \<Rightarrow> string option" where
  "unwrapShellDashC command =
    (let ts = tokenizeShellPresentation command in
     if length ts < 3 \<or> \<not> isShOrBashToken (hd ts) then None
     else (case after_c (drop 1 ts) of
         None \<Rightarrow> None
       | Some rest \<Rightarrow> (let payload = trim (join_with (CHR '' '') rest) in if payload = [] then None else Some payload)))"

fun unwrap_loop :: "nat \<Rightarrow> string \<Rightarrow> string" where
  "unwrap_loop 0 cur = cur"
| "unwrap_loop (Suc n) cur = (case unwrapShellDashC cur of
     None \<Rightarrow> cur
   | Some u \<Rightarrow> if collapseWs u = cur then cur else unwrap_loop n (collapseWs u))"

definition presentCommandText :: "string \<Rightarrow> string" where
  "presentCommandText command = unwrap_loop 2 (collapseWs command)"

section \<open>Arguments\<close>

definition arg :: "js \<Rightarrow> string \<Rightarrow> js" where
  "arg v k = (case as_record v of None \<Rightarrow> JUndef | Some ob \<Rightarrow> get_prop ob k)"

definition nonempty_string :: "js \<Rightarrow> string option" where
  "nonempty_string v = (case v of JStr s \<Rightarrow> if s = [] then None else Some s | _ \<Rightarrow> None)"

definition finite_number :: "js \<Rightarrow> rat option" where
  "finite_number v = (case v of JNum (Fin q) \<Rightarrow> Some q | _ \<Rightarrow> None)"

definition rawCommandFromArgs :: "js \<Rightarrow> string option" where
  "rawCommandFromArgs args = (case nonempty_string (arg args ''cmd'') of
     Some s \<Rightarrow> Some s | None \<Rightarrow> nonempty_string (arg args ''command''))"

definition commandSummary :: "js \<Rightarrow> nat \<Rightarrow> string" where
  "commandSummary args limit = (case rawCommandFromArgs args of
     None \<Rightarrow> ''command'' | Some raw \<Rightarrow> clipSummary (presentCommandText raw) limit)"

definition pathSummary :: "js \<Rightarrow> string" where
  "pathSummary args = (case nonempty_string (arg args ''path'') of
     None \<Rightarrow> ''image'' | Some p \<Rightarrow> clipSummary p DEFAULT_SUMMARY_LIMIT)"

text \<open>The first entry of an array whose member is a string with visible characters.\<close>

definition firstNamed :: "js \<Rightarrow> string \<Rightarrow> string option" where
  "firstNamed v key = (case v of
     JArr es \<Rightarrow> (case filter (\<lambda>t. t \<noteq> []) (map (\<lambda>e. case arg e key of JStr s \<Rightarrow> trim s | _ \<Rightarrow> []) es) of
         [] \<Rightarrow> None | t # _ \<Rightarrow> Some t)
   | _ \<Rightarrow> None)"

definition firstQuery :: "js \<Rightarrow> string option" where
  "firstQuery v = firstNamed v ''q''"

fun first_some :: "'a option list \<Rightarrow> 'a option" where
  "first_some [] = None"
| "first_some (x # xs) = (case x of Some a \<Rightarrow> Some a | None \<Rightarrow> first_some xs)"

definition webSummary :: "js \<Rightarrow> string option" where
  "webSummary args = (case as_record args of
     None \<Rightarrow> None
   | Some ob \<Rightarrow> map_option (\<lambda>s. clipSummary s WEB_QUERY_LIMIT) (first_some
       [firstQuery (get_prop ob ''search_query''), firstQuery (get_prop ob ''image_query''),
        firstNamed (get_prop ob ''weather'') ''location'', firstNamed (get_prop ob ''finance'') ''ticker'',
        firstNamed (get_prop ob ''find'') ''pattern'', firstNamed (get_prop ob ''open'') ''ref_id'']))"

definition sessionIdOf :: "js \<Rightarrow> rat option" where
  "sessionIdOf args = finite_number (arg args ''session_id'')"

definition charsOf :: "js \<Rightarrow> string option" where
  "charsOf args = as_string (arg args ''chars'')"

definition hasNonEmptyChars :: "js \<Rightarrow> bool" where
  "hasNonEmptyChars args = (case charsOf args of None \<Rightarrow> False | Some s \<Rightarrow> s \<noteq> [])"

definition planItems :: "js \<Rightarrow> (string \<times> string) list option" where
  "planItems v = (case arg v ''plan'' of
     JArr es \<Rightarrow> (let items = concat (map (\<lambda>e. case arg e ''step'' of
           JStr step \<Rightarrow> [(step, case arg e ''status'' of JStr st \<Rightarrow> st | _ \<Rightarrow> ''pending'')] | _ \<Rightarrow> []) es)
       in if items = [] then None else Some items)
   | _ \<Rightarrow> None)"

definition string_items :: "js \<Rightarrow> string list" where
  "string_items v = (case v of
     JArr es \<Rightarrow> concat (map (\<lambda>e. case nonempty_string e of Some s \<Rightarrow> [s] | None \<Rightarrow> []) es) | _ \<Rightarrow> [])"

definition presentDetails :: "js \<Rightarrow> NativeToolPresentationDetails" where
  "presentDetails v =
    \<lparr>np_status = as_string (arg v ''status''), np_output = as_string (arg v ''output''),
     np_exit_code = finite_number (arg v ''exit_code''), np_exitCode = finite_number (arg v ''exitCode''),
     np_wall_time_seconds = finite_number (arg v ''wall_time_seconds''), np_session_id = finite_number (arg v ''session_id''),
     np_original_token_count = finite_number (arg v ''original_token_count''),
     np_added = string_items (arg v ''added''), np_modified = string_items (arg v ''modified''),
     np_deleted = string_items (arg v ''deleted''), np_detail = as_string (arg v ''detail'')\<rparr>"

definition no_details :: NativeToolPresentationDetails where
  "no_details = presentDetails JUndef"

definition exitCodeOf :: "NativeToolPresentationDetails \<Rightarrow> rat option" where
  "exitCodeOf details = (case np_exit_code details of Some q \<Rightarrow> Some q | None \<Rightarrow> np_exitCode details)"

section \<open>Headers\<close>

definition withSummary :: "string \<Rightarrow> string \<Rightarrow> string" where
  "withSummary action summary = action @ '' '' @ summary"

definition withOptionalSummary :: "string \<Rightarrow> string option \<Rightarrow> string" where
  "withOptionalSummary action summary = (case summary of
     None \<Rightarrow> action | Some s \<Rightarrow> if s = [] then action else action @ '' for '' @ s)"

definition genericFailureTitle :: "string \<Rightarrow> TerminalState \<Rightarrow> string" where
  "genericFailureTitle base state =
    (if state = TsTimedOut then base @ '' timed out'' else if state = TsAborted then base @ '' aborted'' else base @ '' failed'')"

definition command_action :: "TerminalState \<Rightarrow> string" where
  "command_action state = (case state of
     TsRunning \<Rightarrow> ''Running'' | TsTimedOut \<Rightarrow> ''Command timed out'' | TsAborted \<Rightarrow> ''Command aborted''
   | TsFailed \<Rightarrow> ''Command failed'' | TsUnknown \<Rightarrow> ''Command finished'' | TsCompleted \<Rightarrow> ''Ran'')"

definition command_suffix :: "tui_env \<Rightarrow> TerminalState \<Rightarrow> NativeToolPresentationDetails \<Rightarrow> string" where
  "command_suffix env state details = (case state of
     TsFailed \<Rightarrow> (case exitCodeOf details of None \<Rightarrow> [] | Some q \<Rightarrow> '' (exit '' @ tu_number env q @ '')'')
   | TsCompleted \<Rightarrow> (case formatDuration (np_wall_time_seconds details) of None \<Rightarrow> [] | Some d \<Rightarrow> '' ('' @ d @ '')'')
   | _ \<Rightarrow> [])"

definition commandHeader :: "tui_env \<Rightarrow> TerminalState \<Rightarrow> js \<Rightarrow> NativeToolPresentationDetails \<Rightarrow> HeaderModel" where
  "commandHeader env state args details =
    (let action = command_action state; suffix = command_suffix env state details;
         reserved = length action + (if 0 < length suffix then length suffix + 1 else 1);
         bodyBudget = max 12 (DEFAULT_SUMMARY_LIMIT + 24 - min reserved 48);
         summary = commandSummary args bodyBudget
     in \<lparr>hd_state = state, hd_title = action @ '' '' @ summary @ suffix, hd_action = Some action,
         hd_summary = Some summary, hd_suffix = Some suffix\<rparr>)"

definition formatHeaderTitle :: "tui_env \<Rightarrow> HeaderModel \<Rightarrow> int \<Rightarrow> string" where
  "formatHeaderTitle env header titleBudget =
    (case (hd_action header, hd_summary header) of
       (Some action, Some summary) \<Rightarrow>
         (let suffix = (case hd_suffix header of None \<Rightarrow> [] | Some s \<Rightarrow> s);
              fixed = int (tu_visibleWidth env (action @ '' '')) + int (tu_visibleWidth env suffix)
          in if titleBudget \<le> fixed then truncatePlain env (action @ suffix) titleBudget
             else action @ '' '' @ truncatePlain env summary (max 1 (titleBudget - fixed)) @ suffix)
     | _ \<Rightarrow> truncatePlain env (hd_title header) titleBudget)"

definition sessionLabel :: "tui_env \<Rightarrow> rat option \<Rightarrow> string" where
  "sessionLabel env session = (case session of
     None \<Rightarrow> ''background session'' | Some q \<Rightarrow> ''background session '' @ tu_number env q)"

definition sessionRunningTitle :: "tui_env \<Rightarrow> js \<Rightarrow> string" where
  "sessionRunningTitle env args = (let label = sessionLabel env (sessionIdOf args)
     in if hasNonEmptyChars args then ''Sending input to '' @ label else ''Waiting for '' @ label)"

definition sessionTerminalTitle :: "tui_env \<Rightarrow> js \<Rightarrow> NativeToolPresentationDetails \<Rightarrow> TerminalState \<Rightarrow> string" where
  "sessionTerminalTitle env args details state =
    (let label = sessionLabel env (case sessionIdOf args of Some q \<Rightarrow> Some q | None \<Rightarrow> np_session_id details);
         attempt = (if hasNonEmptyChars args then ''Sending input to '' @ label else ''Waiting for '' @ label)
     in case state of
          TsTimedOut \<Rightarrow> attempt @ '' timed out''
        | TsAborted \<Rightarrow> attempt @ '' aborted''
        | TsFailed \<Rightarrow> attempt @ '' failed''
        | TsUnknown \<Rightarrow> (if hasNonEmptyChars args then ''Background session input finished for '' @ label
            else ''Background session wait finished for '' @ label)
        | _ \<Rightarrow> (if hasNonEmptyChars args then ''Sent input to '' @ label else ''Waited for '' @ label))"

definition failure_state :: "TerminalState \<Rightarrow> bool" where
  "failure_state state \<longleftrightarrow> state = TsFailed \<or> state = TsAborted \<or> state = TsTimedOut"

definition viewImageTerminalTitle :: "js \<Rightarrow> NativeToolPresentationDetails \<Rightarrow> TerminalState \<Rightarrow> string" where
  "viewImageTerminalTitle args details state =
    (let path = pathSummary args in
     if failure_state state then genericFailureTitle (withSummary ''View image'' path) state
     else if state = TsUnknown then withSummary ''View image finished'' path
     else (case np_detail details of
         Some d \<Rightarrow> if d = [] then withSummary ''Viewed'' path else withSummary ''Viewed'' path @ '' ('' @ d @ '')''
       | None \<Rightarrow> withSummary ''Viewed'' path))"

definition webTerminalTitle :: "js \<Rightarrow> TerminalState \<Rightarrow> string" where
  "webTerminalTitle args state =
    (let summary = webSummary args in
     if failure_state state then genericFailureTitle (withOptionalSummary ''Search web'' summary) state
     else if state = TsUnknown then withOptionalSummary ''Web search finished'' summary
     else withOptionalSummary ''Searched web'' summary)"

definition runningTitle :: "tui_env \<Rightarrow> CodexToolPresentationKind \<Rightarrow> js \<Rightarrow> string" where
  "runningTitle env kind args = (case kind of
     KindCommand \<Rightarrow> hd_title (commandHeader env TsRunning args no_details)
   | KindSessionInput \<Rightarrow> sessionRunningTitle env args
   | KindPatch \<Rightarrow> ''Applying patch''
   | KindViewImage \<Rightarrow> withSummary ''Viewing'' (pathSummary args)
   | KindImageGeneration \<Rightarrow> ''Generating image''
   | KindWeb \<Rightarrow> withOptionalSummary ''Searching web'' (webSummary args)
   | KindPlan \<Rightarrow> ''Updating plan'')"

definition three_way :: "string \<Rightarrow> string \<Rightarrow> string \<Rightarrow> TerminalState \<Rightarrow> string" where
  "three_way completed finished base state =
    (if state = TsCompleted then completed else if state = TsUnknown then finished else genericFailureTitle base state)"

definition terminalTitle ::
  "tui_env \<Rightarrow> CodexToolPresentationKind \<Rightarrow> js \<Rightarrow> NativeToolPresentationDetails \<Rightarrow> TerminalState \<Rightarrow> string" where
  "terminalTitle env kind args details state = (case kind of
     KindCommand \<Rightarrow> hd_title (commandHeader env state args details)
   | KindSessionInput \<Rightarrow> sessionTerminalTitle env args details state
   | KindPatch \<Rightarrow> three_way ''Updated files'' ''Patch finished'' ''Patch'' state
   | KindViewImage \<Rightarrow> viewImageTerminalTitle args details state
   | KindImageGeneration \<Rightarrow> three_way ''Generated image'' ''Image generation finished'' ''Image generation'' state
   | KindWeb \<Rightarrow> webTerminalTitle args state
   | KindPlan \<Rightarrow> three_way ''Updated plan'' ''Plan finished'' ''Plan'' state)"

definition flat_header :: "TerminalState \<Rightarrow> string \<Rightarrow> HeaderModel" where
  "flat_header state title = \<lparr>hd_state = state, hd_title = title, hd_action = None, hd_summary = None, hd_suffix = None\<rparr>"

definition runningHeader :: "tui_env \<Rightarrow> CodexToolPresentationKind \<Rightarrow> js \<Rightarrow> HeaderModel" where
  "runningHeader env kind args = (if kind = KindCommand then commandHeader env TsRunning args no_details
     else flat_header TsRunning (runningTitle env kind args))"

definition terminalHeader ::
  "tui_env \<Rightarrow> CodexToolPresentationKind \<Rightarrow> js \<Rightarrow> NativeToolPresentationDetails \<Rightarrow> TerminalState \<Rightarrow> HeaderModel" where
  "terminalHeader env kind args details state = (if kind = KindCommand then commandHeader env state args details
     else flat_header state (terminalTitle env kind args details state))"

fun fallback_labels :: "CodexToolPresentationKind \<Rightarrow> string \<times> string \<times> string" where
  "fallback_labels KindCommand = (''Running command'', ''Command finished'', ''Command failed'')"
| "fallback_labels KindSessionInput =
    (''Waiting for background session'', ''Background session finished'', ''Background session failed'')"
| "fallback_labels KindPatch = (''Applying patch'', ''Patch finished'', ''Patch failed'')"
| "fallback_labels KindViewImage = (''Viewing image'', ''View image finished'', ''View image failed'')"
| "fallback_labels KindImageGeneration = (''Generating image'', ''Image generation finished'', ''Image generation failed'')"
| "fallback_labels KindWeb = (''Searching web'', ''Web search finished'', ''Web search failed'')"
| "fallback_labels KindPlan = (''Updating plan'', ''Plan finished'', ''Plan failed'')"

definition safeFallbackTitle :: "CodexToolPresentationKind \<Rightarrow> bool \<Rightarrow> bool \<Rightarrow> string" where
  "safeFallbackTitle kind running failed = (case fallback_labels kind of (run, finished, fail) \<Rightarrow>
     if running then run else if failed then fail else finished)"

section \<open>Results\<close>

text \<open>\<open>v.k\<close> where \<open>v\<close> may be \<open>undefined\<close> or \<open>null\<close>, which throws; any other primitive has no such member.\<close>

definition member :: "js \<Rightarrow> string \<Rightarrow> (unit, js) result" where
  "member v k = (case v of JUndef \<Rightarrow> Inl () | JNull \<Rightarrow> Inl () | JObj ob \<Rightarrow> Inr (get_prop ob k) | _ \<Rightarrow> Inr JUndef)"

definition content_items :: "js \<Rightarrow> (unit, js list) result" where
  "content_items result = res_bind (member result ''content'') (\<lambda>c. case c of JArr es \<Rightarrow> Inr es | _ \<Rightarrow> Inl ())"

text \<open>\<open>find\<close> and \<open>some\<close> by the type of an item: the items before the first match are inspected as well.\<close>

fun find_typed :: "string \<Rightarrow> js list \<Rightarrow> (unit, js option) result" where
  "find_typed ty [] = Inr None"
| "find_typed ty (e # es) = res_bind (member e ''type'') (\<lambda>t. if t = JStr ty then Inr (Some e) else find_typed ty es)"

definition textContent :: "js \<Rightarrow> (unit, string option) result" where
  "textContent result = res_bind (content_items result) (\<lambda>es. res_bind (find_typed ''text'' es) (\<lambda>found.
     Inr (case found of None \<Rightarrow> None | Some e \<Rightarrow> as_string (arg e ''text''))))"

definition looksLikeMetadataOnly :: "tui_env \<Rightarrow> string \<Rightarrow> bool" where
  "looksLikeMetadataOnly env s = (let trimmed = trim s in
     if trimmed = [] \<or> hd trimmed \<noteq> CHR ''{'' \<or> last trimmed \<noteq> CHR ''}'' then False
     else (case tu_parse env trimmed of None \<Rightarrow> False | Some v \<Rightarrow> as_string (arg v ''status'') \<noteq> None))"

definition stripTrailingMetadata :: "tui_env \<Rightarrow> string \<Rightarrow> string" where
  "stripTrailingMetadata env s = (let ls = splitLogicalLines s in
     if ls \<noteq> [] \<and> looksLikeMetadataOnly env (last ls) then join_with LF (butlast ls) else s)"

definition out_row :: "string \<Rightarrow> DetailRow" where "out_row s = \<lparr>dr_text = s, dr_kind = RowOutput\<rparr>"
definition muted_row :: "string \<Rightarrow> DetailRow" where "muted_row s = \<lparr>dr_text = s, dr_kind = RowMuted\<rparr>"

definition limited_rows :: "string list \<Rightarrow> bool \<Rightarrow> DetailRow list" where
  "limited_rows ls expanded =
    (let (shown, omitted) = (if expanded then (ls, 0) else collapseLines ls COLLAPSED_OUTPUT_LINES)
     in map out_row shown @ (if 0 < omitted then [muted_row (''... '' @ digits_of omitted @ '' lines omitted'')] else []))"

definition formatOutputRows :: "string \<Rightarrow> bool \<Rightarrow> DetailRow list" where
  "formatOutputRows s expanded = (let ls = splitLogicalLines s
     in if ls = [] then [muted_row ''(no output)''] else limited_rows ls expanded)"

definition commandDetailRows ::
  "tui_env \<Rightarrow> js \<Rightarrow> bool \<Rightarrow> NativeToolPresentationDetails \<Rightarrow> (unit, DetailRow list) result" where
  "commandDetailRows env result expanded details = (case np_output details of
     Some s \<Rightarrow> Inr (if s = [] then [muted_row ''(no output)''] else formatOutputRows s expanded)
   | None \<Rightarrow> res_bind (textContent result) (\<lambda>fallback. Inr (case fallback of
         None \<Rightarrow> [muted_row ''(no output)'']
       | Some t \<Rightarrow> if t = [] \<or> looksLikeMetadataOnly env t then [muted_row ''(no output)'']
           else formatOutputRows (stripTrailingMetadata env t) expanded)))"

definition session_output :: "tui_env \<Rightarrow> js \<Rightarrow> NativeToolPresentationDetails \<Rightarrow> (unit, string) result" where
  "session_output env result details = (case np_output details of
     Some s \<Rightarrow> Inr s
   | None \<Rightarrow> res_bind (textContent result) (\<lambda>t. Inr (stripTrailingMetadata env (case t of None \<Rightarrow> [] | Some s \<Rightarrow> s))))"

definition sessionDetailRows ::
  "tui_env \<Rightarrow> js \<Rightarrow> bool \<Rightarrow> js \<Rightarrow> NativeToolPresentationDetails \<Rightarrow> (unit, DetailRow list) result" where
  "sessionDetailRows env result expanded args details = res_bind (session_output env result details) (\<lambda>displayOutput. Inr
     ((if expanded \<and> hasNonEmptyChars args
       then [out_row (''Input: '' @ escapeForDisplay (case charsOf args of None \<Rightarrow> [] | Some s \<Rightarrow> s) INPUT_PREVIEW_LIMIT)]
       else []) @
      (if 0 < length displayOutput then limited_rows (splitLogicalLines displayOutput) expanded else [])))"

definition patchRows :: "NativeToolPresentationDetails \<Rightarrow> DetailRow list" where
  "patchRows details =
    map (\<lambda>p. out_row (''Added '' @ clipSummary p DEFAULT_SUMMARY_LIMIT)) (np_added details) @
    map (\<lambda>p. out_row (''Modified '' @ clipSummary p DEFAULT_SUMMARY_LIMIT)) (np_modified details) @
    map (\<lambda>p. out_row (''Deleted '' @ clipSummary p DEFAULT_SUMMARY_LIMIT)) (np_deleted details)"

definition plan_marker :: "string \<Rightarrow> string" where
  "plan_marker status = (if status = ''completed'' then ''[x]'' else if status = ''in_progress'' then ''[>]'' else ''[ ]'')"

definition planRows :: "js \<Rightarrow> js \<Rightarrow> (unit, DetailRow list) result" where
  "planRows args result =
    res_bind (case planItems args of Some items \<Rightarrow> Inr (Some items)
        | None \<Rightarrow> res_bind (member result ''details'') (\<lambda>d. Inr (planItems d))) (\<lambda>source.
      Inr (case source of None \<Rightarrow> []
        | Some items \<Rightarrow> map (\<lambda>(step, status). out_row (plan_marker status @ '' '' @ clipSummary step DEFAULT_SUMMARY_LIMIT)) items))"

definition partialDetailRows ::
  "CodexToolPresentationKind \<Rightarrow> js \<Rightarrow> bool \<Rightarrow> js \<Rightarrow> (unit, DetailRow list) result" where
  "partialDetailRows kind result expanded args =
    (if kind = KindCommand \<or> kind = KindSessionInput
     then res_bind (textContent result) (\<lambda>t. Inr (formatOutputRows (case t of None \<Rightarrow> [] | Some s \<Rightarrow> s) expanded))
     else if kind = KindPlan then planRows args result else Inr [])"

definition terminalDetailRows ::
  "tui_env \<Rightarrow> CodexToolPresentationKind \<Rightarrow> js \<Rightarrow> bool \<Rightarrow> js \<Rightarrow> NativeToolPresentationDetails \<Rightarrow>
     (unit, DetailRow list) result" where
  "terminalDetailRows env kind result expanded args details = (case kind of
     KindCommand \<Rightarrow> commandDetailRows env result expanded details
   | KindSessionInput \<Rightarrow> sessionDetailRows env result expanded args details
   | KindPatch \<Rightarrow> Inr (patchRows details)
   | KindPlan \<Rightarrow> planRows args result
   | _ \<Rightarrow> Inr [])"

definition stopped_state :: "string option \<Rightarrow> TerminalState option" where
  "stopped_state status =
    (if status = Some ''timed_out'' \<or> status = Some ''timeout'' then Some TsTimedOut
     else if status = Some ''aborted'' \<or> status = Some ''cancelled'' \<or> status = Some ''canceled'' then Some TsAborted
     else None)"

definition resolveTerminalState ::
  "NativeToolPresentationDetails \<Rightarrow> js \<Rightarrow> bool \<Rightarrow> (unit, TerminalState) result" where
  "resolveTerminalState details result isError =
    (let status = np_status details; exit = exitCodeOf details in
     if isError then Inr (case stopped_state status of Some st \<Rightarrow> st | None \<Rightarrow> TsFailed)
     else if status = Some ''running'' then Inr TsRunning
     else case stopped_state status of Some st \<Rightarrow> Inr st
     | None \<Rightarrow>
       if status = Some ''failed'' \<or> status = Some ''incomplete'' then Inr TsFailed
       else if status = Some ''completed''
       then Inr (if exit \<noteq> None \<and> exit \<noteq> Some 0 then TsFailed else TsCompleted)
       else if exit \<noteq> None \<and> exit \<noteq> Some 0 then Inr TsFailed
       else if exit = Some 0 then Inr TsCompleted
       else res_bind (content_items result) (\<lambda>es. res_bind (find_typed ''image'' es) (\<lambda>image.
         if image \<noteq> None then Inr TsCompleted
         else res_bind (member result ''details'') (\<lambda>d. Inr (if planItems d \<noteq> None then TsCompleted else TsUnknown)))))"

section \<open>The component\<close>

definition markerThemeColor :: "TerminalState \<Rightarrow> string" where
  "markerThemeColor state = (case state of
     TsRunning \<Rightarrow> ''warning'' | TsCompleted \<Rightarrow> ''success'' | TsFailed \<Rightarrow> ''error'' | TsTimedOut \<Rightarrow> ''error''
   | TsAborted \<Rightarrow> ''error'' | TsUnknown \<Rightarrow> ''dim'')"

definition header_line :: "tui_env \<Rightarrow> ThemeLike \<Rightarrow> int \<Rightarrow> HeaderModel \<Rightarrow> string" where
  "header_line env theme safeWidth header =
    (let title = formatHeaderTitle env header (max 1 (safeWidth - int HEADER_PREFIX_COLS)) in
     th_fg theme (markerThemeColor (hd_state header)) (tu_marker env) @ '' '' @ th_fg theme ''toolTitle'' (th_bold theme title))"

definition detail_lines :: "tui_env \<Rightarrow> ThemeLike \<Rightarrow> int \<Rightarrow> bool \<Rightarrow> DetailRow \<Rightarrow> string list" where
  "detail_lines env theme safeWidth isLast row =
    (let gutter = th_fg theme ''dim'' (if isLast then tu_last env else tu_continue env);
         styled = th_fg theme (if dr_kind row = RowMuted then ''muted'' else ''toolOutput'') (dr_text row);
         wrapped = tu_wrapTextWithAnsi env styled (nat (max 1 (safeWidth - int DETAIL_PREFIX_COLS)))
     in case wrapped of
          [] \<Rightarrow> [''  '' @ gutter @ '' '']
        | w # ws \<Rightarrow> (''  '' @ gutter @ '' '' @ w) # map (\<lambda>s. ''    '' @ s) ws)"

fun all_detail_lines :: "tui_env \<Rightarrow> ThemeLike \<Rightarrow> int \<Rightarrow> DetailRow list \<Rightarrow> string list" where
  "all_detail_lines env theme safeWidth [] = []"
| "all_detail_lines env theme safeWidth (row # rows) =
    detail_lines env theme safeWidth (rows = []) row @ all_detail_lines env theme safeWidth rows"

definition render :: "tui_env \<Rightarrow> ThemeLike \<Rightarrow> PresentationModel \<Rightarrow> int \<Rightarrow> string list" where
  "render env theme model width =
    (let safeWidth = max 1 width in
     (case pm_header model of None \<Rightarrow> [] | Some h \<Rightarrow> [header_line env theme safeWidth h]) @
     all_detail_lines env theme safeWidth (pm_details model))"

definition identityTheme :: ThemeLike where
  "identityTheme = \<lparr>th_fg = (\<lambda>_ s. s), th_bold = (\<lambda>s. s)\<rparr>"

section \<open>The renderer of a tool\<close>

definition emptyComponent :: PresentationModel where
  "emptyComponent = \<lparr>pm_header = None, pm_details = []\<rparr>"

definition callSlotShouldBeEmpty :: "RenderContextLike option \<Rightarrow> bool" where
  "callSlotShouldBeEmpty context = (case context of
     None \<Rightarrow> False | Some c \<Rightarrow> rc_isPartial c = Some False \<or> rc_executionStarted c = Some True)"

text \<open>On the values of this model the body of \<open>renderCall\<close> does not throw, so its handler is not reached.\<close>

definition renderCall :: "tui_env \<Rightarrow> CodexToolPresentationKind \<Rightarrow> js \<Rightarrow> RenderContextLike option \<Rightarrow> PresentationModel" where
  "renderCall env kind args context =
    (if callSlotShouldBeEmpty context then emptyComponent
     else \<lparr>pm_header = Some (runningHeader env kind args), pm_details = []\<rparr>)"

definition context_args :: "RenderContextLike option \<Rightarrow> js" where
  "context_args context = (case context of None \<Rightarrow> JUndef | Some c \<Rightarrow> rc_args c)"

definition context_error :: "RenderContextLike option \<Rightarrow> bool" where
  "context_error context = (case context of None \<Rightarrow> False | Some c \<Rightarrow> rc_isError c = Some True)"

definition result_body ::
  "tui_env \<Rightarrow> CodexToolPresentationKind \<Rightarrow> js \<Rightarrow> bool \<Rightarrow> bool \<Rightarrow> RenderContextLike option \<Rightarrow> (unit, PresentationModel) result" where
  "result_body env kind result expanded isPartial context =
    (let args = context_args context in
     if isPartial
     then res_bind (partialDetailRows kind result expanded args) (\<lambda>rows.
       Inr \<lparr>pm_header = Some (runningHeader env kind args), pm_details = rows\<rparr>)
     else res_bind (member result ''details'') (\<lambda>d. let details = presentDetails d in
       res_bind (resolveTerminalState details result (context_error context)) (\<lambda>state.
       res_bind (terminalDetailRows env kind result expanded args details) (\<lambda>rows.
         Inr \<lparr>pm_header = Some (terminalHeader env kind args details state), pm_details = rows\<rparr>))))"

definition renderResult ::
  "tui_env \<Rightarrow> CodexToolPresentationKind \<Rightarrow> js \<Rightarrow> bool \<Rightarrow> bool \<Rightarrow> RenderContextLike option \<Rightarrow> PresentationModel" where
  "renderResult env kind result expanded isPartial context =
    (case result_body env kind result expanded isPartial context of
       Inr model \<Rightarrow> model
     | Inl _ \<Rightarrow> (let failed = context_error context in
         \<lparr>pm_header = Some (flat_header (if failed then TsFailed else TsUnknown) (safeFallbackTitle kind False failed)),
          pm_details = []\<rparr>))"

section \<open>Text that is shown\<close>

lemma squeeze_spaces: "c \<in> set (squeeze b s) \<Longrightarrow> js_space c \<Longrightarrow> c = CHR '' ''"
  by (induction b s rule: squeeze.induct) (auto split: if_splits)

lemma trim_subset: "set (trim s) \<subseteq> set s"
  by (auto simp: trim_def dest!: set_dropWhileD)

text \<open>Every summary is bounded, and its only white space is the space: it stays on one line.\<close>

definition one_line :: "string \<Rightarrow> bool" where
  "one_line s \<longleftrightarrow> list_all (\<lambda>c. js_space c \<longrightarrow> c = CHR '' '') s"

lemma one_line_simps [simp]:
  "one_line []" "one_line (s @ t) \<longleftrightarrow> one_line s \<and> one_line t" "one_line (c # s) \<longleftrightarrow> (js_space c \<longrightarrow> c = CHR '' '') \<and> one_line s"
  by (simp_all add: one_line_def)

lemma one_line_subset: "one_line s \<Longrightarrow> set t \<subseteq> set s \<Longrightarrow> one_line t"
  by (auto simp: one_line_def list_all_iff)

lemma clip_one_line: "one_line (clipSummary s limit)"
proof -
  have n: "one_line (trim (squeeze False s))"
    using trim_subset squeeze_spaces by (fastforce simp: one_line_def list_all_iff)
  then have "one_line (take k (trim (squeeze False s)))" for k by (rule one_line_subset) (rule set_take_subset)
  with n show ?thesis by (simp add: clipSummary_def Let_def js_space_def)
qed

lemma clip_bounded: "3 \<le> limit \<Longrightarrow> length (clipSummary s limit) \<le> limit"
  by (auto simp: clipSummary_def Let_def)

lemma command_summary_bounded: "12 \<le> limit \<Longrightarrow> length (commandSummary args limit) \<le> limit \<and> one_line (commandSummary args limit)"
  by (auto simp: commandSummary_def clip_bounded clip_one_line js_space_def split: option.split)

lemma web_summary_bounded: "webSummary args = Some s \<Longrightarrow> length s \<le> WEB_QUERY_LIMIT \<and> one_line s"
  by (auto simp: webSummary_def clip_one_line clip_bounded WEB_QUERY_LIMIT_def split: option.splits)

text \<open>The preview of an input shows no control character and is bounded.\<close>

definition visible_char :: "char \<Rightarrow> bool" where
  "visible_char c \<longleftrightarrow> 32 \<le> (of_char c :: nat) \<and> (of_char c :: nat) \<noteq> 127"

lemma hex_digit_visible: "n < 16 \<Longrightarrow> visible_char (hex_digit n)"
  by (auto simp: hex_digit_def visible_char_def of_char_of)

lemma display_visible: "list_all visible_char (display_char c)"
proof -
  have h: "visible_char (hex_digit (n div 16))" if "n < 32 \<or> n = 127" for n
    using that by (intro hex_digit_visible less_mult_imp_div_less) auto
  have m: "visible_char (hex_digit (n mod 16))" for n by (intro hex_digit_visible) simp
  have b: "visible_char (CHR 0x5C)" "visible_char (CHR ''n'')" "visible_char (CHR ''r'')" "visible_char (CHR ''t'')" "visible_char (CHR ''x'')"
    by (simp_all add: visible_char_def)
  have p: "visible_char c" if "\<not> ((of_char c :: nat) < 32 \<or> (of_char c :: nat) = 127)"
    using that by (simp add: visible_char_def)
  show ?thesis
    unfolding display_char_def Let_def 
    by (simp only: list.pred_inject b m simp_thms split: if_split) (use h p in blast)
qed

lemma escape_loop_shown:
  assumes "list_all visible_char escaped" and "length escaped < limit" and "3 \<le> limit"
  shows "list_all visible_char (escape_loop escaped s limit) \<and> length (escape_loop escaped s limit) \<le> limit"
  using assms
proof (induction s arbitrary: escaped)
  case (Cons c s)
  let ?e = "escaped @ display_char c"
  have v: "list_all visible_char ?e" using Cons.prems(1) display_visible by simp
  show ?case
  proof (cases "limit \<le> length ?e")
    case True
    have t: "list_all visible_char (take (limit - 3) ?e)" using v by (auto simp only: list_all_iff dest: in_set_takeD)
    have d: "list_all visible_char ''...''" by (simp add: visible_char_def)
    have l: "length (take (limit - 3) ?e @ ''...'') \<le> limit" using Cons.prems(3) by (simp only: length_append length_take) simp
    have "escape_loop escaped (c # s) limit = take (limit - 3) ?e @ ''...''" using True by (simp only: escape_loop.simps Let_def if_True)
    with t d l show ?thesis by (simp only: list_all_append simp_thms)
  next
    case False
    with Cons.IH [OF v] Cons.prems(3) show ?thesis by (simp add: Let_def)
  qed
qed simp

lemma input_preview_shown:
  "list_all visible_char (escapeForDisplay s INPUT_PREVIEW_LIMIT) \<and> length (escapeForDisplay s INPUT_PREVIEW_LIMIT) \<le> 48"
  using escape_loop_shown [of "[]" 48 s] by (simp add: escapeForDisplay_def INPUT_PREVIEW_LIMIT_def)

text \<open>
  Rounding is done after the minutes are split off, so a duration shortly before a full minute is shown with
  sixty seconds.
\<close>

lemma duration_sixty_seconds:
  "formatDuration (Some (1198 / 10)) = Some ''1m 60s'' \<and> formatDuration (Some (597 / 10)) = Some ''60s''"
proof -
  have f: "\<lfloor>(599 :: rat) / 300\<rfloor> = 1" "\<lfloor>(603 :: rat) / 10\<rfloor> = 60" "\<lfloor>(301 :: rat) / 5\<rfloor> = 60" by (auto simp: floor_eq_iff)
  have d: "digits_of 60 = ''60''" "digits_of (Suc 0) = ''1''" by code_simp+
  show ?thesis by (simp add: formatDuration_def math_round_def f d)
qed

section \<open>Output rows\<close>

lemma split_on_nonempty: "split_on c s \<noteq> []"
  by (induction s) (auto split: list.split)

lemma join_split: "join_with c (split_on c s) = s"
proof (induction s)
  case (Cons d s)
  obtain w ws where w: "split_on c s = w # ws" using split_on_nonempty [of c s] by (cases "split_on c s") auto
  from Cons w show ?case by (cases ws) (auto simp: join_with_def)
qed (simp add: join_with_def)

definition normalized_newlines :: "string \<Rightarrow> string" where
  "normalized_newlines s = map (\<lambda>c. if c = CR then LF else c) (crlf s)"

lemma join_butlast:
  assumes "ls \<noteq> []" and "last ls = []" and "butlast ls \<noteq> []"
  shows "join_with c ls = join_with c (butlast ls) @ [c]"
proof -
  obtain a as where a: "butlast ls = a # as" using assms(3) by (cases "butlast ls") auto
  have "ls = (a # as) @ [[]]" using append_butlast_last_id [OF assms(1)] assms(2) a by simp
  then show ?thesis by (simp add: join_with_def)
qed

text \<open>The logical lines joined again are the normalized text, up to one final line break.\<close>

lemma logical_lines_joined:
  "s = [] \<or> normalized_newlines s = join_with LF (splitLogicalLines s) \<or>
     normalized_newlines s = join_with LF (splitLogicalLines s) @ [LF]"
proof (cases "s = []")
  case False
  define ls where "ls = split_on LF (normalized_newlines s)"
  have j: "join_with LF ls = normalized_newlines s" by (simp add: ls_def join_split)
  have n: "ls \<noteq> []" by (simp add: ls_def split_on_nonempty)
  have sp: "splitLogicalLines s = (if last ls = [] then butlast ls else ls)"
    using False n by (simp add: splitLogicalLines_def ls_def normalized_newlines_def Let_def)
  show ?thesis
  proof (cases "last ls = [] \<and> butlast ls \<noteq> []")
    case True
    with join_butlast [OF n] j sp show ?thesis by simp
  next
    case False
    have "ls = [[]]" if "last ls = []" "butlast ls = []"
      using append_butlast_last_id [OF n] that by simp
    with False j sp show ?thesis by (auto simp: join_with_def)
  qed
qed simp

text \<open>
  The rows of an output: expanded they are all its lines; collapsed they are the first five, and the muted
  row counts exactly the lines that are not shown.
\<close>

lemma output_rows_exact:
  assumes "splitLogicalLines s \<noteq> []"
  shows "formatOutputRows s expanded =
    (if expanded \<or> length (splitLogicalLines s) \<le> 5 then map out_row (splitLogicalLines s)
     else map out_row (take 5 (splitLogicalLines s)) @
       [muted_row (''... '' @ digits_of (length (splitLogicalLines s) - 5) @ '' lines omitted'')])"
  using assms by (simp add: formatOutputRows_def limited_rows_def collapseLines_def COLLAPSED_OUTPUT_LINES_def Let_def)

section \<open>States\<close>

lemma stopped_failure: "stopped_state status = Some st \<Longrightarrow> st = TsTimedOut \<or> st = TsAborted"
  by (auto simp: stopped_state_def split: if_splits)

lemma error_state:
  "resolveTerminalState details result True = Inr st \<Longrightarrow> markerThemeColor st = ''error''"
  using stopped_failure [of "np_status details"]
  by (auto simp: resolveTerminalState_def markerThemeColor_def split: option.splits)

text \<open>What a result must report to be shown as completed.\<close>

definition reports_success :: "NativeToolPresentationDetails \<Rightarrow> js \<Rightarrow> bool" where
  "reports_success details result \<longleftrightarrow>
     (exitCodeOf details = None \<or> exitCodeOf details = Some 0) \<and>
     list_all (\<lambda>bad. np_status details \<noteq> Some bad)
       [''running'', ''timed_out'', ''timeout'', ''aborted'', ''cancelled'', ''canceled'', ''failed'', ''incomplete''] \<and>
     (np_status details = Some ''completed'' \<or> exitCodeOf details = Some 0 \<or>
      (\<exists>es e. content_items result = Inr es \<and> find_typed ''image'' es = Inr (Some e)) \<or>
      (\<exists>d items. member result ''details'' = Inr d \<and> planItems d = Some items))"

lemma completed_reported:
  assumes "resolveTerminalState details result isError = Inr TsCompleted"
  shows "\<not> isError \<and> reports_success details result"
proof -
  have e: "\<not> isError" using assms error_state [of details result TsCompleted] by (cases isError) (auto simp: markerThemeColor_def)
  have s: "stopped_state (np_status details) = None"
  proof (cases "stopped_state (np_status details)")
    case (Some st)
    with assms e stopped_failure [OF Some] show ?thesis by (auto simp: resolveTerminalState_def Let_def split: if_splits)
  qed
  then have n: "list_all (\<lambda>bad. np_status details \<noteq> Some bad) [''timed_out'', ''timeout'', ''aborted'', ''cancelled'', ''canceled'']"
    by (auto simp: stopped_state_def split: if_splits)
  have "list_all (\<lambda>bad. np_status details \<noteq> Some bad) [''running'', ''failed'', ''incomplete'']"
    using assms e s by (auto simp: resolveTerminalState_def Let_def split: if_splits)
  moreover have "exitCodeOf details = None \<or> exitCodeOf details = Some 0"
    using assms e s by (auto simp: resolveTerminalState_def Let_def split: if_splits)
  moreover have "np_status details = Some ''completed'' \<or> exitCodeOf details = Some 0 \<or>
      (\<exists>es e. content_items result = Inr es \<and> find_typed ''image'' es = Inr (Some e)) \<or>
      (\<exists>d items. member result ''details'' = Inr d \<and> planItems d = Some items)"
    using assms e s by (auto simp: resolveTerminalState_def Let_def split: if_splits option.splits)
  ultimately show ?thesis using e n by (simp add: reports_success_def)
qed

section \<open>The layout\<close>

text \<open>
  What the layout relies on: widths of joined texts add up at most, printable ASCII takes one column per character, the
  theme and the glyphs take no further columns, truncated text without its style sequences fits, and wrapped lines fit
  where the limit leaves room for a wide character.
\<close>

locale terminal_library =
  fixes env :: tui_env and theme :: ThemeLike
  assumes width_append: "tu_visibleWidth env (s @ t) \<le> tu_visibleWidth env s + tu_visibleWidth env t"
    and width_ascii: "list_all printable_ascii s \<Longrightarrow> tu_visibleWidth env s = length s"
    and width_fg: "tu_visibleWidth env (th_fg theme color s) = tu_visibleWidth env s"
    and width_bold: "tu_visibleWidth env (th_bold theme s) = tu_visibleWidth env s"
    and width_glyphs: "tu_visibleWidth env (tu_marker env) = 1" "tu_visibleWidth env (tu_continue env) = 1"
      "tu_visibleWidth env (tu_last env) = 1"
    and width_truncated: "3 < n \<Longrightarrow> tu_visibleWidth env (strip_sgr (tu_truncateToWidth env s n ''...'')) \<le> n"
    and width_wrapped: "2 \<le> n \<Longrightarrow> w \<in> set (tu_wrapTextWithAnsi env s n) \<Longrightarrow> tu_visibleWidth env w \<le> n"
begin

lemma ascii_widths:
  "tu_visibleWidth env '' '' = 1" "tu_visibleWidth env ''  '' = 2" "tu_visibleWidth env ''    '' = 4" "tu_visibleWidth env [] = 0"
  by (subst width_ascii; simp add: printable_ascii_def)+

lemma truncated_width: "int (tu_visibleWidth env (truncatePlain env s maxCols)) \<le> max 0 maxCols"
proof -
  have dots: "tu_visibleWidth env (take k ''...'') = min k 3" for k
  proof -
    have "list_all printable_ascii (take k ''...'')"
      by (auto simp: list_all_iff printable_ascii_def dest!: in_set_takeD)
    then show ?thesis by (subst width_ascii) (simp_all add: min.commute)
  qed
  have ascii: "tu_visibleWidth env (take k s @ ''...'') \<le> k + 3" if "list_all printable_ascii s" for k
  proof -
    have "list_all printable_ascii (take k s @ ''...'')"
      using that by (auto simp: list_all_iff printable_ascii_def dest!: in_set_takeD)
    then show ?thesis by (subst width_ascii) simp_all
  qed
  have t: "int (tu_visibleWidth env (strip_sgr (tu_truncateToWidth env s (nat maxCols) ''...''))) \<le> maxCols" if "3 < maxCols"
    using width_truncated [of "nat maxCols" s] that by linarith
  show ?thesis
    using dots [of "nat maxCols"] ascii [of "nat maxCols - 3"] t
    by (auto simp: truncatePlain_def ascii_widths)
qed

lemma title_width: "0 < budget \<Longrightarrow> int (tu_visibleWidth env (formatHeaderTitle env header budget)) \<le> budget"
proof -
  assume b: "0 < budget"
  show ?thesis
  proof (cases "hd_action header = None \<or> hd_summary header = None")
    case True
    with b truncated_width [of "hd_title header" budget] show ?thesis
      by (auto simp: formatHeaderTitle_def split: option.splits)
  next
    case False
    then obtain a m where am: "hd_action header = Some a" "hd_summary header = Some m" by auto
    define x where "x = (case hd_suffix header of None \<Rightarrow> [] | Some s \<Rightarrow> s)"
    define f where "f = int (tu_visibleWidth env (a @ '' '')) + int (tu_visibleWidth env x)"
    have eq: "formatHeaderTitle env header budget = (if budget \<le> f then truncatePlain env (a @ x) budget
        else a @ '' '' @ truncatePlain env m (max 1 (budget - f)) @ x)"
      by (simp add: formatHeaderTitle_def am x_def f_def Let_def)
    show ?thesis
    proof (cases "budget \<le> f")
      case True
      with b truncated_width [of "a @ x" budget] show ?thesis by (simp add: eq)
    next
      case False
      let ?m = "truncatePlain env m (max 1 (budget - f))"
      have "tu_visibleWidth env ((a @ '' '') @ (?m @ x)) \<le>
          tu_visibleWidth env (a @ '' '') + (tu_visibleWidth env ?m + tu_visibleWidth env x)"
        by (intro order_trans [OF width_append] add_mono order_refl width_append)
      with False truncated_width [of m "max 1 (budget - f)"] show ?thesis by (simp add: eq f_def)
    qed
  qed
qed

lemma header_width: "3 \<le> width \<Longrightarrow> int (tu_visibleWidth env (header_line env theme width header)) \<le> width"
proof -
  assume w: "3 \<le> width"
  define title where "title = formatHeaderTitle env header (max 1 (width - 2))"
  have "int (tu_visibleWidth env title) \<le> width - 2" using w title_width [of "width - 2" header] by (simp add: title_def max_def)
  moreover have "tu_visibleWidth env (x @ '' '' @ y) \<le> tu_visibleWidth env x + 1 + tu_visibleWidth env y" for x y
    using width_append [of x "'' '' @ y"] width_append [of "'' ''" y] by (simp add: ascii_widths)
  from this [of "th_fg theme (markerThemeColor (hd_state header)) (tu_marker env)" "th_fg theme ''toolTitle'' (th_bold theme title)"]
  have "tu_visibleWidth env (header_line env theme width header) \<le> 2 + tu_visibleWidth env title"
    unfolding header_line_def Let_def HEADER_PREFIX_COLS_def of_nat_numeral title_def [symmetric] width_fg width_bold width_glyphs
    by linarith
  ultimately show ?thesis by linarith
qed

lemma detail_width:
  assumes "6 \<le> width" and "l \<in> set (detail_lines env theme width isLast row)"
  shows "int (tu_visibleWidth env l) \<le> width"
proof -
  define g where "g = th_fg theme ''dim'' (if isLast then tu_last env else tu_continue env)"
  define ws where "ws = tu_wrapTextWithAnsi env (th_fg theme (if dr_kind row = RowMuted then ''muted'' else ''toolOutput'') (dr_text row))
    (nat (max 1 (width - 4)))"
  have g: "tu_visibleWidth env g = 1" by (simp add: g_def width_fg width_glyphs)
  have w: "tu_visibleWidth env s \<le> nat (width - 4)" if "s \<in> set ws" for s
    using that assms(1) width_wrapped [of "nat (width - 4)" s] by (simp add: ws_def max_def)
  have gut: "tu_visibleWidth env (''  '' @ g @ '' '' @ s) \<le> 4 + tu_visibleWidth env s" for s
  proof -
    have "tu_visibleWidth env (''  '' @ g @ '' '' @ s) \<le> 2 + tu_visibleWidth env (g @ '' '' @ s)"
      using width_append [of "''  ''" "g @ '' '' @ s"] by (simp add: ascii_widths)
    also have "tu_visibleWidth env (g @ '' '' @ s) \<le> 1 + tu_visibleWidth env ('' '' @ s)"
      using width_append [of g "'' '' @ s"] by (simp add: g)
    also have "tu_visibleWidth env ('' '' @ s) \<le> 1 + tu_visibleWidth env s"
      using width_append [of "'' ''" s] by (simp add: ascii_widths)
    finally show ?thesis by simp
  qed
  have ind: "tu_visibleWidth env (''    '' @ s) \<le> 4 + tu_visibleWidth env s" for s
    using width_append [of "''    ''" s] by (simp add: ascii_widths)
  have "l = ''  '' @ g @ '' '' @ [] \<or> (\<exists>s \<in> set ws. l = ''  '' @ g @ '' '' @ s \<or> l = ''    '' @ s)"
    using assms(2) unfolding detail_lines_def Let_def DETAIL_PREFIX_COLS_def of_nat_numeral g_def [symmetric] ws_def [symmetric]
    by (cases ws) auto
  then show ?thesis
  proof (elim disjE bexE)
    assume "l = ''  '' @ g @ '' '' @ []"
    with gut [of "[]"] assms(1) show ?thesis by (simp add: ascii_widths)
  next
    fix s assume s: "s \<in> set ws" and l: "l = ''  '' @ g @ '' '' @ s"
    show ?thesis using gut [of s] w [OF s] assms(1) unfolding l by linarith
  next
    fix s assume s: "s \<in> set ws" and l: "l = ''    '' @ s"
    show ?thesis using ind [of s] w [OF s] assms(1) unfolding l by linarith
  qed
qed

lemma details_width:
  assumes "6 \<le> width"
  shows "list_all (\<lambda>l. int (tu_visibleWidth env l) \<le> width) (all_detail_lines env theme width rows)"
  by (induction rows) (auto simp: list_all_iff intro: detail_width [OF assms])

lemma render_width:
  assumes "6 \<le> width"
  shows "list_all (\<lambda>l. int (tu_visibleWidth env l) \<le> width) (render env theme model width)"
  using assms details_width [of width "pm_details model"] header_width [of width]
  by (auto simp: render_def Let_def max_def split: option.split)

end

text \<open>Plain text satisfies the contract: one column per character, cut and wrapped by length, with the identity theme.\<close>

definition plain_tui :: tui_env where
  "plain_tui = \<lparr>tu_visibleWidth = length, tu_truncateToWidth = (\<lambda>s n e. take (n - length e) s @ e),
     tu_wrapTextWithAnsi = (\<lambda>s n. chunks n s), tu_number = (\<lambda>q. digits_of (nat \<lfloor>q\<rfloor>)), tu_parse = (\<lambda>_. None),
     tu_marker = ''*'', tu_continue = ''|'', tu_last = ''`''\<rparr>"

lemma strip_sgr_shorter: "length (strip_sgr s) \<le> length s"
proof (induction s rule: length_induct)
  case (1 s)
  show ?case
  proof (cases "sgr_rest s")
    case None
    with 1 show ?thesis by (subst strip_sgr.simps) (auto split: list.split)
  next
    case (Some r)
    with 1 sgr_rest_shorter [OF Some] show ?thesis by (subst strip_sgr.simps) fastforce
  qed
qed

interpretation plain_text: terminal_library plain_tui identityTheme
proof unfold_locales
  fix n s
  show "3 < n \<Longrightarrow> tu_visibleWidth plain_tui (strip_sgr (tu_truncateToWidth plain_tui s n ''...'')) \<le> n"
    using strip_sgr_shorter [of "take (n - 3) s @ ''...''"] by (auto simp: plain_tui_def numeral_3_eq_3)
  fix w
  show "2 \<le> n \<Longrightarrow> w \<in> set (tu_wrapTextWithAnsi plain_tui s n) \<Longrightarrow> tu_visibleWidth plain_tui w \<le> n"
    using chunks_bounded by (simp add: plain_tui_def)
qed (simp_all add: plain_tui_def identityTheme_def)

section \<open>Properties\<close>

text \<open>
  C38: no tool row is wider than the terminal. For every tool row, whatever its texts, and every terminal of at least six
  columns, each line that is drawn fits the terminal, provided the terminal library keeps its contract.
\<close>

theorem tool_rows_fit:
  assumes "terminal_library env theme" and "6 \<le> width"
  shows "list_all (\<lambda>l. int (tu_visibleWidth env l) \<le> width) (render env theme model width)"
  using assms by (rule terminal_library.render_width)

theorem tool_rows_fit_witness:
  "list_all (\<lambda>l. int (length l) \<le> 20)
     (render plain_tui identityTheme
       (renderResult plain_tui KindCommand
         (JObj [(''details'', JObj [(''status'', JStr ''completed''), (''output'', JStr ''a long line that has to be wrapped'')])])
         True False None) 20)"
  using tool_rows_fit [OF plain_text.terminal_library_axioms, of 20] by (simp add: plain_tui_def)

text \<open>
  C39: a failure never looks like a success. Every result has a header. It has the colour of a success only if the
  result is final, the host reports no error, the exit code is absent or zero, the status names no
  failure and no running command, and success is reported by the status, the exit code, an image or a plan; a
  final result with the error flag always has the colour of an error, also when presenting it threw.
\<close>

theorem success_only_if_reported:
  "case pm_header (renderResult env kind result expanded isPartial context) of
     None \<Rightarrow> False
   | Some h \<Rightarrow>
       (if markerThemeColor (hd_state h) = ''success''
        then \<not> isPartial \<and> \<not> context_error context \<and>
          (\<exists>d. member result ''details'' = Inr d \<and> reports_success (presentDetails d) result)
        else if context_error context \<and> \<not> isPartial then markerThemeColor (hd_state h) = ''error'' else True)"
proof -
  have st: "hd_state (terminalHeader env kind args details st) = st" "hd_state (runningHeader env kind args) = TsRunning" for args details st
    by (simp_all add: terminalHeader_def runningHeader_def commandHeader_def flat_header_def Let_def)
  have sc: "markerThemeColor x = ''success'' \<longleftrightarrow> x = TsCompleted" for x by (cases x) (simp_all add: markerThemeColor_def)
  show ?thesis
  proof (cases "result_body env kind result expanded isPartial context")
    case (Inl u)
    then show ?thesis by (simp add: renderResult_def flat_header_def Let_def markerThemeColor_def)
  next
    case (Inr model)
    show ?thesis
    proof (cases isPartial)
      case True
      with Inr show ?thesis by (auto simp: renderResult_def result_body_def Let_def st markerThemeColor_def)
    next
      case False
      then obtain d x rows where d: "member result ''details'' = Inr d"
          and x: "resolveTerminalState (presentDetails d) result (context_error context) = Inr x"
          and m: "model = \<lparr>pm_header = Some (terminalHeader env kind (context_args context) (presentDetails d) x), pm_details = rows\<rparr>"
        using Inr by (auto simp: result_body_def Let_def)
      have "x = TsCompleted \<Longrightarrow> \<not> context_error context \<and> reports_success (presentDetails d) result"
        using completed_reported x by blast
      moreover have "context_error context \<Longrightarrow> markerThemeColor x = ''error''" using error_state x by auto
      ultimately show ?thesis using Inr False d by (auto simp: renderResult_def m st sc)
    qed
  qed
qed

text \<open>A tool call shows one header: once execution has started the slot of the call is empty and the result has the header.\<close>

lemma single_header:
  "pm_header (renderResult env kind result expanded isPartial context) \<noteq> None \<and>
   (pm_header (renderCall env kind args context) = None \<longleftrightarrow> callSlotShouldBeEmpty context)"
proof -
  have "result_body env kind result expanded isPartial context = Inr model \<Longrightarrow> pm_header model \<noteq> None" for model
    by (auto simp: result_body_def Let_def split: if_splits)
  then show ?thesis
    by (auto simp: renderResult_def renderCall_def emptyComponent_def Let_def split: sum.split)
qed

end
