(* ===== verification/Redaction.thy ===== *)
theory Redaction
  imports Tool_Surface
begin

text \<open>
  The redaction policy for logs and error surfaces, \<open>src/src/domain/redaction.ts\<close>.

  The regular expressions are matchers that return every way to match at a position, in the order in which
  the backtracking matcher of the language tries them: a state is the character before the position and the rest of the
  text, and the match is the first of the list. Values live on the heap of the strict JSON test; what
  an accessor returns, and the name and message of error objects, are parameters. The walk threads the set
  of objects it has seen. It descends at most once into an object, so its depth is bounded by the number
  of objects; the bound is a parameter of the walk, and every larger one gives the same result. The main
  property is that nothing stored under a sensitive key has an influence on the result.
\<close>

section \<open>Matchers\<close>

type_synonym mstate = "char option \<times> string"
type_synonym matcher = "mstate \<Rightarrow> mstate list"

definition char_where :: "(char \<Rightarrow> bool) \<Rightarrow> matcher" where
  "char_where p st = (case snd st of [] \<Rightarrow> [] | c # r \<Rightarrow> if p c then [(Some c, r)] else [])"

definition and_then :: "matcher \<Rightarrow> matcher \<Rightarrow> matcher" where
  "and_then m m' st = concat (map m' (m st))"

definition or_else :: "matcher \<Rightarrow> matcher \<Rightarrow> matcher" where
  "or_else m m' st = m st @ m' st"

definition optional :: "matcher \<Rightarrow> matcher" where
  "optional m st = m st @ [st]"

text \<open>\<open>[class]{n,}\<close>: the longest run first.\<close>

definition run_of :: "nat \<Rightarrow> (char \<Rightarrow> bool) \<Rightarrow> matcher" where
  "run_of n p st = map (\<lambda>k. (if k = 0 then fst st else Some (snd st ! (k - 1)), drop k (snd st)))
     (rev [n..<Suc (length (takeWhile p (snd st)))])"

fun literally :: "(char \<Rightarrow> char \<Rightarrow> bool) \<Rightarrow> string \<Rightarrow> matcher" where
  "literally eq [] st = [st]"
| "literally eq (c # s) st = and_then (char_where (eq c)) (literally eq s) st"

abbreviation lit :: "string \<Rightarrow> matcher" where "lit \<equiv> literally (=)"
abbreviation lit_i :: "string \<Rightarrow> matcher" where "lit_i \<equiv> literally (\<lambda>c d. lower_char c = lower_char d)"

fun any_of :: "matcher list \<Rightarrow> matcher" where
  "any_of [] st = []"
| "any_of (m # ms) st = m st @ any_of ms st"

fun in_order :: "matcher list \<Rightarrow> matcher" where
  "in_order [] st = [st]"
| "in_order (m # ms) st = and_then m (in_order ms) st"

definition alnum :: "char \<Rightarrow> bool" where
  "alnum c \<longleftrightarrow> (let n = of_char c :: nat in 48 \<le> n \<and> n \<le> 57 \<or> 65 \<le> n \<and> n \<le> 90 \<or> 97 \<le> n \<and> n \<le> 122)"

definition alpha :: "char \<Rightarrow> bool" where
  "alpha c \<longleftrightarrow> (let n = of_char c :: nat in 65 \<le> n \<and> n \<le> 90 \<or> 97 \<le> n \<and> n \<le> 122)"

definition word_char :: "char \<Rightarrow> bool" where
  "word_char c \<longleftrightarrow> alnum c \<or> c = CHR ''_''"

definition word_boundary :: matcher where
  "word_boundary st =
    (if (case fst st of None \<Rightarrow> False | Some c \<Rightarrow> word_char c) \<noteq> (case snd st of [] \<Rightarrow> False | c # _ \<Rightarrow> word_char c)
     then [st] else [])"

text \<open>\<open>(?<![A-Za-z0-9_])\<close>.\<close>

definition not_after_word :: matcher where
  "not_after_word st = (if (case fst st of None \<Rightarrow> False | Some c \<Rightarrow> word_char c) then [] else [st])"

section \<open>Replacement\<close>

text \<open>A rule has its first group, what follows it, and the replacement as a function of the group.\<close>

record redaction_rule =
  rl_group :: matcher
  rl_tail :: matcher
  rl_replacement :: "string \<Rightarrow> string"

definition rule_matches :: "redaction_rule \<Rightarrow> mstate \<Rightarrow> (mstate \<times> mstate) list" where
  "rule_matches r st = concat (map (\<lambda>g. map (Pair g) (rl_tail r g)) (rl_group r st))"

text \<open>\<open>text.replace(rule, replacement)\<close> with the global flag; a match that consumes nothing does not occur.\<close>

function replace_from :: "redaction_rule \<Rightarrow> char option \<Rightarrow> string \<Rightarrow> string" where
  "replace_from r prev s =
    (case s of
       [] \<Rightarrow> []
     | c # rest \<Rightarrow>
       (case rule_matches r (prev, s) of
          (g, e) # _ \<Rightarrow> if length (snd e) < length s
            then rl_replacement r (take (length s - length (snd g)) s) @ replace_from r (fst e) (snd e)
            else c # replace_from r (Some c) rest
        | [] \<Rightarrow> c # replace_from r (Some c) rest))"
  by auto
termination
  by (relation "measure (\<lambda>(r, prev, s). length s)") auto

declare replace_from.simps [simp del]

definition replace_rule :: "redaction_rule \<Rightarrow> string \<Rightarrow> string" where
  "replace_rule r s = replace_from r None s"

section \<open>The rules\<close>

definition REDACTED :: string where "REDACTED = ''[REDACTED]''"
definition REDACTED_PATH :: string where "REDACTED_PATH = ''[PATH]''"
definition REDACTED_COMPACTION :: string where "REDACTED_COMPACTION = ''[COMPACTION]''"

definition AUTHORIZATION_HEADER :: redaction_rule where
  "AUTHORIZATION_HEADER = \<lparr>
     rl_group = and_then word_boundary (any_of [lit_i ''authorization'', lit_i ''proxy-authorization'']),
     rl_tail = in_order [run_of 0 js_space, char_where (\<lambda>c. c = CHR '':'' \<or> c = CHR ''=''), run_of 0 js_space,
       run_of 1 (\<lambda>c. c \<noteq> CHR 0x0D \<and> c \<noteq> CHR 0x0A \<and> c \<noteq> CHR '','' \<and> c \<noteq> CHR '';'')],
     rl_replacement = (\<lambda>g. g @ '': [REDACTED]'')\<rparr>"

definition bearer_char :: "char \<Rightarrow> bool" where
  "bearer_char c \<longleftrightarrow> alnum c \<or> c \<in> set ''._-+/=''"

definition BEARER_TOKEN :: redaction_rule where
  "BEARER_TOKEN = \<lparr>rl_group = and_then word_boundary (lit_i ''bearer''),
     rl_tail = in_order [run_of 1 js_space, run_of 1 bearer_char], rl_replacement = (\<lambda>g. g @ '' [REDACTED]'')\<rparr>"

definition key_char :: "char \<Rightarrow> bool" where
  "key_char c \<longleftrightarrow> alnum c \<or> c = CHR ''_'' \<or> c = CHR ''-''"

definition API_KEY_LITERAL :: redaction_rule where
  "API_KEY_LITERAL = \<lparr>
     rl_group = in_order [word_boundary, any_of [and_then (lit ''sk-'') (run_of 8 key_char), and_then (lit ''sk-proj-'') (run_of 8 key_char),
       and_then (lit ''sk-svcacct-'') (run_of 8 key_char)], word_boundary],
     rl_tail = (\<lambda>st. [st]), rl_replacement = (\<lambda>_. REDACTED)\<rparr>"

definition JWT_LITERAL :: redaction_rule where
  "JWT_LITERAL = \<lparr>
     rl_group = in_order [word_boundary, lit ''eyJ'', run_of 10 key_char, lit ''.'', run_of 10 key_char, lit ''.'', run_of 10 key_char, word_boundary],
     rl_tail = (\<lambda>st. [st]), rl_replacement = (\<lambda>_. REDACTED)\<rparr>"

definition path_char :: "char \<Rightarrow> bool" where
  "path_char c \<longleftrightarrow> \<not> js_space c \<and> c \<noteq> CHR 0x22 \<and> c \<noteq> CHR 0x27 \<and> c \<noteq> CHR 0x60"

definition ABSOLUTE_UNIX_PATH :: redaction_rule where
  "ABSOLUTE_UNIX_PATH = \<lparr>
     rl_group = in_order [not_after_word, lit ''/'', any_of [lit ''home'', lit ''Users'', lit ''private'', lit ''var/folders''], lit ''/'',
       run_of 1 path_char],
     rl_tail = (\<lambda>st. [st]), rl_replacement = (\<lambda>_. REDACTED_PATH)\<rparr>"

abbreviation BACKSLASH :: char where "BACKSLASH \<equiv> CHR 0x5C"

definition ABSOLUTE_WINDOWS_PATH :: redaction_rule where
  "ABSOLUTE_WINDOWS_PATH = \<lparr>
     rl_group = and_then not_after_word (or_else
       (in_order [char_where alpha, lit [CHR '':'', BACKSLASH], any_of [lit ''Users'', lit ''home''],
          optional (and_then (lit [BACKSLASH]) (run_of 1 path_char))])
       (in_order [lit [BACKSLASH, BACKSLASH], run_of 1 (\<lambda>c. path_char c \<and> c \<noteq> BACKSLASH), lit [BACKSLASH], run_of 1 path_char])),
     rl_tail = (\<lambda>st. [st]), rl_replacement = (\<lambda>_. REDACTED_PATH)\<rparr>"

definition redactText :: "string \<Rightarrow> string" where
  "redactText s = replace_rule ABSOLUTE_WINDOWS_PATH (replace_rule ABSOLUTE_UNIX_PATH (replace_rule JWT_LITERAL
     (replace_rule API_KEY_LITERAL (replace_rule BEARER_TOKEN (replace_rule AUTHORIZATION_HEADER s)))))"

definition redactString :: "string \<Rightarrow> string" where
  "redactString s = redactText s"

section \<open>Every match consumes text\<close>

text \<open>\<open>eats n m\<close>: a match of \<open>m\<close> consumes at least \<open>n\<close> characters.\<close>

definition eats :: "nat \<Rightarrow> matcher \<Rightarrow> bool" where
  "eats n m \<longleftrightarrow> (\<forall>st st'. st' \<in> set (m st) \<longrightarrow> length (snd st') + n \<le> length (snd st))"

lemma eatsI: "(\<And>st st'. st' \<in> set (m st) \<Longrightarrow> length (snd st') + n \<le> length (snd st)) \<Longrightarrow> eats n m"
  by (simp add: eats_def del: split_paired_All)

lemma eatsD: "eats n m \<Longrightarrow> st' \<in> set (m st) \<Longrightarrow> length (snd st') + n \<le> length (snd st)"
  by (simp add: eats_def del: split_paired_All)

lemma eats_le: "eats n m \<Longrightarrow> k \<le> n \<Longrightarrow> eats k m"
  by (intro eatsI) (use eatsD in fastforce)

lemma eats_char: "eats (Suc 0) (char_where p)"
  by (intro eatsI) (auto simp: char_where_def split: list.splits if_splits)

lemma eats_and_then: "eats n m \<Longrightarrow> eats k m' \<Longrightarrow> eats (n + k) (and_then m m')"
proof (rule eatsI)
  fix st st' assume e: "eats n m" "eats k m'" and "st' \<in> set (and_then m m' st)"
  then obtain st1 where "st1 \<in> set (m st)" "st' \<in> set (m' st1)" by (auto simp: and_then_def)
  then show "length (snd st') + (n + k) \<le> length (snd st)" using eatsD [OF e(1)] eatsD [OF e(2)] by fastforce
qed

lemma eats_or_else: "eats n m \<Longrightarrow> eats n m' \<Longrightarrow> eats n (or_else m m')"
  by (intro eatsI) (auto simp: or_else_def dest: eatsD)

lemma eats_optional: "eats 0 m \<Longrightarrow> eats 0 (optional m)"
  by (intro eatsI) (auto simp: optional_def dest: eatsD)

lemma eats_run: "eats n (run_of n p)"
proof (rule eatsI)
  fix st st' assume "st' \<in> set (run_of n p st)"
  then obtain k where k: "n \<le> k" "k \<le> length (takeWhile p (snd st))" "snd st' = drop k (snd st)"
    by (auto simp: run_of_def)
  moreover have "length (takeWhile p (snd st)) \<le> length (snd st)" by (rule length_takeWhile_le)
  ultimately show "length (snd st') + n \<le> length (snd st)" by simp
qed

lemma eats_literally: "eats (length s) (literally eq s)"
proof (induction s)
  case Nil
  show ?case by (rule eatsI) simp
next
  case (Cons c s)
  have "literally eq (c # s) = and_then (char_where (eq c)) (literally eq s)" by (simp add: fun_eq_iff)
  then show ?case using eats_and_then [OF eats_char Cons.IH, of "eq c"] by simp
qed

lemma eats_any_of: "list_all (eats n) ms \<Longrightarrow> eats n (any_of ms)"
  by (induction ms) (auto simp: eats_def)

lemma in_order_Cons: "in_order (m # ms) = and_then m (in_order ms)"
  by (simp add: fun_eq_iff)

lemma eats_in_order: "list_all (eats 0) ms \<Longrightarrow> eats 0 (in_order ms)"
proof (induction ms)
  case Nil
  show ?case by (rule eatsI) simp
next
  case (Cons m ms)
  then show ?case using eats_and_then [of 0 m 0 "in_order ms"] unfolding in_order_Cons by simp
qed

text \<open>One step of a sequence that consumes a character is enough.\<close>

lemma eats_in_order_some: "list_all (eats 0) ms \<Longrightarrow> list_ex (eats (Suc 0)) ms \<Longrightarrow> eats (Suc 0) (in_order ms)"
proof (induction ms)
  case (Cons m ms)
  show ?case
  proof (cases "eats (Suc 0) m")
    case True
    then show ?thesis using Cons.prems eats_and_then [OF True eats_in_order [of ms]] unfolding in_order_Cons by simp
  next
    case False
    then show ?thesis using Cons eats_and_then [of 0 m "Suc 0" "in_order ms"] unfolding in_order_Cons by simp
  qed
qed simp

lemma eats_tests: "eats 0 word_boundary" "eats 0 not_after_word" "eats 0 (\<lambda>st. [st])"
  by (rule eatsI, simp add: word_boundary_def not_after_word_def split: if_splits)+

lemma eats_step: "eats 0 (run_of n p)" "eats 0 (char_where q)" "eats 0 (literally eq w)" "eats (Suc 0) (char_where q)"
    "eats (Suc 0) (literally eq (c # w))"
  using eats_le [OF eats_run, of 0 n p] eats_le [OF eats_char, of 0 q] eats_le [OF eats_literally, of 0 w eq]
    eats_char [of q] eats_le [OF eats_literally, of "Suc 0" "c # w" eq] by simp_all

lemma eats_seq: "eats 0 m \<Longrightarrow> eats 0 m' \<Longrightarrow> eats 0 (and_then m m')" "eats 0 m \<Longrightarrow> eats (Suc 0) m' \<Longrightarrow> eats (Suc 0) (and_then m m')"
    "eats (Suc 0) m \<Longrightarrow> eats 0 m' \<Longrightarrow> eats (Suc 0) (and_then m m')"
  using eats_and_then [of 0 m 0 m'] eats_and_then [of 0 m "Suc 0" m'] eats_and_then [of "Suc 0" m 0 m'] by simp_all

lemmas eats_rules = eats_step eats_seq eats_tests eats_any_of eats_in_order eats_in_order_some eats_or_else eats_optional

lemma rule_eats:
  "r \<in> set [AUTHORIZATION_HEADER, BEARER_TOKEN, API_KEY_LITERAL, JWT_LITERAL, ABSOLUTE_UNIX_PATH, ABSOLUTE_WINDOWS_PATH] \<Longrightarrow>
   eats (Suc 0) (rl_group r) \<and> eats 0 (rl_tail r)"
  by (auto simp: AUTHORIZATION_HEADER_def BEARER_TOKEN_def API_KEY_LITERAL_def JWT_LITERAL_def ABSOLUTE_UNIX_PATH_def
      ABSOLUTE_WINDOWS_PATH_def eats_rules)

text \<open>So the test in \<open>replace_from\<close> for a match that consumes nothing never fails.\<close>

lemma rule_consumes:
  assumes "r \<in> set [AUTHORIZATION_HEADER, BEARER_TOKEN, API_KEY_LITERAL, JWT_LITERAL, ABSOLUTE_UNIX_PATH, ABSOLUTE_WINDOWS_PATH]"
    and "(g, e) \<in> set (rule_matches r st)"
  shows "length (snd e) < length (snd st)"
proof -
  have "g \<in> set (rl_group r st)" "e \<in> set (rl_tail r g)" using assms(2) by (auto simp: rule_matches_def)
  then show ?thesis using rule_eats [OF assms(1)] eatsD [of "Suc 0" "rl_group r" g st] eatsD [of 0 "rl_tail r" e g] by simp
qed

section \<open>Keys\<close>

text \<open>An anchored test, a search at every position, and a search that ends at the end of the text.\<close>

definition matches_whole :: "matcher \<Rightarrow> string \<Rightarrow> bool" where
  "matches_whole m s = list_ex (\<lambda>st. snd st = []) (m (None, s))"

fun found_in :: "(mstate \<Rightarrow> bool) \<Rightarrow> matcher \<Rightarrow> char option \<Rightarrow> string \<Rightarrow> bool" where
  "found_in stop m prev [] = list_ex stop (m (prev, []))"
| "found_in stop m prev (c # s) = (list_ex stop (m (prev, c # s)) \<or> found_in stop m (Some c) s)"

definition separator :: matcher where
  "separator = optional (char_where (\<lambda>c. c = CHR ''_'' \<or> c = CHR ''-''))"

definition spaced :: "string \<Rightarrow> string \<Rightarrow> matcher" where
  "spaced a b = in_order [lit_i a, separator, lit_i b]"

definition credential_names :: "matcher list" where
  "credential_names = [spaced ''api'' ''key'', spaced ''access'' ''token'', spaced ''refresh'' ''token'',
     spaced ''id'' ''token'', spaced ''session'' ''token'', lit_i ''token'', lit_i ''password'', lit_i ''secret'', lit_i ''credential'']"

definition user_content_names :: "matcher list" where
  "user_content_names = [lit_i ''prompt'', lit_i ''message'', lit_i ''messages'', lit_i ''content'', lit_i ''input'',
     spaced ''input'' ''preview'', lit_i ''chars'', spaced ''ok'' ''content'']"

definition compaction_names :: "matcher list" where
  "compaction_names = [lit_i ''compaction'', spaced ''compaction'' ''output'',
     and_then (lit_i ''compacted'') (optional (and_then separator (lit_i ''items'')))]"

definition containsSensitiveKey :: "string \<Rightarrow> bool" where
  "containsSensitiveKey key = matches_whole (any_of ([lit_i ''authorization'',
     in_order [lit_i ''proxy'', optional (char_where (\<lambda>c. c = CHR ''-'')), lit_i ''authorization''], lit_i ''x-api-key''] @
     credential_names @ [lit_i ''credentials''] @ user_content_names @ compaction_names)) key"

definition isPathKey :: "string \<Rightarrow> bool" where
  "isPathKey key = found_in (\<lambda>st. snd st = []) (any_of (map lit_i
     [''path'', ''file'', ''filename'', ''dir'', ''directory'', ''workdir'', ''cwd'', ''root''])) None key"

definition isCredentialKey :: "string \<Rightarrow> bool" where
  "isCredentialKey key \<longleftrightarrow> found_in (\<lambda>_. True) (any_of (lit_i ''authorization'' # credential_names)) None key \<and> \<not> isPathKey key"

definition isUserContentKey :: "string \<Rightarrow> bool" where
  "isUserContentKey key = matches_whole (any_of user_content_names) key"

definition isCompactionKey :: "string \<Rightarrow> bool" where
  "isCompactionKey key = matches_whole (any_of compaction_names) key"

definition looksLikeAbsolutePath :: "string \<Rightarrow> bool" where
  "looksLikeAbsolutePath s \<longleftrightarrow>
     starts_with s ''/home/'' \<or> starts_with s ''/Users/'' \<or> starts_with s ''/private/'' \<or> starts_with s ''/var/folders/'' \<or>
     in_order [char_where alpha, lit_i [CHR '':'', BACKSLASH], any_of [lit_i ''Users'', lit_i ''home'']] (None, s) \<noteq> [] \<or>
     starts_with s [BACKSLASH, BACKSLASH]"

section \<open>Values\<close>

datatype redacted_value =
    OUndef | ONull | OBool bool | ONum jsnum | OBigint int | OStr string
  | OArr "redacted_value list" | OObj "(string \<times> redacted_value) list"

text \<open>What an accessor of an object returns, and the name and the message of an error object.\<close>

record redaction_env =
  rd_accessor :: "addr \<Rightarrow> string \<Rightarrow> hval"
  rd_error :: "addr \<Rightarrow> (string \<times> string) option"

definition read_own :: "redaction_env \<Rightarrow> heap \<Rightarrow> addr \<Rightarrow> string \<Rightarrow> hval" where
  "read_own env h a k = (case map_of (own (h ! a)) (PName k) of
     Some (DataProp v _) \<Rightarrow> v | Some (AccessorProp _) \<Rightarrow> rd_accessor env a k | None \<Rightarrow> HUndef)"

text \<open>\<open>map\<close> with a callback that changes the set of seen objects.\<close>

fun map_seen :: "('a \<Rightarrow> addr set \<Rightarrow> 'b \<times> addr set) \<Rightarrow> 'a list \<Rightarrow> addr set \<Rightarrow> 'b list \<times> addr set" where
  "map_seen f [] seen = ([], seen)"
| "map_seen f (x # xs) seen = (let (y, seen1) = f x seen; (ys, seen2) = map_seen f xs seen1 in (y # ys, seen2))"

definition redactObjectEntry ::
  "(hval \<Rightarrow> addr set \<Rightarrow> redacted_value \<times> addr set) \<Rightarrow> string \<Rightarrow> hval \<Rightarrow> addr set \<Rightarrow> redacted_value \<times> addr set" where
  "redactObjectEntry redact key v seen =
    (if isCompactionKey key then (OStr REDACTED_COMPACTION, seen)
     else if isUserContentKey key \<or> isCredentialKey key then (OStr REDACTED, seen)
     else if isPathKey key \<and> (case v of HStr s \<Rightarrow> looksLikeAbsolutePath s | _ \<Rightarrow> False) then (OStr REDACTED_PATH, seen)
     else redact v seen)"

text \<open>A hole of an array is shown as an absent value; a key \<open>__proto__\<close> adds no property.\<close>

definition named_entries :: "(string \<times> redacted_value) list \<Rightarrow> (string \<times> redacted_value) list" where
  "named_entries kvs = filter (\<lambda>kv. fst kv \<noteq> ''__proto__'') kvs"

primrec redactUnknown ::
  "nat \<Rightarrow> redaction_env \<Rightarrow> heap \<Rightarrow> hval \<Rightarrow> addr set \<Rightarrow> redacted_value \<times> addr set" where
  "redactUnknown 0 env h v seen = (OStr REDACTED, seen)"
| "redactUnknown (Suc n) env h v seen = (case v of
     HNull \<Rightarrow> (ONull, seen)
   | HUndef \<Rightarrow> (OUndef, seen)
   | HStr s \<Rightarrow> (OStr (redactText s), seen)
   | HNum x \<Rightarrow> (ONum x, seen)
   | HBool b \<Rightarrow> (OBool b, seen)
   | HBigint i \<Rightarrow> (OBigint i, seen)
   | HFunction \<Rightarrow> (OStr REDACTED, seen)
   | HSymbol \<Rightarrow> (OStr REDACTED, seen)
   | HRef a \<Rightarrow>
      (case rd_error env a of
         Some (name, message) \<Rightarrow> (OObj [(''name'', OStr name), (''message'', OStr (redactText message))], seen)
       | None \<Rightarrow>
         if length h \<le> a \<or> a \<in> seen then (OStr REDACTED, seen)
         else if is_array (h ! a) then
           apfst OArr (map_seen (\<lambda>i. redactUnknown n env h (read_own env h a (digits_of i)))
             [0..<arr_length (h ! a)] (insert a seen))
         else
           apfst (\<lambda>vs. OObj (named_entries (zip (enumerable_names (h ! a)) vs)))
             (map_seen (\<lambda>k. redactObjectEntry (redactUnknown n env h) k (read_own env h a k))
               (enumerable_names (h ! a)) (insert a seen))))"

definition redactValue :: "redaction_env \<Rightarrow> heap \<Rightarrow> hval \<Rightarrow> redacted_value" where
  "redactValue env h v = fst (redactUnknown (Suc (length h)) env h v {})"

section \<open>The depth is enough\<close>

definition unseen :: "heap \<Rightarrow> addr set \<Rightarrow> nat" where
  "unseen h seen = card ({..<length h} - seen)"

lemma map_seen_grows:
  "(\<And>x s. x \<in> set xs \<Longrightarrow> s \<subseteq> snd (f x s)) \<Longrightarrow> seen \<subseteq> snd (map_seen f xs seen)"
proof (induction xs arbitrary: seen)
  case (Cons x xs)
  have "seen \<subseteq> snd (f x seen)" "snd (f x seen) \<subseteq> snd (map_seen f xs (snd (f x seen)))"
    using Cons.prems by (simp, intro Cons.IH, simp)
  then show ?case by (auto split: prod.splits)
qed simp

lemma entry_grows: "(\<And>s. s \<subseteq> snd (redact v s)) \<Longrightarrow> seen \<subseteq> snd (redactObjectEntry redact k v seen)"
  by (simp add: redactObjectEntry_def)

lemma redact_grows: "seen \<subseteq> snd (redactUnknown n env h v seen)"
proof (induction n arbitrary: v seen)
  case (Suc n)
  have a: "insert a seen \<subseteq> snd (map_seen (\<lambda>i. redactUnknown n env h (g i)) xs (insert a seen))" for a g and xs :: "nat list"
    by (rule map_seen_grows) (rule Suc.IH)
  have b: "insert a seen \<subseteq> snd (map_seen (\<lambda>k. redactObjectEntry (redactUnknown n env h) k (g k)) ks (insert a seen))" for a g ks
    by (rule map_seen_grows) (intro entry_grows Suc.IH)
  show ?case
    using a b by (auto split: hval.split option.split)
qed simp

lemma map_seen_cong:
  assumes "\<And>x s. x \<in> set xs \<Longrightarrow> s0 \<subseteq> s \<Longrightarrow> f x s = g x s" and "\<And>x s. x \<in> set xs \<Longrightarrow> s \<subseteq> snd (g x s)" and "s0 \<subseteq> seen"
  shows "map_seen f xs seen = map_seen g xs seen"
  using assms
proof (induction xs arbitrary: seen)
  case (Cons x xs)
  have e: "f x seen = g x seen" using Cons.prems by simp
  have "s0 \<subseteq> snd (g x seen)" using Cons.prems(2,3) by (meson list.set_intros(1) order_trans)
  then have "map_seen f xs (snd (g x seen)) = map_seen g xs (snd (g x seen))" using Cons.prems by (intro Cons.IH) auto
  then show ?case by (cases "g x seen") (simp add: e)
qed simp

lemma entry_cong: "r v s = r' v s \<Longrightarrow> redactObjectEntry r k v s = redactObjectEntry r' k v s"
  by (simp add: redactObjectEntry_def)

lemma unseen_insert: "a < length h \<Longrightarrow> a \<notin> seen \<Longrightarrow> insert a seen \<subseteq> s \<Longrightarrow> unseen h s < unseen h seen"
proof -
  assume a: "a < length h" "a \<notin> seen" "insert a seen \<subseteq> s"
  have "unseen h s \<le> unseen h (insert a seen)" unfolding unseen_def by (rule card_mono) (use a(3) in auto)
  also have "\<dots> < unseen h seen" unfolding unseen_def by (rule ancestors_decrease [OF a(2,1)])
  finally show ?thesis .
qed

text \<open>Every depth above the number of unseen objects gives the same result.\<close>

lemma depth_enough:
  "unseen h seen < n \<Longrightarrow> unseen h seen < m \<Longrightarrow> redactUnknown n env h v seen = redactUnknown m env h v seen"
proof (induction n arbitrary: m v seen)
  case (Suc n)
  from Suc.prems obtain m' where m: "m = Suc m'" by (cases m) auto
  have ih: "redactUnknown n env h w s = redactUnknown m' env h w s"
    if "a < length h" "a \<notin> seen" "insert a seen \<subseteq> s" for a w s
    using unseen_insert [OF that] Suc.prems m by (intro Suc.IH) auto
  have arr: "map_seen (\<lambda>i. redactUnknown n env h (g i)) xs (insert a seen) = map_seen (\<lambda>i. redactUnknown m' env h (g i)) xs (insert a seen)"
    if "a < length h" "a \<notin> seen" for a g and xs :: "nat list"
    by (rule map_seen_cong [where ?s0.0 = "insert a seen"]) (simp_all add: ih [OF that] redact_grows)
  have obj: "map_seen (\<lambda>k. redactObjectEntry (redactUnknown n env h) k (g k)) ks (insert a seen) =
      map_seen (\<lambda>k. redactObjectEntry (redactUnknown m' env h) k (g k)) ks (insert a seen)"
    if "a < length h" "a \<notin> seen" for a g ks
    by (rule map_seen_cong [where ?s0.0 = "insert a seen"]) (simp_all add: entry_cong [OF ih [OF that]] entry_grows redact_grows)
  show ?case
    unfolding m by (auto simp: arr obj split: hval.split option.split)
qed simp

section \<open>What the result depends on\<close>

text \<open>
  The part of an object that the walk may look at: the name and message of an error, the elements of an
  array, and the entries of any other object without the values stored under sensitive keys.
\<close>

definition sensitive :: "string \<Rightarrow> bool" where
  "sensitive k \<longleftrightarrow> isCompactionKey k \<or> isUserContentKey k \<or> isCredentialKey k"

definition view_of :: "redaction_env \<Rightarrow> heap \<Rightarrow> addr \<Rightarrow> (string \<times> string) option \<times> bool \<times> (string \<times> hval) list" where
  "view_of env h a =
    (if rd_error env a \<noteq> None then (rd_error env a, False, [])
     else if is_array (h ! a)
     then (None, True, map (\<lambda>i. (digits_of i, read_own env h a (digits_of i))) [0..<arr_length (h ! a)])
     else (None, False, map (\<lambda>k. (k, if sensitive k then HUndef else read_own env h a k)) (enumerable_names (h ! a))))"

definition ref_in :: "addr list \<Rightarrow> hval \<Rightarrow> bool" where
  "ref_in R v = (case v of HRef a \<Rightarrow> a \<in> set R | _ \<Rightarrow> True)"

text \<open>Two heaps look the same on a set of objects that is closed under the references in view.\<close>

definition same_view :: "addr list \<Rightarrow> redaction_env \<Rightarrow> redaction_env \<Rightarrow> heap \<Rightarrow> heap \<Rightarrow> bool" where
  "same_view R env env' h h' = list_all (\<lambda>a. a < length h \<and> a < length h' \<and> view_of env h a = view_of env' h' a \<and>
     list_all (\<lambda>kv. ref_in R (snd kv)) (snd (snd (view_of env h a)))) R"

definition walk_view :: "nat \<Rightarrow> redaction_env \<Rightarrow> heap \<Rightarrow> addr \<Rightarrow> addr set \<Rightarrow>
    (string \<times> string) option \<times> bool \<times> (string \<times> hval) list \<Rightarrow> redacted_value \<times> addr set" where
  "walk_view n env h a seen vw = (case fst vw of
     Some (name, message) \<Rightarrow> (OObj [(''name'', OStr name), (''message'', OStr (redactText message))], seen)
   | None \<Rightarrow>
     if a \<in> seen then (OStr REDACTED, seen)
     else if fst (snd vw) then apfst OArr (map_seen (\<lambda>kv. redactUnknown n env h (snd kv)) (snd (snd vw)) (insert a seen))
     else apfst (\<lambda>vs. OObj (named_entries (zip (map fst (snd (snd vw))) vs)))
       (map_seen (\<lambda>kv. redactObjectEntry (redactUnknown n env h) (fst kv) (snd kv)) (snd (snd vw)) (insert a seen)))"

lemma map_seen_map: "map_seen f (map g xs) seen = map_seen (\<lambda>x. f (g x)) xs seen"
  by (induction xs arbitrary: seen) simp_all

lemma entry_hides: "sensitive k \<Longrightarrow> redactObjectEntry r k v s = redactObjectEntry r k w s"
  by (auto simp: redactObjectEntry_def sensitive_def)

lemma entry_view: "redactObjectEntry r k (if sensitive k then HUndef else v) = redactObjectEntry r k v"
  using entry_hides [of k r HUndef _ v] by (simp add: fun_eq_iff)

lemma redact_ref: "a < length h \<Longrightarrow> redactUnknown (Suc n) env h (HRef a) seen = walk_view n env h a seen (view_of env h a)"
  by (cases "rd_error env a") (auto simp: walk_view_def view_of_def map_seen_map entry_view comp_def)

lemma map_seen_ext: "(\<And>x s. x \<in> set xs \<Longrightarrow> f x s = g x s) \<Longrightarrow> map_seen f xs seen = map_seen g xs seen"
  by (induction xs arbitrary: seen) simp_all

lemma same_view_walk:
  "same_view R env env' h h' \<Longrightarrow> ref_in R v \<Longrightarrow> redactUnknown n env h v seen = redactUnknown n env' h' v seen"
proof (induction n arbitrary: v seen)
  case (Suc n)
  show ?case
  proof (cases v)
    case (HRef a)
    then have a: "a < length h" "a < length h'" "view_of env h a = view_of env' h' a"
      "\<And>kv. kv \<in> set (snd (snd (view_of env' h' a))) \<Longrightarrow> ref_in R (snd kv)"
      using Suc.prems by (auto simp: same_view_def ref_in_def list_all_iff)
    have e: "redactUnknown n env h (snd kv) s = redactUnknown n env' h' (snd kv) s"
      if "kv \<in> set (snd (snd (view_of env' h' a)))" for kv s
      using Suc.IH [OF Suc.prems(1) a(4) [OF that]] .
    have e': "redactObjectEntry (redactUnknown n env h) (fst kv) (snd kv) s = redactObjectEntry (redactUnknown n env' h') (fst kv) (snd kv) s"
      if "kv \<in> set (snd (snd (view_of env' h' a)))" for kv s
      by (rule entry_cong) (rule e [OF that])
    have "walk_view n env h a seen (view_of env' h' a) = walk_view n env' h' a seen (view_of env' h' a)"
      using map_seen_ext [of "snd (snd (view_of env' h' a))", OF e]
        map_seen_ext [of "snd (snd (view_of env' h' a))", OF e']
      by (simp add: walk_view_def split: option.split)
    then show ?thesis using a by (simp only: HRef redact_ref)
  qed simp_all
qed simp

lemma unseen_bound: "unseen h {} < Suc (length h)"
  by (simp add: unseen_def)

lemma redactValue_depth: "length h < n \<Longrightarrow> redactValue env h v = fst (redactUnknown n env h v {})"
  unfolding redactValue_def using unseen_bound [of h] by (subst depth_enough [of h "{}" _ n]) (auto simp: unseen_def)


definition demo_env :: redaction_env where
  "demo_env = \<lparr>rd_accessor = (\<lambda>_ _. HUndef), rd_error = (\<lambda>_. None)\<rparr>"

definition demo_heap :: "string \<Rightarrow> heap" where
  "demo_heap secret = [
     \<lparr>is_array = False, proto = ObjectPrototype, own =
        [(PName ''ok'', DataProp (HBool True) True), (PName ''token'', DataProp (HRef 1) True), (PName ''me'', DataProp (HRef 0) True)],
      arr_length = 0\<rparr>,
     \<lparr>is_array = False, proto = ObjectPrototype, own = [(PName ''value'', DataProp (HStr secret) True)], arr_length = 0\<rparr>]"


lemmas key_tests = isCompactionKey_def isUserContentKey_def isCredentialKey_def isPathKey_def matches_whole_def
  compaction_names_def user_content_names_def credential_names_def spaced_def separator_def optional_def
  and_then_def char_where_def lower_char_def Let_def

lemma demo_key_ok: "\<not> isCompactionKey ''ok''" "\<not> isUserContentKey ''ok''" "\<not> isCredentialKey ''ok''" "\<not> isPathKey ''ok''"
  by (simp_all add: key_tests)

lemma demo_key_me: "\<not> isCompactionKey ''me''" "\<not> isUserContentKey ''me''" "\<not> isCredentialKey ''me''" "\<not> isPathKey ''me''"
  by (simp_all add: key_tests)

lemma demo_key_token: "\<not> isCompactionKey ''token''" "\<not> isUserContentKey ''token''" "isCredentialKey ''token''"
  by (simp_all add: key_tests)

lemmas demo_keys = demo_key_ok demo_key_me demo_key_token

lemma demo_view: "view_of demo_env (demo_heap s) 0 =
    (None, False, [(''ok'', HBool True), (''token'', HUndef), (''me'', HRef 0)])"
  by (simp add: view_of_def demo_env_def demo_heap_def enumerable_names_def own_names_def read_own_def demo_keys sensitive_def)


end
