(* ===== verification/Spec2Isabelle.thy ===== *)
theory Spec2Isabelle
  imports Config_Capability Structured_Json Capability_Resolution Config_Service Bridge_Runtime Session_Router
    Response_State Tool_Surface Compaction_Lifecycle Provider_Stream Approval_Prompt Settings_Overlay Tool_Activation
    Tool_Execution Bridge_Binary Extension_Entry Tool_Renderer Redaction
begin

text \<open>
  The pi-codex-adaptor is an extension of the Pi coding agent. It lets the agent talk to the Codex Responses interface
  through a native process, the bridge, offers the tools of Codex in place of those of the host, compacts
  long conversations remotely, and keeps a configuration file with a settings screen. This development
  models its TypeScript sources under \<open>src/src/\<close>, function by function and with the names of the sources, and proves
  what makes the parts correct.

  \<^bold>\<open>How the program runs and which theory models which part.\<close>

  \<^item> \<open>extension.ts\<close> (\<open>Extension_Entry\<close>, with \<open>host-capability.ts\<close>) creates the parts, registers the provider
  routes with the host, and answers the start and the shutdown of a session.
  \<^item> Configuration: \<open>domain/config.ts\<close> (\<open>Config_Schema\<close>: types, default and strict parser; \<open>Config_Capability\<close>: the gate before
  saving), \<open>file-config-repository.ts\<close> (\<open>Config_Repository\<close>: probe, load, save, restore over a disk),
  \<open>configuration.ts\<close>, \<open>provider-activation.ts\<close> and \<open>security-policy.ts\<close> (\<open>Config_Service\<close>: service, listeners, activation
  policy, warnings).
  \<^item> Capabilities: \<open>domain/capability.ts\<close> and \<open>resolve-effective-capabilities.ts\<close> (\<open>Capability_Resolution\<close>: parsers of the
  native answers, the effective snapshot, the cache of promises and its key).
  \<^item> The bridge: \<open>protocol.ts\<close> and \<open>identity.ts\<close> (\<open>Bridge_Protocol\<close>: schemas, frames, decoder, handshake),
  \<open>client.ts\<close> (\<open>Bridge_Client\<close>: requests, events, approvals, timers and failures as a state machine), \<open>binary.ts\<close> (\<open>Bridge_Binary\<close>:
  locating and verifying the executable), \<open>environment.ts\<close> and \<open>tool-execute-params.ts\<close> (\<open>Bridge_Host\<close>), \<open>runtime.ts\<close>
  (\<open>Bridge_Runtime\<close>: the shared connection, results, approvals).
  \<^item> Requests: \<open>provider-session-router.ts\<close> and \<open>provider-dispatcher.ts\<close> (\<open>Session_Router\<close>: leases and routes),
  \<open>provider-connection.ts\<close> (\<open>Provider_Connection\<close>), \<open>codex-message-normalization.ts\<close> (\<open>Message_Normalization\<close>),
  \<open>codex-provider-request-guard.ts\<close> (\<open>Request_Guard\<close>: approval of the request that is sent), \<open>codex-provider.ts\<close>
  (\<open>Response_Items\<close>: messages to items and back; \<open>Response_State\<close>: accumulation of a streamed response; \<open>Provider_Stream\<close>: one
  request from the call of the host to its terminal event, with \<open>codex-provider-error.ts\<close>).
  \<^item> Compaction: \<open>application/compaction.ts\<close> (\<open>Compaction_Checkpoint\<close>, \<open>Compaction_Store\<close>, \<open>Compaction_Coordinator\<close>),
  \<open>codex-compaction-replay.ts\<close> (\<open>Checkpoint_Replay\<close>), \<open>codex-compaction.ts\<close> and \<open>codex-compaction-ui.ts\<close>
  (\<open>Payload_Handler\<close>: the payload before it is sent; \<open>Compaction_Lifecycle\<close>: compaction for the host and the session events).
  \<^item> Tools: \<open>codex-tool-profile.ts\<close> (\<open>Tool_Profile\<close>: which tools of the host are active), \<open>codex-tool-surface.ts\<close> (\<open>Tool_Surface\<close>:
  the tools a model sees), \<open>codex-tools.ts\<close>, \<open>codex-status.ts\<close> and \<open>codex-system-prompt.ts\<close> (\<open>Tool_Activation\<close>: activation,
  supersession and status; \<open>Tool_Execution\<close>: arguments, requests, results and prompt), \<open>domain/plan.ts\<close> and
  \<open>update-plan.ts\<close> (\<open>Plan_Update\<close>).
  \<^item> Screens: \<open>render.ts\<close> (\<open>Terminal_Render\<close>), \<open>approval-model.ts\<close> and \<open>approval-prompt.ts\<close> (\<open>Approval_Prompt\<close>),
  \<open>settings-model.ts\<close> (\<open>Settings_Model\<close>), \<open>settings-overlay.ts\<close> (\<open>Settings_Overlay\<close>), \<open>codex-tool-renderer.ts\<close> (\<open>Tool_Renderer\<close>),
  \<open>diagnostics.ts\<close> and \<open>file-diagnostics-exporter.ts\<close> (\<open>Diagnostics\<close>), \<open>domain/redaction.ts\<close> (\<open>Redaction\<close>: the redaction policy for
  logs and errors, which no other part calls yet).
  \<^item> \<open>structured-json.ts\<close> (\<open>Structured_Json\<close>: the strict JSON test over an explicit heap of objects) justifies that the other
  theories work on finite trees.

  Two theories have no source of their own: \<open>Js_Prelude\<close> (JavaScript values, numbers with NaN and
  infinities, strings, results, objects as property lists, and the collections \<open>js_simps\<close> and \<open>key_simps\<close>) and \<open>Async_Steps\<close>.

  \<^bold>\<open>How state and effects correspond to the code.\<close> A class is a record of its fields, a union type a datatype, a
  method a function on the record; a thrown error is the left value of a result, with the state kept as
  it was at the throw. Calls of the file system are steps of a disk that may fail by an arbitrary schedule.
  Where the order of events matters the part is an inductive step relation (\<open>client_step\<close>, \<open>router_step\<close>, \<open>guard_step\<close>, \<open>cache_step\<close>,
  \<open>runtime_step\<close>, \<open>phase_step\<close>, \<open>adaptor_step\<close>), and its invariant holds in every reachable state, under every interleaving. An
  asynchronous handler is a step of \<open>Async_Steps\<close> from state to result and state; what it awaits is a
  parameter of the same kind, so whatever runs meanwhile is part of the parameter, and rules for
  \<open>preserves\<close>, \<open>ensures\<close> and \<open>triple\<close> carry invariants through the handler.

  \<^bold>\<open>Parameters and contracts.\<close> Code that is not in the repository is an argument: the schema validator, the JSON and URL
  parsers and the hash of the platform, the native process, the host and its terminal library. What the code relies on
  is a locale: \<open>schema_checker\<close> (the validator decides conformance), \<open>session_keys\<close> (keys of a session can be told apart by
  their prefix), \<open>config_repository\<close> (what a repository promises about the stored configuration), \<open>pi_host\<close> (the
  tool registry of the host), \<open>overlay_invariant\<close> (what the tasks of the overlay keep), \<open>terminal_library\<close> (widths of styled text). Each is
  interpreted on definitions of the model where the repository has an implementation (the file
  repository, the accounting keys, two invariants of the overlay) and otherwise on a concrete reference.

  \<^bold>\<open>What is shown.\<close> Per part: requests of the client settle once and only a verified peer is used; the bridge that
  serves a request is the packaged one; the frame decoder does not depend on chunks; the parser of the
  configuration accepts exactly its schema; saving and exporting are atomic under every fault; the policy and the routes
  follow the file; a capability needs its executor; only approved requests are sent, accounted for and replayed
  exactly; compaction is released on every path; response events rebuild the message; calls are answered; tools are
  restored; activation fails closed; no argument of a model reaches a setting of the host; protections are not
  turned off, and calls not approved, without a confirmation; drawn lines fit; failures never look like successes; redacted values do not depend on
  what they hide. This
  theory adds the property that spans the configuration file, the service, the policy and the
  routes of the host. The lemmas around the properties give the behaviour of each operation on its error paths.

  \<^bold>\<open>Bounds.\<close> Loops of the sources are structural recursion or functions with a proved measure; walks over cyclic
  object graphs end because the set of visited addresses grows. Only \<open>redactUnknown\<close> has a depth as an argument: one more
  than the number of objects, and \<open>depth_enough\<close> shows that every larger depth gives the same result. Byte counts, sequence numbers and
  limits are those of the sources; numbers are exact rationals, which contain the finite doubles, and
  strings are code units below 256, so surrogate pairs are out of scope.

  \<^bold>\<open>Not modelled.\<close> Starting the child process (\<open>spawnBridgeTransport\<close>), the registration calls that pass tables and renderers to
  the host, the widgets of checkpoint entries, the generated table \<open>generated/core-tools.ts\<close>, the type declarations of
  the host interface, the build and release scripts under
  \<open>scripts/\<close>, and the native bridge, which is written in Rust and is the peer of the protocol.
\<close>

section \<open>The configuration file and the routes of the host\<close>

abbreviation follows_file :: "string \<Rightarrow> (disk, 'h, 'd, 'y) adaptor \<Rightarrow> bool" where
  "follows_file p ad \<equiv> file_repo.coherent p POLICY_LISTENER (ex_service ad)"

lemma register_follows_file: "follows_file p (registerSelectedProviderRoutes env ad) = follows_file p ad"
  by (simp add: registerSelectedProviderRoutes_def file_repo.coherent_def)

text \<open>The service after a session start: unchanged, or refreshed.\<close>

lemma session_start_service:
  "ex_service (snd (extension_session_start env sid ad)) = ex_service ad \<or>
   (\<exists>ad'. snd (extension_session_start env sid ad) = registerSelectedProviderRoutes env ad' \<and>
      ex_service ad' = refresh (ee_repo env) (ex_service ad))"
proof -
  obtain r a where b: "bind_lease sid (take_lease env (release_lease ad)) = (r, a)" by fastforce
  have "ex_service a = ex_service ad" by (metis b snd_conv lease_frames(1,2,3))
  with b show ?thesis by (cases r) (fastforce simp: extension_session_start_def)+
qed

lemma session_start_follows_file:
  assumes "ee_repo env = file_repository p w" and "follows_file p ad"
  shows "follows_file p (snd (extension_session_start env sid ad))"
proof -
  have "file_repo.coherent p POLICY_LISTENER (refresh (file_repository p w) (ex_service ad))"
    using file_repo.coherent_step [OF assms(2), of SvcRefresh w] by simp
  with session_start_service [of env sid ad] assms show ?thesis by (auto simp: register_follows_file)
qed

lemma step_follows_file:
  assumes "adaptor_step sha env ad ad'" and "ee_repo env = file_repository p w" and "follows_file p ad"
  shows "follows_file p ad'"
  using assms
proof (induction rule: adaptor_step.induct)
  case (ad_session ad sid)
  then show ?case by (intro session_start_follows_file)
next
  case (ad_service a ad)
  then show ?case by (auto simp: POLICY_LISTENER_def intro: file_repo.coherent_step)
qed simp_all

lemma steps_follow_file:
  "(adaptor_step sha env)\<^sup>*\<^sup>* ad ad' \<Longrightarrow> ee_repo env = file_repository p w \<Longrightarrow> follows_file p ad \<Longrightarrow> follows_file p ad'"
  by (induction rule: rtranclp_induct) (auto intro: step_follows_file)

lemma steps_reachable:
  "(adaptor_step sha env)\<^sup>*\<^sup>* ad ad' \<Longrightarrow> adaptor_reachable sha env host ad \<Longrightarrow> adaptor_reachable sha env host ad'"
  by (induction rule: rtranclp_induct) (auto intro: ad_next)

text \<open>A session start whose load succeeds establishes the agreement.\<close>

lemma session_start_reads_file:
  assumes "ee_repo env = file_repository p w" and "adaptor_inv sha env host ad"
    and "loadOrCreate p w (svc_storage (ex_service ad)) = (Inr c, d)"
    and "extension_session_start env sid ad = (Inr (), ad')"
  shows "follows_file p ad'"
proof -
  have "(POLICY_LISTENER, PolicyListener) \<in> set (svc_listeners (ex_service ad))"
    using assms(2) by (auto simp: adaptor_inv_def service_ok_def)
  then have c: "file_repo.coherent p POLICY_LISTENER (refresh (file_repository p w) (ex_service ad))"
    using assms(3) by (intro file_repo.coherent_refresh) (simp_all add: file_repository_def)
  obtain r a where b: "bind_lease sid (take_lease env (release_lease ad)) = (r, a)" by fastforce
  have "ex_service a = ex_service ad" by (metis b snd_conv lease_frames(1,2,3))
  with b assms(1,4) c show ?thesis
    by (cases r) (auto simp: extension_session_start_def register_follows_file)
qed


definition file_extension :: "(disk, list_host, string) extension_env" where
  "file_extension = \<lparr>ee_repo = file_repository ''c'' calm, ee_profile = sample_profile_env,
     ee_functions = ee_functions sample_extension, ee_members = ee_members sample_extension, ee_dispatchers = ''dispatchers''\<rparr>"

definition file_adaptor :: "(disk, list_host, string, unit) adaptor" where
  "file_adaptor = start_adaptor file_extension blank_disk sample_host () new_runtime createProviderSessionRouter"

lemma file_adaptor_reachable: "adaptor_reachable sha file_extension sample_host file_adaptor"
proof -
  have "piCodexAdaptor file_extension (\<lambda>rt. (Inr (JObj [(''capabilities'', JArr [JStr ''compact_endpoint''])]), rt))
      (Inr createProviderSessionRouter) blank_disk sample_host () new_runtime = (Inr (Some file_adaptor), new_runtime)"
    by (simp add: piCodexAdaptor_def file_extension_def sample_extension_def host_has_def
        assertProviderPayloadCompactionHost_def capabilityVersion_def REQUIRED_VERSION_def assertRemoteCompactionBridge_def
        file_adaptor_def guard_err_def)
  from ad_begin [OF refl router_start this] show ?thesis .
qed

lemma file_extension_facts:
  "host_has file_extension ''registerProvider''" "host_has file_extension ''unregisterProvider''"
  "ee_repo file_extension = file_repository ''c'' calm"
  by (simp_all add: file_extension_def sample_extension_def host_has_def)

lemma file_adaptor_storage: "svc_storage (ex_service file_adaptor) = snd (loadOrCreate ''c'' calm blank_disk)"
  by (simp add: file_adaptor_def start_adaptor_def Let_def registerSelectedProviderRoutes_def take_lease_def new_adaptor_def
      new_policy_def onChange_def refresh_def service_load_def policy_replace_def file_extension_facts file_repository_def
      split: prod.split sum.split)

lemma first_load:
  "fst (loadOrCreate ''c'' calm blank_disk) = Inr createDefaultConfig"
  "fst (loadOrCreate ''c'' calm (snd (loadOrCreate ''c'' calm blank_disk))) = Inr createDefaultConfig"
  by (simp_all add: loadOrCreate_def readConfig_def readFile_def open_wx_def handle_write_def handle_sync_def
      handle_close_def mkdir_def io_defs calm_def blank_disk_def serialize_def lift_parse_eq parseConfig_config_js)


end
